(* ===== verification/Dcs_Prelude.thy ===== *)
theory Dcs_Prelude
  imports Main "HOL-Library.Word" "HOL-Library.Signed_Division" "HOL-Library.Monad_Syntax"
begin

text \<open>
  Shared vocabulary of the development: the Go data the repository uses everywhere (byte slices
  that may be nil, \<open>int\<close> division and remainder, decimal strings), the first-maximum scan that
  several packages write out by hand, and the lemma collections the component theories extend.

  Conventions. A Go \<open>[]byte\<close> is a value of type \<open>bytes\<close>: \<open>None\<close> is the nil slice, \<open>Some xs\<close>
  a non-nil one, so that the tests against nil of the code keep their meaning. A call that does not
  return (a runtime panic, or blocking for ever on a channel or a lock) is the value \<open>None\<close> of an
  \<open>option\<close>; \<open>do { ... }\<close> is the option monad of the library. Go's \<open>int\<close> is \<open>int\<close>: view numbers,
  heights and sequence numbers count up from 0 by one and never come near \<open>2 ^ 63\<close>; where the code
  narrows an \<open>int\<close> to a byte, the narrowing is written out (\<open>to_byte\<close>).
\<close>

named_theorems go_defs \<open>definitions of the Go primitives, for unfolding on closed terms\<close>
named_theorems frame_simps \<open>fields that an operation leaves unchanged\<close>

section \<open>Byte slices\<close>

type_synonym byte = "8 word"
type_synonym bytes = "byte list option"

definition bval :: "bytes \<Rightarrow> byte list" where
  "bval b = (case b of None \<Rightarrow> [] | Some xs \<Rightarrow> xs)"

lemma bval_simps [simp]: "bval None = []" "bval (Some xs) = xs"
  by (simp_all add: bval_def)

text \<open>\<open>bytes.Equal\<close>: nil and the empty slice are equal.\<close>

definition bytes_Equal :: "bytes \<Rightarrow> bytes \<Rightarrow> bool" where
  "bytes_Equal a b \<longleftrightarrow> bval a = bval b"

lemma bytes_Equal_refl [simp]: "bytes_Equal a a"
  by (simp add: bytes_Equal_def)

lemma bytes_Equal_sym: "bytes_Equal a b \<Longrightarrow> bytes_Equal b a"
  by (simp add: bytes_Equal_def)

lemma bytes_Equal_trans: "bytes_Equal a b \<Longrightarrow> bytes_Equal b c \<Longrightarrow> bytes_Equal a c"
  by (simp add: bytes_Equal_def)

text \<open>\<open>append(a, xs...)\<close>: appending nothing leaves a nil slice nil.\<close>

definition bytes_append :: "bytes \<Rightarrow> byte list \<Rightarrow> bytes" where
  "bytes_append a xs = (if xs = [] then a else Some (bval a @ xs))"

lemma bval_bytes_append [simp]: "bval (bytes_append a xs) = bval a @ xs"
  by (simp add: bytes_append_def)

text \<open>The conversion \<open>byte(x)\<close> keeps the low eight bits.\<close>

definition to_byte :: "int \<Rightarrow> byte" where
  "to_byte i = word_of_int i"

lemma to_byte_eq_iff: "to_byte i = to_byte j \<longleftrightarrow> i mod 256 = j mod 256"
  by (simp add: to_byte_def word_of_int_eq_iff take_bit_eq_mod)

lemma to_byte_inj_small:
  "\<lbrakk>to_byte i = to_byte j; 0 \<le> i; i < 256; 0 \<le> j; j < 256\<rbrakk> \<Longrightarrow> i = j"
  by (simp add: to_byte_eq_iff)

text \<open>Go strings are byte strings; \<open>string(b)\<close> and \<open>[]byte(s)\<close> convert without change.\<close>

definition str2bytes :: "string \<Rightarrow> byte list" where
  "str2bytes s = map of_char s"

definition bytes2str :: "byte list \<Rightarrow> string" where
  "bytes2str b = map (\<lambda>w. char_of (unat w)) b"

lemma of_char_byte: "(of_char c :: byte) = of_nat (of_char c)"
  by (simp only: of_nat_of_char)

lemma of_char_less_256: "(of_char c :: nat) < 256"
  by simp

lemma char_of_of_char_byte [simp]: "char_of (unat (of_char c :: byte)) = c"
  using of_char_less_256 [of c] by (simp add: of_char_byte unat_of_nat)

lemma bytes2str_str2bytes [simp]: "bytes2str (str2bytes s) = s"
  by (simp add: bytes2str_def str2bytes_def o_def)

lemma of_char_char_of_byte [simp]: "(of_char (char_of (unat b)) :: byte) = b" for b :: byte
proof -
  have "unat b < 256" using unsigned_less [of b] by simp
  then have "(of_char (char_of (unat b)) :: nat) = unat b"
    by (simp add: of_char_of take_bit_eq_mod)
  then show ?thesis by (simp only: of_char_byte) simp
qed

lemma str2bytes_bytes2str [simp]: "str2bytes (bytes2str b) = b"
  by (simp add: bytes2str_def str2bytes_def o_def)

lemma str2bytes_append [simp]: "str2bytes (s @ t) = str2bytes s @ str2bytes t"
  by (simp add: str2bytes_def)

lemma str2bytes_eq_iff [simp]: "str2bytes s = str2bytes t \<longleftrightarrow> s = t"
  by (metis bytes2str_str2bytes)

section \<open>Integer division\<close>

text \<open>
  \<open>a / b\<close> and \<open>a % b\<close> truncate towards zero and panic when \<open>b\<close> is 0. A division by a non-zero
  literal cannot panic and is written with \<open>sdiv\<close> and \<open>smod\<close> directly.
\<close>

definition go_rem :: "int \<Rightarrow> int \<Rightarrow> int option" where
  "go_rem a b = (if b = 0 then None else Some (a smod b))"

lemma smod_nonneg [simp]: "0 \<le> a \<Longrightarrow> 0 \<le> b \<Longrightarrow> a smod b = a mod b" for a b :: int
  by (cases "a = 0") (auto simp: signed_modulo_int_def sgn_if)

lemma sdiv_nonneg [simp]: "0 \<le> a \<Longrightarrow> 0 \<le> b \<Longrightarrow> a sdiv b = a div b" for a b :: int
  by (cases "a = 0"; cases "b = 0") (auto simp: signed_divide_int_def sgn_if)

text \<open>The vote threshold \<open>(n - 1) / 3 * 2\<close> that every protocol compares its counters with.\<close>

definition thr2f :: "int \<Rightarrow> int" where
  "thr2f n = (n - 1) sdiv 3 * 2"

lemma thr2f_pos: "1 \<le> n \<Longrightarrow> thr2f n = (n - 1) div 3 * 2"
  by (simp add: thr2f_def)

lemma thr2f_nonneg: "1 \<le> n \<Longrightarrow> 0 \<le> thr2f n"
  by (simp add: thr2f_pos)

definition above_thr :: "int \<Rightarrow> 'a list \<Rightarrow> bool" where
  "above_thr n xs \<longleftrightarrow> thr2f n < int (length xs)"

lemma above_thr_nonempty: "above_thr n xs \<Longrightarrow> 1 \<le> n \<Longrightarrow> xs \<noteq> []"
  using thr2f_nonneg [of n] by (auto simp: above_thr_def)

section \<open>Decimal numerals\<close>

definition digit_char :: "nat \<Rightarrow> char" where
  "digit_char d = char_of (48 + d)"

lemma of_char_digit_char: "d < 10 \<Longrightarrow> of_char (digit_char d) = (48 + d :: nat)"
  by (simp add: digit_char_def of_char_of take_bit_eq_mod)

fun nat_digits :: "nat \<Rightarrow> string" where
  "nat_digits n = (if n < 10 then [digit_char n] else nat_digits (n div 10) @ [digit_char (n mod 10)])"

declare nat_digits.simps [simp del]

text \<open>\<open>strconv.Itoa\<close>.\<close>

definition Itoa :: "int \<Rightarrow> string" where
  "Itoa i = (if i < 0 then CHR ''-'' # nat_digits (nat (- i)) else nat_digits (nat i))"

fun digits_value :: "nat \<Rightarrow> string \<Rightarrow> nat" where
  "digits_value acc [] = acc"
| "digits_value acc (c # cs) = digits_value (acc * 10 + (of_char c - 48)) cs"

lemma digits_value_snoc: "digits_value acc (cs @ [c]) = digits_value acc cs * 10 + (of_char c - 48)"
  by (induction cs arbitrary: acc) auto

lemma digits_value_nat_digits: "digits_value 0 (nat_digits n) = n"
proof (induction n rule: nat_digits.induct)
  case (1 n)
  show ?case
  proof (cases "n < 10")
    case True
    then show ?thesis by (simp add: nat_digits.simps of_char_digit_char)
  next
    case False
    then have "digits_value 0 (nat_digits n) = n div 10 * 10 + n mod 10"
      using "1.IH" by (simp add: nat_digits.simps [of n] digits_value_snoc of_char_digit_char)
    then show ?thesis by simp
  qed
qed

lemma nat_digits_inj: "nat_digits m = nat_digits n \<Longrightarrow> m = n"
  by (metis digits_value_nat_digits)

lemma nat_digits_chars: "c \<in> set (nat_digits n) \<Longrightarrow> \<exists>d<10. c = digit_char d"
proof (induction n rule: nat_digits.induct)
  case (1 n)
  have "\<exists>d<10. digit_char (n mod 10) = digit_char d"
    by (rule exI [of _ "n mod 10"]) simp
  with 1 show ?case
    by (cases "n < 10") (auto simp: nat_digits.simps [of n])
qed

lemma minus_not_digit: "CHR ''-'' \<noteq> digit_char d" if "d < 10"
proof
  assume "CHR ''-'' = digit_char d"
  then have "(of_char (CHR ''-'') :: nat) = 48 + d"
    using that by (simp add: of_char_digit_char)
  then show False by simp
qed

lemma minus_not_nat_digits: "CHR ''-'' # cs \<noteq> nat_digits n"
proof
  assume "CHR ''-'' # cs = nat_digits n"
  then have "CHR ''-'' \<in> set (nat_digits n)" by (metis list.set_intros(1))
  then show False using nat_digits_chars minus_not_digit by blast
qed

lemma Itoa_eq_iff [simp]: "Itoa i = Itoa j \<longleftrightarrow> i = j"
proof
  assume eq: "Itoa i = Itoa j"
  show "i = j"
  proof (cases "i < 0"; cases "j < 0")
    assume "i < 0" "j < 0"
    then have "nat (- i) = nat (- j)"
      using eq by (auto simp: Itoa_def dest: nat_digits_inj)
    then show ?thesis using \<open>i < 0\<close> \<open>j < 0\<close> by simp
  next
    assume "\<not> i < 0" "\<not> j < 0"
    then have "nat i = nat j" using eq by (auto simp: Itoa_def dest: nat_digits_inj)
    then show ?thesis using \<open>\<not> i < 0\<close> \<open>\<not> j < 0\<close> by simp
  qed (use eq minus_not_nat_digits in \<open>auto simp: Itoa_def\<close>, metis minus_not_nat_digits)
qed simp

text \<open>The name of node \<open>i\<close>, written \<open>"r_" + strconv.Itoa(i)\<close> all over the code.\<close>

definition node_name :: "int \<Rightarrow> string" where
  "node_name i = ''r_'' @ Itoa i"

lemma node_name_eq_iff [simp]: "node_name i = node_name j \<longleftrightarrow> i = j"
  by (simp add: node_name_def)

lemma node_name_not_Broadcast [simp]: "node_name i \<noteq> ''Broadcast''" "''Broadcast'' \<noteq> node_name i"
  by (simp_all add: node_name_def)

lemma node_name_not_Client [simp]: "node_name i \<noteq> ''Client''" "''Client'' \<noteq> node_name i"
  by (simp_all add: node_name_def)

section \<open>Scanning for the first maximum\<close>

text \<open>
  The loop \<open>for i := ...; if key(xs[i]) > max { index = i; max = key(xs[i]) }\<close> that selects the
  message with the highest certificate.
\<close>

fun max_scan :: "('a \<Rightarrow> int) \<Rightarrow> 'a list \<Rightarrow> nat \<Rightarrow> nat \<Rightarrow> int \<Rightarrow> nat" where
  "max_scan key [] i idx m = idx"
| "max_scan key (x # xs) i idx m =
     (if key x > m then max_scan key xs (Suc i) i (key x) else max_scan key xs (Suc i) idx m)"

definition first_max :: "('a \<Rightarrow> int) \<Rightarrow> 'a list \<Rightarrow> nat \<Rightarrow> bool" where
  "first_max key xs j \<longleftrightarrow> j < length xs \<and> (\<forall>i<length xs. key (xs ! i) \<le> key (xs ! j)) \<and>
     (\<forall>i<j. key (xs ! i) < key (xs ! j))"

lemma first_max_snoc:
  assumes "first_max key xs j"
  shows "first_max key (xs @ [x]) (if key x > key (xs ! j) then length xs else j)"
proof (cases "key x > key (xs ! j)")
  case True
  have "key (xs ! i) < key x" if "i < length xs" for i
    using assms True that by (meson first_max_def le_less_trans)
  with True show ?thesis
    by (auto simp: first_max_def nth_append less_Suc_eq intro: less_imp_le)
next
  case False
  with assms show ?thesis
    by (auto simp: first_max_def nth_append less_Suc_eq)
qed

lemma max_scan_first_max:
  assumes "first_max key pre idx" "m = key (pre ! idx)"
  shows "first_max key (pre @ xs) (max_scan key xs (length pre) idx m)"
  using assms
proof (induction xs arbitrary: pre idx m)
  case Nil
  then show ?case by simp
next
  case (Cons x xs)
  let ?j = "if key x > m then length pre else idx"
  have fm: "first_max key (pre @ [x]) ?j"
    using first_max_snoc [OF Cons.prems(1), of x] Cons.prems(2) by simp
  have len: "idx < length pre" using Cons.prems(1) by (simp add: first_max_def)
  have "(if key x > m then key x else m) = key ((pre @ [x]) ! ?j)"
    using len Cons.prems(2) by (simp add: nth_append)
  from Cons.IH [OF fm this] show ?case
    by (cases "key x > m") (simp_all add: append_assoc)
qed

lemma max_scan_head: "first_max key (x # xs) (max_scan key (x # xs) 0 0 (key x))"
proof -
  have "first_max key [x] 0" by (simp add: first_max_def)
  from max_scan_first_max [OF this, of "key x" xs] show ?thesis by simp
qed

section \<open>Small facts about lists and options\<close>

lemma length_update_map [simp]: "length (xs[i := f (xs ! i)]) = length xs"
  by simp

lemma bind_Some_iff: "Option.bind m f = Some y \<longleftrightarrow> (\<exists>x. m = Some x \<and> f x = Some y)"
  by (cases m) auto

lemma bind_None_iff: "Option.bind m f = None \<longleftrightarrow> m = None \<or> (\<exists>x. m = Some x \<and> f x = None)"
  by (cases m) auto

lemmas go_bindE = bind_Some_iff [THEN iffD1, elim_format]

lemmas [go_defs] = bytes_Equal_def bytes_append_def to_byte_def go_rem_def thr2f_def above_thr_def

end
