(* ===== verification/Dcs_Merkle.thy ===== *)
theory Dcs_Merkle
  imports Dcs_Prelude
begin

text \<open>
  The package \<open>merkle\<close> (bccrypto/merkle). The SM3 hash is third-party code and the parameter
  \<open>sm3\<close> of every definition. \<open>HashFromByteSlices\<close> is the recursive tree hash that blocks use for
  their root, \<open>HashFromByteSlicesIterative\<close> the in-place level-by-level one that proposals use.
  The lemmas show that the iterative array program computes the recursive tree over its leaf
  hashes, and what the root binds.
\<close>

section \<open>hash.go\<close>

definition Sum :: "(byte list \<Rightarrow> byte list) \<Rightarrow> byte list \<Rightarrow> byte list" where
  "Sum sm3 content = sm3 content"

definition EmptyHash :: "(byte list \<Rightarrow> byte list) \<Rightarrow> byte list" where
  "EmptyHash sm3 = Sum sm3 []"

definition leafHash :: "(byte list \<Rightarrow> byte list) \<Rightarrow> byte list \<Rightarrow> byte list" where
  "leafHash sm3 leaf = Sum sm3 leaf"

definition LeafHash :: "(byte list \<Rightarrow> byte list) \<Rightarrow> byte list \<Rightarrow> byte list" where
  "LeafHash sm3 leaf = Sum sm3 ([0] @ leaf)"

definition innerHash :: "(byte list \<Rightarrow> byte list) \<Rightarrow> byte list \<Rightarrow> byte list \<Rightarrow> byte list" where
  "innerHash sm3 left right = Sum sm3 ([1] @ left @ right)"

section \<open>tree.go\<close>

text \<open>\<open>bits.Len\<close> of the standard library: the number of bits of an unsigned value.\<close>

fun bits_Len :: "nat \<Rightarrow> nat" where
  "bits_Len n = (if n = 0 then 0 else Suc (bits_Len (n div 2)))"

declare bits_Len.simps [simp del]

definition getSplitPoint :: "int \<Rightarrow> int option" where
  "getSplitPoint len =
     (if len < 1 then None
      else let bitlen = bits_Len (nat len);
               k = 2 ^ (bitlen - 1)
           in Some (if k = len then k div 2 else k))"

lemma bits_Len_bounds: "0 < n \<Longrightarrow> 2 ^ (bits_Len n - 1) \<le> n \<and> n < 2 ^ bits_Len n"
proof (induction n rule: bits_Len.induct)
  case (1 n)
  show ?case
  proof (cases "n div 2 = 0")
    case True
    then have "n = 1" using "1.prems" by simp
    then show ?thesis by (simp add: bits_Len.simps)
  next
    case False
    then have IH: "2 ^ (bits_Len (n div 2) - 1) \<le> n div 2" "n div 2 < 2 ^ bits_Len (n div 2)"
      using 1 by simp_all
    have pos: "bits_Len (n div 2) = Suc (bits_Len (n div 2) - 1)"
      using False by (simp add: bits_Len.simps [of "n div 2"])
    have "2 ^ bits_Len (n div 2) = 2 * (2::nat) ^ (bits_Len (n div 2) - 1)"
      by (subst pos) simp
    with IH have "2 ^ bits_Len (n div 2) \<le> n" "n < 2 * 2 ^ bits_Len (n div 2)"
      by linarith+
    then show ?thesis using "1.prems" by (simp add: bits_Len.simps [of n])
  qed
qed

text \<open>The split point is the largest power of two below the length.\<close>

definition is_split :: "nat \<Rightarrow> nat \<Rightarrow> bool" where
  "is_split n k \<longleftrightarrow> (\<exists>j. k = 2 ^ j) \<and> k < n \<and> n \<le> 2 * k"

lemma is_split_unique: "is_split n k \<Longrightarrow> is_split n k' \<Longrightarrow> k = k'"
proof -
  assume a: "is_split n k" and b: "is_split n k'"
  then obtain i j where ij: "k = 2 ^ i" "k' = 2 ^ j" by (auto simp: is_split_def)
  have "k < 2 * k'" "k' < 2 * k"
    using a b unfolding is_split_def by linarith+
  then have p: "(2::nat) ^ i < 2 ^ Suc j" "(2::nat) ^ j < 2 ^ Suc i"
    using ij by auto
  have "i < Suc j" using p(1) by (rule power_less_imp_less_exp [rotated]) simp
  moreover have "j < Suc i" using p(2) by (rule power_less_imp_less_exp [rotated]) simp
  ultimately have "i = j" by simp
  with ij show ?thesis by simp
qed

lemma getSplitPoint_split:
  assumes "2 \<le> n"
  obtains k where "getSplitPoint (int n) = Some (int k)" "is_split n k"
proof -
  let ?p = "bits_Len n - 1"
  have b: "2 ^ ?p \<le> n" "n < 2 ^ bits_Len n"
    using bits_Len_bounds [of n] assms by auto
  have pos: "bits_Len n = Suc ?p"
    using assms by (simp add: bits_Len.simps [of n])
  have up: "n < 2 * 2 ^ ?p"
    using b(2) by (subst (asm) pos) simp
  have cast: "((2::int) ^ ?p = int n) = ((2::nat) ^ ?p = n)"
    by (metis of_nat_eq_iff of_nat_numeral of_nat_power)
  have gs: "getSplitPoint (int n) = Some (if (2::nat) ^ ?p = n then int n div 2 else int (2 ^ ?p))"
  proof (cases "(2::nat) ^ ?p = n")
    case True
    then have e: "(2::int) ^ ?p = int n" using cast by blast
    have "\<not> int n < 1" using assms by simp
    with True e show ?thesis by (simp only: getSplitPoint_def Let_def nat_int if_False if_True simp_thms)
  next
    case False
    then have "(2::int) ^ ?p \<noteq> int n" using cast by blast
    with False assms show ?thesis by (simp add: getSplitPoint_def Let_def)
  qed
  show thesis
  proof (cases "2 ^ ?p = n")
    case True
    then have "?p \<noteq> 0" using assms by (intro notI) simp
    then obtain q where q: "?p = Suc q" by (cases ?p) auto
    have half: "n = 2 * 2 ^ q" using True q by simp
    then have "getSplitPoint (int n) = Some (int (2 ^ q))"
      using gs True by simp
    moreover have "is_split n (2 ^ q)" using half by (auto simp: is_split_def)
    ultimately show thesis by (rule that)
  next
    case False
    then have "getSplitPoint (int n) = Some (int (2 ^ ?p))"
      using gs by simp
    moreover have "is_split n (2 ^ ?p)" using False b(1) up by (auto simp: is_split_def)
    ultimately show thesis by (rule that)
  qed
qed

text \<open>The recursive root. A panic of \<open>getSplitPoint\<close> would be \<open>None\<close>.\<close>

function HashFromByteSlices :: "(byte list \<Rightarrow> byte list) \<Rightarrow> byte list list \<Rightarrow> byte list option" where
  "HashFromByteSlices sm3 input =
     (case input of
        [] \<Rightarrow> Some (EmptyHash sm3)
      | [x] \<Rightarrow> Some (leafHash sm3 x)
      | _ # _ # _ \<Rightarrow> do {
          k \<leftarrow> getSplitPoint (int (length input));
          left \<leftarrow> HashFromByteSlices sm3 (take (nat k) input);
          right \<leftarrow> HashFromByteSlices sm3 (drop (nat k) input);
          Some (innerHash sm3 left right) })"
  by pat_completeness auto
termination
proof (relation "measure (\<lambda>(sm3, xs). length xs)", goal_cases)
  case 1
  then show ?case by simp
next
  case (2 sm3 input x list y zs k)
  then have "2 \<le> length input" by simp
  then obtain k' where "getSplitPoint (int (length input)) = Some (int k')" "is_split (length input) k'"
    by (rule getSplitPoint_split)
  with 2 show ?case by (auto simp: is_split_def)
next
  case (3 sm3 input x list y zs k)
  then have "2 \<le> length input" by simp
  then obtain k' where "getSplitPoint (int (length input)) = Some (int k')" "is_split (length input) k'"
    by (rule getSplitPoint_split)
  with 3 show ?case by (auto simp: is_split_def)
qed

declare HashFromByteSlices.simps [simp del]

text \<open>
  The iterative root works on one array: in each pass the read position \<open>rp\<close> runs over the
  \<open>size\<close> live entries and the write position \<open>wp\<close> stores the hashed pairs at the front.
\<close>

function merkle_pass ::
  "(byte list \<Rightarrow> byte list) \<Rightarrow> nat \<Rightarrow> byte list list \<Rightarrow> nat \<Rightarrow> nat \<Rightarrow> byte list list \<times> nat" where
  "merkle_pass sm3 sz items rp wp =
     (if rp < sz then
        if rp + 1 < sz
        then merkle_pass sm3 sz (items[wp := innerHash sm3 (items ! rp) (items ! (rp + 1))]) (rp + 2) (wp + 1)
        else merkle_pass sm3 sz (items[wp := items ! rp]) (rp + 1) (wp + 1)
      else (items, wp))"
  by pat_completeness auto
termination
  by (relation "measure (\<lambda>(sm3, sz, items, rp, wp). sz - rp)") auto

declare merkle_pass.simps [simp del]

lemma merkle_pass_wp: "snd (merkle_pass sm3 sz items rp wp) = wp + (sz - rp + 1) div 2"
proof (induction sm3 sz items rp wp rule: merkle_pass.induct)
  case (1 sm3 sz items rp wp)
  show ?case
  proof (cases "rp < sz")
    case True
    then show ?thesis
      using 1 by (cases "rp + 1 < sz") (simp_all add: merkle_pass.simps [of sm3 sz items rp wp])
  next
    case False
    then show ?thesis by (simp add: merkle_pass.simps)
  qed
qed

function merkle_levels :: "(byte list \<Rightarrow> byte list) \<Rightarrow> byte list list \<Rightarrow> nat \<Rightarrow> byte list" where
  "merkle_levels sm3 items sz =
     (if sz = 0 then EmptyHash sm3
      else if sz = 1 then items ! 0
      else let (items', wp) = merkle_pass sm3 sz items 0 0 in merkle_levels sm3 items' wp)"
  by pat_completeness auto
termination
proof (relation "measure (\<lambda>(sm3, items, sz). sz)", goal_cases)
  case 1
  then show ?case by simp
next
  case (2 sm3 items sz x items' wp)
  then have "merkle_pass sm3 sz items 0 0 = (items', wp)" by simp
  then have "wp = (sz + 1) div 2"
    using merkle_pass_wp [of sm3 sz items 0 0] by simp
  moreover have "2 \<le> sz" using 2 by linarith
  ultimately have "wp < sz" by linarith
  then show ?case by simp
qed

declare merkle_levels.simps [simp del]

definition HashFromByteSlicesIterative :: "(byte list \<Rightarrow> byte list) \<Rightarrow> byte list list \<Rightarrow> byte list" where
  "HashFromByteSlicesIterative sm3 input =
     (let items = map (\<lambda>leaf. Sum sm3 ([0] @ leaf)) input in merkle_levels sm3 items (length items))"

section \<open>The two roots are the same tree\<close>

text \<open>One pass over a list of hashes, and all passes down to one.\<close>

fun pairup :: "(byte list \<Rightarrow> byte list) \<Rightarrow> byte list list \<Rightarrow> byte list list" where
  "pairup sm3 (x # y # zs) = innerHash sm3 x y # pairup sm3 zs"
| "pairup sm3 xs = xs"

lemma length_pairup: "length (pairup sm3 xs) = (length xs + 1) div 2"
  by (induction sm3 xs rule: pairup.induct) auto

lemma pairup_append_even: "even (length xs) \<Longrightarrow> pairup sm3 (xs @ ys) = pairup sm3 xs @ pairup sm3 ys"
  by (induction sm3 xs rule: pairup.induct) auto

text \<open>The tree over given hashes, by the split point, as a specification.\<close>

function merkle_tree :: "(byte list \<Rightarrow> byte list) \<Rightarrow> byte list list \<Rightarrow> byte list" where
  "merkle_tree sm3 hs =
     (if length hs = 0 then EmptyHash sm3
      else if length hs = 1 then hs ! 0
      else let k = nat (the (getSplitPoint (int (length hs))))
           in innerHash sm3 (merkle_tree sm3 (take k hs)) (merkle_tree sm3 (drop k hs)))"
  by pat_completeness auto
termination
proof (relation "measure (\<lambda>(sm3, xs). length xs)", goal_cases)
  case 1
  then show ?case by simp
next
  case (2 sm3 hs k)
  then have "2 \<le> length hs" by linarith
  then obtain k' where "getSplitPoint (int (length hs)) = Some (int k')" "is_split (length hs) k'"
    by (rule getSplitPoint_split)
  with 2 show ?case by (auto simp: is_split_def)
next
  case (3 sm3 hs k)
  then have "2 \<le> length hs" by linarith
  then obtain k' where "getSplitPoint (int (length hs)) = Some (int k')" "is_split (length hs) k'"
    by (rule getSplitPoint_split)
  with 3 show ?case by (auto simp: is_split_def)
qed

declare merkle_tree.simps [simp del]

lemma merkle_tree_split:
  assumes "is_split (length hs) k"
  shows "merkle_tree sm3 hs = innerHash sm3 (merkle_tree sm3 (take k hs)) (merkle_tree sm3 (drop k hs))"
proof -
  have two: "2 \<le> length hs" using assms by (auto simp: is_split_def)
  then obtain k' where k': "getSplitPoint (int (length hs)) = Some (int k')" "is_split (length hs) k'"
    by (rule getSplitPoint_split)
  then have "k' = k" using assms is_split_unique by blast
  moreover have "hs \<noteq> []" using two by auto
  ultimately show ?thesis using two k'(1) by (simp add: merkle_tree.simps [of sm3 hs])
qed

lemma merkle_tree_single [simp]: "merkle_tree sm3 [h] = h"
  by (simp add: merkle_tree.simps)

lemma merkle_tree_Nil [simp]: "merkle_tree sm3 [] = EmptyHash sm3"
  by (simp add: merkle_tree.simps)

lemma HashFromByteSlices_tree:
  "HashFromByteSlices sm3 xs = Some (merkle_tree sm3 (map (leafHash sm3) xs))"
proof (induction xs rule: length_induct)
  case (1 xs)
  show ?case
  proof (cases "2 \<le> length xs")
    case True
    then obtain k where k: "getSplitPoint (int (length xs)) = Some (int k)" "is_split (length xs) k"
      by (rule getSplitPoint_split)
    then have "HashFromByteSlices sm3 (take k xs) = Some (merkle_tree sm3 (map (leafHash sm3) (take k xs)))"
      "HashFromByteSlices sm3 (drop k xs) = Some (merkle_tree sm3 (map (leafHash sm3) (drop k xs)))"
      using 1 by (auto simp: is_split_def)
    with True k show ?thesis
      using merkle_tree_split [of "map (leafHash sm3) xs" k sm3]
      by (auto simp: HashFromByteSlices.simps [of sm3 xs] take_map drop_map split: list.split)
  next
    case False
    then have "xs = [] \<or> (\<exists>x. xs = [x])" by (cases xs; cases "tl xs") auto
    then show ?thesis by (auto simp: HashFromByteSlices.simps)
  qed
qed

text \<open>Pairing up does not change the tree: the split point halves with the length.\<close>

lemma is_split_halve:
  assumes "is_split n k" "3 \<le> n"
  shows "even k" "is_split ((n + 1) div 2) (k div 2)"
proof -
  from assms obtain j where j: "k = 2 ^ j" by (auto simp: is_split_def)
  with assms have "j \<noteq> 0" by (intro notI) (auto simp: is_split_def)
  then obtain i where i: "j = Suc i" by (cases j) auto
  then show "even k" using j by simp
  have "k div 2 = 2 ^ i" using i j by simp
  moreover have "k div 2 < (n + 1) div 2" "(n + 1) div 2 \<le> 2 * (k div 2)"
    using assms \<open>even k\<close> by (auto simp: is_split_def)
  ultimately show "is_split ((n + 1) div 2) (k div 2)" by (auto simp: is_split_def)
qed

lemma merkle_tree_pairup: "merkle_tree sm3 (pairup sm3 hs) = merkle_tree sm3 hs"
proof (induction hs rule: length_induct)
  case (1 hs)
  show ?case
  proof (cases "3 \<le> length hs")
    case True
    then have "2 \<le> length hs" by simp
    then obtain k where k: "is_split (length hs) k" using getSplitPoint_split by metis
    note half = is_split_halve [OF k True]
    have kl: "0 < k" "k < length hs" using k by (auto simp: is_split_def)
    let ?p = "pairup sm3 (take k hs)" and ?q = "pairup sm3 (drop k hs)"
    have lp: "length ?p = k div 2" using half(1) kl by (simp add: length_pairup)
    have pq: "pairup sm3 hs = ?p @ ?q"
      using pairup_append_even [of "take k hs" sm3 "drop k hs"] half(1) kl by simp
    have "is_split (length (pairup sm3 hs)) (k div 2)" using half(2) by (simp add: length_pairup)
    then have "merkle_tree sm3 (pairup sm3 hs) = innerHash sm3 (merkle_tree sm3 ?p) (merkle_tree sm3 ?q)"
      using merkle_tree_split lp by (simp add: pq)
    also have "\<dots> = innerHash sm3 (merkle_tree sm3 (take k hs)) (merkle_tree sm3 (drop k hs))"
      using 1 kl by simp
    also have "\<dots> = merkle_tree sm3 hs" using merkle_tree_split [OF k] by simp
    finally show ?thesis .
  next
    case False
    then consider "hs = []" | h where "hs = [h]" | h i where "hs = [h, i]"
      by (cases hs; cases "tl hs"; cases "tl (tl hs)") auto
    then show ?thesis
    proof cases
      case 3
      then have "is_split (length hs) 1" by (auto simp: is_split_def intro: exI [of _ 0])
      then have "merkle_tree sm3 hs = innerHash sm3 h i" using merkle_tree_split 3 by fastforce
      with 3 show ?thesis by simp
    qed simp_all
  qed
qed

text \<open>The in-place pass: below \<open>wp\<close> the finished pairs, from \<open>rp\<close> on the entries still to read.\<close>

lemma merkle_pass_pairup:
  "\<lbrakk>wp \<le> rp; sz \<le> length items\<rbrakk> \<Longrightarrow>
     (let (items', wp') = merkle_pass sm3 sz items rp wp in
        length items' = length items \<and>
        take wp' items' = take wp items @ pairup sm3 (drop rp (take sz items)))"
proof (induction sm3 sz items rp wp rule: merkle_pass.induct)
  case (1 sm3 sz items rp wp)
  consider "sz \<le> rp" | "rp < sz" "\<not> rp + 1 < sz" | "rp + 1 < sz" by linarith
  then show ?case
  proof cases
    case 1
    then show ?thesis by (simp add: merkle_pass.simps)
  next
    case 2
    then have "sz = Suc rp" by linarith
    then have last: "drop rp (take sz items) = [items ! rp]"
      using "1.prems" by (simp add: take_Suc_conv_app_nth)
    have rest: "drop (rp + 1) (take sz (items[wp := items ! rp])) = []" using 2 by simp
    have "take (wp + 1) (items[wp := items ! rp]) = take wp items @ [items ! rp]"
      using 2 "1.prems" by (simp add: take_Suc_conv_app_nth)
    with "1.IH"(2) [OF _ 2(2)] "1.prems" 2 last rest show ?thesis
      by (simp add: merkle_pass.simps [of sm3 sz items rp wp] case_prod_beta Let_def)
  next
    case 3
    let ?h = "innerHash sm3 (items ! rp) (items ! (rp + 1))"
    have two: "drop rp (take sz items) = items ! rp # items ! (rp + 1) # drop (rp + 2) (take sz items)"
      using 3 "1.prems"
      by (metis Cons_nth_drop_Suc Suc_lessD add.commute add_2_eq_Suc length_take min.absorb2
          nth_take plus_1_eq_Suc)
    have rest: "drop (rp + 2) (take sz (items[wp := ?h])) = drop (rp + 2) (take sz items)"
      using "1.prems" 3 by (simp add: take_update_swap drop_update_cancel)
    have "take (wp + 1) (items[wp := ?h]) = take wp items @ [?h]"
      using 3 "1.prems" by (simp add: take_Suc_conv_app_nth)
    with "1.IH"(1) "1.prems" 3 two rest show ?thesis
      by (simp add: merkle_pass.simps [of sm3 sz items rp wp] case_prod_beta Let_def)
  qed
qed

lemma merkle_levels_tree: "sz \<le> length items \<Longrightarrow> merkle_levels sm3 items sz = merkle_tree sm3 (take sz items)"
proof (induction sm3 items sz rule: merkle_levels.induct)
  case (1 sm3 items sz)
  show ?case
  proof (cases "2 \<le> sz")
    case True
    obtain items' wp where p: "merkle_pass sm3 sz items 0 0 = (items', wp)" by fastforce
    have wp: "wp = (sz + 1) div 2" using merkle_pass_wp [of sm3 sz items 0 0] p by simp
    have res: "length items' = length items" "take wp items' = pairup sm3 (take sz items)"
      using merkle_pass_pairup [of 0 0 sz items sm3] "1.prems" p by simp_all
    have "merkle_levels sm3 items sz = merkle_levels sm3 items' wp"
      using True p by (simp add: merkle_levels.simps [of sm3 items sz])
    also have "\<dots> = merkle_tree sm3 (pairup sm3 (take sz items))"
      using "1.IH" [of _ items' wp] True p wp res "1.prems" by simp
    finally show ?thesis by (simp add: merkle_tree_pairup)
  next
    case False
    then have "sz = 0 \<or> sz = 1" by linarith
    moreover have "take 1 items = [items ! 0]" if "1 \<le> length items"
      using that by (cases items) auto
    ultimately show ?thesis
      using "1.prems" by (auto simp: merkle_levels.simps)
  qed
qed

section \<open>What the roots bind\<close>

text \<open>
  C25 The in-place, level-by-level root of a non-empty input is the recursive tree of the split
  points over the prefixed leaf hashes, for every input length; and the recursive routine computes
  the same tree over its own (unprefixed) leaf hashes and always returns.
\<close>

theorem merkle_roots_same_tree:
  "HashFromByteSlicesIterative sm3 input = merkle_tree sm3 (map (LeafHash sm3) input) \<and>
   HashFromByteSlices sm3 input = Some (merkle_tree sm3 (map (leafHash sm3) input))"
  by (simp add: HashFromByteSlicesIterative_def Let_def merkle_levels_tree HashFromByteSlices_tree
      LeafHash_def [abs_def])

text \<open>The inputs that the recursive root gives to the hash function, from the root to the leaves.\<close>

function hash_inputs :: "(byte list \<Rightarrow> byte list) \<Rightarrow> byte list list \<Rightarrow> byte list list" where
  "hash_inputs sm3 xs =
     (if length xs = 0 then [[]]
      else if length xs = 1 then [xs ! 0]
      else let k = nat (the (getSplitPoint (int (length xs))))
           in (1 # the (HashFromByteSlices sm3 (take k xs)) @ the (HashFromByteSlices sm3 (drop k xs))) #
              hash_inputs sm3 (take k xs) @ hash_inputs sm3 (drop k xs))"
  by pat_completeness auto
termination
proof (relation "measure (\<lambda>(sm3, xs). length xs)", goal_cases)
  case 1
  then show ?case by simp
next
  case (2 sm3 xs k)
  then have "2 \<le> length xs" by linarith
  then obtain k' where "getSplitPoint (int (length xs)) = Some (int k')" "is_split (length xs) k'"
    by (rule getSplitPoint_split)
  with 2 show ?case by (auto simp: is_split_def)
next
  case (3 sm3 xs k)
  then have "2 \<le> length xs" by linarith
  then obtain k' where "getSplitPoint (int (length xs)) = Some (int k')" "is_split (length xs) k'"
    by (rule getSplitPoint_split)
  with 3 show ?case by (auto simp: is_split_def)
qed

declare hash_inputs.simps [simp del]

lemma hash_inputs_single [simp]: "hash_inputs sm3 [x] = [x]"
  by (simp add: hash_inputs.simps)

lemma hash_inputs_split:
  assumes "is_split (length xs) k"
  shows "hash_inputs sm3 xs = (1 # the (HashFromByteSlices sm3 (take k xs)) @ the (HashFromByteSlices sm3 (drop k xs))) #
    hash_inputs sm3 (take k xs) @ hash_inputs sm3 (drop k xs)"
proof -
  have two: "2 \<le> length xs" using assms by (auto simp: is_split_def)
  then obtain k' where k': "getSplitPoint (int (length xs)) = Some (int k')" "is_split (length xs) k'"
    by (rule getSplitPoint_split)
  then have "k' = k" using assms is_split_unique by blast
  moreover have "xs \<noteq> []" using two by auto
  ultimately show ?thesis using two k'(1) by (simp add: hash_inputs.simps [of sm3 xs])
qed

lemma root_split:
  assumes "is_split (length xs) k"
  shows "the (HashFromByteSlices sm3 xs) =
    sm3 (1 # the (HashFromByteSlices sm3 (take k xs)) @ the (HashFromByteSlices sm3 (drop k xs)))"
  using merkle_tree_split [of "map (leafHash sm3) xs" k sm3] assms
  by (simp add: HashFromByteSlices_tree take_map drop_map innerHash_def Sum_def)

lemma root_single [simp]: "the (HashFromByteSlices sm3 [x]) = sm3 x"
  by (simp add: HashFromByteSlices_tree leafHash_def Sum_def)

lemma root_length:
  assumes "\<And>x. length (sm3 x) = 32"
  shows "length (the (HashFromByteSlices sm3 xs)) = 32"
proof -
  consider "xs = []" | x where "xs = [x]" | "2 \<le> length xs"
    by (cases xs; cases "tl xs") auto
  then show ?thesis
  proof cases
    case 3
    then obtain k where "is_split (length xs) k" using getSplitPoint_split by metis
    then show ?thesis by (simp add: root_split assms)
  qed (simp_all add: assms HashFromByteSlices_tree EmptyHash_def Sum_def leafHash_def)
qed

lemma length_hash_inputs: "length xs = length ys \<Longrightarrow> length (hash_inputs sm3 xs) = length (hash_inputs sm3 ys)"
proof (induction xs arbitrary: ys rule: length_induct)
  case (1 xs)
  show ?case
  proof (cases "2 \<le> length xs")
    case True
    then obtain k where k: "is_split (length xs) k" using getSplitPoint_split by metis
    then have k': "is_split (length ys) k" and kl: "0 < k" "k < length xs" using "1.prems" by (auto simp: is_split_def)
    have ih: "length (hash_inputs sm3 us) = length (hash_inputs sm3 vs)" if "length us < length xs" "length us = length vs" for us vs
      using "1.IH" that by blast
    have "length (hash_inputs sm3 (take k xs)) = length (hash_inputs sm3 (take k ys))"
      "length (hash_inputs sm3 (drop k xs)) = length (hash_inputs sm3 (drop k ys))"
      using kl "1.prems" by (simp_all add: ih)
    then show ?thesis by (simp add: hash_inputs_split [OF k] hash_inputs_split [OF k'])
  next
    case False
    then have "length xs = 0 \<or> length xs = 1" by linarith
    then show ?thesis using "1.prems" by (auto simp: hash_inputs.simps [of sm3 xs] hash_inputs.simps [of sm3 ys])
  qed
qed

definition collides :: "(byte list \<Rightarrow> byte list) \<Rightarrow> byte list list \<Rightarrow> byte list list \<Rightarrow> bool" where
  "collides sm3 us vs \<longleftrightarrow> (\<exists>i < length us. i < length vs \<and> us ! i \<noteq> vs ! i \<and> sm3 (us ! i) = sm3 (vs ! i))"

lemma collides_Cons: "collides sm3 (u # us) (v # vs) \<longleftrightarrow> u \<noteq> v \<and> sm3 u = sm3 v \<or> collides sm3 us vs"
  unfolding collides_def by (auto simp: less_Suc_eq_0_disj)

lemma collides_append:
  "length us = length vs \<Longrightarrow> collides sm3 (us @ us') (vs @ vs') \<longleftrightarrow> collides sm3 us vs \<or> collides sm3 us' vs'"
  by (induction us vs rule: list_induct2) (auto simp: collides_Cons, auto simp: collides_def)

text \<open>
  C28 The block root binds the transactions of a list of known length: if two different lists of the
  same length have the same root, then a collision of the hash function has been found on the way, at
  the same place of the two trees: among the inputs that the two computations hash, the first to the
  root and the last ones to the leaves, there are two at the same position that differ and have the same
  hash. All hashes are taken to be of 32 bytes.
\<close>

theorem merkle_root_binding:
  assumes "\<And>x. length (sm3 x) = 32"
    and "HashFromByteSlices sm3 xs = HashFromByteSlices sm3 ys"
    and "length xs = length ys" and "xs \<noteq> ys"
  shows "collides sm3 (hash_inputs sm3 xs) (hash_inputs sm3 ys)"
proof -
  have "the (HashFromByteSlices sm3 xs) = the (HashFromByteSlices sm3 ys)" using assms(2) by simp
  with assms(3,4) show ?thesis
  proof (induction xs arbitrary: ys rule: length_induct)
    case (1 xs)
    let ?r = "\<lambda>xs. the (HashFromByteSlices sm3 xs)"
    show ?case
    proof (cases "2 \<le> length xs")
      case True
      then obtain k where k: "is_split (length xs) k" using getSplitPoint_split by metis
      then have k': "is_split (length ys) k" and kl: "0 < k" "k < length xs" using "1.prems"(1) by (auto simp: is_split_def)
      let ?l = "length (hash_inputs sm3 (take k xs)) = length (hash_inputs sm3 (take k ys))"
      have l: ?l using length_hash_inputs [of "take k xs" "take k ys"] "1.prems"(1) by simp
      show ?thesis
      proof (cases "1 # ?r (take k xs) @ ?r (drop k xs) = 1 # ?r (take k ys) @ ?r (drop k ys)")
        case False
        with "1.prems"(3) show ?thesis
          by (simp add: hash_inputs_split [OF k] hash_inputs_split [OF k'] root_split [OF k] root_split [OF k'] collides_Cons)
      next
        case True
        then have r: "?r (take k xs) = ?r (take k ys)" "?r (drop k xs) = ?r (drop k ys)"
          by (simp_all add: root_length [OF assms(1)])
        have "take k xs \<noteq> take k ys \<or> drop k xs \<noteq> drop k ys" using "1.prems"(2) by (metis append_take_drop_id)
        moreover have ih: "collides sm3 (hash_inputs sm3 us) (hash_inputs sm3 vs)"
          if "length us < length xs" "length us = length vs" "us \<noteq> vs" "?r us = ?r vs" for us vs
          using "1.IH" that by blast
        have "length (take k xs) < length xs" "length (drop k xs) < length xs"
          "length (take k xs) = length (take k ys)" "length (drop k xs) = length (drop k ys)" using kl "1.prems"(1) by simp_all
        ultimately have "collides sm3 (hash_inputs sm3 (take k xs)) (hash_inputs sm3 (take k ys)) \<or>
            collides sm3 (hash_inputs sm3 (drop k xs)) (hash_inputs sm3 (drop k ys))"
          using ih r by blast
        then show ?thesis
          by (simp add: hash_inputs_split [OF k] hash_inputs_split [OF k'] collides_Cons collides_append [OF l])
      qed
    next
      case False
      then obtain x y where "xs = [x]" "ys = [y]" using "1.prems" by (cases xs; cases ys; cases "tl xs"; cases "tl ys") auto
      with "1.prems" show ?thesis by (simp add: collides_Cons)
    qed
  qed
qed

text \<open>A hash function that only tells the byte 1 from the rest: the roots of two pairs are equal, and so are the hashes of their first leaves.\<close>

theorem merkle_root_binding_witness:
  "collides (\<lambda>x. if x = [1] then replicate 32 1 else replicate 32 (0::byte))
     (hash_inputs (\<lambda>x. if x = [1] then replicate 32 1 else replicate 32 (0::byte)) [[2], [1]])
     (hash_inputs (\<lambda>x. if x = [1] then replicate 32 1 else replicate 32 (0::byte)) [[3], [1]])"
proof -
  have "is_split (length [x, y]) 1" for x y :: "byte list"
    unfolding is_split_def by (intro conjI exI [of _ 0]) simp_all
  from root_split [OF this] have "the (HashFromByteSlices sm3 [x, y]) = sm3 (1 # sm3 x @ sm3 y)" for sm3 x y
    by simp
  then have "HashFromByteSlices sm3 [x, y] = Some (sm3 (1 # sm3 x @ sm3 y))" for sm3 x y
    by (metis HashFromByteSlices_tree option.sel)
  then show ?thesis by (intro merkle_root_binding) simp_all
qed

text \<open>
  The length has to be known: the leaf hash has no prefix (the comment of \<open>leafHash\<close> and the
  prefix of \<open>LeafHash\<close> say it does), so an inner node is also a leaf and a two-transaction list and
  the one-transaction list holding its inner node have the same block root, for every hash
  function. The prefixed root of proposals has such a pair only if the hash function maps an input
  that starts with 0 and one that starts with 1 to the same hash.
\<close>

theorem merkle_second_preimage:
  "HashFromByteSlices sm3 [1 # sm3 a @ sm3 b] = HashFromByteSlices sm3 [a, b] \<and>
   (HashFromByteSlicesIterative sm3 [c] = HashFromByteSlicesIterative sm3 [a, b] \<longleftrightarrow>
      sm3 (0 # c) = sm3 (1 # sm3 (0 # a) @ sm3 (0 # b)))"
proof -
  have one: "getSplitPoint 2 = Some 1"
    by (simp add: getSplitPoint_def bits_Len.simps)
  have "is_split 2 1" unfolding is_split_def by (intro conjI exI [of _ 0]) simp_all
  then have pair: "merkle_tree sm3 [h, i] = innerHash sm3 h i" for h i
    using merkle_tree_split [of "[h, i]" 1 sm3] by (simp add: numeral_2_eq_2)
  then show ?thesis
    using one by (auto simp: HashFromByteSlices_tree HashFromByteSlicesIterative_def Let_def
      merkle_levels_tree pair innerHash_def leafHash_def Sum_def)
qed

end
