(* ===== verification/Dcs_Machine.thy ===== *)
theory Dcs_Machine
  imports Dcs_Prelude
begin

text \<open>
  State machines whose steps are the event handlers of a node. A step that does not return (a
  panic, a send nobody receives) is \<open>None\<close>, and so is a run that contains one. The locales are the
  contracts under which facts about single handlers carry over to whole runs: an invariant every
  handler keeps (\<open>machine\<close>), handlers that always return (\<open>total_machine\<close>) and a position that
  only moves forward with at most one vote per position (\<open>voting_machine\<close>). The consensus
  theories interpret them on their handlers.
\<close>

fun run :: "('s \<Rightarrow> 'e \<Rightarrow> 's option) \<Rightarrow> 's \<Rightarrow> 'e list \<Rightarrow> 's option" where
  "run step s [] = Some s"
| "run step s (e # es) = do { s' \<leftarrow> step s e; run step s' es }"

lemma run_append: "run step s (es @ fs) = do { s' \<leftarrow> run step s es; run step s' fs }"
  by (induction es arbitrary: s) (auto split: Option.bind_splits)

lemma run_ConsE:
  assumes "run step s (e # es) = Some t"
  obtains s' where "step s e = Some s'" "run step s' es = Some t"
  using assms by (auto simp: bind_Some_iff)

text \<open>The keys of the votes in a list of outputs, in the order of the outputs.\<close>

fun vote_keys :: "('o \<Rightarrow> 'k option) \<Rightarrow> 'o list \<Rightarrow> 'k list" where
  "vote_keys f [] = []"
| "vote_keys f (x # xs) = (case f x of None \<Rightarrow> vote_keys f xs | Some k \<Rightarrow> k # vote_keys f xs)"

lemma vote_keys_append [simp]: "vote_keys f (xs @ ys) = vote_keys f xs @ vote_keys f ys"
  by (induction xs) (auto split: option.splits)

lemma set_vote_keys: "set (vote_keys f xs) = {k. \<exists>x\<in>set xs. f x = Some k}"
  by (induction xs) (auto split: option.splits)

text \<open>The keys climb strictly, and stay above \<open>lo\<close> and up to \<open>hi\<close>.\<close>

definition votes_between :: "'k::linorder \<Rightarrow> 'k \<Rightarrow> 'k list \<Rightarrow> bool" where
  "votes_between lo hi ks \<longleftrightarrow> sorted_wrt (<) ks \<and> (\<forall>k\<in>set ks. lo < k \<and> k \<le> hi)"

lemma votes_between_Nil [simp]: "votes_between lo hi []"
  by (simp add: votes_between_def)

lemma votes_between_single [simp]: "votes_between lo hi [k] \<longleftrightarrow> lo < k \<and> k \<le> hi"
  by (simp add: votes_between_def)

lemma votes_between_append:
  "\<lbrakk>votes_between lo mid ks; votes_between mid hi ls; lo \<le> mid; mid \<le> hi\<rbrakk>
     \<Longrightarrow> votes_between lo hi (ks @ ls)"
  by (force simp: votes_between_def sorted_wrt_append)

lemma votes_between_distinct: "votes_between lo hi ks \<Longrightarrow> distinct ks"
  unfolding votes_between_def using strict_sorted_iff by blast

text \<open>What a step puts on a channel: nothing, or one message at the end.\<close>

definition one_more :: "'o list \<Rightarrow> 'o list \<Rightarrow> bool" where
  "one_more xs ys \<longleftrightarrow> ys = xs \<or> (\<exists>y. ys = xs @ [y])"

lemma one_more_refl [simp]: "one_more xs xs"
  by (simp add: one_more_def)

lemma one_more_snoc [simp]: "one_more xs (xs @ [y])"
  by (simp add: one_more_def)

lemma one_more_length: "one_more xs ys \<Longrightarrow> length ys \<le> length xs + 1"
  by (auto simp: one_more_def)

locale machine =
  fixes step :: "'s \<Rightarrow> 'e \<Rightarrow> 's option"
    and inv :: "'s \<Rightarrow> bool"
  assumes inv_step: "inv s \<Longrightarrow> step s e = Some s' \<Longrightarrow> inv s'"
begin

lemma run_inv: "inv s \<Longrightarrow> run step s es = Some t \<Longrightarrow> inv t"
  by (induction es arbitrary: s) (auto simp: bind_Some_iff intro: inv_step)

end

locale total_machine = machine +
  fixes ok :: "'e \<Rightarrow> bool"
  assumes step_returns: "inv s \<Longrightarrow> ok e \<Longrightarrow> \<exists>s'. step s e = Some s'"
begin

lemma run_returns: "inv s \<Longrightarrow> list_all ok es \<Longrightarrow> \<exists>t. run step s es = Some t"
proof (induction es arbitrary: s)
  case Nil
  then show ?case by simp
next
  case (Cons e es)
  then obtain s' where s': "step s e = Some s'" using step_returns by fastforce
  with Cons.prems inv_step have "inv s'" by blast
  with Cons.IH Cons.prems s' show ?case by simp
qed

end

locale voting_machine = machine +
  fixes key :: "'s \<Rightarrow> 'k::linorder"
    and out :: "'s \<Rightarrow> 'o list"
    and vkey :: "'o \<Rightarrow> 'k option"
  assumes key_step: "inv s \<Longrightarrow> step s e = Some s' \<Longrightarrow> key s \<le> key s'"
    and out_step: "inv s \<Longrightarrow> step s e = Some s' \<Longrightarrow>
      \<exists>new. out s' = out s @ new \<and> votes_between (key s) (key s') (vote_keys vkey new)"
begin

lemma run_key: "inv s \<Longrightarrow> run step s es = Some t \<Longrightarrow> key s \<le> key t"
proof (induction es arbitrary: s)
  case Nil
  then show ?case by simp
next
  case (Cons e es)
  from Cons.prems(2) obtain s' where s': "step s e = Some s'" "run step s' es = Some t"
    by (rule run_ConsE)
  with Cons key_step inv_step show ?case by (meson order_trans)
qed

lemma run_out:
  "inv s \<Longrightarrow> run step s es = Some t \<Longrightarrow>
     \<exists>new. out t = out s @ new \<and> votes_between (key s) (key t) (vote_keys vkey new)"
proof (induction es arbitrary: s)
  case Nil
  then show ?case by simp
next
  case (Cons e es)
  from Cons.prems(2) obtain s' where s': "step s e = Some s'" "run step s' es = Some t"
    by (rule run_ConsE)
  have inv': "inv s'" using Cons.prems(1) s'(1) by (rule inv_step)
  from Cons.IH [OF inv' s'(2)] obtain late where
    late: "out t = out s' @ late" "votes_between (key s') (key t) (vote_keys vkey late)" by auto
  from out_step [OF Cons.prems(1) s'(1)] obtain early where
    early: "out s' = out s @ early" "votes_between (key s) (key s') (vote_keys vkey early)" by auto
  have "votes_between (key s) (key t) (vote_keys vkey (early @ late))"
    using votes_between_append [OF early(2) late(2) key_step [OF Cons.prems(1) s'(1)]
      run_key [OF inv' s'(2)]] by simp
  with early(1) late(1) show ?case by (metis append_assoc)
qed

lemma run_votes_distinct:
  assumes "inv s" "run step s es = Some t" "out s = []"
  shows "distinct (vote_keys vkey (out t))"
  using run_out [OF assms(1,2)] assms(3) votes_between_distinct by auto

end

end
