(* ===== verification/Dcs_Common.thy ===== *)
theory Dcs_Common
  imports Dcs_Machine
begin

text \<open>
  The packages the protocols share: the view counter (orderer/common/view.go), the conversions
  between strings and byte slices (encode.go), the HotStuff node hashes (hotstuff_node.go), the
  envelope between servers (common/message) and the in-memory network (network/local). The lemmas
  give the leader rotation in closed form, the codecs' round trips, and who receives what.
\<close>

section \<open>Views\<close>

record View =
  ViewNumber :: int
  Leader :: int
  NodesNum :: int

definition NextView :: "View \<Rightarrow> View option" where
  "NextView v = do {
     l \<leftarrow> go_rem (Leader v + 1) (NodesNum v);
     Some (v\<lparr>Leader := l, ViewNumber := ViewNumber v + 1\<rparr>)
   }"

definition NextLeader :: "View \<Rightarrow> View option" where
  "NextLeader v = do { l \<leftarrow> go_rem (Leader v + 1) (NodesNum v); Some (v\<lparr>Leader := l\<rparr>) }"

definition RefreshLeader :: "View \<Rightarrow> View option" where
  "RefreshLeader v = do { l \<leftarrow> go_rem (Leader v) (NodesNum v); Some (v\<lparr>Leader := l\<rparr>) }"

definition UpdateView :: "View \<Rightarrow> int \<Rightarrow> int \<Rightarrow> View" where
  "UpdateView v viewNumber leader = v\<lparr>ViewNumber := viewNumber, Leader := leader\<rparr>"

definition UpdateNodesNum :: "View \<Rightarrow> int \<Rightarrow> View" where
  "UpdateNodesNum v newNodesNum = v\<lparr>NodesNum := newNodesNum\<rparr>"

definition LeaderName :: "View \<Rightarrow> string" where
  "LeaderName v = ''r_'' @ Itoa (Leader v)"

definition NextLeaderName :: "View \<Rightarrow> string option" where
  "NextLeaderName v = do { l \<leftarrow> go_rem (Leader v + 1) (NodesNum v); Some (''r_'' @ Itoa l) }"

definition LastLeaderName :: "View \<Rightarrow> string option" where
  "LastLeaderName v =
     do { l \<leftarrow> go_rem (Leader v + NodesNum v - 1) (NodesNum v); Some (''r_'' @ Itoa l) }"

text \<open>A well-formed view has nodes, and its leader is one of them.\<close>

definition view_ok :: "View \<Rightarrow> bool" where
  "view_ok v \<longleftrightarrow> 0 \<le> Leader v \<and> Leader v < NodesNum v"

lemma LeaderName_node_name: "LeaderName v = node_name (Leader v)"
  by (simp add: LeaderName_def node_name_def)

lemma LeaderName_simps [simp]:
  "LeaderName v = node_name i \<longleftrightarrow> Leader v = i" "node_name i = LeaderName v \<longleftrightarrow> i = Leader v"
  by (auto simp: LeaderName_node_name)

lemma NextView_ok:
  "view_ok v \<Longrightarrow>
     NextView v = Some (v\<lparr>Leader := (Leader v + 1) mod NodesNum v, ViewNumber := ViewNumber v + 1\<rparr>)"
  by (simp add: view_ok_def NextView_def go_rem_def)

lemma NextView_SomeD:
  "NextView v = Some v' \<Longrightarrow> ViewNumber v' = ViewNumber v + 1 \<and> NodesNum v' = NodesNum v"
  by (auto simp: NextView_def bind_Some_iff)

lemma NextView_view_ok: "view_ok v \<Longrightarrow> NextView v = Some v' \<Longrightarrow> view_ok v'"
  by (auto simp: NextView_ok view_ok_def)

lemma NextLeaderName_ok:
  "view_ok v \<Longrightarrow> NextLeaderName v = Some (node_name ((Leader v + 1) mod NodesNum v))"
  by (simp add: view_ok_def NextLeaderName_def go_rem_def node_name_def)

lemma LastLeaderName_ok:
  "view_ok v \<Longrightarrow> LastLeaderName v = Some (node_name ((Leader v - 1) mod NodesNum v))"
  by (simp add: view_ok_def LastLeaderName_def go_rem_def node_name_def
      mod_add_right_eq flip: add.assoc)
    (metis (no_types) add.commute diff_add_eq mod_add_self1 uminus_add_conv_diff)

text \<open>The loops \<open>for p.View.ViewNumber < v { p.View.NextView() }\<close> of PBFT and HotStuff-2.\<close>

function catch_up :: "View \<Rightarrow> int \<Rightarrow> View option" where
  "catch_up w v =
     (if ViewNumber w < v then (case NextView w of None \<Rightarrow> None | Some w' \<Rightarrow> catch_up w' v) else Some w)"
  by pat_completeness auto
termination
  by (relation "measure (\<lambda>(w, v). nat (v - ViewNumber w))") (auto dest: NextView_SomeD)

declare catch_up.simps [simp del]

lemma catch_up_ok:
  "view_ok w \<Longrightarrow> \<exists>w'. catch_up w v = Some w' \<and> view_ok w' \<and> NodesNum w' = NodesNum w \<and>
     ViewNumber w' = max (ViewNumber w) v \<and>
     Leader w' = (Leader w + (ViewNumber w' - ViewNumber w)) mod NodesNum w"
proof (induction w v rule: catch_up.induct)
  case (1 w v)
  show ?case
  proof (cases "ViewNumber w < v")
    case False
    with "1.prems" show ?thesis by (simp add: catch_up.simps view_ok_def)
  next
    case True
    have n: "NextView w = Some (w\<lparr>Leader := (Leader w + 1) mod NodesNum w, ViewNumber := ViewNumber w + 1\<rparr>)"
      using "1.prems" by (rule NextView_ok)
    have "view_ok (w\<lparr>Leader := (Leader w + 1) mod NodesNum w, ViewNumber := ViewNumber w + 1\<rparr>)"
      using NextView_view_ok [OF "1.prems" n] .
    from "1.IH" [OF True n this] obtain w' where w':
      "catch_up (w\<lparr>Leader := (Leader w + 1) mod NodesNum w, ViewNumber := ViewNumber w + 1\<rparr>) v = Some w'"
      "view_ok w'" "NodesNum w' = NodesNum w" "ViewNumber w' = max (ViewNumber w + 1) v"
      "Leader w' = ((Leader w + 1) mod NodesNum w + (ViewNumber w' - (ViewNumber w + 1))) mod NodesNum w"
      by auto
    have "Leader w' = (Leader w + (ViewNumber w' - ViewNumber w)) mod NodesNum w"
      unfolding w'(5) by (simp add: mod_add_left_eq)
    with w' True n show ?thesis by (subst catch_up.simps) auto
  qed
qed

lemma catch_up_same: "v \<le> ViewNumber w \<Longrightarrow> catch_up w v = Some w"
  by (simp add: catch_up.simps)

text \<open>
  The rotation contract: a step that goes to the next position and passes the lead on, modulo the
  number of nodes. Its closed form is proved once, for any component that rotates.
\<close>

locale rotation =
  fixes nxt :: "'v \<Rightarrow> 'v option"
    and num :: "'v \<Rightarrow> int"
    and lead :: "'v \<Rightarrow> int"
    and size_of :: "'v \<Rightarrow> int"
    and ok :: "'v \<Rightarrow> bool"
  assumes ok_bounds: "ok v \<Longrightarrow> 0 \<le> lead v \<and> lead v < size_of v"
    and next_returns: "ok v \<Longrightarrow> \<exists>v'. nxt v = Some v' \<and> ok v' \<and> size_of v' = size_of v \<and>
      num v' = num v + 1 \<and> lead v' = (lead v + 1) mod size_of v"
begin

lemma iterate:
  assumes "ok v"
  shows "\<exists>v'. run (\<lambda>s e. nxt s) v (replicate k ()) = Some v' \<and> ok v' \<and> size_of v' = size_of v \<and>
    num v' = num v + int k \<and> lead v' = (lead v + int k) mod size_of v"
  using assms
proof (induction k arbitrary: v)
  case 0
  then show ?case using ok_bounds by simp
next
  case (Suc k)
  from next_returns [OF Suc.prems] obtain w where w: "nxt v = Some w" "ok w"
    "size_of w = size_of v" "num w = num v + 1" "lead w = (lead v + 1) mod size_of v" by blast
  from Suc.IH [OF w(2)] w show ?case by (auto simp: mod_simps algebra_simps)
qed

lemma full_turn:
  assumes "ok v"
  shows "\<exists>v'. run (\<lambda>s e. nxt s) v (replicate (nat (size_of v)) ()) = Some v' \<and> lead v' = lead v"
proof -
  have "0 < size_of v" using ok_bounds [OF assms] by linarith
  with iterate [OF assms, of "nat (size_of v)"] ok_bounds [OF assms] show ?thesis by auto
qed

lemma everyone_leads:
  assumes "ok v" "0 \<le> i" "i < size_of v"
  shows "\<exists>k v'. k < nat (size_of v) \<and> run (\<lambda>s e. nxt s) v (replicate k ()) = Some v' \<and> lead v' = i"
proof -
  let ?k = "(i - lead v) mod size_of v"
  have k: "0 \<le> ?k" "?k < size_of v" using assms by simp_all
  have "(lead v + ?k) mod size_of v = i" using assms by (simp add: mod_simps)
  with iterate [OF assms(1), of "nat ?k"] k show ?thesis
    by (intro exI [of _ "nat ?k"]) auto
qed

end

interpretation view_rotation: rotation NextView ViewNumber Leader NodesNum view_ok
proof (unfold_locales, goal_cases)
  case (1 v)
  then show ?case by (simp add: view_ok_def)
next
  case (2 v)
  then show ?case using NextView_ok [OF 2] by (auto simp: view_ok_def)
qed

section \<open>Encodings\<close>

definition TwoDimByteSlice2StringSlice :: "byte list list \<Rightarrow> string list" where
  "TwoDimByteSlice2StringSlice byteSlice = map bytes2str byteSlice"

definition StringSlice2TwoDimByteSlice :: "string list \<Rightarrow> byte list list" where
  "StringSlice2TwoDimByteSlice strSlice = map str2bytes strSlice"

fun String2ByteSlice :: "string list \<Rightarrow> byte list list" where
  "String2ByteSlice msg = (if length msg = 0 then [] else foldl (\<lambda>res val. res @ [str2bytes val]) [] msg)"

definition TwoDimByteSlice2OneDimByteSlice :: "byte list list \<Rightarrow> byte list" where
  "TwoDimByteSlice2OneDimByteSlice twoDimByteSlice = foldl (\<lambda>byteSlice row. byteSlice @ row) [] twoDimByteSlice"

definition StringSlice2OneDimByteSlice :: "string list \<Rightarrow> byte list" where
  "StringSlice2OneDimByteSlice strSlice = TwoDimByteSlice2OneDimByteSlice (map str2bytes strSlice)"

text \<open>A slice expression \<open>row[:n]\<close> panics for a negative \<open>n\<close>; here \<open>n \<le> len(row)\<close>.\<close>

fun CutOff_rows :: "byte list list \<Rightarrow> int \<Rightarrow> byte list list option" where
  "CutOff_rows [] n = Some []"
| "CutOff_rows (row # rows) n =
     (if int (length row) < n then do { rest \<leftarrow> CutOff_rows rows n; Some (row # rest) }
      else if n < 0 then None
      else do { rest \<leftarrow> CutOff_rows rows n; Some (take (nat n) row # rest) })"

definition CutOffTwoDimByteSlice :: "byte list list \<Rightarrow> int \<Rightarrow> byte list list option" where
  "CutOffTwoDimByteSlice rows splitPoint =
     (if splitPoint = 0 then Some [] else CutOff_rows rows splitPoint)"

lemma foldl_snoc_map: "foldl (\<lambda>res x. res @ [f x]) acc xs = acc @ map f xs"
  by (induction xs arbitrary: acc) simp_all

lemma foldl_append_concat: "foldl (\<lambda>acc xs. acc @ xs) acc xss = acc @ concat xss"
  by (induction xss arbitrary: acc) simp_all

lemma String2ByteSlice_map: "String2ByteSlice msg = map str2bytes msg"
  by (simp add: foldl_snoc_map)

lemma OneDim_concat: "TwoDimByteSlice2OneDimByteSlice xss = concat xss"
  by (simp add: TwoDimByteSlice2OneDimByteSlice_def foldl_append_concat)

lemma CutOff_rows_pos: "0 < n \<Longrightarrow> CutOff_rows rows n = Some (map (take (nat n)) rows)"
  by (induction rows) auto

lemma CutOff_128 [simp]: "CutOffTwoDimByteSlice rows 128 = Some (map (take 128) rows)"
  by (simp add: CutOffTwoDimByteSlice_def CutOff_rows_pos)

section \<open>The HotStuff node hashes\<close>

record HsNode =
  CurHash :: bytes
  ParentHash :: bytes

definition HsNode_Object2Byte :: "HsNode \<Rightarrow> bytes" where
  "HsNode_Object2Byte h = bytes_append (CurHash h) (bval (ParentHash h))"

section \<open>Messages between servers\<close>

datatype SMsgType = REQUEST | NODEMGMT | ORDER | SType_other byte

text \<open>
  The payload is the JSON of the message of a sub-protocol; it is kept decoded, as a value of
  \<open>'p\<close>. The signature is the one of the outer envelope.
\<close>

record 'p ServerMsg =
  SType :: SMsgType
  SendServer :: string
  ReciServer :: string
  Sign :: bytes
  Payload :: 'p

section \<open>The in-memory network (network/local)\<close>

text \<open>
  The map of channels, as the list of its entries in the order the loop meets them (Go leaves that
  order open); a channel is the list of the values sent and not yet received. The channels are
  buffered and never full here; a send to a name that is not in the map is a send on a nil channel
  and blocks for ever.
\<close>

type_synonym 'b chans = "(string \<times> 'b list) list"

fun chan_send :: "string \<Rightarrow> 'b \<Rightarrow> 'b chans \<Rightarrow> 'b chans" where
  "chan_send n m [] = []"
| "chan_send n m ((k, q) # cs) = (if k = n then (k, q @ [m]) # cs else (k, q) # chan_send n m cs)"

definition Broadcast :: "'b chans \<Rightarrow> 'b \<Rightarrow> string \<Rightarrow> 'b chans" where
  "Broadcast nodeschan msg sendName =
     foldl (\<lambda>cs (name, q). chan_send name msg cs) nodeschan nodeschan"

definition Unicast :: "'b chans \<Rightarrow> 'b \<Rightarrow> string \<Rightarrow> string \<Rightarrow> 'b chans option" where
  "Unicast nodeschan msg reciName sendName =
     (if map_of nodeschan reciName = None then None else Some (chan_send reciName msg nodeschan))"

definition Fixedcast :: "'b list \<Rightarrow> 'b \<Rightarrow> 'b list" where
  "Fixedcast ch msg = ch @ [msg]"

definition Gossip :: "'b chans \<Rightarrow> 'b \<Rightarrow> string \<Rightarrow> 'b chans" where
  "Gossip nodeschan msg sendName =
     foldl (\<lambda>cs (name, q). if name = sendName then cs else chan_send name msg cs) nodeschan nodeschan"

lemma chan_send_fst [simp]: "map fst (chan_send n m cs) = map fst cs"
  by (induction n m cs rule: chan_send.induct) auto

lemma map_of_chan_send:
  "map_of (chan_send n m cs) k = (if k = n then map_option (\<lambda>q. q @ [m]) (map_of cs k) else map_of cs k)"
  by (induction n m cs rule: chan_send.induct) auto

lemma map_of_send_all:
  "distinct (map fst es) \<Longrightarrow>
     map_of (foldl (\<lambda>cs (name, q). if P name then cs else chan_send name m cs) cs es) k =
       (if k \<in> set (map fst es) \<and> \<not> P k then map_option (\<lambda>q. q @ [m]) (map_of cs k) else map_of cs k)"
  by (induction es arbitrary: cs) (auto simp: map_of_chan_send, force)

text \<open>
  Delivery on the in-memory network: whatever the order in which the loop meets the channels, a
  broadcast appends the message exactly once to the channel of every node, the sender's included; a
  gossip does so for every node but the sender; a unicast changes only the receiver's channel, and
  blocks when there is no such receiver.
\<close>

theorem network_delivery:
  assumes "distinct (map fst cs)"
  shows "map_of (Broadcast cs m s) k = map_option (\<lambda>q. q @ [m]) (map_of cs k) \<and>
    map_of (Gossip cs m s) k = (if k = s then map_of cs k else map_option (\<lambda>q. q @ [m]) (map_of cs k)) \<and>
    (case Unicast cs m r s of
       None \<Rightarrow> map_of cs r = None
     | Some cs' \<Rightarrow> map_of cs' = (map_of cs)(r \<mapsto> the (map_of cs r) @ [m]) \<and> map_of cs r \<noteq> None)"
proof -
  have none: "map_of cs k = None" if "k \<notin> set (map fst cs)"
    using that by (simp add: map_of_eq_None_iff)
  have b: "map_of (Broadcast cs m s) k = map_option (\<lambda>q. q @ [m]) (map_of cs k)"
    using map_of_send_all [OF assms, of "\<lambda>_. False" m cs k] none
    by (auto simp: Broadcast_def)
  have g: "map_of (Gossip cs m s) k = (if k = s then map_of cs k else map_option (\<lambda>q. q @ [m]) (map_of cs k))"
    using map_of_send_all [OF assms, of "\<lambda>n. n = s" m cs k] none
    by (auto simp: Gossip_def)
  show ?thesis using b g
    by (auto simp: Unicast_def map_of_chan_send fun_eq_iff split: option.splits)
qed

theorem network_delivery_witness:
  "map_of (Gossip [(''r_0'', []), (''r_1'', [7::int])] 3 ''r_0'') ''r_1'' = Some [7, 3]"
  using network_delivery [of "[(''r_0'', []), (''r_1'', [7::int])]" 3 "''r_0''" "''r_1''" "''r_1''"]
  by simp

end
