(* ===== verification/Dcs_Crypto.thy ===== *)
theory Dcs_Crypto
  imports Dcs_Common
begin

text \<open>
  The signers of bccrypto: SM2 signatures (sign_sm2), threshold BLS signatures (tss) and SM4
  encryption (encrypt_sm4). The primitives themselves come from third-party packages and are the
  fields of the record \<open>env\<close>, which every definition that reaches them takes as an argument; with
  the SM3 hash and the current reading of the clock it is all the outside world the protocols use.
  SM2 signing is randomised in the library; here its result is a function of key and message, and
  no theorem uses that two signatures of a message are equal.
\<close>

text \<open>
  A private share is its index with its scalar in binary form, a public polynomial an opaque value.
  \<open>TblsSign\<close>, \<open>TblsRecover\<close> and \<open>Sm2Sign\<close> return \<open>None\<close> for an error, which the code's callers see as
  a nil slice.
\<close>

type_synonym PriShare = "int \<times> byte list"
type_synonym PubPoly = "byte list"

record env =
  SM3 :: "byte list \<Rightarrow> byte list"
  Sm2Sign :: "bytes \<Rightarrow> bytes \<Rightarrow> byte list \<Rightarrow> byte list option"
  Sm2Verify :: "bytes \<Rightarrow> bytes \<Rightarrow> byte list \<Rightarrow> bool"
  TblsSign :: "PriShare \<Rightarrow> byte list \<Rightarrow> byte list option"
  TblsRecover :: "PubPoly \<Rightarrow> byte list \<Rightarrow> bytes list \<Rightarrow> int \<Rightarrow> int \<Rightarrow> byte list option"
  BdnVerify :: "PubPoly \<Rightarrow> byte list \<Rightarrow> bytes \<Rightarrow> bool"
  Clock :: int

text \<open>
  A concrete instance for the examples: a signature is the key followed by the message, and
  combining succeeds when there are at least as many shares as the threshold.
\<close>

definition example_env :: env where
  "example_env = \<lparr>SM3 = (\<lambda>m. m), Sm2Sign = (\<lambda>sk pk m. Some (bval sk @ m)),
     Sm2Verify = (\<lambda>s pk m. bval s = bval pk @ m), TblsSign = (\<lambda>sh m. Some (to_byte (fst sh) # m)),
     TblsRecover = (\<lambda>pub m shares t n. if t \<le> int (length shares) then Some (pub @ m) else None),
     BdnVerify = (\<lambda>pub m s. bval s = pub @ m), Clock = 0\<rparr>"

section \<open>SM2 signers\<close>

record ssm2_Signer =
  ID :: string
  Pk :: bytes
  Sk :: bytes
  Pks :: "string \<rightharpoonup> bytes"

definition ssm2_Sign :: "'a env_scheme \<Rightarrow> ssm2_Signer \<Rightarrow> byte list \<Rightarrow> bytes" where
  "ssm2_Sign env s msg =
     (case Sm2Sign env (Sk s) (Pk s) msg of None \<Rightarrow> None | Some sign \<Rightarrow> Some sign)"

definition ssm2_VerifySign :: "'a env_scheme \<Rightarrow> ssm2_Signer \<Rightarrow> string \<Rightarrow> bytes \<Rightarrow> byte list \<Rightarrow> bool" where
  "ssm2_VerifySign env s signerName sign msg =
     (case Pks s signerName of Some pk \<Rightarrow> Sm2Verify env sign pk msg | None \<Rightarrow> False)"

text \<open>
  The first loop of \<open>NewSigners\<close>: a failed key generation is tried again for the same index. The
  list holds the results of the successive calls of \<open>Sm2KeyGen\<close>, \<open>Inl\<close> for an error; \<open>None\<close> means
  that the loop needs more calls than the list holds.
\<close>

fun gen_signers :: "(unit + bytes \<times> bytes) list \<Rightarrow> int \<Rightarrow> nat \<Rightarrow> ssm2_Signer list option" where
  "gen_signers keygen i 0 = Some []"
| "gen_signers [] i (Suc n) = None"
| "gen_signers (Inl _ # keygen) i (Suc n) = gen_signers keygen i (Suc n)"
| "gen_signers (Inr (sk, pk) # keygen) i (Suc n) = do {
     rest \<leftarrow> gen_signers keygen (i + 1) n;
     Some (\<lparr>ID = ''r_'' @ Itoa i, Pk = pk, Sk = sk, Pks = (\<lambda>_. None)\<rparr> # rest)
   }"

definition add_pks :: "ssm2_Signer list \<Rightarrow> ssm2_Signer \<Rightarrow> ssm2_Signer" where
  "add_pks all s = foldl (\<lambda>s t. s\<lparr>Pks := (Pks s)(ID t \<mapsto> Pk t)\<rparr>) s all"

definition ssm2_NewSigners :: "(unit + bytes \<times> bytes) list \<Rightarrow> nat \<Rightarrow> ssm2_Signer list option" where
  "ssm2_NewSigners keygen num = do {
     newSigners \<leftarrow> gen_signers keygen 0 num;
     Some (map (add_pks newSigners) newSigners)
   }"

lemma gen_signers_props:
  "gen_signers keygen i n = Some ss \<Longrightarrow>
     length ss = n \<and> (\<forall>k<n. ID (ss ! k) = node_name (i + int k) \<and> Inr (Sk (ss ! k), Pk (ss ! k)) \<in> set keygen)"
proof (induction keygen i n arbitrary: ss rule: gen_signers.induct)
  case (4 sk pk keygen i n)
  then obtain rest where rest: "gen_signers keygen (i + 1) n = Some rest"
    "ss = \<lparr>ID = ''r_'' @ Itoa i, Pk = pk, Sk = sk, Pks = (\<lambda>_. None)\<rparr> # rest"
    by (auto simp: bind_Some_iff)
  from "4.IH" [OF rest(1)] show ?case
    by (auto simp: rest(2) nth_Cons node_name_def algebra_simps split: nat.split)
qed auto

lemma add_pks_id [simp]: "ID (add_pks all s) = ID s" "Pk (add_pks all s) = Pk s" "Sk (add_pks all s) = Sk s"
  by (induction all arbitrary: s) (simp_all add: add_pks_def)

lemma add_pks_keys:
  "Pks (add_pks all s) = Pks s ++ map_of (rev (map (\<lambda>t. (ID t, Pk t)) all))"
  by (induction all arbitrary: s) (simp_all add: add_pks_def)

text \<open>
  Key distribution: the signers that \<open>NewSigners\<close> makes are named \<open>r_0 ... r_(n-1)\<close>, and each of
  them accepts the signature of every one of them under the signer's name, however often key
  generation had to be retried, when the library verifies what it signs with a key pair it made.
\<close>

theorem ssm2_signers_verify_each_other:
  assumes sound: "\<And>sk pk m sign. Inr (sk, pk) \<in> set keygen \<Longrightarrow> Sm2Sign env sk pk m = Some sign
      \<Longrightarrow> Sm2Verify env (Some sign) pk m"
    and new: "ssm2_NewSigners keygen n = Some ss" and ij: "i < n" "j < n"
    and sign: "ssm2_Sign env (ss ! i) m = Some sign"
  shows "ID (ss ! i) = node_name (int i) \<and>
    ssm2_VerifySign env (ss ! j) (node_name (int i)) (Some sign) m"
proof -
  from new obtain gs where gs: "gen_signers keygen 0 n = Some gs" "ss = map (add_pks gs) gs"
    by (auto simp: ssm2_NewSigners_def bind_Some_iff)
  note props = gen_signers_props [OF gs(1)]
  have "distinct (map ID gs)"
    using props by (auto simp: distinct_conv_nth)
  then have "map_of (map (\<lambda>t. (ID t, Pk t)) gs) (ID (gs ! i)) = Some (Pk (gs ! i))"
    using props ij by (intro map_of_is_SomeI) (auto simp: comp_def intro!: image_eqI [of _ _ "gs ! i"])
  moreover have "map_of (rev (map (\<lambda>t. (ID t, Pk t)) gs)) = map_of (map (\<lambda>t. (ID t, Pk t)) gs)"
    using \<open>distinct (map ID gs)\<close> by (subst map_of_inject_set) (simp_all add: comp_def rev_map [symmetric])
  ultimately have "Pks (ss ! j) (node_name (int i)) = Some (Pk (gs ! i))"
    using props ij by (simp add: gs(2) add_pks_keys)
  moreover have "Sm2Sign env (Sk (gs ! i)) (Pk (gs ! i)) m = Some sign"
    using sign props ij by (simp add: gs(2) ssm2_Sign_def split: option.splits)
  moreover have "Inr (Sk (gs ! i), Pk (gs ! i)) \<in> set keygen" using props ij by simp
  ultimately show ?thesis
    using sound [of "Sk (gs ! i)" "Pk (gs ! i)" m sign] props ij by (simp add: gs(2) ssm2_VerifySign_def)
qed

theorem ssm2_signers_verify_each_other_witness:
  "let ss = the (ssm2_NewSigners [Inr (Some [1], Some [1]), Inl (), Inr (Some [2], Some [2])] 2)
   in ssm2_VerifySign example_env (ss ! 0) (node_name 1) (Some [2, 7]) [7]"
proof -
  let ?k = "[Inr (Some [1], Some [1]), Inl (), Inr (Some [2], Some [2])] :: (unit + bytes \<times> bytes) list"
  let ?ss = "the (ssm2_NewSigners ?k 2)"
  have new: "ssm2_NewSigners ?k 2 = Some ?ss"
    by (simp add: ssm2_NewSigners_def numeral_2_eq_2)
  have sign: "ssm2_Sign example_env (?ss ! 1) [7] = Some [2, 7]"
    by (simp add: ssm2_NewSigners_def numeral_2_eq_2 ssm2_Sign_def example_env_def)
  have "ID (?ss ! 1) = node_name (int 1) \<and>
    ssm2_VerifySign example_env (?ss ! 0) (node_name (int 1)) (Some [2, 7]) [7]"
    by (rule ssm2_signers_verify_each_other [OF _ new _ _ sign]) (auto simp: example_env_def)
  then show ?thesis by simp
qed

section \<open>Threshold signers\<close>

record tss_Signer =
  PrivateKey :: PriShare
  PublicKey :: PubPoly
  SignNum :: int
  Threshold :: int

text \<open>
  The shares and the public polynomial come from the secret sharing of the library; \<open>signers[i]\<close> is
  out of range, and panics, when there are more shares than signers.
\<close>

definition tss_NewSigners :: "PubPoly \<Rightarrow> (int \<Rightarrow> PriShare list) \<Rightarrow> int \<Rightarrow> int \<Rightarrow> tss_Signer option list option" where
  "tss_NewSigners pubPoly shares signerNum threshold =
     (if signerNum < 0 \<or> int (length (shares signerNum)) > signerNum then None
      else Some (map (\<lambda>x. Some \<lparr>PrivateKey = x, PublicKey = pubPoly, SignNum = signerNum,
                               Threshold = threshold\<rparr>) (shares signerNum)
                 @ replicate (nat signerNum - length (shares signerNum)) None))"

definition ThresholdSign :: "'a env_scheme \<Rightarrow> tss_Signer \<Rightarrow> byte list \<Rightarrow> bytes" where
  "ThresholdSign env s msg = TblsSign env (PrivateKey s) msg"

definition CombineSig :: "'a env_scheme \<Rightarrow> tss_Signer \<Rightarrow> byte list \<Rightarrow> bytes list \<Rightarrow> bytes" where
  "CombineSig env s msg sigShares = TblsRecover env (PublicKey s) msg sigShares (Threshold s) (SignNum s)"

definition ThresholdSignVerify :: "'a env_scheme \<Rightarrow> tss_Signer \<Rightarrow> byte list \<Rightarrow> bytes \<Rightarrow> bool" where
  "ThresholdSignVerify env s msg sig = BdnVerify env (PublicKey s) msg sig"

text \<open>The JSON form of a signer; the public polynomial is not part of it.\<close>

record SignerJson =
  SJ_I :: int
  SJ_V :: "byte list"
  SJ_SignNum :: int
  SJ_Threshold :: int

definition tss_Encode :: "tss_Signer \<Rightarrow> SignerJson" where
  "tss_Encode s = \<lparr>SJ_I = fst (PrivateKey s), SJ_V = snd (PrivateKey s), SJ_SignNum = SignNum s,
     SJ_Threshold = Threshold s\<rparr>"

definition tss_Decode :: "tss_Signer \<Rightarrow> SignerJson option \<Rightarrow> tss_Signer option" where
  "tss_Decode s data =
     (case data of
        None \<Rightarrow> None
      | Some j \<Rightarrow> Some (s\<lparr>SignNum := SJ_SignNum j, Threshold := SJ_Threshold j,
                         PrivateKey := (SJ_I j, SJ_V j)\<rparr>))"

lemma tss_Decode_Encode:
  "PublicKey t = PublicKey s \<Longrightarrow> tss_Decode t (Some (tss_Encode s)) = Some s"
  by (cases s) (simp add: tss_Decode_def tss_Encode_def)

section \<open>SM4\<close>

datatype sm4_mode = ENC | DEC

definition Sm4Encrypt ::
  "(bytes \<Rightarrow> bytes \<Rightarrow> sm4_mode \<Rightarrow> byte list option) \<Rightarrow> bytes \<Rightarrow> bytes \<Rightarrow> bytes" where
  "Sm4Encrypt sm4 key msg = (case sm4 key msg ENC of Some c \<Rightarrow> Some c | None \<Rightarrow> None)"

definition Sm4Decrypt ::
  "(bytes \<Rightarrow> bytes \<Rightarrow> sm4_mode \<Rightarrow> byte list option) \<Rightarrow> bytes \<Rightarrow> bytes \<Rightarrow> bytes" where
  "Sm4Decrypt sm4 key msg = (case sm4 key msg DEC of Some d \<Rightarrow> Some d | None \<Rightarrow> None)"

text \<open>The key is what the system's random source reads into 16 bytes, unless it fails.\<close>

definition sm4_GenerateKey :: "(nat \<Rightarrow> byte list option) \<Rightarrow> bytes" where
  "sm4_GenerateKey rand_Read = (case rand_Read 16 of None \<Rightarrow> None | Some key \<Rightarrow> Some key)"

end
