(* ===== verification/Dcs_Block.thy ===== *)
theory Dcs_Block
  imports Dcs_Merkle Dcs_Crypto
begin

text \<open>
  The block store (common/blockchain/block.go): blocks and their hashes, the generation of a
  proposal block, and the writing of blocks to files. The file system of a node is a map from file
  names to the blocks written there (their JSON is kept decoded). The lemmas show that the blocks a
  node generates and stores form a hash chain of consecutive heights, what the block hash leaves
  out, and that the height is found again from the file names.
\<close>

section \<open>Blocks\<close>

record BlockHeader =
  bh_Height :: int
  bh_ViewNumber :: int
  bh_TimeStamp :: int
  bh_PreBlkHash :: bytes
  bh_RootHash :: bytes
  bh_Validation :: bytes
  bh_BlkDataHash :: bytes

record BlockData =
  bd_Height :: int
  bd_RootHash :: bytes
  bd_Trans :: "string list"

record Block =
  BlkHdr :: BlockHeader
  BlkData :: BlockData

definition empty_BlockHeader :: BlockHeader where
  "empty_BlockHeader = \<lparr>bh_Height = 0, bh_ViewNumber = 0, bh_TimeStamp = 0, bh_PreBlkHash = None,
     bh_RootHash = None, bh_Validation = None, bh_BlkDataHash = None\<rparr>"

definition empty_BlockData :: BlockData where
  "empty_BlockData = \<lparr>bd_Height = 0, bd_RootHash = None, bd_Trans = []\<rparr>"

definition empty_Block :: Block where
  "empty_Block = \<lparr>BlkHdr = empty_BlockHeader, BlkData = empty_BlockData\<rparr>"

definition BlockData_Hash :: "'a env_scheme \<Rightarrow> BlockData \<Rightarrow> bytes" where
  "BlockData_Hash env bd =
     Some (Sum (SM3 env)
       ([to_byte (bd_Height bd)] @ bval (bd_RootHash bd) @ StringSlice2OneDimByteSlice (bd_Trans bd)))"

definition Block_Hash :: "'a env_scheme \<Rightarrow> Block \<Rightarrow> bytes" where
  "Block_Hash env b =
     Some (Sum (SM3 env)
       ([to_byte (bh_Height (BlkHdr b))] @ [to_byte (bh_ViewNumber (BlkHdr b))]
        @ [to_byte (bh_TimeStamp (BlkHdr b))] @ bval (bh_PreBlkHash (BlkHdr b))
        @ bval (bh_RootHash (BlkHdr b)) @ bval (bh_BlkDataHash (BlkHdr b))
        @ [to_byte (bd_Height (BlkData b))] @ bval (bh_RootHash (BlkHdr b))
        @ StringSlice2OneDimByteSlice (bd_Trans (BlkData b))))"

definition Block_IsEmpty :: "Block \<Rightarrow> bool" where
  "Block_IsEmpty b \<longleftrightarrow> length (bd_Trans (BlkData b)) = 0"

section \<open>The store\<close>

record BlockStore =
  bs_Height :: int
  GeneratedHeight :: int
  bs_PreBlkHash :: bytes
  CurBlkHash :: bytes
  CurProposalBlk :: Block
  bs_Path :: string
  bs_Files :: "string \<rightharpoonup> Block"

definition block_file :: "string \<Rightarrow> int \<Rightarrow> string" where
  "block_file path h = path @ Itoa h @ ''.txt''"

lemma block_file_eq_iff [simp]: "block_file p h = block_file p k \<longleftrightarrow> h = k"
  by (simp add: block_file_def)

text \<open>\<open>WriteBlock\<close>, given whether \<open>os.WriteFile\<close> succeeds; \<open>Inl ()\<close> is the error it returns.\<close>

definition WriteBlock :: "bool \<Rightarrow> BlockStore \<Rightarrow> string \<Rightarrow> Block \<Rightarrow> unit + BlockStore" where
  "WriteBlock write_ok bs path blk =
     (if \<not> write_ok then Inl ()
      else Inr (bs\<lparr>bs_Files := (bs_Files bs)(block_file path (bh_Height (BlkHdr blk)) \<mapsto> blk),
                  bs_Height := bs_Height bs + 1\<rparr>))"

definition ReadBlock :: "BlockStore \<Rightarrow> string \<Rightarrow> int \<Rightarrow> Block option" where
  "ReadBlock bs path blkHeight = bs_Files bs (block_file path blkHeight)"

text \<open>
  \<open>StoreBlock\<close> loops until the write succeeds: \<open>StoreBlock_loop\<close> takes the answers of the file
  system to the successive iterations and is \<open>None\<close> when they end before the loop does.
  \<open>StoreBlock\<close> is its effect, which the protocols use.
\<close>

datatype fs_answer = Stat_NotExist | Stat_error | Stat_exists (write_ok: bool)

fun StoreBlock_loop :: "fs_answer list \<Rightarrow> BlockStore \<Rightarrow> Block \<Rightarrow> BlockStore option" where
  "StoreBlock_loop [] bs blk = None"
| "StoreBlock_loop (Stat_NotExist # fs) bs blk = StoreBlock_loop fs bs blk"
| "StoreBlock_loop (Stat_error # fs) bs blk = StoreBlock_loop fs bs blk"
| "StoreBlock_loop (Stat_exists w # fs) bs blk =
     (case WriteBlock w bs (bs_Path bs @ ''/'') blk of
        Inl _ \<Rightarrow> StoreBlock_loop fs bs blk
      | Inr bs' \<Rightarrow> Some (bs'\<lparr>bs_PreBlkHash := CurBlkHash bs', CurBlkHash := None\<rparr>))"

definition StoreBlock :: "BlockStore \<Rightarrow> Block \<Rightarrow> BlockStore" where
  "StoreBlock bs blk =
     bs\<lparr>bs_Files := (bs_Files bs)(block_file (bs_Path bs @ ''/'') (bh_Height (BlkHdr blk)) \<mapsto> blk),
        bs_Height := bs_Height bs + 1, bs_PreBlkHash := CurBlkHash bs, CurBlkHash := None\<rparr>"

text \<open>The optional argument \<open>heights\<close> is the list of the extra arguments of the call.\<close>

definition GenNewBlock :: "'a env_scheme \<Rightarrow> BlockStore \<Rightarrow> int \<Rightarrow> string list \<Rightarrow> int list \<Rightarrow> BlockStore option" where
  "GenNewBlock env bs viewNumber commands heights = do {
     let newHeight = (if length heights > 0 then heights ! 0 else bs_Height bs);
     let bs = (if length heights > 0 then bs\<lparr>GeneratedHeight := GeneratedHeight bs + 1\<rparr> else bs);
     root \<leftarrow> HashFromByteSlices (SM3 env) (StringSlice2TwoDimByteSlice commands);
     let blk = \<lparr>BlkHdr = empty_BlockHeader\<lparr>bh_Height := newHeight, bh_PreBlkHash := bs_PreBlkHash bs,
                    bh_ViewNumber := viewNumber, bh_TimeStamp := Clock env, bh_RootHash := Some root\<rparr>,
                BlkData = \<lparr>bd_Height = newHeight, bd_RootHash = Some root, bd_Trans = commands\<rparr>\<rparr>;
     let blk = blk\<lparr>BlkHdr := (BlkHdr blk)\<lparr>bh_BlkDataHash := BlockData_Hash env (BlkData blk)\<rparr>\<rparr>;
     Some (bs\<lparr>CurProposalBlk := blk, CurBlkHash := Block_Hash env blk\<rparr>)
   }"

definition GenEmptyBlock :: "'a env_scheme \<Rightarrow> BlockStore \<Rightarrow> BlockStore" where
  "GenEmptyBlock env bs = bs\<lparr>CurProposalBlk := empty_Block, CurBlkHash := Some (EmptyHash (SM3 env))\<rparr>"

section \<open>Lemmas\<close>

lemma GenNewBlock_returns:
  "\<exists>bs'. GenNewBlock env bs v cmds hs = Some bs' \<and> bs_Files bs' = bs_Files bs \<and>
     bs_Height bs' = bs_Height bs \<and> bs_PreBlkHash bs' = bs_PreBlkHash bs \<and> bs_Path bs' = bs_Path bs \<and>
     CurBlkHash bs' = Block_Hash env (CurProposalBlk bs') \<and>
     bh_PreBlkHash (BlkHdr (CurProposalBlk bs')) = bs_PreBlkHash bs \<and>
     bh_Height (BlkHdr (CurProposalBlk bs')) = (case hs of [] \<Rightarrow> bs_Height bs | h # _ \<Rightarrow> h) \<and>
     bh_RootHash (BlkHdr (CurProposalBlk bs')) = HashFromByteSlices (SM3 env) (map str2bytes cmds) \<and>
     bh_BlkDataHash (BlkHdr (CurProposalBlk bs')) = BlockData_Hash env (BlkData (CurProposalBlk bs')) \<and>
     bd_Trans (BlkData (CurProposalBlk bs')) = cmds"
  by (cases hs) (simp_all add: GenNewBlock_def HashFromByteSlices_tree Let_def StringSlice2TwoDimByteSlice_def)

lemma StoreBlock_sel [simp]:
  "bs_Height (StoreBlock bs blk) = bs_Height bs + 1" "bs_PreBlkHash (StoreBlock bs blk) = CurBlkHash bs"
  "bs_Path (StoreBlock bs blk) = bs_Path bs" "CurProposalBlk (StoreBlock bs blk) = CurProposalBlk bs"
  "CurBlkHash (StoreBlock bs blk) = None" "GeneratedHeight (StoreBlock bs blk) = GeneratedHeight bs"
  by (simp_all add: StoreBlock_def)

lemma StoreBlock_files:
  "bs_Files (StoreBlock bs blk) =
     (bs_Files bs)(block_file (bs_Path bs @ ''/'') (bh_Height (BlkHdr blk)) \<mapsto> blk)"
  by (simp add: StoreBlock_def)

text \<open>
  C27 \<open>StoreBlock\<close> refines one atomic write: the loop returns exactly when the file system at some
  point reports the directory and accepts the write, and then, however many errors came before, the
  block is in the file of its height, the height has grown by one and the previous hash is the hash
  of the current block; until then nothing is changed.
\<close>

theorem StoreBlock_refines:
  "StoreBlock_loop fs bs blk =
     (if Stat_exists True \<in> set fs then Some (StoreBlock bs blk) else None)"
proof (induction fs)
  case (Cons a fs)
  then show ?case
    by (cases a) (auto simp: WriteBlock_def StoreBlock_def)
qed simp

definition commit_step :: "('s \<Rightarrow> 'c \<Rightarrow> 's option) \<Rightarrow> ('s \<Rightarrow> 's) \<Rightarrow> 's \<Rightarrow> 'c \<Rightarrow> 's option" where
  "commit_step gen put s c = do { s' \<leftarrow> gen s c; Some (put s') }"

text \<open>The store contract that the protocols rely on, for any store with these two operations.\<close>

locale block_chain =
  fixes gen :: "'s \<Rightarrow> 'c \<Rightarrow> 's option"
    and put :: "'s \<Rightarrow> 's"
    and height :: "'s \<Rightarrow> int"
    and prev :: "'s \<Rightarrow> 'h"
    and cur :: "'s \<Rightarrow> 'b"
    and get :: "'s \<Rightarrow> int \<Rightarrow> 'b option"
    and hash :: "'b \<Rightarrow> 'h"
    and link :: "'b \<Rightarrow> 'h"
    and cmd :: "'b \<Rightarrow> 'c \<Rightarrow> bool"
  assumes gen_law: "\<exists>s'. gen s c = Some s' \<and> height s' = height s \<and> prev s' = prev s \<and>
      get s' = get s \<and> link (cur s') = prev s \<and> cmd (cur s') c \<and> height (put s') = height s + 1 \<and>
      prev (put s') = hash (cur s') \<and> get (put s') = (get s)(height s \<mapsto> cur s')"
begin

lemma commit_stepE:
  obtains s' where "commit_step gen put s c = Some (put s')" "link (cur s') = prev s" "cmd (cur s') c"
    "height (put s') = height s + 1" "prev (put s') = hash (cur s')"
    "get (put s') = (get s)(height s \<mapsto> cur s')"
  using gen_law [of s c] by (auto simp: commit_step_def)

lemma chain:
  "\<exists>t bs. run (commit_step gen put) s cs = Some t \<and> length bs = length cs \<and> height t = height s + int (length cs) \<and>
     (\<forall>i<length cs. get t (height s + int i) = Some (bs ! i) \<and> cmd (bs ! i) (cs ! i) \<and>
        link (bs ! i) = (if i = 0 then prev s else hash (bs ! (i - 1)))) \<and>
     prev t = (if cs = [] then prev s else hash (last bs)) \<and>
     (\<forall>h. h < height s \<longrightarrow> get t h = get s h)"
proof (induction cs arbitrary: s)
  case Nil
  then show ?case by simp
next
  case (Cons c cs)
  obtain s' where s': "commit_step gen put s c = Some (put s')" "link (cur s') = prev s" "cmd (cur s') c"
    "height (put s') = height s + 1" "prev (put s') = hash (cur s')"
    "get (put s') = (get s)(height s \<mapsto> cur s')" by (rule commit_stepE)
  from Cons.IH [of "put s'"] obtain t bs where t: "run (commit_step gen put) (put s') cs = Some t"
    "length bs = length cs" "height t = height (put s') + int (length cs)"
    and nth: "\<And>i. i < length cs \<Longrightarrow> get t (height (put s') + int i) = Some (bs ! i) \<and>
        cmd (bs ! i) (cs ! i) \<and> link (bs ! i) = (if i = 0 then prev (put s') else hash (bs ! (i - 1)))"
    and last: "prev t = (if cs = [] then prev (put s') else hash (last bs))"
    and old: "\<And>h. h < height (put s') \<Longrightarrow> get t h = get (put s') h" by metis
  have "get t (height s) = Some (cur s')" using old [of "height s"] s' by simp
  then have "get t (height s + int i) = Some ((cur s' # bs) ! i) \<and> cmd ((cur s' # bs) ! i) ((c # cs) ! i) \<and>
      link ((cur s' # bs) ! i) = (if i = 0 then prev s else hash ((cur s' # bs) ! (i - 1)))"
    if "i < length (c # cs)" for i
  proof (cases i)
    case (Suc j)
    with that nth [of j] s' show ?thesis by (cases j) (auto simp: add.assoc)
  qed (use s' \<open>get t (height s) = Some (cur s')\<close> in simp)
  moreover have "prev t = hash (last (cur s' # bs))" using last t s' by (cases cs) auto
  moreover have "\<forall>h. h < height s \<longrightarrow> get t h = get s h" using old s' by simp
  ultimately show ?case
    using s' t by (intro exI [of _ t] exI [of _ "cur s' # bs"]) simp
qed

end

definition gen_cmd :: "'a env_scheme \<Rightarrow> BlockStore \<Rightarrow> int \<times> int \<times> string list \<Rightarrow> BlockStore option" where
  "gen_cmd env bs c = (case c of (now, v, cmds) \<Rightarrow> GenNewBlock (env\<lparr>Clock := now\<rparr>) bs v cmds [])"

definition store_cur :: "BlockStore \<Rightarrow> BlockStore" where
  "store_cur bs = StoreBlock bs (CurProposalBlk bs)"

definition store_get :: "BlockStore \<Rightarrow> int \<Rightarrow> Block option" where
  "store_get bs h = ReadBlock bs (bs_Path bs @ ''/'') h"

definition holds_cmd :: "'a env_scheme \<Rightarrow> Block \<Rightarrow> int \<times> int \<times> string list \<Rightarrow> bool" where
  "holds_cmd env b c \<longleftrightarrow> bd_Trans (BlkData b) = snd (snd c) \<and>
     bh_RootHash (BlkHdr b) = HashFromByteSlices (SM3 env) (map str2bytes (snd (snd c)))"

lemma Block_Hash_Clock [simp]: "Block_Hash (env\<lparr>Clock := t\<rparr>) = Block_Hash env"
  by (simp add: fun_eq_iff Block_Hash_def)

interpretation store: block_chain "gen_cmd env" store_cur bs_Height bs_PreBlkHash CurProposalBlk
  store_get "Block_Hash env" "\<lambda>b. bh_PreBlkHash (BlkHdr b)" "holds_cmd env" for env
proof (unfold_locales, goal_cases)
  case (1 s c)
  obtain now v cmds where c: "c = (now, v, cmds)" by (cases c)
  from GenNewBlock_returns [of "env\<lparr>Clock := now\<rparr>" s v cmds "[]"] show ?case
    by (auto simp: c gen_cmd_def holds_cmd_def store_cur_def store_get_def ReadBlock_def
        StoreBlock_files fun_eq_iff)
qed

text \<open>
  C26 The blocks form a hash chain: a node that generates and stores one block per list of commands,
  at any clock readings and views, never fails, writes block \<open>i\<close> to the file of height \<open>H + i\<close> with
  its commands and their Merkle root, links each block to the hash of the one before it and the
  first to the stored previous hash, and leaves the files of earlier heights alone.
\<close>

theorem blocks_form_hash_chain:
  "\<exists>t bs. run (commit_step (gen_cmd env) store_cur) s cs = Some t \<and>
     length bs = length cs \<and> bs_Height t = bs_Height s + int (length cs) \<and>
     (\<forall>i<length cs. store_get t (bs_Height s + int i) = Some (bs ! i) \<and> holds_cmd env (bs ! i) (cs ! i) \<and>
        bh_PreBlkHash (BlkHdr (bs ! i)) = (if i = 0 then bs_PreBlkHash s else Block_Hash env (bs ! (i - 1)))) \<and>
     bs_PreBlkHash t = (if cs = [] then bs_PreBlkHash s else Block_Hash env (last bs)) \<and>
     (\<forall>h. h < bs_Height s \<longrightarrow> store_get t h = store_get s h)"
  by (rule store.chain)

definition empty_store :: "string \<Rightarrow> BlockStore" where
  "empty_store path = \<lparr>bs_Height = 0, GeneratedHeight = 0, bs_PreBlkHash = None, CurBlkHash = None,
     CurProposalBlk = empty_Block, bs_Path = path, bs_Files = (\<lambda>_. None)\<rparr>"

theorem blocks_form_hash_chain_witness:
  "\<exists>t b0 b1. run (commit_step (gen_cmd example_env) store_cur) (empty_store ''d'')
       [(5, 0, [''a'']), (9, 1, [''b'', ''c''])] = Some t \<and>
     store_get t 0 = Some b0 \<and> store_get t 1 = Some b1 \<and>
     bh_PreBlkHash (BlkHdr b1) = Block_Hash example_env b0 \<and> bd_Trans (BlkData b1) = [''b'', ''c'']"
proof -
  let ?cs = "[(5, 0, [''a'']), (9, 1, [''b'', ''c''])] :: (int \<times> int \<times> string list) list"
  from blocks_form_hash_chain [of example_env "empty_store ''d''" ?cs] obtain t bs where
    t: "run (commit_step (gen_cmd example_env) store_cur) (empty_store ''d'') ?cs = Some t"
    and nth: "\<And>i. i < length ?cs \<Longrightarrow> store_get t (bs_Height (empty_store ''d'') + int i) = Some (bs ! i) \<and>
        holds_cmd example_env (bs ! i) (?cs ! i) \<and> bh_PreBlkHash (BlkHdr (bs ! i)) =
          (if i = 0 then bs_PreBlkHash (empty_store ''d'') else Block_Hash example_env (bs ! (i - 1)))"
    by blast
  from nth [of 0] nth [of 1] t show ?thesis
    by (intro exI [of _ t] exI [of _ "bs ! 0"] exI [of _ "bs ! 1"])
      (simp add: holds_cmd_def empty_store_def)
qed

text \<open>
  What the block hash does not see: the signature of the quorum (on purpose), the root hash kept
  in the block data (the code hashes the header's root twice), and anything of height, view and time
  but their low byte, so blocks 256 heights apart can share a hash.
\<close>

theorem Block_Hash_blind_spots:
  "Block_Hash env (b\<lparr>BlkHdr := (BlkHdr b)\<lparr>bh_Validation := s\<rparr>\<rparr>) = Block_Hash env b \<and>
   Block_Hash env (b\<lparr>BlkData := (BlkData b)\<lparr>bd_RootHash := r\<rparr>\<rparr>) = Block_Hash env b \<and>
   Block_Hash env (b\<lparr>BlkHdr := (BlkHdr b)\<lparr>bh_Height := bh_Height (BlkHdr b) + 256,
      bh_ViewNumber := bh_ViewNumber (BlkHdr b) + 256\<rparr>\<rparr>) = Block_Hash env b"
proof -
  have "to_byte (i + 256) = to_byte i" for i by (simp add: to_byte_eq_iff)
  then show ?thesis by (simp add: Block_Hash_def)
qed

section \<open>The height from the file names\<close>

text \<open>\<open>path.Ext\<close> on a name without slashes: from the last dot on, or nothing.\<close>

definition name_stem :: "string \<Rightarrow> string" where
  "name_stem name =
     (let r = rev name
      in if CHR ''.'' \<in> set name then rev (tl (dropWhile (\<lambda>c. c \<noteq> CHR ''.'') r)) else name)"

text \<open>\<open>strconv.Atoi\<close>; the values outside 64 bits are an error like the syntax errors.\<close>

definition is_digit_char :: "char \<Rightarrow> bool" where
  "is_digit_char c \<longleftrightarrow> 48 \<le> (of_char c :: nat) \<and> (of_char c :: nat) \<le> 57"

definition Atoi_unsigned :: "string \<Rightarrow> int option" where
  "Atoi_unsigned s =
     (if s = [] \<or> \<not> list_all is_digit_char s then None else Some (int (digits_value 0 s)))"

definition Atoi :: "string \<Rightarrow> int option" where
  "Atoi s =
     (let v = (case s of [] \<Rightarrow> None
               | c # cs \<Rightarrow> if c = CHR ''-'' then map_option uminus (Atoi_unsigned cs)
                          else if c = CHR ''+'' then Atoi_unsigned cs else Atoi_unsigned s)
      in case v of None \<Rightarrow> None | Some i \<Rightarrow> if - (2 ^ 63) \<le> i \<and> i < 2 ^ 63 then Some i else None)"

text \<open>The walk calls its function on the names below the root, the root's own included.\<close>

definition GetBlockNamesSlice :: "string list \<Rightarrow> string list option" where
  "GetBlockNamesSlice walked =
     (let files = map name_stem walked in case files of [] \<Rightarrow> None | _ # rest \<Rightarrow> Some rest)"

definition GetBlockHeight :: "string list \<Rightarrow> int" where
  "GetBlockHeight walked =
     foldl (\<lambda>height name.
       case Atoi (name_stem name) of Some h \<Rightarrow> if h > height then h else height | None \<Rightarrow> height) 0 walked"

lemma is_digit_char_digit [simp]: "d < 10 \<Longrightarrow> is_digit_char (digit_char d)"
  by (simp add: is_digit_char_def of_char_digit_char)

lemma nat_digits_digits: "list_all is_digit_char (nat_digits n)"
  using nat_digits_chars by (fastforce simp: list_all_iff)

lemma nat_digits_ne [simp]: "nat_digits n \<noteq> []"
  by (subst nat_digits.simps) simp

lemma Atoi_unsigned_digits [simp]: "Atoi_unsigned (nat_digits n) = Some (int n)"
  by (simp add: Atoi_unsigned_def nat_digits_digits digits_value_nat_digits)

lemma Atoi_Itoa: "- (2 ^ 63) \<le> i \<Longrightarrow> i < 2 ^ 63 \<Longrightarrow> Atoi (Itoa i) = Some i"
proof -
  assume r: "- (2 ^ 63) \<le> i" "i < 2 ^ 63"
  obtain c cs where n: "nat_digits (nat i) = c # cs" by (cases "nat_digits (nat i)") auto
  with nat_digits_digits [of "nat i"] have "is_digit_char c" by simp
  then have "c \<noteq> CHR ''-''" "c \<noteq> CHR ''+''" by (auto simp: is_digit_char_def)
  with r n Atoi_unsigned_digits [of "nat i"] show ?thesis
    by (auto simp: Atoi_def Itoa_def)
qed

lemma dot_not_in_Itoa: "CHR ''.'' \<notin> set (Itoa i)"
proof -
  have "\<not> is_digit_char (CHR ''.'')" by (simp add: is_digit_char_def)
  then have "CHR ''.'' \<notin> set (nat_digits n)" for n
    using nat_digits_digits [of n] by (auto simp: list_all_iff)
  then show ?thesis by (simp add: Itoa_def)
qed

lemma name_stem_block_file: "name_stem (block_file [] h) = Itoa h"
proof -
  have "dropWhile (\<lambda>c. c \<noteq> CHR ''.'') (rev (block_file [] h)) = CHR ''.'' # rev (Itoa h)"
    by (simp add: block_file_def)
  then show ?thesis by (simp add: name_stem_def Let_def block_file_def)
qed

lemma Max_insert_if:
  "finite T \<Longrightarrow> Max (insert (if h > m then h else m) T) = Max (insert m (insert h T))" for m h :: int
  by (cases "T = {}") (auto simp: max_def)

lemma height_fold:
  "foldl (\<lambda>height name. case Atoi (name_stem name) of Some h \<Rightarrow> if h > height then h else height
       | None \<Rightarrow> height) m walked = Max (insert m {h. \<exists>n\<in>set walked. Atoi (name_stem n) = Some h})"
proof (induction walked arbitrary: m)
  case Nil
  then show ?case by simp
next
  case (Cons x xs)
  let ?S = "\<lambda>ns. {h. \<exists>n\<in>set ns. Atoi (name_stem n) = Some h}"
  have fin: "finite (?S ns)" for ns
  proof -
    have "?S ns \<subseteq> (\<lambda>n. the (Atoi (name_stem n))) ` set ns" by force
    then show ?thesis by (rule finite_subset) simp
  qed
  show ?case
  proof (cases "Atoi (name_stem x)")
    case None
    then have "?S (x # xs) = ?S xs" by auto
    with None show ?thesis by (simp only: foldl_Cons option.case Cons.IH)
  next
    case (Some h)
    then have "?S (x # xs) = insert h (?S xs)" by auto
    with Some Max_insert_if [OF fin [of xs], of m h] show ?thesis
      by (simp only: foldl_Cons option.case Cons.IH)
  qed
qed

text \<open>
  Restart: from a directory that holds the block files of the heights in \<open>H\<close> and other entries
  whose stem is not a number (the directory's own name), \<open>GetBlockHeight\<close> finds the highest block,
  and 0 for a directory without blocks.
\<close>

theorem GetBlockHeight_finds_last:
  assumes "set walked = block_file [] ` H \<union> others" and "\<forall>n\<in>others. Atoi (name_stem n) = None"
    and "\<forall>h\<in>H. 0 \<le> h \<and> h < 2 ^ 63"
  shows "GetBlockHeight walked = Max (insert 0 H)"
proof -
  have "Atoi (name_stem (block_file [] h)) = Some h" if "h \<in> H" for h
    unfolding name_stem_block_file by (rule Atoi_Itoa) (use assms(3) that in auto)
  then have "{h. \<exists>n\<in>set walked. Atoi (name_stem n) = Some h} = H"
    using assms(1,2) by auto
  then show ?thesis by (simp only: GetBlockHeight_def height_fold)
qed

theorem GetBlockHeight_finds_last_witness:
  "GetBlockHeight [''BCData'', ''0.txt'', ''12.txt'', ''7.txt''] = 12"
proof -
  have names: "Itoa 0 = ''0''" "Itoa 12 = ''12''" "Itoa 7 = ''7''"
    by (simp_all add: Itoa_def nat_digits.simps digit_char_def char_of_def bit_0)
  have "GetBlockHeight [''BCData'', ''0.txt'', ''12.txt'', ''7.txt''] = Max (insert 0 {0, 12, 7})"
  proof (rule GetBlockHeight_finds_last)
    show "set [''BCData'', ''0.txt'', ''12.txt'', ''7.txt''] = block_file [] ` {0, 12, 7} \<union> {''BCData''}"
      by (auto simp: block_file_def names)
    show "\<forall>n\<in>{''BCData''}. Atoi (name_stem n) = None"
      by (simp add: name_stem_def Atoi_def Atoi_unsigned_def is_digit_char_def)
  qed simp
  then show ?thesis by simp
qed

end
