(* ===== verification/Hs_Types.thy ===== *)
theory Hs_Types
  imports Dcs_Block
begin

text \<open>
  The data of the HotStuff protocols: the state types, certificates, proposals and messages of
  orderer/consensus/hotstuff/types (basic and chained) and of orderer/consensus/hotstuff2/types,
  with the bytes that are signed for them. A state type is a \<open>uint8\<close> in the code; the values that
  have no name there are \<open>HS_other\<close> and \<open>H2_other\<close>.
\<close>

section \<open>HotStuff\<close>

datatype hs_StateType =
    HS_NEW_VIEW | HS_PREPARE | HS_PREPARE_VOTE | HS_PRE_COMMIT | HS_PRE_COMMIT_VOTE | HS_COMMIT
  | HS_COMMIT_VOTE | HS_DECIDE | HS_CHINED_NEW_VIEW | HS_HALF_GENERIC | HS_GENERIC | HS_GENERIC_VOTE
  | HS_WAITING | HS_JOIN | HS_EXIT | HS_PREPARE_CERT | HS_COMMIT_CERT | HS_SYNC | HS_AGREE
  | HS_RESTART | HS_other byte

fun hs_code :: "hs_StateType \<Rightarrow> byte" where
  "hs_code HS_NEW_VIEW = 0"
| "hs_code HS_PREPARE = 1"
| "hs_code HS_PREPARE_VOTE = 2"
| "hs_code HS_PRE_COMMIT = 3"
| "hs_code HS_PRE_COMMIT_VOTE = 4"
| "hs_code HS_COMMIT = 5"
| "hs_code HS_COMMIT_VOTE = 6"
| "hs_code HS_DECIDE = 7"
| "hs_code HS_CHINED_NEW_VIEW = 8"
| "hs_code HS_HALF_GENERIC = 9"
| "hs_code HS_GENERIC = 10"
| "hs_code HS_GENERIC_VOTE = 11"
| "hs_code HS_WAITING = 12"
| "hs_code HS_JOIN = 13"
| "hs_code HS_EXIT = 14"
| "hs_code HS_PREPARE_CERT = 15"
| "hs_code HS_COMMIT_CERT = 16"
| "hs_code HS_SYNC = 17"
| "hs_code HS_AGREE = 18"
| "hs_code HS_RESTART = 19"
| "hs_code (HS_other b) = b"

fun hs_String :: "hs_StateType \<Rightarrow> string" where
  "hs_String HS_NEW_VIEW = ''NEW_VIEW''"
| "hs_String HS_PREPARE = ''PREPARE''"
| "hs_String HS_PREPARE_VOTE = ''PREPARE_VOTE''"
| "hs_String HS_PRE_COMMIT = ''PRE_COMMIT''"
| "hs_String HS_PRE_COMMIT_VOTE = ''PRE_COMMIT_VOTE''"
| "hs_String HS_COMMIT = ''COMMIT''"
| "hs_String HS_COMMIT_VOTE = ''COMMIT_VOTE''"
| "hs_String HS_DECIDE = ''DECIDE''"
| "hs_String HS_CHINED_NEW_VIEW = ''CHINED_NEW_VIEW''"
| "hs_String HS_HALF_GENERIC = ''HALF_GENERIC''"
| "hs_String HS_GENERIC = ''GENERIC''"
| "hs_String HS_GENERIC_VOTE = ''GENERIC_VOTE''"
| "hs_String HS_WAITING = ''WAITING''"
| "hs_String HS_JOIN = ''JOIN''"
| "hs_String HS_EXIT = ''EXIT''"
| "hs_String HS_PREPARE_CERT = ''PREPARE_CERT''"
| "hs_String HS_COMMIT_CERT = ''COMMIT_CERT''"
| "hs_String HS_SYNC = ''SYNC''"
| "hs_String HS_AGREE = ''AGREE''"
| "hs_String HS_RESTART = ''RESTART''"
| "hs_String (HS_other b) = ''''"

definition nil_HsNode :: HsNode where
  "nil_HsNode = \<lparr>CurHash = None, ParentHash = None\<rparr>"

record QC =
  QType :: hs_StateType
  qc_ViewNumber :: int
  qc_HsNode :: HsNode
  qc_Sign :: bytes

definition nil_QC :: QC where
  "nil_QC = \<lparr>QType = HS_NEW_VIEW, qc_ViewNumber = 0, qc_HsNode = nil_HsNode, qc_Sign = None\<rparr>"

text \<open>The bytes of a certificate and of a message have the same form.\<close>

definition hs_sign_bytes :: "hs_StateType \<Rightarrow> int \<Rightarrow> HsNode \<Rightarrow> byte list" where
  "hs_sign_bytes t v node = [hs_code t, to_byte v] @ bval (HsNode_Object2Byte node)"

definition QC2SignMsgByte :: "QC \<Rightarrow> byte list" where
  "QC2SignMsgByte q = hs_sign_bytes (QType q) (qc_ViewNumber q) (qc_HsNode q)"

record hs_Proposal =
  pr_Height :: int
  pr_PreBlkHash :: bytes
  pr_RootHash :: bytes
  Commands :: "byte list list option"
  Signs :: "byte list list option"
  pr_Qc :: QC

definition nil_Proposal :: hs_Proposal where
  "nil_Proposal = \<lparr>pr_Height = 0, pr_PreBlkHash = None, pr_RootHash = None, Commands = None,
     Signs = None, pr_Qc = nil_QC\<rparr>"

definition Proposal_IsEmpty :: "hs_Proposal \<Rightarrow> bool" where
  "Proposal_IsEmpty p \<longleftrightarrow> Commands p = None \<and> pr_RootHash p = None \<and> pr_PreBlkHash p = None"

definition slices :: "byte list list option \<Rightarrow> byte list list" where
  "slices c = (case c of None \<Rightarrow> [] | Some xs \<Rightarrow> xs)"

lemma slices_simps [simp]: "slices None = []" "slices (Some xs) = xs"
  by (simp_all add: slices_def)

definition GenProposalHash :: "(byte list \<Rightarrow> byte list) \<Rightarrow> hs_Proposal \<Rightarrow> byte list" where
  "GenProposalHash sm3 p =
     (if Proposal_IsEmpty p then EmptyHash sm3
      else Sum sm3 ([to_byte (pr_Height p)] @ bval (pr_PreBlkHash p) @ bval (pr_RootHash p)
             @ TwoDimByteSlice2OneDimByteSlice (slices (Commands p))))"

record Msg =
  MType :: hs_StateType
  NMType :: hs_StateType
  m_ViewNumber :: int
  m_HsNode :: HsNode
  Justify :: QC
  PartialSig :: bytes
  m_Proposal :: hs_Proposal
  m_Block :: Block
  SendNode :: string
  ReciNode :: string

definition nil_Msg :: Msg where
  "nil_Msg = \<lparr>MType = HS_NEW_VIEW, NMType = HS_NEW_VIEW, m_ViewNumber = 0, m_HsNode = nil_HsNode,
     Justify = nil_QC, PartialSig = None, m_Proposal = nil_Proposal, m_Block = empty_Block,
     SendNode = [], ReciNode = []\<rparr>"

definition Message2Byte :: "Msg \<Rightarrow> byte list" where
  "Message2Byte m = hs_sign_bytes (MType m) (m_ViewNumber m) (m_HsNode m)"

text \<open>The arrays of four nodes that chained HotStuff works on.\<close>

datatype 'a arr4 = Arr4 (at0: 'a) (at1: 'a) (at2: 'a) (at3: 'a)

fun arr4_list :: "'a arr4 \<Rightarrow> 'a list" where
  "arr4_list (Arr4 a b c d) = [a, b, c, d]"

record ChainedQC =
  cq_QType :: hs_StateType
  cq_ViewNumber :: int
  cq_HsNodes :: "HsNode arr4"
  cq_Sign :: bytes

definition nil_nodes :: "HsNode arr4" where
  "nil_nodes = Arr4 nil_HsNode nil_HsNode nil_HsNode nil_HsNode"

definition nil_ChainedQC :: ChainedQC where
  "nil_ChainedQC = \<lparr>cq_QType = HS_NEW_VIEW, cq_ViewNumber = 0, cq_HsNodes = nil_nodes, cq_Sign = None\<rparr>"

record CMsg =
  cm_MType :: hs_StateType
  cm_ViewNumber :: int
  cm_SendNode :: string
  cm_ReciNode :: string
  cm_HsNodes :: "HsNode arr4"
  cm_Justify :: ChainedQC
  cm_PartialSig :: bytes
  cm_Proposal :: hs_Proposal
  cm_Blk :: Block

definition nil_CMsg :: CMsg where
  "nil_CMsg = \<lparr>cm_MType = HS_NEW_VIEW, cm_ViewNumber = 0, cm_SendNode = [], cm_ReciNode = [],
     cm_HsNodes = nil_nodes, cm_Justify = nil_ChainedQC, cm_PartialSig = None,
     cm_Proposal = nil_Proposal, cm_Blk = empty_Block\<rparr>"

definition ChainedMessage2Byte :: "CMsg \<Rightarrow> byte list" where
  "ChainedMessage2Byte cm =
     foldl (\<lambda>qcByte node. qcByte @ bval (HsNode_Object2Byte node))
       [hs_code (cm_MType cm), to_byte (cm_ViewNumber cm)] (arr4_list (cm_HsNodes cm))"

section \<open>HotStuff-2\<close>

datatype h2_StateType =
    H2_NEW_VIEW | H2_NEW_PROPOSE | H2_PROPOSE | H2_VOTE1 | H2_PREPARE | H2_VOTE2 | H2_WISH
  | H2_TCMSG | H2_ENTER | H2_other byte

fun h2_code :: "h2_StateType \<Rightarrow> byte" where
  "h2_code H2_NEW_VIEW = 0"
| "h2_code H2_NEW_PROPOSE = 1"
| "h2_code H2_PROPOSE = 2"
| "h2_code H2_VOTE1 = 3"
| "h2_code H2_PREPARE = 4"
| "h2_code H2_VOTE2 = 5"
| "h2_code H2_WISH = 6"
| "h2_code H2_TCMSG = 7"
| "h2_code H2_ENTER = 8"
| "h2_code (H2_other b) = b"

fun h2_String :: "h2_StateType \<Rightarrow> string" where
  "h2_String H2_NEW_VIEW = ''NEW_VIEW''"
| "h2_String H2_NEW_PROPOSE = ''NEW_PROPOSE''"
| "h2_String H2_PROPOSE = ''PROPOSE''"
| "h2_String H2_VOTE1 = ''VOTE1''"
| "h2_String H2_PREPARE = ''PREPARE''"
| "h2_String H2_VOTE2 = ''VOTE2''"
| "h2_String H2_WISH = ''WISH''"
| "h2_String H2_TCMSG = ''TCMSG''"
| "h2_String H2_ENTER = ''ENTER''"
| "h2_String (H2_other b) = ''''"

record QuromCert =
  q2_QType :: h2_StateType
  q2_ViewNumber :: int
  q2_Height :: int
  q2_Hs2Node :: HsNode
  q2_Sign :: bytes

definition nil_QuromCert :: QuromCert where
  "nil_QuromCert = \<lparr>q2_QType = H2_NEW_VIEW, q2_ViewNumber = 0, q2_Height = 0,
     q2_Hs2Node = nil_HsNode, q2_Sign = None\<rparr>"

definition h2_sign_bytes :: "h2_StateType \<Rightarrow> int \<Rightarrow> HsNode \<Rightarrow> byte list" where
  "h2_sign_bytes t v node = [h2_code t, to_byte v] @ bval (HsNode_Object2Byte node)"

definition H2_QC2SignMsgByte :: "QuromCert \<Rightarrow> byte list" where
  "H2_QC2SignMsgByte q = h2_sign_bytes (q2_QType q) (q2_ViewNumber q) (q2_Hs2Node q)"

record h2_Proposal =
  p2_Height :: int
  p2_ViewNumber :: int
  p2_PreBlkHash :: bytes
  p2_RootHash :: bytes
  Command :: "byte list list option"

definition nil_h2_Proposal :: h2_Proposal where
  "nil_h2_Proposal = \<lparr>p2_Height = 0, p2_ViewNumber = 0, p2_PreBlkHash = None, p2_RootHash = None,
     Command = None\<rparr>"

definition H2_Proposal_IsEmpty :: "h2_Proposal \<Rightarrow> bool" where
  "H2_Proposal_IsEmpty p \<longleftrightarrow> p2_Height p = 0 \<and> Command p = None"

definition H2_GenProposalHash :: "(byte list \<Rightarrow> byte list) \<Rightarrow> h2_Proposal \<Rightarrow> byte list" where
  "H2_GenProposalHash sm3 p =
     (if H2_Proposal_IsEmpty p then EmptyHash sm3
      else Sum sm3 ([to_byte (p2_Height p)] @ [to_byte (p2_ViewNumber p)] @ bval (p2_PreBlkHash p)
             @ bval (p2_RootHash p) @ TwoDimByteSlice2OneDimByteSlice (slices (Command p))))"

record H2Msg =
  h_MType :: h2_StateType
  h_ViewNumber :: int
  h_Hs2Node :: HsNode
  h_Block :: Block
  ConsSign :: bytes
  Justify1 :: QuromCert
  Justify2 :: QuromCert
  h_SendNode :: string
  h_ReciNode :: string

definition nil_H2Msg :: H2Msg where
  "nil_H2Msg = \<lparr>h_MType = H2_NEW_VIEW, h_ViewNumber = 0, h_Hs2Node = nil_HsNode, h_Block = empty_Block,
     ConsSign = None, Justify1 = nil_QuromCert, Justify2 = nil_QuromCert, h_SendNode = [], h_ReciNode = []\<rparr>"

definition H2_Message2Byte :: "H2Msg \<Rightarrow> byte list" where
  "H2_Message2Byte m = h2_sign_bytes (h_MType m) (h_ViewNumber m) (h_Hs2Node m)"

section \<open>What the signed bytes determine\<close>

text \<open>
  The signed bytes of HotStuff and HotStuff-2 have one shape: a code, the low byte of the view and
  the two hashes of the node. \<open>signed_form\<close> states once what such bytes determine.
\<close>

locale signed_form =
  fixes bytes_of :: "'t \<Rightarrow> int \<Rightarrow> HsNode \<Rightarrow> byte list"
    and code :: "'t \<Rightarrow> byte"
  assumes form: "bytes_of t v node = [code t, to_byte v] @ bval (CurHash node) @ bval (ParentHash node)"
begin

lemma determines:
  assumes "bytes_of t v node = bytes_of t' v' node'"
  shows "code t = code t' \<and> v mod 256 = v' mod 256 \<and>
    bval (CurHash node) @ bval (ParentHash node) = bval (CurHash node') @ bval (ParentHash node')"
  using assms by (simp add: form to_byte_eq_iff)

lemma determines_node:
  assumes "bytes_of t v node = bytes_of t' v' node'"
    and "length (bval (CurHash node)) = length (bval (CurHash node'))"
  shows "bytes_Equal (CurHash node) (CurHash node') \<and> bytes_Equal (ParentHash node) (ParentHash node')"
  using determines [OF assms(1)] assms(2) by (simp add: bytes_Equal_def)

lemma collides: "bytes_of t (v + 256) node = bytes_of t v node"
  by (simp add: form to_byte_eq_iff)

end

interpretation hs_form: signed_form hs_sign_bytes hs_code
  by unfold_locales (simp add: hs_sign_bytes_def HsNode_Object2Byte_def)

interpretation h2_form: signed_form h2_sign_bytes h2_code
  by unfold_locales (simp add: h2_sign_bytes_def HsNode_Object2Byte_def)

lemma nil_Msg_sel [simp]:
  "MType nil_Msg = HS_NEW_VIEW" "m_ViewNumber nil_Msg = 0" "m_HsNode nil_Msg = nil_HsNode"
  "Justify nil_Msg = nil_QC" "PartialSig nil_Msg = None" "SendNode nil_Msg = []" "ReciNode nil_Msg = []"
  by (simp_all add: nil_Msg_def)

lemma nil_Proposal_IsEmpty [simp]: "Proposal_IsEmpty nil_Proposal"
  by (simp add: Proposal_IsEmpty_def nil_Proposal_def)

end
