(* ===== verification/Mgmt_Types.thy ===== *)
theory Mgmt_Types
  imports Hs_Types
begin

text \<open>The messages of the node manager (mps/mgmt/mgmt_type.go).\<close>

datatype nm_StateType =
    NM_INACTIVE | NM_APPLY | NM_PREPARE_VOTE | NM_PREPARE_CERT | NM_COMMIT_VOTE | NM_COMMIT_CERT
  | NM_SYNC | NM_SYNC_FLAG | NM_AGREE | NM_RESTART | NM_other byte

fun nm_String :: "nm_StateType \<Rightarrow> string" where
  "nm_String NM_INACTIVE = ''NM_INACTIVE''"
| "nm_String NM_APPLY = ''NM_APPLY''"
| "nm_String NM_PREPARE_VOTE = ''NM_PREPARE_VOTE''"
| "nm_String NM_PREPARE_CERT = ''NM_PREPARE_CERT''"
| "nm_String NM_COMMIT_VOTE = ''NM_COMMIT_VOTE''"
| "nm_String NM_COMMIT_CERT = ''NM_COMMIT_CERT''"
| "nm_String NM_SYNC = ''NM_SYNC''"
| "nm_String NM_SYNC_FLAG = ''NM_SYNC_FLAG''"
| "nm_String NM_AGREE = ''NM_AGREE''"
| "nm_String NM_RESTART = ''NM_RESTART''"
| "nm_String (NM_other b) = ''''"

datatype nm_Mode = NM_NONE | NM_JOIN | NM_EXIT | NM_Mode_other byte

record NodeKey =
  nk_Name :: string
  Sm2PubKey :: bytes
  Sm4Key :: bytes

definition nil_NodeKey :: NodeKey where
  "nil_NodeKey = \<lparr>nk_Name = [], Sm2PubKey = None, Sm4Key = None\<rparr>"

text \<open>A channel is named by the address it stands for; \<open>None\<close> is the nil channel.\<close>

type_synonym chan_ref = "string option"

record NodeInfo =
  ni_Name :: string
  ni_NodeKey :: NodeKey
  ni_Chan :: chan_ref

definition nil_NodeInfo :: NodeInfo where
  "nil_NodeInfo = \<lparr>ni_Name = [], ni_NodeKey = nil_NodeKey, ni_Chan = None\<rparr>"

record NodeMgmtMsg =
  nm_Type :: nm_Mode
  nm_NMType :: nm_StateType
  nm_ViewNumber :: int
  nm_Leader :: int
  nm_HsNodes :: "HsNode list"
  nm_Justify :: QC
  H2Justify :: QuromCert
  CJustify :: ChainedQC
  nm_NodeKey :: NodeKey
  nm_Sign :: bytes
  nm_Block :: "Block list"
  nm_SendNode :: string
  nm_ReciNode :: string

definition nil_NodeMgmtMsg :: NodeMgmtMsg where
  "nil_NodeMgmtMsg = \<lparr>nm_Type = NM_NONE, nm_NMType = NM_INACTIVE, nm_ViewNumber = 0, nm_Leader = 0,
     nm_HsNodes = [], nm_Justify = nil_QC, H2Justify = nil_QuromCert, CJustify = nil_ChainedQC,
     nm_NodeKey = nil_NodeKey, nm_Sign = None, nm_Block = [], nm_SendNode = [], nm_ReciNode = []\<rparr>"

record BCRequest =
  rq_Id :: string
  rq_Cmd :: "byte list"
  rq_Sign :: "byte list"

end
