(* ===== verification/Dcs_Timer.thy ===== *)
theory Dcs_Timer
  imports Dcs_Machine
begin

text \<open>
  The view timer (orderer/common/timer.go). \<open>Start\<close> spawns a goroutine that waits for the timeout or
  for the stop channel, which is unbuffered: a send on it returns only when such a goroutine is
  waiting. The state counts the goroutines that wait, and those that have left the wait because the
  timeout came but have not yet set \<open>IsStopped\<close> (\<open>fired\<close>), or have and are in their action
  (\<open>expiring\<close>). The actions are values of \<open>'a\<close>, and \<open>ran\<close> lists those that have run. An operation
  that blocks for ever is \<open>None\<close>.
\<close>

record 'a MyTimer =
  duration :: int
  IsStopped :: bool
  ExpireAction :: "'a option"
  StopAction :: "'a option"
  waiting :: nat
  fired :: nat
  expiring :: nat
  ran :: "'a option list"

text \<open>Durations are in nanoseconds.\<close>

definition second :: int where
  "second = 1000000000"

definition NewTimer :: "int \<Rightarrow> 'a MyTimer" where
  "NewTimer d = \<lparr>duration = d, IsStopped = True, ExpireAction = None, StopAction = None,
     waiting = 0, fired = 0, expiring = 0, ran = []\<rparr>"

text \<open>
  \<open>stopChan <- true\<close>: the receiving goroutine runs the stop action and resets the duration. The
  duration is always set to five seconds, whatever \<open>NewTimer\<close> was given.
\<close>

definition send_stop :: "'a MyTimer \<Rightarrow> 'a MyTimer option" where
  "send_stop t =
     (case waiting t of
        0 \<Rightarrow> None
      | Suc w \<Rightarrow> Some (t\<lparr>waiting := w, ran := ran t @ [StopAction t], duration := 5 * second\<rparr>))"

definition Start :: "'a MyTimer \<Rightarrow> 'a option \<Rightarrow> 'a option \<Rightarrow> 'a MyTimer option" where
  "Start t fExpire fStop = do {
     t \<leftarrow> (if \<not> IsStopped t then send_stop t else Some (t\<lparr>IsStopped := False\<rparr>));
     Some (t\<lparr>ExpireAction := fExpire, StopAction := fStop, waiting := waiting t + 1\<rparr>)
   }"

definition Stop :: "'a MyTimer \<Rightarrow> 'a MyTimer option" where
  "Stop t =
     (if \<not> IsStopped t then do { t \<leftarrow> send_stop t; Some (t\<lparr>IsStopped := True\<rparr>) } else Some t)"

definition ReSet :: "'a MyTimer \<Rightarrow> 'a MyTimer option" where
  "ReSet t = do { t \<leftarrow> Stop t; Start t (ExpireAction t) (StopAction t) }"

definition Duration :: "'a MyTimer \<Rightarrow> int" where
  "Duration t = duration t"

text \<open>The goroutine: the timeout is taken, \<open>IsStopped\<close> is set, the action runs, the duration doubles.\<close>

definition timer_take :: "'a MyTimer \<Rightarrow> 'a MyTimer option" where
  "timer_take t =
     (case waiting t of 0 \<Rightarrow> None | Suc w \<Rightarrow> Some (t\<lparr>waiting := w, fired := fired t + 1\<rparr>))"

definition timer_mark :: "'a MyTimer \<Rightarrow> 'a MyTimer option" where
  "timer_mark t =
     (case fired t of 0 \<Rightarrow> None
      | Suc f \<Rightarrow> Some (t\<lparr>fired := f, IsStopped := True, expiring := expiring t + 1\<rparr>))"

definition timer_finish :: "'a MyTimer \<Rightarrow> 'a MyTimer option" where
  "timer_finish t =
     (case expiring t of 0 \<Rightarrow> None
      | Suc n \<Rightarrow> Some (t\<lparr>expiring := n, ran := ran t @ [ExpireAction t], duration := duration t * 2\<rparr>))"

text \<open>
  The interleavings: with \<open>Expire\<close> the goroutine sets \<open>IsStopped\<close> at once when the timeout comes;
  \<open>Take\<close> and \<open>Mark\<close> are the two halves of it. The node's calls are \<open>Do_Start\<close>, \<open>Do_Stop\<close> and
  \<open>Do_ReSet\<close>.
\<close>

datatype 'a timer_event =
    Do_Start "'a option" "'a option" | Do_Stop | Do_ReSet | Expire | Take | Mark | Finish

fun timer_step :: "'a MyTimer \<Rightarrow> 'a timer_event \<Rightarrow> 'a MyTimer option" where
  "timer_step t (Do_Start e s) = Start t e s"
| "timer_step t Do_Stop = Stop t"
| "timer_step t Do_ReSet = ReSet t"
| "timer_step t Expire =
     (if waiting t = 0 then Some t else do { t \<leftarrow> timer_take t; timer_mark t })"
| "timer_step t Take = (if waiting t = 0 then Some t else timer_take t)"
| "timer_step t Mark = (if fired t = 0 then Some t else timer_mark t)"
| "timer_step t Finish = (if expiring t = 0 then Some t else timer_finish t)"

text \<open>Exactly one goroutine waits while the timer runs, none while it is stopped.\<close>

definition timer_ok :: "'a MyTimer \<Rightarrow> bool" where
  "timer_ok t \<longleftrightarrow> waiting t = (if IsStopped t then 0 else 1) \<and> fired t = 0"

fun timer_calm :: "'a timer_event \<Rightarrow> bool" where
  "timer_calm Take = False"
| "timer_calm Mark = False"
| "timer_calm _ = True"

lemma NewTimer_ok [simp]: "timer_ok (NewTimer d)"
  by (simp add: timer_ok_def NewTimer_def)

lemma Start_ok: "timer_ok t \<Longrightarrow> \<exists>t'. Start t e s = Some t' \<and> timer_ok t' \<and> \<not> IsStopped t'"
  by (auto simp: timer_ok_def Start_def send_stop_def split: nat.splits if_splits)

lemma Stop_ok: "timer_ok t \<Longrightarrow> \<exists>t'. Stop t = Some t' \<and> timer_ok t' \<and> IsStopped t'"
  by (auto simp: timer_ok_def Stop_def send_stop_def split: nat.splits if_splits)

lemma ReSet_ok: "timer_ok t \<Longrightarrow> \<exists>t'. ReSet t = Some t' \<and> timer_ok t' \<and> \<not> IsStopped t'"
proof -
  assume "timer_ok t"
  from Stop_ok [OF this] obtain u where u: "Stop t = Some u" "timer_ok u" by blast
  from Start_ok [OF u(2), of "ExpireAction u" "StopAction u"] u(1) show ?thesis
    by (simp add: ReSet_def)
qed

lemma timer_step_ok:
  "timer_ok t \<Longrightarrow> timer_calm e \<Longrightarrow> \<exists>t'. timer_step t e = Some t' \<and> timer_ok t'"
proof (cases e)
  case Expire
  then show "timer_ok t \<Longrightarrow> ?thesis"
    by (auto simp: timer_ok_def timer_take_def timer_mark_def split: nat.splits if_splits)
next
  case Finish
  then show "timer_ok t \<Longrightarrow> ?thesis"
    by (auto simp: timer_ok_def timer_finish_def split: nat.splits)
qed (use Start_ok Stop_ok ReSet_ok in \<open>fastforce+\<close>)

definition calm_step :: "'a MyTimer \<Rightarrow> 'a timer_event \<Rightarrow> 'a MyTimer option" where
  "calm_step t e = (if timer_calm e then timer_step t e else Some t)"

interpretation timer: total_machine calm_step timer_ok "\<lambda>e. True"
proof (unfold_locales, goal_cases)
  case (1 s e s')
  then show ?case using timer_step_ok [of s e] by (auto simp: calm_step_def split: if_splits)
next
  case (2 s e)
  then show ?case using timer_step_ok [of s e] by (cases "timer_calm e") (auto simp: calm_step_def)
qed

lemma calm_run: "list_all timer_calm es \<Longrightarrow> run timer_step t es = run calm_step t es"
proof (induction es arbitrary: t)
  case (Cons e es)
  then show ?case by (cases "timer_step t e") (simp_all add: calm_step_def)
qed simp

text \<open>
  The timer never blocks its node: when the timeout sets \<open>IsStopped\<close> before the node can look
  at it, every sequence of \<open>Start\<close>, \<open>Stop\<close>, \<open>ReSet\<close>, timeouts and finishing actions returns, and
  afterwards exactly one goroutine waits if the timer runs and none if it is stopped.
\<close>

theorem timer_never_blocks:
  assumes "list_all timer_calm es"
  shows "\<exists>t. run timer_step (NewTimer d) es = Some t \<and> waiting t = (if IsStopped t then 0 else 1)"
proof -
  have "list_all (\<lambda>e. True) es" by (simp add: list_all_iff)
  from timer.run_returns [OF NewTimer_ok this] obtain t where
    t: "run calm_step (NewTimer d) es = Some t" by blast
  from timer.run_inv [OF NewTimer_ok t] show ?thesis
    using t assms by (auto simp: calm_run timer_ok_def)
qed

theorem timer_never_blocks_witness:
  "\<exists>t. run timer_step (NewTimer 5) [Do_Start (Some True) None, Do_ReSet, Expire, Finish, Do_Stop] = Some t \<and>
     waiting t = (if IsStopped t then 0 else 1)"
  by (rule timer_never_blocks) simp

text \<open>
  The race the two statements of the goroutine leave open: if the timeout has been taken but
  \<open>IsStopped\<close> is not yet set, the node's next \<open>Stop\<close>, \<open>ReSet\<close> or \<open>Start\<close> sends on a channel that
  nobody receives from, and never returns.
\<close>

theorem timer_stop_race:
  "\<forall>op \<in> {Do_Stop, Do_ReSet, Do_Start e s}. run timer_step (NewTimer d) [Do_Start a b, Take, op] = None"
  by (simp add: NewTimer_def Start_def Stop_def ReSet_def send_stop_def timer_take_def)

theorem timer_stop_race_witness:
  "run timer_step (NewTimer 5) [Do_Start (Some True) None, Take, Do_Stop] = None"
  using timer_stop_race [of None None 5 "Some True" None] by simp

end
