(* ===== verification/Hs_Basic.thy ===== *)
theory Hs_Basic
  imports Mgmt_Types Dcs_Timer
begin

text \<open>
  Basic HotStuff (orderer/consensus/hotstuff/core): the state of a replica and every operation on it,
  in the order of the source files, and the node step that composes them. A handler takes the
  outside world, the state and the message and returns the message to send, if any, with the new
  state; \<open>None\<close> is a panic or a call that blocks for ever. Handlers are atomic: the code runs them
  from one loop, and a timeout, a request or a spawned send is a step of its own.
\<close>

section \<open>The state (basic_hotstuff.go)\<close>

datatype hs_action = Act_StartViewChange | Act_nothing

record BCHotstuff =
  CurPhase :: hs_StateType
  ConsId :: int
  hs_View :: View
  hs_HsNode :: HsNode
  PrepareQC :: QC
  LockedQC :: QC
  LastProposal :: hs_Proposal
  CurProposal :: hs_Proposal
  ViewChangeSendFlag :: bool
  IgnoreCheckQC :: bool
  LastRoundMsg :: "Msg list"
  CurRoundMsg :: "Msg list"
  NewViewMsgs :: "Msg list"
  PrepareVotes :: "Msg list"
  PreCommitVotes :: "Msg list"
  CommitVotes :: "Msg list"
  ViewTimer :: "hs_action MyTimer"
  BlkStore :: BlockStore
  ForwardChan :: "Msg list option"
  SendChan :: "Msg ServerMsg list option"
  ThresholdSigner :: tss_Signer
  GoSends :: "Msg list"

text \<open>\<open>GoSends\<close> holds the messages of the goroutines \<open>go bhs.SendSerMsg(...)\<close> that have not run yet.\<close>

type_synonym bhs_result = "(Msg option \<times> BCHotstuff) option"

definition NewBCHotstuff ::
  "'a env_scheme \<Rightarrow> int \<Rightarrow> int \<Rightarrow> int \<Rightarrow> string \<Rightarrow> Msg ServerMsg list option \<Rightarrow> tss_Signer \<Rightarrow> BCHotstuff" where
  "NewBCHotstuff env timerDuration consId nodeNum path sendChan signer =
     \<lparr>CurPhase = HS_NEW_VIEW, ConsId = consId,
      hs_View = \<lparr>ViewNumber = 0, Leader = 0, NodesNum = nodeNum\<rparr>,
      hs_HsNode = \<lparr>CurHash = Some (EmptyHash (SM3 env)), ParentHash = Some (EmptyHash (SM3 env))\<rparr>,
      PrepareQC = \<lparr>QType = HS_COMMIT, qc_ViewNumber = -1,
        qc_HsNode = \<lparr>CurHash = Some (EmptyHash (SM3 env)), ParentHash = None\<rparr>, qc_Sign = None\<rparr>,
      LockedQC = \<lparr>QType = HS_PREPARE, qc_ViewNumber = -1,
        qc_HsNode = \<lparr>CurHash = Some (EmptyHash (SM3 env)), ParentHash = None\<rparr>, qc_Sign = None\<rparr>,
      LastProposal = nil_Proposal, CurProposal = nil_Proposal, ViewChangeSendFlag = False,
      IgnoreCheckQC = False, LastRoundMsg = [nil_Msg\<lparr>m_ViewNumber := -1\<rparr>], CurRoundMsg = [],
      NewViewMsgs = [], PrepareVotes = [], PreCommitVotes = [], CommitVotes = [],
      ViewTimer = NewTimer (timerDuration * 1000000),
      BlkStore = \<lparr>bs_Height = 0, GeneratedHeight = 0, bs_PreBlkHash = Some (EmptyHash (SM3 env)),
        CurBlkHash = Some (EmptyHash (SM3 env)), CurProposalBlk = empty_Block,
        bs_Path = path @ [CHR 0x5C] @ ''r_'' @ Itoa consId, bs_Files = (\<lambda>_. None)\<rparr>,
      ForwardChan = None, SendChan = sendChan, ThresholdSigner = signer, GoSends = []\<rparr>"

definition bhs_GetNodeName :: "BCHotstuff \<Rightarrow> string" where
  "bhs_GetNodeName s = ''r_'' @ Itoa (ConsId s)"

definition bhs_GetLeaderName :: "BCHotstuff \<Rightarrow> string" where
  "bhs_GetLeaderName s = LeaderName (hs_View s)"

definition bhs_IsLeader :: "BCHotstuff \<Rightarrow> bool" where
  "bhs_IsLeader s \<longleftrightarrow> bhs_GetNodeName s = LeaderName (hs_View s)"

text \<open>
  The send channel is a list without a limit. The channel of a server has 128 places, and a send to
  a full one waits until the server's loop takes a message out.
\<close>

definition bhs_SendSerMsg :: "BCHotstuff \<Rightarrow> Msg \<Rightarrow> BCHotstuff option" where
  "bhs_SendSerMsg s msg =
     (let serMsg = \<lparr>SType = ORDER, SendServer = SendNode msg, ReciServer = ReciNode msg,
                    Sign = None, Payload = msg\<rparr>
      in case SendChan s of
           None \<Rightarrow> None
         | Some c \<Rightarrow> Some (s\<lparr>SendChan := Some (c @ [serMsg])\<rparr>))"

definition SafeNode :: "BCHotstuff \<Rightarrow> HsNode \<Rightarrow> QC \<Rightarrow> bool" where
  "SafeNode s hsNode qc \<longleftrightarrow> bytes_Equal (CurHash (qc_HsNode (LockedQC s))) (ParentHash hsNode) \<or>
     qc_ViewNumber qc > qc_ViewNumber (LockedQC s)"

definition MatchingMsg :: "Msg \<Rightarrow> hs_StateType \<Rightarrow> int \<Rightarrow> bool" where
  "MatchingMsg msg code curView \<longleftrightarrow> MType msg = code \<and> m_ViewNumber msg = curView"

definition MatchingQC :: "QC \<Rightarrow> hs_StateType \<Rightarrow> int \<Rightarrow> bool" where
  "MatchingQC qc code curView \<longleftrightarrow> QType qc = code \<and> qc_ViewNumber qc = curView"

definition CheckQC :: "'a env_scheme \<Rightarrow> BCHotstuff \<Rightarrow> Msg \<Rightarrow> hs_StateType \<Rightarrow> int \<Rightarrow> bool" where
  "CheckQC env s msg code viewNumber \<longleftrightarrow>
     (if \<not> MatchingQC (Justify msg) code viewNumber then False
      else if \<not> ThresholdSignVerify env (ThresholdSigner s) (QC2SignMsgByte (Justify msg)) (qc_Sign (Justify msg))
      then False else True)"

definition CombineSign :: "'a env_scheme \<Rightarrow> BCHotstuff \<Rightarrow> Msg list \<Rightarrow> bytes" where
  "CombineSign env s voteMsgs =
     (let partSigs = map PartialSig voteMsgs;
          msgSign = nil_Msg\<lparr>MType := CurPhase s, m_ViewNumber := ViewNumber (hs_View s)\<rparr>;
          msgSign = msgSign\<lparr>m_HsNode := hs_HsNode s\<rparr>
      in case CombineSig env (ThresholdSigner s) (Message2Byte msgSign) partSigs of
           Some sig \<Rightarrow> Some sig
         | None \<Rightarrow> None)"

definition CreateLeaf :: "BCHotstuff \<Rightarrow> bytes \<Rightarrow> HsNode" where
  "CreateLeaf s parent = \<lparr>CurHash = CurBlkHash (BlkStore s), ParentHash = parent\<rparr>"

definition UpdateBasicHotstuff :: "BCHotstuff \<Rightarrow> BCHotstuff" where
  "UpdateBasicHotstuff s =
     s\<lparr>CurPhase := HS_NEW_VIEW, LastProposal := CurProposal s, CurProposal := nil_Proposal\<rparr>"

definition bhs_UpdateNodesNum :: "BCHotstuff \<Rightarrow> int \<Rightarrow> BCHotstuff" where
  "bhs_UpdateNodesNum s nodeNum = s\<lparr>hs_View := (hs_View s)\<lparr>NodesNum := nodeNum\<rparr>\<rparr>"

definition bhs_ClearCurrentRound :: "'a env_scheme \<Rightarrow> BCHotstuff \<Rightarrow> BCHotstuff" where
  "bhs_ClearCurrentRound env s =
     (let s = (if bhs_GetNodeName s \<noteq> bhs_GetLeaderName s
               then s\<lparr>CurProposal := nil_Proposal, NewViewMsgs := []\<rparr> else s);
          s = s\<lparr>CurRoundMsg := [], PrepareVotes := [], PreCommitVotes := [], CommitVotes := []\<rparr>;
          s = s\<lparr>BlkStore := GenEmptyBlock env (BlkStore s)\<rparr>
      in s\<lparr>CurPhase := HS_NEW_VIEW\<rparr>)"

definition bhs_AddSyncInfo :: "BCHotstuff \<Rightarrow> NodeMgmtMsg \<Rightarrow> NodeMgmtMsg" where
  "bhs_AddSyncInfo s msg =
     msg\<lparr>nm_ViewNumber := ViewNumber (hs_View s), nm_Block := nm_Block msg @ [CurProposalBlk (BlkStore s)],
         nm_HsNodes := nm_HsNodes msg @ [hs_HsNode s], nm_Justify := PrepareQC s,
         nm_Leader := Leader (hs_View s)\<rparr>"

definition Execute :: bool where
  "Execute = True"

definition VerifyReqs :: "byte list list \<Rightarrow> byte list list \<Rightarrow> bytes \<Rightarrow> bool" where
  "VerifyReqs reqs signs pk = (if length reqs = 0 then False else True)"

text \<open>The calls on the embedded timer, with the closures the code always passes.\<close>

definition stop_ViewTimer :: "BCHotstuff \<Rightarrow> BCHotstuff option" where
  "stop_ViewTimer s = do { t \<leftarrow> Stop (ViewTimer s); Some (s\<lparr>ViewTimer := t\<rparr>) }"

definition start_ViewTimer :: "BCHotstuff \<Rightarrow> BCHotstuff option" where
  "start_ViewTimer s = do {
     t \<leftarrow> Start (ViewTimer s) (Some Act_StartViewChange) (Some Act_nothing);
     Some (s\<lparr>ViewTimer := t\<rparr>)
   }"

section \<open>New view (new_view.go)\<close>

definition GetHighQCIndex :: "Msg list \<Rightarrow> nat option" where
  "GetHighQCIndex newViewMsgs =
     (case newViewMsgs of
        [] \<Rightarrow> None
      | m # _ \<Rightarrow> Some (max_scan (\<lambda>m. qc_ViewNumber (Justify m)) newViewMsgs 0 0 (qc_ViewNumber (Justify m))))"

definition CheckNewHsNode :: "BCHotstuff \<Rightarrow> Msg \<Rightarrow> bool" where
  "CheckNewHsNode s prepareMsg \<longleftrightarrow>
     (if ParentHash (m_HsNode prepareMsg) = None \<or> CurHash (qc_HsNode (Justify prepareMsg)) = None then False
      else if \<not> bytes_Equal (ParentHash (m_HsNode prepareMsg)) (CurHash (qc_HsNode (Justify prepareMsg)))
      then False
      else if \<not> SafeNode s (m_HsNode prepareMsg) (Justify prepareMsg) then False
      else True)"

text \<open>Lines 34 to 41 of \<open>HandleNewView\<close>: a fitting message with a verified certificate is kept.\<close>

definition collect_NewView :: "'a env_scheme \<Rightarrow> BCHotstuff \<Rightarrow> Msg \<Rightarrow> BCHotstuff" where
  "collect_NewView env s msg =
     (if length (LastRoundMsg s) = 0 then
        if MatchingMsg msg HS_NEW_VIEW (ViewNumber (hs_View s)) \<and>
           CheckQC env s msg HS_PREPARE (ViewNumber (hs_View s) - 1)
        then s\<lparr>NewViewMsgs := NewViewMsgs s @ [msg]\<rparr> else s
      else if MatchingMsg msg HS_NEW_VIEW (ViewNumber (hs_View s)) \<and>
              CheckQC env s msg HS_PREPARE (m_ViewNumber (last (LastRoundMsg s)))
      then s\<lparr>NewViewMsgs := NewViewMsgs s @ [msg]\<rparr> else s)"

definition HandleNewView :: "'a env_scheme \<Rightarrow> BCHotstuff \<Rightarrow> Msg \<Rightarrow> bhs_result" where
  "HandleNewView env s msg =
     (if CurPhase s \<noteq> HS_NEW_VIEW \<and> CurPhase s \<noteq> HS_WAITING then Some (None, s)
      else if bhs_GetNodeName s \<noteq> bhs_GetLeaderName s then Some (None, s)
      else
        let s = collect_NewView env s msg
        in if \<not> above_thr (NodesNum (hs_View s)) (NewViewMsgs s) then Some (None, s)
           else if length (slices (Commands (CurProposal s))) = 0 then
             if ViewChangeSendFlag s then Some (None, s)
             else Some (None, s\<lparr>CurPhase := HS_WAITING\<rparr>)
           else do {
             s \<leftarrow> stop_ViewTimer s;
             bs \<leftarrow> GenNewBlock env (BlkStore s) (ViewNumber (hs_View s))
                    (TwoDimByteSlice2StringSlice (slices (Commands (CurProposal s)))) [];
             let s = s\<lparr>BlkStore := bs\<rparr>;
             highQCNum \<leftarrow> GetHighQCIndex (NewViewMsgs s);
             let justify = Justify (NewViewMsgs s ! highQCNum);
             let s = s\<lparr>hs_HsNode := CreateLeaf s (CurHash (qc_HsNode justify))\<rparr>;
             let s = s\<lparr>CurPhase := HS_PREPARE\<rparr>;
             s \<leftarrow> start_ViewTimer s;
             Some (Some (nil_Msg\<lparr>MType := HS_PREPARE, m_ViewNumber := ViewNumber (hs_View s),
                            m_HsNode := hs_HsNode s, Justify := justify, m_Proposal := CurProposal s,
                            m_Block := CurProposalBlk (BlkStore s), ReciNode := ''Broadcast''\<rparr>), s)
           })"

definition GenProposal :: "'a env_scheme \<Rightarrow> BCHotstuff \<Rightarrow> bhs_result" where
  "GenProposal env s =
     (if \<not> above_thr (NodesNum (hs_View s)) (NewViewMsgs s) \<and> \<not> IgnoreCheckQC s then Some (None, s)
      else do {
        s \<leftarrow> stop_ViewTimer s;
        let s = s\<lparr>CurPhase := HS_PREPARE\<rparr>;
        reqs \<leftarrow> CutOffTwoDimByteSlice (slices (Commands (CurProposal s))) 128;
        bs \<leftarrow> GenNewBlock env (BlkStore s) (ViewNumber (hs_View s)) (TwoDimByteSlice2StringSlice reqs) [];
        let s = s\<lparr>BlkStore := bs\<rparr>;
        highQCNum \<leftarrow> GetHighQCIndex (NewViewMsgs s);
        let justify = Justify (NewViewMsgs s ! highQCNum);
        let s = s\<lparr>hs_HsNode := CreateLeaf s (CurHash (qc_HsNode justify))\<rparr>;
        let s = s\<lparr>IgnoreCheckQC := False\<rparr>;
        s \<leftarrow> start_ViewTimer s;
        Some (Some (nil_Msg\<lparr>MType := HS_PREPARE, m_ViewNumber := ViewNumber (hs_View s),
                       m_HsNode := hs_HsNode s, Justify := justify, m_Proposal := CurProposal s,
                       m_Block := CurProposalBlk (BlkStore s), SendNode := bhs_GetNodeName s,
                       ReciNode := ''Broadcast''\<rparr>), s)
      })"

section \<open>Prepare (prepare.go)\<close>

definition HandlePrepare :: "'a env_scheme \<Rightarrow> BCHotstuff \<Rightarrow> Msg \<Rightarrow> bytes \<Rightarrow> bhs_result" where
  "HandlePrepare env s msg pk =
     (if CurPhase s \<noteq> HS_NEW_VIEW then Some (None, s)
      else if bhs_GetNodeName s = bhs_GetLeaderName s then Some (None, s)
      else
        let s = (if Proposal_IsEmpty (CurProposal s) then s\<lparr>CurProposal := m_Proposal msg\<rparr> else s)
        in if m_ViewNumber msg \<noteq> ViewNumber (hs_View s) then Some (None, s)
           else if ViewNumber (hs_View s) \<noteq> 0 \<and> \<not> CheckNewHsNode s msg then Some (None, s)
           else if \<not> VerifyReqs (slices (Commands (m_Proposal msg))) (slices (Signs (m_Proposal msg))) pk
           then Some (None, s)
           else do {
             s \<leftarrow> stop_ViewTimer s;
             let prepareVote = nil_Msg\<lparr>MType := MType msg, m_ViewNumber := m_ViewNumber msg,
                                 m_HsNode := m_HsNode msg, ReciNode := bhs_GetLeaderName s\<rparr>;
             let sigMsg = Message2Byte prepareVote;
             case ThresholdSign env (ThresholdSigner s) sigMsg of
               None \<Rightarrow> Some (None, s)
             | Some partSig \<Rightarrow> do {
                 let prepareVote = prepareVote\<lparr>MType := HS_PREPARE_VOTE, PartialSig := Some partSig\<rparr>;
                 let s = s\<lparr>CurPhase := HS_PREPARE\<rparr>;
                 let s = s\<lparr>BlkStore := (BlkStore s)\<lparr>CurProposalBlk := m_Block msg\<rparr>\<rparr>;
                 let s = s\<lparr>BlkStore := (BlkStore s)\<lparr>CurBlkHash := Block_Hash env (CurProposalBlk (BlkStore s))\<rparr>\<rparr>;
                 s \<leftarrow> start_ViewTimer s;
                 Some (Some prepareVote, s)
               }
           })"

section \<open>Pre-commit (precommit.go)\<close>

definition HandlePrepareVote :: "'a env_scheme \<Rightarrow> BCHotstuff \<Rightarrow> Msg \<Rightarrow> bhs_result" where
  "HandlePrepareVote env s msg =
     (if CurPhase s \<noteq> HS_PREPARE then Some (None, s)
      else if bhs_GetNodeName s \<noteq> bhs_GetLeaderName s then Some (None, s)
      else
        let s = (if MatchingMsg msg HS_PREPARE_VOTE (ViewNumber (hs_View s))
                 then s\<lparr>PrepareVotes := PrepareVotes s @ [msg]\<rparr> else s)
        in if \<not> above_thr (NodesNum (hs_View s)) (PrepareVotes s) then Some (None, s)
           else
             let prepareQC = nil_QC\<lparr>QType := HS_PREPARE, qc_ViewNumber := m_ViewNumber msg, qc_HsNode := m_HsNode msg\<rparr>
             in case CombineSign env s (PrepareVotes s) of
                  None \<Rightarrow> Some (None, s)
                | Some prepareSig \<Rightarrow>
                    let s = s\<lparr>PrepareQC := prepareQC\<lparr>qc_Sign := Some prepareSig\<rparr>, CurPhase := HS_PRE_COMMIT\<rparr>
                    in Some (Some (nil_Msg\<lparr>MType := HS_PRE_COMMIT, m_ViewNumber := ViewNumber (hs_View s),
                                     Justify := PrepareQC s, ReciNode := ''Broadcast''\<rparr>), s))"

definition HandlePreCommit :: "'a env_scheme \<Rightarrow> BCHotstuff \<Rightarrow> Msg \<Rightarrow> bhs_result" where
  "HandlePreCommit env s msg =
     (if CurPhase s \<noteq> HS_PREPARE \<and> CurPhase s \<noteq> HS_NEW_VIEW then Some (None, s)
      else if bhs_GetNodeName s = bhs_GetLeaderName s then Some (None, s)
      else if m_ViewNumber msg \<noteq> ViewNumber (hs_View s) then Some (None, s)
      else if \<not> CheckQC env s msg HS_PREPARE (ViewNumber (hs_View s)) then Some (None, s)
      else
        let s = s\<lparr>hs_HsNode := qc_HsNode (Justify msg), PrepareQC := Justify msg\<rparr>;
            preComVote = nil_Msg\<lparr>MType := MType msg, m_ViewNumber := qc_ViewNumber (Justify msg),
                           m_HsNode := qc_HsNode (Justify msg), ReciNode := bhs_GetLeaderName s\<rparr>
        in case ThresholdSign env (ThresholdSigner s) (Message2Byte preComVote) of
             None \<Rightarrow> Some (None, s)
           | Some partSig \<Rightarrow>
               Some (Some (preComVote\<lparr>MType := HS_PRE_COMMIT_VOTE, PartialSig := Some partSig\<rparr>),
                     s\<lparr>CurPhase := HS_PRE_COMMIT\<rparr>))"

section \<open>Commit (commit.go)\<close>

definition HandlePreCommitVote :: "'a env_scheme \<Rightarrow> BCHotstuff \<Rightarrow> Msg \<Rightarrow> bhs_result" where
  "HandlePreCommitVote env s msg =
     (if CurPhase s \<noteq> HS_PRE_COMMIT then Some (None, s)
      else if bhs_GetNodeName s \<noteq> bhs_GetLeaderName s then Some (None, s)
      else
        let s = (if MatchingMsg msg HS_PRE_COMMIT_VOTE (ViewNumber (hs_View s))
                 then s\<lparr>PreCommitVotes := PreCommitVotes s @ [msg]\<rparr> else s)
        in if \<not> above_thr (NodesNum (hs_View s)) (PreCommitVotes s) then Some (None, s)
           else
             let lockQC = nil_QC\<lparr>QType := HS_PRE_COMMIT, qc_ViewNumber := m_ViewNumber msg, qc_HsNode := m_HsNode msg\<rparr>
             in case CombineSign env s (PreCommitVotes s) of
                  None \<Rightarrow> Some (None, s)
                | Some preCommitSig \<Rightarrow>
                    let s = s\<lparr>LockedQC := lockQC\<lparr>qc_Sign := Some preCommitSig\<rparr>, CurPhase := HS_COMMIT\<rparr>
                    in Some (Some (nil_Msg\<lparr>MType := HS_COMMIT, m_ViewNumber := ViewNumber (hs_View s),
                                     Justify := LockedQC s, ReciNode := ''Broadcast''\<rparr>), s))"

definition HandleCommit :: "'a env_scheme \<Rightarrow> BCHotstuff \<Rightarrow> Msg \<Rightarrow> bhs_result" where
  "HandleCommit env s msg =
     (if CurPhase s \<noteq> HS_PRE_COMMIT then Some (None, s)
      else if bhs_GetNodeName s = bhs_GetLeaderName s then Some (None, s)
      else if m_ViewNumber msg \<noteq> ViewNumber (hs_View s) then Some (None, s)
      else if \<not> CheckQC env s msg HS_PRE_COMMIT (ViewNumber (hs_View s)) then Some (None, s)
      else
        let s = s\<lparr>LockedQC := Justify msg\<rparr>;
            comVote = nil_Msg\<lparr>MType := HS_COMMIT, m_ViewNumber := m_ViewNumber msg,
                        m_HsNode := qc_HsNode (Justify msg), ReciNode := bhs_GetLeaderName s\<rparr>
        in case ThresholdSign env (ThresholdSigner s) (Message2Byte comVote) of
             None \<Rightarrow> Some (None, s)
           | Some partSig \<Rightarrow>
               Some (Some (comVote\<lparr>PartialSig := Some partSig, MType := HS_COMMIT_VOTE\<rparr>),
                     s\<lparr>CurPhase := HS_COMMIT\<rparr>))"

section \<open>Decide (decide.go)\<close>

definition HandleCommitVote :: "'a env_scheme \<Rightarrow> BCHotstuff \<Rightarrow> Msg \<Rightarrow> bhs_result" where
  "HandleCommitVote env s msg =
     (if CurPhase s \<noteq> HS_COMMIT then Some (None, s)
      else if bhs_GetNodeName s \<noteq> bhs_GetLeaderName s then Some (None, s)
      else
        let s = (if MatchingMsg msg HS_COMMIT_VOTE (ViewNumber (hs_View s))
                 then s\<lparr>CommitVotes := CommitVotes s @ [msg]\<rparr> else s)
        in if \<not> above_thr (NodesNum (hs_View s)) (CommitVotes s) then Some (None, s)
           else
             let commitQC = nil_QC\<lparr>QType := HS_COMMIT, qc_ViewNumber := m_ViewNumber msg, qc_HsNode := m_HsNode msg\<rparr>
             in case CombineSign env s (CommitVotes s) of
                  None \<Rightarrow> Some (None, s)
                | Some commitSig \<Rightarrow>
                    Some (Some (nil_Msg\<lparr>MType := HS_DECIDE, m_ViewNumber := ViewNumber (hs_View s),
                                  Justify := commitQC\<lparr>qc_Sign := Some commitSig\<rparr>, ReciNode := ''Broadcast''\<rparr>), s))"

definition bhs_NewRound :: "BCHotstuff \<Rightarrow> BCHotstuff option" where
  "bhs_NewRound s = do {
     v \<leftarrow> NextView (hs_View s);
     Some (s\<lparr>hs_View := v, LastRoundMsg := CurRoundMsg s, CurRoundMsg := [], NewViewMsgs := [],
             PrepareVotes := [], PreCommitVotes := [], CommitVotes := []\<rparr>)
   }"

definition HandleDecide :: "'a env_scheme \<Rightarrow> BCHotstuff \<Rightarrow> Msg \<Rightarrow> bhs_result" where
  "HandleDecide env s msg =
     (if CurPhase s \<noteq> HS_COMMIT then Some (None, s)
      else if m_ViewNumber msg \<noteq> ViewNumber (hs_View s) then Some (None, s)
      else if \<not> CheckQC env s msg HS_COMMIT (ViewNumber (hs_View s)) then Some (None, s)
      else do {
        s \<leftarrow> stop_ViewTimer s;
        let s = s\<lparr>CurPhase := HS_DECIDE\<rparr>;
        let blk = CurProposalBlk (BlkStore s);
        let blk = blk\<lparr>BlkHdr := (BlkHdr blk)\<lparr>bh_Validation := qc_Sign (Justify msg)\<rparr>\<rparr>;
        let s = s\<lparr>BlkStore := StoreBlock ((BlkStore s)\<lparr>CurProposalBlk := blk\<rparr>) blk\<rparr>;
        s \<leftarrow> bhs_NewRound s;
        let newMsg = nil_Msg\<lparr>MType := HS_NEW_VIEW, m_ViewNumber := ViewNumber (hs_View s),
                       SendNode := bhs_GetNodeName s, Justify := PrepareQC s, ReciNode := bhs_GetLeaderName s\<rparr>;
        s \<leftarrow> start_ViewTimer s;
        Some (Some newMsg, s)
      })"

section \<open>View change (view_change.go)\<close>

definition StartViewChange :: "'a env_scheme \<Rightarrow> BCHotstuff \<Rightarrow> BCHotstuff option" where
  "StartViewChange env s = do {
     v \<leftarrow> NextView (hs_View s);
     let s = s\<lparr>hs_View := v\<rparr>;
     let newViewMsg = nil_Msg\<lparr>MType := HS_NEW_VIEW, Justify := PrepareQC s,
                        m_ViewNumber := ViewNumber (hs_View s), SendNode := bhs_GetNodeName s,
                        ReciNode := bhs_GetLeaderName s\<rparr>;
     let newViewMsg = (case ThresholdSign env (ThresholdSigner s) (Message2Byte newViewMsg) of
                         Some sign \<Rightarrow> newViewMsg\<lparr>PartialSig := Some sign\<rparr>
                       | None \<Rightarrow> newViewMsg);
     let s = (case ForwardChan s of
                None \<Rightarrow> s
              | Some c \<Rightarrow> s\<lparr>ViewChangeSendFlag := True, ForwardChan := Some (c @ [newViewMsg])\<rparr>);
     s \<leftarrow> (if SendChan s \<noteq> None then do {
              s \<leftarrow> bhs_SendSerMsg s newViewMsg;
              Some (s\<lparr>CurRoundMsg := CurRoundMsg s @ [newViewMsg]\<rparr>)
            } else Some s);
     let s = s\<lparr>CurPhase := HS_NEW_VIEW\<rparr>;
     start_ViewTimer s
   }"

section \<open>Dispatch and requests (basic_hotstuff.go)\<close>

definition RouteBMsg :: "'a env_scheme \<Rightarrow> BCHotstuff \<Rightarrow> Msg \<Rightarrow> bytes \<Rightarrow> bhs_result" where
  "RouteBMsg env s msg pk =
     (case MType msg of
        HS_NEW_VIEW \<Rightarrow> HandleNewView env s msg
      | HS_PREPARE \<Rightarrow> HandlePrepare env s msg pk
      | HS_PREPARE_VOTE \<Rightarrow> HandlePrepareVote env s msg
      | HS_PRE_COMMIT \<Rightarrow> HandlePreCommit env s msg
      | HS_PRE_COMMIT_VOTE \<Rightarrow> HandlePreCommitVote env s msg
      | HS_COMMIT \<Rightarrow> HandleCommit env s msg
      | HS_COMMIT_VOTE \<Rightarrow> HandleCommitVote env s msg
      | HS_DECIDE \<Rightarrow> HandleDecide env s msg
      | _ \<Rightarrow> Some (None, s))"

text \<open>\<open>HandleBMsg\<close>: \<open>None\<close> as the message is JSON that does not decode.\<close>

definition HandleBMsg :: "'a env_scheme \<Rightarrow> BCHotstuff \<Rightarrow> Msg option \<Rightarrow> bytes \<Rightarrow> BCHotstuff option" where
  "HandleBMsg env s msgJson pk =
     (case msgJson of
        None \<Rightarrow> Some s
      | Some msg \<Rightarrow> do {
          (msgReturn, s) \<leftarrow> RouteBMsg env s msg pk;
          case msgReturn of
            None \<Rightarrow> Some s
          | Some ret \<Rightarrow> do {
              let ret = ret\<lparr>SendNode := bhs_GetNodeName s\<rparr>;
              let s = s\<lparr>CurRoundMsg := CurRoundMsg s @ [ret]\<rparr>;
              s \<leftarrow> bhs_SendSerMsg s ret;
              if MType ret = HS_NEW_VIEW \<and> \<not> Proposal_IsEmpty (CurProposal s) then
                if Execute then
                  let s = s\<lparr>GoSends := GoSends s @ [nil_Msg\<lparr>m_ViewNumber := ViewNumber (hs_View s) - 1,
                              m_HsNode := hs_HsNode s, m_Proposal := nil_Proposal,
                              SendNode := bhs_GetNodeName s, ReciNode := ''Client''\<rparr>]\<rparr>
                  in Some (UpdateBasicHotstuff s)
                else Some s
              else Some s
            }
        })"

definition bhs_HandleReq ::
  "'a env_scheme \<Rightarrow> BCHotstuff \<Rightarrow> int \<Rightarrow> bytes \<Rightarrow> BCRequest list \<Rightarrow> BCHotstuff option" where
  "bhs_HandleReq env s height preHash req =
     (let proposal = nil_Proposal\<lparr>pr_Height := height, pr_PreBlkHash := preHash, Commands := Some [], Signs := Some []\<rparr>;
          proposal = foldl (\<lambda>p r. p\<lparr>Commands := Some (slices (Commands p) @ [rq_Cmd r]),
                                    Signs := Some (slices (Signs p) @ [rq_Sign r])\<rparr>) proposal req;
          proposal = proposal\<lparr>pr_RootHash :=
                       Some (HashFromByteSlicesIterative (SM3 env) (slices (Commands proposal)))\<rparr>;
          s = s\<lparr>CurProposal := proposal\<rparr>
      in if CurPhase s = HS_WAITING then do {
           (msgReturn, s) \<leftarrow> GenProposal env s;
           case msgReturn of
             None \<Rightarrow> Some s
           | Some ret \<Rightarrow> bhs_SendSerMsg (s\<lparr>CurRoundMsg := CurRoundMsg s @ [ret]\<rparr>) ret
         }
         else Some s)"

definition bhs_SyncInfo :: "BCHotstuff \<Rightarrow> NodeMgmtMsg \<Rightarrow> int \<Rightarrow> BCHotstuff option" where
  "bhs_SyncInfo s msg leader = do {
     blk \<leftarrow> (case nm_Block msg of [] \<Rightarrow> None | b # _ \<Rightarrow> Some b);
     let s = s\<lparr>BlkStore := (BlkStore s)\<lparr>CurProposalBlk := blk\<rparr>, PrepareQC := nm_Justify msg\<rparr>;
     node \<leftarrow> (case nm_HsNodes msg of [] \<Rightarrow> None | h # _ \<Rightarrow> Some h);
     let s = s\<lparr>hs_HsNode := node\<rparr>;
     let s = s\<lparr>BlkStore := (BlkStore s)\<lparr>bs_Height := bd_Height (BlkData (CurProposalBlk (BlkStore s)))\<rparr>\<rparr>;
     let s = s\<lparr>BlkStore := StoreBlock (BlkStore s) (CurProposalBlk (BlkStore s))\<rparr>;
     s \<leftarrow> bhs_NewRound s;
     Some (s\<lparr>hs_View := UpdateView (hs_View s) (nm_ViewNumber msg) leader\<rparr>)
   }"

definition RestartBasicHotstuff :: "'a env_scheme \<Rightarrow> BCHotstuff \<Rightarrow> bhs_result" where
  "RestartBasicHotstuff env s =
     (if bhs_GetLeaderName s = bhs_GetNodeName s then
        if \<not> Proposal_IsEmpty (CurProposal s) then do {
          (msgReturn, s) \<leftarrow> GenProposal env s;
          let s = (case msgReturn of Some ret \<Rightarrow> s\<lparr>CurRoundMsg := CurRoundMsg s @ [ret]\<rparr> | None \<Rightarrow> s);
          Some (msgReturn, s)
        }
        else Some (None, s\<lparr>CurPhase := HS_WAITING\<rparr>)
      else Some (None, s))"

definition bhs_InitLeader :: "'a env_scheme \<Rightarrow> BCHotstuff \<Rightarrow> BCHotstuff" where
  "bhs_InitLeader env s =
     (let s = s\<lparr>CurPhase := HS_WAITING, IgnoreCheckQC := True\<rparr>;
          node = \<lparr>CurHash = Some (EmptyHash (SM3 env)), ParentHash = Some (EmptyHash (SM3 env))\<rparr>
      in if ViewNumber (hs_View s) = 0 then
           let msg = nil_Msg\<lparr>MType := HS_NEW_VIEW, m_ViewNumber := 0, SendNode := ''r_'' @ Itoa 0,
                       m_HsNode := node, Justify := nil_QC, PartialSig := None\<rparr>
           in s\<lparr>NewViewMsgs := NewViewMsgs s @ [msg]\<rparr>
         else
           let msg = nil_Msg\<lparr>MType := HS_NEW_VIEW, m_ViewNumber := ViewNumber (hs_View s) - 1,
                       SendNode := bhs_GetNodeName s, m_HsNode := node, Justify := PrepareQC s, PartialSig := None\<rparr>
           in s\<lparr>NewViewMsgs := NewViewMsgs s @ [msg]\<rparr>)"

definition bhs_FixLeader :: "'a env_scheme \<Rightarrow> BCHotstuff \<Rightarrow> BCHotstuff" where
  "bhs_FixLeader env s =
     (let count = (NodesNum (hs_View s) - 1) sdiv 3 * 2 - int (length (NewViewMsgs s)) + 1;
          node = \<lparr>CurHash = Some (EmptyHash (SM3 env)), ParentHash = Some (EmptyHash (SM3 env))\<rparr>;
          msg = nil_Msg\<lparr>MType := HS_NEW_VIEW, m_ViewNumber := 0, SendNode := ''r_'' @ Itoa 0,
                  m_HsNode := node, Justify := nil_QC, PartialSig := None\<rparr>
      in foldl (\<lambda>s i. s\<lparr>NewViewMsgs := NewViewMsgs s @ [msg]\<rparr>) s [0..<nat count])"

section \<open>The node\<close>

text \<open>
  What a running node reacts to: a message of the network (with the clock at that time), a batch of
  requests, the timeout of its view, and the scheduling of the oldest spawned send. A timeout takes
  effect only when the timer runs; its goroutine then changes the view and doubles the duration. An expiry
  is one event: the goroutine of the timer receives the timeout, sets \<open>IsStopped\<close> and calls back
  (timer.go:46 to 52) with nothing in between; the interleaving inside it is
  the subject of \<open>hs_timer_race\<close> in Hs_Safety.
  The operations of the node management (\<open>SyncInfo\<close>, \<open>ClearCurrentRound\<close>, restart, leader and number of nodes)
  are no events of this machine; they are events of the orderer in Ord_Props.
\<close>

datatype hs_event =
    Deliver int "Msg option" bytes
  | Request int int bytes "BCRequest list"
  | Timeout
  | RunSend

fun hs_step :: "'a env_scheme \<Rightarrow> BCHotstuff \<Rightarrow> hs_event \<Rightarrow> BCHotstuff option" where
  "hs_step env s (Deliver now m pk) = HandleBMsg (env\<lparr>Clock := now\<rparr>) s m pk"
| "hs_step env s (Request now h ph reqs) = bhs_HandleReq (env\<lparr>Clock := now\<rparr>) s h ph reqs"
| "hs_step env s Timeout =
     (if waiting (ViewTimer s) = 0 then Some s
      else do {
        t \<leftarrow> timer_take (ViewTimer s);
        t \<leftarrow> timer_mark t;
        s \<leftarrow> StartViewChange env (s\<lparr>ViewTimer := t\<rparr>);
        t \<leftarrow> timer_finish (ViewTimer s);
        Some (s\<lparr>ViewTimer := t\<rparr>)
      })"
| "hs_step env s RunSend =
     (case GoSends s of [] \<Rightarrow> Some s | m # ms \<Rightarrow> bhs_SendSerMsg (s\<lparr>GoSends := ms\<rparr>) m)"

end
