(* ===== verification/Dcs_Quorum.thy ===== *)
theory Dcs_Quorum
  imports Dcs_Prelude
begin

text \<open>
  Quorums. Every protocol of the repository accepts a certificate or a log entry when it has more
  than \<open>(n - 1) / 3 * 2\<close> votes. The locale holds the counting argument behind all their agreement
  properties; it is interpreted on the threshold of the code for systems of \<open>3 f + 1\<close> nodes, and the
  last theorem says for which sizes that threshold is enough.
\<close>

locale quorums =
  fixes size_n quorum faulty :: nat
  assumes enough: "size_n + faulty < 2 * quorum"
begin

lemma overlap:
  assumes "finite N" "card N = size_n" "S \<subseteq> N" "T \<subseteq> N" "quorum \<le> card S" "quorum \<le> card T"
  shows "faulty < card (S \<inter> T)"
proof -
  have fin: "finite S" "finite T" using assms(1,3,4) finite_subset by blast+
  have "card S + card T = card (S \<union> T) + card (S \<inter> T)"
    using card_Un_Int [OF fin] .
  moreover have "card (S \<union> T) \<le> size_n"
    using assms(1-4) card_mono [of N "S \<union> T"] by simp
  ultimately show ?thesis using assms(5,6) enough by linarith
qed

lemma honest_overlap:
  assumes "finite N" "card N = size_n" "S \<subseteq> N" "T \<subseteq> N" "quorum \<le> card S" "quorum \<le> card T"
    and "finite B" "card B \<le> faulty"
  obtains p where "p \<in> S" "p \<in> T" "p \<notin> B"
proof -
  have "faulty < card (S \<inter> T)" using assms(1-6) by (rule overlap)
  then have "\<not> S \<inter> T \<subseteq> B"
    using card_mono [of B "S \<inter> T"] assms(7,8) by linarith
  with that show ?thesis by blast
qed

lemma one_per_slot:
  assumes "finite N" "card N = size_n" "finite B" "card B \<le> faulty"
    and "\<exists>S \<subseteq> N. quorum \<le> card S \<and> (\<forall>p \<in> S - B. x \<in> votes p)"
    and "\<exists>S \<subseteq> N. quorum \<le> card S \<and> (\<forall>p \<in> S - B. y \<in> votes p)"
    and "\<And>p. p \<in> N - B \<Longrightarrow> x \<in> votes p \<Longrightarrow> y \<in> votes p \<Longrightarrow> x = y"
  shows "x = y"
proof -
  obtain S where S: "S \<subseteq> N" "quorum \<le> card S" "\<forall>p \<in> S - B. x \<in> votes p" using assms(5) by blast
  obtain T where T: "T \<subseteq> N" "quorum \<le> card T" "\<forall>p \<in> T - B. y \<in> votes p" using assms(6) by blast
  from honest_overlap [OF assms(1,2) S(1) T(1) S(2) T(2) assms(3,4)] obtain p
    where "p \<in> S" "p \<in> T" "p \<notin> B" .
  with S T assms(7) show ?thesis by blast
qed

end

text \<open>The number of votes the code asks for: \<open>GenSigners\<close> makes it the threshold of the signers.\<close>

definition vote_threshold :: "int \<Rightarrow> int" where
  "vote_threshold nodeNum = (nodeNum - 1) sdiv 3 * 2 + 1"

lemma vote_threshold_thr2f: "vote_threshold n = thr2f n + 1"
  by (simp add: vote_threshold_def thr2f_def)

lemma above_thr_vote_threshold: "above_thr n xs \<longleftrightarrow> vote_threshold n \<le> int (length xs)"
  by (auto simp: above_thr_def vote_threshold_thr2f)

lemma vote_threshold_3f1: "vote_threshold (int (3 * f + 1)) = int (2 * f + 1)"
  by (simp add: vote_threshold_def)

interpretation bft: quorums "3 * f + 1" "nat (vote_threshold (int (3 * f + 1)))" f for f
proof unfold_locales
  show "3 * f + 1 + f < 2 * nat (vote_threshold (int (3 * f + 1)))"
    by (subst vote_threshold_3f1) simp
qed

text \<open>
  C19 For which system sizes the code's threshold is safe: with \<open>f = (n - 1) / 3\<close> tolerated faults, any
  two sets of \<open>vote_threshold n\<close> nodes out of \<open>n\<close> share more than \<open>f\<close> nodes exactly when
  \<open>n = 3 f + 1\<close>. For the other sizes, which nodes joining or leaving produce, two certificates need
  not have an honest voter in common.
\<close>

theorem quorum_intersection_iff:
  assumes "1 \<le> n"
  shows "(\<forall>S T. S \<subseteq> {0..<n} \<and> T \<subseteq> {0..<n} \<and> vote_threshold (int n) \<le> int (card S) \<and>
            vote_threshold (int n) \<le> int (card T) \<longrightarrow> (n - 1) div 3 < card (S \<inter> T))
         \<longleftrightarrow> n = 3 * ((n - 1) div 3) + 1"
proof
  let ?f = "(n - 1) div 3"
  have thr: "vote_threshold (int n) = int (2 * ?f + 1)"
    using assms by (simp add: vote_threshold_def of_nat_diff zdiv_int)
  {
    assume n: "n = 3 * ?f + 1"
    then have t: "nat (vote_threshold (int (3 * ?f + 1))) = 2 * ?f + 1" by (subst vote_threshold_3f1) simp
    show "\<forall>S T. S \<subseteq> {0..<n} \<and> T \<subseteq> {0..<n} \<and> vote_threshold (int n) \<le> int (card S) \<and>
            vote_threshold (int n) \<le> int (card T) \<longrightarrow> ?f < card (S \<inter> T)"
      using bft.overlap [of "{0..<n}" ?f, unfolded t] n by (auto simp: thr)
  next
    assume all: "\<forall>S T. S \<subseteq> {0..<n} \<and> T \<subseteq> {0..<n} \<and> vote_threshold (int n) \<le> int (card S) \<and>
            vote_threshold (int n) \<le> int (card T) \<longrightarrow> ?f < card (S \<inter> T)"
    let ?S = "{0..<2 * ?f + 1}" and ?T = "{n - (2 * ?f + 1)..<n}"
    have "2 * ?f + 1 \<le> n" using assms by linarith
    then have "?f < card (?S \<inter> ?T)" using all [rule_format, of ?S ?T] by (simp add: thr)
    moreover have "?S \<inter> ?T = {n - (2 * ?f + 1)..<2 * ?f + 1}" using \<open>2 * ?f + 1 \<le> n\<close> by auto
    ultimately have "?f < 2 * ?f + 1 - (n - (2 * ?f + 1))" by (simp only: card_atLeastLessThan)
    then show "n = 3 * ?f + 1" using \<open>2 * ?f + 1 \<le> n\<close> assms by linarith
  }
qed

theorem quorum_intersection_iff_witness:
  "\<not> (\<forall>S T. S \<subseteq> {0..<6::nat} \<and> T \<subseteq> {0..<6} \<and> vote_threshold 6 \<le> int (card S) \<and>
            vote_threshold 6 \<le> int (card T) \<longrightarrow> 1 < card (S \<inter> T))"
  using quorum_intersection_iff [of 6] by simp

end
