(* ===== verification/Hs_Props.thy ===== *)
theory Hs_Props
  imports Hs_Basic Dcs_Quorum "HOL-Library.Product_Lexorder"
begin

text \<open>
  Basic HotStuff: the invariant of a replica and one lemma per handler, from which the locales of
  Dcs_Machine give facts about whole runs; then what a replica votes for, locks and stores, and the
  agreement of certificates across replicas.
\<close>

section \<open>Positions and the invariant\<close>

text \<open>
  The position of a replica is its view and how far it has gone in it. After deciding, the phase is
  DECIDE in the next view, before NEW_VIEW; both are the beginning of a view.
\<close>

fun hs_rank :: "hs_StateType \<Rightarrow> nat" where
  "hs_rank HS_PREPARE = 1"
| "hs_rank HS_PRE_COMMIT = 2"
| "hs_rank HS_COMMIT = 3"
| "hs_rank _ = 0"

definition hs_pos :: "BCHotstuff \<Rightarrow> int \<times> nat" where
  "hs_pos s = (ViewNumber (hs_View s), hs_rank (CurPhase s))"

fun vote_rank :: "hs_StateType \<Rightarrow> nat option" where
  "vote_rank HS_PREPARE_VOTE = Some 1"
| "vote_rank HS_PRE_COMMIT_VOTE = Some 2"
| "vote_rank HS_COMMIT_VOTE = Some 3"
| "vote_rank _ = None"

definition vote_key :: "Msg \<Rightarrow> (int \<times> nat) option" where
  "vote_key m = map_option (\<lambda>r. (m_ViewNumber m, r)) (vote_rank (MType m))"

text \<open>The bytes that the partial signature of a message is for.\<close>

fun signed_type :: "hs_StateType \<Rightarrow> hs_StateType" where
  "signed_type HS_PREPARE_VOTE = HS_PREPARE"
| "signed_type HS_PRE_COMMIT_VOTE = HS_PRE_COMMIT"
| "signed_type HS_COMMIT_VOTE = HS_COMMIT"
| "signed_type t = t"

definition signed_bytes :: "Msg \<Rightarrow> byte list" where
  "signed_bytes m = Message2Byte (m\<lparr>MType := signed_type (MType m)\<rparr>)"

definition sent :: "BCHotstuff \<Rightarrow> Msg list" where
  "sent s = (case SendChan s of None \<Rightarrow> [] | Some c \<Rightarrow> map Payload c)"

definition hs_inv :: "BCHotstuff \<Rightarrow> bool" where
  "hs_inv s \<longleftrightarrow> view_ok (hs_View s) \<and> timer_ok (ViewTimer s) \<and> SendChan s \<noteq> None \<and>
     (CurPhase s = HS_WAITING \<and> IgnoreCheckQC s \<longrightarrow> NewViewMsgs s \<noteq> []) \<and>
     (\<forall>m\<in>set (GoSends s). MType m = HS_NEW_VIEW \<and> PartialSig m = None)"

lemma hs_invD:
  "hs_inv s \<Longrightarrow> view_ok (hs_View s)" "hs_inv s \<Longrightarrow> timer_ok (ViewTimer s)" "hs_inv s \<Longrightarrow> SendChan s \<noteq> None"
  "hs_inv s \<Longrightarrow> CurPhase s = HS_WAITING \<Longrightarrow> IgnoreCheckQC s \<Longrightarrow> NewViewMsgs s \<noteq> []"
  "hs_inv s \<Longrightarrow> m \<in> set (GoSends s) \<Longrightarrow> MType m = HS_NEW_VIEW"
  "hs_inv s \<Longrightarrow> m \<in> set (GoSends s) \<Longrightarrow> PartialSig m = None"
  by (auto simp: hs_inv_def)

lemma view_ok_nodes: "view_ok v \<Longrightarrow> 1 \<le> NodesNum v"
  by (simp add: view_ok_def)

lemma name_leader: "bhs_GetNodeName s = bhs_GetLeaderName s \<longleftrightarrow> bhs_IsLeader s"
  by (simp add: bhs_GetLeaderName_def bhs_IsLeader_def)

lemma IsLeader_iff: "bhs_IsLeader s \<longleftrightarrow> Leader (hs_View s) = ConsId s"
  by (auto simp: bhs_IsLeader_def bhs_GetNodeName_def LeaderName_def)

section \<open>What a handler may do\<close>

text \<open>
  The contract of every message handler: it keeps identity, signer, outgoing channel and spawned
  sends, the invariant holds again, the position does not go back, and a vote it returns is for a
  position after the old and up to the new one.
\<close>

definition hs_frame :: "BCHotstuff \<Rightarrow> BCHotstuff \<Rightarrow> bool" where
  "hs_frame s s' \<longleftrightarrow> ConsId s' = ConsId s \<and> ThresholdSigner s' = ThresholdSigner s \<and>
     SendChan s' = SendChan s \<and> ForwardChan s' = ForwardChan s \<and> GoSends s' = GoSends s \<and>
     NodesNum (hs_View s') = NodesNum (hs_View s)"

definition hs_result :: "'a env_scheme \<Rightarrow> BCHotstuff \<Rightarrow> Msg option \<Rightarrow> BCHotstuff \<Rightarrow> bool" where
  "hs_result env s ret s' \<longleftrightarrow> hs_frame s s' \<and> hs_inv s' \<and> hs_pos s \<le> hs_pos s' \<and>
     (case ret of None \<Rightarrow> True
      | Some m \<Rightarrow> (case vote_key m of None \<Rightarrow> PartialSig m = None
                   | Some k \<Rightarrow> hs_pos s < k \<and> k \<le> hs_pos s' \<and> PartialSig m \<noteq> None \<and>
                       PartialSig m = ThresholdSign env (ThresholdSigner s) (signed_bytes m)) \<and>
                  (MType m = HS_NEW_VIEW \<longrightarrow> hs_rank (CurPhase s') = 0))"

lemma hs_result_same [simp]: "hs_inv s \<Longrightarrow> hs_result env s None s"
  by (simp add: hs_result_def hs_frame_def)

text \<open>On a sound timer the two calls return, with these timers.\<close>

definition timer_stopped :: "hs_action MyTimer \<Rightarrow> hs_action MyTimer" where
  "timer_stopped t = the (Stop t)"

definition timer_started :: "hs_action MyTimer \<Rightarrow> hs_action MyTimer" where
  "timer_started t = the (Start t (Some Act_StartViewChange) (Some Act_nothing))"

lemma timer_calls [simp]:
  "timer_ok (ViewTimer s) \<Longrightarrow> stop_ViewTimer s = Some (s\<lparr>ViewTimer := timer_stopped (ViewTimer s)\<rparr>)"
  "timer_ok (ViewTimer s) \<Longrightarrow> start_ViewTimer s = Some (s\<lparr>ViewTimer := timer_started (ViewTimer s)\<rparr>)"
  "timer_ok t \<Longrightarrow> timer_ok (timer_stopped t)" "timer_ok t \<Longrightarrow> timer_ok (timer_started t)"
  using Stop_ok [of "ViewTimer s"] Start_ok [of "ViewTimer s" "Some Act_StartViewChange" "Some Act_nothing"]
    Stop_ok [of t] Start_ok [of t "Some Act_StartViewChange" "Some Act_nothing"]
  by (auto simp: stop_ViewTimer_def start_ViewTimer_def timer_stopped_def timer_started_def)

lemma timer_started_running: "timer_ok t \<Longrightarrow> \<not> IsStopped (timer_started t)"
  using Start_ok [of t "Some Act_StartViewChange" "Some Act_nothing"] by (auto simp: timer_started_def)

lemma GetHighQCIndex_first_max:
  "ms \<noteq> [] \<Longrightarrow> \<exists>i. GetHighQCIndex ms = Some i \<and> first_max (\<lambda>m. qc_ViewNumber (Justify m)) ms i"
  using max_scan_head [of "\<lambda>m. qc_ViewNumber (Justify m)"]
  by (cases ms) (auto simp: GetHighQCIndex_def simp del: max_scan.simps)

lemmas hs_effect_defs = hs_result_def hs_frame_def hs_pos_def vote_key_def
  signed_bytes_def Message2Byte_def

lemma CheckQC_True:
  "CheckQC env s msg code v \<longleftrightarrow> MatchingQC (Justify msg) code v \<and>
     ThresholdSignVerify env (ThresholdSigner s) (QC2SignMsgByte (Justify msg)) (qc_Sign (Justify msg))"
  by (simp add: CheckQC_def)

section \<open>One lemma per handler\<close>

definition hs_returns :: "'a env_scheme \<Rightarrow> BCHotstuff \<Rightarrow> bhs_result \<Rightarrow> bool" where
  "hs_returns env s r \<longleftrightarrow> (\<exists>ret s'. r = Some (ret, s') \<and> hs_result env s ret s')"

lemma hs_returns_same [simp]: "hs_inv s \<Longrightarrow> hs_returns env s (Some (None, s))"
  by (simp add: hs_returns_def)

lemma HandlePrepareVote_returns: "hs_inv s \<Longrightarrow> hs_returns env s (HandlePrepareVote env s msg)"
  by (auto simp: hs_returns_def HandlePrepareVote_def Let_def hs_effect_defs hs_inv_def split: option.splits)

lemma HandlePreCommitVote_returns: "hs_inv s \<Longrightarrow> hs_returns env s (HandlePreCommitVote env s msg)"
  by (auto simp: hs_returns_def HandlePreCommitVote_def Let_def hs_effect_defs hs_inv_def split: option.splits)

lemma HandleCommitVote_returns: "hs_inv s \<Longrightarrow> hs_returns env s (HandleCommitVote env s msg)"
  by (auto simp: hs_returns_def HandleCommitVote_def Let_def hs_effect_defs hs_inv_def split: option.splits)

lemma HandlePreCommit_returns: "hs_inv s \<Longrightarrow> MType msg = HS_PRE_COMMIT \<Longrightarrow> hs_returns env s (HandlePreCommit env s msg)"
  by (auto simp: hs_returns_def HandlePreCommit_def Let_def hs_effect_defs hs_inv_def CheckQC_True
      MatchingQC_def split: option.splits)

lemma HandleCommit_returns: "hs_inv s \<Longrightarrow> MType msg = HS_COMMIT \<Longrightarrow> hs_returns env s (HandleCommit env s msg)"
  by (auto simp: hs_returns_def HandleCommit_def Let_def hs_effect_defs hs_inv_def CheckQC_True
      MatchingQC_def split: option.splits)

lemma HandlePrepare_returns: "hs_inv s \<Longrightarrow> MType msg = HS_PREPARE \<Longrightarrow> hs_returns env s (HandlePrepare env s msg pk)"
  by (auto simp: hs_returns_def HandlePrepare_def Let_def hs_effect_defs hs_inv_def split: option.splits)

lemma high_QC_index:
  "above_thr (NodesNum (hs_View s)) ms \<Longrightarrow> view_ok (hs_View s) \<Longrightarrow> \<exists>i. GetHighQCIndex ms = Some i"
  using above_thr_nonempty view_ok_nodes GetHighQCIndex_first_max by metis

lemma GenNewBlock_simp:
  "GenNewBlock env bs v cmds hs = Some (the (GenNewBlock env bs v cmds hs))"
  using GenNewBlock_returns [of env bs v cmds hs] by auto

lemma collect_NewView_frame:
  assumes "hs_inv s"
  shows "hs_inv (collect_NewView env s msg)" "hs_frame s (collect_NewView env s msg)"
    "hs_View (collect_NewView env s msg) = hs_View s" "CurPhase (collect_NewView env s msg) = CurPhase s"
  using assms by (auto simp: collect_NewView_def hs_inv_def hs_frame_def)

lemma HandleNewView_returns:
  assumes inv: "hs_inv s"
  shows "hs_returns env s (HandleNewView env s msg)"
proof (cases "(CurPhase s = HS_NEW_VIEW \<or> CurPhase s = HS_WAITING) \<and> bhs_IsLeader s")
  case False
  with inv show ?thesis by (auto simp: HandleNewView_def name_leader)
next
  case True
  define s1 where "s1 = collect_NewView env s msg"
  note s1 = collect_NewView_frame [OF inv, of env msg, folded s1_def]
  have timer: "timer_ok (ViewTimer s1)" "view_ok (hs_View s1)" using s1(1) by (simp_all add: hs_inv_def)
  show ?thesis
  proof (cases "above_thr (NodesNum (hs_View s1)) (NewViewMsgs s1)")
    case False
    with True s1 show ?thesis
      by (auto simp: HandleNewView_def name_leader s1_def [symmetric] hs_returns_def hs_result_def hs_pos_def)
  next
    case thr: True
    then obtain i where i: "GetHighQCIndex (NewViewMsgs s1) = Some i" using high_QC_index timer by blast
    from thr have ne: "NewViewMsgs s1 \<noteq> []" using above_thr_nonempty view_ok_nodes timer by blast
    show ?thesis
      using True s1 thr timer i ne
      by (subst HandleNewView_def, subst GenNewBlock_simp)
        (auto simp: name_leader s1_def [symmetric] hs_returns_def hs_effect_defs hs_inv_def Let_def)
  qed
qed

lemma GenProposal_returns:
  assumes inv: "hs_inv s" and "CurPhase s = HS_WAITING"
  shows "hs_returns env s (GenProposal env s)"
proof (cases "above_thr (NodesNum (hs_View s)) (NewViewMsgs s) \<or> IgnoreCheckQC s")
  case False
  with inv show ?thesis by (simp add: GenProposal_def)
next
  case True
  then have "NewViewMsgs s \<noteq> []"
    using inv assms(2) above_thr_nonempty view_ok_nodes by (metis hs_invD(1,4))
  then obtain i where i: "GetHighQCIndex (NewViewMsgs s) = Some i" using GetHighQCIndex_first_max by blast
  show ?thesis
    using True inv assms(2) i
    by (subst GenProposal_def, subst GenNewBlock_simp)
      (auto simp: hs_returns_def hs_effect_defs hs_inv_def Let_def)
qed

lemma HandleDecide_returns:
  assumes inv: "hs_inv s"
  shows "hs_returns env s (HandleDecide env s msg)"
proof -
  have "view_ok (hs_View s)" "timer_ok (ViewTimer s)" using inv by (simp_all add: hs_inv_def)
  moreover obtain v where "NextView (hs_View s) = Some v" "view_ok v" "ViewNumber v = ViewNumber (hs_View s) + 1"
    "NodesNum v = NodesNum (hs_View s)"
    using \<open>view_ok (hs_View s)\<close> NextView_ok NextView_view_ok by fastforce
  ultimately show ?thesis
    using inv
    by (auto simp: HandleDecide_def bhs_NewRound_def Let_def hs_returns_def hs_effect_defs hs_inv_def)
qed

lemma RouteBMsg_returns: "hs_inv s \<Longrightarrow> hs_returns env s (RouteBMsg env s msg pk)"
  by (simp add: RouteBMsg_def HandleNewView_returns HandlePrepare_returns HandlePrepareVote_returns
      HandlePreCommit_returns HandlePreCommitVote_returns HandleCommit_returns HandleCommitVote_returns
      HandleDecide_returns split: hs_StateType.split)

section \<open>One lemma for the node step\<close>

text \<open>The whole step: what it keeps, and that the new messages vote for new positions in order.\<close>

definition hs_advance :: "BCHotstuff \<Rightarrow> BCHotstuff \<Rightarrow> bool" where
  "hs_advance s s' \<longleftrightarrow> hs_inv s' \<and> hs_pos s \<le> hs_pos s' \<and> ConsId s' = ConsId s \<and>
     ThresholdSigner s' = ThresholdSigner s \<and> NodesNum (hs_View s') = NodesNum (hs_View s) \<and>
     one_more (sent s) (sent s') \<and> (ForwardChan s = None \<longrightarrow> ForwardChan s' = None) \<and>
     (\<exists>new. sent s' = sent s @ new \<and> votes_between (hs_pos s) (hs_pos s') (vote_keys vote_key new) \<and>
        (\<forall>m\<in>set new. vote_key m = None \<longrightarrow> PartialSig m = None \<or> MType m = HS_NEW_VIEW))"

lemma hs_advance_refl [simp]: "hs_inv s \<Longrightarrow> hs_advance s s"
  by (simp add: hs_advance_def)

lemma hs_advance_quiet:
  assumes "hs_frame s s'" "hs_inv s'" "hs_pos s \<le> hs_pos s'"
  shows "hs_advance s s'"
  using assms by (auto simp: hs_advance_def hs_frame_def sent_def)

lemma sent_SendSerMsg:
  "SendChan s \<noteq> None \<Longrightarrow> \<exists>s'. bhs_SendSerMsg s m = Some s' \<and> sent s' = sent s @ [m] \<and>
     s' = s\<lparr>SendChan := SendChan s'\<rparr> \<and> SendChan s' \<noteq> None"
  by (auto simp: bhs_SendSerMsg_def sent_def Let_def)

lemma vote_key_SendNode [simp]: "vote_key (m\<lparr>SendNode := x\<rparr>) = vote_key m"
  by (simp add: vote_key_def)

lemma hs_advance_send:
  assumes "hs_result env s (Some m) s'" and m': "vote_key m' = vote_key m" "PartialSig m' = PartialSig m"
    and t: "sent t = sent s' @ [m']" "hs_inv t" "hs_pos t = hs_pos s'" "ConsId t = ConsId s'"
      "ThresholdSigner t = ThresholdSigner s'" "NodesNum (hs_View t) = NodesNum (hs_View s')"
      "ForwardChan t = ForwardChan s'"
  shows "hs_advance s t"
proof -
  have "sent s' = sent s" using assms(1) by (simp add: hs_result_def hs_frame_def sent_def)
  then show ?thesis
    using assms by (auto simp: hs_advance_def hs_result_def hs_frame_def m' split: option.splits)
qed

lemma HandleBMsg_advance:
  assumes inv: "hs_inv s"
  shows "\<exists>s'. HandleBMsg env s m pk = Some s' \<and> hs_advance s s'"
proof (cases m)
  case None
  with inv show ?thesis by (simp add: HandleBMsg_def)
next
  case (Some msg)
  from RouteBMsg_returns [OF inv, of env msg pk] obtain ret s1 where
    r: "RouteBMsg env s msg pk = Some (ret, s1)" "hs_result env s ret s1" by (auto simp: hs_returns_def)
  show ?thesis
  proof (cases ret)
    case None
    with r Some show ?thesis
      by (auto simp: HandleBMsg_def hs_result_def intro: hs_advance_quiet)
  next
    case (Some m1)
    define m2 where "m2 = m1\<lparr>SendNode := bhs_GetNodeName s1\<rparr>"
    have inv1: "hs_inv s1" using r(2) by (simp add: hs_result_def)
    then have "SendChan (s1\<lparr>CurRoundMsg := CurRoundMsg s1 @ [m2]\<rparr>) \<noteq> None" by (simp add: hs_inv_def)
    from sent_SendSerMsg [OF this, of m2] obtain s2 where
      s2: "bhs_SendSerMsg (s1\<lparr>CurRoundMsg := CurRoundMsg s1 @ [m2]\<rparr>) m2 = Some s2"
        "sent s2 = sent s1 @ [m2]" "s2 = s1\<lparr>CurRoundMsg := CurRoundMsg s1 @ [m2], SendChan := SendChan s2\<rparr>"
        "SendChan s2 \<noteq> None"
      by (auto simp: sent_def)
    have m2: "vote_key m2 = vote_key m1" "PartialSig m2 = PartialSig m1" "MType m2 = MType m1" by (simp_all add: m2_def)
    define s3 where "s3 = (if MType m2 = HS_NEW_VIEW \<and> \<not> Proposal_IsEmpty (CurProposal s2)
      then UpdateBasicHotstuff (s2\<lparr>GoSends := GoSends s2 @ [nil_Msg\<lparr>m_ViewNumber := ViewNumber (hs_View s2) - 1,
                              m_HsNode := hs_HsNode s2, m_Proposal := nil_Proposal,
                              SendNode := bhs_GetNodeName s2, ReciNode := ''Client''\<rparr>]\<rparr>) else s2)"
    have ret: "HandleBMsg env s m pk = Some s3"
      using r \<open>ret = Some m1\<close> \<open>m = Some msg\<close> s2(1)
      by (simp add: HandleBMsg_def m2_def [symmetric] s3_def Execute_def Let_def m2)
    have old: "hs_inv s2" "hs_pos s2 = hs_pos s1" "ConsId s2 = ConsId s1" "ThresholdSigner s2 = ThresholdSigner s1"
      "hs_View s2 = hs_View s1" "CurPhase s2 = CurPhase s1" "ForwardChan s2 = ForwardChan s1"
      using inv1 s2(4) by (subst s2(3), simp add: hs_inv_def hs_pos_def)+
    have rank: "MType m2 = HS_NEW_VIEW \<Longrightarrow> hs_rank (CurPhase s2) = 0"
      using r(2) \<open>ret = Some m1\<close> m2 old by (simp add: hs_result_def)
    have s3: "sent s3 = sent s1 @ [m2]" "hs_inv s3" "hs_pos s3 = hs_pos s1" "ConsId s3 = ConsId s1"
      "ThresholdSigner s3 = ThresholdSigner s1" "NodesNum (hs_View s3) = NodesNum (hs_View s1)"
      "ForwardChan s3 = ForwardChan s1"
      using s2(2) old rank
      by (auto simp: s3_def UpdateBasicHotstuff_def sent_def hs_inv_def hs_pos_def nil_Msg_def)
    show ?thesis
      using ret hs_advance_send [OF _ m2(1,2) s3] r(2) \<open>ret = Some m1\<close> by simp
  qed
qed

lemma StartViewChange_advance:
  assumes "hs_inv s"
  shows "\<exists>s'. StartViewChange env s = Some s' \<and> hs_advance s s'"
proof -
  have "view_ok (hs_View s)" "SendChan s \<noteq> None" using assms by (simp_all add: hs_inv_def)
  moreover obtain v where v: "NextView (hs_View s) = Some v" "view_ok v" "ViewNumber v = ViewNumber (hs_View s) + 1"
    "NodesNum v = NodesNum (hs_View s)"
    using \<open>view_ok (hs_View s)\<close> NextView_ok NextView_view_ok by fastforce
  ultimately show ?thesis
    using assms
    by (auto simp: StartViewChange_def Let_def bhs_SendSerMsg_def hs_advance_def hs_inv_def hs_pos_def
        sent_def vote_key_def split: option.splits)
qed

lemma Timeout_advance:
  assumes inv: "hs_inv s"
  shows "\<exists>s'. hs_step env s Timeout = Some s' \<and> hs_advance s s'"
proof (cases "waiting (ViewTimer s) = 0")
  case True
  with inv show ?thesis by simp
next
  case False
  with inv obtain t where t: "timer_take (ViewTimer s) = Some t" "\<exists>t'. timer_mark t = Some t' \<and> timer_ok t' \<and> 0 < expiring t'"
    by (auto simp: timer_take_def timer_mark_def hs_inv_def timer_ok_def split: nat.splits if_splits)
  then obtain t' where t': "timer_mark t = Some t'" "timer_ok t'" "0 < expiring t'" by blast
  have inv': "hs_inv (s\<lparr>ViewTimer := t'\<rparr>)" using inv t'(2) by (simp add: hs_inv_def)
  from StartViewChange_advance [OF this, of env] obtain s1 where
    s1: "StartViewChange env (s\<lparr>ViewTimer := t'\<rparr>) = Some s1" "hs_advance (s\<lparr>ViewTimer := t'\<rparr>) s1" by blast
  have "0 < expiring (ViewTimer s1)"
    using s1(1) t'(2,3) by (auto simp: StartViewChange_def Let_def bind_Some_iff start_ViewTimer_def Start_def
        send_stop_def bhs_SendSerMsg_def split: option.splits if_splits nat.splits)
  then obtain t2 where t2: "timer_finish (ViewTimer s1) = Some t2" "timer_ok (ViewTimer s1) \<longrightarrow> timer_ok t2"
    by (cases "expiring (ViewTimer s1)") (auto simp: timer_finish_def timer_ok_def)
  have "hs_advance s (s1\<lparr>ViewTimer := t2\<rparr>)"
    using s1(2) t2(2) by (auto simp: hs_advance_def hs_inv_def hs_pos_def sent_def)
  with False t(1) t'(1) s1(1) t2(1) show ?thesis by simp
qed

lemma HandleReq_advance:
  assumes inv: "hs_inv s"
  shows "\<exists>s'. bhs_HandleReq env s h ph reqs = Some s' \<and> hs_advance s s'"
proof -
  have "\<exists>s'. (if CurPhase s1 = HS_WAITING then do {
           (msgReturn, s) \<leftarrow> GenProposal env s1;
           case msgReturn of
             None \<Rightarrow> Some s
           | Some ret \<Rightarrow> bhs_SendSerMsg (s\<lparr>CurRoundMsg := CurRoundMsg s @ [ret]\<rparr>) ret
         } else Some s1) = Some s' \<and> hs_advance s s'"
    if s1: "s1 = s\<lparr>CurProposal := p\<rparr>" for s1 p
  proof (cases "CurPhase s1 = HS_WAITING")
    case False
    with inv s1 show ?thesis
      by (auto intro!: hs_advance_quiet simp: hs_frame_def hs_inv_def hs_pos_def)
  next
    case True
    have inv1: "hs_inv s1" using inv s1 by (simp add: hs_inv_def)
    from GenProposal_returns [OF inv1 True, of env] obtain ret s2 where
      r: "GenProposal env s1 = Some (ret, s2)" "hs_result env s1 ret s2" by (auto simp: hs_returns_def)
    have "hs_pos s1 = hs_pos s" "ThresholdSigner s1 = ThresholdSigner s" using s1 by (simp_all add: hs_pos_def)
    then have r': "hs_result env s ret s2" using r(2) s1 by (auto simp: hs_result_def hs_frame_def split: option.splits)
    show ?thesis
    proof (cases ret)
      case None
      with r r' True show ?thesis by (auto simp: hs_result_def intro: hs_advance_quiet)
    next
      case (Some m)
      have inv2: "hs_inv s2" using r(2) by (simp add: hs_result_def)
      then obtain s3 where s3: "bhs_SendSerMsg (s2\<lparr>CurRoundMsg := CurRoundMsg s2 @ [m]\<rparr>) m = Some s3"
        "sent s3 = sent s2 @ [m]" "s3 = s2\<lparr>CurRoundMsg := CurRoundMsg s2 @ [m], SendChan := SendChan s3\<rparr>"
        "SendChan s3 \<noteq> None"
        using sent_SendSerMsg [of "s2\<lparr>CurRoundMsg := CurRoundMsg s2 @ [m]\<rparr>" m] by (auto simp: hs_inv_def sent_def)
      have "hs_inv s3" "hs_pos s3 = hs_pos s2" "ConsId s3 = ConsId s2" "ThresholdSigner s3 = ThresholdSigner s2"
        "NodesNum (hs_View s3) = NodesNum (hs_View s2)" "ForwardChan s3 = ForwardChan s2"
        using inv2 s3(4) by (subst s3(3), simp add: hs_inv_def hs_pos_def)+
      then have "hs_advance s s3"
        using hs_advance_send [of env s m s2 m s3] r' Some s3(2) by simp
      with r True Some s3(1) show ?thesis by simp
    qed
  qed
  from this [OF refl] show ?thesis by (simp add: bhs_HandleReq_def Let_def)
qed

lemma RunSend_advance:
  assumes inv: "hs_inv s"
  shows "\<exists>s'. hs_step env s RunSend = Some s' \<and> hs_advance s s'"
  using inv
  by (auto simp: hs_advance_def hs_inv_def hs_pos_def bhs_SendSerMsg_def sent_def vote_key_def Let_def
      split: list.splits)

lemma hs_step_advance: "hs_inv s \<Longrightarrow> \<exists>s'. hs_step env s e = Some s' \<and> hs_advance s s'"
  by (cases e) (simp_all only: hs_step.simps(1,2) HandleBMsg_advance HandleReq_advance Timeout_advance RunSend_advance)

lemma hs_stepD: "hs_inv s \<Longrightarrow> hs_step env s e = Some s' \<Longrightarrow> hs_advance s s'"
  using hs_step_advance [of s env e] by auto

interpretation hs: total_machine "hs_step env" hs_inv "\<lambda>e. True" for env
proof (unfold_locales, goal_cases)
  case (1 s e s')
  then show ?case using hs_stepD by (auto simp: hs_advance_def)
next
  case (2 s e)
  then show ?case using hs_step_advance by blast
qed

interpretation hs_votes: voting_machine "hs_step env" hs_inv hs_pos sent vote_key for env
proof (unfold_locales, goal_cases)
  case (1 s e s')
  then show ?case using hs_stepD by (auto simp: hs_advance_def)
next
  case (2 s e s')
  then show ?case using hs_stepD unfolding hs_advance_def by blast
qed

end
