(* ===== verification/Hs_Agreement.thy ===== *)
theory Hs_Agreement
  imports Hs_Props
begin

text \<open>
  Runs of basic HotStuff replicas: every event is handled to its end, each replica votes at most once
  per phase and view, and so, with unforgeable threshold signatures and at most \<open>f\<close> faulty nodes out
  of \<open>3 f + 1\<close>, two verified certificates of the same type and view certify the same node. The faulty
  nodes are unconstrained, and the honest ones may see any messages, timeouts and requests in any
  order. The operations of the node management (\<open>ClearCurrentRound\<close>, \<open>SyncInfo\<close>, \<open>UpdateNodesNum\<close>, the
  restart) are not events of these runs: after \<open>ClearCurrentRound\<close> a replica votes again in the view it
  is in, and after \<open>SyncInfo\<close> it is in whatever view the message names.
\<close>

section \<open>Starting a node\<close>

text \<open>\<open>InitConsensus\<close> of orderer/core for basic HotStuff, with an empty outgoing channel.\<close>

definition hs_start :: "'a env_scheme \<Rightarrow> int \<Rightarrow> int \<Rightarrow> string \<Rightarrow> tss_Signer \<Rightarrow> BCHotstuff" where
  "hs_start env consId nodeNum path signer =
     (let s = NewBCHotstuff env 5000 consId nodeNum path (Some []) signer
      in if bhs_IsLeader s then bhs_InitLeader env s else s)"

lemma hs_start_sel [simp]:
  "hs_View (hs_start env i n path g) = \<lparr>ViewNumber = 0, Leader = 0, NodesNum = n\<rparr>"
  "ConsId (hs_start env i n path g) = i" "ThresholdSigner (hs_start env i n path g) = g"
  "sent (hs_start env i n path g) = []" "GoSends (hs_start env i n path g) = []"
  "hs_rank (CurPhase (hs_start env i n path g)) = 0" "hs_pos (hs_start env i n path g) = (0, 0)"
  "ForwardChan (hs_start env i n path g) = None"
  by (simp_all add: hs_start_def NewBCHotstuff_def bhs_InitLeader_def Let_def sent_def hs_pos_def)

lemma hs_start_inv: "1 \<le> n \<Longrightarrow> hs_inv (hs_start env i n path g)"
  by (simp add: hs_inv_def view_ok_def) (simp add: hs_start_def NewBCHotstuff_def bhs_InitLeader_def Let_def)

text \<open>
  C18 Every event returns: from its start, a basic HotStuff node handles every sequence of network
  messages (well-formed or not, from anyone), request batches, timeouts and scheduled sends to the
  end without a panic, and in the state it is then in, any further event returns too, having put at
  most one message on the send channel and none on the forward channel. So it does not block either,
  as long as the send channel (of 128 places) has one free place at each event and the timer is not
  caught between its timeout and the assignment after it (timer.go:46 to 49): an expiry is one event
  here. The view's leader always is one of the nodes, whose number does not change.
\<close>

theorem hs_never_stuck:
  assumes "1 \<le> n"
  shows "\<exists>t. run (hs_step env) (hs_start env i n path g) es = Some t \<and> view_ok (hs_View t) \<and>
    timer_ok (ViewTimer t) \<and> NodesNum (hs_View t) = n \<and> ForwardChan t = None \<and>
    (\<forall>e. \<exists>u. hs_step env t e = Some u \<and> one_more (sent t) (sent u) \<and> ForwardChan u = None)"
proof -
  have all: "list_all (\<lambda>e. True) es" by (simp add: list_all_iff)
  from hs.run_returns [OF hs_start_inv [OF assms] all] obtain t where
    t: "run (hs_step env) (hs_start env i n path g) es = Some t" by blast
  have same: "NodesNum (hs_View t) = NodesNum (hs_View s) \<and> (ForwardChan s = None \<longrightarrow> ForwardChan t = None)"
    if "hs_inv s" "run (hs_step env) s es = Some t" for s t es
    using that
  proof (induction es arbitrary: s)
    case (Cons e es)
    from Cons.prems(2) obtain s' where "hs_step env s e = Some s'" "run (hs_step env) s' es = Some t"
      by (rule run_ConsE)
    with Cons.IH [of s'] hs_stepD [OF Cons.prems(1)] show ?case by (fastforce simp: hs_advance_def)
  qed simp
  note inv = hs.run_inv [OF hs_start_inv [OF assms] t]
  have "\<exists>u. hs_step env t e = Some u \<and> one_more (sent t) (sent u) \<and> ForwardChan u = None" for e
    using hs_step_advance [OF inv, of env e] same [OF hs_start_inv [OF assms] t] by (auto simp: hs_advance_def)
  with same [OF hs_start_inv [OF assms] t] inv t show ?thesis by (auto simp: hs_inv_def)
qed

theorem hs_never_stuck_witness:
  "\<exists>t. run (hs_step example_env) (hs_start example_env 2 4 ''d'' \<lparr>PrivateKey = (2, []), PublicKey = [],
        SignNum = 4, Threshold = 3\<rparr>) [Timeout, Deliver 5 None None, Request 6 0 None [], RunSend] = Some t \<and>
     NodesNum (hs_View t) = 4"
  using hs_never_stuck [of 4 example_env 2 "''d''" "\<lparr>PrivateKey = (2, []), PublicKey = [], SignNum = 4, Threshold = 3\<rparr>"
      "[Timeout, Deliver 5 None None, Request 6 0 None [], RunSend]"] by auto

section \<open>Votes\<close>

lemma votes_climb:
  assumes "1 \<le> n" and "run (hs_step env) (hs_start env i n path g) es = Some t"
  shows "sorted_wrt (<) (vote_keys vote_key (sent t)) \<and>
    (\<forall>m\<in>set (sent t). \<forall>v r. vote_key m = Some (v, r) \<longrightarrow> 0 \<le> v \<and> v \<le> ViewNumber (hs_View t))"
proof -
  note inv = hs_start_inv [OF assms(1), of env i path g]
  from hs_votes.run_out [OF inv assms(2)] have
    b: "votes_between (0, 0) (hs_pos t) (vote_keys vote_key (sent t))" by auto
  have "0 \<le> v \<and> v \<le> ViewNumber (hs_View t)" if "m \<in> set (sent t)" "vote_key m = Some (v, r)" for m v r
  proof -
    have "(v, r) \<in> set (vote_keys vote_key (sent t))" using that by (auto simp: set_vote_keys)
    then have "(0, 0) < (v, r)" "(v, r) \<le> hs_pos t" using b by (auto simp: votes_between_def)
    then show ?thesis by (auto simp: hs_pos_def)
  qed
  with b show ?thesis unfolding votes_between_def by blast
qed

lemma votes_distinct_bounded:
  assumes "1 \<le> n" and "run (hs_step env) (hs_start env i n path g) es = Some t"
  shows "distinct (vote_keys vote_key (sent t)) \<and>
    (\<forall>m\<in>set (sent t). \<forall>v r. vote_key m = Some (v, r) \<longrightarrow> 0 \<le> v \<and> v \<le> ViewNumber (hs_View t))"
  using votes_climb [OF assms] strict_sorted_iff by blast

text \<open>
  C2 A replica votes at most once for a phase of a view: in every run of messages, requests, timeouts
  and spawned sends from its start, the positions (view, phase) of the votes it sends climb strictly,
  so no two are equal, and they lie in the views it has been in. The run holds no operation of the
  node management: \<open>ClearCurrentRound\<close>, which a join or an exit calls, puts the phase back inside the
  view, and \<open>SyncInfo\<close> sets the view.
\<close>

theorem hs_votes_once:
  assumes "1 \<le> n" and "run (hs_step env) (hs_start env i n path g) es = Some t"
  shows "sorted_wrt (<) (vote_keys vote_key (sent t)) \<and> distinct (vote_keys vote_key (sent t)) \<and>
    (\<forall>m\<in>set (sent t). \<forall>v r. vote_key m = Some (v, r) \<longrightarrow> 0 \<le> v \<and> v \<le> ViewNumber (hs_View t))"
  using votes_climb [OF assms] votes_distinct_bounded [OF assms] by blast

theorem hs_votes_once_witness:
  "\<exists>t. run (hs_step example_env) (hs_start example_env 2 4 ''d'' \<lparr>PrivateKey = (2, []), PublicKey = [],
        SignNum = 4, Threshold = 3\<rparr>) [Timeout, Timeout] = Some t \<and> sorted_wrt (<) (vote_keys vote_key (sent t))"
proof -
  let ?g = "\<lparr>PrivateKey = (2, []), PublicKey = [], SignNum = 4, Threshold = 3\<rparr>"
  have "hs_inv (hs_start example_env 2 4 ''d'' ?g)" by (rule hs_start_inv) simp
  then obtain t where t: "run (hs_step example_env) (hs_start example_env 2 4 ''d'' ?g) [Timeout, Timeout] = Some t"
    using hs.run_returns [of _ "[Timeout, Timeout]" example_env] by (auto simp del: run.simps)
  with hs_votes_once [OF _ t] show ?thesis by (auto simp del: run.simps)
qed

section \<open>Agreement\<close>

text \<open>The byte strings a node has signed, as they can be seen in what it has sent.\<close>

definition hs_signed :: "BCHotstuff \<Rightarrow> byte list set" where
  "hs_signed s = {signed_bytes m | m. m \<in> set (sent s) \<and> PartialSig m \<noteq> None}"

lemma distinct_keys_inj:
  "\<lbrakk>distinct (vote_keys f xs); x \<in> set xs; y \<in> set xs; f x = Some k; f y = Some k\<rbrakk> \<Longrightarrow> x = y"
proof (induction xs)
  case (Cons z zs)
  have "k \<in> set (vote_keys f zs)" if "u \<in> set zs" "f u = Some k" for u
    using that by (auto simp: set_vote_keys)
  with Cons show ?case by (auto split: option.splits)
qed simp

lemma sent_kinds:
  assumes "hs_inv s" "run (hs_step env) s es = Some t"
    and "\<forall>m\<in>set (sent s). vote_key m = None \<longrightarrow> PartialSig m = None \<or> MType m = HS_NEW_VIEW"
  shows "\<forall>m\<in>set (sent t). vote_key m = None \<longrightarrow> PartialSig m = None \<or> MType m = HS_NEW_VIEW"
  using assms
proof (induction es arbitrary: s)
  case (Cons e es)
  from Cons.prems(2) obtain s' where s': "hs_step env s e = Some s'" "run (hs_step env) s' es = Some t"
    by (rule run_ConsE)
  from hs_stepD [OF Cons.prems(1) s'(1)] have adv: "hs_advance s s'" .
  then have "\<forall>m\<in>set (sent s'). vote_key m = None \<longrightarrow> PartialSig m = None \<or> MType m = HS_NEW_VIEW"
    using Cons.prems(3) by (auto simp: hs_advance_def)
  with Cons.IH [OF _ s'(2)] adv show ?case by (simp add: hs_advance_def)
qed simp

lemma signed_vote:
  assumes "vote_key m = None \<longrightarrow> PartialSig m = None \<or> MType m = HS_NEW_VIEW" "PartialSig m \<noteq> None"
    and "signed_bytes m = hs_sign_bytes ty v node" "ty = HS_PREPARE \<or> ty = HS_PRE_COMMIT \<or> ty = HS_COMMIT"
  shows "vote_key m = Some (m_ViewNumber m, hs_rank ty) \<and> m_ViewNumber m mod 256 = v mod 256"
proof -
  have "hs_sign_bytes (signed_type (MType m)) (m_ViewNumber m) (m_HsNode m) = hs_sign_bytes ty v node"
    using assms(3) by (simp add: signed_bytes_def Message2Byte_def)
  from hs_form.determines [OF this] have d: "hs_code (signed_type (MType m)) = hs_code ty"
    "m_ViewNumber m mod 256 = v mod 256" by auto
  show ?thesis
    using assms(1,2,4) d by (cases "MType m") (auto simp: vote_key_def)
qed

text \<open>An honest node signs at most one byte string per type and view below 256.\<close>

lemma signed_once:
  assumes "1 \<le> n" and run: "run (hs_step env) (hs_start env i n path g) es = Some t"
    and view: "ViewNumber (hs_View t) < 256"
    and ty: "ty = HS_PREPARE \<or> ty = HS_PRE_COMMIT \<or> ty = HS_COMMIT" and v: "0 \<le> v" "v < 256"
    and xy: "hs_sign_bytes ty v a \<in> hs_signed t" "hs_sign_bytes ty v b \<in> hs_signed t"
  shows "hs_sign_bytes ty v a = hs_sign_bytes ty v b"
proof -
  note once = votes_distinct_bounded [OF assms(1) run]
  have kinds: "\<forall>m\<in>set (sent t). vote_key m = None \<longrightarrow> PartialSig m = None \<or> MType m = HS_NEW_VIEW"
    by (rule sent_kinds [OF hs_start_inv run]) (use assms(1) in simp_all)
  have key: "\<exists>m\<in>set (sent t). signed_bytes m = hs_sign_bytes ty v c \<and> vote_key m = Some (v, hs_rank ty)"
    if "hs_sign_bytes ty v c \<in> hs_signed t" for c
  proof -
    from that obtain m where m: "m \<in> set (sent t)" "PartialSig m \<noteq> None" "signed_bytes m = hs_sign_bytes ty v c"
      by (auto simp: hs_signed_def)
    from signed_vote [OF bspec [OF kinds m(1)] m(2,3) ty]
    have k: "vote_key m = Some (m_ViewNumber m, hs_rank ty)" "m_ViewNumber m mod 256 = v mod 256" by auto
    with once m(1) have "0 \<le> m_ViewNumber m" "m_ViewNumber m \<le> ViewNumber (hs_View t)" by blast+
    with k(2) v view have "m_ViewNumber m = v" by simp
    with k m show ?thesis by auto
  qed
  from key [OF xy(1)] key [OF xy(2)] distinct_keys_inj [OF conjunct1 [OF once]] show ?thesis by metis
qed

text \<open>
  C1 Agreement of certificates: let \<open>3 f + 1\<close> nodes share a threshold key, at most \<open>f\<close> of them be
  faulty, and every honest one be in a state it reaches from its start by messages, requests,
  timeouts and spawned sends, in any order and from anyone (but without operations of the node
  management, after which a node may vote again), and still in a view below 256, the range of the
  signed byte. If a threshold signature only verifies when \<open>2 f + 1\<close> nodes have signed the message,
  then two verified certificates of the same type (prepare, pre-commit or commit) and of the same
  view below 256, whose node hashes have the same length, are for the same node hash and the same
  parent hash.
\<close>

theorem hs_qc_agreement:
  assumes faulty: "B \<subseteq> {0..<3 * f + 1}" "card B \<le> f"
    and honest: "\<And>i. i \<in> {0..<3 * f + 1} - B \<Longrightarrow> PublicKey (g i) = pub \<and>
        run (hs_step env) (hs_start env (int i) (3 * int f + 1) (path i) (g i)) (es i) = Some (st i) \<and>
        ViewNumber (hs_View (st i)) < 256"
    and unforgeable: "\<And>m sig. BdnVerify env pub m sig \<Longrightarrow>
        \<exists>S \<subseteq> {0..<3 * f + 1}. 2 * f + 1 \<le> card S \<and> (\<forall>i \<in> S - B. m \<in> hs_signed (st i))"
    and q1: "BdnVerify env pub (QC2SignMsgByte q1) (qc_Sign q1)"
    and q2: "BdnVerify env pub (QC2SignMsgByte q2) (qc_Sign q2)"
    and same: "QType q1 = QType q2" "qc_ViewNumber q1 = qc_ViewNumber q2"
    and range: "QType q1 \<in> {HS_PREPARE, HS_PRE_COMMIT, HS_COMMIT}" "0 \<le> qc_ViewNumber q1" "qc_ViewNumber q1 < 256"
    and len: "length (bval (CurHash (qc_HsNode q1))) = length (bval (CurHash (qc_HsNode q2)))"
  shows "bytes_Equal (CurHash (qc_HsNode q1)) (CurHash (qc_HsNode q2)) \<and>
    bytes_Equal (ParentHash (qc_HsNode q1)) (ParentHash (qc_HsNode q2))"
proof -
  have thr: "nat (vote_threshold (int (3 * f + 1))) = 2 * f + 1" by (subst vote_threshold_3f1) simp
  have "QC2SignMsgByte q1 = QC2SignMsgByte q2"
  proof (rule bft.one_per_slot [of "{0..<3 * f + 1}" f B _ "\<lambda>i. hs_signed (st i)", unfolded thr])
    show "finite B" using faulty(1) finite_subset by blast
    show "\<exists>S\<subseteq>{0..<3 * f + 1}. 2 * f + 1 \<le> card S \<and> (\<forall>p\<in>S - B. QC2SignMsgByte q1 \<in> hs_signed (st p))"
      using unforgeable [OF q1] .
    show "\<exists>S\<subseteq>{0..<3 * f + 1}. 2 * f + 1 \<le> card S \<and> (\<forall>p\<in>S - B. QC2SignMsgByte q2 \<in> hs_signed (st p))"
      using unforgeable [OF q2] .
    fix i assume i: "i \<in> {0..<3 * f + 1} - B" "QC2SignMsgByte q1 \<in> hs_signed (st i)" "QC2SignMsgByte q2 \<in> hs_signed (st i)"
    note h = honest [OF i(1)]
    from i(2,3) show "QC2SignMsgByte q1 = QC2SignMsgByte q2"
      unfolding QC2SignMsgByte_def same(1) [symmetric] same(2) [symmetric]
      by (intro signed_once [of "3 * int f + 1" env "int i" "path i" "g i" "es i" "st i"])
        (use h range in \<open>simp_all add: QC2SignMsgByte_def same [symmetric]\<close>)
  qed (use faulty in simp_all)
  then have "hs_sign_bytes (QType q1) (qc_ViewNumber q1) (qc_HsNode q1) =
      hs_sign_bytes (QType q2) (qc_ViewNumber q2) (qc_HsNode q2)"
    by (simp add: QC2SignMsgByte_def)
  from hs_form.determines_node [OF this len] show ?thesis .
qed

definition agree_node :: HsNode where
  "agree_node = \<lparr>CurHash = Some [7], ParentHash = Some [8]\<rparr>"

definition agree_env :: env where
  "agree_env = example_env\<lparr>BdnVerify := \<lambda>pub m sig. m = hs_sign_bytes HS_PREPARE 0 agree_node\<rparr>"

definition agree_event :: hs_event where
  "agree_event = Deliver 0 (Some (nil_Msg\<lparr>MType := HS_PREPARE, m_HsNode := agree_node,
     m_Proposal := nil_Proposal\<lparr>Commands := Some [[1]]\<rparr>\<rparr>)) None"

lemma agree_run:
  assumes "i \<noteq> 0"
  shows "\<exists>t. run (hs_step agree_env) (hs_start agree_env i 4 [] g) [agree_event] = Some t \<and>
    hs_sign_bytes HS_PREPARE 0 agree_node \<in> hs_signed t \<and> ViewNumber (hs_View t) = 0"
  using assms
  by (auto simp: agree_event_def hs_start_def bhs_IsLeader_def bhs_GetNodeName_def LeaderName_def NewBCHotstuff_def
      HandleBMsg_def RouteBMsg_def HandlePrepare_def Let_def bhs_GetLeaderName_def VerifyReqs_def
      stop_ViewTimer_def start_ViewTimer_def Stop_def Start_def NewTimer_def ThresholdSign_def agree_env_def
      example_env_def bhs_SendSerMsg_def hs_signed_def sent_def signed_bytes_def Message2Byte_def
      Proposal_IsEmpty_def nil_Proposal_def)

theorem hs_qc_agreement_witness:
  "let q = \<lparr>QType = HS_PREPARE, qc_ViewNumber = 0, qc_HsNode = agree_node, qc_Sign = Some [1]\<rparr>
   in bytes_Equal (CurHash (qc_HsNode q)) (CurHash (qc_HsNode (q\<lparr>qc_Sign := None\<rparr>)))"
proof -
  let ?q = "\<lparr>QType = HS_PREPARE, qc_ViewNumber = 0, qc_HsNode = agree_node, qc_Sign = Some [1]\<rparr>"
  let ?g = "\<lambda>i::nat. \<lparr>PrivateKey = (int i, []), PublicKey = [], SignNum = 4, Threshold = 3\<rparr>"
  have "\<exists>t. run (hs_step agree_env) (hs_start agree_env (int i) 4 [] (?g i)) [agree_event] = Some t \<and>
    hs_sign_bytes HS_PREPARE 0 agree_node \<in> hs_signed t \<and> ViewNumber (hs_View t) = 0" if "i \<noteq> 0" for i
    using agree_run [of "int i" "?g i"] that by simp
  then obtain st where st: "\<And>i. i \<noteq> 0 \<Longrightarrow>
      run (hs_step agree_env) (hs_start agree_env (int i) 4 [] (?g i)) [agree_event] = Some (st i) \<and>
      hs_sign_bytes HS_PREPARE 0 agree_node \<in> hs_signed (st i) \<and> ViewNumber (hs_View (st i)) = 0"
    by metis
  have "bytes_Equal (CurHash (qc_HsNode ?q)) (CurHash (qc_HsNode (?q\<lparr>qc_Sign := None\<rparr>))) \<and>
    bytes_Equal (ParentHash (qc_HsNode ?q)) (ParentHash (qc_HsNode (?q\<lparr>qc_Sign := None\<rparr>)))"
  proof (rule hs_qc_agreement [where B = "{0}" and f = 1 and g = ?g and pub = "[]" and env = agree_env
        and path = "\<lambda>_. []" and es = "\<lambda>_. [agree_event]" and st = st])
    fix m sig assume "BdnVerify agree_env [] m sig"
    then have m: "m = hs_sign_bytes HS_PREPARE 0 agree_node" by (simp add: agree_env_def)
    show "\<exists>S \<subseteq> {0..<3 * 1 + 1}. 2 * 1 + 1 \<le> card S \<and> (\<forall>i \<in> S - {0}. m \<in> hs_signed (st i))"
      by (rule exI [of _ "{1..<4}"]) (use st m in auto)
  qed (use st in \<open>simp_all add: agree_env_def QC2SignMsgByte_def del: run.simps\<close>)
  then show ?thesis by simp
qed

end
