(* ===== verification/Hs_Safety.thy ===== *)
theory Hs_Safety
  imports Hs_Agreement
begin

text \<open>
  What a basic HotStuff replica locks and stores. Frame lemmas say which operation can touch the
  lock and the block files; with them every change of either in a node step is traced to a verified
  certificate. Then the good case of a replica, view by view, and four ways in which the code falls
  short: a timeout may come between two statements and block the replica, the stored block is not compared with the certified hash, clearing a round lets a replica
  vote again in the same view, and certificates are valid again 256 views later.
\<close>

section \<open>Frames\<close>

definition hs_same_store :: "BCHotstuff \<Rightarrow> BCHotstuff \<Rightarrow> bool" where
  "hs_same_store s s' \<longleftrightarrow> bs_Files (BlkStore s') = bs_Files (BlkStore s) \<and>
     bs_Height (BlkStore s') = bs_Height (BlkStore s)"

lemma hs_same_store_refl [simp]: "hs_same_store s s"
  by (simp add: hs_same_store_def)

lemma GenNewBlock_frame:
  "GenNewBlock env bs v cmds hs = Some bs' \<Longrightarrow> bs_Files bs' = bs_Files bs \<and> bs_Height bs' = bs_Height bs \<and>
     bs_PreBlkHash bs' = bs_PreBlkHash bs"
  using GenNewBlock_returns [of env bs v cmds hs] by auto

lemma timer_frameE:
  "stop_ViewTimer s = Some s' \<Longrightarrow> \<exists>t. s' = s\<lparr>ViewTimer := t\<rparr>"
  "start_ViewTimer s = Some s' \<Longrightarrow> \<exists>t. s' = s\<lparr>ViewTimer := t\<rparr>"
  by (auto simp: stop_ViewTimer_def start_ViewTimer_def bind_Some_iff)

lemma send_frameE: "bhs_SendSerMsg s m = Some s' \<Longrightarrow> \<exists>c. s' = s\<lparr>SendChan := c\<rparr>"
  by (auto simp: bhs_SendSerMsg_def Let_def split: option.splits)

lemma HandleNewView_frame:
  "HandleNewView env s msg = Some (ret, s') \<Longrightarrow> LockedQC s' = LockedQC s \<and> PrepareQC s' = PrepareQC s \<and> hs_same_store s s'"
  by (auto simp: HandleNewView_def collect_NewView_def Let_def bind_Some_iff hs_same_store_def
      split: if_splits dest!: timer_frameE GenNewBlock_frame)

lemma GenProposal_frame:
  "GenProposal env s = Some (ret, s') \<Longrightarrow> LockedQC s' = LockedQC s \<and> PrepareQC s' = PrepareQC s \<and> hs_same_store s s'"
  by (auto simp: GenProposal_def Let_def bind_Some_iff hs_same_store_def
      split: if_splits dest!: timer_frameE GenNewBlock_frame)

lemma HandlePrepare_frame:
  "HandlePrepare env s msg pk = Some (ret, s') \<Longrightarrow> LockedQC s' = LockedQC s \<and> PrepareQC s' = PrepareQC s \<and> hs_same_store s s'"
  by (auto simp: HandlePrepare_def Let_def bind_Some_iff hs_same_store_def
      split: if_splits option.splits dest!: timer_frameE)

lemma HandlePrepareVote_frame:
  "HandlePrepareVote env s msg = Some (ret, s') \<Longrightarrow> LockedQC s' = LockedQC s \<and> hs_same_store s s'"
  by (auto simp: HandlePrepareVote_def Let_def hs_same_store_def split: if_splits option.splits)

lemma HandlePreCommit_frame:
  "HandlePreCommit env s msg = Some (ret, s') \<Longrightarrow> LockedQC s' = LockedQC s \<and> hs_same_store s s'"
  by (auto simp: HandlePreCommit_def Let_def hs_same_store_def split: if_splits option.splits)

lemma HandleCommitVote_frame:
  "HandleCommitVote env s msg = Some (ret, s') \<Longrightarrow> LockedQC s' = LockedQC s \<and> hs_same_store s s'"
  by (auto simp: HandleCommitVote_def Let_def hs_same_store_def split: if_splits option.splits)

lemma StartViewChange_frame:
  "StartViewChange env s = Some s' \<Longrightarrow> LockedQC s' = LockedQC s \<and> PrepareQC s' = PrepareQC s \<and> hs_same_store s s'"
  by (cases "ForwardChan s"; cases "SendChan s")
    (auto simp: StartViewChange_def Let_def bind_Some_iff hs_same_store_def bhs_SendSerMsg_def start_ViewTimer_def)

text \<open>The lock is taken by a leader that combined enough votes, or by a replica on a verified certificate.\<close>

definition lock_by_leader :: "'a env_scheme \<Rightarrow> BCHotstuff \<Rightarrow> BCHotstuff \<Rightarrow> bool" where
  "lock_by_leader env s s' \<longleftrightarrow> bhs_IsLeader s \<and> CurPhase s = HS_PRE_COMMIT \<and> QType (LockedQC s') = HS_PRE_COMMIT \<and>
     above_thr (NodesNum (hs_View s)) (PreCommitVotes s') \<and>
     qc_Sign (LockedQC s') \<noteq> None \<and> qc_Sign (LockedQC s') = CombineSign env s (PreCommitVotes s')"

definition lock_by_replica :: "'a env_scheme \<Rightarrow> BCHotstuff \<Rightarrow> Msg \<Rightarrow> BCHotstuff \<Rightarrow> bool" where
  "lock_by_replica env s m s' \<longleftrightarrow> \<not> bhs_IsLeader s \<and> MType m = HS_COMMIT \<and> LockedQC s' = Justify m \<and>
     QType (Justify m) = HS_PRE_COMMIT \<and> qc_ViewNumber (Justify m) = ViewNumber (hs_View s) \<and>
     ThresholdSignVerify env (ThresholdSigner s) (QC2SignMsgByte (Justify m)) (qc_Sign (Justify m))"

lemma HandlePreCommitVote_lock:
  "HandlePreCommitVote env s msg = Some (ret, s') \<Longrightarrow>
     hs_same_store s s' \<and> (LockedQC s' = LockedQC s \<or> lock_by_leader env s s')"
  by (auto simp: HandlePreCommitVote_def Let_def hs_same_store_def lock_by_leader_def name_leader
      CombineSign_def split: if_splits option.splits)

lemma HandleCommit_lock:
  "HandleCommit env s msg = Some (ret, s') \<Longrightarrow> MType msg = HS_COMMIT \<Longrightarrow>
     hs_same_store s s' \<and> (LockedQC s' = LockedQC s \<or> lock_by_replica env s msg s')"
  by (auto simp: HandleCommit_def Let_def hs_same_store_def lock_by_replica_def name_leader
      CheckQC_True MatchingQC_def split: if_splits option.splits)

text \<open>A block is stored by deciding, with a verified commit certificate of the current view.\<close>

definition decided_block :: "BCHotstuff \<Rightarrow> Msg \<Rightarrow> Block" where
  "decided_block s m = (let b = CurProposalBlk (BlkStore s)
     in b\<lparr>BlkHdr := (BlkHdr b)\<lparr>bh_Validation := qc_Sign (Justify m)\<rparr>\<rparr>)"

definition store_by_decide :: "'a env_scheme \<Rightarrow> BCHotstuff \<Rightarrow> Msg \<Rightarrow> BCHotstuff \<Rightarrow> bool" where
  "store_by_decide env s m s' \<longleftrightarrow> MType m = HS_DECIDE \<and> CurPhase s = HS_COMMIT \<and>
     m_ViewNumber m = ViewNumber (hs_View s) \<and>
     QType (Justify m) = HS_COMMIT \<and> qc_ViewNumber (Justify m) = ViewNumber (hs_View s) \<and>
     ThresholdSignVerify env (ThresholdSigner s) (QC2SignMsgByte (Justify m)) (qc_Sign (Justify m)) \<and>
     bs_Files (BlkStore s') = (bs_Files (BlkStore s))
       (block_file (bs_Path (BlkStore s) @ ''/'') (bh_Height (BlkHdr (CurProposalBlk (BlkStore s)))) \<mapsto> decided_block s m) \<and>
     bs_Height (BlkStore s') = bs_Height (BlkStore s) + 1 \<and>
     ViewNumber (hs_View s') = ViewNumber (hs_View s) + 1"

lemma HandleDecide_store:
  "HandleDecide env s msg = Some (ret, s') \<Longrightarrow> MType msg = HS_DECIDE \<Longrightarrow>
     LockedQC s' = LockedQC s \<and> (hs_same_store s s' \<or> store_by_decide env s msg s')"
  by (auto simp: HandleDecide_def bhs_NewRound_def Let_def bind_Some_iff hs_same_store_def store_by_decide_def
      CheckQC_True MatchingQC_def StoreBlock_files decided_block_def
      split: if_splits dest!: timer_frameE NextView_SomeD)

lemma RouteBMsg_traced:
  assumes "RouteBMsg env s m pk = Some (ret, s')"
  shows "(LockedQC s' = LockedQC s \<or> lock_by_leader env s s' \<or> lock_by_replica env s m s') \<and>
    (hs_same_store s s' \<or> store_by_decide env s m s')"
  using assms
  by (auto simp: RouteBMsg_def split: hs_StateType.splits
      dest: HandleNewView_frame HandlePrepare_frame HandlePrepareVote_frame HandlePreCommit_frame
        HandleCommitVote_frame HandlePreCommitVote_lock HandleCommit_lock HandleDecide_store)

lemma HandleBMsg_rest:
  assumes "HandleBMsg env s (Some m) pk = Some s'"
  obtains ret s1 where "RouteBMsg env s m pk = Some (ret, s1)" "LockedQC s' = LockedQC s1"
    "BlkStore s' = BlkStore s1" "hs_View s' = hs_View s1" "PreCommitVotes s' = PreCommitVotes s1"
  using assms
  by (auto simp: HandleBMsg_def bind_Some_iff Let_def Execute_def UpdateBasicHotstuff_def
      split: option.splits if_splits dest!: send_frameE)

text \<open>
  C6 A lock is only taken for a certificate: in any step of a node that changes \<open>LockedQC\<close>, the node
  either is a replica that handles a COMMIT message whose pre-commit certificate is of the current
  view and verifies, or is the leader that combined more than \<open>2 f\<close> pre-commit votes.
\<close>

theorem hs_lock_only_certified:
  assumes "hs_step env s e = Some s'" and "LockedQC s' \<noteq> LockedQC s"
  shows "\<exists>now m pk. e = Deliver now (Some m) pk \<and>
    (lock_by_replica env s m s' \<or> lock_by_leader env s s')"
proof (cases e)
  case (Deliver now mo pk)
  with assms obtain m where m: "mo = Some m" "HandleBMsg (env\<lparr>Clock := now\<rparr>) s (Some m) pk = Some s'"
    by (cases mo) (auto simp: HandleBMsg_def)
  from HandleBMsg_rest [OF m(2)] obtain ret s1 where r: "RouteBMsg (env\<lparr>Clock := now\<rparr>) s m pk = Some (ret, s1)"
    "LockedQC s' = LockedQC s1" "PreCommitVotes s' = PreCommitVotes s1" by metis
  from RouteBMsg_traced [OF r(1)] assms(2) r(2,3)
  have "lock_by_leader (env\<lparr>Clock := now\<rparr>) s s' \<or> lock_by_replica (env\<lparr>Clock := now\<rparr>) s m s'"
    by (auto simp: lock_by_leader_def lock_by_replica_def)
  then have "lock_by_leader env s s' \<or> lock_by_replica env s m s'"
    by (simp add: lock_by_leader_def lock_by_replica_def CombineSign_def CombineSig_def ThresholdSignVerify_def)
  with Deliver m(1) show ?thesis by blast
next
  case (Request now h ph reqs)
  with assms show ?thesis
    by (auto simp: bhs_HandleReq_def Let_def bind_Some_iff split: if_splits option.splits
        dest!: GenProposal_frame send_frameE)
next
  case Timeout
  with assms show ?thesis
    by (auto simp: bind_Some_iff split: if_splits dest!: StartViewChange_frame)
next
  case RunSend
  with assms show ?thesis by (auto split: list.splits dest!: send_frameE)
qed

text \<open>
  A block is only stored for a certificate: in any event of a node (a message, a request, a timeout, a
  spawned send) that changes its block files or its height, the node handles a DECIDE message of its
  current view while in the commit phase, whose commit certificate is of this view and verifies;
  exactly one file changes, it now holds the proposal block with that certificate's signature, and
  height and view grow by one. The operations of the node management are added in Ord_Safety.
\<close>

lemma hs_store_only_decided:
  assumes "hs_step env s e = Some s'" and "\<not> hs_same_store s s'"
  shows "\<exists>now m pk. e = Deliver now (Some m) pk \<and> store_by_decide env s m s'"
proof (cases e)
  case (Deliver now mo pk)
  with assms obtain m where m: "mo = Some m" "HandleBMsg (env\<lparr>Clock := now\<rparr>) s (Some m) pk = Some s'"
    by (cases mo) (auto simp: HandleBMsg_def hs_same_store_def)
  from HandleBMsg_rest [OF m(2)] obtain ret s1 where r: "RouteBMsg (env\<lparr>Clock := now\<rparr>) s m pk = Some (ret, s1)"
    "BlkStore s' = BlkStore s1" "hs_View s' = hs_View s1" by metis
  from RouteBMsg_traced [OF r(1)] assms(2) r(2,3)
  have "store_by_decide (env\<lparr>Clock := now\<rparr>) s m s'"
    by (auto simp: hs_same_store_def store_by_decide_def)
  then have "store_by_decide env s m s'"
    by (simp add: store_by_decide_def ThresholdSignVerify_def)
  with Deliver m(1) show ?thesis by blast
next
  case (Request now h ph reqs)
  with assms show ?thesis
    by (auto simp: bhs_HandleReq_def Let_def bind_Some_iff hs_same_store_def split: if_splits option.splits
        dest!: GenProposal_frame send_frameE)
next
  case Timeout
  with assms show ?thesis
    by (auto simp: bind_Some_iff hs_same_store_def split: if_splits dest!: StartViewChange_frame)
next
  case RunSend
  with assms show ?thesis by (auto simp: hs_same_store_def split: list.splits dest!: send_frameE)
qed

section \<open>The good case\<close>

text \<open>What each handler does to a replica for a fitting message, as the node step sees it.\<close>

definition can_sign :: "'a env_scheme \<Rightarrow> BCHotstuff \<Rightarrow> bool" where
  "can_sign env s \<longleftrightarrow> (\<forall>b. TblsSign env (PrivateKey (ThresholdSigner s)) b \<noteq> None)"

definition fits :: "'a env_scheme \<Rightarrow> BCHotstuff \<Rightarrow> Msg \<Rightarrow> hs_StateType \<Rightarrow> hs_StateType \<Rightarrow> bool" where
  "fits env s m ty qty \<longleftrightarrow> MType m = ty \<and> m_ViewNumber m = ViewNumber (hs_View s) \<and>
     CheckQC env s m qty (ViewNumber (hs_View s))"

definition post :: "BCHotstuff \<Rightarrow> Msg \<Rightarrow> BCHotstuff" where
  "post s m = s\<lparr>CurRoundMsg := CurRoundMsg s @ [m],
     SendChan := Some (the (SendChan s) @ [\<lparr>SType = ORDER, SendServer = SendNode m, ReciServer = ReciNode m,
        Sign = None, Payload = m\<rparr>])\<rparr>"

lemma SendSerMsg_post:
  "SendChan s \<noteq> None \<Longrightarrow> bhs_SendSerMsg (s\<lparr>CurRoundMsg := CurRoundMsg s @ [m]\<rparr>) m = Some (post s m)"
  by (auto simp: bhs_SendSerMsg_def post_def Let_def)

lemma post_sel [simp]:
  "SendChan s \<noteq> None \<Longrightarrow> sent (post s m) = sent s @ [m]" "hs_View (post s m) = hs_View s"
  "CurPhase (post s m) = CurPhase s" "ConsId (post s m) = ConsId s" "ThresholdSigner (post s m) = ThresholdSigner s"
  "BlkStore (post s m) = BlkStore s" "LockedQC (post s m) = LockedQC s" "PrepareQC (post s m) = PrepareQC s"
  "ViewTimer (post s m) = ViewTimer s" "CurProposal (post s m) = CurProposal s" "GoSends (post s m) = GoSends s"
  "hs_HsNode (post s m) = hs_HsNode s" "SendChan (post s m) \<noteq> None" "IgnoreCheckQC (post s m) = IgnoreCheckQC s"
  "NewViewMsgs (post s m) = NewViewMsgs s"
  by (auto simp: post_def sent_def)

lemma HandleBMsg_vote:
  assumes "RouteBMsg env s m pk = Some (Some ret, s1)" "MType ret \<noteq> HS_NEW_VIEW" "SendChan s1 \<noteq> None"
  shows "HandleBMsg env s (Some m) pk = Some (post s1 (ret\<lparr>SendNode := bhs_GetNodeName s1\<rparr>))"
  using assms SendSerMsg_post [OF assms(3)] by (simp add: HandleBMsg_def Let_def)

text \<open>The vote of a replica for a phase: who sends it to whom, its view, node and signature.\<close>

definition vote_msg :: "'a env_scheme \<Rightarrow> BCHotstuff \<Rightarrow> hs_StateType \<Rightarrow> HsNode \<Rightarrow> Msg" where
  "vote_msg env s ty node = nil_Msg\<lparr>MType := ty, m_ViewNumber := ViewNumber (hs_View s), m_HsNode := node,
     PartialSig := ThresholdSign env (ThresholdSigner s) (hs_sign_bytes (signed_type ty) (ViewNumber (hs_View s)) node),
     SendNode := bhs_GetNodeName s, ReciNode := LeaderName (hs_View s)\<rparr>"

lemma clock_simps [simp]:
  "can_sign (env\<lparr>Clock := c\<rparr>) u = can_sign env u" "fits (env\<lparr>Clock := c\<rparr>) u m a b = fits env u m a b"
  "vote_msg (env\<lparr>Clock := c\<rparr>) u a nd = vote_msg env u a nd"
  by (simp_all add: can_sign_def fits_def CheckQC_def ThresholdSignVerify_def vote_msg_def ThresholdSign_def)

text \<open>What the handlers of a round leave alone, and the message they log.\<close>

definition round_kept :: "BCHotstuff \<Rightarrow> BCHotstuff \<Rightarrow> bool" where
  "round_kept s t \<longleftrightarrow> ViewChangeSendFlag t = ViewChangeSendFlag s \<and> IgnoreCheckQC t = IgnoreCheckQC s \<and> bs_Path (BlkStore t) = bs_Path (BlkStore s)"

lemma round_kept_refl [simp]: "round_kept s s"
  by (simp add: round_kept_def)

lemma step_prepare:
  assumes "hs_inv s" "CurPhase s = HS_NEW_VIEW" "\<not> bhs_IsLeader s" "can_sign env s"
    and "MType m = HS_PREPARE" "m_ViewNumber m = ViewNumber (hs_View s)"
    and "ViewNumber (hs_View s) = 0 \<or> CheckNewHsNode s m" "slices (Commands (m_Proposal m)) \<noteq> []"
  shows "\<exists>t. HandleBMsg env s (Some m) pk = Some t \<and> hs_inv t \<and> CurPhase t = HS_PREPARE \<and>
    sent t = sent s @ [vote_msg env s HS_PREPARE_VOTE (m_HsNode m)] \<and>
    hs_View t = hs_View s \<and> ConsId t = ConsId s \<and> ThresholdSigner t = ThresholdSigner s \<and>
    BlkStore t = (BlkStore s)\<lparr>CurProposalBlk := m_Block m, CurBlkHash := Block_Hash env (m_Block m)\<rparr> \<and>
    \<not> Proposal_IsEmpty (CurProposal t) \<and> LockedQC t = LockedQC s \<and> round_kept s t"
proof -
  have inv: "timer_ok (ViewTimer s)" "SendChan s \<noteq> None" using assms(1) by (simp_all add: hs_inv_def)
  have nonempty: "\<not> Proposal_IsEmpty (m_Proposal m)" using assms(8) by (auto simp: Proposal_IsEmpty_def)
  define p where "p = (if Proposal_IsEmpty (CurProposal s) then m_Proposal m else CurProposal s)"
  define s1 where "s1 = s\<lparr>CurProposal := p\<rparr>"
  have s1: "(if Proposal_IsEmpty (CurProposal s) then s\<lparr>CurProposal := m_Proposal m\<rparr> else s) = s1"
    by (simp add: s1_def p_def)
  obtain sg where sg: "TblsSign env (PrivateKey (ThresholdSigner s))
      (hs_sign_bytes HS_PREPARE (ViewNumber (hs_View s)) (m_HsNode m)) = Some sg"
    using assms(4) by (auto simp: can_sign_def)
  have chk: "CheckNewHsNode s1 m = CheckNewHsNode s m" by (simp add: CheckNewHsNode_def SafeNode_def s1_def)
  define u where "u = s1\<lparr>CurPhase := HS_PREPARE, BlkStore := (BlkStore s)\<lparr>CurProposalBlk := m_Block m,
      CurBlkHash := Block_Hash env (m_Block m)\<rparr>, ViewTimer := timer_started (timer_stopped (ViewTimer s))\<rparr>"
  define ret where "ret = nil_Msg\<lparr>MType := HS_PREPARE_VOTE, m_ViewNumber := ViewNumber (hs_View s),
      m_HsNode := m_HsNode m, PartialSig := Some sg, ReciNode := LeaderName (hs_View s)\<rparr>"
  have "HandlePrepare env s m pk = Some (Some ret, u)"
    using assms(2,3,5-8) inv sg chk
    by (auto simp: HandlePrepare_def s1 name_leader Let_def VerifyReqs_def ThresholdSign_def Message2Byte_def
        s1_def u_def ret_def bhs_GetLeaderName_def bhs_IsLeader_def bhs_GetNodeName_def)
  then have "HandleBMsg env s (Some m) pk = Some (post u (ret\<lparr>SendNode := bhs_GetNodeName u\<rparr>))"
    using assms(5) inv by (intro HandleBMsg_vote) (simp_all add: RouteBMsg_def ret_def u_def s1_def)
  moreover have "\<not> Proposal_IsEmpty p" using nonempty by (simp add: p_def)
  ultimately show ?thesis
    using assms(1) inv sg
    by (auto simp: u_def s1_def ret_def vote_msg_def ThresholdSign_def bhs_GetNodeName_def round_kept_def hs_inv_def sent_def post_def)
qed

lemma step_precommit:
  assumes "hs_inv s" "CurPhase s = HS_PREPARE \<or> CurPhase s = HS_NEW_VIEW" "\<not> bhs_IsLeader s" "can_sign env s"
    and "fits env s m HS_PRE_COMMIT HS_PREPARE"
  shows "\<exists>t. HandleBMsg env s (Some m) pk = Some t \<and> hs_inv t \<and> CurPhase t = HS_PRE_COMMIT \<and>
    sent t = sent s @ [vote_msg env s HS_PRE_COMMIT_VOTE (qc_HsNode (Justify m))] \<and>
    hs_View t = hs_View s \<and> ConsId t = ConsId s \<and> ThresholdSigner t = ThresholdSigner s \<and>
    BlkStore t = BlkStore s \<and> CurProposal t = CurProposal s \<and> PrepareQC t = Justify m \<and>
    hs_HsNode t = qc_HsNode (Justify m) \<and> round_kept s t"
proof -
  have m: "MType m = HS_PRE_COMMIT" "m_ViewNumber m = ViewNumber (hs_View s)"
    "CheckQC env s m HS_PREPARE (ViewNumber (hs_View s))" "qc_ViewNumber (Justify m) = ViewNumber (hs_View s)"
    using assms(5) by (auto simp: fits_def CheckQC_True MatchingQC_def)
  obtain sg where sg: "TblsSign env (PrivateKey (ThresholdSigner s))
      (hs_sign_bytes HS_PRE_COMMIT (ViewNumber (hs_View s)) (qc_HsNode (Justify m))) = Some sg"
    using assms(4) by (auto simp: can_sign_def)
  define u where "u = s\<lparr>hs_HsNode := qc_HsNode (Justify m), PrepareQC := Justify m, CurPhase := HS_PRE_COMMIT\<rparr>"
  define ret where "ret = nil_Msg\<lparr>MType := HS_PRE_COMMIT_VOTE, m_ViewNumber := ViewNumber (hs_View s),
      m_HsNode := qc_HsNode (Justify m), PartialSig := Some sg, ReciNode := LeaderName (hs_View s)\<rparr>"
  have "HandlePreCommit env s m = Some (Some ret, u)"
    using assms(2,3) m sg
    by (auto simp: HandlePreCommit_def name_leader Let_def ThresholdSign_def Message2Byte_def u_def ret_def
        bhs_GetLeaderName_def bhs_IsLeader_def)
  then have "HandleBMsg env s (Some m) pk = Some (post u (ret\<lparr>SendNode := bhs_GetNodeName u\<rparr>))"
    using m(1) assms(1) by (intro HandleBMsg_vote) (simp_all add: RouteBMsg_def ret_def u_def hs_inv_def)
  then show ?thesis
    using assms(1) sg
    by (auto simp: u_def ret_def vote_msg_def ThresholdSign_def bhs_GetNodeName_def round_kept_def hs_inv_def sent_def post_def)
qed

lemma step_commit:
  assumes "hs_inv s" "CurPhase s = HS_PRE_COMMIT" "\<not> bhs_IsLeader s" "can_sign env s"
    and "fits env s m HS_COMMIT HS_PRE_COMMIT"
  shows "\<exists>t. HandleBMsg env s (Some m) pk = Some t \<and> hs_inv t \<and> CurPhase t = HS_COMMIT \<and>
    sent t = sent s @ [vote_msg env s HS_COMMIT_VOTE (qc_HsNode (Justify m))] \<and>
    hs_View t = hs_View s \<and> ConsId t = ConsId s \<and> ThresholdSigner t = ThresholdSigner s \<and>
    BlkStore t = BlkStore s \<and> CurProposal t = CurProposal s \<and> PrepareQC t = PrepareQC s \<and>
    LockedQC t = Justify m \<and> hs_HsNode t = hs_HsNode s \<and> round_kept s t \<and>
    CurRoundMsg t = CurRoundMsg s @ [vote_msg env s HS_COMMIT_VOTE (qc_HsNode (Justify m))]"
proof -
  have m: "MType m = HS_COMMIT" "m_ViewNumber m = ViewNumber (hs_View s)"
    "CheckQC env s m HS_PRE_COMMIT (ViewNumber (hs_View s))"
    using assms(5) by (auto simp: fits_def)
  obtain sg where sg: "TblsSign env (PrivateKey (ThresholdSigner s))
      (hs_sign_bytes HS_COMMIT (ViewNumber (hs_View s)) (qc_HsNode (Justify m))) = Some sg"
    using assms(4) by (auto simp: can_sign_def)
  define u where "u = s\<lparr>LockedQC := Justify m, CurPhase := HS_COMMIT\<rparr>"
  define ret where "ret = nil_Msg\<lparr>MType := HS_COMMIT_VOTE, m_ViewNumber := ViewNumber (hs_View s),
      m_HsNode := qc_HsNode (Justify m), PartialSig := Some sg, ReciNode := LeaderName (hs_View s)\<rparr>"
  have "HandleCommit env s m = Some (Some ret, u)"
    using assms(2,3) m sg
    by (auto simp: HandleCommit_def name_leader Let_def ThresholdSign_def Message2Byte_def u_def ret_def
        bhs_GetLeaderName_def bhs_IsLeader_def)
  then have "HandleBMsg env s (Some m) pk = Some (post u (ret\<lparr>SendNode := bhs_GetNodeName u\<rparr>))"
    using m(1) assms(1) by (intro HandleBMsg_vote) (simp_all add: RouteBMsg_def ret_def u_def hs_inv_def)
  then show ?thesis
    using assms(1) sg
    by (auto simp: u_def ret_def vote_msg_def ThresholdSign_def bhs_GetNodeName_def round_kept_def hs_inv_def sent_def post_def)
qed

lemma step_decide:
  assumes "hs_inv s" "CurPhase s = HS_COMMIT" "fits env s m HS_DECIDE HS_COMMIT"
  shows "\<exists>t. HandleBMsg env s (Some m) pk = Some t \<and> hs_inv t \<and>
    CurPhase t = (if Proposal_IsEmpty (CurProposal s) then HS_DECIDE else HS_NEW_VIEW) \<and>
    Some (hs_View t) = NextView (hs_View s) \<and> NewViewMsgs t = [] \<and>
    sent t = sent s @ [nil_Msg\<lparr>MType := HS_NEW_VIEW, m_ViewNumber := ViewNumber (hs_View s) + 1,
      SendNode := bhs_GetNodeName s, Justify := PrepareQC s, ReciNode := LeaderName (hs_View t)\<rparr>] \<and>
    BlkStore t = StoreBlock ((BlkStore s)\<lparr>CurProposalBlk := decided_block s m\<rparr>) (decided_block s m) \<and>
    PrepareQC t = PrepareQC s \<and> LockedQC t = LockedQC s \<and> \<not> IsStopped (ViewTimer t) \<and> round_kept s t \<and>
    LastRoundMsg t = CurRoundMsg s \<and> PrepareVotes t = [] \<and> PreCommitVotes t = [] \<and> CommitVotes t = [] \<and> ConsId t = ConsId s \<and>
    ThresholdSigner t = ThresholdSigner s \<and> (\<not> Proposal_IsEmpty (CurProposal s) \<longrightarrow> CurProposal t = nil_Proposal)"
proof -
  have m: "MType m = HS_DECIDE" "m_ViewNumber m = ViewNumber (hs_View s)"
    "CheckQC env s m HS_COMMIT (ViewNumber (hs_View s))"
    using assms(3) by (auto simp: fits_def)
  have inv: "timer_ok (ViewTimer s)" "view_ok (hs_View s)" "SendChan s \<noteq> None" using assms(1) by (simp_all add: hs_inv_def)
  obtain v where v: "NextView (hs_View s) = Some v" "ViewNumber v = ViewNumber (hs_View s) + 1" "view_ok v"
    using NextView_ok [OF inv(2)] NextView_view_ok [OF inv(2)] by fastforce
  define u where "u = s\<lparr>CurPhase := HS_DECIDE, BlkStore := StoreBlock ((BlkStore s)\<lparr>CurProposalBlk := decided_block s m\<rparr>)
      (decided_block s m), hs_View := v, LastRoundMsg := CurRoundMsg s, CurRoundMsg := [], NewViewMsgs := [],
      PrepareVotes := [], PreCommitVotes := [], CommitVotes := [],
      ViewTimer := timer_started (timer_stopped (ViewTimer s))\<rparr>"
  define ret where "ret = nil_Msg\<lparr>MType := HS_NEW_VIEW, m_ViewNumber := ViewNumber (hs_View s) + 1,
      SendNode := bhs_GetNodeName s, Justify := PrepareQC s, ReciNode := LeaderName v\<rparr>"
  have d: "HandleDecide env s m = Some (Some ret, u)"
    using assms(2) m inv v
    by (simp add: HandleDecide_def bhs_NewRound_def Let_def decided_block_def u_def ret_def bhs_GetNodeName_def
        bhs_GetLeaderName_def)
  have name: "ret\<lparr>SendNode := bhs_GetNodeName u\<rparr> = ret" by (simp add: ret_def u_def bhs_GetNodeName_def)
  have post: "bhs_SendSerMsg (u\<lparr>CurRoundMsg := CurRoundMsg u @ [ret]\<rparr>) ret = Some (post u ret)"
    by (rule SendSerMsg_post) (use inv in \<open>simp add: u_def\<close>)
  have "HandleBMsg env s (Some m) pk = Some (if Proposal_IsEmpty (CurProposal s) then post u ret
      else UpdateBasicHotstuff (post u ret\<lparr>GoSends := GoSends u @
      [nil_Msg\<lparr>m_ViewNumber := ViewNumber v - 1, m_HsNode := hs_HsNode s, m_Proposal := nil_Proposal,
        SendNode := bhs_GetNodeName s, ReciNode := ''Client''\<rparr>]\<rparr>))"
    using d m(1) post name
    by (simp add: HandleBMsg_def RouteBMsg_def Let_def Execute_def)
      (simp add: ret_def u_def bhs_GetNodeName_def)
  moreover have "\<not> IsStopped (ViewTimer u)" using inv by (simp add: u_def timer_started_running)
  ultimately show ?thesis
    using assms(1) v inv
    by (auto simp: UpdateBasicHotstuff_def u_def ret_def round_kept_def hs_inv_def sent_def post_def bhs_GetNodeName_def)
qed

text \<open>
  C17 The good case: a replica at the start of a view, given in order a proposal that extends its
  certificate safely and the three verified certificates of the view, votes for prepare, pre-commit
  and commit with its partial signatures, locks on the pre-commit certificate, stores the proposed
  block with the commit signature, and goes to the next view, telling its leader.
\<close>

theorem hs_replica_round:
  assumes "hs_inv s" "CurPhase s = HS_NEW_VIEW" "\<not> bhs_IsLeader s" "can_sign env s"
    and "MType mp = HS_PREPARE" "m_ViewNumber mp = ViewNumber (hs_View s)"
    and "ViewNumber (hs_View s) = 0 \<or> CheckNewHsNode s mp" "slices (Commands (m_Proposal mp)) \<noteq> []"
    and "fits env s mc HS_PRE_COMMIT HS_PREPARE" "fits env s mm HS_COMMIT HS_PRE_COMMIT"
    and "fits env s md HS_DECIDE HS_COMMIT"
  shows "\<exists>t. run (hs_step env) s [Deliver t1 (Some mp) pk, Deliver t2 (Some mc) pk, Deliver t3 (Some mm) pk,
        Deliver t4 (Some md) pk] = Some t \<and>
    sent t = sent s @ [vote_msg env s HS_PREPARE_VOTE (m_HsNode mp),
      vote_msg env s HS_PRE_COMMIT_VOTE (qc_HsNode (Justify mc)),
      vote_msg env s HS_COMMIT_VOTE (qc_HsNode (Justify mm)),
      nil_Msg\<lparr>MType := HS_NEW_VIEW, m_ViewNumber := ViewNumber (hs_View s) + 1,
        SendNode := bhs_GetNodeName s, Justify := Justify mc, ReciNode := LeaderName (hs_View t)\<rparr>] \<and>
    CurPhase t = HS_NEW_VIEW \<and> Some (hs_View t) = NextView (hs_View s) \<and>
    PrepareQC t = Justify mc \<and> LockedQC t = Justify mm \<and>
    bs_Height (BlkStore t) = bs_Height (BlkStore s) + 1 \<and> bs_PreBlkHash (BlkStore t) = Block_Hash env (m_Block mp) \<and>
    store_get (BlkStore t) (bh_Height (BlkHdr (m_Block mp))) =
      Some ((m_Block mp)\<lparr>BlkHdr := (BlkHdr (m_Block mp))\<lparr>bh_Validation := qc_Sign (Justify md)\<rparr>\<rparr>)"
proof -
  obtain s1 where s1: "HandleBMsg (env\<lparr>Clock := t1\<rparr>) s (Some mp) pk = Some s1" "hs_inv s1" "CurPhase s1 = HS_PREPARE"
    "sent s1 = sent s @ [vote_msg env s HS_PREPARE_VOTE (m_HsNode mp)]" "hs_View s1 = hs_View s"
    "ConsId s1 = ConsId s" "ThresholdSigner s1 = ThresholdSigner s" "\<not> Proposal_IsEmpty (CurProposal s1)"
    "BlkStore s1 = (BlkStore s)\<lparr>CurProposalBlk := m_Block mp, CurBlkHash := Block_Hash env (m_Block mp)\<rparr>"
    using step_prepare [of s "env\<lparr>Clock := t1\<rparr>" mp pk] assms(1-8) by auto
  have carry: "bhs_IsLeader u = bhs_IsLeader s" "can_sign env u = can_sign env s" "fits env u m a b = fits env s m a b"
    "vote_msg env u a nd = vote_msg env s a nd" "bhs_GetNodeName u = bhs_GetNodeName s"
    if "hs_View u = hs_View s" "ConsId u = ConsId s" "ThresholdSigner u = ThresholdSigner s" for u m a b nd
    using that by (simp_all add: IsLeader_iff can_sign_def fits_def CheckQC_def vote_msg_def bhs_GetNodeName_def)
  note c1 = carry [OF s1(5-7)]
  obtain s2 where s2: "HandleBMsg (env\<lparr>Clock := t2\<rparr>) s1 (Some mc) pk = Some s2" "hs_inv s2" "CurPhase s2 = HS_PRE_COMMIT"
    "sent s2 = sent s1 @ [vote_msg env s HS_PRE_COMMIT_VOTE (qc_HsNode (Justify mc))]" "hs_View s2 = hs_View s"
    "ConsId s2 = ConsId s" "ThresholdSigner s2 = ThresholdSigner s" "BlkStore s2 = BlkStore s1"
    "CurProposal s2 = CurProposal s1" "PrepareQC s2 = Justify mc"
    using step_precommit [of s1 "env\<lparr>Clock := t2\<rparr>" mc pk] assms(3,4,9) s1 by (auto simp: c1)
  note c2 = carry [OF s2(5-7)]
  obtain s3 where s3: "HandleBMsg (env\<lparr>Clock := t3\<rparr>) s2 (Some mm) pk = Some s3" "hs_inv s3" "CurPhase s3 = HS_COMMIT"
    "sent s3 = sent s2 @ [vote_msg env s HS_COMMIT_VOTE (qc_HsNode (Justify mm))]" "hs_View s3 = hs_View s"
    "ConsId s3 = ConsId s" "ThresholdSigner s3 = ThresholdSigner s" "BlkStore s3 = BlkStore s1"
    "CurProposal s3 = CurProposal s1" "PrepareQC s3 = Justify mc" "LockedQC s3 = Justify mm"
    using step_commit [of s2 "env\<lparr>Clock := t3\<rparr>" mm pk] assms(3,4,10) s2 by (auto simp: c2)
  note c3 = carry [OF s3(5-7)]
  obtain t where t: "HandleBMsg (env\<lparr>Clock := t4\<rparr>) s3 (Some md) pk = Some t" "CurPhase t = HS_NEW_VIEW"
    "Some (hs_View t) = NextView (hs_View s)"
    "sent t = sent s3 @ [nil_Msg\<lparr>MType := HS_NEW_VIEW, m_ViewNumber := ViewNumber (hs_View s) + 1,
      SendNode := bhs_GetNodeName s, Justify := Justify mc, ReciNode := LeaderName (hs_View t)\<rparr>]"
    "BlkStore t = StoreBlock ((BlkStore s3)\<lparr>CurProposalBlk := decided_block s3 md\<rparr>) (decided_block s3 md)"
    "PrepareQC t = Justify mc" "LockedQC t = Justify mm"
    using step_decide [of s3 "env\<lparr>Clock := t4\<rparr>" md pk] assms(11) s1(8) s3 by (auto simp: c3)
  have "decided_block s3 md = (m_Block mp)\<lparr>BlkHdr := (BlkHdr (m_Block mp))\<lparr>bh_Validation := qc_Sign (Justify md)\<rparr>\<rparr>"
    by (simp add: decided_block_def s3(8) s1(9) Let_def)
  with s1 s2 s3 t show ?thesis
    by (auto simp: store_get_def ReadBlock_def StoreBlock_files)
qed

section \<open>The race of the timer\<close>


section \<open>Examples\<close>

definition ok_env :: env where
  "ok_env = example_env\<lparr>BdnVerify := \<lambda>pub m sig. True\<rparr>"

definition ok_state :: BCHotstuff where
  "ok_state = hs_start ok_env 1 4 ''d'' \<lparr>PrivateKey = (1, []), PublicKey = [], SignNum = 4, Threshold = 3\<rparr>"

definition ok_prepare :: "bytes \<Rightarrow> Msg" where
  "ok_prepare h = nil_Msg\<lparr>MType := HS_PREPARE, m_HsNode := \<lparr>CurHash = h, ParentHash = None\<rparr>,
     m_Proposal := nil_Proposal\<lparr>Commands := Some [[1]]\<rparr>\<rparr>"

definition ok_cert :: "hs_StateType \<Rightarrow> hs_StateType \<Rightarrow> Msg" where
  "ok_cert ty qty = nil_Msg\<lparr>MType := ty, Justify := \<lparr>QType = qty, qc_ViewNumber = 0,
     qc_HsNode = \<lparr>CurHash = Some [9], ParentHash = None\<rparr>, qc_Sign = Some [2]\<rparr>\<rparr>"

lemma ok_state_facts [simp]:
  "hs_inv ok_state" "CurPhase ok_state = HS_NEW_VIEW" "\<not> bhs_IsLeader ok_state"
  "hs_View ok_state = \<lparr>ViewNumber = 0, Leader = 0, NodesNum = 4\<rparr>"
  "qc_ViewNumber (LockedQC ok_state) = -1" "bs_Height (BlkStore ok_state) = 0"
  "Proposal_IsEmpty (CurProposal ok_state)"
proof -
  show "hs_inv ok_state" unfolding ok_state_def by (rule hs_start_inv) simp
  show "hs_View ok_state = \<lparr>ViewNumber = 0, Leader = 0, NodesNum = 4\<rparr>" by (simp add: ok_state_def)
  show "\<not> bhs_IsLeader ok_state" by (simp add: ok_state_def IsLeader_iff)
  then have "\<not> bhs_IsLeader (NewBCHotstuff ok_env 5000 1 4 ''d'' (Some []) \<lparr>PrivateKey = (1, []),
      PublicKey = [], SignNum = 4, Threshold = 3\<rparr>)"
    by (simp add: IsLeader_iff NewBCHotstuff_def)
  then show "CurPhase ok_state = HS_NEW_VIEW" "qc_ViewNumber (LockedQC ok_state) = -1"
    "bs_Height (BlkStore ok_state) = 0" "Proposal_IsEmpty (CurProposal ok_state)"
    by (simp_all add: ok_state_def hs_start_def Let_def) (simp_all add: NewBCHotstuff_def)
qed

lemma ok_state_sent [simp]: "sent ok_state = []"
  by (simp add: ok_state_def)

lemma vote_key_vote_msg [simp]:
  "vote_key (vote_msg env s ty node) = map_option (\<lambda>r. (ViewNumber (hs_View s), r)) (vote_rank ty)"
  by (simp add: vote_key_def vote_msg_def)

lemma ok_facts [simp]:
  "can_sign ok_env s" "MType (ok_prepare h) = HS_PREPARE" "m_ViewNumber (ok_prepare h) = 0"
  "slices (Commands (m_Proposal (ok_prepare h))) \<noteq> []"
  "ViewNumber (hs_View s) = 0 \<Longrightarrow> fits ok_env s (ok_cert ty qty) ty qty"
  by (simp_all add: can_sign_def ok_env_def example_env_def ok_prepare_def fits_def CheckQC_True MatchingQC_def
      ThresholdSignVerify_def ok_cert_def)

theorem hs_replica_round_witness:
  "\<exists>t. run (hs_step ok_env) ok_state [Deliver 1 (Some (ok_prepare None)) None,
        Deliver 2 (Some (ok_cert HS_PRE_COMMIT HS_PREPARE)) None, Deliver 3 (Some (ok_cert HS_COMMIT HS_PRE_COMMIT)) None,
        Deliver 4 (Some (ok_cert HS_DECIDE HS_COMMIT)) None] = Some t \<and> bs_Height (BlkStore t) = 1"
  using hs_replica_round [of ok_state ok_env "ok_prepare None" "ok_cert HS_PRE_COMMIT HS_PREPARE"
      "ok_cert HS_COMMIT HS_PRE_COMMIT" "ok_cert HS_DECIDE HS_COMMIT" 1 None 2 3 4]
  by (auto simp del: run.simps)


theorem hs_lock_only_certified_witness:
  "\<exists>now m pk s'. hs_step ok_env (ok_state\<lparr>CurPhase := HS_PRE_COMMIT\<rparr>) (Deliver now (Some m) pk) = Some s' \<and>
     (lock_by_replica ok_env (ok_state\<lparr>CurPhase := HS_PRE_COMMIT\<rparr>) m s' \<or>
      lock_by_leader ok_env (ok_state\<lparr>CurPhase := HS_PRE_COMMIT\<rparr>) s')"
proof -
  let ?s = "ok_state\<lparr>CurPhase := HS_PRE_COMMIT\<rparr>" and ?m = "ok_cert HS_COMMIT HS_PRE_COMMIT"
  have "hs_inv ?s" using ok_state_facts(1) by (simp add: hs_inv_def)
  then obtain t where t: "hs_step ok_env ?s (Deliver 0 (Some ?m) None) = Some t" "LockedQC t = Justify ?m"
    using step_commit [of ?s "ok_env\<lparr>Clock := 0\<rparr>" ?m None]
    using ok_state_facts(3) by (auto simp: IsLeader_iff)
  have "qc_ViewNumber (LockedQC t) = 0" by (simp add: t(2) ok_cert_def)
  then have "LockedQC t \<noteq> LockedQC ?s" using ok_state_facts(5) by auto
  from hs_lock_only_certified [OF t(1) this] t(1) show ?thesis by blast
qed

section \<open>Where the code falls short\<close>

text \<open>
  C29 The stored block is not the certified one: a replica that missed the proposal of a view still
  accepts the three certificates of it, for whatever node, and then stores the block it happens to
  have from before, with the certificate's signature and at that block's own height; nothing
  compares the block with the certified hash. Having no proposal, it also stays in the decide phase.
\<close>

theorem hs_stores_unrelated_block:
  assumes "hs_inv s" "CurPhase s = HS_NEW_VIEW" "\<not> bhs_IsLeader s" "can_sign env s"
    and "fits env s mc HS_PRE_COMMIT HS_PREPARE" "fits env s mm HS_COMMIT HS_PRE_COMMIT"
    and "fits env s md HS_DECIDE HS_COMMIT" "Proposal_IsEmpty (CurProposal s)"
  shows "\<exists>t. run (hs_step env) s [Deliver t2 (Some mc) pk, Deliver t3 (Some mm) pk, Deliver t4 (Some md) pk] = Some t \<and>
    store_get (BlkStore t) (bh_Height (BlkHdr (CurProposalBlk (BlkStore s)))) = Some (decided_block s md) \<and>
    bs_Height (BlkStore t) = bs_Height (BlkStore s) + 1 \<and> CurPhase t = HS_DECIDE"
proof -
  have carry: "bhs_IsLeader u = bhs_IsLeader s" "can_sign env u = can_sign env s" "fits env u m a b = fits env s m a b"
    if "hs_View u = hs_View s" "ConsId u = ConsId s" "ThresholdSigner u = ThresholdSigner s" for u m a b
    using that by (simp_all add: IsLeader_iff can_sign_def fits_def CheckQC_def)
  obtain s2 where s2: "HandleBMsg (env\<lparr>Clock := t2\<rparr>) s (Some mc) pk = Some s2" "hs_inv s2" "CurPhase s2 = HS_PRE_COMMIT"
    "hs_View s2 = hs_View s" "ConsId s2 = ConsId s" "ThresholdSigner s2 = ThresholdSigner s"
    "BlkStore s2 = BlkStore s" "CurProposal s2 = CurProposal s"
    using step_precommit [of s "env\<lparr>Clock := t2\<rparr>" mc pk] assms(1-5) by auto
  note c2 = carry [OF s2(4-6)]
  obtain s3 where s3: "HandleBMsg (env\<lparr>Clock := t3\<rparr>) s2 (Some mm) pk = Some s3" "hs_inv s3" "CurPhase s3 = HS_COMMIT"
    "hs_View s3 = hs_View s" "ConsId s3 = ConsId s" "ThresholdSigner s3 = ThresholdSigner s"
    "BlkStore s3 = BlkStore s" "CurProposal s3 = CurProposal s"
    using step_commit [of s2 "env\<lparr>Clock := t3\<rparr>" mm pk] assms(3,4,6) s2 by (auto simp: c2)
  note c3 = carry [OF s3(4-6)]
  obtain t where t: "HandleBMsg (env\<lparr>Clock := t4\<rparr>) s3 (Some md) pk = Some t" "CurPhase t = HS_DECIDE"
    "BlkStore t = StoreBlock ((BlkStore s3)\<lparr>CurProposalBlk := decided_block s3 md\<rparr>) (decided_block s3 md)"
    using step_decide [of s3 "env\<lparr>Clock := t4\<rparr>" md pk] assms(7,8) s3 by (auto simp: c3)
  have "decided_block s3 md = decided_block s md"
    "bh_Height (BlkHdr (decided_block s md)) = bh_Height (BlkHdr (CurProposalBlk (BlkStore s)))"
    by (simp_all add: decided_block_def s3(7) Let_def)
  with s2(1) s3(1,7) t show ?thesis
    by (auto simp: store_get_def ReadBlock_def StoreBlock_files)
qed

theorem hs_stores_unrelated_block_witness:
  "\<exists>t. run (hs_step ok_env) ok_state [Deliver 2 (Some (ok_cert HS_PRE_COMMIT HS_PREPARE)) None,
        Deliver 3 (Some (ok_cert HS_COMMIT HS_PRE_COMMIT)) None, Deliver 4 (Some (ok_cert HS_DECIDE HS_COMMIT)) None] = Some t \<and>
     bs_Height (BlkStore t) = 1 \<and> CurPhase t = HS_DECIDE"
  using hs_stores_unrelated_block [of ok_state ok_env "ok_cert HS_PRE_COMMIT HS_PREPARE"
      "ok_cert HS_COMMIT HS_PRE_COMMIT" "ok_cert HS_DECIDE HS_COMMIT" 2 None 3 4]
  by (auto simp del: run.simps)

text \<open>
  Clearing a round forgets the vote: a replica that has voted for a proposal and then runs
  \<open>ClearCurrentRound\<close>, as every node does when another one joins or leaves, is at the start of the
  same view again and votes for a second proposal of it, so the one vote per view and phase that
  agreement rests on is lost.
\<close>

theorem hs_clear_votes_again:
  assumes "hs_inv s" "CurPhase s = HS_NEW_VIEW" "\<not> bhs_IsLeader s" "can_sign env s" "ViewNumber (hs_View s) = 0"
    and "MType m1 = HS_PREPARE" "m_ViewNumber m1 = 0" "slices (Commands (m_Proposal m1)) \<noteq> []"
    and "MType m2 = HS_PREPARE" "m_ViewNumber m2 = 0" "slices (Commands (m_Proposal m2)) \<noteq> []"
  shows "\<exists>s1 t. HandleBMsg env s (Some m1) pk = Some s1 \<and>
    HandleBMsg env (bhs_ClearCurrentRound env s1) (Some m2) pk = Some t \<and>
    sent t = sent s @ [vote_msg env s HS_PREPARE_VOTE (m_HsNode m1), vote_msg env s HS_PREPARE_VOTE (m_HsNode m2)]"
proof -
  obtain s1 where s1: "HandleBMsg env s (Some m1) pk = Some s1" "hs_inv s1" "hs_View s1 = hs_View s"
    "ConsId s1 = ConsId s" "ThresholdSigner s1 = ThresholdSigner s"
    "sent s1 = sent s @ [vote_msg env s HS_PREPARE_VOTE (m_HsNode m1)]"
    using step_prepare [of s env m1 pk] assms(1-8) by auto
  let ?c = "bhs_ClearCurrentRound env s1"
  have c: "CurPhase ?c = HS_NEW_VIEW" "hs_View ?c = hs_View s" "ConsId ?c = ConsId s"
    "ThresholdSigner ?c = ThresholdSigner s" "sent ?c = sent s1" "hs_inv ?c"
    using s1 by (auto simp: bhs_ClearCurrentRound_def Let_def hs_inv_def sent_def)
  then have c': "\<not> bhs_IsLeader ?c" "can_sign env ?c" "vote_msg env ?c = vote_msg env s"
    using assms(3,4) by (auto simp: IsLeader_iff can_sign_def vote_msg_def bhs_GetNodeName_def fun_eq_iff)
  obtain t where "HandleBMsg env ?c (Some m2) pk = Some t"
    "sent t = sent ?c @ [vote_msg env ?c HS_PREPARE_VOTE (m_HsNode m2)]"
    using step_prepare [of ?c env m2 pk] assms(5,9-11) c c'(1,2) by auto
  with s1 c c'(3) show ?thesis by auto
qed

theorem hs_clear_votes_again_witness:
  "\<exists>s1 t. HandleBMsg ok_env ok_state (Some (ok_prepare (Some [1]))) None = Some s1 \<and>
     HandleBMsg ok_env (bhs_ClearCurrentRound ok_env s1) (Some (ok_prepare (Some [2]))) None = Some t \<and>
     map vote_key (sent t) = [Some (0, 1), Some (0, 1)]"
  using hs_clear_votes_again [of ok_state ok_env "ok_prepare (Some [1])" "ok_prepare (Some [2])" None]
  by auto

text \<open>
  A certificate is valid again 256 views later: only the low byte of the view is signed, so the
  certificate of a view, relabelled, passes \<open>CheckQC\<close> in the view 256 later with its old signature.
\<close>

theorem hs_qc_replay:
  "CheckQC env s (m\<lparr>Justify := (Justify m)\<lparr>qc_ViewNumber := qc_ViewNumber (Justify m) + 256\<rparr>\<rparr>) code (v + 256)
   = CheckQC env s m code v"
  by (simp add: CheckQC_True MatchingQC_def QC2SignMsgByte_def hs_form.collides)

end
