(* ===== verification/Hs_Network.thy ===== *)
theory Hs_Network
  imports Hs_Safety
begin

text \<open>
  Basic HotStuff replicas connected to each other: the leader's side of a round, the network in which
  every message was sent by somebody, and rounds in which all replicas store the same blocks.
\<close>

section \<open>The leader of a round\<close>

text \<open>The message with which the leader announces a certificate.\<close>

definition cert_msg :: "BCHotstuff \<Rightarrow> hs_StateType \<Rightarrow> QC \<Rightarrow> Msg" where
  "cert_msg s ty q = nil_Msg\<lparr>MType := ty, m_ViewNumber := ViewNumber (hs_View s), Justify := q,
     SendNode := bhs_GetNodeName s, ReciNode := ''Broadcast''\<rparr>"

text \<open>The votes \<open>ms\<close> combine on the node of the leader into the certificate \<open>q\<close>.\<close>

definition combines :: "'a env_scheme \<Rightarrow> BCHotstuff \<Rightarrow> hs_StateType \<Rightarrow> Msg list \<Rightarrow> QC \<Rightarrow> bool" where
  "combines env s ty ms q \<longleftrightarrow> above_thr (NodesNum (hs_View s)) ms \<and> m_HsNode (last ms) = hs_HsNode s \<and>
     (\<exists>sig. CombineSig env (ThresholdSigner s) (hs_sign_bytes ty (ViewNumber (hs_View s)) (hs_HsNode s)) (map PartialSig ms) = Some sig \<and>
        q = \<lparr>QType = ty, qc_ViewNumber = ViewNumber (hs_View s), qc_HsNode = hs_HsNode s, qc_Sign = Some sig\<rparr>)"

lemma combines_clock [simp]: "combines (env\<lparr>Clock := c\<rparr>) s ty ms q = combines env s ty ms q"
  by (simp add: combines_def CombineSig_def)

lemma CombineSign_sig:
  "CombineSign env s ms = CombineSig env (ThresholdSigner s) (hs_sign_bytes (CurPhase s) (ViewNumber (hs_View s)) (hs_HsNode s)) (map PartialSig ms)"
  by (simp add: CombineSign_def Message2Byte_def Let_def split: option.split)

lemma leader_name: "bhs_IsLeader s \<Longrightarrow> bhs_GetLeaderName s = bhs_GetNodeName s"
  using name_leader [of s] by simp

lemma vote_prepare:
  assumes "bhs_IsLeader s" "CurPhase s = HS_PREPARE" "MType m = HS_PREPARE_VOTE" "m_ViewNumber m = ViewNumber (hs_View s)" "SendChan s \<noteq> None"
  shows "\<not> above_thr (NodesNum (hs_View s)) (PrepareVotes s @ [m]) \<Longrightarrow>
      HandleBMsg env s (Some m) pk = Some (s\<lparr>PrepareVotes := PrepareVotes s @ [m]\<rparr>)"
    and "combines env s HS_PREPARE (PrepareVotes s @ [m]) q \<Longrightarrow> HandleBMsg env s (Some m) pk =
      Some (post (s\<lparr>PrepareVotes := PrepareVotes s @ [m], PrepareQC := q, CurPhase := HS_PRE_COMMIT\<rparr>) (cert_msg s HS_PRE_COMMIT q))"
proof -
  let ?s = "s\<lparr>PrepareVotes := PrepareVotes s @ [m]\<rparr>"
  note defs = HandleBMsg_def RouteBMsg_def HandlePrepareVote_def MatchingMsg_def leader_name [OF assms(1)]
  show "HandleBMsg env s (Some m) pk = Some ?s" if "\<not> above_thr (NodesNum (hs_View s)) (PrepareVotes s @ [m])"
    using assms(2-4) that by (simp add: defs)
  assume "combines env s HS_PREPARE (PrepareVotes s @ [m]) q"
  then have "HandlePrepareVote env s m = Some (Some ((cert_msg s HS_PRE_COMMIT q)\<lparr>SendNode := []\<rparr>), ?s\<lparr>PrepareQC := q, CurPhase := HS_PRE_COMMIT\<rparr>)"
    using assms(2-4) by (auto simp: defs combines_def CombineSign_sig Let_def nil_QC_def cert_msg_def nil_Msg_def split del: if_split)
  from HandleBMsg_vote [of env s m pk, unfolded RouteBMsg_def assms(3), simplified, OF this] assms(5)
  show "HandleBMsg env s (Some m) pk = Some (post (?s\<lparr>PrepareQC := q, CurPhase := HS_PRE_COMMIT\<rparr>) (cert_msg s HS_PRE_COMMIT q))"
    by (simp add: cert_msg_def nil_Msg_def bhs_GetNodeName_def)
qed

lemma vote_precommit:
  assumes "bhs_IsLeader s" "CurPhase s = HS_PRE_COMMIT" "MType m = HS_PRE_COMMIT_VOTE" "m_ViewNumber m = ViewNumber (hs_View s)" "SendChan s \<noteq> None"
  shows "\<not> above_thr (NodesNum (hs_View s)) (PreCommitVotes s @ [m]) \<Longrightarrow>
      HandleBMsg env s (Some m) pk = Some (s\<lparr>PreCommitVotes := PreCommitVotes s @ [m]\<rparr>)"
    and "combines env s HS_PRE_COMMIT (PreCommitVotes s @ [m]) q \<Longrightarrow> HandleBMsg env s (Some m) pk =
      Some (post (s\<lparr>PreCommitVotes := PreCommitVotes s @ [m], LockedQC := q, CurPhase := HS_COMMIT\<rparr>) (cert_msg s HS_COMMIT q))"
proof -
  let ?s = "s\<lparr>PreCommitVotes := PreCommitVotes s @ [m]\<rparr>"
  note defs = HandleBMsg_def RouteBMsg_def HandlePreCommitVote_def MatchingMsg_def leader_name [OF assms(1)]
  show "HandleBMsg env s (Some m) pk = Some ?s" if "\<not> above_thr (NodesNum (hs_View s)) (PreCommitVotes s @ [m])"
    using assms(2-4) that by (simp add: defs)
  assume "combines env s HS_PRE_COMMIT (PreCommitVotes s @ [m]) q"
  then have "HandlePreCommitVote env s m = Some (Some ((cert_msg s HS_COMMIT q)\<lparr>SendNode := []\<rparr>), ?s\<lparr>LockedQC := q, CurPhase := HS_COMMIT\<rparr>)"
    using assms(2-4) by (auto simp: defs combines_def CombineSign_sig Let_def nil_QC_def cert_msg_def nil_Msg_def split del: if_split)
  from HandleBMsg_vote [of env s m pk, unfolded RouteBMsg_def assms(3), simplified, OF this] assms(5)
  show "HandleBMsg env s (Some m) pk = Some (post (?s\<lparr>LockedQC := q, CurPhase := HS_COMMIT\<rparr>) (cert_msg s HS_COMMIT q))"
    by (simp add: cert_msg_def nil_Msg_def bhs_GetNodeName_def)
qed

lemma vote_commit:
  assumes "bhs_IsLeader s" "CurPhase s = HS_COMMIT" "MType m = HS_COMMIT_VOTE" "m_ViewNumber m = ViewNumber (hs_View s)" "SendChan s \<noteq> None"
  shows "\<not> above_thr (NodesNum (hs_View s)) (CommitVotes s @ [m]) \<Longrightarrow>
      HandleBMsg env s (Some m) pk = Some (s\<lparr>CommitVotes := CommitVotes s @ [m]\<rparr>)"
    and "combines env s HS_COMMIT (CommitVotes s @ [m]) q \<Longrightarrow> HandleBMsg env s (Some m) pk =
      Some (post (s\<lparr>CommitVotes := CommitVotes s @ [m]\<rparr>) (cert_msg s HS_DECIDE q))"
proof -
  let ?s = "s\<lparr>CommitVotes := CommitVotes s @ [m]\<rparr>"
  note defs = HandleBMsg_def RouteBMsg_def HandleCommitVote_def MatchingMsg_def leader_name [OF assms(1)]
  show "HandleBMsg env s (Some m) pk = Some ?s" if "\<not> above_thr (NodesNum (hs_View s)) (CommitVotes s @ [m])"
    using assms(2-4) that by (simp add: defs)
  assume "combines env s HS_COMMIT (CommitVotes s @ [m]) q"
  then have "HandleCommitVote env s m = Some (Some ((cert_msg s HS_DECIDE q)\<lparr>SendNode := []\<rparr>), ?s)"
    using assms(2-4) by (auto simp: defs combines_def CombineSign_sig Let_def nil_QC_def cert_msg_def nil_Msg_def split del: if_split)
  from HandleBMsg_vote [of env s m pk, unfolded RouteBMsg_def assms(3), simplified, OF this] assms(5)
  show "HandleBMsg env s (Some m) pk = Some (post ?s (cert_msg s HS_DECIDE q))"
    by (simp add: cert_msg_def nil_Msg_def bhs_GetNodeName_def)
qed

text \<open>A batch of requests at a leader that waits for one.\<close>

definition proposed :: "BCHotstuff \<Rightarrow> QC \<Rightarrow> BCRequest list \<Rightarrow> 'a env_scheme \<Rightarrow> Msg \<Rightarrow> BCHotstuff \<Rightarrow> bool" where
  "proposed s J reqs env m t \<longleftrightarrow> MType m = HS_PREPARE \<and> m_ViewNumber m = ViewNumber (hs_View s) \<and> Justify m = J \<and>
     m_HsNode m = \<lparr>CurHash = Block_Hash env (m_Block m), ParentHash = CurHash (qc_HsNode J)\<rparr> \<and> hs_HsNode t = m_HsNode m \<and>
     slices (Commands (m_Proposal m)) = map rq_Cmd reqs \<and> ReciNode m = ''Broadcast'' \<and>
     BlkStore t = (BlkStore s)\<lparr>CurProposalBlk := m_Block m, CurBlkHash := Block_Hash env (m_Block m)\<rparr> \<and>
     bh_Height (BlkHdr (m_Block m)) = bs_Height (BlkStore s) \<and> bh_PreBlkHash (BlkHdr (m_Block m)) = bs_PreBlkHash (BlkStore s) \<and>
     bd_Trans (BlkData (m_Block m)) = map (bytes2str \<circ> take 128 \<circ> rq_Cmd) reqs"

lemma request_cmds:
  "Commands (foldl (\<lambda>p r. p\<lparr>Commands := Some (slices (Commands p) @ [rq_Cmd r]), Signs := Some (slices (Signs p) @ [rq_Sign r])\<rparr>) p reqs) =
     (if reqs = [] then Commands p else Some (slices (Commands p) @ map rq_Cmd reqs))"
  by (induction reqs arbitrary: p) auto

lemma GenNewBlock_now:
  "\<exists>blk. GenNewBlock env bs v cmds [] = Some (bs\<lparr>CurProposalBlk := blk, CurBlkHash := Block_Hash env blk\<rparr>) \<and>
     bh_Height (BlkHdr blk) = bs_Height bs \<and> bh_PreBlkHash (BlkHdr blk) = bs_PreBlkHash bs \<and> bd_Trans (BlkData blk) = cmds"
  by (simp add: GenNewBlock_def HashFromByteSlices_tree StringSlice2TwoDimByteSlice_def Let_def) force

lemma Block_Hash_clock [simp]: "Block_Hash (env\<lparr>Clock := c\<rparr>) = Block_Hash env"
  by (rule ext) (simp add: Block_Hash_def)

lemma leader_request:
  assumes "hs_inv s" "CurPhase s = HS_WAITING" "reqs \<noteq> []"
    and ready: "above_thr (NodesNum (hs_View s)) (NewViewMsgs s) \<or> IgnoreCheckQC s" "NewViewMsgs s \<noteq> []" "\<forall>m \<in> set (NewViewMsgs s). Justify m = J"
  shows "\<exists>t m. hs_step env s (Request now h ph reqs) = Some t \<and> hs_inv t \<and> CurPhase t = HS_PREPARE \<and> sent t = sent s @ [m] \<and>
    proposed s J reqs env m t \<and> hs_View t = hs_View s \<and> ConsId t = ConsId s \<and> ThresholdSigner t = ThresholdSigner s \<and>
    PrepareVotes t = PrepareVotes s \<and> PreCommitVotes t = PreCommitVotes s \<and> CommitVotes t = CommitVotes s \<and>
    \<not> Proposal_IsEmpty (CurProposal t) \<and> ViewChangeSendFlag t = ViewChangeSendFlag s"
proof -
  have inv: "timer_ok (ViewTimer s)" "SendChan s \<noteq> None" using assms(1) by (simp_all add: hs_inv_def)
  obtain k where k: "GetHighQCIndex (NewViewMsgs s) = Some k" "k < length (NewViewMsgs s)"
    using GetHighQCIndex_first_max [OF ready(2)] by (auto simp: first_max_def)
  have J: "Justify (NewViewMsgs s ! k) = J" using ready(3) k(2) by simp
  let ?env = "env\<lparr>Clock := now\<rparr>"
  define p0 where "p0 = foldl (\<lambda>p r. p\<lparr>Commands := Some (slices (Commands p) @ [rq_Cmd r]), Signs := Some (slices (Signs p) @ [rq_Sign r])\<rparr>)
    (nil_Proposal\<lparr>pr_Height := h, pr_PreBlkHash := ph, Commands := Some [], Signs := Some []\<rparr>) reqs"
  define p where "p = p0\<lparr>pr_RootHash := Some (HashFromByteSlicesIterative (SM3 env) (slices (Commands p0)))\<rparr>"
  have cmds: "slices (Commands p) = map rq_Cmd reqs" "\<not> Proposal_IsEmpty p"
    by (simp_all add: p_def p0_def request_cmds Proposal_IsEmpty_def)
  let ?cmds = "map (bytes2str \<circ> take 128 \<circ> rq_Cmd) reqs"
  obtain blk where blk: "GenNewBlock ?env (BlkStore s) (ViewNumber (hs_View s)) ?cmds [] =
      Some ((BlkStore s)\<lparr>CurProposalBlk := blk, CurBlkHash := Block_Hash env blk\<rparr>)" "bh_Height (BlkHdr blk) = bs_Height (BlkStore s)"
    "bh_PreBlkHash (BlkHdr blk) = bs_PreBlkHash (BlkStore s)" "bd_Trans (BlkData blk) = ?cmds"
    using GenNewBlock_now [of ?env "BlkStore s" "ViewNumber (hs_View s)" ?cmds] by auto
  let ?bs = "(BlkStore s)\<lparr>CurProposalBlk := blk, CurBlkHash := Block_Hash env blk\<rparr>"
  define node where "node = \<lparr>CurHash = Block_Hash env blk, ParentHash = CurHash (qc_HsNode J)\<rparr>"
  define t where "t = s\<lparr>CurProposal := p, ViewTimer := timer_started (timer_stopped (ViewTimer s)), CurPhase := HS_PREPARE, BlkStore := ?bs,
    hs_HsNode := node, IgnoreCheckQC := False\<rparr>"
  define m where "m = nil_Msg\<lparr>MType := HS_PREPARE, m_ViewNumber := ViewNumber (hs_View s), m_HsNode := node, Justify := J,
    m_Proposal := p, m_Block := blk, SendNode := bhs_GetNodeName s, ReciNode := ''Broadcast''\<rparr>"
  have "GenProposal ?env (s\<lparr>CurProposal := p\<rparr>) = Some (Some m, t)"
    using ready(1) inv k(1) J blk(1) cmds(1)
    by (auto simp: GenProposal_def TwoDimByteSlice2StringSlice_def comp_def CreateLeaf_def node_def t_def m_def bhs_GetNodeName_def)
  moreover have "bhs_SendSerMsg (t\<lparr>CurRoundMsg := CurRoundMsg t @ [m]\<rparr>) m = Some (post t m)"
    by (rule SendSerMsg_post) (use inv in \<open>simp add: t_def\<close>)
  ultimately have "hs_step env s (Request now h ph reqs) = Some (post t m)"
    using assms(2) by (simp add: bhs_HandleReq_def Let_def p0_def [symmetric] p_def [symmetric])
  moreover have "hs_inv (post t m)" using assms(1) inv by (auto simp: hs_inv_def t_def post_def)
  moreover have "proposed s J reqs env m (post t m)" using cmds(1) blk by (simp add: proposed_def m_def t_def node_def)
  ultimately show ?thesis using inv cmds(2)
    by (intro exI [of _ "post t m"] exI [of _ m]) (simp add: t_def, simp add: post_def sent_def)
qed

text \<open>The messages that open the next view.\<close>

lemma newview_step:
  assumes "bhs_IsLeader s" "CurPhase s = HS_NEW_VIEW" "MType m = HS_NEW_VIEW" "m_ViewNumber m = ViewNumber (hs_View s)"
    and "LastRoundMsg s \<noteq> []" "CheckQC env s m HS_PREPARE (m_ViewNumber (last (LastRoundMsg s)))"
  shows "\<not> above_thr (NodesNum (hs_View s)) (NewViewMsgs s @ [m]) \<Longrightarrow>
      HandleBMsg env s (Some m) pk = Some (s\<lparr>NewViewMsgs := NewViewMsgs s @ [m]\<rparr>)"
    and "above_thr (NodesNum (hs_View s)) (NewViewMsgs s @ [m]) \<Longrightarrow> CurProposal s = nil_Proposal \<Longrightarrow> \<not> ViewChangeSendFlag s \<Longrightarrow>
      HandleBMsg env s (Some m) pk = Some (s\<lparr>NewViewMsgs := NewViewMsgs s @ [m], CurPhase := HS_WAITING\<rparr>)"
  using assms
  by (simp_all add: HandleBMsg_def RouteBMsg_def HandleNewView_def collect_NewView_def MatchingMsg_def leader_name nil_Proposal_def)

section \<open>The network\<close>

text \<open>
  \<open>n\<close> replicas, numbered as in their names. A message is delivered to a node it is addressed to when
  some node has sent it, at any time, in any order and any number of times; requests, timeouts and
  spawned sends come at any time.
\<close>

definition deliverable :: "nat \<Rightarrow> (nat \<Rightarrow> BCHotstuff) \<Rightarrow> nat \<Rightarrow> Msg \<Rightarrow> bool" where
  "deliverable n N i m \<longleftrightarrow> (\<exists>j < n. m \<in> set (sent (N j))) \<and> (ReciNode m = ''Broadcast'' \<or> ReciNode m = node_name (int i))"

fun local_event :: "hs_event \<Rightarrow> bool" where
  "local_event (Deliver now m pk) = False"
| "local_event _ = True"

inductive hs_net :: "'a env_scheme \<Rightarrow> nat \<Rightarrow> (nat \<Rightarrow> BCHotstuff) \<Rightarrow> (nat \<Rightarrow> BCHotstuff) \<Rightarrow> bool" for env n M where
  start: "hs_net env n M M"
| local: "hs_net env n M N \<Longrightarrow> i < n \<Longrightarrow> local_event e \<Longrightarrow> hs_step env (N i) e = Some s \<Longrightarrow> hs_net env n M (N(i := s))"
| deliver: "hs_net env n M N \<Longrightarrow> i < n \<Longrightarrow> deliverable n N i m \<Longrightarrow> hs_step env (N i) (Deliver now (Some m) pk) = Some s \<Longrightarrow>
    hs_net env n M (N(i := s))"

lemma hs_net_trans: "hs_net env n N N' \<Longrightarrow> hs_net env n M N \<Longrightarrow> hs_net env n M N'"
  by (induction rule: hs_net.induct) (auto intro: hs_net.intros)

text \<open>One message for every node of a set.\<close>

lemma net_deliver_all:
  assumes "finite I" "I \<subseteq> {..<n}" "hs_net env n M N" "j < n" "m \<in> set (sent (N j))" "ReciNode m = ''Broadcast''"
    and ok: "\<And>i. i \<in> I \<Longrightarrow> \<exists>t. HandleBMsg (env\<lparr>Clock := 0\<rparr>) (N i) (Some m) None = Some t \<and> \<Phi> i t"
    and keep: "\<And>t. j \<in> I \<Longrightarrow> \<Phi> j t \<Longrightarrow> m \<in> set (sent t)"
  shows "\<exists>N'. hs_net env n M N' \<and> (\<forall>i \<in> I. \<Phi> i (N' i)) \<and> (\<forall>i. i \<notin> I \<longrightarrow> N' i = N i)"
  using assms(1,2) ok keep
proof (induction I)
  case (insert i I)
  then obtain N' where N': "hs_net env n M N'" "\<forall>i \<in> I. \<Phi> i (N' i)" "\<forall>i. i \<notin> I \<longrightarrow> N' i = N i" by auto
  obtain t where t: "HandleBMsg (env\<lparr>Clock := 0\<rparr>) (N i) (Some m) None = Some t" "\<Phi> i t" using insert.prems(2) [of i] by auto
  have "m \<in> set (sent (N' j))"
  proof (cases "j \<in> I")
    case True
    with N'(2) insert.prems(3) show ?thesis by blast
  qed (use N'(3) assms(5) in simp)
  then have "deliverable n N' i m" using assms(4,6) by (auto simp: deliverable_def)
  moreover have "hs_step env (N' i) (Deliver 0 (Some m) None) = Some t" using t(1) N'(3) insert.hyps(2) by simp
  ultimately have "hs_net env n M (N'(i := t))" using hs_net.deliver [OF N'(1)] insert.prems(1) by blast
  moreover have "\<forall>k \<in> insert i I. \<Phi> k ((N'(i := t)) k)" using N'(2) t(2) by auto
  moreover have "\<forall>k. k \<notin> insert i I \<longrightarrow> (N'(i := t)) k = N k" using N'(3) by auto
  ultimately show ?case by blast
qed (use assms(3) in blast)

text \<open>
  The messages of a list of other nodes, one after the other, for one node that collects them: \<open>upd ms\<close>
  is its state with the messages \<open>ms\<close>, and the last one takes it to \<open>t\<close>.
\<close>

lemma net_gather:
  assumes "hs_net env n M N" "l < n" "N l = upd []" "Q \<noteq> []"
    and src: "\<And>q. q \<in> set Q \<Longrightarrow> q < n \<and> q \<noteq> l \<and> vote q \<in> set (sent (N q)) \<and> ReciNode (vote q) = node_name (int l)"
    and more: "\<And>k. Suc k < length Q \<Longrightarrow> HandleBMsg (env\<lparr>Clock := 0\<rparr>) (upd (map vote (take k Q))) (Some (vote (Q ! k))) None =
        Some (upd (map vote (take (Suc k) Q)))"
    and final: "HandleBMsg (env\<lparr>Clock := 0\<rparr>) (upd (map vote (butlast Q))) (Some (vote (last Q))) None = Some t"
  shows "hs_net env n M (N(l := t))"
proof -
  have one: "hs_net env n M (N(l := u))"
    if "hs_net env n M (N(l := s))" "q \<in> set Q" "HandleBMsg (env\<lparr>Clock := 0\<rparr>) s (Some (vote q)) None = Some u" for s u q
  proof -
    have "deliverable n (N(l := s)) l (vote q)" using src [OF that(2)] by (auto simp: deliverable_def)
    from hs_net.deliver [OF that(1) assms(2) this, of 0 None u] that(3) show ?thesis by simp
  qed
  have step: "k < length Q \<Longrightarrow> hs_net env n M (N(l := upd (map vote (take k Q))))" for k
  proof (induction k)
    case 0
    from assms(1,3) show ?case by (simp add: fun_upd_idem)
  next
    case (Suc k)
    then show ?case by (intro one [OF Suc.IH _ more]) simp_all
  qed
  obtain k where k: "length Q = Suc k" using assms(4) by (cases Q) auto
  have "butlast Q = take k Q" "last Q \<in> set Q" using assms(4) k by (simp_all add: butlast_conv_take)
  with one [OF step [of k], of "last Q" t] final k show ?thesis by simp
qed

section \<open>Votes that combine\<close>

text \<open>
  What the threshold library promises for the signers of \<open>n\<close> nodes: every node can sign, and the
  shares of any threshold of different nodes for one message combine, at every node, into a
  signature that every node verifies.
\<close>

definition tss_ok :: "'a env_scheme \<Rightarrow> nat \<Rightarrow> (nat \<Rightarrow> tss_Signer) \<Rightarrow> bool" where
  "tss_ok env n sg \<longleftrightarrow> (\<forall>i < n. \<forall>b. ThresholdSign env (sg i) b \<noteq> None) \<and>
     (\<forall>b Q. distinct Q \<and> set Q \<subseteq> {..<n} \<and> int (length Q) = vote_threshold (int n) \<longrightarrow>
        (\<forall>i < n. \<exists>sig. CombineSig env (sg i) b (map (\<lambda>q. ThresholdSign env (sg q) b) Q) = Some sig \<and>
           (\<forall>j < n. ThresholdSignVerify env (sg j) b (Some sig))))"

definition view_at :: "nat \<Rightarrow> nat \<Rightarrow> View" where
  "view_at n v = \<lparr>ViewNumber = int v, Leader = int (v mod n), NodesNum = int n\<rparr>"

definition node_at :: "nat \<Rightarrow> (nat \<Rightarrow> tss_Signer) \<Rightarrow> nat \<Rightarrow> nat \<Rightarrow> BCHotstuff \<Rightarrow> bool" where
  "node_at n sg v i s \<longleftrightarrow> hs_inv s \<and> hs_View s = view_at n v \<and> ConsId s = int i \<and> ThresholdSigner s = sg i \<and> \<not> ViewChangeSendFlag s"

definition rvote :: "'a env_scheme \<Rightarrow> nat \<Rightarrow> (nat \<Rightarrow> tss_Signer) \<Rightarrow> nat \<Rightarrow> hs_StateType \<Rightarrow> HsNode \<Rightarrow> nat \<Rightarrow> Msg" where
  "rvote env n sg v ty node i = nil_Msg\<lparr>MType := ty, m_ViewNumber := int v, m_HsNode := node,
     PartialSig := ThresholdSign env (sg i) (hs_sign_bytes (signed_type ty) (int v) node),
     SendNode := node_name (int i), ReciNode := node_name (int (v mod n))\<rparr>"

lemma view_at_sel [simp]: "ViewNumber (view_at n v) = int v" "Leader (view_at n v) = int (v mod n)" "NodesNum (view_at n v) = int n"
  by (simp_all add: view_at_def)

lemma rvote_sel [simp]:
  "MType (rvote env n sg v ty nd i) = ty" "m_ViewNumber (rvote env n sg v ty nd i) = int v" "m_HsNode (rvote env n sg v ty nd i) = nd"
  "PartialSig (rvote env n sg v ty nd i) = ThresholdSign env (sg i) (hs_sign_bytes (signed_type ty) (int v) nd)"
  "ReciNode (rvote env n sg v ty nd i) = node_name (int (v mod n))"
  by (simp_all add: rvote_def)

lemma rvote_clock [simp]: "rvote (env\<lparr>Clock := c\<rparr>) n sg v ty nd i = rvote env n sg v ty nd i"
  by (simp add: rvote_def ThresholdSign_def)

lemma node_atD:
  assumes "node_at n sg v i s"
  shows "hs_inv s" "hs_View s = view_at n v" "ConsId s = int i" "ThresholdSigner s = sg i" "\<not> ViewChangeSendFlag s" "SendChan s \<noteq> None"
    "bhs_GetNodeName s = node_name (int i)" "bhs_IsLeader s \<longleftrightarrow> i = v mod n" "vote_msg env s ty nd = rvote env n sg v ty nd i"
  using assms by (auto simp: node_at_def hs_inv_def bhs_GetNodeName_def node_name_def IsLeader_iff vote_msg_def rvote_def LeaderName_node_name)

lemma node_at_can_sign: "tss_ok env n sg \<Longrightarrow> i < n \<Longrightarrow> node_at n sg v i s \<Longrightarrow> can_sign env s"
  by (auto simp: tss_ok_def can_sign_def node_at_def ThresholdSign_def)

definition vcert :: "'a env_scheme \<Rightarrow> nat \<Rightarrow> (nat \<Rightarrow> tss_Signer) \<Rightarrow> nat \<Rightarrow> hs_StateType \<Rightarrow> HsNode \<Rightarrow> QC \<Rightarrow> bool" where
  "vcert env n sg v ty nd q \<longleftrightarrow> QType q = ty \<and> qc_ViewNumber q = int v \<and> qc_HsNode q = nd \<and>
     (\<forall>j < n. ThresholdSignVerify env (sg j) (QC2SignMsgByte q) (qc_Sign q))"

lemma vcert_fits:
  "vcert env n sg v qty nd q \<Longrightarrow> node_at n sg v i s \<Longrightarrow> i < n \<Longrightarrow> MType m = ty \<Longrightarrow> m_ViewNumber m = int v \<Longrightarrow> Justify m = q \<Longrightarrow> fits env s m ty qty"
  by (auto simp: vcert_def node_at_def fits_def CheckQC_True MatchingQC_def)

text \<open>The first nodes other than \<open>l\<close>, as many as the threshold.\<close>

definition quorum :: "nat \<Rightarrow> nat \<Rightarrow> nat list" where
  "quorum n l = take (nat (vote_threshold (int n))) (filter (\<lambda>i. i \<noteq> l) [0..<n])"

lemma length_others: "l < n \<Longrightarrow> length (filter (\<lambda>i. i \<noteq> l) [0..<n]) = n - 1"
proof -
  assume l: "l < n"
  have "length (filter (\<lambda>i. i \<noteq> l) [0..<n]) = card ({..<n} - {l})"
    by (subst distinct_card [symmetric]) (auto intro!: arg_cong [where f = card])
  with l show ?thesis by simp
qed

lemma quorum_ok:
  assumes "2 \<le> n" "l < n"
  shows "distinct (quorum n l)" "\<And>q. q \<in> set (quorum n l) \<Longrightarrow> q < n \<and> q \<noteq> l" "int (length (quorum n l)) = vote_threshold (int n)"
    "quorum n l \<noteq> []" "\<And>k xs. length xs = k \<Longrightarrow> above_thr (int n) xs \<longleftrightarrow> length (quorum n l) \<le> k"
proof -
  have t: "vote_threshold (int n) = (int n - 1) div 3 * 2 + 1" using assms(1) by (simp add: vote_threshold_def)
  then have b: "1 \<le> vote_threshold (int n)" "nat (vote_threshold (int n)) \<le> n - 1" using assms(1) by linarith+
  show "distinct (quorum n l)" by (simp add: quorum_def)
  show "q < n \<and> q \<noteq> l" if "q \<in> set (quorum n l)" for q using that by (auto simp: quorum_def dest: in_set_takeD)
  show len: "int (length (quorum n l)) = vote_threshold (int n)" using b by (simp add: quorum_def length_others [OF assms(2)])
  then show "quorum n l \<noteq> []" using b(1) by auto
  show "above_thr (int n) xs \<longleftrightarrow> length (quorum n l) \<le> k" if "length xs = k" for k and xs :: "'x list"
    using that len by (auto simp: above_thr_vote_threshold)
qed

lemma quorum_combines:
  assumes "tss_ok env n sg" "2 \<le> n" "node_at n sg v l s" "l < n" "hs_HsNode s = nd"
  shows "\<exists>q. combines env s (signed_type ty) (map (rvote env n sg v ty nd) (quorum n l)) q \<and> vcert env n sg v (signed_type ty) nd q"
proof -
  let ?Q = "quorum n l" and ?b = "hs_sign_bytes (signed_type ty) (int v) nd"
  note Q = quorum_ok [OF assms(2,4)]
  obtain sig where sig: "CombineSig env (sg l) ?b (map (\<lambda>q. ThresholdSign env (sg q) ?b) ?Q) = Some sig"
    "\<forall>j < n. ThresholdSignVerify env (sg j) ?b (Some sig)"
    using assms(1,4) Q(1-3) unfolding tss_ok_def by blast
  let ?q = "\<lparr>QType = signed_type ty, qc_ViewNumber = int v, qc_HsNode = nd, qc_Sign = Some sig\<rparr>"
  have "combines env s (signed_type ty) (map (rvote env n sg v ty nd) ?Q) ?q"
    using sig(1) Q(4) assms(3,5) Q(5) [of "map (rvote env n sg v ty nd) ?Q"] by (simp add: combines_def node_at_def last_map comp_def)
  moreover have "vcert env n sg v (signed_type ty) nd ?q" using sig(2) by (simp add: vcert_def QC2SignMsgByte_def)
  ultimately show ?thesis by blast
qed

lemma snoc_maps:
  "Q \<noteq> [] \<Longrightarrow> map f (butlast Q) @ [f (last Q)] = map f Q"
  "k < length Q \<Longrightarrow> map f (take k Q) @ [f (Q ! k)] = map f (take (Suc k) Q)"
  by (metis append_butlast_last_id list.simps(8,9) map_append) (simp add: take_Suc_conv_app_nth)

text \<open>A stage of voting: the votes of a quorum take the leader from \<open>upd []\<close> to \<open>fin\<close>.\<close>

lemma net_quorum_votes:
  assumes "tss_ok env n sg" "2 \<le> n" "l < n" "node_at n sg v l (N l)" "l = v mod n" "hs_HsNode (N l) = nd" "hs_net env n M N"
    and sent: "\<And>q. q < n \<Longrightarrow> q \<noteq> l \<Longrightarrow> rvote env n sg v ty nd q \<in> set (sent (N q))"
    and upd: "N l = upd []"
    and more: "\<And>ms m. \<not> above_thr (int n) (ms @ [m]) \<Longrightarrow> MType m = ty \<Longrightarrow> m_ViewNumber m = int v \<Longrightarrow>
      HandleBMsg (env\<lparr>Clock := 0\<rparr>) (upd ms) (Some m) None = Some (upd (ms @ [m]))"
    and final: "\<And>ms m q. combines env (N l) (signed_type ty) (ms @ [m]) q \<Longrightarrow> MType m = ty \<Longrightarrow> m_ViewNumber m = int v \<Longrightarrow>
      HandleBMsg (env\<lparr>Clock := 0\<rparr>) (upd ms) (Some m) None = Some (fin (ms @ [m]) q)"
  shows "\<exists>q ms. vcert env n sg v (signed_type ty) nd q \<and> hs_net env n M (N(l := fin ms q))"
proof -
  let ?Q = "quorum n l" and ?vote = "rvote env n sg v ty nd"
  note Q = quorum_ok [OF assms(2,3)]
  obtain q where q: "combines env (N l) (signed_type ty) (map ?vote ?Q) q" "vcert env n sg v (signed_type ty) nd q"
    using quorum_combines [OF assms(1,2,4,3,6)] by blast
  have "hs_net env n M (N(l := fin (map ?vote ?Q) q))"
  proof (rule net_gather [where upd = upd and vote = ?vote, OF assms(7,3) upd Q(4)])
    show "x < n \<and> x \<noteq> l \<and> ?vote x \<in> set (sent (N x)) \<and> ReciNode (?vote x) = node_name (int l)" if "x \<in> set ?Q" for x
      using Q(2) [OF that] sent assms(5) by simp
    show "HandleBMsg (env\<lparr>Clock := 0\<rparr>) (upd (map ?vote (take k ?Q))) (Some (?vote (?Q ! k))) None = Some (upd (map ?vote (take (Suc k) ?Q)))"
      if "Suc k < length ?Q" for k
    proof -
      have "\<not> above_thr (int n) (map ?vote (take k ?Q) @ [?vote (?Q ! k)])" using that by (subst Q(5) [OF refl]) simp
      from more [OF this] that show ?thesis by (simp add: snoc_maps)
    qed
    show "HandleBMsg (env\<lparr>Clock := 0\<rparr>) (upd (map ?vote (butlast ?Q))) (Some (?vote (last ?Q))) None = Some (fin (map ?vote ?Q) q)"
      using final [of "map ?vote (butlast ?Q)" "?vote (last ?Q)" q] q(1) by (simp add: snoc_maps Q(4))
  qed
  with q(2) show ?thesis by blast
qed

lemma votes_upd [simp]:
  "cert_msg (s\<lparr>PrepareVotes := ms\<rparr>) ty q = cert_msg s ty q" "combines env (s\<lparr>PrepareVotes := ms\<rparr>) ty xs q = combines env s ty xs q"
  "cert_msg (s\<lparr>PreCommitVotes := ms\<rparr>) ty q = cert_msg s ty q" "combines env (s\<lparr>PreCommitVotes := ms\<rparr>) ty xs q = combines env s ty xs q"
  "cert_msg (s\<lparr>CommitVotes := ms\<rparr>) ty q = cert_msg s ty q" "combines env (s\<lparr>CommitVotes := ms\<rparr>) ty xs q = combines env s ty xs q"
  "bhs_IsLeader (s\<lparr>PrepareVotes := ms\<rparr>) = bhs_IsLeader s" "bhs_IsLeader (s\<lparr>PreCommitVotes := ms\<rparr>) = bhs_IsLeader s"
  "bhs_IsLeader (s\<lparr>CommitVotes := ms\<rparr>) = bhs_IsLeader s" "bhs_IsLeader (s\<lparr>NewViewMsgs := ms\<rparr>) = bhs_IsLeader s"
  by (simp_all add: cert_msg_def combines_def bhs_GetNodeName_def IsLeader_iff)

lemma net_prepare_votes:
  assumes "tss_ok env n sg" "2 \<le> n" "l < n" "node_at n sg v l (N l)" "l = v mod n" "hs_HsNode (N l) = nd" "hs_net env n M N"
    and "\<And>q. q < n \<Longrightarrow> q \<noteq> l \<Longrightarrow> rvote env n sg v HS_PREPARE_VOTE nd q \<in> set (sent (N q))" "PrepareVotes (N l) = []" "CurPhase (N l) = HS_PREPARE"
  shows "\<exists>q ms. vcert env n sg v HS_PREPARE nd q \<and> hs_net env n M (N(l := post ((N l)\<lparr>PrepareVotes := ms, PrepareQC := q, CurPhase := HS_PRE_COMMIT\<rparr>) (cert_msg (N l) HS_PRE_COMMIT q)))"
proof -
  note d = node_atD [OF assms(4)]
  have "N l = (N l)\<lparr>PrepareVotes := []\<rparr>" using assms(9) by simp
  moreover have "HandleBMsg (env\<lparr>Clock := 0\<rparr>) ((N l)\<lparr>PrepareVotes := ms\<rparr>) (Some m) None = Some ((N l)\<lparr>PrepareVotes := ms @ [m]\<rparr>)"
    if "\<not> above_thr (int n) (ms @ [m])" "MType m = HS_PREPARE_VOTE" "m_ViewNumber m = int v" for ms m
    using vote_prepare(1) [of "(N l)\<lparr>PrepareVotes := ms\<rparr>" m] that d assms(5,10) by simp
  moreover have "HandleBMsg (env\<lparr>Clock := 0\<rparr>) ((N l)\<lparr>PrepareVotes := ms\<rparr>) (Some m) None =
      Some (post ((N l)\<lparr>PrepareVotes := ms @ [m], PrepareQC := q, CurPhase := HS_PRE_COMMIT\<rparr>) (cert_msg (N l) HS_PRE_COMMIT q))"
    if "combines env (N l) HS_PREPARE (ms @ [m]) q" "MType m = HS_PREPARE_VOTE" "m_ViewNumber m = int v" for ms m q
    using vote_prepare(2) [of "(N l)\<lparr>PrepareVotes := ms\<rparr>" m "env\<lparr>Clock := 0\<rparr>" q] that d assms(5,10) by simp
  ultimately show ?thesis
    using net_quorum_votes [where upd = "\<lambda>ms. (N l)\<lparr>PrepareVotes := ms\<rparr>" and ty = "HS_PREPARE_VOTE" and
      fin = "\<lambda>ms q. post ((N l)\<lparr>PrepareVotes := ms, PrepareQC := q, CurPhase := HS_PRE_COMMIT\<rparr>) (cert_msg (N l) HS_PRE_COMMIT q)", OF assms(1-8)]
    by simp
qed

lemma net_precommit_votes:
  assumes "tss_ok env n sg" "2 \<le> n" "l < n" "node_at n sg v l (N l)" "l = v mod n" "hs_HsNode (N l) = nd" "hs_net env n M N"
    and "\<And>q. q < n \<Longrightarrow> q \<noteq> l \<Longrightarrow> rvote env n sg v HS_PRE_COMMIT_VOTE nd q \<in> set (sent (N q))" "PreCommitVotes (N l) = []" "CurPhase (N l) = HS_PRE_COMMIT"
  shows "\<exists>q ms. vcert env n sg v HS_PRE_COMMIT nd q \<and> hs_net env n M (N(l := post ((N l)\<lparr>PreCommitVotes := ms, LockedQC := q, CurPhase := HS_COMMIT\<rparr>) (cert_msg (N l) HS_COMMIT q)))"
proof -
  note d = node_atD [OF assms(4)]
  have "N l = (N l)\<lparr>PreCommitVotes := []\<rparr>" using assms(9) by simp
  moreover have "HandleBMsg (env\<lparr>Clock := 0\<rparr>) ((N l)\<lparr>PreCommitVotes := ms\<rparr>) (Some m) None = Some ((N l)\<lparr>PreCommitVotes := ms @ [m]\<rparr>)"
    if "\<not> above_thr (int n) (ms @ [m])" "MType m = HS_PRE_COMMIT_VOTE" "m_ViewNumber m = int v" for ms m
    using vote_precommit(1) [of "(N l)\<lparr>PreCommitVotes := ms\<rparr>" m] that d assms(5,10) by simp
  moreover have "HandleBMsg (env\<lparr>Clock := 0\<rparr>) ((N l)\<lparr>PreCommitVotes := ms\<rparr>) (Some m) None =
      Some (post ((N l)\<lparr>PreCommitVotes := ms @ [m], LockedQC := q, CurPhase := HS_COMMIT\<rparr>) (cert_msg (N l) HS_COMMIT q))"
    if "combines env (N l) HS_PRE_COMMIT (ms @ [m]) q" "MType m = HS_PRE_COMMIT_VOTE" "m_ViewNumber m = int v" for ms m q
    using vote_precommit(2) [of "(N l)\<lparr>PreCommitVotes := ms\<rparr>" m "env\<lparr>Clock := 0\<rparr>" q] that d assms(5,10) by simp
  ultimately show ?thesis
    using net_quorum_votes [where upd = "\<lambda>ms. (N l)\<lparr>PreCommitVotes := ms\<rparr>" and ty = "HS_PRE_COMMIT_VOTE" and
      fin = "\<lambda>ms q. post ((N l)\<lparr>PreCommitVotes := ms, LockedQC := q, CurPhase := HS_COMMIT\<rparr>) (cert_msg (N l) HS_COMMIT q)", OF assms(1-8)]
    by simp
qed

lemma net_commit_votes:
  assumes "tss_ok env n sg" "2 \<le> n" "l < n" "node_at n sg v l (N l)" "l = v mod n" "hs_HsNode (N l) = nd" "hs_net env n M N"
    and "\<And>q. q < n \<Longrightarrow> q \<noteq> l \<Longrightarrow> rvote env n sg v HS_COMMIT_VOTE nd q \<in> set (sent (N q))" "CommitVotes (N l) = []" "CurPhase (N l) = HS_COMMIT"
  shows "\<exists>q ms. vcert env n sg v HS_COMMIT nd q \<and> hs_net env n M (N(l := post ((N l)\<lparr>CommitVotes := ms\<rparr>) (cert_msg (N l) HS_DECIDE q)))"
proof -
  note d = node_atD [OF assms(4)]
  have "N l = (N l)\<lparr>CommitVotes := []\<rparr>" using assms(9) by simp
  moreover have "HandleBMsg (env\<lparr>Clock := 0\<rparr>) ((N l)\<lparr>CommitVotes := ms\<rparr>) (Some m) None = Some ((N l)\<lparr>CommitVotes := ms @ [m]\<rparr>)"
    if "\<not> above_thr (int n) (ms @ [m])" "MType m = HS_COMMIT_VOTE" "m_ViewNumber m = int v" for ms m
    using vote_commit(1) [of "(N l)\<lparr>CommitVotes := ms\<rparr>" m] that d assms(5,10) by simp
  moreover have "HandleBMsg (env\<lparr>Clock := 0\<rparr>) ((N l)\<lparr>CommitVotes := ms\<rparr>) (Some m) None =
      Some (post ((N l)\<lparr>CommitVotes := ms @ [m]\<rparr>) (cert_msg (N l) HS_DECIDE q))"
    if "combines env (N l) HS_COMMIT (ms @ [m]) q" "MType m = HS_COMMIT_VOTE" "m_ViewNumber m = int v" for ms m q
    using vote_commit(2) [of "(N l)\<lparr>CommitVotes := ms\<rparr>" m "env\<lparr>Clock := 0\<rparr>" q] that d assms(5,10) by simp
  ultimately show ?thesis
    using net_quorum_votes [where upd = "\<lambda>ms. (N l)\<lparr>CommitVotes := ms\<rparr>" and ty = "HS_COMMIT_VOTE" and
      fin = "\<lambda>ms q. post ((N l)\<lparr>CommitVotes := ms\<rparr>) (cert_msg (N l) HS_DECIDE q)", OF assms(1-8)]
    by simp
qed

section \<open>The replicas of a round\<close>

text \<open>A replica that has voted \<open>ty\<close> for the node \<open>nd\<close> and holds the block \<open>blk\<close>, \<open>bs\<close> being its store before.\<close>

definition voted :: "'a env_scheme \<Rightarrow> nat \<Rightarrow> (nat \<Rightarrow> tss_Signer) \<Rightarrow> nat \<Rightarrow> hs_StateType \<Rightarrow> HsNode \<Rightarrow> Block \<Rightarrow> BlockStore \<Rightarrow> nat \<Rightarrow> BCHotstuff \<Rightarrow> bool" where
  "voted env n sg v ty nd blk bs i t \<longleftrightarrow> node_at n sg v i t \<and> CurPhase t = signed_type ty \<and> rvote env n sg v ty nd i \<in> set (sent t) \<and>
     BlkStore t = bs\<lparr>CurProposalBlk := blk, CurBlkHash := Block_Hash env blk\<rparr> \<and> \<not> Proposal_IsEmpty (CurProposal t)"

lemma net_deliver_others:
  assumes "hs_net env n M N" "l < n" "m \<in> set (sent (N l))" "ReciNode m = ''Broadcast''"
    and ok: "\<And>i. i < n \<Longrightarrow> i \<noteq> l \<Longrightarrow> \<exists>t. HandleBMsg (env\<lparr>Clock := 0\<rparr>) (N i) (Some m) None = Some t \<and> \<Phi> i t"
  shows "\<exists>N'. hs_net env n M N' \<and> N' l = N l \<and> (\<forall>i < n. i \<noteq> l \<longrightarrow> \<Phi> i (N' i))"
proof -
  have "\<exists>N'. hs_net env n M N' \<and> (\<forall>i \<in> {..<n} - {l}. \<Phi> i (N' i)) \<and> (\<forall>i. i \<notin> {..<n} - {l} \<longrightarrow> N' i = N i)"
    by (rule net_deliver_all [OF _ _ assms(1-4)]) (use ok in auto)
  then show ?thesis by auto
qed

lemma net_prepare:
  assumes "tss_ok env n sg" "hs_net env n M N" "l < n" "l = v mod n" "m \<in> set (sent (N l))"
    and nodes: "\<And>i. i < n \<Longrightarrow> i \<noteq> l \<Longrightarrow> node_at n sg v i (N i) \<and> CurPhase (N i) = HS_NEW_VIEW \<and> (v = 0 \<or> CheckNewHsNode (N i) m)"
    and m: "MType m = HS_PREPARE" "m_ViewNumber m = int v" "ReciNode m = ''Broadcast''" "slices (Commands (m_Proposal m)) \<noteq> []"
  shows "\<exists>N'. hs_net env n M N' \<and> N' l = N l \<and>
    (\<forall>i < n. i \<noteq> l \<longrightarrow> voted env n sg v HS_PREPARE_VOTE (m_HsNode m) (m_Block m) (BlkStore (N i)) i (N' i))"
proof -
  have "\<exists>t. HandleBMsg (env\<lparr>Clock := 0\<rparr>) (N i) (Some m) None = Some t \<and> voted env n sg v HS_PREPARE_VOTE (m_HsNode m) (m_Block m) (BlkStore (N i)) i t"
    if i: "i < n" "i \<noteq> l" for i
  proof -
    have n: "node_at n sg v i (N i)" "CurPhase (N i) = HS_NEW_VIEW" "v = 0 \<or> CheckNewHsNode (N i) m" using nodes i by auto
    note d = node_atD(1-8) [OF n(1)] node_at_can_sign [OF assms(1) _ n(1)]
    show ?thesis
      using step_prepare [of "N i" "env\<lparr>Clock := 0\<rparr>" m None] d n i m assms(4)
      by (auto simp: voted_def node_at_def round_kept_def node_atD(9) [OF n(1)])
  qed
  with net_deliver_others [OF assms(2,3,5) m(3),
      where \<Phi> = "\<lambda>i t. voted env n sg v HS_PREPARE_VOTE (m_HsNode m) (m_Block m) (BlkStore (N i)) i t"] show ?thesis by simp
qed

lemma net_precommit:
  assumes "tss_ok env n sg" "hs_net env n M N" "l < n" "l = v mod n" "m \<in> set (sent (N l))"
    and nodes: "\<And>i. i < n \<Longrightarrow> i \<noteq> l \<Longrightarrow> voted env n sg v HS_PREPARE_VOTE nd blk (bs i) i (N i)"
    and m: "MType m = HS_PRE_COMMIT" "m_ViewNumber m = int v" "ReciNode m = ''Broadcast''" "vcert env n sg v HS_PREPARE nd (Justify m)"
  shows "\<exists>N'. hs_net env n M N' \<and> N' l = N l \<and>
    (\<forall>i < n. i \<noteq> l \<longrightarrow> voted env n sg v HS_PRE_COMMIT_VOTE nd blk (bs i) i (N' i) \<and> PrepareQC (N' i) = Justify m)"
proof -
  let ?P = "\<lambda>i t. voted env n sg v HS_PRE_COMMIT_VOTE nd blk (bs i) i t \<and> PrepareQC t = Justify m"
  have "\<exists>t. HandleBMsg (env\<lparr>Clock := 0\<rparr>) (N i) (Some m) None = Some t \<and> ?P i t" if i: "i < n" "i \<noteq> l" for i
  proof -
    have n: "voted env n sg v HS_PREPARE_VOTE nd blk (bs i) i (N i)" using nodes i by auto
    then have a: "node_at n sg v i (N i)" by (simp add: voted_def)
    note d = node_atD(1-8) [OF a] node_at_can_sign [OF assms(1) _ a]
    have "fits env (N i) m HS_PRE_COMMIT HS_PREPARE" using vcert_fits [OF m(4) a _ m(1,2)] i by simp
    moreover have "qc_HsNode (Justify m) = nd" using m(4) by (simp add: vcert_def)
    ultimately show ?thesis
      using step_precommit [of "N i" "env\<lparr>Clock := 0\<rparr>" m None] d n i assms(4)
      by (auto simp: voted_def node_at_def round_kept_def node_atD(9) [OF a])
  qed
  with net_deliver_others [OF assms(2,3,5) m(3), where \<Phi> = ?P] show ?thesis by simp
qed

lemma net_commit:
  assumes "tss_ok env n sg" "hs_net env n M N" "l < n" "l = v mod n" "m \<in> set (sent (N l))"
    and nodes: "\<And>i. i < n \<Longrightarrow> i \<noteq> l \<Longrightarrow> voted env n sg v HS_PRE_COMMIT_VOTE nd blk (bs i) i (N i) \<and> PrepareQC (N i) = q1"
    and m: "MType m = HS_COMMIT" "m_ViewNumber m = int v" "ReciNode m = ''Broadcast''" "vcert env n sg v HS_PRE_COMMIT nd (Justify m)"
  shows "\<exists>N'. hs_net env n M N' \<and> N' l = N l \<and>
    (\<forall>i < n. i \<noteq> l \<longrightarrow> voted env n sg v HS_COMMIT_VOTE nd blk (bs i) i (N' i) \<and> PrepareQC (N' i) = q1 \<and> LockedQC (N' i) = Justify m \<and>
       CurRoundMsg (N' i) \<noteq> [] \<and> m_ViewNumber (last (CurRoundMsg (N' i))) = int v)"
proof -
  let ?P = "\<lambda>i t. voted env n sg v HS_COMMIT_VOTE nd blk (bs i) i t \<and> PrepareQC t = q1 \<and> LockedQC t = Justify m \<and>
       CurRoundMsg t \<noteq> [] \<and> m_ViewNumber (last (CurRoundMsg t)) = int v"
  have "\<exists>t. HandleBMsg (env\<lparr>Clock := 0\<rparr>) (N i) (Some m) None = Some t \<and> ?P i t" if i: "i < n" "i \<noteq> l" for i
  proof -
    have n: "voted env n sg v HS_PRE_COMMIT_VOTE nd blk (bs i) i (N i)" "PrepareQC (N i) = q1" using nodes i by auto
    then have a: "node_at n sg v i (N i)" by (simp add: voted_def)
    note d = node_atD(1-8) [OF a] node_at_can_sign [OF assms(1) _ a]
    have "fits env (N i) m HS_COMMIT HS_PRE_COMMIT" using vcert_fits [OF m(4) a _ m(1,2)] i by simp
    moreover have "qc_HsNode (Justify m) = nd" using m(4) by (simp add: vcert_def)
    ultimately show ?thesis
      using step_commit [of "N i" "env\<lparr>Clock := 0\<rparr>" m None] d n i assms(4)
      by (auto simp: voted_def node_at_def round_kept_def node_atD(9) [OF a])
  qed
  with net_deliver_others [OF assms(2,3,5) m(3), where \<Phi> = ?P] show ?thesis by simp
qed

text \<open>A node that has decided the block \<open>b\<close> with hash \<open>h\<close> in view \<open>v\<close>.\<close>

definition newview_msg :: "nat \<Rightarrow> nat \<Rightarrow> QC \<Rightarrow> nat \<Rightarrow> Msg" where
  "newview_msg n v q i = nil_Msg\<lparr>MType := HS_NEW_VIEW, m_ViewNumber := int v, SendNode := node_name (int i), Justify := q,
     ReciNode := node_name (int (v mod n))\<rparr>"

definition opened :: "nat \<Rightarrow> (nat \<Rightarrow> tss_Signer) \<Rightarrow> nat \<Rightarrow> QC \<Rightarrow> QC \<Rightarrow> Block \<Rightarrow> bytes \<Rightarrow> BlockStore \<Rightarrow> nat \<Rightarrow> BCHotstuff \<Rightarrow> bool" where
  "opened n sg v q1 q2 b h bs i t \<longleftrightarrow> node_at n sg v i t \<and> CurPhase t = HS_NEW_VIEW \<and> NewViewMsgs t = [] \<and> PrepareVotes t = [] \<and>
     PreCommitVotes t = [] \<and> CommitVotes t = [] \<and> CurProposal t = nil_Proposal \<and> PrepareQC t = q1 \<and> LockedQC t = q2 \<and>
     newview_msg n v q1 i \<in> set (sent t) \<and> BlkStore t = StoreBlock (bs\<lparr>CurBlkHash := h, CurProposalBlk := b\<rparr>) b"

lemma NextView_view_at: "0 < n \<Longrightarrow> NextView (view_at n v) = Some (view_at n (Suc v))"
proof -
  assume n: "0 < n"
  have "(int (v mod n) + 1) mod int n = int (Suc v mod n)"
    by (metis mod_Suc_eq of_nat_Suc of_nat_mod add.commute)
  then show ?thesis using NextView_ok [of "view_at n v"] n by (simp add: view_ok_def view_at_def)
qed

lemma net_decide:
  assumes "hs_net env n M N" "l < n" "m \<in> set (sent (N l))"
    and nodes: "\<And>i. i < n \<Longrightarrow> node_at n sg v i (N i) \<and> CurPhase (N i) = HS_COMMIT \<and> \<not> Proposal_IsEmpty (CurProposal (N i)) \<and>
      BlkStore (N i) = (bs i)\<lparr>CurProposalBlk := blk, CurBlkHash := Block_Hash env blk\<rparr> \<and> PrepareQC (N i) = q1 \<and> LockedQC (N i) = q2"
    and m: "MType m = HS_DECIDE" "m_ViewNumber m = int v" "ReciNode m = ''Broadcast''" "vcert env n sg v HS_COMMIT nd (Justify m)"
  defines "b \<equiv> blk\<lparr>BlkHdr := (BlkHdr blk)\<lparr>bh_Validation := qc_Sign (Justify m)\<rparr>\<rparr>"
  shows "\<exists>N'. hs_net env n M N' \<and> (\<forall>i < n. opened n sg (Suc v) q1 q2 b (Block_Hash env blk) (bs i) i (N' i) \<and> LastRoundMsg (N' i) = CurRoundMsg (N i))"
proof -
  let ?P = "\<lambda>i t. set (sent (N i)) \<subseteq> set (sent t) \<and> opened n sg (Suc v) q1 q2 b (Block_Hash env blk) (bs i) i t \<and> LastRoundMsg t = CurRoundMsg (N i)"
  have step: "\<exists>t. HandleBMsg (env\<lparr>Clock := 0\<rparr>) (N i) (Some m) None = Some t \<and> ?P i t" if i: "i < n" for i
  proof -
    have a: "node_at n sg v i (N i)" using nodes [OF i] by simp
    note d = node_atD(1-8) [OF a]
    have f: "fits (env\<lparr>Clock := 0\<rparr>) (N i) m HS_DECIDE HS_COMMIT" using vcert_fits [OF m(4) a i m(1,2)] by simp
    have "NextView (hs_View (N i)) = Some (view_at n (Suc v))" using NextView_view_at [of n v] d(2) i by simp
    moreover have "decided_block (N i) m = b" using nodes [OF i] by (simp add: decided_block_def b_def Let_def)
    ultimately show ?thesis
      using step_decide [OF d(1) _ f, of None] nodes [OF i] d
      by (auto simp: opened_def node_at_def round_kept_def newview_msg_def LeaderName_node_name add.commute)
  qed
  have "\<exists>N'. hs_net env n M N' \<and> (\<forall>i \<in> {..<n}. ?P i (N' i)) \<and> (\<forall>i. i \<notin> {..<n} \<longrightarrow> N' i = N i)"
    by (rule net_deliver_all [OF _ _ assms(1,2,3) m(3)]) (use step assms(3) in auto)
  then show ?thesis by auto
qed

text \<open>The next leader has the messages of a quorum and waits for a batch.\<close>

lemma net_newview:
  assumes "2 \<le> n" "hs_net env n M N" "l < n" "l = v mod n"
    and nodes: "\<And>i. i < n \<Longrightarrow> opened n sg v q1 q2 b h (bs i) i (N i)"
    and last: "LastRoundMsg (N l) \<noteq> []" "m_ViewNumber (last (LastRoundMsg (N l))) = int v - 1"
    and q: "vcert env n sg (v - 1) HS_PREPARE nd q1" "0 < v"
  shows "\<exists>ms. hs_net env n M (N(l := (N l)\<lparr>NewViewMsgs := ms, CurPhase := HS_WAITING\<rparr>)) \<and> above_thr (int n) ms \<and> (\<forall>m \<in> set ms. Justify m = q1)"
proof -
  let ?Q = "quorum n l" and ?vote = "newview_msg n v q1"
  note Q = quorum_ok [OF assms(1,3)]
  have o: "opened n sg v q1 q2 b h (bs l) l (N l)" by (rule nodes [OF assms(3)])
  then have a: "node_at n sg v l (N l)" by (simp add: opened_def)
  note d = node_atD(1-8) [OF a]
  have vote: "MType (?vote x) = HS_NEW_VIEW" "m_ViewNumber (?vote x) = int v" "Justify (?vote x) = q1" "ReciNode (?vote x) = node_name (int l)" for x
    by (simp_all add: newview_msg_def assms(4))
  let ?s = "\<lambda>ms. (N l)\<lparr>NewViewMsgs := ms\<rparr>"
  have pre: "bhs_IsLeader (?s ms)" "CurPhase (?s ms) = HS_NEW_VIEW" "m_ViewNumber (?vote x) = ViewNumber (hs_View (?s ms))"
    "LastRoundMsg (?s ms) \<noteq> []" "CurProposal (?s ms) = nil_Proposal" "\<not> ViewChangeSendFlag (?s ms)" for ms x
    using d(2,5,8) o last(1) assms(4) by (simp_all add: opened_def newview_msg_def)
  have num: "NodesNum (hs_View (?s ms)) = int n" for ms using d(2) by simp
  have chk: "CheckQC (env\<lparr>Clock := 0\<rparr>) (?s ms) (?vote x) HS_PREPARE (m_ViewNumber (last (LastRoundMsg (?s ms))))" for ms x
    using q last(2) d(4) assms(3) by (auto simp: vcert_def CheckQC_True MatchingQC_def newview_msg_def ThresholdSignVerify_def)
  note nv = newview_step [OF pre(1,2) vote(1) pre(3,4) chk, unfolded num]
  have step: "\<not> above_thr (int n) (ms @ [?vote x]) \<Longrightarrow> HandleBMsg (env\<lparr>Clock := 0\<rparr>) (?s ms) (Some (?vote x)) None = Some (?s (ms @ [?vote x]))"
    "above_thr (int n) (ms @ [?vote x]) \<Longrightarrow> HandleBMsg (env\<lparr>Clock := 0\<rparr>) (?s ms) (Some (?vote x)) None =
      Some ((?s (ms @ [?vote x]))\<lparr>CurPhase := HS_WAITING\<rparr>)" for ms x
    using nv(1) [of ms x None] nv(2) [OF _ pre(5,6), of ms x None] by simp_all
  have "hs_net env n M (N(l := (N l)\<lparr>NewViewMsgs := map ?vote ?Q, CurPhase := HS_WAITING\<rparr>))"
  proof (rule net_gather [where upd = "\<lambda>ms. (N l)\<lparr>NewViewMsgs := ms\<rparr>" and vote = ?vote, OF assms(2,3) _ Q(4)])
    show "N l = (N l)\<lparr>NewViewMsgs := []\<rparr>" using o by (simp add: opened_def)
    show "x < n \<and> x \<noteq> l \<and> ?vote x \<in> set (sent (N x)) \<and> ReciNode (?vote x) = node_name (int l)" if "x \<in> set ?Q" for x
      using Q(2) [OF that] nodes [of x] vote(4) by (simp add: opened_def)
    show "HandleBMsg (env\<lparr>Clock := 0\<rparr>) ((N l)\<lparr>NewViewMsgs := map ?vote (take k ?Q)\<rparr>) (Some (?vote (?Q ! k))) None =
        Some ((N l)\<lparr>NewViewMsgs := map ?vote (take (Suc k) ?Q)\<rparr>)" if "Suc k < length ?Q" for k
    proof -
      have "\<not> above_thr (int n) (map ?vote (take k ?Q) @ [?vote (?Q ! k)])" using that by (subst Q(5) [OF refl]) simp
      from step(1) [OF this] that show ?thesis by (simp add: snoc_maps)
    qed
    have "above_thr (int n) (map ?vote (butlast ?Q) @ [?vote (last ?Q)])" using Q(4) by (subst Q(5) [OF refl]) simp
    from step(2) [OF this] show "HandleBMsg (env\<lparr>Clock := 0\<rparr>) ((N l)\<lparr>NewViewMsgs := map ?vote (butlast ?Q)\<rparr>) (Some (?vote (last ?Q))) None =
        Some ((N l)\<lparr>NewViewMsgs := map ?vote ?Q, CurPhase := HS_WAITING\<rparr>)" by (simp add: snoc_maps Q(4))
  qed
  moreover have "above_thr (int n) (map ?vote ?Q)" by (subst Q(5) [OF refl]) simp
  ultimately show ?thesis using vote(3) by (intro exI [of _ "map ?vote ?Q"]) auto
qed

section \<open>A round of the network\<close>

text \<open>The leader of view \<open>v\<close> in phase \<open>ph\<close>, with the certificates it has made.\<close>

definition leading :: "nat \<Rightarrow> (nat \<Rightarrow> tss_Signer) \<Rightarrow> nat \<Rightarrow> hs_StateType \<Rightarrow> HsNode \<Rightarrow> BlockStore \<Rightarrow> BCHotstuff \<Rightarrow> bool" where
  "leading n sg v ph nd bs t \<longleftrightarrow> node_at n sg v (v mod n) t \<and> CurPhase t = ph \<and> hs_HsNode t = nd \<and> BlkStore t = bs \<and> \<not> Proposal_IsEmpty (CurProposal t)"

lemma post_more [simp]:
  "ViewChangeSendFlag (post s m) = ViewChangeSendFlag s" "PreCommitVotes (post s m) = PreCommitVotes s" "CommitVotes (post s m) = CommitVotes s"
  "hs_inv s \<Longrightarrow> hs_inv (post s m)" "hs_inv s \<Longrightarrow> m \<in> set (sent (post s m))"
  by (auto simp: post_def hs_inv_def sent_def)

lemma leading_posts:
  "leading n sg v HS_PREPARE nd bs t \<Longrightarrow> let u = post (t\<lparr>PrepareVotes := ms, PrepareQC := q, CurPhase := HS_PRE_COMMIT\<rparr>) m in
     leading n sg v HS_PRE_COMMIT nd bs u \<and> PrepareQC u = q \<and> PreCommitVotes u = PreCommitVotes t \<and> CommitVotes u = CommitVotes t \<and> m \<in> set (sent u)"
  "leading n sg v HS_PRE_COMMIT nd bs t \<Longrightarrow> let u = post (t\<lparr>PreCommitVotes := ms, LockedQC := q, CurPhase := HS_COMMIT\<rparr>) m in
     leading n sg v HS_COMMIT nd bs u \<and> LockedQC u = q \<and> PrepareQC u = PrepareQC t \<and> CommitVotes u = CommitVotes t \<and> m \<in> set (sent u)"
  "leading n sg v HS_COMMIT nd bs t \<Longrightarrow> let u = post (t\<lparr>CommitVotes := ms\<rparr>) m in
     leading n sg v HS_COMMIT nd bs u \<and> PrepareQC u = PrepareQC t \<and> LockedQC u = LockedQC t \<and> m \<in> set (sent u)"
  by (auto simp: leading_def node_at_def Let_def post_def hs_inv_def sent_def)

text \<open>From the leader's proposal to the certificates of all phases.\<close>

lemma net_phases:
  assumes "tss_ok env n sg" "2 \<le> n" "l < n" "l = v mod n" "hs_net env n M N" "leading n sg v HS_PREPARE (m_HsNode m) B (N l)"
    and votes: "PrepareVotes (N l) = []" "PreCommitVotes (N l) = []" "CommitVotes (N l) = []" and sent: "m \<in> set (sent (N l))"
    and m: "MType m = HS_PREPARE" "m_ViewNumber m = int v" "ReciNode m = ''Broadcast''" "slices (Commands (m_Proposal m)) \<noteq> []"
    and B: "B = (BlkStore (M l))\<lparr>CurProposalBlk := m_Block m, CurBlkHash := Block_Hash env (m_Block m)\<rparr>"
    and nodes: "\<And>i. i < n \<Longrightarrow> i \<noteq> l \<Longrightarrow> N i = M i \<and> node_at n sg v i (M i) \<and> CurPhase (M i) = HS_NEW_VIEW \<and> (v = 0 \<or> CheckNewHsNode (M i) m)"
  shows "\<exists>N' q1 q2 m'. hs_net env n M N' \<and> vcert env n sg v HS_PREPARE (m_HsNode m) q1 \<and> vcert env n sg v HS_PRE_COMMIT (m_HsNode m) q2 \<and>
    m' \<in> set (sent (N' l)) \<and> MType m' = HS_DECIDE \<and> m_ViewNumber m' = int v \<and> ReciNode m' = ''Broadcast'' \<and>
    vcert env n sg v HS_COMMIT (m_HsNode m) (Justify m') \<and>
    (\<forall>i < n. node_at n sg v i (N' i) \<and> CurPhase (N' i) = HS_COMMIT \<and> \<not> Proposal_IsEmpty (CurProposal (N' i)) \<and>
      BlkStore (N' i) = (BlkStore (M i))\<lparr>CurProposalBlk := m_Block m, CurBlkHash := Block_Hash env (m_Block m)\<rparr> \<and>
      PrepareQC (N' i) = q1 \<and> LockedQC (N' i) = q2) \<and>
    (\<forall>i < n. i \<noteq> l \<longrightarrow> CurRoundMsg (N' i) \<noteq> [] \<and> m_ViewNumber (last (CurRoundMsg (N' i))) = int v)"
proof -
  let ?nd = "m_HsNode m" and ?blk = "m_Block m"
  have cm: "MType (cert_msg s ty q) = ty" "m_ViewNumber (cert_msg s ty q) = ViewNumber (hs_View s)" "Justify (cert_msg s ty q) = q"
    "ReciNode (cert_msg s ty q) = ''Broadcast''" for s ty q by (simp_all add: cert_msg_def)
  have lead: "node_at n sg v l t \<and> CurPhase t = ph \<and> hs_HsNode t = ?nd \<and> ViewNumber (hs_View t) = int v" if "leading n sg v ph ?nd B t" for t ph
    using that assms(4) by (auto simp: leading_def node_at_def)
  obtain N2 where N2: "hs_net env n M N2" "N2 l = N l" "\<forall>i < n. i \<noteq> l \<longrightarrow> voted env n sg v HS_PREPARE_VOTE ?nd ?blk (BlkStore (M i)) i (N2 i)"
    using net_prepare [OF assms(1,5,3,4) sent _ m] nodes by auto
  have L2: "leading n sg v HS_PREPARE ?nd B (N2 l)" using assms(6) N2(2) by simp
  obtain q1 ms1 where q1: "vcert env n sg v HS_PREPARE ?nd q1"
    "hs_net env n M (N2(l := post ((N2 l)\<lparr>PrepareVotes := ms1, PrepareQC := q1, CurPhase := HS_PRE_COMMIT\<rparr>) (cert_msg (N2 l) HS_PRE_COMMIT q1)))"
    using net_prepare_votes [OF assms(1-3) _ assms(4) _ N2(1)] lead [OF L2] N2 votes by (auto simp: voted_def)
  define t3 where "t3 = post ((N2 l)\<lparr>PrepareVotes := ms1, PrepareQC := q1, CurPhase := HS_PRE_COMMIT\<rparr>) (cert_msg (N2 l) HS_PRE_COMMIT q1)"
  have L3: "leading n sg v HS_PRE_COMMIT ?nd B t3" "PrepareQC t3 = q1" "PreCommitVotes t3 = []" "CommitVotes t3 = []" "cert_msg (N2 l) HS_PRE_COMMIT q1 \<in> set (sent t3)"
    using leading_posts(1) [OF L2, where ms = ms1 and q = q1 and m = "cert_msg (N2 l) HS_PRE_COMMIT q1"] votes N2(2) by (simp_all add: Let_def t3_def)
  obtain N4 where N4: "hs_net env n M N4" "N4 l = t3"
    "\<forall>i < n. i \<noteq> l \<longrightarrow> voted env n sg v HS_PRE_COMMIT_VOTE ?nd ?blk (BlkStore (M i)) i (N4 i) \<and> PrepareQC (N4 i) = q1"
    using net_precommit [OF assms(1) q1(2) [folded t3_def] assms(3,4), of "cert_msg (N2 l) HS_PRE_COMMIT q1" ?nd ?blk "\<lambda>i. BlkStore (M i)"]
      L3(5) N2(3) q1(1) cm lead [OF L2] by auto
  obtain q2 ms2 where q2: "vcert env n sg v HS_PRE_COMMIT ?nd q2"
    "hs_net env n M (N4(l := post ((N4 l)\<lparr>PreCommitVotes := ms2, LockedQC := q2, CurPhase := HS_COMMIT\<rparr>) (cert_msg (N4 l) HS_COMMIT q2)))"
    using net_precommit_votes [OF assms(1-3) _ assms(4) _ N4(1)] lead [OF L3(1)] N4 L3 by (auto simp: voted_def)
  define t5 where "t5 = post (t3\<lparr>PreCommitVotes := ms2, LockedQC := q2, CurPhase := HS_COMMIT\<rparr>) (cert_msg t3 HS_COMMIT q2)"
  have L5: "leading n sg v HS_COMMIT ?nd B t5" "PrepareQC t5 = q1" "LockedQC t5 = q2" "CommitVotes t5 = []" "cert_msg t3 HS_COMMIT q2 \<in> set (sent t5)"
    using leading_posts(2) [OF L3(1), where ms = ms2 and q = q2 and m = "cert_msg t3 HS_COMMIT q2"] L3 by (simp_all add: Let_def t5_def)
  obtain N6 where N6: "hs_net env n M N6" "N6 l = t5"
    "\<forall>i < n. i \<noteq> l \<longrightarrow> voted env n sg v HS_COMMIT_VOTE ?nd ?blk (BlkStore (M i)) i (N6 i) \<and> PrepareQC (N6 i) = q1 \<and> LockedQC (N6 i) = q2 \<and>
       CurRoundMsg (N6 i) \<noteq> [] \<and> m_ViewNumber (last (CurRoundMsg (N6 i))) = int v"
    using net_commit [OF assms(1) q2(2) [unfolded N4(2), folded t5_def] assms(3,4), of "cert_msg t3 HS_COMMIT q2" ?nd ?blk "\<lambda>i. BlkStore (M i)" q1]
      L5(5) N4(3) q2(1) cm lead [OF L3(1)] by auto
  obtain q3 ms3 where q3: "vcert env n sg v HS_COMMIT ?nd q3"
    "hs_net env n M (N6(l := post ((N6 l)\<lparr>CommitVotes := ms3\<rparr>) (cert_msg (N6 l) HS_DECIDE q3)))"
    using net_commit_votes [OF assms(1-3) _ assms(4) _ N6(1)] lead [OF L5(1)] N6 L5 by (auto simp: voted_def)
  define t7 where "t7 = post (t5\<lparr>CommitVotes := ms3\<rparr>) (cert_msg t5 HS_DECIDE q3)"
  have L7: "leading n sg v HS_COMMIT ?nd B t7" "PrepareQC t7 = q1" "LockedQC t7 = q2" "cert_msg t5 HS_DECIDE q3 \<in> set (sent t7)"
    using leading_posts(3) [OF L5(1), where ms = ms3 and m = "cert_msg t5 HS_DECIDE q3"] L5 by (simp_all add: Let_def t7_def)
  show ?thesis
    using q1(1) q2(1) q3 [unfolded N6(2), folded t7_def] L7 lead [OF L5(1)] cm N6(3) B assms(4)
    by (intro exI [of _ "N6(l := t7)"] exI [of _ q1] exI [of _ q2] exI [of _ "cert_msg t5 HS_DECIDE q3"])
      (auto simp: leading_def voted_def)
qed

text \<open>
  The network at the start of view \<open>v\<close>: every node has stored \<open>v\<close> blocks, the last with the hash \<open>h\<close>;
  the leader waits for a batch, all its new-view messages having the same certificate, whose node
  all others have locked.
\<close>

definition fresh :: "nat \<Rightarrow> (nat \<Rightarrow> tss_Signer) \<Rightarrow> nat \<Rightarrow> bytes \<Rightarrow> nat \<Rightarrow> BCHotstuff \<Rightarrow> bool" where
  "fresh n sg v h i s \<longleftrightarrow> node_at n sg v i s \<and> bs_Height (BlkStore s) = int v \<and> bs_PreBlkHash (BlkStore s) = h \<and>
     CurProposal s = nil_Proposal \<and> PrepareVotes s = [] \<and> PreCommitVotes s = [] \<and> CommitVotes s = [] \<and>
     CurPhase s = (if i = v mod n then HS_WAITING else HS_NEW_VIEW)"

definition ready :: "nat \<Rightarrow> (nat \<Rightarrow> tss_Signer) \<Rightarrow> nat \<Rightarrow> bytes \<Rightarrow> (nat \<Rightarrow> BCHotstuff) \<Rightarrow> bool" where
  "ready n sg v h N \<longleftrightarrow> (\<forall>i < n. fresh n sg v h i (N i)) \<and> NewViewMsgs (N (v mod n)) \<noteq> [] \<and>
     (above_thr (int n) (NewViewMsgs (N (v mod n))) \<or> IgnoreCheckQC (N (v mod n))) \<and>
     (\<exists>J. (\<forall>m \<in> set (NewViewMsgs (N (v mod n))). Justify m = J) \<and>
        (v = 0 \<or> CurHash (qc_HsNode J) \<noteq> None \<and> (\<forall>i < n. CurHash (qc_HsNode (LockedQC (N i))) = CurHash (qc_HsNode J))))"

lemma store_get_StoreBlock:
  "bh_Height (BlkHdr c) = k \<Longrightarrow> store_get (StoreBlock (bs\<lparr>CurBlkHash := h, CurProposalBlk := b\<rparr>) c) j = (if j = k then Some c else store_get bs j)"
  by (auto simp: store_get_def ReadBlock_def StoreBlock_files)

lemma hs_round:
  assumes "tss_ok env n sg" "2 \<le> n" "ready n sg v h M" "(reqs :: BCRequest list) \<noteq> []"
  shows "\<exists>N b. hs_net env n M N \<and> ready n sg (Suc v) (Block_Hash env b) N \<and> bh_PreBlkHash (BlkHdr b) = h \<and>
    bd_Trans (BlkData b) = map (bytes2str \<circ> take 128 \<circ> rq_Cmd) reqs \<and>
    (\<forall>i < n. \<forall>k. store_get (BlkStore (N i)) k = (if k = int v then Some b else store_get (BlkStore (M i)) k))"
proof -
  let ?l = "v mod n" and ?l' = "Suc v mod n"
  have l: "?l < n" "?l' < n" using assms(2) by simp_all
  then have l': "?l' \<noteq> ?l" using assms(2) by (auto simp: mod_Suc split: if_splits)
  obtain J where J: "\<forall>m \<in> set (NewViewMsgs (M ?l)). Justify m = J"
    "v = 0 \<or> CurHash (qc_HsNode J) \<noteq> None \<and> (\<forall>i < n. CurHash (qc_HsNode (LockedQC (M i))) = CurHash (qc_HsNode J))"
    using assms(3) by (auto simp: ready_def)
  have fr: "fresh n sg v h i (M i)" if "i < n" for i using assms(3) that by (simp add: ready_def)
  have a: "node_at n sg v ?l (M ?l)" using fr [OF l(1)] by (simp add: fresh_def)
  have w: "CurPhase (M ?l) = HS_WAITING" "PrepareVotes (M ?l) = []" "PreCommitVotes (M ?l) = []" "CommitVotes (M ?l) = []"
    using fr [OF l(1)] by (simp_all add: fresh_def)
  have nv: "above_thr (NodesNum (hs_View (M ?l))) (NewViewMsgs (M ?l)) \<or> IgnoreCheckQC (M ?l)" "NewViewMsgs (M ?l) \<noteq> []"
    using assms(3) node_atD(2) [OF a] by (auto simp: ready_def)
  obtain s1 m where s1: "hs_step env (M ?l) (Request 0 0 None reqs) = Some s1" "hs_inv s1" "CurPhase s1 = HS_PREPARE" "sent s1 = sent (M ?l) @ [m]"
    "proposed (M ?l) J reqs env m s1" "hs_View s1 = hs_View (M ?l)" "ConsId s1 = ConsId (M ?l)" "ThresholdSigner s1 = ThresholdSigner (M ?l)"
    "PrepareVotes s1 = PrepareVotes (M ?l)" "PreCommitVotes s1 = PreCommitVotes (M ?l)" "CommitVotes s1 = CommitVotes (M ?l)"
    "\<not> Proposal_IsEmpty (CurProposal s1)" "ViewChangeSendFlag s1 = ViewChangeSendFlag (M ?l)"
    using leader_request [OF node_atD(1) [OF a] w(1) assms(4) nv J(1), of env 0 0 None] by blast
  note pr = s1(5) [unfolded proposed_def]
  have net1: "hs_net env n M (M(?l := s1))" using hs_net.local [OF hs_net.start [of env n M] l(1), of "Request 0 0 None reqs" s1] s1(1) by simp
  have start: "leading n sg v HS_PREPARE (m_HsNode m) ((BlkStore (M ?l))\<lparr>CurProposalBlk := m_Block m, CurBlkHash := Block_Hash env (m_Block m)\<rparr>) ((M(?l := s1)) ?l)"
    using a s1 pr by (simp add: leading_def node_at_def)
  have nodes: "node_at n sg v i (M i) \<and> CurPhase (M i) = HS_NEW_VIEW \<and> (v = 0 \<or> CheckNewHsNode (M i) m)" if "i < n" "i \<noteq> ?l" for i
    using fr [OF that(1)] that J(2) pr by (auto simp: fresh_def CheckNewHsNode_def SafeNode_def)
  let ?h = "Block_Hash env (m_Block m)"
  obtain N q1 q2 m' where N: "hs_net env n M N" "vcert env n sg v HS_PREPARE (m_HsNode m) q1" "vcert env n sg v HS_PRE_COMMIT (m_HsNode m) q2"
    "m' \<in> set (sent (N ?l))" "MType m' = HS_DECIDE" "m_ViewNumber m' = int v" "ReciNode m' = ''Broadcast''"
    "vcert env n sg v HS_COMMIT (m_HsNode m) (Justify m')"
    "\<And>i. i < n \<Longrightarrow> node_at n sg v i (N i) \<and> CurPhase (N i) = HS_COMMIT \<and> \<not> Proposal_IsEmpty (CurProposal (N i)) \<and>
      BlkStore (N i) = (BlkStore (M i))\<lparr>CurProposalBlk := m_Block m, CurBlkHash := ?h\<rparr> \<and> PrepareQC (N i) = q1 \<and> LockedQC (N i) = q2"
    "\<And>i. i < n \<Longrightarrow> i \<noteq> ?l \<Longrightarrow> CurRoundMsg (N i) \<noteq> [] \<and> m_ViewNumber (last (CurRoundMsg (N i))) = int v"
    using net_phases [OF assms(1,2) l(1) refl net1 start _ _ _ _ _ _ _ _ refl] s1 pr nodes assms(4) node_atD(2) [OF a] w(2-4) by auto
  define b where "b = (m_Block m)\<lparr>BlkHdr := (BlkHdr (m_Block m))\<lparr>bh_Validation := qc_Sign (Justify m')\<rparr>\<rparr>"
  obtain N8 where N8: "hs_net env n M N8"
    "\<And>i. i < n \<Longrightarrow> opened n sg (Suc v) q1 q2 b ?h (BlkStore (M i)) i (N8 i) \<and> LastRoundMsg (N8 i) = CurRoundMsg (N i)"
    using net_decide [OF N(1) l(1) N(4) N(9) N(5-8), folded b_def] by blast
  obtain ms where ms: "hs_net env n M (N8(?l' := (N8 ?l')\<lparr>NewViewMsgs := ms, CurPhase := HS_WAITING\<rparr>))" "above_thr (int n) ms" "\<forall>m \<in> set ms. Justify m = q1"
    using net_newview [OF assms(2) N8(1) l(2) refl N8(2) [THEN conjunct1], of "m_HsNode m"] N8(2) [OF l(2)] N(10) [OF l(2) l'] N(2) by auto
  let ?N = "N8(?l' := (N8 ?l')\<lparr>NewViewMsgs := ms, CurPhase := HS_WAITING\<rparr>)"
  have b: "Block_Hash env b = ?h" "bh_Height (BlkHdr b) = int v" "bh_PreBlkHash (BlkHdr b) = h" "bd_Trans (BlkData b) = map (bytes2str \<circ> take 128 \<circ> rq_Cmd) reqs"
    using pr fr [OF l(1)] by (simp_all add: b_def Block_Hash_def fresh_def)
  have ne: "ms \<noteq> []" using ms(2) quorum_ok(4,5) [OF assms(2) l(2)] by (metis le_zero_eq length_0_conv list.size(3))
  have "fresh n sg (Suc v) ?h i (?N i)" if "i < n" for i
    using N8(2) [OF that] fr [OF that] ne by (auto simp: fresh_def opened_def node_at_def hs_inv_def)
  moreover have "CurHash (qc_HsNode q1) = ?h" "CurHash (qc_HsNode (LockedQC (?N i))) = ?h" if "i < n" for i
    using N8(2) [OF that] N(2,3) pr by (auto simp: vcert_def opened_def)
  then have "\<exists>J. (\<forall>m \<in> set (NewViewMsgs (?N ?l')). Justify m = J) \<and>
      (Suc v = 0 \<or> CurHash (qc_HsNode J) \<noteq> None \<and> (\<forall>i < n. CurHash (qc_HsNode (LockedQC (?N i))) = CurHash (qc_HsNode J)))"
    using ms(3) l(2) by (intro exI [of _ q1]) (auto simp: Block_Hash_def)
  ultimately have "ready n sg (Suc v) (Block_Hash env b) ?N" using ms(2) ne by (simp add: ready_def b(1))
  moreover have "store_get (BlkStore (?N i)) k = (if k = int v then Some b else store_get (BlkStore (M i)) k)" if "i < n" for i k
  proof -
    have "BlkStore (?N i) = BlkStore (N8 i)" by simp
    also have "\<dots> = StoreBlock ((BlkStore (M i))\<lparr>CurBlkHash := ?h, CurProposalBlk := b\<rparr>) b"
      using N8(2) [OF that] by (simp add: opened_def)
    finally show ?thesis using store_get_StoreBlock [OF b(2)] by simp
  qed
  ultimately show ?thesis using ms(1) b by blast
qed

lemma hs_start_ready:
  assumes "0 < n"
  shows "ready n sg 0 (Some (EmptyHash (SM3 env))) (\<lambda>i. hs_start env (int i) (int n) path (sg i))"
proof -
  let ?s = "\<lambda>i. NewBCHotstuff env 5000 (int i) (int n) path (Some []) (sg i)"
  have l: "bhs_IsLeader (?s i) \<longleftrightarrow> i = 0" for i by (simp add: IsLeader_iff NewBCHotstuff_def)
  have "fresh n sg 0 (Some (EmptyHash (SM3 env))) i (hs_start env (int i) (int n) path (sg i))" for i
  proof -
    have "hs_inv (hs_start env (int i) (int n) path (sg i))" using assms by (intro hs_start_inv) simp
    moreover have "hs_start env (int i) (int n) path (sg i) = (if i = 0 then bhs_InitLeader env (?s i) else ?s i)"
      by (simp add: hs_start_def Let_def l)
    ultimately show ?thesis
      by (cases "i = 0") (simp_all add: fresh_def node_at_def view_at_def NewBCHotstuff_def bhs_InitLeader_def Let_def)
  qed
  moreover have "NewViewMsgs (hs_start env 0 (int n) path (sg 0)) = [nil_Msg\<lparr>MType := HS_NEW_VIEW, m_ViewNumber := 0, SendNode := ''r_'' @ Itoa 0,
      m_HsNode := \<lparr>CurHash = Some (EmptyHash (SM3 env)), ParentHash = Some (EmptyHash (SM3 env))\<rparr>, Justify := nil_QC, PartialSig := None\<rparr>]"
    "IgnoreCheckQC (hs_start env 0 (int n) path (sg 0))"
    using l [of 0] by (simp_all add: hs_start_def Let_def) (simp_all add: NewBCHotstuff_def bhs_InitLeader_def Let_def)
  ultimately show ?thesis by (simp add: ready_def)
qed

text \<open>A chain of blocks for some lists of commands: block k holds list k, and the hash of the block
before it.\<close>

definition chained_to :: "'a env_scheme \<Rightarrow> string list list \<Rightarrow> Block list \<Rightarrow> bool" where
  "chained_to env cmds chain \<longleftrightarrow> length chain = length cmds \<and>
    (\<forall>k < length cmds. bd_Trans (BlkData (chain ! k)) = cmds ! k \<and>
       bh_PreBlkHash (BlkHdr (chain ! k)) = (if k = 0 then Some (EmptyHash (SM3 env)) else Block_Hash env (chain ! (k - 1))))"

definition last_hash :: "'a env_scheme \<Rightarrow> Block list \<Rightarrow> bytes" where
  "last_hash env chain = (if chain = [] then Some (EmptyHash (SM3 env)) else Block_Hash env (last chain))"

lemma chained_to_snoc:
  assumes "chained_to env bs chain" "bh_PreBlkHash (BlkHdr c) = last_hash env chain"
    "bd_Trans (BlkData c) = b"
  shows "chained_to env (bs @ [b]) (chain @ [c])"
  using assms unfolding chained_to_def last_hash_def
  by (auto simp: nth_append less_Suc_eq last_conv_nth)

text \<open>The commands of a batch as basic HotStuff puts them into a block: 128 bytes of each.\<close>

definition hs_cmds :: "BCRequest list \<Rightarrow> string list" where
  "hs_cmds reqs = map (bytes2str \<circ> take 128 \<circ> rq_Cmd) reqs"

lemma hs_network_rounds:
  assumes "2 \<le> n" "tss_ok env n sg" "\<forall>b \<in> set batches. b \<noteq> []"
  shows "\<exists>N chain. hs_net env n (\<lambda>i. hs_start env (int i) (int n) path (sg i)) N \<and>
    ready n sg (length batches) (last_hash env chain) N \<and> chained_to env (map hs_cmds batches) chain \<and>
    (\<forall>i < n. \<forall>k < length batches. store_get (BlkStore (N i)) (int k) = Some (chain ! k))"
  using assms(3)
proof (induction batches rule: rev_induct)
  let ?M = "\<lambda>i. hs_start env (int i) (int n) path (sg i)"
  case Nil
  have "ready n sg 0 (Some (EmptyHash (SM3 env))) ?M" using assms(1) by (intro hs_start_ready) simp
  then show ?case by (intro exI [of _ ?M] exI [of _ "[]"]) (simp add: hs_net.start last_hash_def chained_to_def)
next
  let ?M = "\<lambda>i. hs_start env (int i) (int n) path (sg i)"
  case (snoc b bs)
  from snoc.prems have b: "b \<noteq> []" "\<forall>b \<in> set bs. b \<noteq> []" by simp_all
  from snoc.IH [OF b(2)] obtain N chain where N: "hs_net env n ?M N" "ready n sg (length bs) (last_hash env chain) N"
    "chained_to env (map hs_cmds bs) chain" "\<forall>i < n. \<forall>k < length bs. store_get (BlkStore (N i)) (int k) = Some (chain ! k)" by blast
  from hs_round [OF assms(2,1) N(2) b(1)] obtain N' c where c: "hs_net env n N N'" "ready n sg (Suc (length bs)) (Block_Hash env c) N'"
    "bh_PreBlkHash (BlkHdr c) = last_hash env chain" "bd_Trans (BlkData c) = map (bytes2str \<circ> take 128 \<circ> rq_Cmd) b"
    "\<forall>i < n. \<forall>k. store_get (BlkStore (N' i)) k = (if k = int (length bs) then Some c else store_get (BlkStore (N i)) k)" by blast
  have "hs_net env n ?M N'" by (rule hs_net_trans [OF c(1) N(1)])
  moreover have "ready n sg (length (bs @ [b])) (last_hash env (chain @ [c])) N'" using c(2) by (simp add: last_hash_def)
  moreover have "chained_to env (map hs_cmds (bs @ [b])) (chain @ [c])"
    using chained_to_snoc [OF N(3) c(3,4)] by (simp add: hs_cmds_def)
  moreover have "length chain = length bs" using N(3) by (simp add: chained_to_def)
  then have "\<forall>i < n. \<forall>k < length (bs @ [b]). store_get (BlkStore (N' i)) (int k) = Some ((chain @ [c]) ! k)"
    using N(4) c(5) by (simp add: nth_append less_Suc_eq)
  ultimately show ?case by blast
qed

text \<open>
  C3 The network makes progress: from the start of \<open>n \<ge> 2\<close> replicas with signers the library has made
  for them, and for any batches of requests, the replicas can exchange messages, all of them really
  sent by one of them, so that every one of them stores the same chain: block k in the file of
  height k, with the commands of batch k (cut to 128 bytes each) and the hash of the block before.
\<close>

theorem hs_network_commits:
  assumes "2 \<le> n" "tss_ok env n sg" "\<forall>b \<in> set batches. b \<noteq> []"
  shows "\<exists>N chain. hs_net env n (\<lambda>i. hs_start env (int i) (int n) path (sg i)) N \<and> chained_to env (map hs_cmds batches) chain \<and>
    (\<forall>i < n. ViewNumber (hs_View (N i)) = int (length batches) \<and>
       (\<forall>k < length batches. store_get (BlkStore (N i)) (int k) = Some (chain ! k)))"
proof -
  obtain N chain where N: "hs_net env n (\<lambda>i. hs_start env (int i) (int n) path (sg i)) N"
    "ready n sg (length batches) (last_hash env chain) N" "chained_to env (map hs_cmds batches) chain"
    "\<forall>i < n. \<forall>k < length batches. store_get (BlkStore (N i)) (int k) = Some (chain ! k)"
    using hs_network_rounds [OF assms] by blast
  moreover have "ViewNumber (hs_View (N i)) = int (length batches)" if "i < n" for i
  proof -
    have "node_at n sg (length batches) i (N i)" using N(2) that by (simp add: ready_def fresh_def)
    from node_atD(2) [OF this] show ?thesis by (simp add: view_at_def)
  qed
  ultimately show ?thesis by blast
qed

definition net_signers :: "nat \<Rightarrow> tss_Signer" where
  "net_signers i = \<lparr>PrivateKey = (int i, []), PublicKey = [], SignNum = 4, Threshold = 3\<rparr>"

lemma net_signers_ok: "tss_ok example_env 4 net_signers"
  by (auto simp: tss_ok_def ThresholdSign_def CombineSig_def ThresholdSignVerify_def net_signers_def example_env_def vote_threshold_def)

theorem hs_network_commits_witness:
  "\<exists>N c d. hs_net example_env 4 (\<lambda>i. hs_start example_env (int i) 4 ''d'' (net_signers i)) N \<and>
     store_get (BlkStore (N 3)) 0 = Some c \<and> store_get (BlkStore (N 3)) 1 = Some d \<and> bh_PreBlkHash (BlkHdr d) = Block_Hash example_env c"
proof -
  let ?r = "\<lparr>rq_Id = ''c_0'', rq_Cmd = [1], rq_Sign = []\<rparr>"
  have "\<forall>b \<in> set [[?r], [?r, ?r]]. b \<noteq> []" by simp
  from hs_network_commits [OF _ net_signers_ok this, of "''d''"] obtain N chain where
    N: "hs_net example_env 4 (\<lambda>i. hs_start example_env (int i) 4 ''d'' (net_signers i)) N"
    "\<And>i k. i < 4 \<Longrightarrow> k < 2 \<Longrightarrow> store_get (BlkStore (N i)) (int k) = Some (chain ! k)"
    "chained_to example_env (map hs_cmds [[?r], [?r, ?r]]) chain"
    by auto
  have "bh_PreBlkHash (BlkHdr (chain ! 1)) = Block_Hash example_env (chain ! 0)"
    using N(3) by (simp add: chained_to_def)
  with N(1) N(2) [of 3 0] N(2) [of 3 1] show ?thesis
    by (intro exI [of _ N] exI [of _ "chain ! 0"] exI [of _ "chain ! 1"]) simp
qed

end
