(* ===== verification/Pbft_Types.thy ===== *)
theory Pbft_Types
  imports Mgmt_Types
begin

text \<open>
  The data of PBFT (orderer/consensus/pbft/types). Messages carry sets of messages, so their type is
  recursive; the elements of those sets are pointers that a decoded message can have nil, and taking
  the bytes of a message with a nil element panics (\<open>None\<close>).
\<close>

datatype p_StateType =
    P_NEW_VIEW | P_PREPREPARE | P_PREPARE | P_COMMIT | P_REPLY | P_VIEW_CHANGE | P_CHECKPOINT
  | P_VC_PREPARE | P_VC_COMMIT | P_VC_REPLY | P_WAITING | P_other byte

fun p_code :: "p_StateType \<Rightarrow> byte" where
  "p_code P_NEW_VIEW = 0"
| "p_code P_PREPREPARE = 1"
| "p_code P_PREPARE = 2"
| "p_code P_COMMIT = 3"
| "p_code P_REPLY = 4"
| "p_code P_VIEW_CHANGE = 5"
| "p_code P_CHECKPOINT = 6"
| "p_code P_VC_PREPARE = 7"
| "p_code P_VC_COMMIT = 8"
| "p_code P_VC_REPLY = 9"
| "p_code P_WAITING = 10"
| "p_code (P_other b) = b"

fun p_String :: "p_StateType \<Rightarrow> string" where
  "p_String P_NEW_VIEW = ''NEW_VIEW''"
| "p_String P_PREPREPARE = ''PREPREPARE''"
| "p_String P_PREPARE = ''PREPARE''"
| "p_String P_COMMIT = ''COMMIT''"
| "p_String P_REPLY = ''REPLY''"
| "p_String P_VIEW_CHANGE = ''VIEW_CHANGE''"
| "p_String P_CHECKPOINT = ''CHECKPOINT''"
| "p_String P_VC_PREPARE = ''VC_PREPARE''"
| "p_String P_VC_COMMIT = ''VC_COMMIT''"
| "p_String P_VC_REPLY = ''VC_REPLY''"
| "p_String P_WAITING = ''WAITING''"
| "p_String (P_other b) = ''''"

definition CHECKPOINTNUM :: int where
  "CHECKPOINTNUM = 10"

section \<open>Proposals\<close>

record p_Proposal =
  pp_Height :: int
  pp_ViewNumber :: int
  pp_PreBlkHash :: bytes
  pp_CurBlkHash :: bytes
  pp_Command :: "byte list list option"

definition nil_p_Proposal :: p_Proposal where
  "nil_p_Proposal = \<lparr>pp_Height = 0, pp_ViewNumber = 0, pp_PreBlkHash = None, pp_CurBlkHash = None,
     pp_Command = None\<rparr>"

definition p_Proposal_IsEmpty :: "p_Proposal \<Rightarrow> bool" where
  "p_Proposal_IsEmpty p \<longleftrightarrow> pp_Height p = 0 \<and> pp_Command p = None"

definition GetCommandsDigest :: "(byte list \<Rightarrow> byte list) \<Rightarrow> p_Proposal \<Rightarrow> bytes" where
  "GetCommandsDigest sm3 p = Some (Sum sm3 (TwoDimByteSlice2OneDimByteSlice (slices (pp_Command p))))"

section \<open>Messages\<close>

record VCMsg =
  vc_MType :: p_StateType
  vc_ViewNumber :: int
  vc_SeqNum :: int
  vc_Digest :: bytes
  vc_Signature :: bytes
  vc_Proposal :: p_Proposal
  vc_SendNode :: string
  vc_ReciNode :: string

record Pm =
  PrePrepareMsg :: "VCMsg option"
  pm_PrepareMsgs :: "VCMsg option list"

text \<open>The fields of \<open>PMsg\<close> but the four sets.\<close>

record pHdr =
  p_MType :: p_StateType
  p_ViewNumber :: int
  p_SeqNum :: int
  p_Digest :: bytes
  p_Signature :: bytes
  p_Proposal_of :: p_Proposal
  p_Block :: Block
  p_SendNode :: string
  p_ReciNode :: string

datatype PMsg = PMsg (hd_of: pHdr) (CSet: "PMsg option list") (PSet: "Pm option list")
  (VSet: "PMsg option list") (OSet: "PMsg option list")

definition nil_pHdr :: pHdr where
  "nil_pHdr = \<lparr>p_MType = P_NEW_VIEW, p_ViewNumber = 0, p_SeqNum = 0, p_Digest = None, p_Signature = None,
     p_Proposal_of = nil_p_Proposal, p_Block = empty_Block, p_SendNode = [], p_ReciNode = []\<rparr>"

definition nil_PMsg :: PMsg where
  "nil_PMsg = PMsg nil_pHdr [] [] [] []"

abbreviation pm_MType :: "PMsg \<Rightarrow> p_StateType" where "pm_MType m \<equiv> p_MType (hd_of m)"
abbreviation pm_ViewNumber :: "PMsg \<Rightarrow> int" where "pm_ViewNumber m \<equiv> p_ViewNumber (hd_of m)"
abbreviation pm_SeqNum :: "PMsg \<Rightarrow> int" where "pm_SeqNum m \<equiv> p_SeqNum (hd_of m)"
abbreviation pm_Digest :: "PMsg \<Rightarrow> bytes" where "pm_Digest m \<equiv> p_Digest (hd_of m)"
abbreviation pm_Signature :: "PMsg \<Rightarrow> bytes" where "pm_Signature m \<equiv> p_Signature (hd_of m)"
abbreviation pm_SendNode :: "PMsg \<Rightarrow> string" where "pm_SendNode m \<equiv> p_SendNode (hd_of m)"

definition with_hdr :: "(pHdr \<Rightarrow> pHdr) \<Rightarrow> PMsg \<Rightarrow> PMsg" where
  "with_hdr f m = PMsg (f (hd_of m)) (CSet m) (PSet m) (VSet m) (OSet m)"

lemma with_hdr_sel [simp]:
  "hd_of (with_hdr f m) = f (hd_of m)" "CSet (with_hdr f m) = CSet m" "PSet (with_hdr f m) = PSet m"
  "VSet (with_hdr f m) = VSet m" "OSet (with_hdr f m) = OSet m"
  by (simp_all add: with_hdr_def)

lemma nil_PMsg_sel [simp]: "hd_of nil_PMsg = nil_pHdr" "CSet nil_PMsg = []" "PSet nil_PMsg = []"
  "VSet nil_PMsg = []" "OSet nil_PMsg = []"
  by (simp_all add: nil_PMsg_def)

definition VCMsg2Byte :: "VCMsg \<Rightarrow> int \<Rightarrow> bytes" where
  "VCMsg2Byte vcm transType =
     (let base = [p_code (vc_MType vcm), to_byte (vc_ViewNumber vcm), to_byte (vc_SeqNum vcm)] @ bval (vc_Digest vcm)
      in if transType = 0 then Some base
         else if transType = 1 then Some (base @ str2bytes (vc_SendNode vcm))
         else None)"

text \<open>The bytes of a \<open>Pm\<close>; a nil message in it is dereferenced, which panics.\<close>

fun cat_VCMsgs :: "VCMsg option list \<Rightarrow> byte list option" where
  "cat_VCMsgs [] = Some []"
| "cat_VCMsgs (None # vs) = None"
| "cat_VCMsgs (Some v # vs) = do { rest \<leftarrow> cat_VCMsgs vs; Some (bval (VCMsg2Byte v 1) @ rest) }"

definition Pm2Byte :: "Pm \<Rightarrow> byte list option" where
  "Pm2Byte pm = do {
     pp \<leftarrow> PrePrepareMsg pm;
     ps \<leftarrow> cat_VCMsgs (pm_PrepareMsgs pm);
     Some (bval (VCMsg2Byte pp 0) @ ps)
   }"

text \<open>Conversions 0 and 1 of \<open>Message2Byte\<close>, which only read the header.\<close>

definition hdr_bytes :: "pHdr \<Rightarrow> byte list" where
  "hdr_bytes h = [p_code (p_MType h), to_byte (p_ViewNumber h), to_byte (p_SeqNum h)] @ bval (p_Digest h)"

definition msg_bytes0 :: "PMsg \<Rightarrow> byte list" where
  "msg_bytes0 m = hdr_bytes (hd_of m)"

definition msg_bytes1 :: "PMsg \<Rightarrow> byte list" where
  "msg_bytes1 m = hdr_bytes (hd_of m) @ str2bytes (pm_SendNode m)"

fun cat_msgs :: "(PMsg \<Rightarrow> byte list) \<Rightarrow> PMsg option list \<Rightarrow> byte list option" where
  "cat_msgs f [] = Some []"
| "cat_msgs f (None # ms) = None"
| "cat_msgs f (Some m # ms) = do { rest \<leftarrow> cat_msgs f ms; Some (f m @ rest) }"

text \<open>The loop over \<open>PSet\<close> stops at the first nil element.\<close>

fun cat_Pms :: "Pm option list \<Rightarrow> byte list option" where
  "cat_Pms [] = Some []"
| "cat_Pms (None # pms) = Some []"
| "cat_Pms (Some pm # pms) = do { b \<leftarrow> Pm2Byte pm; rest \<leftarrow> cat_Pms pms; Some (b @ rest) }"

definition p_Message2Byte :: "PMsg \<Rightarrow> int \<Rightarrow> byte list option" where
  "p_Message2Byte m transType =
     (if transType = 0 then Some (msg_bytes0 m)
      else if transType = 1 then Some (msg_bytes1 m)
      else if transType = 2 then do {
        cs \<leftarrow> cat_msgs msg_bytes1 (CSet m);
        ps \<leftarrow> cat_Pms (PSet m);
        Some (hdr_bytes (hd_of m) @ cs @ ps @ str2bytes (pm_SendNode m))
      }
      else if transType = 3 then do {
        vs \<leftarrow> cat_msgs msg_bytes0 (VSet m);
        os \<leftarrow> cat_msgs msg_bytes0 (OSet m);
        Some ([p_code (pm_MType m), to_byte (pm_ViewNumber m)] @ vs @ os)
      }
      else Some [p_code (pm_MType m), to_byte (pm_ViewNumber m)])"

lemma p_Message2Byte_01 [simp]:
  "p_Message2Byte m 0 = Some (msg_bytes0 m)" "p_Message2Byte m 1 = Some (msg_bytes1 m)"
  by (simp_all add: p_Message2Byte_def)

definition PMsg2VCMsg :: "PMsg \<Rightarrow> VCMsg" where
  "PMsg2VCMsg m = \<lparr>vc_MType = pm_MType m, vc_ViewNumber = pm_ViewNumber m, vc_SeqNum = pm_SeqNum m,
     vc_Digest = pm_Digest m, vc_Signature = pm_Signature m, vc_Proposal = p_Proposal_of (hd_of m),
     vc_SendNode = pm_SendNode m, vc_ReciNode = p_ReciNode (hd_of m)\<rparr>"

section \<open>Logs and checkpoints\<close>

record MsgsLog =
  SelfMsgs :: "PMsg list"
  ml_NewViewMsgs :: "PMsg list"
  PreprepareMsg :: "PMsg option"
  PrepareMsgs :: "PMsg list"
  CommitMsgs :: "PMsg list"

definition empty_MsgsLog :: MsgsLog where
  "empty_MsgsLog = \<lparr>SelfMsgs = [], ml_NewViewMsgs = [], PreprepareMsg = None, PrepareMsgs = [], CommitMsgs = []\<rparr>"

definition MsgsLog_IsEmpty :: "MsgsLog \<Rightarrow> bool" where
  "MsgsLog_IsEmpty ml \<longleftrightarrow>
     (case PreprepareMsg ml of
        None \<Rightarrow> True
      | Some pp \<Rightarrow> p_Proposal_IsEmpty (p_Proposal_of (hd_of pp)) \<or> length (PrepareMsgs ml) = 0)"

record CheckPoint =
  cp_Seq :: int
  CPMsgs :: "PMsg list"
  WaitSeq :: int
  CPMsgsBuffer :: "int \<rightharpoonup> PMsg list"

definition cp_buffer :: "CheckPoint \<Rightarrow> int \<Rightarrow> PMsg list" where
  "cp_buffer cp i = (case CPMsgsBuffer cp i of None \<Rightarrow> [] | Some ms \<Rightarrow> ms)"

lemma empty_MsgsLog_sel [simp]: "PreprepareMsg empty_MsgsLog = None" "PrepareMsgs empty_MsgsLog = []"
  "CommitMsgs empty_MsgsLog = []" "ml_NewViewMsgs empty_MsgsLog = []"
  by (simp_all add: empty_MsgsLog_def)

text \<open>
  What the bytes signed by a sender determine: the type, the low bytes of view and sequence number,
  and, for digests of equal length, the digest and the sender's name.
\<close>

lemma msg_bytes1_determines:
  assumes "msg_bytes1 m = msg_bytes1 m'" "length (bval (pm_Digest m)) = length (bval (pm_Digest m'))"
  shows "p_code (pm_MType m) = p_code (pm_MType m') \<and> pm_ViewNumber m mod 256 = pm_ViewNumber m' mod 256 \<and>
    pm_SeqNum m mod 256 = pm_SeqNum m' mod 256 \<and> bytes_Equal (pm_Digest m) (pm_Digest m') \<and>
    pm_SendNode m = pm_SendNode m'"
  using assms by (auto simp: msg_bytes1_def hdr_bytes_def to_byte_eq_iff bytes_Equal_def)

end
