(* ===== verification/Pbft_Core.thy ===== *)
theory Pbft_Core
  imports Pbft_Types Dcs_Timer
begin

text \<open>
  PBFT (orderer/consensus/pbft/core): the state of a replica and every operation on it. A handler
  returns the message to send, if any, with the new state; \<open>None\<close> is a panic (an index out of range,
  a nil element of a received set) or a call that never returns. The timer, the lock of proposals and
  the goroutines \<open>go ...\<close> are explicit: a spawned function is a task that a later step runs.
\<close>

section \<open>The state (pbft.go)\<close>

datatype p_action = PAct_StartViewChange | PAct_nothing

datatype p_task = Task_Send PMsg | Task_Preprepare

record PBFT =
  pb_CurPhase :: p_StateType
  pb_View :: View
  pb_ConsId :: int
  SequenceNum :: int
  pb_CurProposal :: p_Proposal
  ProposalLock :: bool
  pb_CheckPoint :: CheckPoint
  ViewChangeMsgs :: MsgsLog
  pb_NewViewMsgs :: "int \<rightharpoonup> PMsg list"
  ReplyMsgs :: "PMsg list"
  MsgLog :: "MsgsLog list"
  pb_BlkStore :: BlockStore
  VCMsgSendFlag :: bool
  PTimer :: "p_action MyTimer"
  pb_ForwardChan :: "PMsg list option"
  pb_SendChan :: "PMsg ServerMsg list option"
  pb_Signer :: ssm2_Signer
  pb_Tasks :: "p_task list"

type_synonym pb_result = "(PMsg option \<times> PBFT) option"

text \<open>The JSON of a list of messages, which the code stores as the validation of a block.\<close>

record pbft_env = env +
  MarshalMsgs :: "PMsg list \<Rightarrow> byte list"

definition NewPBFT ::
  "'a env_scheme \<Rightarrow> int \<Rightarrow> int \<Rightarrow> int \<Rightarrow> string \<Rightarrow> PMsg ServerMsg list option \<Rightarrow> ssm2_Signer \<Rightarrow> PBFT" where
  "NewPBFT env timerDuration consId nodeNum path sendChan signer =
     \<lparr>pb_CurPhase = P_NEW_VIEW, pb_View = \<lparr>ViewNumber = 0, Leader = 0, NodesNum = nodeNum\<rparr>,
      pb_ConsId = consId, SequenceNum = 0, pb_CurProposal = nil_p_Proposal, ProposalLock = False,
      pb_CheckPoint = \<lparr>cp_Seq = 0,
        CPMsgs = [with_hdr (\<lambda>h. h\<lparr>p_ViewNumber := 0, p_SeqNum := 0, p_SendNode := ''r_'' @ Itoa consId\<rparr>) nil_PMsg],
        WaitSeq = 0, CPMsgsBuffer = (\<lambda>_. None)\<rparr>,
      ViewChangeMsgs = empty_MsgsLog, pb_NewViewMsgs = (\<lambda>_. None), ReplyMsgs = [],
      MsgLog = replicate (nat CHECKPOINTNUM) empty_MsgsLog,
      pb_BlkStore = \<lparr>bs_Height = 0, GeneratedHeight = 0, bs_PreBlkHash = Some (EmptyHash (SM3 env)),
        CurBlkHash = Some (EmptyHash (SM3 env)), CurProposalBlk = empty_Block,
        bs_Path = path @ [CHR 0x5C] @ ''r_'' @ Itoa consId, bs_Files = (\<lambda>_. None)\<rparr>,
      VCMsgSendFlag = False, PTimer = NewTimer (timerDuration * 1000000), pb_ForwardChan = None,
      pb_SendChan = sendChan, pb_Signer = signer, pb_Tasks = []\<rparr>"

text \<open>The slot of a view in the message log; an index out of range panics.\<close>

definition log_at :: "PBFT \<Rightarrow> int \<Rightarrow> MsgsLog option" where
  "log_at s v = (let i = v smod CHECKPOINTNUM
     in if 0 \<le> i \<and> i < int (length (MsgLog s)) then Some (MsgLog s ! nat i) else None)"

definition log_upd :: "PBFT \<Rightarrow> int \<Rightarrow> (MsgsLog \<Rightarrow> MsgsLog) \<Rightarrow> PBFT option" where
  "log_upd s v f = (let i = v smod CHECKPOINTNUM
     in if 0 \<le> i \<and> i < int (length (MsgLog s))
        then Some (s\<lparr>MsgLog := (MsgLog s)[nat i := f (MsgLog s ! nat i)]\<rparr>) else None)"

section \<open>Helpers (utils.go)\<close>

definition pb_IsLeader :: "PBFT \<Rightarrow> bool" where
  "pb_IsLeader s \<longleftrightarrow> Leader (pb_View s) = pb_ConsId s"

definition pb_GetNodeName :: "PBFT \<Rightarrow> string" where
  "pb_GetNodeName s = ''r_'' @ Itoa (pb_ConsId s)"

definition pb_GetLeaderName :: "PBFT \<Rightarrow> string" where
  "pb_GetLeaderName s = LeaderName (pb_View s)"

definition pb_Execute :: bool where
  "pb_Execute = True"

text \<open>As in basic HotStuff, the send channel is a list without the limit of 128 messages.\<close>

definition pb_SendSerMsg :: "PBFT \<Rightarrow> PMsg \<Rightarrow> PBFT option" where
  "pb_SendSerMsg s msg =
     (let serMsg = \<lparr>SType = ORDER, SendServer = pm_SendNode msg, ReciServer = p_ReciNode (hd_of msg),
                    Sign = None, Payload = msg\<rparr>
      in case pb_SendChan s of
           None \<Rightarrow> None
         | Some c \<Rightarrow> Some (s\<lparr>pb_SendChan := Some (c @ [serMsg])\<rparr>))"

text \<open>\<open>sign := p.Signer.Sign(b); m.Signature = sign\<close>.\<close>

definition put_sign :: "'a env_scheme \<Rightarrow> PBFT \<Rightarrow> byte list \<Rightarrow> PMsg \<Rightarrow> PMsg" where
  "put_sign env s b m = with_hdr (\<lambda>h. h\<lparr>p_Signature := ssm2_Sign env (pb_Signer s) b\<rparr>) m"

definition LogMsg :: "PBFT \<Rightarrow> PMsg \<Rightarrow> PBFT option" where
  "LogMsg s msg =
     (let v = ViewNumber (pb_View s) in
      case pm_MType msg of
        P_NEW_VIEW \<Rightarrow> do {
          let s = (case pb_NewViewMsgs s (pm_ViewNumber msg) of
                     None \<Rightarrow> s\<lparr>pb_NewViewMsgs := (pb_NewViewMsgs s)(pm_ViewNumber msg \<mapsto> [msg])\<rparr>
                   | Some ms \<Rightarrow> s\<lparr>pb_NewViewMsgs := (pb_NewViewMsgs s)(pm_ViewNumber msg \<mapsto> ms @ [msg])\<rparr>);
          let nv = the (pb_NewViewMsgs s (pm_ViewNumber msg));
          if above_thr (NodesNum (pb_View s)) nv then do {
            l \<leftarrow> log_at s v;
            if length (ml_NewViewMsgs l) = 0 then do {
              s \<leftarrow> log_upd s v (\<lambda>l. l\<lparr>ml_NewViewMsgs := ml_NewViewMsgs l @ nv\<rparr>);
              Some (s\<lparr>pb_NewViewMsgs := (pb_NewViewMsgs s)(pm_ViewNumber msg \<mapsto> [])\<rparr>)
            }
            else Some s
          }
          else Some s
        }
      | P_PREPREPARE \<Rightarrow> log_upd s v (\<lambda>l. l\<lparr>PreprepareMsg := Some msg\<rparr>)
      | P_PREPARE \<Rightarrow> log_upd s v (\<lambda>l. l\<lparr>PrepareMsgs := PrepareMsgs l @ [msg]\<rparr>)
      | P_COMMIT \<Rightarrow> log_upd s v (\<lambda>l. l\<lparr>CommitMsgs := CommitMsgs l @ [msg]\<rparr>)
      | P_CHECKPOINT \<Rightarrow>
          let cp = pb_CheckPoint s
          in Some (s\<lparr>pb_CheckPoint := cp\<lparr>CPMsgsBuffer :=
               (CPMsgsBuffer cp)(pm_SeqNum msg \<mapsto> cp_buffer cp (pm_SeqNum msg) @ [msg])\<rparr>\<rparr>)
      | P_VIEW_CHANGE \<Rightarrow>
          Some (s\<lparr>ViewChangeMsgs := (ViewChangeMsgs s)\<lparr>ml_NewViewMsgs := ml_NewViewMsgs (ViewChangeMsgs s) @ [msg]\<rparr>\<rparr>)
      | P_VC_PREPARE \<Rightarrow>
          Some (s\<lparr>ViewChangeMsgs := (ViewChangeMsgs s)\<lparr>PrepareMsgs := PrepareMsgs (ViewChangeMsgs s) @ [msg]\<rparr>\<rparr>)
      | P_VC_COMMIT \<Rightarrow>
          Some (s\<lparr>ViewChangeMsgs := (ViewChangeMsgs s)\<lparr>CommitMsgs := CommitMsgs (ViewChangeMsgs s) @ [msg]\<rparr>\<rparr>)
      | _ \<Rightarrow> Some s)"

definition MatchPrePrepareMsg :: "PBFT \<Rightarrow> PMsg \<Rightarrow> (bool \<times> PBFT) option" where
  "MatchPrePrepareMsg s msg = do {
     l \<leftarrow> log_at s (pm_ViewNumber msg);
     case PreprepareMsg l of
       None \<Rightarrow> do { s \<leftarrow> LogMsg s msg; Some (False, s) }
     | Some ppMsg \<Rightarrow>
         Some (pm_ViewNumber msg = pm_ViewNumber ppMsg \<and> pm_SeqNum msg = pm_SeqNum ppMsg \<and>
               bytes_Equal (pm_Digest msg) (pm_Digest ppMsg), s)
   }"

definition pb_verify :: "'a env_scheme \<Rightarrow> PBFT \<Rightarrow> PMsg \<Rightarrow> byte list \<Rightarrow> bool" where
  "pb_verify env s m b \<longleftrightarrow> ssm2_VerifySign env (pb_Signer s) (pm_SendNode m) (pm_Signature m) b"

definition CheckMsg :: "'a env_scheme \<Rightarrow> PBFT \<Rightarrow> PMsg \<Rightarrow> (bool \<times> PBFT) option" where
  "CheckMsg env s msg =
     (if pm_ViewNumber msg < ViewNumber (pb_View s) \<or>
         pm_SeqNum msg > cp_Seq (pb_CheckPoint s) + CHECKPOINTNUM then Some (False, s)
      else if \<not> pb_verify env s msg (msg_bytes1 msg) then Some (False, s)
      else if pm_MType msg \<noteq> P_PREPREPARE then do {
        (matches, s) \<leftarrow> MatchPrePrepareMsg s msg;
        if \<not> matches then Some (False, s) else Some (True, s)
      }
      else Some (True, s))"

definition UpdateConsensus :: "'a env_scheme \<Rightarrow> PBFT \<Rightarrow> PMsg \<Rightarrow> PBFT" where
  "UpdateConsensus env s msg =
     (let s = s\<lparr>pb_CurProposal := p_Proposal_of (hd_of msg)\<rparr>;
          s = s\<lparr>pb_BlkStore := (pb_BlkStore s)\<lparr>CurProposalBlk := p_Block (hd_of msg)\<rparr>\<rparr>
      in s\<lparr>pb_BlkStore := (pb_BlkStore s)\<lparr>CurBlkHash := Block_Hash env (CurProposalBlk (pb_BlkStore s))\<rparr>\<rparr>)"

fun valid_prefix :: "int \<Rightarrow> MsgsLog list \<Rightarrow> Pm list" where
  "valid_prefix n [] = []"
| "valid_prefix n (l # ls) =
     (if MsgsLog_IsEmpty l \<or> \<not> above_thr n (PrepareMsgs l) then []
      else \<lparr>PrePrepareMsg = map_option PMsg2VCMsg (PreprepareMsg l),
            pm_PrepareMsgs = map (\<lambda>v. Some (PMsg2VCMsg v)) (PrepareMsgs l)\<rparr> # valid_prefix n ls)"

definition GetValidMsgs :: "PBFT \<Rightarrow> Pm list" where
  "GetValidMsgs s = valid_prefix (NodesNum (pb_View s)) (MsgLog s)"

definition ReSetViewchangeMsgs :: "PBFT \<Rightarrow> PBFT" where
  "ReSetViewchangeMsgs s = s\<lparr>ViewChangeMsgs := empty_MsgsLog\<rparr>"

definition pb_InitLeader :: "PBFT \<Rightarrow> PBFT" where
  "pb_InitLeader s = s\<lparr>pb_CurPhase := P_WAITING\<rparr>"

definition pb_stop :: "PBFT \<Rightarrow> PBFT option" where
  "pb_stop s = do { t \<leftarrow> Stop (PTimer s); Some (s\<lparr>PTimer := t\<rparr>) }"

definition pb_start :: "PBFT \<Rightarrow> PBFT option" where
  "pb_start s = do {
     t \<leftarrow> Start (PTimer s) (Some PAct_StartViewChange) (Some PAct_nothing);
     Some (s\<lparr>PTimer := t\<rparr>)
   }"

definition pb_catch_up :: "PBFT \<Rightarrow> int \<Rightarrow> PBFT option" where
  "pb_catch_up s v = do { w \<leftarrow> catch_up (pb_View s) v; Some (s\<lparr>pb_View := w\<rparr>) }"

section \<open>Commit and reply (commit.go)\<close>

definition pb_NewRound :: "PBFT \<Rightarrow> PBFT option" where
  "pb_NewRound s = do {
     v \<leftarrow> NextView (pb_View s);
     Some (s\<lparr>pb_View := v, pb_CurProposal := nil_p_Proposal, SequenceNum := SequenceNum s + 1\<rparr>)
   }"

definition GenCheckPoint :: "'a env_scheme \<Rightarrow> PBFT \<Rightarrow> PMsg \<Rightarrow> bool \<times> PBFT" where
  "GenCheckPoint env s msg =
     (if (pm_SeqNum msg + 1) smod CHECKPOINTNUM = 0 then
        let cpm = with_hdr (\<lambda>h. h\<lparr>p_MType := P_CHECKPOINT, p_SeqNum := SequenceNum s, p_Digest := pm_Digest msg,
                    p_SendNode := pb_GetNodeName s, p_ReciNode := ''Broadcast''\<rparr>) nil_PMsg;
            cpm = put_sign env s (msg_bytes1 cpm) cpm;
            cp = pb_CheckPoint s;
            cp = (case CPMsgsBuffer cp (SequenceNum s) of
                    None \<Rightarrow> cp\<lparr>CPMsgsBuffer := (CPMsgsBuffer cp)(SequenceNum s \<mapsto> [cpm])\<rparr>
                  | Some ms \<Rightarrow> cp\<lparr>CPMsgsBuffer := (CPMsgsBuffer cp)(SequenceNum s \<mapsto> ms @ [cpm])\<rparr>);
            cp = cp\<lparr>WaitSeq := SequenceNum s\<rparr>
        in (True, s\<lparr>pb_CheckPoint := cp\<rparr>)
      else (False, s))"

definition commited :: "'a env_scheme \<Rightarrow> PBFT \<Rightarrow> PMsg \<Rightarrow> (bool \<times> PBFT) option" where
  "commited env s msg = do {
     (ok, s) \<leftarrow> CheckMsg env s msg;
     if \<not> ok then Some (False, s)
     else do {
       s \<leftarrow> LogMsg s msg;
       if pb_CurPhase s = P_COMMIT \<and> pm_ViewNumber msg < ViewNumber (pb_View s) then Some (False, s)
       else do {
         l \<leftarrow> log_at s (ViewNumber (pb_View s));
         if \<not> above_thr (NodesNum (pb_View s)) (PrepareMsgs l) then Some (False, s)
         else if \<not> above_thr (NodesNum (pb_View s)) (CommitMsgs l) then Some (False, s)
         else Some (True, s)
       }
     }
   }"

text \<open>
  What \<open>HandleCommitMsg\<close> and \<open>CheckPrepareAndCommit\<close> do, in the same statements, once there are
  enough commits: the block is stored with the commits as validation, the reply is logged, a
  checkpoint is started when due, and the next view begins.
\<close>

definition pb_reply :: "'a pbft_env_scheme \<Rightarrow> PBFT \<Rightarrow> PMsg \<Rightarrow> pb_result" where
  "pb_reply env s msg = do {
     s \<leftarrow> pb_catch_up s (pm_ViewNumber msg);
     s \<leftarrow> pb_stop s;
     let s = s\<lparr>pb_CurPhase := P_COMMIT\<rparr>;
     l \<leftarrow> log_at s (ViewNumber (pb_View s));
     let blk = CurProposalBlk (pb_BlkStore s);
     let blk = blk\<lparr>BlkHdr := (BlkHdr blk)\<lparr>bh_Validation := Some (MarshalMsgs env (CommitMsgs l))\<rparr>\<rparr>;
     let s = s\<lparr>pb_BlkStore := (pb_BlkStore s)\<lparr>CurProposalBlk := blk\<rparr>\<rparr>;
     let replyMsg = with_hdr (\<lambda>h. h\<lparr>p_MType := P_REPLY, p_ViewNumber := ViewNumber (pb_View s),
           p_SeqNum := SequenceNum s, p_Digest := pm_Digest msg, p_ReciNode := pm_SendNode msg\<rparr>) nil_PMsg;
     let s = s\<lparr>ReplyMsgs := ReplyMsgs s @ [replyMsg]\<rparr>;
     let s = s\<lparr>pb_BlkStore := StoreBlock (pb_BlkStore s) (CurProposalBlk (pb_BlkStore s))\<rparr>;
     let (cp, s) = GenCheckPoint env s replyMsg;
     let s = s\<lparr>pb_CurPhase := (if cp then P_CHECKPOINT else P_NEW_VIEW)\<rparr>;
     s \<leftarrow> pb_NewRound s;
     s \<leftarrow> pb_start s;
     Some (Some replyMsg, s)
   }"

definition HandleCommitMsg :: "'a pbft_env_scheme \<Rightarrow> PBFT \<Rightarrow> PMsg \<Rightarrow> pb_result" where
  "HandleCommitMsg env s msg =
     (if pb_CurPhase s = P_VIEW_CHANGE then Some (None, s)
      else do {
        (ok, s) \<leftarrow> commited env s msg;
        if \<not> ok then Some (None, s) else pb_reply env s msg
      })"

section \<open>Pre-prepare (new_view.go, pre_prepare.go)\<close>

definition Preprepare :: "'a env_scheme \<Rightarrow> PBFT \<Rightarrow> pb_result" where
  "Preprepare env s =
     (if p_Proposal_IsEmpty (pb_CurProposal s) then Some (None, s)
      else if pb_CurPhase s \<noteq> P_NEW_VIEW then Some (None, s)
      else do {
        bs \<leftarrow> GenNewBlock env (pb_BlkStore s) (ViewNumber (pb_View s))
               (TwoDimByteSlice2StringSlice (slices (pp_Command (pb_CurProposal s)))) [];
        let s = s\<lparr>pb_BlkStore := bs\<rparr>;
        let m = with_hdr (\<lambda>h. h\<lparr>p_MType := P_PREPREPARE, p_ViewNumber := ViewNumber (pb_View s),
              p_SeqNum := SequenceNum s, p_Digest := CurBlkHash (pb_BlkStore s), p_SendNode := pb_GetNodeName s,
              p_ReciNode := ''Broadcast'', p_Proposal_of := pb_CurProposal s,
              p_Block := CurProposalBlk (pb_BlkStore s)\<rparr>) nil_PMsg;
        let m = put_sign env s (msg_bytes0 m) m;
        s \<leftarrow> LogMsg s m;
        Some (Some m, s\<lparr>pb_CurPhase := P_PREPREPARE\<rparr>)
      })"

definition CheckPrePrepareMsg :: "'a env_scheme \<Rightarrow> PBFT \<Rightarrow> PMsg \<Rightarrow> (bool \<times> PBFT) option" where
  "CheckPrePrepareMsg env s msg =
     (if pm_ViewNumber msg \<noteq> ViewNumber (pb_View s) then Some (False, s)
      else if SequenceNum s > pm_SeqNum msg then Some (False, s)
      else do {
        l \<leftarrow> log_at s (ViewNumber (pb_View s));
        if (case PreprepareMsg l of
              None \<Rightarrow> False
            | Some pp \<Rightarrow> pm_SeqNum pp = pm_SeqNum msg \<and> \<not> bytes_Equal (pm_Digest pp) (pm_Digest msg))
        then Some (False, s)
        else if \<not> pb_verify env s msg (msg_bytes0 msg) then Some (False, s)
        else do { s \<leftarrow> LogMsg s msg; Some (True, s) }
      })"

definition pb_matches :: "PMsg \<Rightarrow> PMsg \<Rightarrow> bool" where
  "pb_matches msg m \<longleftrightarrow> pm_ViewNumber msg = pm_ViewNumber m \<and> pm_SeqNum msg = pm_SeqNum m \<and>
     bytes_Equal (pm_Digest msg) (pm_Digest m)"

text \<open>The second branch has the guard of the first one, as in the code, so it is never taken.\<close>

definition CheckPrepareAndCommit :: "'a pbft_env_scheme \<Rightarrow> PBFT \<Rightarrow> PMsg \<Rightarrow> pb_result" where
  "CheckPrepareAndCommit env s msg = do {
     l \<leftarrow> log_at s (ViewNumber (pb_View s));
     if length (PrepareMsgs l) \<noteq> 0 then do {
       s \<leftarrow> log_upd s (ViewNumber (pb_View s)) (\<lambda>l. l\<lparr>CommitMsgs := filter (pb_matches msg) (CommitMsgs l)\<rparr>);
       l \<leftarrow> log_at s (ViewNumber (pb_View s));
       if \<not> above_thr (NodesNum (pb_View s)) (CommitMsgs l) then Some (None, s)
       else pb_reply env s msg
     }
     else if length (PrepareMsgs l) \<noteq> 0 then do {
       s \<leftarrow> log_upd s (ViewNumber (pb_View s)) (\<lambda>l. l\<lparr>PrepareMsgs := filter (pb_matches msg) (PrepareMsgs l)\<rparr>);
       l \<leftarrow> log_at s (ViewNumber (pb_View s));
       if \<not> above_thr (NodesNum (pb_View s)) (PrepareMsgs l) then Some (None, s)
       else do {
         s \<leftarrow> pb_catch_up s (pm_ViewNumber msg);
         let s = s\<lparr>pb_CurPhase := P_PREPARE\<rparr>;
         let m = with_hdr (\<lambda>h. h\<lparr>p_MType := P_COMMIT, p_ViewNumber := ViewNumber (pb_View s),
               p_SeqNum := SequenceNum s, p_SendNode := pb_GetNodeName s, p_Digest := pm_Digest msg,
               p_ReciNode := ''Broadcast''\<rparr>) nil_PMsg;
         Some (Some (put_sign env s (msg_bytes1 m) m), s)
       }
     }
     else Some (None, s)
   }"

definition HandlePrePrepareMsg :: "'a pbft_env_scheme \<Rightarrow> PBFT \<Rightarrow> PMsg \<Rightarrow> pb_result" where
  "HandlePrePrepareMsg env s msg = do {
     l \<leftarrow> log_at s (pm_ViewNumber msg);
     if PreprepareMsg l \<noteq> None then Some (None, s)
     else do {
       (ok, s) \<leftarrow> CheckPrePrepareMsg env s msg;
       if \<not> ok then Some (None, s)
       else do {
         s \<leftarrow> (if \<not> pb_IsLeader s then
                 let s = UpdateConsensus env s msg;
                     s = s\<lparr>pb_CurPhase := P_PREPREPARE\<rparr>;
                     s = s\<lparr>pb_CurProposal := p_Proposal_of (hd_of msg)\<rparr>;
                     s = s\<lparr>SequenceNum := pm_SeqNum msg\<rparr>
                 in pb_stop s
               else Some s);
         (waitingMsg, s) \<leftarrow> CheckPrepareAndCommit env s msg;
         if waitingMsg \<noteq> None then Some (waitingMsg, s)
         else
           let m = with_hdr (\<lambda>h. h\<lparr>p_MType := P_PREPARE, p_ViewNumber := ViewNumber (pb_View s),
                 p_SeqNum := pm_SeqNum msg, p_SendNode := pb_GetNodeName s, p_Digest := pm_Digest msg,
                 p_ReciNode := ''Broadcast''\<rparr>) nil_PMsg
           in Some (Some (put_sign env s (msg_bytes1 m) m), s)
       }
     }
   }"

section \<open>Prepare (prepare.go)\<close>

definition prepared :: "'a env_scheme \<Rightarrow> PBFT \<Rightarrow> PMsg \<Rightarrow> (bool \<times> PBFT) option" where
  "prepared env s msg = do {
     (ok, s) \<leftarrow> CheckMsg env s msg;
     if \<not> ok then Some (False, s)
     else do {
       s \<leftarrow> LogMsg s msg;
       if pb_CurPhase s = P_PREPARE then Some (False, s)
       else do {
         l \<leftarrow> log_at s (ViewNumber (pb_View s));
         if \<not> above_thr (NodesNum (pb_View s)) (PrepareMsgs l) then Some (False, s) else Some (True, s)
       }
     }
   }"

definition HandlePrepareMsg :: "'a env_scheme \<Rightarrow> PBFT \<Rightarrow> PMsg \<Rightarrow> pb_result" where
  "HandlePrepareMsg env s msg =
     (if pb_CurPhase s = P_VIEW_CHANGE then Some (None, s)
      else do {
        (ok, s) \<leftarrow> prepared env s msg;
        if \<not> ok then Some (None, s)
        else do {
          let s = s\<lparr>pb_CurPhase := P_PREPARE\<rparr>;
          s \<leftarrow> pb_catch_up s (pm_ViewNumber msg);
          let m = with_hdr (\<lambda>h. h\<lparr>p_MType := P_COMMIT, p_ViewNumber := ViewNumber (pb_View s),
                p_SeqNum := SequenceNum s, p_SendNode := pb_GetNodeName s, p_Digest := pm_Digest msg,
                p_ReciNode := ''Broadcast''\<rparr>) nil_PMsg;
          Some (Some (put_sign env s (msg_bytes1 m) m), s)
        }
      })"

section \<open>Checkpoints (checkpoint.go)\<close>

text \<open>\<open>copy(dst, src)\<close> overwrites as many elements as both slices have.\<close>

definition go_copy :: "'b list \<Rightarrow> 'b list \<Rightarrow> 'b list" where
  "go_copy dst src = take (length dst) src @ drop (length src) dst"

definition HandleCheckPoint :: "'a env_scheme \<Rightarrow> PBFT \<Rightarrow> PMsg \<Rightarrow> pb_result" where
  "HandleCheckPoint env s msg =
     (if \<not> pb_verify env s msg (msg_bytes1 msg) then Some (None, s)
      else if pm_SeqNum msg < cp_Seq (pb_CheckPoint s) then Some (None, s)
      else if pm_SeqNum msg = cp_Seq (pb_CheckPoint s) then Some (None, s)
      else do {
        s \<leftarrow> LogMsg s msg;
        let cp = pb_CheckPoint s;
        let buf = cp_buffer cp (pm_SeqNum msg);
        if \<not> above_thr (NodesNum (pb_View s)) buf then Some (None, s)
        else
          let cp = cp\<lparr>cp_Seq := pm_SeqNum msg\<rparr>;
              cp = cp\<lparr>CPMsgs := go_copy (CPMsgs cp) buf\<rparr>;
              s = s\<lparr>MsgLog := replicate (nat CHECKPOINTNUM) empty_MsgsLog\<rparr>;
              cp = cp\<lparr>CPMsgsBuffer := (CPMsgsBuffer cp)(pm_SeqNum msg \<mapsto> [])\<rparr>;
              s = s\<lparr>pb_CheckPoint := cp\<rparr>
          in Some (None, s\<lparr>pb_CurPhase := (if pb_IsLeader s then P_WAITING else P_NEW_VIEW)\<rparr>)
      })"

end
