(* ===== verification/Pbft_ViewChange.thy ===== *)
theory Pbft_ViewChange
  imports Pbft_Core
begin

text \<open>
  The view change of PBFT (view_change.go, new_view.go and the vc-handlers), the dispatch of messages
  and requests (pbft.go), and the node step. Loops that look at pointers in received messages stop
  with \<open>None\<close> at a nil one.
\<close>

section \<open>Starting a view change\<close>

definition pb_StartViewChange :: "'a env_scheme \<Rightarrow> PBFT \<Rightarrow> PBFT option" where
  "pb_StartViewChange env s = do {
     let s = s\<lparr>pb_CurPhase := P_VIEW_CHANGE, VCMsgSendFlag := True\<rparr>;
     let hdr = nil_pHdr\<lparr>p_MType := P_VIEW_CHANGE, p_ViewNumber := ViewNumber (pb_View s) + 1,
           p_SeqNum := cp_Seq (pb_CheckPoint s), p_SendNode := pb_GetNodeName s, p_ReciNode := ''Broadcast''\<rparr>;
     let m = PMsg hdr (map Some (CPMsgs (pb_CheckPoint s))) (map Some (GetValidMsgs s)) [] [];
     b \<leftarrow> p_Message2Byte m 2;
     let m = put_sign env s b m;
     let s = s\<lparr>VCMsgSendFlag := True\<rparr>;
     let s = (case pb_ForwardChan s of None \<Rightarrow> s | Some c \<Rightarrow> s\<lparr>pb_ForwardChan := Some (c @ [m])\<rparr>);
     if pb_SendChan s \<noteq> None then pb_SendSerMsg s m else Some s
   }"

section \<open>Sequence bounds\<close>

definition raise_max :: "('a \<Rightarrow> int option) \<Rightarrow> int \<Rightarrow> 'a \<Rightarrow> int option" where
  "raise_max seq m x = do { i \<leftarrow> seq x; Some (if m < i then i else m) }"

definition cset_max :: "int \<Rightarrow> PMsg \<Rightarrow> int option" where
  "cset_max minS vcm = run (raise_max (map_option pm_SeqNum)) minS (CSet vcm)"

definition pset_max :: "int \<Rightarrow> PMsg \<Rightarrow> int option" where
  "pset_max maxS vcm =
     run (\<lambda>m pmo. do { pm \<leftarrow> pmo; run (raise_max (map_option vc_SeqNum)) m (pm_PrepareMsgs pm) }) maxS (PSet vcm)"

text \<open>
  \<open>GetSeq\<close>: the message that it prints when there are no view-change messages reads
  \<open>NewViewMsgs[0]\<close>, so without any it panics.
\<close>

definition GetSeq :: "PBFT \<Rightarrow> (int \<times> int) option" where
  "GetSeq s =
     (case ml_NewViewMsgs (ViewChangeMsgs s) of
        [] \<Rightarrow> None
      | m0 # _ \<Rightarrow>
          if length (CSet m0) = 0 then Some (-1, -1)
          else run (\<lambda>(minS, maxS) vcm. do { a \<leftarrow> cset_max minS vcm; b \<leftarrow> pset_max maxS vcm; Some (a, b) })
                 (-1, -1) (ml_NewViewMsgs (ViewChangeMsgs s)))"

text \<open>A prepared certificate for sequence number \<open>i\<close>: its digest, \<open>Some None\<close> if this is none.\<close>

definition pm_digest :: "int \<Rightarrow> int \<Rightarrow> Pm option \<Rightarrow> bytes option option" where
  "pm_digest n i pmo = do {
     pm \<leftarrow> pmo;
     pp \<leftarrow> PrePrepareMsg pm;
     Some (if vc_SeqNum pp = i \<and> above_thr n (pm_PrepareMsgs pm) then Some (vc_Digest pp) else None)
   }"

fun scan_PSet :: "int \<Rightarrow> int \<Rightarrow> Pm option list \<Rightarrow> bytes option option" where
  "scan_PSet n i [] = Some None"
| "scan_PSet n i (pm # pms) = do {
     d \<leftarrow> pm_digest n i pm;
     case d of Some x \<Rightarrow> Some (Some x) | None \<Rightarrow> scan_PSet n i pms
   }"

fun scan_VSet :: "int \<Rightarrow> int \<Rightarrow> PMsg list \<Rightarrow> bytes option option" where
  "scan_VSet n i [] = Some None"
| "scan_VSet n i (m # ms) = do {
     d \<leftarrow> scan_PSet n i (PSet m);
     case d of Some x \<Rightarrow> Some (Some x) | None \<Rightarrow> scan_VSet n i ms
   }"

text \<open>The pre-prepare for one sequence number of the new view.\<close>

definition redo_msg :: "'a env_scheme \<Rightarrow> PBFT \<Rightarrow> int \<Rightarrow> PMsg option" where
  "redo_msg env s i = do {
     d \<leftarrow> scan_VSet (NodesNum (pb_View s)) i (ml_NewViewMsgs (ViewChangeMsgs s));
     let m = with_hdr (\<lambda>h. h\<lparr>p_MType := P_PREPREPARE, p_ViewNumber := ViewNumber (pb_View s), p_SeqNum := i,
           p_Digest := (case d of Some x \<Rightarrow> x | None \<Rightarrow> None)\<rparr>) nil_PMsg;
     Some (put_sign env s (msg_bytes0 m) m)
   }"

fun map_opt :: "('a \<Rightarrow> 'b option) \<Rightarrow> 'a list \<Rightarrow> 'b list option" where
  "map_opt f [] = Some []"
| "map_opt f (x # xs) = do { y \<leftarrow> f x; ys \<leftarrow> map_opt f xs; Some (y # ys) }"

definition HandleViewChangeMsg :: "'a env_scheme \<Rightarrow> PBFT \<Rightarrow> PMsg \<Rightarrow> pb_result" where
  "HandleViewChangeMsg env s msg = do {
     b \<leftarrow> p_Message2Byte msg 2;
     if \<not> pb_verify env s msg b then Some (None, s)
     else do {
       s \<leftarrow> LogMsg s msg;
       if int (length (ml_NewViewMsgs (ViewChangeMsgs s))) \<noteq> thr2f (NodesNum (pb_View s)) + 1 then Some (None, s)
       else do {
         s \<leftarrow> pb_catch_up s (pm_ViewNumber msg);
         if \<not> pb_IsLeader s then Some (None, s)
         else do {
           let vset = map Some (ml_NewViewMsgs (ViewChangeMsgs s));
           (minS, maxS) \<leftarrow> GetSeq s;
           oset \<leftarrow> (if minS \<noteq> -1 \<and> maxS \<noteq> -1 then map_opt (redo_msg env s) [minS..maxS] else Some []);
           let m = PMsg (nil_pHdr\<lparr>p_MType := P_NEW_VIEW, p_ViewNumber := ViewNumber (pb_View s),
                 p_ReciNode := ''Broadcast''\<rparr>) [] [] vset (map Some oset);
           nb \<leftarrow> p_Message2Byte m 3;
           Some (Some (put_sign env s nb m), s)
         }
       }
     }
   }"

section \<open>Accepting a new view\<close>

fun all_opt :: "('a \<Rightarrow> bool option) \<Rightarrow> 'a list \<Rightarrow> bool option" where
  "all_opt f [] = Some True"
| "all_opt f (x # xs) = do { b \<leftarrow> f x; if b then all_opt f xs else Some False }"

definition nth_msg :: "PMsg option list \<Rightarrow> int \<Rightarrow> PMsg option" where
  "nth_msg xs i = (if 0 \<le> i \<and> i < int (length xs) then xs ! nat i else None)"

text \<open>One comparison of \<open>VerifyOSet\<close>: \<open>j\<close> stays 0, and \<open>OSet\<close> is indexed by the sequence number.\<close>

definition verify_pm :: "'a env_scheme \<Rightarrow> PBFT \<Rightarrow> PMsg \<Rightarrow> int \<Rightarrow> Pm option \<Rightarrow> bool option" where
  "verify_pm env s msg i pmo = do {
     pm \<leftarrow> pmo;
     pp \<leftarrow> PrePrepareMsg pm;
     if vc_SeqNum pp = i \<and> above_thr (NodesNum (pb_View s)) (pm_PrepareMsgs pm) then do {
       o0 \<leftarrow> nth_msg (OSet msg) 0;
       if \<not> bytes_Equal (pm_Digest o0) (vc_Digest pp) then Some False
       else do {
         oi \<leftarrow> nth_msg (OSet msg) i;
         Some (ssm2_VerifySign env (pb_Signer s) (pm_SendNode msg) (pm_Signature oi) (msg_bytes0 oi))
       }
     }
     else Some True
   }"

definition VerifyOSet :: "'a env_scheme \<Rightarrow> PBFT \<Rightarrow> PMsg \<Rightarrow> bool option" where
  "VerifyOSet env s msg = do {
     (minS, maxS) \<leftarrow> GetSeq s;
     if length (OSet msg) = 0 then
       Some (list_all (\<lambda>vcm. length (PSet vcm) = 0) (ml_NewViewMsgs (ViewChangeMsgs s)))
     else if int (length (OSet msg)) \<noteq> maxS - minS + 1 then Some False
     else all_opt (\<lambda>i. all_opt (\<lambda>vcm. all_opt (verify_pm env s msg i) (PSet vcm))
                         (ml_NewViewMsgs (ViewChangeMsgs s))) [minS..maxS - 1]
   }"

definition redo_prepare :: "'a env_scheme \<Rightarrow> PBFT \<Rightarrow> PMsg option \<Rightarrow> PMsg option" where
  "redo_prepare env s mo = do {
     m \<leftarrow> mo;
     let p = with_hdr (\<lambda>h. h\<lparr>p_MType := P_PREPARE, p_ViewNumber := ViewNumber (pb_View s), p_SeqNum := pm_SeqNum m,
           p_SendNode := pb_GetNodeName s, p_Digest := pm_Digest m, p_ReciNode := ''Broadcast''\<rparr>) nil_PMsg;
     Some (put_sign env s (msg_bytes1 p) p)
   }"

definition HandleNewViewMsg :: "'a env_scheme \<Rightarrow> PBFT \<Rightarrow> PMsg \<Rightarrow> pb_result" where
  "HandleNewViewMsg env s msg = do {
     b \<leftarrow> p_Message2Byte msg 3;
     if \<not> pb_verify env s msg b then Some (None, s)
     else do {
       s \<leftarrow> LogMsg s msg;
       if pm_ViewNumber msg \<noteq> ViewNumber (pb_View s) then Some (None, s)
       else do {
         ok \<leftarrow> VerifyOSet env s msg;
         if \<not> ok then Some (None, s)
         else do {
           let s = s\<lparr>pb_CurProposal := nil_p_Proposal, pb_BlkStore := GenEmptyBlock env (pb_BlkStore s)\<rparr>;
           let s = s\<lparr>MsgLog := replicate 64 empty_MsgsLog\<rparr>;
           if length (OSet msg) = 0 then do {
             s \<leftarrow> pb_stop s;
             let s = s\<lparr>pb_CurPhase := P_NEW_VIEW\<rparr>;
             s \<leftarrow> pb_start s;
             Some (Some (with_hdr (\<lambda>h. h\<lparr>p_MType := P_VC_REPLY\<rparr>) nil_PMsg), s)
           }
           else do {
             os \<leftarrow> map_opt (redo_prepare env s) (OSet msg);
             let m = PMsg (nil_pHdr\<lparr>p_MType := P_VC_PREPARE, p_ViewNumber := ViewNumber (pb_View s),
                   p_SendNode := pb_GetNodeName s, p_ReciNode := ''Broadcast''\<rparr>) [] [] [] (map Some os);
             Some (Some (put_sign env s (msg_bytes1 m) m), s)
           }
         }
       }
     }
   }"

section \<open>Redoing the protocol\<close>

text \<open>The loop returns nil at the first message whose signature is wrong: \<open>Some None\<close>.\<close>

fun redo_commits :: "'a env_scheme \<Rightarrow> PBFT \<Rightarrow> PMsg option list \<Rightarrow> PMsg list option option" where
  "redo_commits env s [] = Some (Some [])"
| "redo_commits env s (mo # ms) = do {
     m \<leftarrow> mo;
     if \<not> pb_verify env s m (msg_bytes1 m) then Some None
     else do {
       let c = with_hdr (\<lambda>h. h\<lparr>p_MType := P_COMMIT, p_ViewNumber := ViewNumber (pb_View s), p_SeqNum := pm_SeqNum m,
             p_SendNode := pb_GetNodeName s, p_Digest := pm_Digest m, p_ReciNode := ''Broadcast''\<rparr>) nil_PMsg;
       let c = put_sign env s (msg_bytes1 c) c;
       rest \<leftarrow> redo_commits env s ms;
       Some (map_option (\<lambda>cs. c # cs) rest)
     }
   }"

definition HandleVCPrepareMsg :: "'a env_scheme \<Rightarrow> PBFT \<Rightarrow> PMsg \<Rightarrow> pb_result" where
  "HandleVCPrepareMsg env s msg =
     (if pb_CurPhase s \<noteq> P_VIEW_CHANGE then Some (None, s)
      else if pm_ViewNumber msg \<noteq> ViewNumber (pb_View s) then Some (None, s)
      else if \<not> pb_verify env s msg (msg_bytes1 msg) then Some (None, s)
      else do {
        s \<leftarrow> LogMsg s msg;
        if int (length (PrepareMsgs (ViewChangeMsgs s))) \<noteq> thr2f (NodesNum (pb_View s)) + 1 then Some (None, s)
        else do {
          cs \<leftarrow> redo_commits env s (OSet msg);
          case cs of
            None \<Rightarrow> Some (None, s)
          | Some cs \<Rightarrow>
              let m = PMsg (nil_pHdr\<lparr>p_MType := P_VC_COMMIT, p_ViewNumber := ViewNumber (pb_View s),
                    p_SendNode := pb_GetNodeName s, p_ReciNode := ''Broadcast''\<rparr>) [] [] [] (map Some cs)
              in Some (Some (put_sign env s (msg_bytes1 m) m), s)
        }
      })"

definition GetReplySeqs :: "PBFT \<Rightarrow> int list" where
  "GetReplySeqs s = (if length (ReplyMsgs s) = 0 then [] else map pm_SeqNum (ReplyMsgs s))"

fun IsContain :: "int list \<Rightarrow> int \<Rightarrow> bool" where
  "IsContain [] v = False"
| "IsContain (x # xs) v = (if x = v then True else IsContain xs v)"

definition GetMaxSeqInOSets :: "PBFT \<Rightarrow> int option" where
  "GetMaxSeqInOSets s =
     run (\<lambda>m c. run (raise_max (map_option pm_SeqNum)) m (OSet c)) 0 (CommitMsgs (ViewChangeMsgs s))"

fun redo_replies :: "'a env_scheme \<Rightarrow> PBFT \<Rightarrow> int list \<Rightarrow> PMsg option list \<Rightarrow> PMsg list option option" where
  "redo_replies env s done_seqs [] = Some (Some [])"
| "redo_replies env s done_seqs (mo # ms) = do {
     m \<leftarrow> mo;
     if \<not> pb_verify env s m (msg_bytes1 m) then Some None
     else if IsContain done_seqs (pm_SeqNum m) \<or> pm_Digest m = None then redo_replies env s done_seqs ms
     else do {
       let r = with_hdr (\<lambda>h. h\<lparr>p_MType := P_REPLY, p_ViewNumber := ViewNumber (pb_View s), p_SeqNum := pm_SeqNum m,
             p_SendNode := pb_GetNodeName s, p_Digest := pm_Digest m\<rparr>) nil_PMsg;
       rest \<leftarrow> redo_replies env s done_seqs ms;
       Some (map_option (\<lambda>rs. r # rs) rest)
     }
   }"

definition HandleVCCommitMsg :: "'a env_scheme \<Rightarrow> PBFT \<Rightarrow> PMsg \<Rightarrow> pb_result" where
  "HandleVCCommitMsg env s msg =
     (if pb_CurPhase s \<noteq> P_VIEW_CHANGE then Some (None, s)
      else if pm_ViewNumber msg \<noteq> ViewNumber (pb_View s) then Some (None, s)
      else if \<not> pb_verify env s msg (msg_bytes1 msg) then Some (None, s)
      else do {
        s \<leftarrow> LogMsg s msg;
        if int (length (CommitMsgs (ViewChangeMsgs s))) \<noteq> thr2f (NodesNum (pb_View s)) + 1 then Some (None, s)
        else do {
          s \<leftarrow> pb_stop s;
          rs \<leftarrow> redo_replies env s (GetReplySeqs s) (OSet msg);
          case rs of
            None \<Rightarrow> Some (None, s)
          | Some rs \<Rightarrow> do {
              let m = PMsg (nil_pHdr\<lparr>p_MType := P_VC_REPLY, p_ViewNumber := ViewNumber (pb_View s),
                    p_SendNode := pb_GetNodeName s\<rparr>) [] [] [] (map Some rs);
              let s = s\<lparr>pb_CurPhase := P_NEW_VIEW\<rparr>;
              v \<leftarrow> NextView (pb_View s);
              let s = s\<lparr>pb_View := v\<rparr>;
              mx \<leftarrow> GetMaxSeqInOSets s;
              let s = s\<lparr>SequenceNum := mx + 1\<rparr>;
              s \<leftarrow> pb_start s;
              Some (Some m, s)
            }
        }
      })"

section \<open>Dispatch, requests, sync (pbft.go)\<close>

definition RoutePMsg :: "'a pbft_env_scheme \<Rightarrow> PBFT \<Rightarrow> PMsg \<Rightarrow> pb_result" where
  "RoutePMsg env s msg =
     (case pm_MType msg of
        P_NEW_VIEW \<Rightarrow> HandleNewViewMsg env s msg
      | P_PREPREPARE \<Rightarrow> HandlePrePrepareMsg env s msg
      | P_PREPARE \<Rightarrow> HandlePrepareMsg env s msg
      | P_COMMIT \<Rightarrow> HandleCommitMsg env s msg
      | P_REPLY \<Rightarrow> Some (None, s)
      | P_VIEW_CHANGE \<Rightarrow> HandleViewChangeMsg env s msg
      | P_CHECKPOINT \<Rightarrow> HandleCheckPoint env s msg
      | P_VC_PREPARE \<Rightarrow> HandleVCPrepareMsg env s msg
      | P_VC_COMMIT \<Rightarrow> HandleVCCommitMsg env s msg
      | _ \<Rightarrow> Some (None, s))"

text \<open>The search for a redone request: it only executes (which does nothing) or meets a nil pointer.\<close>

fun scan_seq :: "int \<Rightarrow> PMsg option list \<Rightarrow> unit option" where
  "scan_seq i [] = Some ()"
| "scan_seq i (mo # ms) = do { m \<leftarrow> mo; if i = pm_SeqNum m then Some () else scan_seq i ms }"

fun redo_execute :: "PBFT \<Rightarrow> PMsg option list \<Rightarrow> unit option" where
  "redo_execute s [] = Some ()"
| "redo_execute s (mo # ms) =
     (case ml_NewViewMsgs (ViewChangeMsgs s) of
        [] \<Rightarrow> None
      | m0 # _ \<Rightarrow>
          if OSet m0 = [] then redo_execute s ms
          else do { m \<leftarrow> mo; _ \<leftarrow> scan_seq (pm_SeqNum m) (OSet m0); redo_execute s ms })"

text \<open>\<open>msg\<close> is what \<open>json.Unmarshal\<close> leaves in the message variable, errors being ignored.\<close>

definition HandlePMsg :: "'a pbft_env_scheme \<Rightarrow> PBFT \<Rightarrow> PMsg \<Rightarrow> PBFT option" where
  "HandlePMsg env s msg =
     (if pm_ViewNumber msg < ViewNumber (pb_View s) \<and> pm_MType msg \<noteq> P_CHECKPOINT then Some s
      else do {
        (msgReturn, s) \<leftarrow> RoutePMsg env s msg;
        case msgReturn of
          None \<Rightarrow> Some s
        | Some r \<Rightarrow>
            if pm_MType r = P_REPLY then
              if pb_Execute then
                let client = with_hdr (\<lambda>h. h\<lparr>p_ViewNumber := ViewNumber (pb_View s) - 1,
                      p_Proposal_of := nil_p_Proposal, p_SendNode := pb_GetNodeName s, p_ReciNode := ''Client''\<rparr>) nil_PMsg;
                    s = s\<lparr>pb_Tasks := pb_Tasks s @ [Task_Send client]\<rparr>;
                    s = (if pb_IsLeader s then
                           let s = (if pb_CurPhase s \<noteq> P_CHECKPOINT then s\<lparr>pb_CurPhase := P_WAITING\<rparr> else s)
                           in s\<lparr>pb_Tasks := pb_Tasks s @ [Task_Preprepare]\<rparr>
                         else s);
                    buf = cp_buffer (pb_CheckPoint s) (pm_SeqNum r)
                in if (pm_SeqNum r + 1) smod CHECKPOINTNUM = 0 \<and> length buf \<noteq> 0
                   then pb_SendSerMsg s (hd buf)
                   else Some s
              else Some s
            else if pm_MType r = P_VC_REPLY then do {
              _ \<leftarrow> redo_execute s (OSet r);
              let s = ReSetViewchangeMsgs s;
              if pb_IsLeader s
              then Some (s\<lparr>pb_CurPhase := P_WAITING, pb_Tasks := pb_Tasks s @ [Task_Preprepare]\<rparr>)
              else Some s
            }
            else pb_SendSerMsg s (with_hdr (\<lambda>h. h\<lparr>p_SendNode := pb_GetNodeName s\<rparr>) r)
      })"

definition pb_HandleReq ::
  "'a env_scheme \<Rightarrow> PBFT \<Rightarrow> int \<Rightarrow> bytes \<Rightarrow> bytes \<Rightarrow> BCRequest list \<Rightarrow> PBFT option" where
  "pb_HandleReq env s height preHash curHash req =
     (let proposal = nil_p_Proposal\<lparr>pp_Height := height, pp_PreBlkHash := preHash, pp_CurBlkHash := curHash,
                       pp_Command := Some []\<rparr>;
          proposal = foldl (\<lambda>p r. p\<lparr>pp_Command := Some (slices (pp_Command p) @ [rq_Cmd r])\<rparr>) proposal req;
          s = s\<lparr>pb_CurProposal := proposal\<rparr>;
          s = s\<lparr>pb_CurPhase := P_NEW_VIEW\<rparr>
      in if ProposalLock s then None
         else
           let s = s\<lparr>ProposalLock := True\<rparr>
           in if pb_CurPhase s \<noteq> P_NEW_VIEW then Some s
              else do {
                (msgReturn, s) \<leftarrow> Preprepare env s;
                case msgReturn of
                  None \<Rightarrow> Some (s\<lparr>ProposalLock := False\<rparr>)
                | Some m \<Rightarrow> do { s \<leftarrow> pb_SendSerMsg s m; Some (s\<lparr>ProposalLock := False\<rparr>) }
              })"

definition pb_AddSyncInfo :: "PBFT \<Rightarrow> NodeMgmtMsg \<Rightarrow> NodeMgmtMsg" where
  "pb_AddSyncInfo s msg =
     msg\<lparr>nm_ViewNumber := ViewNumber (pb_View s), nm_Leader := Leader (pb_View s),
         nm_Block := nm_Block msg @ [CurProposalBlk (pb_BlkStore s)],
         nm_HsNodes := nm_HsNodes msg @ [\<lparr>CurHash = Some [to_byte (SequenceNum s)], ParentHash = Pk (pb_Signer s)\<rparr>]\<rparr>"

definition pb_SyncInfo :: "PBFT \<Rightarrow> NodeMgmtMsg \<Rightarrow> int \<Rightarrow> PBFT option" where
  "pb_SyncInfo s msg leader = do {
     let sg = (pb_Signer s)\<lparr>ID := pb_GetNodeName s\<rparr>;
     let sg = sg\<lparr>Pks := (Pks sg)(ID sg \<mapsto> Pk sg)\<rparr>;
     let s = s\<lparr>pb_Signer := sg\<rparr>;
     blk \<leftarrow> (case nm_Block msg of [] \<Rightarrow> None | b # _ \<Rightarrow> Some b);
     let s = s\<lparr>pb_BlkStore := (pb_BlkStore s)\<lparr>CurProposalBlk := blk, bs_Height := bd_Height (BlkData blk)\<rparr>\<rparr>;
     node \<leftarrow> (case nm_HsNodes msg of [] \<Rightarrow> None | h # _ \<Rightarrow> Some h);
     b \<leftarrow> (case bval (CurHash node) of [] \<Rightarrow> None | x # _ \<Rightarrow> Some x);
     let s = s\<lparr>SequenceNum := uint b\<rparr>;
     let s = s\<lparr>pb_BlkStore := StoreBlock (pb_BlkStore s) (CurProposalBlk (pb_BlkStore s))\<rparr>;
     Some (s\<lparr>pb_View := UpdateView (pb_View s) (nm_ViewNumber msg) leader\<rparr>)
   }"

definition pb_UpdateNodesNum :: "PBFT \<Rightarrow> int \<Rightarrow> PBFT" where
  "pb_UpdateNodesNum s nodeNum = s\<lparr>pb_View := (pb_View s)\<lparr>NodesNum := nodeNum\<rparr>\<rparr>"

section \<open>The node\<close>

text \<open>
  An expiry is one event: the goroutine of the timer receives the timeout, sets \<open>IsStopped\<close> and calls back
  (timer.go:46 to 52) with nothing in between; \<open>hs_timer_race\<close> in Hs_Safety shows
  what happens in between.
  The operations of the node management (\<open>SyncInfo\<close>, the leader and the number of nodes)
  are no events of this machine; they are events of the orderer in Ord_Props.
\<close>

text \<open>The goroutine that \<open>HandlePMsg\<close> starts for a leader: it only proposes if it gets the lock.\<close>

definition run_task :: "'a env_scheme \<Rightarrow> PBFT \<Rightarrow> p_task \<Rightarrow> PBFT option" where
  "run_task env s t =
     (case t of
        Task_Send m \<Rightarrow> pb_SendSerMsg s m
      | Task_Preprepare \<Rightarrow>
          if ProposalLock s then Some s
          else do {
            let s = s\<lparr>ProposalLock := True\<rparr>;
            (m, s) \<leftarrow> Preprepare env s;
            s \<leftarrow> (case m of
                    None \<Rightarrow> Some s
                  | Some m \<Rightarrow> pb_SendSerMsg s (with_hdr (\<lambda>h. h\<lparr>p_SendNode := pb_GetNodeName s\<rparr>) m));
            Some (s\<lparr>ProposalLock := False\<rparr>)
          })"

datatype p_event =
    PDeliver PMsg
  | PRequest int int bytes bytes "BCRequest list"
  | PTimeout
  | PRunTask int

text \<open>A task is taken from the front; it reads the clock given with the event.\<close>

fun pb_step :: "'a pbft_env_scheme \<Rightarrow> PBFT \<Rightarrow> p_event \<Rightarrow> PBFT option" where
  "pb_step env s (PDeliver m) = HandlePMsg env s m"
| "pb_step env s (PRequest now h ph ch reqs) = pb_HandleReq (env\<lparr>Clock := now\<rparr>) s h ph ch reqs"
| "pb_step env s PTimeout =
     (if waiting (PTimer s) = 0 then Some s
      else do {
        t \<leftarrow> timer_take (PTimer s);
        t \<leftarrow> timer_mark t;
        s \<leftarrow> pb_StartViewChange env (s\<lparr>PTimer := t\<rparr>);
        t \<leftarrow> timer_finish (PTimer s);
        Some (s\<lparr>PTimer := t\<rparr>)
      })"
| "pb_step env s (PRunTask now) =
     (case pb_Tasks s of [] \<Rightarrow> Some s | t # ts \<Rightarrow> run_task (env\<lparr>Clock := now\<rparr>) (s\<lparr>pb_Tasks := ts\<rparr>) t)"

end
