(* ===== verification/Pbft_Props.thy ===== *)
theory Pbft_Props
  imports Pbft_ViewChange Dcs_Quorum "HOL-Library.Product_Lexorder"
begin

text \<open>
  PBFT: the invariant of a replica, what each handler keeps of it and when it returns, and the
  interpretations of the machine locales that carry this over to runs.
\<close>

section \<open>The invariant\<close>

text \<open>Messages without nil pointers in the sets that the handlers read.\<close>

definition pm_full :: "Pm option \<Rightarrow> bool" where
  "pm_full pmo = (case pmo of None \<Rightarrow> False
     | Some pm \<Rightarrow> PrePrepareMsg pm \<noteq> None \<and> None \<notin> set (pm_PrepareMsgs pm))"

definition no_nil :: "PMsg \<Rightarrow> bool" where
  "no_nil m \<longleftrightarrow> None \<notin> set (CSet m) \<and> list_all pm_full (PSet m) \<and> None \<notin> set (OSet m)"

text \<open>
  A slot of the log: its pre-prepare is of a view that was current when it was logged, and every
  logged vote carries a signature of its sender.
\<close>

definition slot_ok :: "'a env_scheme \<Rightarrow> ssm2_Signer \<Rightarrow> int \<Rightarrow> nat \<Rightarrow> MsgsLog \<Rightarrow> bool" where
  "slot_ok env sg cur i l \<longleftrightarrow>
     (\<forall>pp. PreprepareMsg l = Some pp \<longrightarrow>
        0 \<le> pm_ViewNumber pp \<and> pm_ViewNumber pp \<le> cur \<and> nat (pm_ViewNumber pp mod 10) = i) \<and>
     (\<forall>c \<in> set (PrepareMsgs l) \<union> set (CommitMsgs l).
        ssm2_VerifySign env sg (pm_SendNode c) (pm_Signature c) (msg_bytes1 c))"

text \<open>
  Buffered checkpoint messages are of that type, and the stable checkpoint keeps a single one of
  them: \<open>copy\<close> never writes beyond the slice of length 1 that \<open>NewPBFT\<close> makes.
\<close>

definition cp_ok :: "CheckPoint \<Rightarrow> bool" where
  "cp_ok cp \<longleftrightarrow> (\<forall>i. \<forall>m \<in> set (cp_buffer cp i). pm_MType m = P_CHECKPOINT) \<and> length (CPMsgs cp) = 1"

definition pb_inv :: "'a env_scheme \<Rightarrow> PBFT \<Rightarrow> bool" where
  "pb_inv env s \<longleftrightarrow> view_ok (pb_View s) \<and> 0 \<le> ViewNumber (pb_View s) \<and> timer_ok (PTimer s) \<and>
     pb_SendChan s \<noteq> None \<and> \<not> ProposalLock s \<and> 10 \<le> length (MsgLog s) \<and> cp_ok (pb_CheckPoint s) \<and>
     (\<forall>i < length (MsgLog s). slot_ok env (pb_Signer s) (ViewNumber (pb_View s)) i (MsgLog s ! i)) \<and>
     (\<forall>m \<in> set (pb_Tasks s). \<forall>c. m = Task_Send c \<longrightarrow> pm_MType c = P_NEW_VIEW)"

lemma pb_invD:
  assumes "pb_inv env s"
  shows "view_ok (pb_View s)" "0 \<le> ViewNumber (pb_View s)" "timer_ok (PTimer s)" "pb_SendChan s \<noteq> None"
    "\<not> ProposalLock s" "10 \<le> length (MsgLog s)" "1 \<le> NodesNum (pb_View s)" "cp_ok (pb_CheckPoint s)"
  using assms by (simp_all add: pb_inv_def view_ok_def)

lemma slot_ok_mono: "slot_ok env sg v i l \<Longrightarrow> v \<le> v' \<Longrightarrow> slot_ok env sg v' i l"
  by (auto simp: slot_ok_def)

lemma empty_slot_ok [simp]: "slot_ok env sg v i empty_MsgsLog"
  by (simp add: slot_ok_def)

lemma VerifySign_Clock [simp]: "ssm2_VerifySign (env\<lparr>Clock := t\<rparr>) = ssm2_VerifySign env"
  by (auto simp: ssm2_VerifySign_def fun_eq_iff split: option.split)

lemma pb_inv_Clock [simp]: "pb_inv (env\<lparr>Clock := t\<rparr>) s = pb_inv env s"
  by (simp add: pb_inv_def slot_ok_def)

text \<open>The slot of the current view.\<close>

definition cur_slot :: "PBFT \<Rightarrow> nat" where
  "cur_slot s = nat (ViewNumber (pb_View s) mod 10)"

definition cur_log :: "PBFT \<Rightarrow> MsgsLog" where
  "cur_log s = MsgLog s ! cur_slot s"

lemma slot_bound: "0 \<le> v \<Longrightarrow> 10 \<le> length xs \<Longrightarrow> nat (v mod 10) < length xs" for v :: int
  using pos_mod_bound [of 10 v] by linarith

lemma cur_slot_bound: "pb_inv env s \<Longrightarrow> cur_slot s < length (MsgLog s)"
  using slot_bound pb_invD by (metis cur_slot_def)

lemma log_at_ok:
  assumes "10 \<le> length (MsgLog s)" "0 \<le> v"
  shows "log_at s v = Some (MsgLog s ! nat (v mod 10))"
  using slot_bound [OF assms(2,1)] assms(2) by (simp add: log_at_def CHECKPOINTNUM_def Let_def)

lemma log_upd_ok:
  assumes "10 \<le> length (MsgLog s)" "0 \<le> v"
  shows "log_upd s v f = Some (s\<lparr>MsgLog := (MsgLog s)[nat (v mod 10) := f (MsgLog s ! nat (v mod 10))]\<rparr>)"
  using slot_bound [OF assms(2,1)] assms(2) by (simp add: log_upd_def CHECKPOINTNUM_def Let_def)

lemma log_at_cur: "pb_inv env s \<Longrightarrow> log_at s (ViewNumber (pb_View s)) = Some (cur_log s)"
  using pb_invD by (metis log_at_ok cur_log_def cur_slot_def)

definition log_set :: "PBFT \<Rightarrow> (MsgsLog \<Rightarrow> MsgsLog) \<Rightarrow> PBFT" where
  "log_set s f = s\<lparr>MsgLog := (MsgLog s)[cur_slot s := f (cur_log s)]\<rparr>"

lemma log_upd_cur: "pb_inv env s \<Longrightarrow> log_upd s (ViewNumber (pb_View s)) f = Some (log_set s f)"
  using pb_invD by (metis (no_types) log_upd_ok log_set_def cur_log_def cur_slot_def)

lemma log_set_sel [simp]:
  "pb_View (log_set s f) = pb_View s" "pb_CurPhase (log_set s f) = pb_CurPhase s"
  "pb_Signer (log_set s f) = pb_Signer s" "pb_ConsId (log_set s f) = pb_ConsId s"
  "SequenceNum (log_set s f) = SequenceNum s" "pb_BlkStore (log_set s f) = pb_BlkStore s"
  "PTimer (log_set s f) = PTimer s" "pb_SendChan (log_set s f) = pb_SendChan s"
  "ProposalLock (log_set s f) = ProposalLock s" "pb_Tasks (log_set s f) = pb_Tasks s"
  "pb_CheckPoint (log_set s f) = pb_CheckPoint s" "pb_CurProposal (log_set s f) = pb_CurProposal s"
  "cur_slot (log_set s f) = cur_slot s" "length (MsgLog (log_set s f)) = length (MsgLog s)"
  "ViewChangeMsgs (log_set s f) = ViewChangeMsgs s" "pb_ForwardChan (log_set s f) = pb_ForwardChan s"
  by (simp_all add: log_set_def cur_slot_def)

lemma cur_log_set: "pb_inv env s \<Longrightarrow> cur_log (log_set s f) = f (cur_log s)"
  using cur_slot_bound [of env s] by (auto simp: cur_log_def log_set_def cur_slot_def)

lemma cur_slot_ok: "pb_inv env s \<Longrightarrow> slot_ok env (pb_Signer s) (ViewNumber (pb_View s)) (cur_slot s) (cur_log s)"
  using cur_slot_bound by (auto simp: pb_inv_def cur_log_def)

lemma log_set_inv:
  assumes "pb_inv env s" "slot_ok env (pb_Signer s) (ViewNumber (pb_View s)) (cur_slot s) (f (cur_log s))"
  shows "pb_inv env (log_set s f)"
  using assms cur_slot_bound [OF assms(1)]
  by (auto simp: pb_inv_def log_set_def nth_list_update split: if_split)

text \<open>Updates of the fields that the invariant does not mention.\<close>

lemma pb_inv_upd [simp]:
  "pb_inv env (s\<lparr>pb_CurPhase := x1\<rparr>) = pb_inv env s" "pb_inv env (s\<lparr>SequenceNum := x2\<rparr>) = pb_inv env s"
  "pb_inv env (s\<lparr>pb_CurProposal := x3\<rparr>) = pb_inv env s" "pb_inv env (s\<lparr>pb_BlkStore := x4\<rparr>) = pb_inv env s"
  "pb_inv env (s\<lparr>ViewChangeMsgs := x6\<rparr>) = pb_inv env s"
  "pb_inv env (s\<lparr>pb_NewViewMsgs := x7\<rparr>) = pb_inv env s" "pb_inv env (s\<lparr>ReplyMsgs := x8\<rparr>) = pb_inv env s"
  "pb_inv env (s\<lparr>VCMsgSendFlag := x9\<rparr>) = pb_inv env s" "pb_inv env (s\<lparr>pb_ForwardChan := x10\<rparr>) = pb_inv env s"
  by (simp_all add: pb_inv_def)

lemma pb_inv_cp: "pb_inv env s \<Longrightarrow> cp_ok cp \<Longrightarrow> pb_inv env (s\<lparr>pb_CheckPoint := cp\<rparr>)"
  by (simp add: pb_inv_def)

lemma pb_inv_timer: "pb_inv env s \<Longrightarrow> timer_ok t \<Longrightarrow> pb_inv env (s\<lparr>PTimer := t\<rparr>)"
  by (simp add: pb_inv_def)

lemma pb_inv_view:
  "pb_inv env s \<Longrightarrow> view_ok v \<Longrightarrow> ViewNumber (pb_View s) \<le> ViewNumber v \<Longrightarrow> pb_inv env (s\<lparr>pb_View := v\<rparr>)"
  by (auto simp: pb_inv_def intro: slot_ok_mono)

lemma pb_inv_clear: "pb_inv env s \<Longrightarrow> 10 \<le> n \<Longrightarrow> pb_inv env (s\<lparr>MsgLog := replicate n empty_MsgsLog\<rparr>)"
  by (simp add: pb_inv_def)

lemma pb_inv_task:
  "pb_inv env s \<Longrightarrow> (\<And>c. t = Task_Send c \<Longrightarrow> pm_MType c = P_NEW_VIEW) \<Longrightarrow>
     pb_inv env (s\<lparr>pb_Tasks := pb_Tasks s @ [t]\<rparr>)"
  by (auto simp: pb_inv_def)

section \<open>Operations that always return\<close>

lemma pb_stop_ok: "pb_inv env s \<Longrightarrow> \<exists>t. pb_stop s = Some (s\<lparr>PTimer := t\<rparr>) \<and> timer_ok t"
  using Stop_ok [OF pb_invD(3), of env s] by (auto simp: pb_stop_def)

lemma pb_start_ok: "pb_inv env s \<Longrightarrow> \<exists>t. pb_start s = Some (s\<lparr>PTimer := t\<rparr>) \<and> timer_ok t"
  using Start_ok [OF pb_invD(3), of env s "Some PAct_StartViewChange" "Some PAct_nothing"]
  by (auto simp: pb_start_def)

lemma NextView_exists:
  "view_ok v \<Longrightarrow> \<exists>w. NextView v = Some w \<and> view_ok w \<and> ViewNumber w = ViewNumber v + 1 \<and> NodesNum w = NodesNum v"
  using NextView_ok NextView_view_ok by fastforce

text \<open>The loop that catches up with a view, in closed form.\<close>

lemma pb_catch_up_ok:
  "pb_inv env s \<Longrightarrow> \<exists>w. pb_catch_up s v = Some (s\<lparr>pb_View := w\<rparr>) \<and> view_ok w \<and>
     ViewNumber w = max (ViewNumber (pb_View s)) v \<and> NodesNum w = NodesNum (pb_View s)"
  using catch_up_ok [OF pb_invD(1), of env s v] by (auto simp: pb_catch_up_def)

lemma pb_catch_up_same: "v \<le> ViewNumber (pb_View s) \<Longrightarrow> pb_catch_up s v = Some s"
  by (simp add: pb_catch_up_def catch_up_same)

lemma pb_SendSerMsg_ok:
  "pb_inv env s \<Longrightarrow> \<exists>c. pb_SendSerMsg s m = Some (s\<lparr>pb_SendChan := Some (the (pb_SendChan s) @ [c])\<rparr>) \<and> Payload c = m"
  using pb_invD(4) [of env s] by (auto simp: pb_SendSerMsg_def Let_def)

lemma pb_inv_chan: "pb_inv env s \<Longrightarrow> pb_inv env (s\<lparr>pb_SendChan := Some c\<rparr>)"
  by (simp add: pb_inv_def)

section \<open>The messages logged in the current view\<close>

lemma LogMsg_vote:
  assumes "pb_inv env s"
  shows "pm_MType m = P_PREPREPARE \<Longrightarrow> LogMsg s m = Some (log_set s (\<lambda>l. l\<lparr>PreprepareMsg := Some m\<rparr>))"
    "pm_MType m = P_PREPARE \<Longrightarrow> LogMsg s m = Some (log_set s (\<lambda>l. l\<lparr>PrepareMsgs := PrepareMsgs l @ [m]\<rparr>))"
    "pm_MType m = P_COMMIT \<Longrightarrow> LogMsg s m = Some (log_set s (\<lambda>l. l\<lparr>CommitMsgs := CommitMsgs l @ [m]\<rparr>))"
  using log_upd_cur [OF assms] by (simp_all add: LogMsg_def)

text \<open>The effect of logging a vote whose signature has been checked.\<close>

definition add_vote :: "PMsg \<Rightarrow> MsgsLog \<Rightarrow> MsgsLog" where
  "add_vote m l = (if pm_MType m = P_PREPARE then l\<lparr>PrepareMsgs := PrepareMsgs l @ [m]\<rparr>
                   else l\<lparr>CommitMsgs := CommitMsgs l @ [m]\<rparr>)"

lemma add_vote_sel [simp]: "PreprepareMsg (add_vote m l) = PreprepareMsg l"
  by (simp add: add_vote_def)

lemma LogMsg_add_vote:
  assumes "pb_inv env s" "pm_MType m = P_PREPARE \<or> pm_MType m = P_COMMIT"
  shows "LogMsg s m = Some (log_set s (add_vote m))"
proof -
  have "LogMsg s m = Some (log_set s (\<lambda>l. l\<lparr>CommitMsgs := CommitMsgs l @ [m]\<rparr>))" if "pm_MType m = P_COMMIT"
    using LogMsg_vote(3) [OF assms(1) that] .
  moreover have "LogMsg s m = Some (log_set s (\<lambda>l. l\<lparr>PrepareMsgs := PrepareMsgs l @ [m]\<rparr>))"
    if "pm_MType m = P_PREPARE"
    using LogMsg_vote(2) [OF assms(1) that] .
  ultimately show ?thesis using assms(2) by (auto simp: log_set_def add_vote_def)
qed

lemma add_vote_inv:
  assumes "pb_inv env s" "pb_verify env s m (msg_bytes1 m)"
  shows "pb_inv env (log_set s (add_vote m))"
  using assms(2) cur_slot_ok [OF assms(1)]
  by (intro log_set_inv [OF assms(1)]) (auto simp: slot_ok_def add_vote_def pb_verify_def)

lemma preprepare_inv:
  assumes "pb_inv env s" "pm_ViewNumber m = ViewNumber (pb_View s)"
  shows "pb_inv env (log_set s (\<lambda>l. l\<lparr>PreprepareMsg := Some m\<rparr>))"
  using assms(2) cur_slot_ok [OF assms(1)] pb_invD(2) [OF assms(1)]
  by (intro log_set_inv [OF assms(1)]) (auto simp: slot_ok_def cur_slot_def)

text \<open>
  \<open>CheckMsg\<close> on a vote that is not of a past view: it is accepted exactly when it is in bounds, signed,
  and agrees with the pre-prepare in the slot of its view, which is then a slot of the current view;
  without a pre-prepare it is logged in the slot of the current view, whatever its own view is.
\<close>

definition vote_matches :: "PBFT \<Rightarrow> PMsg \<Rightarrow> bool" where
  "vote_matches s m \<longleftrightarrow> (case PreprepareMsg (cur_log s) of None \<Rightarrow> False | Some pp \<Rightarrow> pb_matches m pp)"

definition vote_in_bounds :: "PBFT \<Rightarrow> PMsg \<Rightarrow> bool" where
  "vote_in_bounds s m \<longleftrightarrow> ViewNumber (pb_View s) \<le> pm_ViewNumber m \<and>
     pm_SeqNum m \<le> cp_Seq (pb_CheckPoint s) + CHECKPOINTNUM"

definition slot_empty :: "PBFT \<Rightarrow> int \<Rightarrow> bool" where
  "slot_empty s v \<longleftrightarrow> PreprepareMsg (MsgLog s ! nat (v mod 10)) = None"

lemma accepted_view:
  assumes inv: "pb_inv env s" and v: "ViewNumber (pb_View s) \<le> pm_ViewNumber m"
    and pp: "PreprepareMsg (MsgLog s ! nat (pm_ViewNumber m mod 10)) = Some pp" and m: "pb_matches m pp"
  shows "pm_ViewNumber m = ViewNumber (pb_View s) \<and> PreprepareMsg (cur_log s) = Some pp"
proof -
  have i: "nat (pm_ViewNumber m mod 10) < length (MsgLog s)"
    using v pb_invD(2,6) [OF inv] by (intro slot_bound) linarith+
  then have "slot_ok env (pb_Signer s) (ViewNumber (pb_View s)) (nat (pm_ViewNumber m mod 10))
      (MsgLog s ! nat (pm_ViewNumber m mod 10))"
    using inv unfolding pb_inv_def by blast
  then have "pm_ViewNumber pp \<le> ViewNumber (pb_View s)" using pp by (simp add: slot_ok_def)
  then have "pm_ViewNumber m = ViewNumber (pb_View s)" using m v by (simp add: pb_matches_def)
  then show ?thesis using pp by (simp add: cur_log_def cur_slot_def)
qed

lemma CheckMsg_vote:
  assumes inv: "pb_inv env s" and t: "pm_MType m = P_PREPARE \<or> pm_MType m = P_COMMIT"
  shows "CheckMsg env s m =
    (if \<not> vote_in_bounds s m \<or> \<not> pb_verify env s m (msg_bytes1 m) then Some (False, s)
     else if slot_empty s (pm_ViewNumber m) then Some (False, log_set s (add_vote m))
     else Some (vote_matches s m \<and> pm_ViewNumber m = ViewNumber (pb_View s), s))"
proof (cases "vote_in_bounds s m \<and> pb_verify env s m (msg_bytes1 m)")
  case False
  then show ?thesis by (auto simp: CheckMsg_def vote_in_bounds_def)
next
  case True
  then have v: "ViewNumber (pb_View s) \<le> pm_ViewNumber m" by (simp add: vote_in_bounds_def)
  then have at: "log_at s (pm_ViewNumber m) = Some (MsgLog s ! nat (pm_ViewNumber m mod 10))"
    using pb_invD [OF inv] by (intro log_at_ok) linarith+
  show ?thesis
  proof (cases "PreprepareMsg (MsgLog s ! nat (pm_ViewNumber m mod 10))")
    case None
    with True at t LogMsg_add_vote [OF inv t] show ?thesis
      by (auto simp: CheckMsg_def vote_in_bounds_def MatchPrePrepareMsg_def slot_empty_def)
  next
    case (Some pp)
    have "(pm_ViewNumber m = pm_ViewNumber pp \<and> pm_SeqNum m = pm_SeqNum pp \<and>
        bytes_Equal (pm_Digest m) (pm_Digest pp)) \<longleftrightarrow> (vote_matches s m \<and> pm_ViewNumber m = ViewNumber (pb_View s))"
      using accepted_view [OF inv v Some] Some
      by (auto simp: vote_matches_def pb_matches_def cur_log_def cur_slot_def split: option.splits)
    with True at t Some show ?thesis
      by (auto simp: CheckMsg_def vote_in_bounds_def MatchPrePrepareMsg_def slot_empty_def)
  qed
qed

section \<open>What the handlers do\<close>

text \<open>The block of a finished round, with the logged commits as its validation.\<close>

definition reply_block :: "'a pbft_env_scheme \<Rightarrow> PBFT \<Rightarrow> Block" where
  "reply_block env s = (let blk = CurProposalBlk (pb_BlkStore s)
     in blk\<lparr>BlkHdr := (BlkHdr blk)\<lparr>bh_Validation := Some (MarshalMsgs env (CommitMsgs (cur_log s)))\<rparr>\<rparr>)"

definition same_node :: "PBFT \<Rightarrow> PBFT \<Rightarrow> bool" where
  "same_node s s' \<longleftrightarrow> pb_ConsId s' = pb_ConsId s \<and> pb_Signer s' = pb_Signer s \<and>
     pb_SendChan s' = pb_SendChan s \<and> pb_ForwardChan s' = pb_ForwardChan s \<and> pb_Tasks s' = pb_Tasks s \<and>
     NodesNum (pb_View s') = NodesNum (pb_View s)"

lemma same_node_refl [simp]: "same_node s s"
  by (simp add: same_node_def)

lemma same_node_trans: "same_node s t \<Longrightarrow> same_node t u \<Longrightarrow> same_node s u"
  by (simp add: same_node_def)

lemma same_node_log_set [simp]: "same_node s (log_set s f)"
  by (simp add: same_node_def)

lemma cp_ok_buffer: "cp_ok cp \<Longrightarrow> CPMsgsBuffer cp i = Some ms \<Longrightarrow> m \<in> set ms \<Longrightarrow> pm_MType m = P_CHECKPOINT"
  unfolding cp_ok_def cp_buffer_def by (metis option.simps(5))

lemma cp_ok_put:
  "cp_ok cp \<Longrightarrow> (\<forall>m\<in>set ms. pm_MType m = P_CHECKPOINT) \<Longrightarrow>
     cp_ok (cp\<lparr>CPMsgsBuffer := (CPMsgsBuffer cp)(i \<mapsto> ms)\<rparr>)"
  by (simp add: cp_ok_def cp_buffer_def)

lemma cp_ok_upd [simp]: "cp_ok (cp\<lparr>cp_Seq := n\<rparr>) = cp_ok cp" "cp_ok (cp\<lparr>WaitSeq := n\<rparr>) = cp_ok cp"
  by (simp_all add: cp_ok_def cp_buffer_def)

lemma GenCheckPoint_frame:
  assumes "cp_ok (pb_CheckPoint s)"
  shows "\<exists>b cp. GenCheckPoint env s m = (b, s\<lparr>pb_CheckPoint := cp\<rparr>) \<and> cp_ok cp"
proof -
  let ?r = "GenCheckPoint env s m"
  have "snd ?r = s\<lparr>pb_CheckPoint := pb_CheckPoint (snd ?r)\<rparr> \<and> cp_ok (pb_CheckPoint (snd ?r))"
    using assms
    by (auto simp: GenCheckPoint_def Let_def put_sign_def intro!: cp_ok_put dest: cp_ok_buffer
        split: option.splits)
  then show ?thesis
    by (intro exI [of _ "fst ?r"] exI [of _ "pb_CheckPoint (snd ?r)"]) (metis prod.collapse)
qed

lemma pb_reply_ok:
  assumes inv: "pb_inv env s" and v: "pm_ViewNumber m \<le> ViewNumber (pb_View s)"
  shows "\<exists>r s'. pb_reply env s m = Some (Some r, s') \<and> pm_MType r = P_REPLY \<and> pb_inv env s' \<and> same_node s s' \<and>
    ViewNumber (pb_View s') = ViewNumber (pb_View s) + 1 \<and> SequenceNum s' = SequenceNum s + 1 \<and>
    MsgLog s' = MsgLog s \<and> ViewChangeMsgs s' = ViewChangeMsgs s \<and> pb_BlkStore s' = StoreBlock ((pb_BlkStore s)\<lparr>CurProposalBlk := reply_block env s\<rparr>) (reply_block env s) \<and>
    (pb_CurPhase s' = P_CHECKPOINT \<or> pb_CurPhase s' = P_NEW_VIEW)"
proof -
  obtain t where t: "pb_stop s = Some (s\<lparr>PTimer := t\<rparr>)" "timer_ok t" using pb_stop_ok [OF inv] by blast
  define r where "r = with_hdr (\<lambda>h. h\<lparr>p_MType := P_REPLY, p_ViewNumber := ViewNumber (pb_View s),
           p_SeqNum := SequenceNum s, p_Digest := pm_Digest m, p_ReciNode := pm_SendNode m\<rparr>) nil_PMsg"
  define s1 where "s1 = s\<lparr>PTimer := t, pb_CurPhase := P_COMMIT, ReplyMsgs := ReplyMsgs s @ [r],
      pb_BlkStore := StoreBlock ((pb_BlkStore s)\<lparr>CurProposalBlk := reply_block env s\<rparr>) (reply_block env s)\<rparr>"
  obtain b cp where cp: "GenCheckPoint env s1 r = (b, s1\<lparr>pb_CheckPoint := cp\<rparr>)" "cp_ok cp"
    using GenCheckPoint_frame [of s1 env r] pb_invD(8) [OF inv] by (auto simp: s1_def)
  obtain w where w: "NextView (pb_View s) = Some w" "view_ok w" "ViewNumber w = ViewNumber (pb_View s) + 1"
    "NodesNum w = NodesNum (pb_View s)" using NextView_exists pb_invD(1) [OF inv] by blast
  have inv1: "pb_inv env s1" using pb_inv_timer [OF inv t(2)] by (simp add: s1_def pb_inv_def)
  define s2 where "s2 = s1\<lparr>pb_CheckPoint := cp, pb_CurPhase := (if b then P_CHECKPOINT else P_NEW_VIEW),
    pb_View := w, pb_CurProposal := nil_p_Proposal, SequenceNum := SequenceNum s1 + 1\<rparr>"
  have inv2: "pb_inv env s2"
    using pb_inv_view [OF inv1, of w] w cp(2) by (simp add: s2_def s1_def pb_inv_def)
  obtain t2 where t2: "pb_start s2 = Some (s2\<lparr>PTimer := t2\<rparr>)" "timer_ok t2" using pb_start_ok [OF inv2] by blast
  have at: "log_at (s\<lparr>PTimer := t, pb_CurPhase := P_COMMIT\<rparr>) (ViewNumber (pb_View s)) = Some (cur_log s)"
    using log_at_cur [of env "s\<lparr>PTimer := t, pb_CurPhase := P_COMMIT\<rparr>"] pb_inv_timer [OF inv t(2)]
    by (simp add: cur_log_def cur_slot_def)
  have cp': "GenCheckPoint env (s\<lparr>PTimer := t, pb_CurPhase := P_COMMIT, ReplyMsgs := ReplyMsgs s @ [r],
      pb_BlkStore := StoreBlock ((pb_BlkStore s)\<lparr>CurProposalBlk := reply_block env s\<rparr>) (reply_block env s)\<rparr>) r = (b, s1\<lparr>pb_CheckPoint := cp\<rparr>)"
    using cp by (simp add: s1_def)
  note cp'' = cp' [unfolded reply_block_def Let_def]
  have "pb_reply env s m = Some (Some r, s2\<lparr>PTimer := t2\<rparr>)"
    using t2(1) w(1) at
    by (cases b) (simp_all add: pb_reply_def pb_catch_up_same [OF v] t(1) Let_def r_def [symmetric]
        cp'' pb_NewRound_def, simp_all add: s1_def s2_def)
  moreover have "pb_inv env (s2\<lparr>PTimer := t2\<rparr>)" using pb_inv_timer [OF inv2 t2(2)] .
  ultimately show ?thesis
    using w by (auto simp: s2_def s1_def r_def same_node_def)
qed

text \<open>The commit handler.\<close>

definition vote_ready :: "'a env_scheme \<Rightarrow> PBFT \<Rightarrow> PMsg \<Rightarrow> bool" where
  "vote_ready env s m \<longleftrightarrow> pb_CurPhase s \<noteq> P_VIEW_CHANGE \<and> vote_in_bounds s m \<and> pb_verify env s m (msg_bytes1 m)"

lemma HandleCommitMsg_eq:
  assumes inv: "pb_inv env s" and t: "pm_MType m = P_COMMIT"
  shows "HandleCommitMsg env s m =
    (if \<not> vote_ready env s m then Some (None, s)
     else if slot_empty s (pm_ViewNumber m) then Some (None, log_set s (add_vote m))
     else if \<not> (vote_matches s m \<and> pm_ViewNumber m = ViewNumber (pb_View s)) then Some (None, s)
     else if above_thr (NodesNum (pb_View s)) (PrepareMsgs (cur_log s)) \<and>
             above_thr (NodesNum (pb_View s)) (CommitMsgs (cur_log s) @ [m])
       then pb_reply env (log_set s (add_vote m)) m
     else Some (None, log_set s (add_vote m)))"
proof (cases "vote_ready env s m \<and> vote_matches s m \<and> pm_ViewNumber m = ViewNumber (pb_View s) \<and> \<not> slot_empty s (pm_ViewNumber m)")
  case False
  then show ?thesis
    by (auto simp: HandleCommitMsg_def commited_def CheckMsg_vote [OF inv disjI2 [OF t]] vote_ready_def)
next
  case True
  then have inv1: "pb_inv env (log_set s (add_vote m))"
    using add_vote_inv [OF inv] by (simp add: vote_ready_def)
  have log: "LogMsg s m = Some (log_set s (add_vote m))" using LogMsg_add_vote [OF inv] t by blast
  have at: "log_at (log_set s (add_vote m)) (ViewNumber (pb_View s)) = Some (add_vote m (cur_log s))"
    using log_at_cur [OF inv1] cur_log_set [OF inv, of "add_vote m"] by simp
  show ?thesis
    using True t
    by (simp add: HandleCommitMsg_def commited_def CheckMsg_vote [OF inv disjI2 [OF t]] vote_ready_def log at)
      (simp add: add_vote_def)
qed

text \<open>The prepare handler.\<close>

definition vote_msg :: "'a env_scheme \<Rightarrow> PBFT \<Rightarrow> p_StateType \<Rightarrow> int \<Rightarrow> bytes \<Rightarrow> PMsg" where
  "vote_msg env s ty seq d =
     (let m = with_hdr (\<lambda>h. h\<lparr>p_MType := ty, p_ViewNumber := ViewNumber (pb_View s), p_SeqNum := seq,
           p_SendNode := pb_GetNodeName s, p_Digest := d, p_ReciNode := ''Broadcast''\<rparr>) nil_PMsg
      in put_sign env s (msg_bytes1 m) m)"

lemma vote_msg_sel [simp]: "pm_MType (vote_msg env s ty q d) = ty"
  "pm_ViewNumber (vote_msg env s ty q d) = ViewNumber (pb_View s)" "pm_SeqNum (vote_msg env s ty q d) = q"
  "pm_Digest (vote_msg env s ty q d) = d" "pm_SendNode (vote_msg env s ty q d) = pb_GetNodeName s"
  by (simp_all add: vote_msg_def put_sign_def Let_def)

lemma HandlePrepareMsg_eq:
  assumes inv: "pb_inv env s" and t: "pm_MType m = P_PREPARE"
  shows "HandlePrepareMsg env s m =
    (if \<not> vote_ready env s m then Some (None, s)
     else if slot_empty s (pm_ViewNumber m) then Some (None, log_set s (add_vote m))
     else if \<not> (vote_matches s m \<and> pm_ViewNumber m = ViewNumber (pb_View s)) then Some (None, s)
     else if pb_CurPhase s \<noteq> P_PREPARE \<and> above_thr (NodesNum (pb_View s)) (PrepareMsgs (cur_log s) @ [m])
       then Some (Some (vote_msg env s P_COMMIT (SequenceNum s) (pm_Digest m)),
                  (log_set s (add_vote m))\<lparr>pb_CurPhase := P_PREPARE\<rparr>)
     else Some (None, log_set s (add_vote m)))"
proof (cases "vote_ready env s m \<and> vote_matches s m \<and> pm_ViewNumber m = ViewNumber (pb_View s) \<and> \<not> slot_empty s (pm_ViewNumber m)")
  case False
  then show ?thesis
    by (auto simp: HandlePrepareMsg_def prepared_def CheckMsg_vote [OF inv disjI1 [OF t]] vote_ready_def)
next
  case True
  then have inv1: "pb_inv env (log_set s (add_vote m))"
    using add_vote_inv [OF inv] by (simp add: vote_ready_def)
  have log: "LogMsg s m = Some (log_set s (add_vote m))" using LogMsg_add_vote [OF inv] t by blast
  have at: "log_at (log_set s (add_vote m)) (ViewNumber (pb_View s)) = Some (add_vote m (cur_log s))"
    using log_at_cur [OF inv1] cur_log_set [OF inv, of "add_vote m"] by simp
  show ?thesis
    using True t
    by (simp add: HandlePrepareMsg_def prepared_def CheckMsg_vote [OF inv disjI1 [OF t]] vote_ready_def log at
        pb_catch_up_same vote_msg_def put_sign_def pb_GetNodeName_def Let_def)
      (simp add: add_vote_def)
qed

text \<open>The pre-prepare handler.\<close>

definition keep_matching :: "PMsg \<Rightarrow> MsgsLog \<Rightarrow> MsgsLog" where
  "keep_matching m l = l\<lparr>CommitMsgs := filter (pb_matches m) (CommitMsgs l)\<rparr>"

lemma keep_matching_sel [simp]: "PreprepareMsg (keep_matching m l) = PreprepareMsg l"
  "PrepareMsgs (keep_matching m l) = PrepareMsgs l"
  "CommitMsgs (keep_matching m l) = filter (pb_matches m) (CommitMsgs l)"
  by (simp_all add: keep_matching_def)

lemma keep_matching_inv: "pb_inv env s \<Longrightarrow> pb_inv env (log_set s (keep_matching m))"
  using cur_slot_ok by (intro log_set_inv) (auto simp: slot_ok_def)

lemma CheckPrepareAndCommit_eq:
  assumes inv: "pb_inv env s"
  shows "CheckPrepareAndCommit env s m =
    (if PrepareMsgs (cur_log s) = [] then Some (None, s)
     else if above_thr (NodesNum (pb_View s)) (filter (pb_matches m) (CommitMsgs (cur_log s)))
       then pb_reply env (log_set s (keep_matching m)) m
     else Some (None, log_set s (keep_matching m)))"
proof -
  have "log_at (log_set s (keep_matching m)) (ViewNumber (pb_View s)) = Some (keep_matching m (cur_log s))"
    using log_at_cur [OF keep_matching_inv [OF inv]] cur_log_set [OF inv] by simp
  moreover have "log_upd s (ViewNumber (pb_View s)) (\<lambda>l. l\<lparr>CommitMsgs := filter (pb_matches m) (CommitMsgs l)\<rparr>)
      = Some (log_set s (keep_matching m))"
    using log_upd_cur [OF inv, of "keep_matching m"] by (simp add: keep_matching_def [abs_def])
  ultimately show ?thesis
    by (simp add: CheckPrepareAndCommit_def log_at_cur [OF inv])
qed

text \<open>What a replica makes of a pre-prepare it accepts, before it looks at the logged votes.\<close>

definition pp_ready :: "'a env_scheme \<Rightarrow> PBFT \<Rightarrow> PMsg \<Rightarrow> bool" where
  "pp_ready env s m \<longleftrightarrow> PreprepareMsg (cur_log s) = None \<and> pm_ViewNumber m = ViewNumber (pb_View s) \<and>
     SequenceNum s \<le> pm_SeqNum m \<and> pb_verify env s m (msg_bytes0 m)"

definition pp_take :: "'a env_scheme \<Rightarrow> PBFT \<Rightarrow> PMsg \<Rightarrow> PBFT option" where
  "pp_take env s m =
     (let s = log_set s (\<lambda>l. l\<lparr>PreprepareMsg := Some m\<rparr>)
      in if pb_IsLeader s then Some s
         else pb_stop ((UpdateConsensus env s m)\<lparr>pb_CurPhase := P_PREPREPARE,
                pb_CurProposal := p_Proposal_of (hd_of m), SequenceNum := pm_SeqNum m\<rparr>))"

lemma pp_take_ok:
  assumes inv: "pb_inv env s" and "pp_ready env s m"
  shows "\<exists>s'. pp_take env s m = Some s' \<and> pb_inv env s' \<and> same_node s s' \<and> pb_View s' = pb_View s \<and>
    cur_log s' = (cur_log s)\<lparr>PreprepareMsg := Some m\<rparr> \<and> cp_Seq (pb_CheckPoint s') = cp_Seq (pb_CheckPoint s) \<and>
    ViewChangeMsgs s' = ViewChangeMsgs s \<and>
    (if pb_IsLeader s then s' = log_set s (\<lambda>l. l\<lparr>PreprepareMsg := Some m\<rparr>)
     else pb_CurPhase s' = P_PREPREPARE \<and> SequenceNum s' = pm_SeqNum m \<and>
          pb_BlkStore s' = pb_BlkStore (UpdateConsensus env s m))"
proof -
  let ?s = "log_set s (\<lambda>l. l\<lparr>PreprepareMsg := Some m\<rparr>)"
  have inv1: "pb_inv env ?s" using preprepare_inv [OF inv] assms(2) by (simp add: pp_ready_def)
  let ?u = "(UpdateConsensus env ?s m)\<lparr>pb_CurPhase := P_PREPREPARE,
                pb_CurProposal := p_Proposal_of (hd_of m), SequenceNum := pm_SeqNum m\<rparr>"
  have inv2: "pb_inv env ?u" using inv1 by (simp add: UpdateConsensus_def Let_def)
  obtain t where t: "pb_stop ?u = Some (?u\<lparr>PTimer := t\<rparr>)" "timer_ok t" using pb_stop_ok [OF inv2] by blast
  have cl: "cur_log ?s = (cur_log s)\<lparr>PreprepareMsg := Some m\<rparr>" using cur_log_set [OF inv] .
  show ?thesis
  proof (cases "pb_IsLeader s")
    case True
    then show ?thesis using inv1 cl by (simp add: pp_take_def pb_IsLeader_def)
  next
    case False
    have "cur_log (?u\<lparr>PTimer := t\<rparr>) = cur_log ?s"
      by (simp add: cur_log_def cur_slot_def UpdateConsensus_def Let_def)
    then show ?thesis
      using False t inv2 pb_inv_timer [OF inv2 t(2)] cl
      by (simp add: pp_take_def pb_IsLeader_def same_node_def) (simp add: UpdateConsensus_def Let_def)
  qed
qed

lemma HandlePrePrepareMsg_eq:
  assumes inv: "pb_inv env s" and t: "pm_MType m = P_PREPREPARE" and v: "ViewNumber (pb_View s) \<le> pm_ViewNumber m"
  shows "HandlePrePrepareMsg env s m =
    (if \<not> pp_ready env s m then Some (None, s)
     else do {
       s1 \<leftarrow> pp_take env s m;
       (w, s2) \<leftarrow> CheckPrepareAndCommit env s1 m;
       if w \<noteq> None then Some (w, s2)
       else Some (Some (vote_msg env s2 P_PREPARE (pm_SeqNum m) (pm_Digest m)), s2)
     })"
proof -
  have at: "log_at s (pm_ViewNumber m) = Some (MsgLog s ! nat (pm_ViewNumber m mod 10))"
    using v pb_invD(2,6) [OF inv] by (intro log_at_ok) linarith+
  show ?thesis
  proof (cases "pm_ViewNumber m = ViewNumber (pb_View s)")
    case False
    then show ?thesis
      using at by (simp add: HandlePrePrepareMsg_def CheckPrePrepareMsg_def pp_ready_def)
  next
    case True
    then have cl: "MsgLog s ! nat (pm_ViewNumber m mod 10) = cur_log s" by (simp add: cur_log_def cur_slot_def)
    show ?thesis
      using True at LogMsg_vote(1) [OF inv t]
      by (auto simp: HandlePrePrepareMsg_def CheckPrePrepareMsg_def pp_ready_def log_at_cur [OF inv] cl pp_take_def
          Let_def vote_msg_def cong: if_cong)
  qed
qed

section \<open>The contract of the handlers\<close>

definition pb_kept :: "'a env_scheme \<Rightarrow> PBFT \<Rightarrow> PBFT \<Rightarrow> bool" where
  "pb_kept env s s' \<longleftrightarrow> pb_inv env s' \<and> same_node s s' \<and> ViewNumber (pb_View s) \<le> ViewNumber (pb_View s')"

lemma pb_kept_refl [simp]: "pb_inv env s \<Longrightarrow> pb_kept env s s"
  by (simp add: pb_kept_def)

lemma pb_kept_trans: "pb_kept env s t \<Longrightarrow> pb_kept env t u \<Longrightarrow> pb_kept env s u"
  by (auto simp: pb_kept_def intro: same_node_trans)

definition pb_files :: "PBFT \<Rightarrow> string \<rightharpoonup> Block" where
  "pb_files s = bs_Files (pb_BlkStore s)"

lemma pb_files_log_set [simp]: "pb_files (log_set s f) = pb_files s"
  by (simp add: pb_files_def)

text \<open>The position of a replica: its view, and how far it has gone in it.\<close>

definition pb_rank :: "PBFT \<Rightarrow> nat" where
  "pb_rank s = (if PreprepareMsg (cur_log s) = None then 0
     else if pb_CurPhase s = P_PREPARE \<or> pb_CurPhase s = P_VIEW_CHANGE then 2 else 1)"

definition pb_pos :: "PBFT \<Rightarrow> int \<times> nat" where
  "pb_pos s = (ViewNumber (pb_View s), pb_rank s)"

definition pb_vote_key :: "PMsg \<Rightarrow> (int \<times> nat) option" where
  "pb_vote_key m = (case pm_MType m of P_PREPARE \<Rightarrow> Some (pm_ViewNumber m, 1)
     | P_COMMIT \<Rightarrow> Some (pm_ViewNumber m, 2) | _ \<Rightarrow> None)"

definition pb_advance :: "PBFT \<Rightarrow> PMsg option \<Rightarrow> PBFT \<Rightarrow> bool" where
  "pb_advance s ret s' \<longleftrightarrow> pb_pos s \<le> pb_pos s' \<and>
     (\<forall>m k. ret = Some m \<longrightarrow> pb_vote_key m = Some k \<longrightarrow> pb_pos s < k \<and> k \<le> pb_pos s') \<and>
     (\<forall>m. ret = Some m \<longrightarrow> pm_MType m \<noteq> P_VC_REPLY \<and>
        (pm_MType m = P_REPLY \<longrightarrow> pb_CurPhase s' = P_CHECKPOINT \<or> pb_CurPhase s' = P_NEW_VIEW))"

lemma pb_advance_None [simp]: "pb_advance s None s' \<longleftrightarrow> pb_pos s \<le> pb_pos s'"
  by (simp add: pb_advance_def)

lemma pb_pos_view: "ViewNumber (pb_View s) < ViewNumber (pb_View s') \<Longrightarrow> pb_pos s \<le> pb_pos s'"
  by (simp add: pb_pos_def)

lemma pb_pos_add_vote [simp]: "pb_inv env s \<Longrightarrow> pb_pos (log_set s (add_vote m)) = pb_pos s"
  by (simp add: pb_pos_def pb_rank_def cur_log_set)

lemma pb_reply_effect:
  assumes "pb_inv env s" "pm_ViewNumber m \<le> ViewNumber (pb_View s)" "pb_reply env s m = Some (ret, s')"
  shows "pb_kept env s s' \<and> pb_advance s ret s' \<and> (\<exists>r. ret = Some r \<and> pm_MType r = P_REPLY)"
  using pb_reply_ok [OF assms(1,2)] assms(3)
  by (auto simp: pb_kept_def pb_advance_def pb_vote_key_def intro!: pb_pos_view)

lemma HandleCommitMsg_effect:
  assumes inv: "pb_inv env s" and t: "pm_MType m = P_COMMIT" and r: "HandleCommitMsg env s m = Some (ret, s')"
  shows "pb_kept env s s' \<and> pb_advance s ret s'"
proof (cases "vote_ready env s m")
  case False
  with r inv show ?thesis by (simp add: HandleCommitMsg_eq [OF inv t])
next
  case True
  then have inv1: "pb_inv env (log_set s (add_vote m))" using add_vote_inv [OF inv] by (simp add: vote_ready_def)
  then have k1: "pb_kept env s (log_set s (add_vote m))" by (simp add: pb_kept_def)
  show ?thesis
  proof (cases "pb_reply env (log_set s (add_vote m)) m = Some (ret, s') \<and> pm_ViewNumber m = ViewNumber (pb_View s)")
    case reply: True
    with pb_reply_effect [OF inv1, of m ret s'] show ?thesis
      using pb_kept_trans [OF k1] inv by (auto simp: pb_advance_def pb_pos_add_vote)
  next
    case False
    with r True k1 inv show ?thesis by (auto simp: HandleCommitMsg_eq [OF inv t] split: if_splits)
  qed
qed

lemma HandlePrepareMsg_effect:
  assumes inv: "pb_inv env s" and t: "pm_MType m = P_PREPARE" and r: "HandlePrepareMsg env s m = Some (ret, s')"
  shows "pb_kept env s s' \<and> pb_advance s ret s' \<and> pb_files s' = pb_files s"
proof (cases "vote_ready env s m")
  case False
  with r inv show ?thesis by (simp add: HandlePrepareMsg_eq [OF inv t])
next
  case True
  then have inv1: "pb_inv env (log_set s (add_vote m))" using add_vote_inv [OF inv] by (simp add: vote_ready_def)
  then have k1: "pb_kept env s (log_set s (add_vote m))" by (simp add: pb_kept_def)
  define s2 where "s2 = (log_set s (add_vote m))\<lparr>pb_CurPhase := P_PREPARE\<rparr>"
  have c: "cur_log s2 = add_vote m (cur_log s)"
    using cur_log_set [OF inv, of "add_vote m"] by (simp add: cur_log_def cur_slot_def s2_def)
  have k2: "pb_kept env s s2" "pb_files s2 = pb_files s" "ViewNumber (pb_View s2) = ViewNumber (pb_View s)"
    using inv1 by (simp_all add: s2_def pb_kept_def same_node_def pb_files_def)
  have adv: "pb_advance s (Some (vote_msg env s P_COMMIT (SequenceNum s) (pm_Digest m))) s2"
    if "vote_matches s m" "pb_CurPhase s \<noteq> P_PREPARE"
    using that True c
    by (auto simp: pb_advance_def pb_pos_def pb_rank_def pb_vote_key_def vote_matches_def vote_ready_def s2_def
        split: option.splits)
  show ?thesis
    using r True k1 k2 inv adv by (auto simp: HandlePrepareMsg_eq [OF inv t] s2_def [symmetric] split: if_splits)
qed

lemma HandlePrePrepareMsg_effect:
  assumes inv: "pb_inv env s" and t: "pm_MType m = P_PREPREPARE" and v: "ViewNumber (pb_View s) \<le> pm_ViewNumber m"
    and r: "HandlePrePrepareMsg env s m = Some (ret, s')"
  shows "pb_kept env s s' \<and> pb_advance s ret s'"
proof (cases "pp_ready env s m")
  case False
  with r inv show ?thesis by (simp add: HandlePrePrepareMsg_eq [OF inv t v])
next
  case True
  from pp_take_ok [OF inv True] obtain s1 where s1: "pp_take env s m = Some s1" "pb_inv env s1" "same_node s s1"
    "pb_View s1 = pb_View s" "cur_log s1 = (cur_log s)\<lparr>PreprepareMsg := Some m\<rparr>" by blast
  have mv: "pm_ViewNumber m = ViewNumber (pb_View s)" using True by (simp add: pp_ready_def)
  have k1: "pb_kept env s s1" using s1 by (simp add: pb_kept_def)
  have inv2: "pb_inv env (log_set s1 (keep_matching m))" using keep_matching_inv [OF s1(2)] .
  have k2: "pb_kept env s (log_set s1 (keep_matching m))"
    using inv2 s1 by (auto simp: pb_kept_def intro: same_node_trans)
  have rank: "pb_rank s = 0" "1 \<le> pb_rank s1" "1 \<le> pb_rank (log_set s1 (keep_matching m))"
    using True s1 cur_log_set [OF s1(2), of "keep_matching m"] by (simp_all add: pb_rank_def pp_ready_def)
  have vote: "pb_advance s (Some (vote_msg env u P_PREPARE (pm_SeqNum m) (pm_Digest m))) u"
    if "pb_View u = pb_View s" "1 \<le> pb_rank u" for u
    using that rank(1) by (auto simp: pb_advance_def pb_pos_def pb_vote_key_def)
  have rep: "pb_kept env s s' \<and> pb_advance s ret s' \<and> ret \<noteq> None"
    if "pb_reply env (log_set s1 (keep_matching m)) m = Some (ret, s')" for ret s'
    using pb_reply_effect [OF inv2 _ that] pb_kept_trans [OF k2] s1 mv rank
    by (auto simp: pb_advance_def pb_pos_def pb_vote_key_def)
  show ?thesis
    using r True s1(1,4) vote rank(2,3) k1 k2
    by (auto simp: HandlePrePrepareMsg_eq [OF inv t v] CheckPrepareAndCommit_eq [OF s1(2)] bind_Some_iff
        dest: rep split: if_splits)
qed

end
