(* ===== verification/Pbft_Runs.thy ===== *)
theory Pbft_Runs
  imports Pbft_Props
begin

text \<open>
  PBFT: the handlers of checkpoints and view changes, requests, timeouts and tasks, and the
  interpretations of the machine locales that carry the invariant and the votes over to runs.
\<close>

section \<open>Logging the other messages\<close>

lemma log_set_ml_inv:
  "pb_inv env s \<Longrightarrow> pb_inv env (log_set s (\<lambda>l. l\<lparr>ml_NewViewMsgs := f l\<rparr>))"
  using cur_slot_ok by (intro log_set_inv) (auto simp: slot_ok_def)

definition pb_quiet :: "'a env_scheme \<Rightarrow> PBFT \<Rightarrow> PBFT \<Rightarrow> bool" where
  "pb_quiet env s s' \<longleftrightarrow> pb_kept env s s' \<and> pb_files s' = pb_files s"

lemma pb_quiet_refl [simp]: "pb_inv env s \<Longrightarrow> pb_quiet env s s"
  by (simp add: pb_quiet_def)

lemma pb_quiet_trans: "pb_quiet env s t \<Longrightarrow> pb_quiet env t u \<Longrightarrow> pb_quiet env s u"
  by (auto simp: pb_quiet_def intro: pb_kept_trans)

lemma pb_quietD: "pb_quiet env s s' \<Longrightarrow> pb_inv env s'" "pb_quiet env s s' \<Longrightarrow> pb_kept env s s'"
  by (simp_all add: pb_quiet_def pb_kept_def)

text \<open>Which messages \<open>LogMsg\<close> puts into \<open>ViewChangeMsgs\<close>.\<close>

definition add_vc :: "PMsg \<Rightarrow> MsgsLog \<Rightarrow> MsgsLog" where
  "add_vc m l = (case pm_MType m of
       P_VIEW_CHANGE \<Rightarrow> l\<lparr>ml_NewViewMsgs := ml_NewViewMsgs l @ [m]\<rparr>
     | P_VC_PREPARE \<Rightarrow> l\<lparr>PrepareMsgs := PrepareMsgs l @ [m]\<rparr>
     | P_VC_COMMIT \<Rightarrow> l\<lparr>CommitMsgs := CommitMsgs l @ [m]\<rparr>
     | _ \<Rightarrow> l)"

lemma LogMsg_vc:
  assumes "pm_MType m = P_VIEW_CHANGE \<or> pm_MType m = P_VC_PREPARE \<or> pm_MType m = P_VC_COMMIT"
  shows "LogMsg s m = Some (s\<lparr>ViewChangeMsgs := add_vc m (ViewChangeMsgs s)\<rparr>)"
  using assms by (auto simp: LogMsg_def add_vc_def)

lemma pb_quiet_vc [simp]: "pb_inv env s \<Longrightarrow> pb_quiet env s (s\<lparr>ViewChangeMsgs := x\<rparr>)"
  by (simp add: pb_quiet_def pb_kept_def same_node_def pb_files_def)

lemma pb_pos_vc [simp]: "pb_pos (s\<lparr>ViewChangeMsgs := x\<rparr>) = pb_pos s"
  by (simp add: pb_pos_def pb_rank_def cur_log_def cur_slot_def)

lemma LogMsg_new_view:
  assumes inv: "pb_inv env s" and t: "pm_MType m = P_NEW_VIEW"
  shows "\<exists>s'. LogMsg s m = Some s' \<and> pb_quiet env s s' \<and> ViewChangeMsgs s' = ViewChangeMsgs s \<and> pb_View s' = pb_View s"
proof -
  define nv where "nv = (case pb_NewViewMsgs s (pm_ViewNumber m) of None \<Rightarrow> [m] | Some ms \<Rightarrow> ms @ [m])"
  define s1 where "s1 = s\<lparr>pb_NewViewMsgs := (pb_NewViewMsgs s)(pm_ViewNumber m \<mapsto> nv)\<rparr>"
  have inv1: "pb_inv env s1" using inv by (simp add: s1_def)
  define f :: "MsgsLog \<Rightarrow> MsgsLog" where "f = (\<lambda>l. l\<lparr>ml_NewViewMsgs := ml_NewViewMsgs l @ nv\<rparr>)"
  have inv2: "pb_inv env (log_set s1 f)" unfolding f_def using log_set_ml_inv [OF inv1] .
  have "LogMsg s m = (if above_thr (NodesNum (pb_View s)) nv
      then do { l \<leftarrow> log_at s1 (ViewNumber (pb_View s1));
                if length (ml_NewViewMsgs l) = 0 then do {
                  s \<leftarrow> log_upd s1 (ViewNumber (pb_View s1)) f;
                  Some (s\<lparr>pb_NewViewMsgs := (pb_NewViewMsgs s)(pm_ViewNumber m \<mapsto> [])\<rparr>)
                } else Some s1 }
      else Some s1)"
    using t by (auto simp: LogMsg_def nv_def s1_def f_def Let_def split: option.split cong: if_cong)
  then show ?thesis
    using log_at_cur [OF inv1] log_upd_cur [OF inv1, of f] inv1 inv2
    by (auto simp: pb_quiet_def pb_kept_def same_node_def pb_files_def) (auto simp: s1_def)
qed

section \<open>Checkpoints\<close>

lemma HandleCheckPoint_effect:
  assumes inv: "pb_inv env s" and t: "pm_MType m = P_CHECKPOINT"
  shows "\<exists>s'. HandleCheckPoint env s m = Some (None, s') \<and> pb_quiet env s s' \<and> ViewChangeMsgs s' = ViewChangeMsgs s"
proof (cases "pb_verify env s m (msg_bytes1 m) \<and> pm_SeqNum m > cp_Seq (pb_CheckPoint s)")
  case False
  with inv show ?thesis by (auto simp: HandleCheckPoint_def)
next
  case True
  define cp where "cp = (pb_CheckPoint s)\<lparr>CPMsgsBuffer := (CPMsgsBuffer (pb_CheckPoint s))
      (pm_SeqNum m \<mapsto> cp_buffer (pb_CheckPoint s) (pm_SeqNum m) @ [m])\<rparr>"
  have cp: "cp_ok cp" unfolding cp_def using pb_invD(8) [OF inv] t
    by (intro cp_ok_put) (auto simp: cp_ok_def)
  have log: "LogMsg s m = Some (s\<lparr>pb_CheckPoint := cp\<rparr>)" using t by (simp add: LogMsg_def cp_def Let_def)
  define s1 where "s1 = s\<lparr>pb_CheckPoint := cp\<rparr>"
  have inv1: "pb_inv env s1" unfolding s1_def using pb_inv_cp [OF inv cp] .
  define cp' where "cp' = cp\<lparr>cp_Seq := pm_SeqNum m,
     CPMsgs := go_copy (CPMsgs cp) (cp_buffer cp (pm_SeqNum m)),
     CPMsgsBuffer := (CPMsgsBuffer cp)(pm_SeqNum m \<mapsto> [])\<rparr>"
  have cp': "cp_ok cp'" if "cp_buffer cp (pm_SeqNum m) \<noteq> []"
    using cp that by (cases "cp_buffer cp (pm_SeqNum m)")
      (auto simp: cp'_def cp_ok_def cp_buffer_def go_copy_def split: if_splits)
  define s2 where "s2 = s1\<lparr>MsgLog := replicate (nat CHECKPOINTNUM) empty_MsgsLog, pb_CheckPoint := cp',
     pb_CurPhase := (if pb_IsLeader s then P_WAITING else P_NEW_VIEW)\<rparr>"
  have inv2: "pb_inv env s2" if "cp_buffer cp (pm_SeqNum m) \<noteq> []"
    using pb_inv_cp [OF pb_inv_clear [OF inv1, of "nat CHECKPOINTNUM"] cp' [OF that]]
    by (simp add: s2_def CHECKPOINTNUM_def)
  have "HandleCheckPoint env s m = (if \<not> above_thr (NodesNum (pb_View s)) (cp_buffer cp (pm_SeqNum m))
      then Some (None, s1) else Some (None, s2))"
    using True by (simp add: HandleCheckPoint_def log s1_def s2_def cp'_def Let_def pb_IsLeader_def)
  moreover have "cp_buffer cp (pm_SeqNum m) \<noteq> []" if "above_thr (NodesNum (pb_View s)) (cp_buffer cp (pm_SeqNum m))"
    using above_thr_nonempty [OF that] pb_invD(7) [OF inv] by blast
  ultimately show ?thesis
    using inv1 inv2 by (auto simp: pb_quiet_def pb_kept_def same_node_def pb_files_def s1_def s2_def)
qed

section \<open>View changes\<close>

lemma map_opt_Some: "(\<And>x. x \<in> set xs \<Longrightarrow> f x \<noteq> None) \<Longrightarrow> \<exists>ys. map_opt f xs = Some ys"
proof (induction xs)
  case (Cons x xs)
  then obtain ys y where "map_opt f xs = Some ys" "f x = Some y" by force
  then show ?case by simp
qed simp

lemma HandleViewChangeMsg_effect:
  assumes inv: "pb_inv env s" and t: "pm_MType m = P_VIEW_CHANGE"
    and r: "HandleViewChangeMsg env s m = Some (ret, s')"
  shows "pb_quiet env s s' \<and> pb_pos s \<le> pb_pos s' \<and> (\<forall>x. ret = Some x \<longrightarrow> pm_MType x = P_NEW_VIEW) \<and>
    (s' = s \<or> ViewChangeMsgs s' = add_vc m (ViewChangeMsgs s))"
proof -
  define s1 where "s1 = s\<lparr>ViewChangeMsgs := add_vc m (ViewChangeMsgs s)\<rparr>"
  have log: "LogMsg s m = Some s1" using t by (simp add: LogMsg_vc s1_def)
  have q1: "pb_quiet env s s1" "pb_inv env s1" "pb_pos s1 = pb_pos s" using inv by (simp_all add: s1_def)
  obtain w where w: "pb_catch_up s1 (pm_ViewNumber m) = Some (s1\<lparr>pb_View := w\<rparr>)" "view_ok w"
     "ViewNumber w = max (ViewNumber (pb_View s1)) (pm_ViewNumber m)" "NodesNum w = NodesNum (pb_View s1)"
    using pb_catch_up_ok [OF q1(2)] by blast
  have q2: "pb_quiet env s1 (s1\<lparr>pb_View := w\<rparr>)"
    using pb_inv_view [OF q1(2) w(2)] w by (simp add: pb_quiet_def pb_kept_def same_node_def pb_files_def)
  have "s1\<lparr>pb_View := w\<rparr> = s1 \<or> ViewNumber (pb_View s1) < ViewNumber w"
  proof (cases "ViewNumber (pb_View s1) < pm_ViewNumber m")
    case False
    then have "pb_catch_up s1 (pm_ViewNumber m) = Some s1" by (simp add: pb_catch_up_same)
    with w(1) show ?thesis by simp
  qed (use w(3) in simp)
  then have p2: "pb_pos s1 \<le> pb_pos (s1\<lparr>pb_View := w\<rparr>)"
    by (auto intro: pb_pos_view)
  have "s' = s \<and> ret = None \<or> s' = s1 \<and> ret = None \<or>
      s' = s1\<lparr>pb_View := w\<rparr> \<and> (\<forall>x. ret = Some x \<longrightarrow> pm_MType x = P_NEW_VIEW)"
    using r by (auto simp: HandleViewChangeMsg_def bind_Some_iff log w(1) put_sign_def Let_def nil_pHdr_def
        split: if_splits)
  then show ?thesis
    using inv q1 p2 pb_quiet_trans [OF q1(1) q2] by (auto simp: s1_def)
qed

lemma HandleNewViewMsg_effect:
  assumes inv: "pb_inv env s" and t: "pm_MType m = P_NEW_VIEW"
    and r: "HandleNewViewMsg env s m = Some (ret, s')"
  shows "pb_quiet env s s' \<and> (\<forall>x. ret = Some x \<longrightarrow> pm_MType x = P_VC_REPLY \<or> pm_MType x = P_VC_PREPARE)"
proof -
  obtain s1 where s1: "LogMsg s m = Some s1" "pb_quiet env s s1" using LogMsg_new_view [OF inv t] by blast
  have inv1: "pb_inv env s1" using s1(2) by (rule pb_quietD)
  define s2 where "s2 = s1\<lparr>pb_CurProposal := nil_p_Proposal, pb_BlkStore := GenEmptyBlock env (pb_BlkStore s1),
     MsgLog := replicate 64 empty_MsgsLog\<rparr>"
  have inv2: "pb_inv env s2"
    using pb_inv_clear [OF inv1, of 64] by (simp add: s2_def pb_inv_def)
  have q2: "pb_quiet env s s2"
    using s1(2) inv2 by (auto simp: pb_quiet_def pb_kept_def same_node_def pb_files_def s2_def GenEmptyBlock_def)
  obtain a where a: "pb_stop s2 = Some (s2\<lparr>PTimer := a\<rparr>)" "timer_ok a" using pb_stop_ok [OF inv2] by blast
  have inv3: "pb_inv env (s2\<lparr>PTimer := a, pb_CurPhase := P_NEW_VIEW\<rparr>)" using pb_inv_timer [OF inv2 a(2)] by simp
  obtain b where b: "pb_start (s2\<lparr>PTimer := a, pb_CurPhase := P_NEW_VIEW\<rparr>) =
      Some (s2\<lparr>PTimer := a, pb_CurPhase := P_NEW_VIEW, PTimer := b\<rparr>)" "timer_ok b"
    using pb_start_ok [OF inv3] by blast
  define s3 where "s3 = s2\<lparr>PTimer := a, pb_CurPhase := P_NEW_VIEW, PTimer := b\<rparr>"
  have q3: "pb_quiet env s s3"
    using q2 pb_inv_timer [OF inv3 b(2)]
    by (auto simp: pb_quiet_def pb_kept_def same_node_def pb_files_def s3_def)
  have "s' = s \<and> ret = None \<or> s' = s1 \<and> ret = None \<or>
      (s' = s3 \<or> s' = s2) \<and> (\<forall>x. ret = Some x \<longrightarrow> pm_MType x = P_VC_REPLY \<or> pm_MType x = P_VC_PREPARE)"
    using r a(1) b(1)
    by (auto simp: HandleNewViewMsg_def bind_Some_iff s1(1) s2_def [symmetric] s3_def put_sign_def Let_def nil_pHdr_def
        split: if_splits)
  then show ?thesis using inv s1(2) q2 q3 by auto
qed

lemma HandleVCPrepareMsg_effect:
  assumes inv: "pb_inv env s" and t: "pm_MType m = P_VC_PREPARE"
    and r: "HandleVCPrepareMsg env s m = Some (ret, s')"
  shows "pb_quiet env s s' \<and> pb_pos s' = pb_pos s \<and> (\<forall>x. ret = Some x \<longrightarrow> pm_MType x = P_VC_COMMIT) \<and>
    (s' = s \<or> ViewChangeMsgs s' = add_vc m (ViewChangeMsgs s))"
  using r inv t
  by (auto simp: HandleVCPrepareMsg_def bind_Some_iff LogMsg_vc put_sign_def Let_def nil_pHdr_def
      split: if_splits option.splits)

lemma HandleVCCommitMsg_effect:
  assumes inv: "pb_inv env s" and t: "pm_MType m = P_VC_COMMIT"
    and r: "HandleVCCommitMsg env s m = Some (ret, s')"
  shows "pb_quiet env s s' \<and> (\<forall>x. ret = Some x \<longrightarrow> pm_MType x = P_VC_REPLY)"
proof -
  define s1 where "s1 = s\<lparr>ViewChangeMsgs := add_vc m (ViewChangeMsgs s)\<rparr>"
  have log: "LogMsg s m = Some s1" using t by (simp add: LogMsg_vc s1_def)
  have q1: "pb_quiet env s s1" "pb_inv env s1" using inv by (simp_all add: s1_def)
  obtain a where a: "pb_stop s1 = Some (s1\<lparr>PTimer := a\<rparr>)" "timer_ok a" using pb_stop_ok [OF q1(2)] by blast
  have q2: "pb_quiet env s (s1\<lparr>PTimer := a\<rparr>)"
    using q1 pb_inv_timer [OF q1(2) a(2)] by (auto simp: pb_quiet_def pb_kept_def same_node_def pb_files_def)
  obtain w where w: "NextView (pb_View s1) = Some w" "view_ok w" "ViewNumber w = ViewNumber (pb_View s1) + 1"
    "NodesNum w = NodesNum (pb_View s1)" using NextView_exists pb_invD(1) [OF q1(2)] by blast
  have q3: "pb_quiet env s (s1\<lparr>PTimer := t', pb_CurPhase := P_NEW_VIEW, pb_View := w, SequenceNum := n\<rparr>)"
    if "timer_ok t'" for t' n
  proof -
    have "pb_inv env (s1\<lparr>PTimer := t', pb_View := w\<rparr>)"
      using pb_inv_view [OF pb_inv_timer [OF q1(2) that], of w] w by simp
    then have "pb_inv env (s1\<lparr>PTimer := t', pb_CurPhase := P_NEW_VIEW, pb_View := w, SequenceNum := n\<rparr>)"
      by (simp add: pb_inv_def)
    then show ?thesis using w by (simp add: pb_quiet_def pb_kept_def same_node_def pb_files_def s1_def)
  qed
  have start: "\<exists>t'. u = s1\<lparr>PTimer := t', pb_CurPhase := P_NEW_VIEW, pb_View := w, SequenceNum := n\<rparr> \<and> timer_ok t'"
    if "pb_start (s1\<lparr>PTimer := a, pb_CurPhase := P_NEW_VIEW, pb_View := w, SequenceNum := n\<rparr>) = Some u" for n u
  proof -
    obtain t where "pb_start (s1\<lparr>PTimer := a, pb_CurPhase := P_NEW_VIEW, pb_View := w, SequenceNum := n\<rparr>) =
        Some (s1\<lparr>PTimer := a, pb_CurPhase := P_NEW_VIEW, pb_View := w, SequenceNum := n, PTimer := t\<rparr>)" "timer_ok t"
      using pb_start_ok [OF pb_quietD(1) [OF q3 [OF a(2)]], of n] by auto
    with that show ?thesis by (intro exI [of _ t]) (cases s1, auto)
  qed
  have "s' = s \<and> ret = None \<or> s' = s1 \<and> ret = None \<or> s' = s1\<lparr>PTimer := a\<rparr> \<and> ret = None \<or>
      (\<exists>t' n. s' = s1\<lparr>PTimer := t', pb_CurPhase := P_NEW_VIEW, pb_View := w, SequenceNum := n\<rparr> \<and> timer_ok t' \<and>
         (\<forall>x. ret = Some x \<longrightarrow> pm_MType x = P_VC_REPLY))"
    using r w(1) start
    by (auto simp: HandleVCCommitMsg_def bind_Some_iff log a(1) put_sign_def Let_def nil_pHdr_def
        split: if_splits option.splits) blast+
  then show ?thesis using inv q1 q2 q3 by auto
qed

section \<open>The dispatch\<close>

text \<open>The messages of the normal case, and of a view change before the new view is entered.\<close>

definition pb_normal :: "p_StateType \<Rightarrow> bool" where
  "pb_normal t \<longleftrightarrow> t \<noteq> P_NEW_VIEW \<and> t \<noteq> P_CHECKPOINT \<and> t \<noteq> P_VC_COMMIT"

lemma RoutePMsg_effect:
  assumes inv: "pb_inv env s" and v: "ViewNumber (pb_View s) \<le> pm_ViewNumber m \<or> pm_MType m = P_CHECKPOINT"
    and r: "RoutePMsg env s m = Some (ret, s')"
  shows "pb_kept env s s' \<and> (pb_normal (pm_MType m) \<longrightarrow> pb_advance s ret s') \<and>
    (pb_files s' \<noteq> pb_files s \<longrightarrow> pm_MType m = P_PREPREPARE \<or> pm_MType m = P_COMMIT)"
proof (cases "pm_MType m")
  case P_NEW_VIEW
  with r HandleNewViewMsg_effect [OF inv P_NEW_VIEW, of ret s'] show ?thesis
    by (simp add: RoutePMsg_def pb_quiet_def pb_normal_def)
next
  case P_PREPREPARE
  with r v HandlePrePrepareMsg_effect [OF inv P_PREPREPARE, of ret s'] show ?thesis by (simp add: RoutePMsg_def)
next
  case P_PREPARE
  with r HandlePrepareMsg_effect [OF inv P_PREPARE, of ret s'] show ?thesis by (simp add: RoutePMsg_def)
next
  case P_COMMIT
  with r HandleCommitMsg_effect [OF inv P_COMMIT, of ret s'] show ?thesis by (simp add: RoutePMsg_def)
next
  case P_VIEW_CHANGE
  with r HandleViewChangeMsg_effect [OF inv P_VIEW_CHANGE, of ret s'] show ?thesis
    by (auto simp: RoutePMsg_def pb_quiet_def pb_advance_def pb_vote_key_def)
next
  case P_CHECKPOINT
  with r HandleCheckPoint_effect [OF inv P_CHECKPOINT] show ?thesis
    by (auto simp: RoutePMsg_def pb_quiet_def pb_normal_def)
next
  case P_VC_PREPARE
  with r HandleVCPrepareMsg_effect [OF inv P_VC_PREPARE, of ret s'] show ?thesis
    by (auto simp: RoutePMsg_def pb_quiet_def pb_advance_def pb_vote_key_def)
next
  case P_VC_COMMIT
  with r HandleVCCommitMsg_effect [OF inv P_VC_COMMIT, of ret s'] show ?thesis
    by (auto simp: RoutePMsg_def pb_quiet_def pb_normal_def)
qed (use r inv in \<open>simp_all add: RoutePMsg_def\<close>)

section \<open>What is sent\<close>

definition pb_sent :: "PBFT \<Rightarrow> PMsg list" where
  "pb_sent s = (case pb_SendChan s of None \<Rightarrow> [] | Some c \<Rightarrow> map Payload c)"

text \<open>The contract of the node steps: the new messages vote for new positions, in order.\<close>

definition pb_votes_step :: "PBFT \<Rightarrow> PBFT \<Rightarrow> bool" where
  "pb_votes_step s s' \<longleftrightarrow> pb_pos s \<le> pb_pos s' \<and>
     (\<exists>new. pb_sent s' = pb_sent s @ new \<and> votes_between (pb_pos s) (pb_pos s') (vote_keys pb_vote_key new))"

lemma pb_votes_step_refl [simp]: "pb_votes_step s s"
  by (simp add: pb_votes_step_def)

lemma pb_votes_step_silent: "pb_pos s \<le> pb_pos s' \<Longrightarrow> pb_sent s' = pb_sent s \<Longrightarrow> pb_votes_step s s'"
  by (simp add: pb_votes_step_def)

lemma pb_votes_step_send:
  assumes "pb_advance s (Some r) t" "pb_vote_key r' = pb_vote_key r" "pb_pos s' = pb_pos t"
    "pb_sent s' = pb_sent s @ [r']"
  shows "pb_votes_step s s'"
  using assms by (auto simp: pb_votes_step_def pb_advance_def split: option.splits)

lemma pb_send_ok:
  assumes "pb_inv env s"
  shows "\<exists>s'. pb_SendSerMsg s m = Some s' \<and> pb_inv env s' \<and> pb_sent s' = pb_sent s @ [m] \<and> pb_pos s' = pb_pos s \<and>
    pb_files s' = pb_files s \<and> ViewChangeMsgs s' = ViewChangeMsgs s \<and> pb_View s' = pb_View s \<and>
    pb_BlkStore s' = pb_BlkStore s \<and> pb_Signer s' = pb_Signer s"
proof -
  obtain c where c: "pb_SendSerMsg s m = Some (s\<lparr>pb_SendChan := Some (the (pb_SendChan s) @ [c])\<rparr>)" "Payload c = m"
    using pb_SendSerMsg_ok [OF assms] by blast
  then show ?thesis
    using pb_inv_chan [OF assms] pb_invD(4) [OF assms]
    by (auto simp: pb_sent_def pb_pos_def pb_rank_def cur_log_def cur_slot_def pb_files_def)
qed

lemma pb_vote_key_SendNode [simp]: "pb_vote_key (with_hdr (\<lambda>h. h\<lparr>p_SendNode := x\<rparr>) m) = pb_vote_key m"
  by (simp add: pb_vote_key_def split: p_StateType.split)

lemma pb_pos_upd [simp]: "pb_pos (s\<lparr>pb_Tasks := x\<rparr>) = pb_pos s" "pb_pos (s\<lparr>ProposalLock := y\<rparr>) = pb_pos s"
  "pb_pos (s\<lparr>PTimer := z\<rparr>) = pb_pos s"
  by (simp_all add: pb_pos_def pb_rank_def cur_log_def cur_slot_def)

text \<open>After a reply: the client's message and, at the leader, the next proposal are spawned.\<close>

definition after_reply :: "PBFT \<Rightarrow> PBFT" where
  "after_reply s =
     (let client = with_hdr (\<lambda>h. h\<lparr>p_ViewNumber := ViewNumber (pb_View s) - 1,
            p_Proposal_of := nil_p_Proposal, p_SendNode := pb_GetNodeName s, p_ReciNode := ''Client''\<rparr>) nil_PMsg;
          s = s\<lparr>pb_Tasks := pb_Tasks s @ [Task_Send client]\<rparr>
      in if pb_IsLeader s then
           let s = (if pb_CurPhase s \<noteq> P_CHECKPOINT then s\<lparr>pb_CurPhase := P_WAITING\<rparr> else s)
           in s\<lparr>pb_Tasks := pb_Tasks s @ [Task_Preprepare]\<rparr>
         else s)"

lemma after_reply_ok:
  assumes "pb_inv env s"
  shows "pb_inv env (after_reply s)" "pb_sent (after_reply s) = pb_sent s" "pb_View (after_reply s) = pb_View s"
    "pb_files (after_reply s) = pb_files s" "pb_CheckPoint (after_reply s) = pb_CheckPoint s"
    "ViewChangeMsgs (after_reply s) = ViewChangeMsgs s" "pb_BlkStore (after_reply s) = pb_BlkStore s"
    "pb_Signer (after_reply s) = pb_Signer s"
    "pb_CurPhase s = P_CHECKPOINT \<or> pb_CurPhase s = P_NEW_VIEW \<Longrightarrow> pb_pos (after_reply s) = pb_pos s"
  using assms
  by (auto simp: after_reply_def Let_def pb_inv_def pb_sent_def pb_files_def nil_pHdr_def pb_pos_def pb_rank_def
      cur_log_def cur_slot_def)

definition reply_tail :: "PBFT \<Rightarrow> PMsg \<Rightarrow> PBFT option" where
  "reply_tail s r =
     (let s = after_reply s; buf = cp_buffer (pb_CheckPoint s) (pm_SeqNum r)
      in if (pm_SeqNum r + 1) smod CHECKPOINTNUM = 0 \<and> length buf \<noteq> 0 then pb_SendSerMsg s (hd buf) else Some s)"

lemma reply_tail_ok:
  assumes inv: "pb_inv env s" and ph: "pb_CurPhase s = P_CHECKPOINT \<or> pb_CurPhase s = P_NEW_VIEW"
  shows "\<exists>s'. reply_tail s r = Some s' \<and> pb_inv env s' \<and> pb_pos s' = pb_pos s \<and> pb_View s' = pb_View s \<and>
    ViewChangeMsgs s' = ViewChangeMsgs s \<and> pb_BlkStore s' = pb_BlkStore s \<and> pb_Signer s' = pb_Signer s \<and>
    (pb_sent s' = pb_sent s \<or> (\<exists>c. pb_sent s' = pb_sent s @ [c] \<and> pb_vote_key c = None))"
proof -
  note a = after_reply_ok [OF inv] after_reply_ok(9) [OF inv ph]
  let ?buf = "cp_buffer (pb_CheckPoint (after_reply s)) (pm_SeqNum r)"
  have "pm_MType (hd ?buf) = P_CHECKPOINT" if "?buf \<noteq> []"
    using pb_invD(8) [OF inv] hd_in_set [OF that] unfolding cp_ok_def a(5) by blast
  then have key: "pb_vote_key (hd ?buf) = None" if "?buf \<noteq> []" using that by (simp add: pb_vote_key_def)
  obtain s' where "pb_SendSerMsg (after_reply s) (hd ?buf) = Some s'" "pb_inv env s'"
    "pb_sent s' = pb_sent (after_reply s) @ [hd ?buf]" "pb_pos s' = pb_pos (after_reply s)"
    "ViewChangeMsgs s' = ViewChangeMsgs (after_reply s)" "pb_View s' = pb_View (after_reply s)"
    "pb_BlkStore s' = pb_BlkStore (after_reply s)" "pb_Signer s' = pb_Signer (after_reply s)"
    using pb_send_ok [OF a(1)] by blast
  then show ?thesis using a key by (auto simp: reply_tail_def Let_def)
qed

lemma HandlePMsg_eq:
  "HandlePMsg env s m =
     (if pm_ViewNumber m < ViewNumber (pb_View s) \<and> pm_MType m \<noteq> P_CHECKPOINT then Some s
      else do {
        (msgReturn, s) \<leftarrow> RoutePMsg env s m;
        case msgReturn of
          None \<Rightarrow> Some s
        | Some r \<Rightarrow>
            if pm_MType r = P_REPLY then reply_tail s r
            else if pm_MType r = P_VC_REPLY then do {
              _ \<leftarrow> redo_execute s (OSet r);
              let s = ReSetViewchangeMsgs s;
              if pb_IsLeader s
              then Some (s\<lparr>pb_CurPhase := P_WAITING, pb_Tasks := pb_Tasks s @ [Task_Preprepare]\<rparr>)
              else Some s
            }
            else pb_SendSerMsg s (with_hdr (\<lambda>h. h\<lparr>p_SendNode := pb_GetNodeName s\<rparr>) r)
      })"
  unfolding HandlePMsg_def reply_tail_def after_reply_def pb_Execute_def by (simp only: Let_def simp_thms if_True)

lemma HandlePMsg_effect:
  assumes inv: "pb_inv env s" and r: "HandlePMsg env s m = Some s'"
  shows "pb_inv env s' \<and> (pb_normal (pm_MType m) \<longrightarrow> pb_votes_step s s')"
proof (cases "pm_ViewNumber m < ViewNumber (pb_View s) \<and> pm_MType m \<noteq> P_CHECKPOINT")
  case True
  with r inv show ?thesis by (simp add: HandlePMsg_eq)
next
  case False
  with r obtain ret t where t: "RoutePMsg env s m = Some (ret, t)" by (auto simp: HandlePMsg_eq bind_Some_iff)
  have e: "pb_kept env s t" "pb_normal (pm_MType m) \<Longrightarrow> pb_advance s ret t"
    using RoutePMsg_effect [OF inv _ t] False by auto
  have k: "pb_inv env t" "pb_sent t = pb_sent s" using e(1) by (simp_all add: pb_kept_def same_node_def pb_sent_def)
  show ?thesis
  proof (cases ret)
    case None
    with r t False k e(2) show ?thesis by (auto simp: HandlePMsg_eq intro: pb_votes_step_silent)
  next
    case (Some x)
    consider "pm_MType x = P_REPLY" | "pm_MType x = P_VC_REPLY" | "pm_MType x \<noteq> P_REPLY" "pm_MType x \<noteq> P_VC_REPLY"
      by blast
    then show ?thesis
    proof cases
      case 1
      have s': "reply_tail t x = Some s'" using r t False Some 1 by (simp add: HandlePMsg_eq)
      have inv': "pb_inv env s'"
        using s' after_reply_ok(1) [OF k(1)] pb_send_ok [OF after_reply_ok(1) [OF k(1)],
            of "hd (cp_buffer (pb_CheckPoint (after_reply t)) (pm_SeqNum x))"]
        by (auto simp: reply_tail_def Let_def split: if_splits)
      moreover have "pb_votes_step s s'" if "pb_normal (pm_MType m)"
      proof -
        have ph: "pb_CurPhase t = P_CHECKPOINT \<or> pb_CurPhase t = P_NEW_VIEW" and le: "pb_pos s \<le> pb_pos t"
          using e(2) [OF that] Some 1 by (auto simp: pb_advance_def)
        from reply_tail_ok [OF k(1) ph, of x] s' le k(2) show ?thesis
          by (auto simp: pb_votes_step_def)
      qed
      ultimately show ?thesis by blast
    next
      case 2
      then have "\<not> pb_normal (pm_MType m)" using e(2) Some by (auto simp: pb_advance_def)
      moreover have "pb_inv env s'"
        using r t False Some 2 k(1)
        by (auto simp: HandlePMsg_eq bind_Some_iff ReSetViewchangeMsgs_def pb_inv_def Let_def split: if_splits)
      ultimately show ?thesis by simp
    next
      case 3
      let ?x = "with_hdr (\<lambda>h. h\<lparr>p_SendNode := pb_GetNodeName t\<rparr>) x"
      obtain u where "pb_SendSerMsg t ?x = Some u" "pb_inv env u" "pb_sent u = pb_sent t @ [?x]" "pb_pos u = pb_pos t"
        using pb_send_ok [OF k(1)] by blast
      moreover have "pb_SendSerMsg t ?x = Some s'" using r t False Some 3 by (simp add: HandlePMsg_eq)
      ultimately show ?thesis using pb_votes_step_send [of s x t ?x s'] e(2) Some k(2) by simp
    qed
  qed
qed

section \<open>Requests, timeouts, tasks\<close>

lemma GenNewBlock_files: "GenNewBlock env bs v cmds hs = Some bs' \<Longrightarrow> bs_Files bs' = bs_Files bs"
  by (auto simp: GenNewBlock_def bind_Some_iff Let_def split: if_splits)

lemma Preprepare_ok:
  assumes inv: "pb_inv env s"
  shows "\<exists>ret s'. Preprepare env s = Some (ret, s') \<and> pb_kept env s s' \<and> pb_files s' = pb_files s \<and>
    pb_pos s \<le> pb_pos s' \<and> ViewChangeMsgs s' = ViewChangeMsgs s \<and> (\<forall>x. ret = Some x \<longrightarrow> pm_MType x = P_PREPREPARE)"
proof (cases "p_Proposal_IsEmpty (pb_CurProposal s) \<or> pb_CurPhase s \<noteq> P_NEW_VIEW")
  case True
  with inv show ?thesis by (auto simp: Preprepare_def)
next
  case False
  obtain bs where bs: "GenNewBlock env (pb_BlkStore s) (ViewNumber (pb_View s))
      (TwoDimByteSlice2StringSlice (slices (pp_Command (pb_CurProposal s)))) [] = Some bs"
    using GenNewBlock_returns by fastforce
  define s1 where "s1 = s\<lparr>pb_BlkStore := bs\<rparr>"
  have inv1: "pb_inv env s1" using inv by (simp add: s1_def)
  define m where "m = put_sign env s1 (msg_bytes0 (with_hdr (\<lambda>h. h\<lparr>p_MType := P_PREPREPARE, p_ViewNumber := ViewNumber (pb_View s),
              p_SeqNum := SequenceNum s, p_Digest := CurBlkHash bs, p_SendNode := pb_GetNodeName s,
              p_ReciNode := ''Broadcast'', p_Proposal_of := pb_CurProposal s,
              p_Block := CurProposalBlk bs\<rparr>) nil_PMsg)) (with_hdr (\<lambda>h. h\<lparr>p_MType := P_PREPREPARE, p_ViewNumber := ViewNumber (pb_View s),
              p_SeqNum := SequenceNum s, p_Digest := CurBlkHash bs, p_SendNode := pb_GetNodeName s,
              p_ReciNode := ''Broadcast'', p_Proposal_of := pb_CurProposal s,
              p_Block := CurProposalBlk bs\<rparr>) nil_PMsg)"
  have m: "pm_MType m = P_PREPREPARE" "pm_ViewNumber m = ViewNumber (pb_View s1)"
    by (simp_all add: m_def put_sign_def s1_def)
  define s2 where "s2 = (log_set s1 (\<lambda>l. l\<lparr>PreprepareMsg := Some m\<rparr>))\<lparr>pb_CurPhase := P_PREPREPARE\<rparr>"
  have "Preprepare env s = Some (Some m, s2)"
    using False bs LogMsg_vote(1) [OF inv1 m(1)]
    by (simp add: Preprepare_def Let_def s1_def m_def s2_def pb_GetNodeName_def)
  moreover have "pb_inv env s2" using preprepare_inv [OF inv1 m(2)] by (simp add: s2_def)
  moreover have "pb_pos s \<le> pb_pos s2"
  proof -
    have "cur_log s2 = (cur_log s1)\<lparr>PreprepareMsg := Some m\<rparr>"
      using cur_log_set [OF inv1] by (simp add: s2_def cur_log_def cur_slot_def)
    with False show ?thesis by (auto simp: pb_pos_def pb_rank_def s2_def s1_def)
  qed
  ultimately show ?thesis
    using m GenNewBlock_files [OF bs]
    by (auto simp: pb_kept_def same_node_def pb_files_def s2_def s1_def)
qed

text \<open>The lock of proposals does not matter to what is proposed.\<close>

lemma Preprepare_lock:
  "Preprepare env (s\<lparr>ProposalLock := b\<rparr>) =
     map_option (\<lambda>(r, t). (r, t\<lparr>ProposalLock := b\<rparr>)) (Preprepare env s)"
  by (auto simp: Preprepare_def LogMsg_def log_upd_def Let_def pb_GetNodeName_def put_sign_def
      split: Option.bind_splits)

lemma pb_send_lock:
  "pb_SendSerMsg (s\<lparr>ProposalLock := b\<rparr>) m = map_option (\<lambda>t. t\<lparr>ProposalLock := b\<rparr>) (pb_SendSerMsg s m)"
  by (auto simp: pb_SendSerMsg_def Let_def split: option.splits)

text \<open>The proposal under the lock, from a request or from a spawned task.\<close>

definition propose :: "'a env_scheme \<Rightarrow> (PBFT \<Rightarrow> PMsg \<Rightarrow> PMsg) \<Rightarrow> PBFT \<Rightarrow> PBFT option" where
  "propose env f s = do {
     (m, s) \<leftarrow> Preprepare env (s\<lparr>ProposalLock := True\<rparr>);
     s \<leftarrow> (case m of None \<Rightarrow> Some s | Some m \<Rightarrow> pb_SendSerMsg s (f s m));
     Some (s\<lparr>ProposalLock := False\<rparr>)
   }"

lemma propose_ok:
  assumes inv: "pb_inv env s" and f: "\<And>t m. pb_vote_key (f t m) = pb_vote_key m"
  shows "\<exists>s'. propose env f s = Some s' \<and> pb_inv env s' \<and> pb_votes_step s s' \<and> pb_files s' = pb_files s \<and>
    ViewChangeMsgs s' = ViewChangeMsgs s"
proof -
  have unlocked: "u\<lparr>ProposalLock := False\<rparr> = u" if "pb_inv env u" for u
    using pb_invD(5) [OF that] by simp
  obtain ret t where t: "Preprepare env s = Some (ret, t)" "pb_kept env s t" "pb_files t = pb_files s"
    "pb_pos s \<le> pb_pos t" "ViewChangeMsgs t = ViewChangeMsgs s" "\<forall>x. ret = Some x \<longrightarrow> pm_MType x = P_PREPREPARE"
    using Preprepare_ok [OF inv] by blast
  have k: "pb_inv env t" "pb_sent t = pb_sent s" using t(2) by (simp_all add: pb_kept_def same_node_def pb_sent_def)
  show ?thesis
  proof (cases ret)
    case None
    with t k unlocked [OF k(1)] show ?thesis
      by (auto simp: propose_def Preprepare_lock intro: pb_votes_step_silent)
  next
    case (Some x)
    let ?x = "f (t\<lparr>ProposalLock := True\<rparr>) x"
    obtain u where u: "pb_SendSerMsg t ?x = Some u" "pb_inv env u" "pb_sent u = pb_sent t @ [?x]" "pb_pos u = pb_pos t"
      "pb_files u = pb_files t" "ViewChangeMsgs u = ViewChangeMsgs t"
      using pb_send_ok [OF k(1)] by blast
    have "propose env f s = Some u"
      using t(1) Some u(1) unlocked [OF u(2)] by (simp add: propose_def Preprepare_lock pb_send_lock)
    moreover have "pb_vote_key ?x = None" using f t(6) Some by (simp add: pb_vote_key_def)
    ultimately show ?thesis
      using u t k by (auto simp: pb_votes_step_def)
  qed
qed

lemma run_task_effect:
  assumes inv: "pb_inv env s" and ts: "pb_Tasks s = t # ts"
  shows "\<exists>s'. run_task env (s\<lparr>pb_Tasks := ts\<rparr>) t = Some s' \<and> pb_inv env s' \<and> pb_votes_step s s' \<and>
    pb_files s' = pb_files s \<and> ViewChangeMsgs s' = ViewChangeMsgs s"
proof -
  let ?s = "s\<lparr>pb_Tasks := ts\<rparr>"
  have i: "pb_inv env ?s" using inv ts by (simp add: pb_inv_def)
  have same: "pb_votes_step ?s s' \<Longrightarrow> pb_votes_step s s'" "pb_files ?s = pb_files s" for s'
    by (simp_all add: pb_votes_step_def pb_sent_def pb_files_def)
  show ?thesis
  proof (cases t)
    case (Task_Send m)
    then have "pb_vote_key m = None" using inv ts by (auto simp: pb_inv_def pb_vote_key_def)
    with pb_send_ok [OF i, of m] same Task_Send show ?thesis
      by (auto simp: run_task_def pb_votes_step_def pb_sent_def)
  next
    case Task_Preprepare
    have "run_task env ?s t = propose env (\<lambda>s m. with_hdr (\<lambda>h. h\<lparr>p_SendNode := pb_GetNodeName s\<rparr>) m) ?s"
      using Task_Preprepare pb_invD(5) [OF i] by (simp add: run_task_def propose_def Let_def)
    with propose_ok [OF i, of "\<lambda>s m. with_hdr (\<lambda>h. h\<lparr>p_SendNode := pb_GetNodeName s\<rparr>) m"] same
    show ?thesis by auto
  qed
qed

lemma HandleReq_propose:
  assumes inv: "pb_inv env s"
  shows "\<exists>p. pb_HandleReq env s h ph ch reqs = propose env (\<lambda>s m. m) (s\<lparr>pb_CurProposal := p, pb_CurPhase := P_NEW_VIEW\<rparr>)"
proof -
  define p where "p = foldl (\<lambda>p r. p\<lparr>pp_Command := Some (slices (pp_Command p) @ [rq_Cmd r])\<rparr>)
    (nil_p_Proposal\<lparr>pp_Height := h, pp_PreBlkHash := ph, pp_CurBlkHash := ch, pp_Command := Some []\<rparr>) reqs"
  let ?s = "s\<lparr>pb_CurProposal := p, pb_CurPhase := P_NEW_VIEW\<rparr>"
  have i: "pb_inv env ?s" using inv by simp
  have "(case m of None \<Rightarrow> Some (s\<lparr>ProposalLock := False\<rparr>)
      | Some m \<Rightarrow> do { s \<leftarrow> pb_SendSerMsg s m; Some (s\<lparr>ProposalLock := False\<rparr>) }) =
    do { s \<leftarrow> (case m of None \<Rightarrow> Some s | Some m \<Rightarrow> pb_SendSerMsg s m); Some (s\<lparr>ProposalLock := False\<rparr>) }"
    for s :: PBFT and m
    by (cases m) simp_all
  then have "pb_HandleReq env s h ph ch reqs = propose env (\<lambda>s m. m) ?s"
    using pb_invD(5) [OF i] by (simp add: pb_HandleReq_def propose_def p_def [symmetric] Let_def)
  then show ?thesis by blast
qed

lemma HandleReq_effect:
  assumes inv: "pb_inv env s"
  shows "\<exists>s'. pb_HandleReq env s h ph ch reqs = Some s' \<and> pb_inv env s' \<and> pb_files s' = pb_files s \<and>
    ViewChangeMsgs s' = ViewChangeMsgs s"
proof -
  obtain p where p: "pb_HandleReq env s h ph ch reqs = propose env (\<lambda>s m. m) (s\<lparr>pb_CurProposal := p, pb_CurPhase := P_NEW_VIEW\<rparr>)"
    using HandleReq_propose [OF inv] by blast
  have "pb_inv env (s\<lparr>pb_CurProposal := p, pb_CurPhase := P_NEW_VIEW\<rparr>)" using inv by simp
  from propose_ok [OF this, of "\<lambda>s m. m"] p show ?thesis by (auto simp: pb_files_def)
qed

lemma cat_VCMsgs_full: "None \<notin> set vs \<Longrightarrow> cat_VCMsgs vs \<noteq> None"
proof (induction vs)
  case (Cons v vs)
  then obtain x b where "v = Some x" "cat_VCMsgs vs = Some b" by (cases v) auto
  then show ?case by simp
qed simp

lemma cat_msgs_full: "None \<notin> set ms \<Longrightarrow> cat_msgs f ms \<noteq> None"
proof (induction ms)
  case (Cons m ms)
  then obtain x b where "m = Some x" "cat_msgs f ms = Some b" by (cases m) auto
  then show ?case by simp
qed simp

lemma cat_Pms_full: "list_all pm_full pms \<Longrightarrow> cat_Pms pms \<noteq> None"
proof (induction pms)
  case (Cons p pms)
  then obtain pm pp b c where "p = Some pm" "PrePrepareMsg pm = Some pp" "cat_Pms pms = Some b"
    "cat_VCMsgs (pm_PrepareMsgs pm) = Some c"
    using cat_VCMsgs_full by (auto simp: pm_full_def split: option.splits) blast
  then show ?case by (simp add: Pm2Byte_def)
qed simp

lemma message_bytes2:
  "None \<notin> set (CSet m) \<Longrightarrow> list_all pm_full (PSet m) \<Longrightarrow> \<exists>b. p_Message2Byte m 2 = Some b"
  using cat_msgs_full [of "CSet m" msg_bytes1] cat_Pms_full [of "PSet m"]
  by (auto simp: p_Message2Byte_def)

lemma valid_prefix_full: "list_all pm_full (map Some (valid_prefix n ls))"
  by (induction ls) (auto simp: pm_full_def MsgsLog_IsEmpty_def split: option.splits)

lemma StartViewChange_effect:
  assumes inv: "pb_inv env s"
  shows "\<exists>s'. pb_StartViewChange env s = Some s' \<and> pb_inv env s' \<and> pb_votes_step s s' \<and> pb_files s' = pb_files s \<and>
    ViewChangeMsgs s' = ViewChangeMsgs s \<and> PTimer s' = PTimer s"
proof -
  define s1 where "s1 = s\<lparr>pb_CurPhase := P_VIEW_CHANGE, VCMsgSendFlag := True\<rparr>"
  define m where "m = PMsg (nil_pHdr\<lparr>p_MType := P_VIEW_CHANGE, p_ViewNumber := ViewNumber (pb_View s) + 1,
           p_SeqNum := cp_Seq (pb_CheckPoint s), p_SendNode := pb_GetNodeName s, p_ReciNode := ''Broadcast''\<rparr>)
      (map Some (CPMsgs (pb_CheckPoint s))) (map Some (GetValidMsgs s)) [] []"
  obtain b where b: "p_Message2Byte m 2 = Some b"
    using message_bytes2 [of m] valid_prefix_full by (auto simp: m_def GetValidMsgs_def)
  define s2 where "s2 = (case pb_ForwardChan s of None \<Rightarrow> s1
     | Some c \<Rightarrow> s1\<lparr>pb_ForwardChan := Some (c @ [put_sign env s b m])\<rparr>)"
  have inv2: "pb_inv env s2" using inv by (simp add: s2_def s1_def split: option.split)
  have s2: "pb_pos s \<le> pb_pos s2" "pb_sent s2 = pb_sent s" "pb_files s2 = pb_files s" "PTimer s2 = PTimer s"
      "ViewChangeMsgs s2 = ViewChangeMsgs s" "pb_SendChan s2 = pb_SendChan s"
    by (auto simp: s2_def s1_def pb_pos_def pb_rank_def cur_log_def cur_slot_def pb_sent_def pb_files_def
        split: option.split)
  obtain u where u: "pb_SendSerMsg s2 (put_sign env s b m) = Some u" "pb_inv env u"
    "pb_sent u = pb_sent s2 @ [put_sign env s b m]" "pb_pos u = pb_pos s2" "pb_files u = pb_files s2"
    "ViewChangeMsgs u = ViewChangeMsgs s2" using pb_send_ok [OF inv2] by blast
  have "PTimer u = PTimer s2" using u(1) by (auto simp: pb_SendSerMsg_def Let_def split: option.splits)
  moreover have "pb_StartViewChange env s = Some u"
    using u(1) b pb_invD(4) [OF inv]
    by (auto simp: pb_StartViewChange_def Let_def m_def s2_def s1_def pb_GetNodeName_def GetValidMsgs_def put_sign_def
        split: option.splits)
  moreover have "pb_vote_key (put_sign env s b m) = None"
    by (simp add: pb_vote_key_def put_sign_def m_def)
  ultimately show ?thesis using u s2 by (auto simp: pb_votes_step_def)
qed

lemma PTimeout_effect:
  assumes inv: "pb_inv env s"
  shows "\<exists>s'. pb_step env s PTimeout = Some s' \<and> pb_inv env s' \<and> pb_votes_step s s' \<and> pb_files s' = pb_files s \<and>
    ViewChangeMsgs s' = ViewChangeMsgs s"
proof (cases "waiting (PTimer s) = 0")
  case True
  with inv show ?thesis by simp
next
  case False
  then obtain t t' where t: "timer_take (PTimer s) = Some t" "timer_mark t = Some t'" "timer_ok t'" "0 < expiring t'"
    using pb_invD(3) [OF inv]
    by (auto simp: timer_take_def timer_mark_def timer_ok_def split: nat.splits if_splits)
  from StartViewChange_effect [OF pb_inv_timer [OF inv t(3)]] obtain u where
    u: "pb_StartViewChange env (s\<lparr>PTimer := t'\<rparr>) = Some u" "pb_inv env u" "pb_votes_step (s\<lparr>PTimer := t'\<rparr>) u"
      "pb_files u = pb_files (s\<lparr>PTimer := t'\<rparr>)" "ViewChangeMsgs u = ViewChangeMsgs s" "PTimer u = t'"
    by auto
  obtain t2 where t2: "timer_finish t' = Some t2" "timer_ok t2"
    using t(3,4) by (cases "expiring t'") (auto simp: timer_finish_def timer_ok_def)
  have "pb_votes_step s (u\<lparr>PTimer := t2\<rparr>)" using u(3) by (simp add: pb_votes_step_def pb_sent_def)
  with False t u t2 show ?thesis by (auto simp: pb_inv_timer pb_files_def)
qed

section \<open>The machines\<close>

fun pb_calm_event :: "p_event \<Rightarrow> bool" where
  "pb_calm_event (PDeliver m) \<longleftrightarrow> pm_MType m \<noteq> P_NEW_VIEW \<and> pm_MType m \<noteq> P_VC_COMMIT \<and> no_nil m"
| "pb_calm_event _ \<longleftrightarrow> True"

fun pb_round_event :: "p_event \<Rightarrow> bool" where
  "pb_round_event (PDeliver m) \<longleftrightarrow> pb_normal (pm_MType m)"
| "pb_round_event (PRequest _ _ _ _ _) \<longleftrightarrow> False"
| "pb_round_event _ \<longleftrightarrow> True"

lemma pb_step_effect:
  assumes inv: "pb_inv env s" and r: "pb_step env s e = Some s'"
  shows "pb_inv env s' \<and> (pb_round_event e \<longrightarrow> pb_votes_step s s')"
proof (cases e)
  case (PDeliver m)
  with HandlePMsg_effect [OF inv, of m s'] r show ?thesis by simp
next
  case (PRequest now h ph ch reqs)
  have "pb_inv (env\<lparr>Clock := now\<rparr>) s" using inv by simp
  from HandleReq_effect [OF this, of h ph ch reqs] PRequest r show ?thesis by auto
next
  case PTimeout
  with PTimeout_effect [OF inv] r show ?thesis by auto
next
  case (PRunTask now)
  have i: "pb_inv (env\<lparr>Clock := now\<rparr>) s" using inv by simp
  show ?thesis
  proof (cases "pb_Tasks s")
    case Nil
    with r PRunTask inv show ?thesis by simp
  next
    case (Cons t ts)
    from run_task_effect [OF i Cons] r PRunTask Cons show ?thesis by auto
  qed
qed

text \<open>A step puts at most one message on the send channel, and none on a forward channel that is nil.\<close>

definition pb_posts :: "PBFT \<Rightarrow> PBFT \<Rightarrow> bool" where
  "pb_posts s s' \<longleftrightarrow> one_more (pb_sent s) (pb_sent s') \<and> (pb_ForwardChan s = None \<longrightarrow> pb_ForwardChan s' = None)"

lemma pb_quiet_posts: "pb_SendChan t = pb_SendChan s \<Longrightarrow> pb_ForwardChan t = pb_ForwardChan s \<Longrightarrow> pb_posts s t"
  by (simp add: pb_posts_def pb_sent_def)

lemma pb_send_posts:
  "pb_SendSerMsg t m = Some u \<Longrightarrow> pb_SendChan t = pb_SendChan s \<Longrightarrow> pb_ForwardChan t = pb_ForwardChan s \<Longrightarrow> pb_posts s u"
  by (auto simp: pb_SendSerMsg_def pb_posts_def pb_sent_def Let_def split: option.splits)

lemma reply_tail_posts:
  "reply_tail t r = Some u \<Longrightarrow> pb_SendChan t = pb_SendChan s \<Longrightarrow> pb_ForwardChan t = pb_ForwardChan s \<Longrightarrow> pb_posts s u"
  by (auto simp: reply_tail_def after_reply_def Let_def intro: pb_quiet_posts elim!: pb_send_posts split: if_splits)

lemma HandlePMsg_posts:
  assumes inv: "pb_inv env s" and r: "HandlePMsg env s m = Some s'"
  shows "pb_posts s s'"
proof (cases "pm_ViewNumber m < ViewNumber (pb_View s) \<and> pm_MType m \<noteq> P_CHECKPOINT")
  case True
  with r show ?thesis by (simp add: HandlePMsg_eq pb_quiet_posts)
next
  case False
  with r obtain ret t where t: "RoutePMsg env s m = Some (ret, t)" by (auto simp: HandlePMsg_eq bind_Some_iff)
  have "pb_kept env s t" using RoutePMsg_effect [OF inv _ t] False by auto
  then have k: "pb_SendChan t = pb_SendChan s" "pb_ForwardChan t = pb_ForwardChan s" by (simp_all add: pb_kept_def same_node_def)
  show ?thesis
  proof (cases ret)
    case None
    with r t False k show ?thesis by (auto simp: HandlePMsg_eq intro: pb_quiet_posts)
  next
    case (Some x)
    with r t False k show ?thesis
      by (auto simp: HandlePMsg_eq bind_Some_iff ReSetViewchangeMsgs_def Let_def intro: pb_quiet_posts
          elim!: reply_tail_posts pb_send_posts split: if_splits)
  qed
qed

lemma propose_posts:
  assumes inv: "pb_inv env s" and r: "propose env f s = Some s'"
  shows "pb_posts s s'"
proof -
  obtain ret t where t: "Preprepare env s = Some (ret, t)" "pb_kept env s t" using Preprepare_ok [OF inv] by blast
  then have k: "pb_SendChan t = pb_SendChan s" "pb_ForwardChan t = pb_ForwardChan s" by (simp_all add: pb_kept_def same_node_def)
  have lock: "pb_posts s (u\<lparr>ProposalLock := b\<rparr>) = pb_posts s u" for u b by (simp add: pb_posts_def pb_sent_def)
  from r t(1) k show ?thesis
    by (cases ret) (auto simp: propose_def Preprepare_lock pb_send_lock bind_Some_iff lock intro: pb_quiet_posts elim!: pb_send_posts)
qed

lemma StartViewChange_posts: "pb_StartViewChange env s = Some s' \<Longrightarrow> pb_posts s s'"
  by (auto simp: pb_StartViewChange_def Let_def bind_Some_iff pb_SendSerMsg_def pb_posts_def pb_sent_def
      split: option.splits if_splits)

lemma pb_posts_upd [simp]: "pb_posts (s\<lparr>PTimer := x\<rparr>) t = pb_posts s t" "pb_posts s (t\<lparr>PTimer := x\<rparr>) = pb_posts s t"
  "pb_posts (s\<lparr>pb_Tasks := y\<rparr>) t = pb_posts s t" "pb_posts (s\<lparr>pb_CurProposal := z\<rparr>) t = pb_posts s t"
  "pb_posts (s\<lparr>pb_CurPhase := p\<rparr>) t = pb_posts s t"
  by (simp_all add: pb_posts_def pb_sent_def)

lemma pb_step_posts:
  assumes inv: "pb_inv env s" and r: "pb_step env s e = Some s'"
  shows "pb_posts s s'"
proof (cases e)
  case (PDeliver m)
  with HandlePMsg_posts [OF inv] r show ?thesis by simp
next
  case (PRequest now h ph ch reqs)
  have "pb_inv (env\<lparr>Clock := now\<rparr>) s" using inv by simp
  from HandleReq_propose [OF this, of h ph ch reqs] obtain p where
    p: "pb_HandleReq (env\<lparr>Clock := now\<rparr>) s h ph ch reqs = propose (env\<lparr>Clock := now\<rparr>) (\<lambda>s m. m) (s\<lparr>pb_CurProposal := p, pb_CurPhase := P_NEW_VIEW\<rparr>)"
    by blast
  have "pb_inv (env\<lparr>Clock := now\<rparr>) (s\<lparr>pb_CurProposal := p, pb_CurPhase := P_NEW_VIEW\<rparr>)" using inv by simp
  from propose_posts [OF this, of "\<lambda>s m. m" s'] p PRequest r show ?thesis by simp
next
  case PTimeout
  with r show ?thesis by (auto simp: bind_Some_iff pb_quiet_posts split: if_splits dest!: StartViewChange_posts)
next
  case (PRunTask now)
  show ?thesis
  proof (cases "pb_Tasks s")
    case Nil
    with r PRunTask show ?thesis by (simp add: pb_quiet_posts)
  next
    case (Cons t ts)
    let ?env = "env\<lparr>Clock := now\<rparr>" and ?s = "s\<lparr>pb_Tasks := ts\<rparr>"
    have i: "pb_inv ?env ?s" using inv Cons by (simp add: pb_inv_def slot_ok_def)
    show ?thesis
    proof (cases t)
      case (Task_Send m)
      with r PRunTask Cons show ?thesis by (auto simp: run_task_def elim!: pb_send_posts)
    next
      case Task_Preprepare
      have "run_task ?env ?s t = propose ?env (\<lambda>s m. with_hdr (\<lambda>h. h\<lparr>p_SendNode := pb_GetNodeName s\<rparr>) m) ?s"
        using Task_Preprepare pb_invD(5) [OF i] by (simp add: run_task_def propose_def Let_def)
      with r PRunTask Cons propose_posts [OF i] show ?thesis by simp
    qed
  qed
qed

interpretation pb: machine "pb_step env" "pb_inv env" for env
  by unfold_locales (use pb_step_effect in blast)

text \<open>Runs without checkpoints, new views and requests: the votes of one round after the other.\<close>

definition pb_round_step :: "'a pbft_env_scheme \<Rightarrow> PBFT \<Rightarrow> p_event \<Rightarrow> PBFT option" where
  "pb_round_step env s e = (if pb_round_event e then pb_step env s e else Some s)"

lemma pb_round_run: "list_all pb_round_event es \<Longrightarrow> run (pb_round_step env) s es = run (pb_step env) s es"
proof (induction es arbitrary: s)
  case (Cons e es)
  then show ?case by (cases "pb_step env s e") (simp_all add: pb_round_step_def)
qed simp

interpretation pb_votes: voting_machine "pb_round_step env" "pb_inv env" pb_pos pb_sent pb_vote_key for env
proof (unfold_locales, goal_cases)
  case (1 s e s')
  then show ?case using pb_step_effect by (auto simp: pb_round_step_def split: if_splits)
next
  case (2 s e s')
  then show ?case using pb_step_effect [OF 2(1), of e s'] by (auto simp: pb_round_step_def pb_votes_step_def split: if_splits)
next
  case (3 s e s')
  then show ?case using pb_step_effect [OF 3(1), of e s']
    by (cases "pb_round_event e") (auto simp: pb_round_step_def pb_votes_step_def)
qed

section \<open>Steps that return\<close>

text \<open>The view-change messages that are stored have no nil pointers.\<close>

definition vc_full :: "PBFT \<Rightarrow> bool" where
  "vc_full s \<longleftrightarrow> (\<forall>m \<in> set (ml_NewViewMsgs (ViewChangeMsgs s)). no_nil m)"

lemma run_Some: "(\<And>a x. x \<in> set xs \<Longrightarrow> f a x \<noteq> None) \<Longrightarrow> \<exists>b. run f a xs = Some b"
proof (induction xs arbitrary: a)
  case (Cons x xs)
  then obtain b where "f a x = Some b" by force
  with Cons show ?case by auto
qed simp

lemma run_raise_max: "None \<notin> set xs \<Longrightarrow> \<exists>b. run (raise_max (map_option f)) a xs = Some b"
proof (induction xs arbitrary: a)
  case (Cons x xs)
  then show ?case by (cases x) (auto simp: raise_max_def)
qed simp

lemma GetSeq_returns:
  assumes "vc_full s" "ml_NewViewMsgs (ViewChangeMsgs s) \<noteq> []"
  shows "\<exists>a b. GetSeq s = Some (a, b)"
proof -
  have c: "\<exists>b. cset_max a m = Some b" if "None \<notin> set (CSet m)" for a m
    unfolding cset_max_def using that by (rule run_raise_max)
  have p: "\<exists>b. pset_max a m = Some b" if full: "list_all pm_full (PSet m)" for a m
  proof (unfold pset_max_def, rule run_Some)
    fix n :: int and x assume "x \<in> set (PSet m)"
    then obtain pm where pm: "x = Some pm" "None \<notin> set (pm_PrepareMsgs pm)"
      using full by (auto simp: list_all_iff pm_full_def split: option.splits)
    have "\<exists>b. run (raise_max (map_option vc_SeqNum)) n (pm_PrepareMsgs pm) = Some b"
      using pm(2) by (rule run_raise_max)
    with pm(1) show "do { pm \<leftarrow> x; run (raise_max (map_option vc_SeqNum)) n (pm_PrepareMsgs pm) } \<noteq> None" by auto
  qed
  have "\<exists>q. run (\<lambda>(minS, maxS) vcm. do { a \<leftarrow> cset_max minS vcm; b \<leftarrow> pset_max maxS vcm; Some (a, b) })
      (-1, -1) (ml_NewViewMsgs (ViewChangeMsgs s)) = Some q"
  proof (rule run_Some)
    fix a :: "int \<times> int" and x assume "x \<in> set (ml_NewViewMsgs (ViewChangeMsgs s))"
    then have "None \<notin> set (CSet x)" "list_all pm_full (PSet x)"
      using assms(1) by (auto simp: vc_full_def no_nil_def)
    with c p obtain u v where "cset_max (fst a) x = Some u" "pset_max (snd a) x = Some v" by blast
    then show "(case a of (minS, maxS) \<Rightarrow> \<lambda>vcm. do { a \<leftarrow> cset_max minS vcm; b \<leftarrow> pset_max maxS vcm; Some (a, b) }) x \<noteq> None"
      by (cases a) simp
  qed
  with assms(2) show ?thesis by (auto simp: GetSeq_def split: list.split)
qed

lemma scan_PSet_returns: "list_all pm_full pms \<Longrightarrow> \<exists>d. scan_PSet n i pms = Some d"
proof (induction pms)
  case (Cons p pms)
  then obtain pm pp d where "p = Some pm" "PrePrepareMsg pm = Some pp" "scan_PSet n i pms = Some d"
    by (auto simp: pm_full_def split: option.splits)
  then show ?case by (simp add: pm_digest_def split: option.split)
qed simp

lemma scan_VSet_returns: "(\<forall>m\<in>set ms. no_nil m) \<Longrightarrow> \<exists>d. scan_VSet n i ms = Some d"
proof (induction ms)
  case (Cons m ms)
  then obtain d e where "scan_PSet n i (PSet m) = Some d" "scan_VSet n i ms = Some e"
    using scan_PSet_returns by (metis list.set_intros no_nil_def)
  then show ?case by (simp split: option.split)
qed simp

lemma HandleViewChangeMsg_returns:
  assumes inv: "pb_inv env s" and t: "pm_MType m = P_VIEW_CHANGE" and nn: "no_nil m" and full: "vc_full s"
  shows "\<exists>ret s'. HandleViewChangeMsg env s m = Some (ret, s')"
proof -
  define s1 where "s1 = s\<lparr>ViewChangeMsgs := add_vc m (ViewChangeMsgs s)\<rparr>"
  have log: "LogMsg s m = Some s1" using t by (simp add: LogMsg_vc s1_def)
  obtain b where b: "p_Message2Byte m 2 = Some b" using message_bytes2 nn by (auto simp: no_nil_def)
  have inv1: "pb_inv env s1" using inv by (simp add: s1_def)
  obtain w where w: "pb_catch_up s1 (pm_ViewNumber m) = Some (s1\<lparr>pb_View := w\<rparr>)"
    using pb_catch_up_ok [OF inv1] by blast
  define s2 where "s2 = s1\<lparr>pb_View := w\<rparr>"
  have f2: "vc_full s2" "ml_NewViewMsgs (ViewChangeMsgs s2) = ml_NewViewMsgs (ViewChangeMsgs s) @ [m]"
    using full nn t by (auto simp: vc_full_def s2_def s1_def add_vc_def)
  obtain x y where g: "GetSeq s2 = Some (x, y)" using GetSeq_returns [OF f2(1)] f2(2) by auto
  have "\<exists>os. map_opt (redo_msg env s2) [x..y] = Some os"
  proof (rule map_opt_Some)
    fix i
    obtain d where "scan_VSet (NodesNum (pb_View s2)) i (ml_NewViewMsgs (ViewChangeMsgs s2)) = Some d"
      using scan_VSet_returns f2(1) unfolding vc_full_def by blast
    then show "redo_msg env s2 i \<noteq> None" by (simp add: redo_msg_def Let_def)
  qed
  then obtain os where os: "(if x \<noteq> - 1 \<and> y \<noteq> - 1 then map_opt (redo_msg env s2) [x..y] else Some []) = Some os"
    by (cases "x \<noteq> - 1 \<and> y \<noteq> - 1") auto
  define nm where "nm = PMsg (nil_pHdr\<lparr>p_MType := P_NEW_VIEW, p_ViewNumber := ViewNumber (pb_View s2),
    p_ReciNode := ''Broadcast''\<rparr>) [] [] (map Some (ml_NewViewMsgs (ViewChangeMsgs s2))) (map Some os)"
  obtain c where c: "p_Message2Byte nm 3 = Some c"
    using cat_msgs_full [of "VSet nm" msg_bytes0] cat_msgs_full [of "OSet nm" msg_bytes0]
    by (auto simp: p_Message2Byte_def nm_def)
  show ?thesis
    using b g os c
    by (auto simp: HandleViewChangeMsg_def log w s2_def [symmetric] nm_def Let_def)
qed

lemma redo_commits_returns: "None \<notin> set ms \<Longrightarrow> \<exists>r. redo_commits env s ms = Some r"
proof (induction ms)
  case (Cons m ms)
  then obtain x r where "m = Some x" "redo_commits env s ms = Some r" by (cases m) auto
  then show ?case by (simp add: Let_def)
qed simp

lemma HandleVCPrepareMsg_returns:
  assumes "pb_inv env s" "pm_MType m = P_VC_PREPARE" "no_nil m"
  shows "\<exists>ret s'. HandleVCPrepareMsg env s m = Some (ret, s')"
proof -
  have "LogMsg s m = Some (s\<lparr>ViewChangeMsgs := add_vc m (ViewChangeMsgs s)\<rparr>)" using assms(2) by (simp add: LogMsg_vc)
  moreover obtain r where "redo_commits env (s\<lparr>ViewChangeMsgs := add_vc m (ViewChangeMsgs s)\<rparr>) (OSet m) = Some r"
    using redo_commits_returns [of "OSet m"] assms(3) by (auto simp: no_nil_def)
  ultimately show ?thesis by (simp add: HandleVCPrepareMsg_def Let_def split: option.split)
qed

lemma vote_handlers_return:
  assumes inv: "pb_inv env s"
  shows "pm_MType m = P_COMMIT \<Longrightarrow> \<exists>ret s'. HandleCommitMsg env s m = Some (ret, s') \<and> ViewChangeMsgs s' = ViewChangeMsgs s"
    and "pm_MType m = P_PREPARE \<Longrightarrow> \<exists>ret s'. HandlePrepareMsg env s m = Some (ret, s') \<and> ViewChangeMsgs s' = ViewChangeMsgs s"
    and "pm_MType m = P_PREPREPARE \<Longrightarrow> ViewNumber (pb_View s) \<le> pm_ViewNumber m \<Longrightarrow>
      \<exists>ret s'. HandlePrePrepareMsg env s m = Some (ret, s') \<and> ViewChangeMsgs s' = ViewChangeMsgs s"
proof -
  show "\<exists>ret s'. HandlePrepareMsg env s m = Some (ret, s') \<and> ViewChangeMsgs s' = ViewChangeMsgs s" if "pm_MType m = P_PREPARE"
    by (simp add: HandlePrepareMsg_eq [OF inv that])
  show "\<exists>ret s'. HandleCommitMsg env s m = Some (ret, s') \<and> ViewChangeMsgs s' = ViewChangeMsgs s" if t: "pm_MType m = P_COMMIT"
  proof (cases "vote_ready env s m \<and> pm_ViewNumber m = ViewNumber (pb_View s)")
    case False
    then show ?thesis by (auto simp: HandleCommitMsg_eq [OF inv t])
  next
    case True
    have "pb_inv env (log_set s (add_vote m))"
      using True add_vote_inv [OF inv] by (simp add: vote_ready_def)
    from pb_reply_ok [OF this, of m] True obtain r s' where
      "pb_reply env (log_set s (add_vote m)) m = Some (Some r, s')" "ViewChangeMsgs s' = ViewChangeMsgs s" by auto
    then show ?thesis by (auto simp: HandleCommitMsg_eq [OF inv t])
  qed
  show "\<exists>ret s'. HandlePrePrepareMsg env s m = Some (ret, s') \<and> ViewChangeMsgs s' = ViewChangeMsgs s"
    if t: "pm_MType m = P_PREPREPARE" and v: "ViewNumber (pb_View s) \<le> pm_ViewNumber m"
  proof (cases "pp_ready env s m")
    case False
    then show ?thesis by (simp add: HandlePrePrepareMsg_eq [OF inv t v])
  next
    case True
    from pp_take_ok [OF inv True] obtain s1 where s1: "pp_take env s m = Some s1" "pb_inv env s1"
      "pb_View s1 = pb_View s" "ViewChangeMsgs s1 = ViewChangeMsgs s" by blast
    have mv: "pm_ViewNumber m \<le> ViewNumber (pb_View (log_set s1 (keep_matching m)))"
      using True s1 by (simp add: pp_ready_def)
    from pb_reply_ok [OF keep_matching_inv [OF s1(2)] mv] obtain r s' where
      "pb_reply env (log_set s1 (keep_matching m)) m = Some (Some r, s')" "ViewChangeMsgs s' = ViewChangeMsgs s1" by auto
    with s1 True show ?thesis
      by (auto simp: HandlePrePrepareMsg_eq [OF inv t v] CheckPrepareAndCommit_eq [OF s1(2)])
  qed
qed

lemma vc_full_cong: "ViewChangeMsgs s' = ViewChangeMsgs s \<Longrightarrow> vc_full s \<Longrightarrow> vc_full s'"
  by (simp add: vc_full_def)

lemma vc_full_add:
  "vc_full s \<Longrightarrow> no_nil m \<Longrightarrow> ViewChangeMsgs s' = ViewChangeMsgs s \<or> ViewChangeMsgs s' = add_vc m (ViewChangeMsgs s)
     \<Longrightarrow> vc_full s'"
  by (auto simp: vc_full_def add_vc_def split: p_StateType.splits)

lemma RoutePMsg_returns:
  assumes inv: "pb_inv env s" and full: "vc_full s" and ok: "pb_calm_event (PDeliver m)"
    and v: "ViewNumber (pb_View s) \<le> pm_ViewNumber m \<or> pm_MType m = P_CHECKPOINT"
  shows "\<exists>ret s'. RoutePMsg env s m = Some (ret, s') \<and> vc_full s' \<and>
    (\<forall>x. ret = Some x \<longrightarrow> pm_MType x \<noteq> P_VC_REPLY)"
proof (cases "pm_MType m")
  case P_PREPREPARE
  with v vote_handlers_return(3) [OF inv P_PREPREPARE] HandlePrePrepareMsg_effect [OF inv P_PREPREPARE]
  show ?thesis by (fastforce simp: RoutePMsg_def pb_advance_def intro: vc_full_cong [OF _ full])
next
  case P_PREPARE
  with vote_handlers_return(2) [OF inv P_PREPARE] HandlePrepareMsg_effect [OF inv P_PREPARE]
  show ?thesis by (fastforce simp: RoutePMsg_def pb_advance_def intro: vc_full_cong [OF _ full])
next
  case P_COMMIT
  with vote_handlers_return(1) [OF inv P_COMMIT] HandleCommitMsg_effect [OF inv P_COMMIT]
  show ?thesis by (fastforce simp: RoutePMsg_def pb_advance_def intro: vc_full_cong [OF _ full])
next
  case P_VIEW_CHANGE
  have nn: "no_nil m" using ok by simp
  from HandleViewChangeMsg_returns [OF inv P_VIEW_CHANGE nn full] obtain ret s' where
    r: "HandleViewChangeMsg env s m = Some (ret, s')" by blast
  from HandleViewChangeMsg_effect [OF inv P_VIEW_CHANGE r] r P_VIEW_CHANGE vc_full_add [OF full nn, of s']
  show ?thesis by (auto simp: RoutePMsg_def)
next
  case P_CHECKPOINT
  with HandleCheckPoint_effect [OF inv P_CHECKPOINT] show ?thesis
    by (auto simp: RoutePMsg_def intro: vc_full_cong [OF _ full])
next
  case P_VC_PREPARE
  have nn: "no_nil m" using ok by simp
  from HandleVCPrepareMsg_returns [OF inv P_VC_PREPARE nn] obtain ret s' where
    r: "HandleVCPrepareMsg env s m = Some (ret, s')" by blast
  from HandleVCPrepareMsg_effect [OF inv P_VC_PREPARE r] r P_VC_PREPARE vc_full_add [OF full nn, of s']
  show ?thesis by (auto simp: RoutePMsg_def)
qed (use ok full in \<open>simp_all add: RoutePMsg_def\<close>)

lemma pb_step_returns:
  assumes inv: "pb_inv env s" and full: "vc_full s" and ok: "pb_calm_event e"
  shows "\<exists>s'. pb_step env s e = Some s' \<and> vc_full s'"
proof (cases e)
  case (PDeliver m)
  show ?thesis
  proof (cases "pm_ViewNumber m < ViewNumber (pb_View s) \<and> pm_MType m \<noteq> P_CHECKPOINT")
    case True
    with PDeliver full show ?thesis by (simp add: HandlePMsg_eq)
  next
    case False
    then have v: "ViewNumber (pb_View s) \<le> pm_ViewNumber m \<or> pm_MType m = P_CHECKPOINT" by auto
    from RoutePMsg_returns [OF inv full _ v] ok PDeliver obtain ret t where
      t: "RoutePMsg env s m = Some (ret, t)" "vc_full t" "\<forall>x. ret = Some x \<longrightarrow> pm_MType x \<noteq> P_VC_REPLY" by blast
    have inv1: "pb_inv env t" using RoutePMsg_effect [OF inv v t(1)] by (simp add: pb_kept_def)
    have send: "\<exists>s'. pb_SendSerMsg u x = Some s' \<and> vc_full s'"
      if "pb_inv env u" "ViewChangeMsgs u = ViewChangeMsgs t" for u x
      using pb_send_ok [OF that(1), of x] vc_full_cong [OF _ t(2)] that(2) by metis
    have "\<exists>s'. reply_tail t x = Some s' \<and> vc_full s'" for x
      using send [OF after_reply_ok(1,6) [OF inv1]] vc_full_cong [OF after_reply_ok(6) [OF inv1] t(2)]
      by (auto simp: reply_tail_def Let_def)
    with send [OF inv1] t False show ?thesis by (auto simp: PDeliver HandlePMsg_eq split: option.split)
  qed
next
  case (PRequest now h ph ch reqs)
  have "pb_inv (env\<lparr>Clock := now\<rparr>) s" using inv by simp
  from HandleReq_effect [OF this, of h ph ch reqs] PRequest show ?thesis by (auto intro: vc_full_cong [OF _ full])
next
  case PTimeout
  with PTimeout_effect [OF inv] show ?thesis by (auto intro: vc_full_cong [OF _ full])
next
  case (PRunTask now)
  have i: "pb_inv (env\<lparr>Clock := now\<rparr>) s" using inv by simp
  show ?thesis
  proof (cases "pb_Tasks s")
    case (Cons t ts)
    from run_task_effect [OF i Cons] Cons PRunTask show ?thesis by (auto intro: vc_full_cong [OF _ full])
  qed (use PRunTask full in simp)
qed

definition pb_calm_step :: "'a pbft_env_scheme \<Rightarrow> PBFT \<Rightarrow> p_event \<Rightarrow> PBFT option" where
  "pb_calm_step env s e = (if pb_calm_event e then pb_step env s e else Some s)"

lemma pb_calm_run: "list_all pb_calm_event es \<Longrightarrow> run (pb_calm_step env) s es = run (pb_step env) s es"
proof (induction es arbitrary: s)
  case (Cons e es)
  then show ?case by (cases "pb_step env s e") (simp_all add: pb_calm_step_def)
qed simp

interpretation pb_calm: total_machine "pb_calm_step env" "\<lambda>s. pb_inv env s \<and> vc_full s" "\<lambda>e. True" for env
proof (unfold_locales, goal_cases)
  case (1 s e s')
  then show ?case using pb_step_effect [of env s e s'] pb_step_returns [of env s e]
    by (auto simp: pb_calm_step_def split: if_splits)
next
  case (2 s e)
  then show ?case using pb_step_returns [of env s e] by (auto simp: pb_calm_step_def)
qed

lemma NewPBFT_inv:
  assumes "0 < n"
  shows "pb_inv env (NewPBFT env d i n p (Some []) sg)" "vc_full (NewPBFT env d i n p (Some []) sg)"
    "pb_sent (NewPBFT env d i n p (Some []) sg) = []"
  using assms
  by (auto simp: NewPBFT_def pb_inv_def view_ok_def CHECKPOINTNUM_def cp_ok_def cp_buffer_def vc_full_def
      pb_sent_def empty_MsgsLog_def slot_ok_def)

end
