(* ===== verification/Pbft_Safety.thy ===== *)
theory Pbft_Safety
  imports Pbft_Runs
begin

text \<open>
  The properties of PBFT: replicas always answer, vote once, store a block only with enough signed
  commits; what a good round does; and the places where the code does less than the protocol asks
  for.
\<close>

section \<open>Runs\<close>

text \<open>
  A concrete setting for the examples: the signature of a message is the message, every node knows
  the names of four, and the replica is node 1.
\<close>

definition pb_demo_env :: pbft_env where
  "pb_demo_env = \<lparr>SM3 = (\<lambda>m. m), Sm2Sign = (\<lambda>sk pk m. Some m), Sm2Verify = (\<lambda>s pk m. bval s = m),
     TblsSign = (\<lambda>sh m. None), TblsRecover = (\<lambda>pub m shares t n. None), BdnVerify = (\<lambda>pub m s. False),
     Clock = 0, MarshalMsgs = (\<lambda>ms. [])\<rparr>"

definition pb_demo_signer :: ssm2_Signer where
  "pb_demo_signer = \<lparr>ID = ''r_1'', Pk = None, Sk = None, Pks = (\<lambda>n. if n \<in> set (map node_name [0, 1, 2, 3]) then Some None else None)\<rparr>"

definition pb_demo :: PBFT where
  "pb_demo = NewPBFT pb_demo_env 5 1 4 [] (Some []) pb_demo_signer"

definition demo_msg :: "p_StateType \<Rightarrow> int \<Rightarrow> int \<Rightarrow> PMsg" where
  "demo_msg ty q j =
     (let m = with_hdr (\<lambda>h. h\<lparr>p_MType := ty, p_SeqNum := q, p_SendNode := node_name j, p_Digest := Some [7]\<rparr>) nil_PMsg
      in with_hdr (\<lambda>h. h\<lparr>p_Signature := Some (if ty = P_PREPREPARE then msg_bytes0 m else msg_bytes1 m)\<rparr>) m)"

lemma pb_demo_inv: "pb_inv pb_demo_env pb_demo" and pb_demo_full: "vc_full pb_demo"
  by (simp_all add: pb_demo_def NewPBFT_inv)

lemma pb_demo_simps [simp]: "pb_View pb_demo = \<lparr>ViewNumber = 0, Leader = 0, NodesNum = 4\<rparr>" "pb_ConsId pb_demo = 1"
  "pb_Signer pb_demo = pb_demo_signer" "cur_log pb_demo = empty_MsgsLog" "SequenceNum pb_demo = 0"
  "cp_Seq (pb_CheckPoint pb_demo) = 0" "thr2f 4 = 2"
  by (simp_all add: pb_demo_def NewPBFT_def cur_log_def cur_slot_def CHECKPOINTNUM_def thr2f_def)

lemma demo_msg_simps [simp]: "pm_MType (demo_msg ty q j) = ty" "pm_ViewNumber (demo_msg ty q j) = 0"
  "pm_SeqNum (demo_msg ty q j) = q" "pm_Digest (demo_msg ty q j) = Some [7]" "pm_SendNode (demo_msg ty q j) = node_name j"
  "CSet (demo_msg ty q j) = []" "PSet (demo_msg ty q j) = []" "OSet (demo_msg ty q j) = []" "VSet (demo_msg ty q j) = []"
  by (simp_all add: demo_msg_def Let_def nil_pHdr_def)

lemma demo_verify [simp]:
  "j \<in> set [0, 1, 2, 3] \<Longrightarrow> ty \<noteq> P_PREPREPARE \<Longrightarrow> pb_verify pb_demo_env pb_demo (demo_msg ty q j) (msg_bytes1 (demo_msg ty q j))"
  "j \<in> set [0, 1, 2, 3] \<Longrightarrow> pb_verify pb_demo_env pb_demo (demo_msg P_PREPREPARE q j) (msg_bytes0 (demo_msg P_PREPREPARE q j))"
  by (auto simp: pb_verify_def ssm2_VerifySign_def pb_demo_signer_def pb_demo_env_def demo_msg_def Let_def
      msg_bytes1_def msg_bytes0_def hdr_bytes_def)

lemma pb_never_stuck_runs:
  assumes "0 < n" "list_all pb_calm_event es"
  shows "\<exists>s. run (pb_step env) (NewPBFT env d i n p (Some []) sg) es = Some s \<and>
    pb_inv env s \<and> vc_full s"
proof -
  let ?s = "NewPBFT env d i n p (Some []) sg"
  have inv: "pb_inv env ?s \<and> vc_full ?s" using NewPBFT_inv [OF assms(1)] by blast
  have "list_all (\<lambda>e. True) es" by (simp add: list_all_iff)
  from pb_calm.run_returns [OF inv this] obtain s where s: "run (pb_calm_step env) ?s es = Some s" by blast
  from s pb_calm.run_inv [OF inv s] show ?thesis by (simp add: pb_calm_run [OF assms(2)])
qed

text \<open>
  C31 Every event returns: a PBFT replica handles every sequence of messages of the normal case, view
  changes and checkpoints, of requests, timeouts and spawned tasks to the end (no index is out of
  range, no loop runs for ever, the proposal lock is free again), as long as no received set holds a
  nil pointer and no NEW-VIEW or VC-COMMIT message comes; and in the state it is then in any further
  such event returns too, having put at most one message on the send channel and none on the forward
  channel. So it does not block either, as long as the send channel (of 128 places) has a free place
  at each event and the timer is not caught between its timeout and the assignment after it (timer.go:46
  to 49): an expiry is one event here. The timer has exactly one waiting goroutine while it runs.
\<close>

theorem pb_never_stuck:
  assumes "0 < n" "list_all pb_calm_event es"
  shows "\<exists>s. run (pb_step env) (NewPBFT env d i n p (Some []) sg) es = Some s \<and>
    view_ok (pb_View s) \<and> waiting (PTimer s) = (if IsStopped (PTimer s) then 0 else 1) \<and> \<not> ProposalLock s \<and>
    (\<forall>e. pb_calm_event e \<longrightarrow>
       (\<exists>u. pb_step env s e = Some u \<and> one_more (pb_sent s) (pb_sent u) \<and> pb_ForwardChan u = None))"
proof -
  from pb_never_stuck_runs [OF assms] obtain s where
    s: "run (pb_step env) (NewPBFT env d i n p (Some []) sg) es = Some s" "pb_inv env s" "vc_full s" by blast
  have "pb_ForwardChan s = None"
    using s(1)
  proof (induction es arbitrary: s rule: rev_induct)
    case Nil
    then show ?case by (auto simp: NewPBFT_def)
  next
    case (snoc e es)
    then obtain u where u: "run (pb_step env) (NewPBFT env d i n p (Some []) sg) es = Some u" "pb_step env u e = Some s"
      by (auto simp: run_append bind_Some_iff)
    from snoc.IH [OF u(1)] pb_step_posts [OF pb.run_inv [OF NewPBFT_inv(1) [OF assms(1)] u(1)] u(2)] show ?case
      by (simp add: pb_posts_def)
  qed
  then have "\<exists>u. pb_step env s e = Some u \<and> one_more (pb_sent s) (pb_sent u) \<and> pb_ForwardChan u = None"
    if "pb_calm_event e" for e
    using pb_step_returns [OF s(2,3) that] pb_step_posts [OF s(2), of e] by (auto simp: pb_posts_def)
  with s(1) pb_invD(1,3,5) [OF s(2)] show ?thesis by (auto simp: timer_ok_def)
qed

theorem pb_never_stuck_witness:
  "\<exists>s. run (pb_step pb_demo_env) pb_demo [PDeliver (demo_msg P_PREPREPARE 0 0), PTimeout, PRunTask 3, PTimeout,
      PDeliver (demo_msg P_VIEW_CHANGE 0 2)] = Some s"
  unfolding pb_demo_def
  using pb_never_stuck [of 4 "[PDeliver (demo_msg P_PREPREPARE 0 0), PTimeout, PRunTask 3, PTimeout,
      PDeliver (demo_msg P_VIEW_CHANGE 0 2)]" pb_demo_env 5 1 "[]" pb_demo_signer]
  by (simp add: no_nil_def del: run.simps) blast

text \<open>
  One vote per view: while no checkpoint, new view or client request intervenes, a replica sends
  at most one PREPARE and at most one COMMIT for each view, however messages are reordered or
  replayed, with timeouts and tasks in between.
\<close>

theorem pb_votes_once:
  assumes "0 < n" "list_all pb_round_event es"
    and "run (pb_step env) (NewPBFT env d i n p (Some []) sg) es = Some s"
  shows "distinct (vote_keys pb_vote_key (pb_sent s))"
proof -
  have "run (pb_round_step env) (NewPBFT env d i n p (Some []) sg) es = Some s"
    using assms(3) by (simp add: pb_round_run [OF assms(2)])
  from pb_votes.run_votes_distinct [OF NewPBFT_inv(1) [OF assms(1)] this NewPBFT_inv(3) [OF assms(1)]]
  show ?thesis .
qed

text \<open>The second pre-prepare of the view gets no second PREPARE.\<close>

theorem pb_votes_once_witness:
  "\<exists>s. run (pb_step pb_demo_env) pb_demo [PDeliver (demo_msg P_PREPREPARE 0 0), PDeliver (demo_msg P_PREPREPARE 1 2)] = Some s \<and>
     distinct (vote_keys pb_vote_key (pb_sent s))"
proof -
  let ?es = "[PDeliver (demo_msg P_PREPREPARE 0 0), PDeliver (demo_msg P_PREPREPARE 1 2)]"
  have "list_all pb_calm_event ?es" by (simp add: no_nil_def)
  then obtain s where s: "run (pb_step pb_demo_env) pb_demo ?es = Some s"
    using pb_never_stuck_runs [of 4 ?es pb_demo_env 5 1 "[]" pb_demo_signer] unfolding pb_demo_def by auto
  have "list_all pb_round_event ?es" by (simp add: pb_normal_def)
  from pb_votes_once [OF zero_less_numeral this s [unfolded pb_demo_def]] s show ?thesis by blast
qed

section \<open>What is stored\<close>

lemma pb_files_tail:
  "reply_tail s r = Some s' \<Longrightarrow> pb_inv env s \<Longrightarrow> pb_BlkStore s' = pb_BlkStore s \<and> pb_View s' = pb_View s"
  using after_reply_ok [of env s] pb_send_ok [of env "after_reply s" "hd (cp_buffer (pb_CheckPoint (after_reply s)) (pm_SeqNum r))"]
  by (auto simp: reply_tail_def Let_def split: if_splits)

lemma HandlePMsg_store:
  assumes inv: "pb_inv env s" and r: "HandlePMsg env s m = Some s'" and new: "pb_files s' \<noteq> pb_files s"
  shows "\<exists>ret t. RoutePMsg env s m = Some (ret, t) \<and> pb_BlkStore s' = pb_BlkStore t \<and> pb_View s' = pb_View t \<and>
    ViewNumber (pb_View s) \<le> pm_ViewNumber m \<and> (pm_MType m = P_PREPREPARE \<or> pm_MType m = P_COMMIT)"
proof -
  from r new obtain ret t where t: "RoutePMsg env s m = Some (ret, t)"
    and v: "ViewNumber (pb_View s) \<le> pm_ViewNumber m \<or> pm_MType m = P_CHECKPOINT"
    by (auto simp: HandlePMsg_eq bind_Some_iff split: if_splits)
  note e = RoutePMsg_effect [OF inv v t]
  have inv1: "pb_inv env t" using e by (simp add: pb_kept_def)
  have same: "pb_BlkStore s' = pb_BlkStore t \<and> pb_View s' = pb_View t"
    using r t v pb_files_tail [OF _ inv1]
    by (auto simp: HandlePMsg_eq bind_Some_iff ReSetViewchangeMsgs_def Let_def pb_SendSerMsg_def
        split: if_splits option.splits)
  moreover have "pb_files t \<noteq> pb_files s" using new same by (simp add: pb_files_def)
  ultimately show ?thesis using t e v by auto
qed

text \<open>The commits that vouch for a block: they are logged, and their signatures have been checked.\<close>

definition stored_with :: "'a pbft_env_scheme \<Rightarrow> PBFT \<Rightarrow> PMsg list \<Rightarrow> PBFT \<Rightarrow> bool" where
  "stored_with env s cs s' \<longleftrightarrow> (\<exists>bs b. pb_BlkStore s' = StoreBlock bs b \<and> bs_Files bs = pb_files s \<and>
     bs_Height bs = bs_Height (pb_BlkStore s) \<and> bh_Validation (BlkHdr b) = Some (MarshalMsgs env cs))"

definition quorum_block :: "'a pbft_env_scheme \<Rightarrow> PBFT \<Rightarrow> PMsg \<Rightarrow> PMsg list \<Rightarrow> PBFT \<Rightarrow> bool" where
  "quorum_block env s m cs s' \<longleftrightarrow>
     (pm_MType m = P_PREPREPARE \<and> (\<forall>c\<in>set cs. pb_matches m c) \<or> pm_MType m = P_COMMIT \<and> vote_matches s m) \<and>
     pm_ViewNumber m = ViewNumber (pb_View s) \<and> above_thr (NodesNum (pb_View s)) cs \<and>
     (\<forall>c\<in>set cs. pb_verify env s c (msg_bytes1 c)) \<and>
     stored_with env s cs s' \<and> ViewNumber (pb_View s') = ViewNumber (pb_View s) + 1"

lemma reply_quorum:
  assumes inv: "pb_inv env t" and v: "pm_ViewNumber m = ViewNumber (pb_View t)"
    and r: "pb_reply env t m = Some (ret, s')"
  shows "stored_with env t (CommitMsgs (cur_log t)) s'" "ViewNumber (pb_View s') = ViewNumber (pb_View t) + 1"
    "\<forall>c\<in>set (CommitMsgs (cur_log t)). pb_verify env t c (msg_bytes1 c)" "ret \<noteq> None"
proof -
  have k: "pb_BlkStore s' = StoreBlock ((pb_BlkStore t)\<lparr>CurProposalBlk := reply_block env t\<rparr>) (reply_block env t)"
    "ViewNumber (pb_View s') = ViewNumber (pb_View t) + 1" "ret \<noteq> None"
    using pb_reply_ok [OF inv, of m] v r by auto
  show "stored_with env t (CommitMsgs (cur_log t)) s'"
    unfolding stored_with_def k(1)
    by (intro exI conjI, rule refl) (simp_all add: pb_files_def reply_block_def Let_def)
  show "\<forall>c\<in>set (CommitMsgs (cur_log t)). pb_verify env t c (msg_bytes1 c)"
    using cur_slot_ok [OF inv] by (simp add: slot_ok_def pb_verify_def)
qed (use pb_reply_ok [OF inv, of m] v r in auto)

lemma stored_with_cong:
  "pb_files t = pb_files s \<Longrightarrow> bs_Height (pb_BlkStore t) = bs_Height (pb_BlkStore s) \<Longrightarrow>
     stored_with env t cs s' = stored_with env s cs s'"
  by (simp add: stored_with_def)

lemma pb_verify_cong: "pb_Signer t = pb_Signer s \<Longrightarrow> pb_verify env t = pb_verify env s"
  by (simp add: pb_verify_def fun_eq_iff)

lemma Commit_store:
  assumes inv: "pb_inv env s" and t: "pm_MType m = P_COMMIT" and r: "HandleCommitMsg env s m = Some (ret, s')"
    and new: "pb_files s' \<noteq> pb_files s"
  shows "quorum_block env s m (CommitMsgs (cur_log s) @ [m]) s'"
proof -
  let ?s = "log_set s (add_vote m)"
  have c: "vote_ready env s m" "vote_matches s m" "pm_ViewNumber m = ViewNumber (pb_View s)"
    "above_thr (NodesNum (pb_View s)) (CommitMsgs (cur_log s) @ [m])" "pb_reply env ?s m = Some (ret, s')"
    using r new by (auto simp: HandleCommitMsg_eq [OF inv t] split: if_splits)
  have inv1: "pb_inv env ?s" using add_vote_inv [OF inv] c(1) by (simp add: vote_ready_def)
  have l: "CommitMsgs (cur_log ?s) = CommitMsgs (cur_log s) @ [m]"
    using cur_log_set [OF inv, of "add_vote m"] t by (simp add: add_vote_def)
  from reply_quorum(1-3) [OF inv1 _ c(5)] c(2,3,4) t show ?thesis
    by (simp add: quorum_block_def l pb_verify_cong [of ?s s] stored_with_cong [of ?s s])
qed

lemma PrePrepare_store:
  assumes inv: "pb_inv env s" and t: "pm_MType m = P_PREPREPARE" and v: "ViewNumber (pb_View s) \<le> pm_ViewNumber m"
    and r: "HandlePrePrepareMsg env s m = Some (ret, s')" and new: "pb_files s' \<noteq> pb_files s"
  shows "quorum_block env s m (filter (pb_matches m) (CommitMsgs (cur_log s))) s'"
proof -
  have rdy: "pp_ready env s m" using r new by (auto simp: HandlePrePrepareMsg_eq [OF inv t v] split: if_splits)
  from pp_take_ok [OF inv rdy] obtain u where u: "pp_take env s m = Some u" "pb_inv env u" "same_node s u"
    "pb_View u = pb_View s" "cur_log u = (cur_log s)\<lparr>PreprepareMsg := Some m\<rparr>"
    "pb_IsLeader s \<longrightarrow> pb_BlkStore u = pb_BlkStore s"
    "\<not> pb_IsLeader s \<longrightarrow> pb_BlkStore u = pb_BlkStore (UpdateConsensus env s m)" by (auto split: if_splits)
  have st: "pb_files u = pb_files s" "bs_Height (pb_BlkStore u) = bs_Height (pb_BlkStore s)"
    using u(6,7) by (cases "pb_IsLeader s"; simp add: pb_files_def UpdateConsensus_def Let_def)+
  let ?s = "log_set u (keep_matching m)"
  have inv1: "pb_inv env ?s" using keep_matching_inv [OF u(2)] .
  have nonnil: "pb_reply env ?s m \<noteq> Some (None, x)" for x
    using reply_quorum(4) [OF inv1, of m None x] rdy u(4) by (auto simp: pp_ready_def)
  have c: "above_thr (NodesNum (pb_View s)) (filter (pb_matches m) (CommitMsgs (cur_log s)))"
    "pb_reply env ?s m = Some (ret, s')"
    using r new rdy u(1,4,5) st(1) nonnil
    by (auto simp: HandlePrePrepareMsg_eq [OF inv t v] CheckPrepareAndCommit_eq [OF u(2)] bind_Some_iff
        split: if_splits)
  have l: "CommitMsgs (cur_log ?s) = filter (pb_matches m) (CommitMsgs (cur_log s))"
    using cur_log_set [OF u(2), of "keep_matching m"] u(5) by simp
  have mv: "pm_ViewNumber m = ViewNumber (pb_View s)" using rdy by (simp add: pp_ready_def)
  have sg: "pb_Signer u = pb_Signer s" using u(3) by (simp add: same_node_def)
  from reply_quorum(1-3) [OF inv1 _ c(2)] c(1) t mv u(4) show ?thesis
    by (simp add: quorum_block_def l pb_verify_cong [of ?s s, simplified, OF sg]
        stored_with_cong [of ?s s, simplified, OF st])
qed

text \<open>
  A block is stored only for more than 2f COMMIT messages: of the events of a replica, only a COMMIT
  that matches the accepted pre-prepare of the current view, or a pre-prepare of the current view
  that finds enough matching commits already logged, changes the stored files; the block is stored
  with the JSON of the logged COMMIT messages, whose signatures have all been verified, and the
  replica moves to the next view. The operations of the node management are added in Ord_Safety.
\<close>

lemma pb_store_needs_quorum:
  assumes inv: "pb_inv env s" and step: "pb_step env s e = Some s'" and new: "pb_files s' \<noteq> pb_files s"
  shows "\<exists>m cs. e = PDeliver m \<and> quorum_block env s m cs s'"
proof -
  show ?thesis
  proof (cases e)
    case (PDeliver m)
    from HandlePMsg_store [OF inv _ new, of m] step PDeliver obtain ret t where
      r: "RoutePMsg env s m = Some (ret, t)" "pb_BlkStore s' = pb_BlkStore t" "pb_View s' = pb_View t"
        "ViewNumber (pb_View s) \<le> pm_ViewNumber m" "pm_MType m = P_PREPREPARE \<or> pm_MType m = P_COMMIT" by auto
    have new': "pb_files t \<noteq> pb_files s" using new r(2) by (simp add: pb_files_def)
    have "\<exists>cs. quorum_block env s m cs t"
      using r(5) Commit_store [OF inv _ _ new', of m ret] PrePrepare_store [OF inv _ r(4) _ new', of ret] r(1)
      by (auto simp: RoutePMsg_def)
    with PDeliver r(2,3) show ?thesis by (auto simp: quorum_block_def stored_with_def)
  next
    case (PRequest now h ph ch reqs)
    have "pb_inv (env\<lparr>Clock := now\<rparr>) s" using inv by simp
    from HandleReq_effect [OF this, of h ph ch reqs] PRequest step new show ?thesis by auto
  next
    case PTimeout
    with PTimeout_effect [OF inv] step new show ?thesis by auto
  next
    case (PRunTask now)
    have i: "pb_inv (env\<lparr>Clock := now\<rparr>) s" using inv by simp
    show ?thesis
    proof (cases "pb_Tasks s")
      case (Cons t ts)
      from run_task_effect [OF i Cons] Cons PRunTask step new show ?thesis by auto
    qed (use PRunTask step new in simp)
  qed
qed

section \<open>A round\<close>

lemma log_set_twice: "pb_inv env s \<Longrightarrow> log_set (log_set s f) g = log_set s (\<lambda>l. g (f l))"
  using cur_log_set [of env s f] by (simp add: log_set_def cur_log_def cur_slot_def)

lemma log_set_phase: "log_set (s\<lparr>pb_CurPhase := x\<rparr>) f = (log_set s f)\<lparr>pb_CurPhase := x\<rparr>"
  by (simp add: log_set_def cur_log_def cur_slot_def)

lemma cur_log_upd [simp]: "cur_log (s\<lparr>pb_CurPhase := x\<rparr>) = cur_log s" "cur_log (s\<lparr>pb_SendChan := y\<rparr>) = cur_log s"
  by (simp_all add: cur_log_def cur_slot_def)

text \<open>A vote that fits the accepted pre-prepare.\<close>

definition good_vote :: "'a env_scheme \<Rightarrow> PBFT \<Rightarrow> p_StateType \<Rightarrow> PMsg \<Rightarrow> bool" where
  "good_vote env s ty m \<longleftrightarrow> pm_MType m = ty \<and> pm_ViewNumber m = ViewNumber (pb_View s) \<and> vote_matches s m \<and>
     vote_in_bounds s m \<and> pb_verify env s m (msg_bytes1 m)"

lemma good_vote_ready:
  "good_vote env s ty m \<Longrightarrow> pb_CurPhase s \<noteq> P_VIEW_CHANGE \<Longrightarrow> vote_ready env s m \<and> \<not> slot_empty s (pm_ViewNumber m)"
  by (auto simp: good_vote_def vote_ready_def vote_matches_def slot_empty_def cur_log_def cur_slot_def split: option.splits)

lemma good_vote_cong:
  "\<lbrakk>PreprepareMsg (cur_log t) = PreprepareMsg (cur_log s); pb_View t = pb_View s; pb_Signer t = pb_Signer s;
    cp_Seq (pb_CheckPoint t) = cp_Seq (pb_CheckPoint s)\<rbrakk> \<Longrightarrow> good_vote env t ty m = good_vote env s ty m"
  by (simp add: good_vote_def vote_matches_def vote_in_bounds_def pb_verify_def)

text \<open>Votes that do not complete a quorum are logged, one after the other.\<close>

lemma prepares_logged:
  assumes "pb_inv env s" "pb_CurPhase s \<noteq> P_VIEW_CHANGE" "\<forall>m\<in>set ms. good_vote env s P_PREPARE m"
    "int (length (PrepareMsgs (cur_log s)) + length ms) \<le> thr2f (NodesNum (pb_View s))"
  shows "run (pb_step env) s (map PDeliver ms) = Some (log_set s (\<lambda>l. l\<lparr>PrepareMsgs := PrepareMsgs l @ ms\<rparr>))"
  using assms
proof (induction ms arbitrary: s)
  case Nil
  then show ?case using cur_slot_bound [of env s] by (simp add: log_set_def cur_log_def)
next
  case (Cons m ms)
  let ?s = "log_set s (add_vote m)"
  have g: "good_vote env s P_PREPARE m" using Cons.prems(3) by simp
  have t: "pm_MType m = P_PREPARE" using g by (simp add: good_vote_def)
  have inv1: "pb_inv env ?s" using add_vote_inv [OF Cons.prems(1)] g by (simp add: good_vote_def)
  have cl: "cur_log ?s = (cur_log s)\<lparr>PrepareMsgs := PrepareMsgs (cur_log s) @ [m]\<rparr>"
    using cur_log_set [OF Cons.prems(1), of "add_vote m"] t by (simp add: add_vote_def)
  have step: "pb_step env s (PDeliver m) = Some ?s"
    using good_vote_ready [OF g Cons.prems(2)] g Cons.prems(4) t
    by (auto simp: HandlePMsg_eq RoutePMsg_def HandlePrepareMsg_eq [OF Cons.prems(1) t] good_vote_def above_thr_def)
  have "run (pb_step env) ?s (map PDeliver ms) = Some (log_set ?s (\<lambda>l. l\<lparr>PrepareMsgs := PrepareMsgs l @ ms\<rparr>))"
  proof (rule Cons.IH [OF inv1])
    show "\<forall>m\<in>set ms. good_vote env ?s P_PREPARE m"
      using Cons.prems(3) good_vote_cong [of ?s s env] cl by simp
  qed (use Cons.prems(2,4) cl in simp_all)
  moreover have "log_set ?s (\<lambda>l. l\<lparr>PrepareMsgs := PrepareMsgs l @ ms\<rparr>) = log_set s (\<lambda>l. l\<lparr>PrepareMsgs := PrepareMsgs l @ m # ms\<rparr>)"
    unfolding log_set_twice [OF Cons.prems(1)] using t by (simp add: add_vote_def)
  ultimately show ?case using step by (simp del: pb_step.simps)
qed

lemma commits_logged:
  assumes "pb_inv env s" "pb_CurPhase s \<noteq> P_VIEW_CHANGE" "\<forall>m\<in>set ms. good_vote env s P_COMMIT m"
    "int (length (CommitMsgs (cur_log s)) + length ms) \<le> thr2f (NodesNum (pb_View s))"
  shows "run (pb_step env) s (map PDeliver ms) = Some (log_set s (\<lambda>l. l\<lparr>CommitMsgs := CommitMsgs l @ ms\<rparr>))"
  using assms
proof (induction ms arbitrary: s)
  case Nil
  then show ?case using cur_slot_bound [of env s] by (simp add: log_set_def cur_log_def)
next
  case (Cons m ms)
  let ?s = "log_set s (add_vote m)"
  have g: "good_vote env s P_COMMIT m" using Cons.prems(3) by simp
  have t: "pm_MType m = P_COMMIT" using g by (simp add: good_vote_def)
  have inv1: "pb_inv env ?s" using add_vote_inv [OF Cons.prems(1)] g by (simp add: good_vote_def)
  have cl: "cur_log ?s = (cur_log s)\<lparr>CommitMsgs := CommitMsgs (cur_log s) @ [m]\<rparr>"
    using cur_log_set [OF Cons.prems(1), of "add_vote m"] t by (simp add: add_vote_def)
  have step: "pb_step env s (PDeliver m) = Some ?s"
    using good_vote_ready [OF g Cons.prems(2)] g Cons.prems(4) t
    by (auto simp: HandlePMsg_eq RoutePMsg_def HandleCommitMsg_eq [OF Cons.prems(1) t] good_vote_def above_thr_def)
  have "run (pb_step env) ?s (map PDeliver ms) = Some (log_set ?s (\<lambda>l. l\<lparr>CommitMsgs := CommitMsgs l @ ms\<rparr>))"
  proof (rule Cons.IH [OF inv1])
    show "\<forall>m\<in>set ms. good_vote env ?s P_COMMIT m"
      using Cons.prems(3) good_vote_cong [of ?s s env] cl by simp
  qed (use Cons.prems(2,4) cl in simp_all)
  moreover have "log_set ?s (\<lambda>l. l\<lparr>CommitMsgs := CommitMsgs l @ ms\<rparr>) = log_set s (\<lambda>l. l\<lparr>CommitMsgs := CommitMsgs l @ m # ms\<rparr>)"
    unfolding log_set_twice [OF Cons.prems(1)] using t by (simp add: add_vote_def)
  ultimately show ?case using step by (simp del: pb_step.simps)
qed

text \<open>The state of a replica that has sent its PREPARE for the pre-prepare \<open>m\<close> of the view.\<close>

definition pp_accepted :: "'a env_scheme \<Rightarrow> PBFT \<Rightarrow> PMsg \<Rightarrow> PBFT \<Rightarrow> bool" where
  "pp_accepted env s m s1 \<longleftrightarrow> pb_inv env s1 \<and> pb_CurPhase s1 = P_PREPREPARE \<and> pb_View s1 = pb_View s \<and>
     pb_Signer s1 = pb_Signer s \<and> pb_ConsId s1 = pb_ConsId s \<and> cp_Seq (pb_CheckPoint s1) = cp_Seq (pb_CheckPoint s) \<and>
     cur_log s1 = (cur_log s)\<lparr>PreprepareMsg := Some m\<rparr> \<and> SequenceNum s1 = pm_SeqNum m \<and>
     pb_BlkStore s1 = (pb_BlkStore s)\<lparr>CurProposalBlk := p_Block (hd_of m),
        CurBlkHash := Block_Hash env (p_Block (hd_of m))\<rparr>"

lemma vote_msg_SendNode: "pb_ConsId u = pb_ConsId s \<Longrightarrow>
    with_hdr (\<lambda>h. h\<lparr>p_SendNode := pb_GetNodeName u\<rparr>) (vote_msg env s ty q d) = vote_msg env s ty q d"
  by (simp add: vote_msg_def with_hdr_def put_sign_def Let_def pb_GetNodeName_def nil_pHdr_def)

lemma vote_msg_cong:
  "pb_ConsId u = pb_ConsId s \<Longrightarrow> pb_Signer u = pb_Signer s \<Longrightarrow> pb_View u = pb_View s \<Longrightarrow>
     vote_msg env u ty q d = vote_msg env s ty q d"
  by (simp add: vote_msg_def put_sign_def pb_GetNodeName_def)

lemma round_preprepare:
  assumes inv: "pb_inv env s" and lead: "\<not> pb_IsLeader s" and t: "pm_MType m = P_PREPREPARE"
    and rdy: "pp_ready env s m" and none: "PrepareMsgs (cur_log s) = []"
  shows "\<exists>s1. pb_step env s (PDeliver m) = Some s1 \<and> pp_accepted env s m s1 \<and>
    pb_sent s1 = pb_sent s @ [vote_msg env s P_PREPARE (pm_SeqNum m) (pm_Digest m)] \<and>
    (\<exists>u c. pp_take env s m = Some u \<and> s1 = u\<lparr>pb_SendChan := c\<rparr>)"
proof -
  have mv: "pm_ViewNumber m = ViewNumber (pb_View s)" using rdy by (simp add: pp_ready_def)
  from pp_take_ok [OF inv rdy] lead obtain u where u: "pp_take env s m = Some u" "pb_inv env u" "same_node s u"
    "pb_View u = pb_View s" "cur_log u = (cur_log s)\<lparr>PreprepareMsg := Some m\<rparr>"
    "cp_Seq (pb_CheckPoint u) = cp_Seq (pb_CheckPoint s)" "pb_CurPhase u = P_PREPREPARE"
    "SequenceNum u = pm_SeqNum m" "pb_BlkStore u = pb_BlkStore (UpdateConsensus env s m)" by auto
  let ?v = "vote_msg env u P_PREPARE (pm_SeqNum m) (pm_Digest m)"
  have route: "RoutePMsg env s m = Some (Some ?v, u)"
    using t rdy u(1,5) none mv
    by (simp add: RoutePMsg_def HandlePrePrepareMsg_eq [OF inv t] CheckPrepareAndCommit_eq [OF u(2)])
  have id: "pb_ConsId u = pb_ConsId s" "pb_Signer u = pb_Signer s" "pb_sent u = pb_sent s"
    using u(3) by (simp_all add: same_node_def pb_sent_def)
  obtain c where c: "pb_SendSerMsg u ?v = Some (u\<lparr>pb_SendChan := Some (the (pb_SendChan u) @ [c])\<rparr>)" "Payload c = ?v"
    using pb_SendSerMsg_ok [OF u(2)] by blast
  let ?w = "u\<lparr>pb_SendChan := Some (the (pb_SendChan u) @ [c])\<rparr>"
  have sent: "pb_sent ?w = pb_sent u @ [?v]"
    using pb_invD(4) [OF u(2)] c(2) by (auto simp: pb_sent_def)
  have "pb_step env s (PDeliver m) = Some ?w"
    using mv route c(1) by (simp add: HandlePMsg_eq vote_msg_SendNode)
  moreover have "pp_accepted env s m ?w"
    using u id pb_inv_chan [OF u(2)] by (simp add: pp_accepted_def) (simp add: UpdateConsensus_def Let_def)
  ultimately show ?thesis
    using sent id vote_msg_cong [OF id(1,2) u(4)] u(1) by (intro exI [of _ ?w]) auto
qed

lemma round_prepares:
  assumes inv: "pb_inv env s" and ph: "pb_CurPhase s \<noteq> P_VIEW_CHANGE" "pb_CurPhase s \<noteq> P_PREPARE"
    and good: "\<forall>x\<in>set ps. good_vote env s P_PREPARE x" and none: "PrepareMsgs (cur_log s) = []"
    and pp: "PreprepareMsg (cur_log s) = Some m" and len: "int (length ps) = thr2f (NodesNum (pb_View s)) + 1"
  shows "\<exists>s2 d. run (pb_step env) s (map PDeliver ps) = Some s2 \<and> pb_inv env s2 \<and> pb_CurPhase s2 = P_PREPARE \<and>
    cur_log s2 = (cur_log s)\<lparr>PrepareMsgs := ps\<rparr> \<and> pb_View s2 = pb_View s \<and> pb_Signer s2 = pb_Signer s \<and>
    pb_CheckPoint s2 = pb_CheckPoint s \<and> SequenceNum s2 = SequenceNum s \<and> pb_BlkStore s2 = pb_BlkStore s \<and>
    bytes_Equal d (pm_Digest m) \<and> pb_sent s2 = pb_sent s @ [vote_msg env s P_COMMIT (SequenceNum s) d] \<and>
    d = pm_Digest (last ps) \<and>
    (\<exists>c. s2 = (log_set s (\<lambda>l. l\<lparr>PrepareMsgs := PrepareMsgs l @ ps\<rparr>))\<lparr>pb_CurPhase := P_PREPARE, pb_SendChan := c\<rparr>)"
proof -
  from len thr2f_nonneg [OF pb_invD(7) [OF inv]] have ps: "ps = butlast ps @ [last ps]"
    by (cases ps rule: rev_cases) auto
  define xs where "xs = butlast ps"
  define x where "x = last ps"
  have ps: "ps = xs @ [x]" using ps by (simp add: xs_def x_def)
  let ?s = "log_set s (\<lambda>l. l\<lparr>PrepareMsgs := PrepareMsgs l @ xs\<rparr>)"
  have r1: "run (pb_step env) s (map PDeliver xs) = Some ?s"
    using prepares_logged [OF inv ph(1), of xs] good len none by (simp add: ps)
  have inv1: "pb_inv env ?s" using pb.run_inv [OF inv r1] .
  have c1: "cur_log ?s = (cur_log s)\<lparr>PrepareMsgs := xs\<rparr>" using cur_log_set [OF inv] none by simp
  have g: "good_vote env ?s P_PREPARE x" using good good_vote_cong [of ?s s env] c1 ps by simp
  have t: "pm_MType x = P_PREPARE" using g by (simp add: good_vote_def)
  let ?v = "vote_msg env ?s P_COMMIT (SequenceNum s) (pm_Digest x)"
  let ?u = "(log_set ?s (add_vote x))\<lparr>pb_CurPhase := P_PREPARE\<rparr>"
  have inv2: "pb_inv env ?u" using add_vote_inv [OF inv1, of x] g by (simp add: good_vote_def)
  have thr: "above_thr (NodesNum (pb_View s)) (xs @ [x])" using len by (simp add: ps above_thr_def)
  have route: "RoutePMsg env ?s x = Some (Some ?v, ?u)"
    using good_vote_ready [OF g] g ph thr t c1
    by (auto simp: RoutePMsg_def HandlePrepareMsg_eq [OF inv1 t] good_vote_def)
  obtain c where c: "pb_SendSerMsg ?u ?v = Some (?u\<lparr>pb_SendChan := Some (the (pb_SendChan ?u) @ [c])\<rparr>)" "Payload c = ?v"
    using pb_SendSerMsg_ok [OF inv2] by blast
  let ?w = "?u\<lparr>pb_SendChan := Some (the (pb_SendChan ?u) @ [c])\<rparr>"
  have step: "pb_step env ?s (PDeliver x) = Some ?w"
    using route g c(1) by (simp add: HandlePMsg_eq good_vote_def vote_msg_SendNode)
  have sent: "pb_sent ?w = pb_sent s @ [vote_msg env s P_COMMIT (SequenceNum s) (pm_Digest x)]"
    using pb_invD(4) [OF inv] c(2) vote_msg_cong [of ?s s] by (auto simp: pb_sent_def)
  have cl: "cur_log ?w = (cur_log s)\<lparr>PrepareMsgs := ps\<rparr>"
    using cur_log_set [OF inv1, of "add_vote x"] c1 t by (simp add: add_vote_def ps)
  have d: "bytes_Equal (pm_Digest x) (pm_Digest m)"
    using g c1 pp by (simp add: good_vote_def vote_matches_def pb_matches_def)
  have "log_set ?s (add_vote x) = log_set s (\<lambda>l. l\<lparr>PrepareMsgs := PrepareMsgs l @ ps\<rparr>)"
    unfolding log_set_twice [OF inv] using t by (simp add: add_vote_def ps)
  then have "\<exists>c. ?w = (log_set s (\<lambda>l. l\<lparr>PrepareMsgs := PrepareMsgs l @ ps\<rparr>))\<lparr>pb_CurPhase := P_PREPARE, pb_SendChan := c\<rparr>"
    by auto
  moreover have "pb_ConsId ?w = pb_ConsId s" by simp
  ultimately show ?thesis
    using r1 step sent cl d pb_inv_chan [OF inv2]
    by (intro exI [of _ ?w] exI [of _ "pm_Digest x"]) (simp add: ps run_append del: pb_step.simps)
qed

text \<open>The block that is stored: the proposed one, with the commits as its validation.\<close>

definition committed :: "'a pbft_env_scheme \<Rightarrow> Block \<Rightarrow> PMsg list \<Rightarrow> Block" where
  "committed env b cs = b\<lparr>BlkHdr := (BlkHdr b)\<lparr>bh_Validation := Some (MarshalMsgs env cs)\<rparr>\<rparr>"

lemma round_commits:
  assumes inv: "pb_inv env s" and ph: "pb_CurPhase s \<noteq> P_VIEW_CHANGE"
    and good: "\<forall>x\<in>set cs. good_vote env s P_COMMIT x" and none: "CommitMsgs (cur_log s) = []"
    and prep: "above_thr (NodesNum (pb_View s)) (PrepareMsgs (cur_log s))"
    and len: "int (length cs) = thr2f (NodesNum (pb_View s)) + 1"
  shows "\<exists>s3 rest. run (pb_step env) s (map PDeliver cs) = Some s3 \<and> pb_inv env s3 \<and>
    ViewNumber (pb_View s3) = ViewNumber (pb_View s) + 1 \<and>
    (let b = committed env (CurProposalBlk (pb_BlkStore s)) cs
     in pb_BlkStore s3 = StoreBlock ((pb_BlkStore s)\<lparr>CurProposalBlk := b\<rparr>) b) \<and>
    pb_sent s3 = pb_sent s @ rest \<and> vote_keys pb_vote_key rest = [] \<and>
    (\<exists>r w. pb_reply env (log_set s (\<lambda>l. l\<lparr>CommitMsgs := CommitMsgs l @ cs\<rparr>)) (last cs) = Some (Some r, w) \<and>
       reply_tail w r = Some s3)"
proof -
  from len thr2f_nonneg [OF pb_invD(7) [OF inv]] have cs: "cs = butlast cs @ [last cs]"
    by (cases cs rule: rev_cases) auto
  define xs where "xs = butlast cs"
  define x where "x = last cs"
  have cs: "cs = xs @ [x]" using cs by (simp add: xs_def x_def)
  let ?s = "log_set s (\<lambda>l. l\<lparr>CommitMsgs := CommitMsgs l @ xs\<rparr>)"
  have r1: "run (pb_step env) s (map PDeliver xs) = Some ?s"
    using commits_logged [OF inv ph(1), of xs] good len none by (simp add: cs)
  have inv1: "pb_inv env ?s" using pb.run_inv [OF inv r1] .
  have c1: "cur_log ?s = (cur_log s)\<lparr>CommitMsgs := xs\<rparr>" using cur_log_set [OF inv] none by simp
  have g: "good_vote env ?s P_COMMIT x" using good good_vote_cong [of ?s s env] c1 cs by simp
  have t: "pm_MType x = P_COMMIT" and v: "pm_ViewNumber x = ViewNumber (pb_View s)"
    using g by (simp_all add: good_vote_def)
  let ?u = "log_set ?s (add_vote x)"
  have inv2: "pb_inv env ?u" using add_vote_inv [OF inv1, of x] g by (simp add: good_vote_def)
  have thr: "above_thr (NodesNum (pb_View s)) (xs @ [x])" using len by (simp add: cs above_thr_def)
  have route: "RoutePMsg env ?s x = pb_reply env ?u x"
    using good_vote_ready [OF g] g ph thr t c1 prep
    by (auto simp: RoutePMsg_def HandleCommitMsg_eq [OF inv1 t] good_vote_def)
  have blk: "reply_block env ?u = committed env (CurProposalBlk (pb_BlkStore s)) cs"
    using cur_log_set [OF inv1, of "add_vote x"] c1 t by (simp add: reply_block_def committed_def cs add_vote_def Let_def)
  obtain r w where w: "pb_reply env ?u x = Some (Some r, w)" "pm_MType r = P_REPLY" "pb_inv env w" "same_node ?u w"
    "ViewNumber (pb_View w) = ViewNumber (pb_View ?u) + 1"
    "pb_BlkStore w = StoreBlock ((pb_BlkStore ?u)\<lparr>CurProposalBlk := reply_block env ?u\<rparr>) (reply_block env ?u)"
    "pb_CurPhase w = P_CHECKPOINT \<or> pb_CurPhase w = P_NEW_VIEW"
    using pb_reply_ok [OF inv2, of x] v by auto
  from reply_tail_ok [OF w(3,7), of r] obtain s3 where
    s3: "reply_tail w r = Some s3" "pb_inv env s3" "pb_View s3 = pb_View w" "pb_BlkStore s3 = pb_BlkStore w"
      "pb_sent s3 = pb_sent w \<or> (\<exists>c. pb_sent s3 = pb_sent w @ [c] \<and> pb_vote_key c = None)" by blast
  have "pb_step env ?s (PDeliver x) = Some s3"
    using route w(1,2) s3(1) v by (simp add: HandlePMsg_eq)
  then have run: "run (pb_step env) s (map PDeliver cs) = Some s3"
    using r1 by (simp add: cs run_append del: pb_step.simps)
  have "pb_sent w = pb_sent s" using w(4) by (simp add: same_node_def pb_sent_def)
  with s3(5) obtain rest where rest: "pb_sent s3 = pb_sent s @ rest" "vote_keys pb_vote_key rest = []" by fastforce
  have "?u = log_set s (\<lambda>l. l\<lparr>CommitMsgs := CommitMsgs l @ cs\<rparr>)"
    unfolding log_set_twice [OF inv] using t by (simp add: add_vote_def cs)
  then have "\<exists>r w. pb_reply env (log_set s (\<lambda>l. l\<lparr>CommitMsgs := CommitMsgs l @ cs\<rparr>)) (last cs) = Some (Some r, w) \<and>
      reply_tail w r = Some s3"
    using w(1) s3(1) by (simp add: cs)
  with run rest s3 w blk show ?thesis by (intro exI [of _ s3] exI [of _ rest]) (simp add: Let_def)
qed

text \<open>
  What a replica needs to see for a round: a pre-prepare for its view that it accepts, and 2f+1
  PREPAREs and 2f+1 COMMITs that agree with it and carry signatures of the senders they name. The
  senders need not be different.
\<close>

definition round_msgs :: "'a env_scheme \<Rightarrow> PBFT \<Rightarrow> PMsg \<Rightarrow> PMsg list \<Rightarrow> PMsg list \<Rightarrow> bool" where
  "round_msgs env s m ps cs \<longleftrightarrow> pm_MType m = P_PREPREPARE \<and> pp_ready env s m \<and>
     pm_SeqNum m \<le> cp_Seq (pb_CheckPoint s) + CHECKPOINTNUM \<and>
     PrepareMsgs (cur_log s) = [] \<and> CommitMsgs (cur_log s) = [] \<and>
     int (length ps) = thr2f (NodesNum (pb_View s)) + 1 \<and> int (length cs) = thr2f (NodesNum (pb_View s)) + 1 \<and>
     (\<forall>p\<in>set ps. pm_MType p = P_PREPARE \<and> pb_matches p m \<and> pb_verify env s p (msg_bytes1 p)) \<and>
     (\<forall>c\<in>set cs. pm_MType c = P_COMMIT \<and> pb_matches c m \<and> pb_verify env s c (msg_bytes1 c))"

lemma round_runs:
  assumes inv: "pb_inv env s" and lead: "\<not> pb_IsLeader s" and msgs: "round_msgs env s m ps cs"
  shows "\<exists>s' d rest. run (pb_step env) s (map PDeliver (m # ps @ cs)) = Some s' \<and> pb_inv env s' \<and>
    ViewNumber (pb_View s') = ViewNumber (pb_View s) + 1 \<and>
    (let b = committed env (p_Block (hd_of m)) cs
     in pb_files s' = (pb_files s)(block_file (bs_Path (pb_BlkStore s) @ ''/'') (bh_Height (BlkHdr b)) \<mapsto> b) \<and>
        bs_Height (pb_BlkStore s') = bs_Height (pb_BlkStore s) + 1 \<and>
        bs_PreBlkHash (pb_BlkStore s') = Block_Hash env (p_Block (hd_of m))) \<and>
    bytes_Equal d (pm_Digest m) \<and>
    pb_sent s' = pb_sent s @ [vote_msg env s P_PREPARE (pm_SeqNum m) (pm_Digest m),
                              vote_msg env s P_COMMIT (pm_SeqNum m) d] @ rest \<and> vote_keys pb_vote_key rest = []"
proof -
  note defs = msgs [unfolded round_msgs_def]
  have mv: "pm_ViewNumber m = ViewNumber (pb_View s)" using defs by (simp add: pp_ready_def)
  obtain s1 where s1: "pb_step env s (PDeliver m) = Some s1" "pp_accepted env s m s1"
    "pb_sent s1 = pb_sent s @ [vote_msg env s P_PREPARE (pm_SeqNum m) (pm_Digest m)]"
    using round_preprepare [OF inv lead] defs by blast
  note a = s1(2) [unfolded pp_accepted_def]
  have inv1: "pb_inv env s1" using a by blast
  have good: "pm_MType x = ty \<and> pb_matches x m \<and> pb_verify env s x (msg_bytes1 x) \<Longrightarrow> good_vote env s1 ty x" for x ty
    using a mv defs by (auto simp: good_vote_def vote_matches_def vote_in_bounds_def pb_matches_def pb_verify_def)
  obtain s2 d where s2: "run (pb_step env) s1 (map PDeliver ps) = Some s2" "pb_inv env s2" "pb_CurPhase s2 = P_PREPARE"
    "cur_log s2 = (cur_log s1)\<lparr>PrepareMsgs := ps\<rparr>" "pb_View s2 = pb_View s1" "pb_Signer s2 = pb_Signer s1"
    "pb_CheckPoint s2 = pb_CheckPoint s1" "pb_BlkStore s2 = pb_BlkStore s1" "bytes_Equal d (pm_Digest m)"
    "pb_sent s2 = pb_sent s1 @ [vote_msg env s1 P_COMMIT (SequenceNum s1) d]"
    using round_prepares [OF inv1, of ps m] a defs good by auto
  have "\<forall>x\<in>set cs. good_vote env s1 P_COMMIT x" using defs good by blast
  then have "\<forall>x\<in>set cs. good_vote env s2 P_COMMIT x"
    using good_vote_cong [of s2 s1 env] s2(4-7) by simp
  moreover have "above_thr (NodesNum (pb_View s2)) (PrepareMsgs (cur_log s2))"
    using defs a s2(4,5) by (simp add: above_thr_def)
  ultimately obtain s3 rest where s3: "run (pb_step env) s2 (map PDeliver cs) = Some s3" "pb_inv env s3"
    "ViewNumber (pb_View s3) = ViewNumber (pb_View s2) + 1"
    "(let b = committed env (CurProposalBlk (pb_BlkStore s2)) cs
     in pb_BlkStore s3 = StoreBlock ((pb_BlkStore s2)\<lparr>CurProposalBlk := b\<rparr>) b)"
    "pb_sent s3 = pb_sent s2 @ rest" "vote_keys pb_vote_key rest = []"
    using round_commits [OF s2(2), of cs] s2(3-5) a defs by auto
  have run: "run (pb_step env) s (map PDeliver (m # ps @ cs)) = Some s3"
    using s1(1) s2(1) s3(1) by (simp add: run_append del: pb_step.simps)
  have v: "vote_msg env s1 P_COMMIT (SequenceNum s1) d = vote_msg env s P_COMMIT (pm_SeqNum m) d"
    using a vote_msg_cong [of s1 s] by simp
  show ?thesis
    using run s3 s2 s1(3) a v
    by (intro exI [of _ s3] exI [of _ d] exI [of _ rest]) (simp add: Let_def pb_files_def StoreBlock_files)
qed

text \<open>
  A good round: a replica that is not the leader and gets an acceptable pre-prepare for its view,
  then 2f+1 PREPAREs and 2f+1 COMMITs that agree with it, answers with one PREPARE and one COMMIT
  for the digest, stores the block of the pre-prepare, with the commits as its validation, at its
  height, links its chain to the hash of that block, and is in the next view.
\<close>

theorem pb_round:
  assumes "pb_inv env s" "\<not> pb_IsLeader s" "round_msgs env s m ps cs"
  shows "\<exists>s' d rest. run (pb_step env) s (map PDeliver (m # ps @ cs)) = Some s' \<and>
    ViewNumber (pb_View s') = ViewNumber (pb_View s) + 1 \<and>
    (let b = committed env (p_Block (hd_of m)) cs
     in pb_files s' = (pb_files s)(block_file (bs_Path (pb_BlkStore s) @ ''/'') (bh_Height (BlkHdr b)) \<mapsto> b) \<and>
        bs_Height (pb_BlkStore s') = bs_Height (pb_BlkStore s) + 1 \<and>
        bs_PreBlkHash (pb_BlkStore s') = Block_Hash env (p_Block (hd_of m))) \<and>
    bytes_Equal d (pm_Digest m) \<and>
    pb_sent s' = pb_sent s @ [vote_msg env s P_PREPARE (pm_SeqNum m) (pm_Digest m),
                              vote_msg env s P_COMMIT (pm_SeqNum m) d] @ rest \<and> vote_keys pb_vote_key rest = []"
  using round_runs [OF assms] by blast

lemma demo_round:
  "round_msgs pb_demo_env pb_demo (demo_msg P_PREPREPARE 0 0) (map (demo_msg P_PREPARE 0) [1, 2, 3]) (map (demo_msg P_COMMIT 0) [0, 1, 2])"
  "round_msgs pb_demo_env pb_demo (demo_msg P_PREPREPARE 0 0) (replicate 3 (demo_msg P_PREPARE 0 2)) (replicate 3 (demo_msg P_COMMIT 0 2))"
  "\<not> pb_IsLeader pb_demo"
  by (auto simp: round_msgs_def pp_ready_def CHECKPOINTNUM_def pb_matches_def pb_IsLeader_def)

theorem pb_round_witness:
  "\<exists>s'. run (pb_step pb_demo_env) pb_demo (map PDeliver (demo_msg P_PREPREPARE 0 0 # map (demo_msg P_PREPARE 0) [1, 2, 3] @
      map (demo_msg P_COMMIT 0) [0, 1, 2])) = Some s' \<and> ViewNumber (pb_View s') = 1"
  using pb_round [OF pb_demo_inv demo_round(3,1)] by (auto simp del: run.simps list.map)

text \<open>The same pre-prepare with another block: the signature covers the header only.\<close>

definition with_block :: "Block \<Rightarrow> PMsg \<Rightarrow> PMsg" where
  "with_block b m = with_hdr (\<lambda>h. h\<lparr>p_Block := b\<rparr>) m"

lemma with_block_sel [simp]:
  "pm_MType (with_block b m) = pm_MType m" "pm_ViewNumber (with_block b m) = pm_ViewNumber m"
  "pm_SeqNum (with_block b m) = pm_SeqNum m" "pm_Digest (with_block b m) = pm_Digest m"
  "pm_SendNode (with_block b m) = pm_SendNode m" "pm_Signature (with_block b m) = pm_Signature m"
  "p_Block (hd_of (with_block b m)) = b" "msg_bytes0 (with_block b m) = msg_bytes0 m"
  by (simp_all add: with_block_def msg_bytes0_def hdr_bytes_def)

lemma round_with_block: "round_msgs env s (with_block b m) ps cs = round_msgs env s m ps cs"
  by (simp add: round_msgs_def pp_ready_def pb_matches_def pb_verify_def)

text \<open>
  The digest of a pre-prepare does not fix its block: nothing compares the two, and the signature
  covers the digest only. Whatever block \<open>b\<close> is put into an acceptable pre-prepare, the same
  PREPAREs and COMMITs make the replica store \<open>b\<close>; so replicas that get the pre-prepare with
  different blocks store different blocks with the same certificate.
\<close>

theorem pb_block_not_bound:
  assumes "pb_inv env s" "\<not> pb_IsLeader s" "round_msgs env s m ps cs"
  shows "\<exists>s' h. run (pb_step env) s (map PDeliver (with_block b m # ps @ cs)) = Some s' \<and>
    pb_files s' h = Some (committed env b cs)"
proof -
  have "round_msgs env s (with_block b m) ps cs" using assms(3) by (simp add: round_with_block)
  from round_runs [OF assms(1,2) this] show ?thesis by (auto simp: Let_def)
qed

theorem pb_block_not_bound_witness:
  "\<forall>b. \<exists>s' h. run (pb_step pb_demo_env) pb_demo (map PDeliver (with_block b (demo_msg P_PREPREPARE 0 0) #
      map (demo_msg P_PREPARE 0) [1, 2, 3] @ map (demo_msg P_COMMIT 0) [0, 1, 2])) = Some s' \<and>
    pb_files s' h = Some (committed pb_demo_env b (map (demo_msg P_COMMIT 0) [0, 1, 2]))"
  using pb_block_not_bound [OF pb_demo_inv demo_round(3,1)] by blast

text \<open>
  C39 Votes are counted per message, not per sender: after an acceptable pre-prepare, one signed
  PREPARE and one signed COMMIT of a single node, each delivered 2f+1 times, make a replica commit
  and store the block.
\<close>

theorem pb_replayed_votes_commit:
  assumes "pb_inv env s" "\<not> pb_IsLeader s" "round_msgs env s m (replicate k p) (replicate k c)"
  shows "\<exists>s' h. run (pb_step env) s (map PDeliver (m # replicate k p @ replicate k c)) = Some s' \<and>
    ViewNumber (pb_View s') = ViewNumber (pb_View s) + 1 \<and>
    pb_files s' h = Some (committed env (p_Block (hd_of m)) (replicate k c))"
  using round_runs [OF assms(1-3)] by (auto simp: Let_def)

theorem pb_replayed_votes_commit_witness:
  "\<exists>s'. run (pb_step pb_demo_env) pb_demo (map PDeliver (demo_msg P_PREPREPARE 0 0 #
      replicate 3 (demo_msg P_PREPARE 0 2) @ replicate 3 (demo_msg P_COMMIT 0 2))) = Some s' \<and> ViewNumber (pb_View s') = 1"
  using pb_replayed_votes_commit [OF pb_demo_inv demo_round(3,2)] by (auto simp del: run.simps list.map)

end
