(* ===== verification/Pbft_Edges.thy ===== *)
theory Pbft_Edges
  imports Pbft_Safety
begin

text \<open>
  PBFT: catching up with a view, checkpoints, the new-view message of the next leader, and two
  inputs that the code handles badly (a new-view message nobody asked for, and requests at any node
  in any phase).
\<close>

section \<open>Catching up\<close>

text \<open>
  C40 The loop \<open>for p.View.ViewNumber < v { p.View.NextView() }\<close> ends: it leaves the view alone when it
  is not behind, and otherwise takes it to \<open>v\<close> with the leader that many places further round.
\<close>

theorem catch_up_closed_form:
  assumes "view_ok w"
  shows "catch_up w v = Some (let k = max 0 (v - ViewNumber w)
     in w\<lparr>ViewNumber := ViewNumber w + k, Leader := (Leader w + k) mod NodesNum w\<rparr>)"
  using catch_up_ok [OF assms, of v] by (auto simp: Let_def max_def View.splits intro!: View.equality)

theorem catch_up_closed_form_witness:
  "catch_up \<lparr>ViewNumber = 3, Leader = 3, NodesNum = 4\<rparr> 8 = Some \<lparr>ViewNumber = 8, Leader = 0, NodesNum = 4\<rparr>"
  using catch_up_closed_form [of "\<lparr>ViewNumber = 3, Leader = 3, NodesNum = 4\<rparr>" 8] by (simp add: view_ok_def Let_def)

section \<open>Checkpoints\<close>

text \<open>
  A checkpoint becomes stable: the CHECKPOINT message that makes more than 2f of them for a
  sequence number beyond the stable one moves the checkpoint there, empties the whole log and the
  buffer, and leaves view and sequence number alone, so the view's own pre-prepare is forgotten with
  the rest; of the messages only the first is kept as proof.
\<close>

theorem pb_checkpoint_stable:
  assumes inv: "pb_inv env s" and t: "pm_MType m = P_CHECKPOINT" and sig: "pb_verify env s m (msg_bytes1 m)"
    and new: "cp_Seq (pb_CheckPoint s) < pm_SeqNum m"
    and buf: "int (length (cp_buffer (pb_CheckPoint s) (pm_SeqNum m))) = thr2f (NodesNum (pb_View s))"
  shows "\<exists>s'. pb_step env s (PDeliver m) = Some s' \<and> cp_Seq (pb_CheckPoint s') = pm_SeqNum m \<and>
    MsgLog s' = replicate 10 empty_MsgsLog \<and> cp_buffer (pb_CheckPoint s') (pm_SeqNum m) = [] \<and>
    CPMsgs (pb_CheckPoint s') = [hd (cp_buffer (pb_CheckPoint s) (pm_SeqNum m) @ [m])] \<and>
    pb_View s' = pb_View s \<and> SequenceNum s' = SequenceNum s \<and>
    pb_CurPhase s' = (if pb_IsLeader s then P_WAITING else P_NEW_VIEW)"
proof -
  let ?b = "cp_buffer (pb_CheckPoint s) (pm_SeqNum m)"
  obtain x where x: "CPMsgs (pb_CheckPoint s) = [x]"
    using pb_invD(8) [OF inv] by (auto simp: cp_ok_def length_Suc_conv)
  have "go_copy [x] (?b @ [m]) = [hd (?b @ [m])]" by (cases ?b) (simp_all add: go_copy_def)
  then show ?thesis
    using t sig new buf x
    by (auto simp: HandlePMsg_eq RoutePMsg_def HandleCheckPoint_def LogMsg_def Let_def above_thr_def cp_buffer_def
        CHECKPOINTNUM_def pb_IsLeader_def)
qed

text \<open>With four nodes, the third message for sequence number 10.\<close>

theorem pb_checkpoint_stable_witness:
  "let ms = map (demo_msg P_CHECKPOINT 10) [2, 3];
       s = pb_demo\<lparr>pb_CheckPoint := (pb_CheckPoint pb_demo)\<lparr>CPMsgsBuffer := [10 \<mapsto> ms]\<rparr>\<rparr>
   in \<exists>s'. pb_step pb_demo_env s (PDeliver (demo_msg P_CHECKPOINT 10 1)) = Some s' \<and>
        cp_Seq (pb_CheckPoint s') = 10 \<and> CPMsgs (pb_CheckPoint s') = [demo_msg P_CHECKPOINT 10 2]"
proof -
  let ?ms = "map (demo_msg P_CHECKPOINT 10) [2, 3]"
  let ?s = "pb_demo\<lparr>pb_CheckPoint := (pb_CheckPoint pb_demo)\<lparr>CPMsgsBuffer := [10 \<mapsto> ?ms]\<rparr>\<rparr>"
  have "length (CPMsgs (pb_CheckPoint pb_demo)) = 1" by (simp add: pb_demo_def NewPBFT_def)
  then have inv: "pb_inv pb_demo_env ?s"
    by (intro pb_inv_cp [OF pb_demo_inv]) (simp add: cp_ok_def cp_buffer_def)
  have "pb_verify pb_demo_env ?s = pb_verify pb_demo_env pb_demo" by (rule pb_verify_cong) simp
  then have "pb_verify pb_demo_env ?s (demo_msg P_CHECKPOINT 10 1) (msg_bytes1 (demo_msg P_CHECKPOINT 10 1))" by simp
  from pb_checkpoint_stable [OF inv demo_msg_simps(1) this] show ?thesis by (simp add: cp_buffer_def Let_def) blast
qed

section \<open>The new leader\<close>

definition cert_for :: "int \<Rightarrow> PMsg list \<Rightarrow> int \<Rightarrow> bytes \<Rightarrow> bool" where
  "cert_for n ms i d \<longleftrightarrow> (\<exists>v\<in>set ms. \<exists>pm pp. Some pm \<in> set (PSet v) \<and> PrePrepareMsg pm = Some pp \<and>
     vc_SeqNum pp = i \<and> above_thr n (pm_PrepareMsgs pm) \<and> vc_Digest pp = d)"

lemma scan_PSet_spec:
  "scan_PSet n i pms = Some r \<Longrightarrow>
     (case r of None \<Rightarrow> \<forall>pm pp. Some pm \<in> set pms \<longrightarrow> PrePrepareMsg pm = Some pp \<longrightarrow>
          \<not> (vc_SeqNum pp = i \<and> above_thr n (pm_PrepareMsgs pm))
      | Some d \<Rightarrow> \<exists>pm pp. Some pm \<in> set pms \<and> PrePrepareMsg pm = Some pp \<and> vc_SeqNum pp = i \<and>
          above_thr n (pm_PrepareMsgs pm) \<and> vc_Digest pp = d)"
proof (induction pms arbitrary: r)
  case (Cons p pms)
  then obtain pm pp where p: "p = Some pm" "PrePrepareMsg pm = Some pp"
    by (cases p; cases "PrePrepareMsg (the p)") (auto simp: pm_digest_def)
  show ?case
  proof (cases "vc_SeqNum pp = i \<and> above_thr n (pm_PrepareMsgs pm)")
    case True
    then have "r = Some (vc_Digest pp)" using Cons.prems p by (simp add: pm_digest_def)
    moreover have "Some pm \<in> set (p # pms)" using p by simp
    ultimately show ?thesis using True p(2) by (auto simp del: set_simps)
  next
    case False
    then have "scan_PSet n i pms = Some r" using Cons.prems p by (auto simp: pm_digest_def)
    from Cons.IH [OF this] p False show ?thesis by (auto split: option.splits)
  qed
qed simp

lemma scan_VSet_spec:
  "scan_VSet n i ms = Some r \<Longrightarrow> (case r of None \<Rightarrow> \<forall>d. \<not> cert_for n ms i d | Some d \<Rightarrow> cert_for n ms i d)"
proof (induction ms arbitrary: r)
  case Nil
  then show ?case by (simp add: cert_for_def)
next
  case (Cons m ms)
  then obtain a where a: "scan_PSet n i (PSet m) = Some a" by (auto simp: bind_Some_iff)
  show ?case
  proof (cases a)
    case (Some d)
    then have r: "r = Some d" using a Cons.prems by simp
    from scan_PSet_spec [OF a] Some have "cert_for n [m] i d" by (simp add: cert_for_def)
    then show ?thesis by (auto simp: r cert_for_def)
  next
    case None
    then have "scan_VSet n i ms = Some r" using a Cons.prems by simp
    from Cons.IH [OF this] scan_PSet_spec [OF a] None show ?thesis
      by (auto simp: cert_for_def split: option.splits)
  qed
qed

definition new_oset :: "'a env_scheme \<Rightarrow> PBFT \<Rightarrow> int \<Rightarrow> int \<Rightarrow> PMsg list option" where
  "new_oset env s a b = (if a \<noteq> -1 \<and> b \<noteq> -1 then map_opt (redo_msg env s) [a..b] else Some [])"

definition new_view_msg :: "'a env_scheme \<Rightarrow> PBFT \<Rightarrow> byte list \<Rightarrow> PMsg list \<Rightarrow> PMsg" where
  "new_view_msg env s b os = put_sign env s b (PMsg (nil_pHdr\<lparr>p_MType := P_NEW_VIEW,
     p_ViewNumber := ViewNumber (pb_View s), p_ReciNode := ''Broadcast''\<rparr>) [] []
     (map Some (ml_NewViewMsgs (ViewChangeMsgs s))) (map Some os))"

text \<open>
  The bounds the leader has to find, read off the messages: the highest sequence number of the
  checkpoint messages and the highest one of the prepared certificates, -1 where there is none, and
  -1 for both if the first message carries no checkpoint message at all.
\<close>

definition checkpoint_seqs :: "PMsg list \<Rightarrow> int list" where
  "checkpoint_seqs ms = concat (map (\<lambda>m. map (pm_SeqNum \<circ> the) (CSet m)) ms)"

definition prepared_seqs :: "PMsg list \<Rightarrow> int list" where
  "prepared_seqs ms = concat (map (\<lambda>m. concat (map (\<lambda>pm. map (vc_SeqNum \<circ> the) (pm_PrepareMsgs (the pm))) (PSet m))) ms)"

definition seq_bounds :: "PMsg list \<Rightarrow> int \<times> int" where
  "seq_bounds ms = (if CSet (hd ms) = [] then (-1, -1)
     else (Max (set (-1 # checkpoint_seqs ms)), Max (set (-1 # prepared_seqs ms))))"

lemma raise_max_Some: "raise_max (map_option f) a x = Some b \<Longrightarrow> b = max a (f (the x))"
  by (cases x) (auto simp: raise_max_def)

lemma run_raise_max_value: "run (raise_max (map_option f)) a xs = Some b \<Longrightarrow> b = foldl max a (map (f \<circ> the) xs)"
  by (induction xs arbitrary: a) (auto simp: bind_Some_iff dest!: raise_max_Some)

lemma pset_max_value:
  "pset_max a m = Some b \<Longrightarrow> b = foldl max a (concat (map (\<lambda>pm. map (vc_SeqNum \<circ> the) (pm_PrepareMsgs (the pm))) (PSet m)))"
proof -
  have "run (\<lambda>m pmo. do { pm \<leftarrow> pmo; run (raise_max (map_option vc_SeqNum)) m (pm_PrepareMsgs pm) }) a ps = Some b \<Longrightarrow>
    b = foldl max a (concat (map (\<lambda>pm. map (vc_SeqNum \<circ> the) (pm_PrepareMsgs (the pm))) ps))" for ps
    by (induction ps arbitrary: a) (auto simp: bind_Some_iff dest: run_raise_max_value)
  then show "pset_max a m = Some b \<Longrightarrow> ?thesis" by (simp add: pset_max_def)
qed

lemma foldl_max: "foldl max a xs = Max (set (a # xs))" for a :: int
proof (induction xs arbitrary: a)
  case (Cons x xs)
  have "Max (set (a # x # xs)) = Max (set (max a x # xs))" by (cases "xs = []") (simp_all add: max.assoc)
  with Cons [of "max a x"] show ?case by simp
qed simp

lemma GetSeq_bounds:
  assumes "GetSeq s = Some (a, b)"
  shows "(a, b) = seq_bounds (ml_NewViewMsgs (ViewChangeMsgs s))"
proof -
  have "run (\<lambda>(minS, maxS) vcm. do { a \<leftarrow> cset_max minS vcm; b \<leftarrow> pset_max maxS vcm; Some (a, b) }) (x, y) ms = Some (a, b) \<Longrightarrow>
    a = foldl max x (checkpoint_seqs ms) \<and> b = foldl max y (prepared_seqs ms)" for ms x y
    by (induction ms arbitrary: x y)
      (auto simp: bind_Some_iff cset_max_def checkpoint_seqs_def prepared_seqs_def dest!: run_raise_max_value pset_max_value)
  with assms show ?thesis by (auto simp: GetSeq_def seq_bounds_def foldl_max split: list.splits if_splits)
qed

lemma HandleViewChangeMsg_some:
  assumes "LogMsg s m = Some s1" "pb_catch_up s1 (pm_ViewNumber m) = Some s2"
    and "HandleViewChangeMsg env s m = Some (Some nv, s')"
  shows "\<exists>a b os c. GetSeq s2 = Some (a, b) \<and> s' = s2 \<and> int (length (ml_NewViewMsgs (ViewChangeMsgs s1))) = thr2f (NodesNum (pb_View s1)) + 1 \<and>
    pb_IsLeader s2 \<and> new_oset env s2 a b = Some os \<and> nv = new_view_msg env s2 c os"
  using assms(3)
  by (simp add: HandleViewChangeMsg_def assms(1,2) new_oset_def [symmetric] new_view_msg_def [symmetric] Let_def
      bind_Some_iff split: if_splits) blast

lemma map_opt_rel: "map_opt f xs = Some ys \<Longrightarrow> list_all2 (\<lambda>x y. f x = Some y) xs ys"
  by (induction xs arbitrary: ys) (auto simp: bind_Some_iff)

lemma map_opt_set: "map_opt f xs = Some ys \<Longrightarrow> y \<in> set ys \<Longrightarrow> \<exists>x\<in>set xs. f x = Some y"
  by (induction xs arbitrary: ys) (auto simp: bind_Some_iff)

text \<open>
  C32 The new-view message: a replica that answers a VIEW-CHANGE with a NEW-VIEW is the leader of the
  view it announces and has stored exactly 2f+1 VIEW-CHANGE messages, all of which it includes. Its
  pre-prepares are for the sequence numbers from the highest one of the checkpoint messages they
  carry to the highest one of their prepared certificates, one each in order (none at all if one of
  the two is missing, or if the first message carries no checkpoint message), and the digest of each
  comes from a prepared certificate for that number in one of the stored messages, or is nil when
  there is none.
\<close>

theorem pb_new_view_covers:
  assumes inv: "pb_inv env s" and t: "pm_MType m = P_VIEW_CHANGE"
    and r: "RoutePMsg env s m = Some (Some nv, s')"
  shows "pm_MType nv = P_NEW_VIEW \<and> pm_ViewNumber nv = ViewNumber (pb_View s') \<and> pb_IsLeader s' \<and>
    pm_ViewNumber m \<le> ViewNumber (pb_View s') \<and>
    (let ms = ml_NewViewMsgs (ViewChangeMsgs s) @ [m]
     in VSet nv = map Some ms \<and> int (length ms) = thr2f (NodesNum (pb_View s)) + 1 \<and>
        (\<exists>os. OSet nv = map Some os \<and>
           map pm_SeqNum os = (let (minS, maxS) = seq_bounds ms in if minS = -1 \<or> maxS = -1 then [] else [minS..maxS]) \<and>
           (\<forall>x\<in>set os. pm_ViewNumber x = ViewNumber (pb_View s') \<and>
              (cert_for (NodesNum (pb_View s)) ms (pm_SeqNum x) (pm_Digest x) \<or>
               pm_Digest x = None \<and> (\<forall>d. \<not> cert_for (NodesNum (pb_View s)) ms (pm_SeqNum x) d)))))"
proof -
  define s1 where "s1 = s\<lparr>ViewChangeMsgs := add_vc m (ViewChangeMsgs s)\<rparr>"
  have log: "LogMsg s m = Some s1" using t by (simp add: LogMsg_vc s1_def)
  have inv1: "pb_inv env s1" using inv by (simp add: s1_def)
  obtain w where w: "pb_catch_up s1 (pm_ViewNumber m) = Some (s1\<lparr>pb_View := w\<rparr>)"
    "ViewNumber w = max (ViewNumber (pb_View s1)) (pm_ViewNumber m)" "NodesNum w = NodesNum (pb_View s1)"
    using pb_catch_up_ok [OF inv1] by blast
  define s2 where "s2 = s1\<lparr>pb_View := w\<rparr>"
  let ?ms = "ml_NewViewMsgs (ViewChangeMsgs s) @ [m]"
  have s2: "ml_NewViewMsgs (ViewChangeMsgs s2) = ?ms" "NodesNum (pb_View s2) = NodesNum (pb_View s)"
    "pm_ViewNumber m \<le> ViewNumber (pb_View s2)" "ml_NewViewMsgs (ViewChangeMsgs s1) = ?ms"
    using w t by (simp_all add: s2_def s1_def add_vc_def)
  have r': "HandleViewChangeMsg env s m = Some (Some nv, s')" using r t by (simp add: RoutePMsg_def)
  have cu: "pb_catch_up s1 (pm_ViewNumber m) = Some s2" using w(1) by (simp add: s2_def)
  from HandleViewChangeMsg_some [OF log cu r'] obtain minS maxS os b where
    g: "GetSeq s2 = Some (minS, maxS)" and f: "s' = s2" "int (length ?ms) = thr2f (NodesNum (pb_View s1)) + 1" "pb_IsLeader s2"
      "new_oset env s2 minS maxS = Some os" "nv = new_view_msg env s2 b os"
    unfolding s2(4) by blast
  have len: "int (length ?ms) = thr2f (NodesNum (pb_View s)) + 1" using f(2) by (simp add: s1_def)
  note os = f(4) [unfolded new_oset_def]
  have redo: "pm_SeqNum x = i \<and> pm_ViewNumber x = ViewNumber (pb_View s2) \<and>
      (cert_for (NodesNum (pb_View s)) ?ms i (pm_Digest x) \<or>
       pm_Digest x = None \<and> (\<forall>d. \<not> cert_for (NodesNum (pb_View s)) ?ms i d))"
    if "redo_msg env s2 i = Some x" for i x
  proof -
    from that obtain d where d: "scan_VSet (NodesNum (pb_View s)) i ?ms = Some d"
      "pm_Digest x = (case d of Some y \<Rightarrow> y | None \<Rightarrow> None)" "pm_SeqNum x = i" "pm_ViewNumber x = ViewNumber (pb_View s2)"
      by (auto simp: redo_msg_def bind_Some_iff Let_def put_sign_def s2(1,2))
    from scan_VSet_spec [OF d(1)] d show ?thesis by (cases d) auto
  qed
  have seqs: "map pm_SeqNum os = (if minS = -1 \<or> maxS = -1 then [] else [minS..maxS])"
  proof (cases "minS \<noteq> - 1 \<and> maxS \<noteq> - 1")
    case True
    then have "list_all2 (\<lambda>i x. redo_msg env s2 i = Some x) [minS..maxS] os" using os map_opt_rel by simp
    then have "list_all2 (\<lambda>i x. pm_SeqNum x = i) [minS..maxS] os" by (rule list_all2_mono) (use redo in blast)
    then have "map pm_SeqNum os = [minS..maxS]"
      by (auto simp: list_all2_conv_all_nth intro!: nth_equalityI)
    with True show ?thesis by auto
  qed (use os in auto)
  have elems: "\<exists>i. redo_msg env s2 i = Some x" if "x \<in> set os" for x
    using os that map_opt_set [of "redo_msg env s2" "[minS..maxS]" os x] by (auto split: if_splits)
  have each: "\<forall>x\<in>set os. pm_ViewNumber x = ViewNumber (pb_View s2) \<and>
      (cert_for (NodesNum (pb_View s)) ?ms (pm_SeqNum x) (pm_Digest x) \<or>
       pm_Digest x = None \<and> (\<forall>d. \<not> cert_for (NodesNum (pb_View s)) ?ms (pm_SeqNum x) d))"
    using elems redo by blast
  have "VSet nv = map Some ?ms" "OSet nv = map Some os" "pm_MType nv = P_NEW_VIEW"
    "pm_ViewNumber nv = ViewNumber (pb_View s2)"
    by (simp_all add: f(5) new_view_msg_def put_sign_def s2(1))
  moreover have "seq_bounds ?ms = (minS, maxS)" using GetSeq_bounds [OF g] by (simp add: s2(1))
  then have "map pm_SeqNum os = (let (minS, maxS) = seq_bounds ?ms in if minS = -1 \<or> maxS = -1 then [] else [minS..maxS])"
    by (simp add: seqs)
  ultimately have concl: "pm_MType nv = P_NEW_VIEW \<and> pm_ViewNumber nv = ViewNumber (pb_View s2) \<and> VSet nv = map Some ?ms"
    "OSet nv = map Some os \<and> map pm_SeqNum os = (let (minS, maxS) = seq_bounds ?ms in if minS = -1 \<or> maxS = -1 then [] else [minS..maxS])"
    by auto
  show ?thesis
    unfolding Let_def [of "?ms"] f(1)
    using concl f(3) s2(3) len by (intro conjI exI [of _ os] each) (simp_all del: One_nat_def)
qed

lemma cat_msgs_Some: "cat_msgs f (map Some ms) = Some (concat (map f ms))"
  by (induction ms) simp_all

lemma new_view_bytes: "\<exists>b. p_Message2Byte (PMsg h cs ps (map Some vs) (map Some os)) 3 = Some b"
  by (simp add: p_Message2Byte_def cat_msgs_Some)

text \<open>
  The third VIEW-CHANGE for view 1, at node 1, which leads it. Node 0 has sent its checkpoint for 10,
  and node 2 a block it saw prepared at 11: node 1 proposes nil for 10 and that block for 11.
\<close>

definition vc_demo :: "int \<Rightarrow> PMsg option list \<Rightarrow> Pm option list \<Rightarrow> PMsg" where
  "vc_demo j cs ps = PMsg (nil_pHdr\<lparr>p_MType := P_VIEW_CHANGE, p_ViewNumber := 1, p_Digest := Some [7], p_SendNode := node_name j,
     p_Signature := Some (5 # 1 # 0 # 7 # str2bytes (node_name j))\<rparr>) cs ps [] []"

definition prepared_demo :: Pm where
  "prepared_demo = (let v = \<lparr>vc_MType = P_PREPARE, vc_ViewNumber = 0, vc_SeqNum = 11, vc_Digest = Some [7],
       vc_Signature = None, vc_Proposal = nil_p_Proposal, vc_SendNode = [], vc_ReciNode = []\<rparr>
     in \<lparr>PrePrepareMsg = Some v, pm_PrepareMsgs = [Some v, Some v, Some v]\<rparr>)"

definition vc_stored :: "PMsg list" where
  "vc_stored = [vc_demo 0 [Some (demo_msg P_CHECKPOINT 10 0)] [], vc_demo 2 [] [Some prepared_demo]]"

theorem pb_new_view_covers_witness:
  "let s = pb_demo\<lparr>ViewChangeMsgs := empty_MsgsLog\<lparr>ml_NewViewMsgs := vc_stored\<rparr>\<rparr>
   in \<exists>nv s' os. RoutePMsg pb_demo_env s (vc_demo 3 [] []) = Some (Some nv, s') \<and> pm_MType nv = P_NEW_VIEW \<and>
        length (VSet nv) = 3 \<and> OSet nv = map Some os \<and> map pm_SeqNum os = [10, 11]"
proof -
  let ?m = "vc_demo 3 [] []"
  define s where "s = pb_demo\<lparr>ViewChangeMsgs := empty_MsgsLog\<lparr>ml_NewViewMsgs := vc_stored\<rparr>\<rparr>"
  have inv: "pb_inv pb_demo_env s" using pb_demo_inv by (simp add: s_def)
  have t: "pm_MType ?m = P_VIEW_CHANGE" by (simp add: vc_demo_def)
  let ?s1 = "s\<lparr>ViewChangeMsgs := add_vc ?m (ViewChangeMsgs s)\<rparr>"
  let ?s2 = "?s1\<lparr>pb_View := \<lparr>ViewNumber = 1, Leader = 1, NodesNum = 4\<rparr>\<rparr>"
  have log: "LogMsg s ?m = Some ?s1" using t by (simp add: LogMsg_vc)
  have cu: "pb_catch_up ?s1 (pm_ViewNumber ?m) = Some ?s2"
    by (simp add: pb_catch_up_def s_def vc_demo_def pb_demo_def NewPBFT_def catch_up.simps NextView_def go_rem_def Let_def)
  have sig: "pb_verify pb_demo_env s ?m (5 # 1 # 0 # 7 # str2bytes (node_name 3))"
    by (simp add: pb_verify_def s_def vc_demo_def ssm2_VerifySign_def pb_demo_signer_def pb_demo_env_def)
  have bytes: "p_Message2Byte ?m 2 = Some (5 # 1 # 0 # 7 # str2bytes (node_name 3))"
    by (simp add: p_Message2Byte_def hdr_bytes_def vc_demo_def to_byte_def nil_pHdr_def)
  have ms: "ml_NewViewMsgs (ViewChangeMsgs ?s1) = vc_stored @ [?m]"
    using t by (simp add: s_def add_vc_def)
  have thr: "thr2f (NodesNum (pb_View s)) = 2" "pb_IsLeader ?s2" "length (vc_stored @ [?m]) = 3"
    using t by (simp_all add: s_def add_vc_def pb_IsLeader_def vc_stored_def)
  have bounds: "seq_bounds (vc_stored @ [?m]) = (10, 11)"
    by (simp add: seq_bounds_def vc_stored_def vc_demo_def checkpoint_seqs_def prepared_seqs_def prepared_demo_def Let_def)
  have "GetSeq ?s2 \<noteq> None"
    using ms by (simp add: GetSeq_def vc_stored_def vc_demo_def prepared_demo_def cset_max_def pset_max_def raise_max_def Let_def)
  then have seq: "GetSeq ?s2 = Some (10, 11)" using GetSeq_bounds [of ?s2] ms bounds by auto
  obtain os where os: "map_opt (redo_msg pb_demo_env ?s2) [10..11] = Some os"
    using ms by (simp add: upto.simps redo_msg_def vc_stored_def vc_demo_def prepared_demo_def pm_digest_def above_thr_def Let_def)
  obtain nb where nb: "p_Message2Byte (PMsg (nil_pHdr\<lparr>p_MType := P_NEW_VIEW, p_ViewNumber := 1,
      p_ReciNode := ''Broadcast''\<rparr>) [] [] (map Some (vc_stored @ [?m])) (map Some os)) 3 = Some nb"
    using new_view_bytes [of "nil_pHdr\<lparr>p_MType := P_NEW_VIEW, p_ViewNumber := 1,
      p_ReciNode := ''Broadcast''\<rparr>" "[]" "[]" "vc_stored @ [?m]" os] by auto
  obtain nv s' where r: "RoutePMsg pb_demo_env s ?m = Some (Some nv, s')"
    using t sig bytes thr seq os nb ms
    by (simp add: RoutePMsg_def HandleViewChangeMsg_def log cu Let_def del: upto_rec_numeral)
  have "pm_MType nv = P_NEW_VIEW" "VSet nv = map Some (vc_stored @ [?m])" "\<exists>os. OSet nv = map Some os \<and> map pm_SeqNum os = [10..11]"
    using pb_new_view_covers [OF inv t r] bounds by (auto simp: Let_def s_def simp del: upto_rec_numeral)
  with r thr(3) show ?thesis unfolding Let_def s_def [symmetric] by (auto simp: upto.simps)
qed

section \<open>Two inputs\<close>

text \<open>
  A NEW-VIEW message for the current view that any known node has signed, received by a replica
  that has no VIEW-CHANGE messages, ends the replica: the search for the sequence bounds reads the
  first of them, and the index is out of range.
\<close>

theorem pb_new_view_crash:
  assumes inv: "pb_inv env s" and t: "pm_MType m = P_NEW_VIEW" and v: "pm_ViewNumber m = ViewNumber (pb_View s)"
    and none: "ml_NewViewMsgs (ViewChangeMsgs s) = []" and b: "p_Message2Byte m 3 = Some b" and sig: "pb_verify env s m b"
  shows "pb_step env s (PDeliver m) = None"
proof -
  obtain s1 where s1: "LogMsg s m = Some s1" "ViewChangeMsgs s1 = ViewChangeMsgs s" "pb_View s1 = pb_View s"
    using LogMsg_new_view [OF inv t] by blast
  have "VerifyOSet env s1 m = None" using none s1(2) by (simp add: VerifyOSet_def GetSeq_def)
  then show ?thesis
    using t v b sig s1 by (simp add: HandlePMsg_eq RoutePMsg_def HandleNewViewMsg_def)
qed

theorem pb_new_view_crash_witness:
  "pb_step pb_demo_env pb_demo (PDeliver (with_hdr (\<lambda>h. h\<lparr>p_Signature := Some [0, 0]\<rparr>) (demo_msg P_NEW_VIEW 0 2))) = None"
  by (rule pb_new_view_crash [OF pb_demo_inv, where b = "[0, 0]"])
    (simp_all add: p_Message2Byte_def pb_verify_def ssm2_VerifySign_def pb_demo_signer_def pb_demo_env_def to_byte_def,
      simp_all add: pb_demo_def NewPBFT_def)

text \<open>The signed pre-prepare of a node for the block its store holds.\<close>

definition pp_msg :: "'a env_scheme \<Rightarrow> PBFT \<Rightarrow> p_Proposal \<Rightarrow> BlockStore \<Rightarrow> PMsg" where
  "pp_msg env s p bs =
     (let m = with_hdr (\<lambda>h. h\<lparr>p_MType := P_PREPREPARE, p_ViewNumber := ViewNumber (pb_View s),
           p_SeqNum := SequenceNum s, p_Digest := CurBlkHash bs, p_SendNode := pb_GetNodeName s,
           p_ReciNode := ''Broadcast'', p_Proposal_of := p, p_Block := CurProposalBlk bs\<rparr>) nil_PMsg
      in put_sign env s (msg_bytes0 m) m)"

lemma pp_msg_sel [simp]: "pm_MType (pp_msg env s p bs) = P_PREPREPARE"
  "pm_ViewNumber (pp_msg env s p bs) = ViewNumber (pb_View s)" "pm_SeqNum (pp_msg env s p bs) = SequenceNum s"
  "pm_Digest (pp_msg env s p bs) = CurBlkHash bs" "pm_SendNode (pp_msg env s p bs) = pb_GetNodeName s"
  "p_ReciNode (hd_of (pp_msg env s p bs)) = ''Broadcast''" "p_Block (hd_of (pp_msg env s p bs)) = CurProposalBlk bs"
  "pm_Signature (pp_msg env s p bs) = ssm2_Sign env (pb_Signer s) (msg_bytes0 (pp_msg env s p bs))"
  by (simp_all add: pp_msg_def put_sign_def Let_def msg_bytes0_def hdr_bytes_def)

lemma Preprepare_proposes:
  assumes inv: "pb_inv env s" and "\<not> p_Proposal_IsEmpty (pb_CurProposal s)" "pb_CurPhase s = P_NEW_VIEW"
  shows "\<exists>bs t. GenNewBlock env (pb_BlkStore s) (ViewNumber (pb_View s))
        (TwoDimByteSlice2StringSlice (slices (pp_Command (pb_CurProposal s)))) [] = Some bs \<and>
    t = (log_set (s\<lparr>pb_BlkStore := bs\<rparr>) (\<lambda>l. l\<lparr>PreprepareMsg := Some (pp_msg env s (pb_CurProposal s) bs)\<rparr>))\<lparr>pb_CurPhase := P_PREPREPARE\<rparr> \<and>
    Preprepare env s = Some (Some (pp_msg env s (pb_CurProposal s) bs), t) \<and> pb_inv env t"
proof -
  obtain bs where bs: "GenNewBlock env (pb_BlkStore s) (ViewNumber (pb_View s))
      (TwoDimByteSlice2StringSlice (slices (pp_Command (pb_CurProposal s)))) [] = Some bs"
    using GenNewBlock_returns by fastforce
  let ?s = "s\<lparr>pb_BlkStore := bs\<rparr>" and ?m = "pp_msg env s (pb_CurProposal s) bs"
  have inv1: "pb_inv env ?s" using inv by simp
  let ?t = "(log_set ?s (\<lambda>l. l\<lparr>PreprepareMsg := Some ?m\<rparr>))\<lparr>pb_CurPhase := P_PREPREPARE\<rparr>"
  have "Preprepare env s = do { s \<leftarrow> LogMsg ?s ?m; Some (Some ?m, s\<lparr>pb_CurPhase := P_PREPREPARE\<rparr>) }"
    using assms(2,3) bs by (simp add: Preprepare_def Let_def pb_GetNodeName_def pp_msg_def put_sign_def)
  then have "Preprepare env s = Some (Some ?m, ?t)" by (simp add: LogMsg_vote(1) [OF inv1 pp_msg_sel(1)])
  moreover have "pb_inv env ?t" using preprepare_inv [OF inv1, of ?m] by simp
  ultimately show ?thesis using bs by blast
qed

text \<open>The proposal that a request becomes.\<close>

definition request_proposal :: "int \<Rightarrow> bytes \<Rightarrow> bytes \<Rightarrow> BCRequest list \<Rightarrow> p_Proposal" where
  "request_proposal h ph ch reqs = foldl (\<lambda>p r. p\<lparr>pp_Command := Some (slices (pp_Command p) @ [rq_Cmd r])\<rparr>)
    (nil_p_Proposal\<lparr>pp_Height := h, pp_PreBlkHash := ph, pp_CurBlkHash := ch, pp_Command := Some []\<rparr>) reqs"

lemma request_proposal_cmds: "pp_Command (request_proposal h ph ch reqs) = Some (map rq_Cmd reqs)"
proof -
  have "pp_Command (foldl (\<lambda>p r. p\<lparr>pp_Command := Some (slices (pp_Command p) @ [rq_Cmd r])\<rparr>) p reqs) = Some (cs @ map rq_Cmd reqs)"
    if "pp_Command p = Some cs" for p cs
    using that by (induction reqs arbitrary: p cs) auto
  from this [of "nil_p_Proposal\<lparr>pp_Height := h, pp_PreBlkHash := ph, pp_CurBlkHash := ch, pp_Command := Some []\<rparr>" "[]"]
  show ?thesis by (simp add: request_proposal_def)
qed

lemma pp_msg_clock [simp]: "pp_msg (env\<lparr>Clock := c\<rparr>) = pp_msg env"
  by (rule ext)+ (simp add: pp_msg_def put_sign_def ssm2_Sign_def)

lemma request_step:
  fixes h ph ch reqs
  defines "p \<equiv> request_proposal h ph ch reqs"
  assumes inv: "pb_inv env s"
  shows "\<exists>bs c t. GenNewBlock (env\<lparr>Clock := now\<rparr>) (pb_BlkStore s) (ViewNumber (pb_View s)) (map (bytes2str \<circ> rq_Cmd) reqs) [] = Some bs \<and>
    t = (log_set (s\<lparr>pb_CurProposal := p, pb_BlkStore := bs\<rparr>)
        (\<lambda>l. l\<lparr>PreprepareMsg := Some (pp_msg env s p bs)\<rparr>))\<lparr>pb_CurPhase := P_PREPREPARE, pb_SendChan := c\<rparr> \<and>
    pb_step env s (PRequest now h ph ch reqs) = Some t \<and> pb_inv env t \<and> pb_sent t = pb_sent s @ [pp_msg env s p bs]"
proof -
  let ?e = "env\<lparr>Clock := now\<rparr>" and ?s = "s\<lparr>pb_CurProposal := p, pb_CurPhase := P_NEW_VIEW\<rparr>"
  have i: "pb_inv ?e ?s" using inv by simp
  have cmd: "pp_Command p = Some (map rq_Cmd reqs)" by (simp add: p_def request_proposal_cmds)
  have ne: "\<not> p_Proposal_IsEmpty (pb_CurProposal ?s)" by (simp add: p_Proposal_IsEmpty_def cmd)
  have msg: "pp_msg ?e ?s p bs = pp_msg env s p bs" for bs by (simp add: pp_msg_def put_sign_def pb_GetNodeName_def)
  obtain bs t where t: "GenNewBlock ?e (pb_BlkStore s) (ViewNumber (pb_View s)) (map (bytes2str \<circ> rq_Cmd) reqs) [] = Some bs"
    "t = (log_set (?s\<lparr>pb_BlkStore := bs\<rparr>) (\<lambda>l. l\<lparr>PreprepareMsg := Some (pp_msg env s p bs)\<rparr>))\<lparr>pb_CurPhase := P_PREPREPARE\<rparr>"
    "Preprepare ?e ?s = Some (Some (pp_msg env s p bs), t)" "pb_inv ?e t"
    using Preprepare_proposes [OF i ne] msg by (auto simp: cmd TwoDimByteSlice2StringSlice_def)
  obtain c where c: "pb_SendSerMsg t (pp_msg env s p bs) = Some (t\<lparr>pb_SendChan := Some (the (pb_SendChan t) @ [c])\<rparr>)"
    "Payload c = pp_msg env s p bs" using pb_SendSerMsg_ok [OF t(4)] by blast
  let ?u = "t\<lparr>pb_SendChan := Some (the (pb_SendChan t) @ [c])\<rparr>"
  have s: "pb_SendChan t = pb_SendChan s" by (simp add: t(2))
  have u: "pb_inv env ?u" "pb_sent ?u = pb_sent s @ [pp_msg env s p bs]" "ProposalLock ?u = False"
    using pb_inv_chan [OF t(4)] pb_invD(4,5) [OF t(4)] c(2) s by (auto simp: pb_sent_def)
  have "pb_step env s (PRequest now h ph ch reqs) = Some ?u"
    using pb_invD(5) [OF inv] t(3) c(1) u(3)
    by (simp add: pb_HandleReq_def p_def [unfolded request_proposal_def, symmetric] Let_def Preprepare_lock pb_send_lock)
  moreover have "?u = (log_set (s\<lparr>pb_CurProposal := p, pb_BlkStore := bs\<rparr>)
      (\<lambda>l. l\<lparr>PreprepareMsg := Some (pp_msg env s p bs)\<rparr>))\<lparr>pb_CurPhase := P_PREPREPARE, pb_SendChan := Some (the (pb_SendChan t) @ [c])\<rparr>"
    by (simp add: t(2) log_set_def cur_log_def cur_slot_def)
  ultimately show ?thesis using u t(1) by blast
qed

lemma request_proposes:
  assumes inv: "pb_inv env s"
  shows "\<exists>m s'. pb_step env s (PRequest now h ph ch reqs) = Some s' \<and> pb_inv env s' \<and> pb_View s' = pb_View s \<and>
    SequenceNum s' = SequenceNum s \<and> pb_ConsId s' = pb_ConsId s \<and> pb_sent s' = pb_sent s @ [m] \<and>
    pm_MType m = P_PREPREPARE \<and> pm_ViewNumber m = ViewNumber (pb_View s) \<and> pm_SeqNum m = SequenceNum s \<and>
    pm_SendNode m = pb_GetNodeName s"
proof -
  obtain bs c t where t: "pb_step env s (PRequest now h ph ch reqs) = Some t" "pb_inv env t"
    "pb_sent t = pb_sent s @ [pp_msg env s (request_proposal h ph ch reqs) bs]"
    "t = (log_set (s\<lparr>pb_CurProposal := request_proposal h ph ch reqs, pb_BlkStore := bs\<rparr>)
        (\<lambda>l. l\<lparr>PreprepareMsg := Some (pp_msg env s (request_proposal h ph ch reqs) bs)\<rparr>))\<lparr>pb_CurPhase := P_PREPREPARE, pb_SendChan := c\<rparr>"
    using request_step [OF inv] by metis
  then show ?thesis by (intro exI [of _ "pp_msg env s (request_proposal h ph ch reqs) bs"] exI [of _ t]) (simp add: t(4))
qed

text \<open>
  Requests are proposed at any node, in any phase, without a look at who leads: two requests in a
  row make a correct replica send two signed pre-prepares for the same view and sequence number.
\<close>

theorem pb_requests_equivocate:
  assumes "pb_inv env s"
  shows "\<exists>s' m1 m2. run (pb_step env) s [PRequest t1 h ph ch r1, PRequest t2 h ph ch r2] = Some s' \<and>
    pb_sent s' = pb_sent s @ [m1, m2] \<and>
    (\<forall>m \<in> {m1, m2}. pm_MType m = P_PREPREPARE \<and> pm_ViewNumber m = ViewNumber (pb_View s) \<and>
       pm_SeqNum m = SequenceNum s \<and> pm_SendNode m = pb_GetNodeName s)"
proof -
  obtain m1 u where u: "pb_step env s (PRequest t1 h ph ch r1) = Some u" "pb_inv env u" "pb_View u = pb_View s"
    "SequenceNum u = SequenceNum s" "pb_ConsId u = pb_ConsId s" "pb_sent u = pb_sent s @ [m1]"
    "pm_MType m1 = P_PREPREPARE" "pm_ViewNumber m1 = ViewNumber (pb_View s)" "pm_SeqNum m1 = SequenceNum s"
    "pm_SendNode m1 = pb_GetNodeName s" using request_proposes [OF assms] by blast
  obtain m2 v where v: "pb_step env u (PRequest t2 h ph ch r2) = Some v" "pb_sent v = pb_sent u @ [m2]"
    "pm_MType m2 = P_PREPREPARE" "pm_ViewNumber m2 = ViewNumber (pb_View u)" "pm_SeqNum m2 = SequenceNum u"
    "pm_SendNode m2 = pb_GetNodeName u" using request_proposes [OF u(2)] by blast
  show ?thesis
    using u v by (intro exI [of _ v] exI [of _ m1] exI [of _ m2]) (simp add: pb_GetNodeName_def del: pb_step.simps)
qed

text \<open>Node 1, which does not lead view 0, proposes twice in it.\<close>

theorem pb_requests_equivocate_witness:
  "\<exists>s' m1 m2. run (pb_step pb_demo_env) pb_demo [PRequest 0 1 None None [], PRequest 0 1 None None []] = Some s' \<and>
    pb_sent s' = [m1, m2] \<and> pm_ViewNumber m1 = 0 \<and> pm_ViewNumber m2 = 0"
proof -
  have "pb_sent pb_demo = []" by (simp add: pb_demo_def NewPBFT_inv)
  with pb_requests_equivocate [OF pb_demo_inv, of 0 1 None None "[]" 0 "[]"] show ?thesis
    by (auto simp del: run.simps)
qed

end
