(* ===== verification/Pbft_Network.thy ===== *)
theory Pbft_Network
  imports Hs_Network Pbft_Edges
begin

text \<open>
  PBFT replicas connected to each other: the network in which every message was sent by somebody, the
  state of all replicas between two rounds and after each phase of a round, checkpoints included, and
  rounds in which all replicas store the same blocks.
\<close>

section \<open>The network\<close>

text \<open>
  As for basic HotStuff: a message is delivered to a node it is addressed to (a broadcast also to its
  sender, as in network/local) when some node has sent it, at any time and any number of times;
  requests, timeouts and spawned tasks come at any time.
\<close>

definition pb_deliverable :: "nat \<Rightarrow> (nat \<Rightarrow> PBFT) \<Rightarrow> nat \<Rightarrow> PMsg \<Rightarrow> bool" where
  "pb_deliverable n N i m \<longleftrightarrow> (\<exists>j < n. m \<in> set (pb_sent (N j))) \<and>
     (p_ReciNode (hd_of m) = ''Broadcast'' \<or> p_ReciNode (hd_of m) = node_name (int i))"

fun pb_local_event :: "p_event \<Rightarrow> bool" where
  "pb_local_event (PDeliver m) = False"
| "pb_local_event _ = True"

inductive pb_net :: "'a pbft_env_scheme \<Rightarrow> nat \<Rightarrow> (nat \<Rightarrow> PBFT) \<Rightarrow> (nat \<Rightarrow> PBFT) \<Rightarrow> bool" for env n M where
  start: "pb_net env n M M"
| local: "pb_net env n M N \<Longrightarrow> i < n \<Longrightarrow> pb_local_event e \<Longrightarrow> pb_step env (N i) e = Some s \<Longrightarrow> pb_net env n M (N(i := s))"
| deliver: "pb_net env n M N \<Longrightarrow> i < n \<Longrightarrow> pb_deliverable n N i m \<Longrightarrow> pb_step env (N i) (PDeliver m) = Some s \<Longrightarrow>
    pb_net env n M (N(i := s))"

lemma pb_net_trans: "pb_net env n N N' \<Longrightarrow> pb_net env n M N \<Longrightarrow> pb_net env n M N'"
  by (induction rule: pb_net.induct) (auto intro: pb_net.intros)

text \<open>The messages of a round; handling one of them, a node unsends nothing.\<close>

definition round_type :: "p_StateType \<Rightarrow> bool" where
  "round_type ty \<longleftrightarrow> ty = P_PREPREPARE \<or> ty = P_PREPARE \<or> ty = P_COMMIT \<or> ty = P_CHECKPOINT"

lemma deliver_sent:
  assumes "pb_inv env s" "pb_step env s (PDeliver m) = Some s'" "round_type (pm_MType m)"
  shows "pb_inv env s'" "set (pb_sent s) \<subseteq> set (pb_sent s')"
proof -
  show "pb_inv env s'" using pb_step_effect [OF assms(1,2)] by blast
  show "set (pb_sent s) \<subseteq> set (pb_sent s')"
  proof (cases "pm_MType m = P_CHECKPOINT")
    case True
    from HandleCheckPoint_effect [OF assms(1) True] assms(2) True have "same_node s s'"
      by (auto simp: HandlePMsg_eq RoutePMsg_def pb_quiet_def pb_kept_def)
    then show ?thesis by (simp add: same_node_def pb_sent_def)
  next
    case False
    then have "pb_round_event (PDeliver m)" using assms(3) by (auto simp: round_type_def pb_normal_def)
    then have "pb_votes_step s s'" using pb_step_effect [OF assms(1,2)] by blast
    then show ?thesis by (auto simp: pb_votes_step_def)
  qed
qed

lemma run_sent:
  "run (pb_step env) s (map PDeliver ms) = Some t \<Longrightarrow> pb_inv env s \<Longrightarrow> \<forall>m \<in> set ms. round_type (pm_MType m) \<Longrightarrow>
     set (pb_sent s) \<subseteq> set (pb_sent t)"
proof (induction ms arbitrary: s)
  case (Cons m ms)
  then obtain s' where s': "pb_step env s (PDeliver m) = Some s'" "run (pb_step env) s' (map PDeliver ms) = Some t"
    by (auto simp: bind_Some_iff)
  note d = deliver_sent [OF Cons.prems(2) s'(1)]
  from Cons.IH [OF s'(2)] d Cons.prems(3) show ?case by auto
qed simp

lemma deliverable_mono:
  "pb_deliverable n N i m \<Longrightarrow> (\<And>j. j < n \<Longrightarrow> set (pb_sent (N j)) \<subseteq> set (pb_sent (N' j))) \<Longrightarrow> pb_deliverable n N' i m"
  by (auto simp: pb_deliverable_def)

lemma pb_net_run:
  "pb_net env n M N \<Longrightarrow> i < n \<Longrightarrow> run (pb_step env) (N i) (map PDeliver ms) = Some t \<Longrightarrow> pb_inv env (N i) \<Longrightarrow>
     \<forall>m \<in> set ms. pb_deliverable n N i m \<and> round_type (pm_MType m) \<Longrightarrow> pb_net env n M (N(i := t))"
proof (induction ms arbitrary: N)
  case (Cons m ms)
  then obtain s where s: "pb_step env (N i) (PDeliver m) = Some s" "run (pb_step env) s (map PDeliver ms) = Some t"
    by (auto simp: bind_Some_iff simp del: pb_step.simps)
  have m: "pb_deliverable n N i m" "round_type (pm_MType m)" using Cons.prems(5) by simp_all
  note d = deliver_sent [OF Cons.prems(4) s(1) m(2)]
  let ?N = "N(i := s)"
  have net: "pb_net env n M ?N" by (rule pb_net.deliver [OF Cons.prems(1,2) m(1) s(1)])
  have "pb_deliverable n ?N i x \<and> round_type (pm_MType x)" if "x \<in> set ms" for x
    using that Cons.prems(5) d(2) deliverable_mono [of n N i x ?N] by simp
  then have "pb_net env n M (?N(i := t))"
    by (intro Cons.IH [OF net Cons.prems(2)] ballI) (use s(2) d(1) in \<open>simp_all only: fun_upd_same\<close>)
  then show ?case by (simp only: fun_upd_upd)
qed (simp add: fun_upd_idem)

text \<open>All nodes of a set take some messages that are there, each in an order of its own.\<close>

lemma pb_net_all:
  assumes "finite I" "I \<subseteq> {..<n}" "pb_net env n M N"
    and runs: "\<forall>i \<in> I. \<exists>t. run (pb_step env) (N i) (map PDeliver (ms i)) = Some t \<and> \<Phi> i t"
    and inv: "\<forall>i \<in> I. pb_inv env (N i)"
    and there: "\<forall>i \<in> I. \<forall>m \<in> set (ms i). pb_deliverable n N i m \<and> round_type (pm_MType m)"
  shows "\<exists>N'. pb_net env n M N' \<and> (\<forall>i \<in> I. \<Phi> i (N' i)) \<and> (\<forall>i. i \<notin> I \<longrightarrow> N' i = N i) \<and>
    (\<forall>i. set (pb_sent (N i)) \<subseteq> set (pb_sent (N' i)))"
  using assms(1,2) runs inv there
proof (induction I)
  case (insert i I)
  have sub: "I \<subseteq> {..<n}" "i < n" using insert.prems(1) by simp_all
  have r: "\<forall>i \<in> I. \<exists>t. run (pb_step env) (N i) (map PDeliver (ms i)) = Some t \<and> \<Phi> i t" using insert.prems(2) by blast
  have v: "\<forall>i \<in> I. pb_inv env (N i)" "pb_inv env (N i)" using insert.prems(3) by blast+
  have th: "\<forall>i \<in> I. \<forall>m \<in> set (ms i). pb_deliverable n N i m \<and> round_type (pm_MType m)" using insert.prems(4) by blast
  from insert.IH [OF sub(1) r v(1) th] obtain N' where N': "pb_net env n M N'" "\<forall>i \<in> I. \<Phi> i (N' i)"
    "\<forall>i. i \<notin> I \<longrightarrow> N' i = N i" "\<forall>i. set (pb_sent (N i)) \<subseteq> set (pb_sent (N' i))" by blast
  obtain t where t: "run (pb_step env) (N i) (map PDeliver (ms i)) = Some t" "\<Phi> i t" using insert.prems(2) by blast
  have same: "N' i = N i" using N'(3) insert.hyps(2) by blast
  have there: "\<forall>m \<in> set (ms i). pb_deliverable n N' i m \<and> round_type (pm_MType m)"
    using insert.prems(4) N'(4) by (blast intro: deliverable_mono)
  have "pb_net env n M (N'(i := t))"
    using pb_net_run [OF N'(1) sub(2), of "ms i" t] v(2) t(1) there same by simp
  moreover have "set (pb_sent (N i)) \<subseteq> set (pb_sent t)"
    using run_sent [OF t(1) v(2)] there by blast
  ultimately show ?case using N'(2-4) t(2) by (intro exI [of _ "N'(i := t)"] conjI) (assumption | auto)+
qed (use assms(3) in auto)

section \<open>A replica in a round\<close>

text \<open>What the signature library promises: what a node signs, every node verifies under its name.\<close>

definition ssm2_ok :: "'a env_scheme \<Rightarrow> nat \<Rightarrow> (nat \<Rightarrow> ssm2_Signer) \<Rightarrow> bool" where
  "ssm2_ok env n sg \<longleftrightarrow>
     (\<forall>i < n. \<forall>j < n. \<forall>b. ssm2_VerifySign env (sg j) (node_name (int i)) (ssm2_Sign env (sg i) b) b)"

definition clean_log :: "MsgsLog \<Rightarrow> bool" where
  "clean_log l \<longleftrightarrow> PreprepareMsg l = None \<and> PrepareMsgs l = [] \<and> CommitMsgs l = []"

text \<open>The sequence number of the stable checkpoint before round \<open>v\<close>.\<close>

definition last_cp :: "nat \<Rightarrow> int" where
  "last_cp v = max 0 (int (v div 10 * 10) - 1)"

lemma last_cp_bound: "int v \<le> last_cp v + CHECKPOINTNUM"
  unfolding last_cp_def CHECKPOINTNUM_def by linarith

lemma mod10_9: "Suc v mod 10 = 0 \<Longrightarrow> v div 10 * 10 + 9 = v"
proof -
  assume "Suc v mod 10 = 0"
  then have "v mod 10 = 9" by (simp add: mod_Suc split: if_splits)
  then show ?thesis using div_mult_mod_eq [of v 10] by (simp only:)
qed

lemma last_cp_less: "Suc v mod 10 = 0 \<Longrightarrow> last_cp v < int v"
  using mod10_9 [of v] unfolding last_cp_def by linarith

lemma last_cp_Suc: "last_cp (Suc v) = (if Suc v mod 10 = 0 then int v else last_cp v)"
proof (cases "Suc v mod 10 = 0")
  case True
  then show ?thesis using div_mult_mod_eq [of "Suc v" 10] unfolding last_cp_def by simp
next
  case False
  then have "Suc v div 10 = v div 10" by (simp add: div_Suc)
  with False show ?thesis by (simp add: last_cp_def)
qed

text \<open>Node \<open>i\<close> in view \<open>v\<close>: the slots of the log that this and the later views up to the next checkpoint
use are clean but the current one, and so are the buffers of the later checkpoints.\<close>

definition pb_core :: "'a env_scheme \<Rightarrow> nat \<Rightarrow> (nat \<Rightarrow> ssm2_Signer) \<Rightarrow> nat \<Rightarrow> nat \<Rightarrow> PBFT \<Rightarrow> bool" where
  "pb_core env n sg v i s \<longleftrightarrow> pb_inv env s \<and> pb_View s = view_at n v \<and> pb_ConsId s = int i \<and> pb_Signer s = sg i \<and>
     SequenceNum s = int v \<and> (\<forall>k. v mod 10 < k \<longrightarrow> k < 10 \<longrightarrow> clean_log (MsgLog s ! k)) \<and>
     cp_Seq (pb_CheckPoint s) = last_cp v \<and> (\<forall>k \<ge> int v. CPMsgsBuffer (pb_CheckPoint s) k = None) \<and>
     bs_Height (pb_BlkStore s) = int v"

lemma pb_coreD:
  assumes "pb_core env n sg v i s"
  shows "pb_inv env s" "pb_View s = view_at n v" "pb_ConsId s = int i" "pb_Signer s = sg i" "SequenceNum s = int v"
    "cp_Seq (pb_CheckPoint s) = last_cp v" "bs_Height (pb_BlkStore s) = int v" "cur_slot s = v mod 10"
    "pb_GetNodeName s = node_name (int i)" "i < n \<Longrightarrow> pb_IsLeader s \<longleftrightarrow> i = v mod n"
  using assms
  by (auto simp: pb_core_def cur_slot_def pb_GetNodeName_def node_name_def pb_IsLeader_def nat_mod_distrib)

lemma pb_core_clock [simp]: "pb_core (env\<lparr>Clock := c\<rparr>) n sg v i s = pb_core env n sg v i s"
  by (simp add: pb_core_def)

text \<open>Node \<open>i\<close> before the round of view \<open>v\<close>, on a chain that ends with hash \<open>h\<close>.\<close>

definition pb_at :: "'a env_scheme \<Rightarrow> nat \<Rightarrow> (nat \<Rightarrow> ssm2_Signer) \<Rightarrow> nat \<Rightarrow> bytes \<Rightarrow> nat \<Rightarrow> PBFT \<Rightarrow> bool" where
  "pb_at env n sg v h i s \<longleftrightarrow> pb_core env n sg v i s \<and> clean_log (cur_log s) \<and> bs_PreBlkHash (pb_BlkStore s) = h"

text \<open>Node \<open>i\<close> in the round, with the accepted pre-prepare \<open>m\<close> and the logged PREPAREs.\<close>

definition pb_in :: "'a env_scheme \<Rightarrow> nat \<Rightarrow> (nat \<Rightarrow> ssm2_Signer) \<Rightarrow> nat \<Rightarrow> PMsg \<Rightarrow> PMsg list \<Rightarrow> p_StateType \<Rightarrow> nat \<Rightarrow> PBFT \<Rightarrow> bool" where
  "pb_in env n sg v m ps ph i s \<longleftrightarrow> pb_core env n sg v i s \<and> pb_CurPhase s = ph \<and> PreprepareMsg (cur_log s) = Some m \<and>
     PrepareMsgs (cur_log s) = ps \<and> CommitMsgs (cur_log s) = [] \<and> CurProposalBlk (pb_BlkStore s) = p_Block (hd_of m) \<and>
     CurBlkHash (pb_BlkStore s) = Block_Hash env (p_Block (hd_of m))"

text \<open>The votes of the round.\<close>

definition pvote :: "'a env_scheme \<Rightarrow> (nat \<Rightarrow> ssm2_Signer) \<Rightarrow> nat \<Rightarrow> p_StateType \<Rightarrow> bytes \<Rightarrow> nat \<Rightarrow> PMsg" where
  "pvote env sg v ty d i =
     (let m = with_hdr (\<lambda>h. h\<lparr>p_MType := ty, p_ViewNumber := int v, p_SeqNum := int v, p_SendNode := node_name (int i),
           p_Digest := d, p_ReciNode := ''Broadcast''\<rparr>) nil_PMsg
      in with_hdr (\<lambda>h. h\<lparr>p_Signature := ssm2_Sign env (sg i) (msg_bytes1 m)\<rparr>) m)"

lemma pvote_sel [simp]: "pm_MType (pvote env sg v ty d i) = ty" "pm_ViewNumber (pvote env sg v ty d i) = int v"
  "pm_SeqNum (pvote env sg v ty d i) = int v" "pm_Digest (pvote env sg v ty d i) = d"
  "pm_SendNode (pvote env sg v ty d i) = node_name (int i)" "p_ReciNode (hd_of (pvote env sg v ty d i)) = ''Broadcast''"
  "pm_Signature (pvote env sg v ty d i) = ssm2_Sign env (sg i) (msg_bytes1 (pvote env sg v ty d i))"
  by (simp_all add: pvote_def Let_def msg_bytes1_def hdr_bytes_def)

lemma core_vote: "pb_core env n sg v i s \<Longrightarrow> Pbft_Props.vote_msg env s ty (int v) d = pvote env sg v ty d i"
  by (simp add: Pbft_Props.vote_msg_def pvote_def put_sign_def pb_coreD Let_def)

lemma pvote_verifies:
  "ssm2_ok env n sg \<Longrightarrow> pb_core env n sg v j s \<Longrightarrow> i < n \<Longrightarrow> j < n \<Longrightarrow>
     pb_verify env s (pvote env sg v ty d i) (msg_bytes1 (pvote env sg v ty d i))"
  by (simp add: pb_verify_def ssm2_ok_def pb_coreD(4))

lemma pvotes_good:
  assumes "ssm2_ok env n sg" "pb_in env n sg v m ps ph j s" "j < n" "set Q \<subseteq> {..<n}"
    and m: "pm_ViewNumber m = int v" "pm_SeqNum m = int v"
  shows "\<forall>x \<in> set (map (pvote env sg v ty (pm_Digest m)) Q). good_vote env s ty x"
proof -
  have core: "pb_core env n sg v j s" using assms(2) by (simp add: pb_in_def)
  have "good_vote env s ty (pvote env sg v ty (pm_Digest m) q)" if "q < n" for q
    using assms(2) m pvote_verifies [OF assms(1) core that assms(3)] last_cp_bound [of v]
    by (simp add: good_vote_def vote_matches_def pb_matches_def vote_in_bounds_def pb_in_def pb_coreD [OF core] bytes_Equal_def)
  with assms(4) show ?thesis by auto
qed

text \<open>Updates that keep a node where it is.\<close>

lemma pb_core_log_set:
  assumes "pb_core env n sg v i s" "pb_inv env (log_set s f)"
  shows "pb_core env n sg v i (log_set s f)"
  using assms(1) assms(2) by (auto simp: pb_core_def pb_coreD(8) [OF assms(1)]) (simp add: log_set_def pb_coreD(8) [OF assms(1)])

lemma pb_core_upd [simp]:
  "pb_core env n sg v i (s\<lparr>pb_CurPhase := x1\<rparr>) = pb_core env n sg v i s"
  "pb_core env n sg v i (s\<lparr>pb_CurProposal := x2\<rparr>) = pb_core env n sg v i s"
  by (simp_all add: pb_core_def)

section \<open>The phases of a round\<close>

lemma store_get_upd [simp]: "store_get (bs\<lparr>CurProposalBlk := b\<rparr>) = store_get bs" "store_get (bs\<lparr>CurBlkHash := h\<rparr>) = store_get bs"
  by (rule ext, simp add: store_get_def ReadBlock_def)+

lemma store_get_put: "store_get (StoreBlock bs c) k = (if k = bh_Height (BlkHdr c) then Some c else store_get bs k)"
  by (auto simp: store_get_def ReadBlock_def StoreBlock_def)

lemma view_core_slot: "pb_core env n sg v i s \<Longrightarrow> v mod 10 < length (MsgLog s)"
  using cur_slot_bound [of env s] by (simp add: pb_coreD)

text \<open>The leader proposes a batch.\<close>

definition pb_cmds :: "BCRequest list \<Rightarrow> string list" where
  "pb_cmds reqs = map (bytes2str \<circ> rq_Cmd) reqs"

definition pb_proposal :: "'a env_scheme \<Rightarrow> nat \<Rightarrow> (nat \<Rightarrow> ssm2_Signer) \<Rightarrow> nat \<Rightarrow> bytes \<Rightarrow> BCRequest list \<Rightarrow> PMsg \<Rightarrow> bool" where
  "pb_proposal env n sg v h reqs m \<longleftrightarrow> pm_MType m = P_PREPREPARE \<and> pm_ViewNumber m = int v \<and> pm_SeqNum m = int v \<and>
     pm_Digest m = Block_Hash env (p_Block (hd_of m)) \<and> p_ReciNode (hd_of m) = ''Broadcast'' \<and>
     (\<forall>j < n. ssm2_VerifySign env (sg j) (pm_SendNode m) (pm_Signature m) (msg_bytes0 m)) \<and>
     bh_Height (BlkHdr (p_Block (hd_of m))) = int v \<and> bh_PreBlkHash (BlkHdr (p_Block (hd_of m))) = h \<and>
     bd_Trans (BlkData (p_Block (hd_of m))) = pb_cmds reqs"

lemma pb_propose_step:
  assumes "ssm2_ok env n sg" "pb_at env n sg v h l s" "l < n"
  shows "\<exists>m t. pb_step env s (PRequest now hh ph ch reqs) = Some t \<and> pb_proposal env n sg v h reqs m \<and>
    pb_in env n sg v m [] P_PREPREPARE l t \<and> m \<in> set (pb_sent t) \<and> store_get (pb_BlkStore t) = store_get (pb_BlkStore s)"
proof -
  have core: "pb_core env n sg v l s" "clean_log (cur_log s)" "bs_PreBlkHash (pb_BlkStore s) = h"
    using assms(2) by (simp_all add: pb_at_def)
  note d = pb_coreD [OF core(1)]
  define p where "p = request_proposal hh ph ch reqs"
  obtain bs c t where t: "GenNewBlock (env\<lparr>Clock := now\<rparr>) (pb_BlkStore s) (int v) (pb_cmds reqs) [] = Some bs"
    "t = (log_set (s\<lparr>pb_CurProposal := p, pb_BlkStore := bs\<rparr>)
        (\<lambda>l. l\<lparr>PreprepareMsg := Some (pp_msg env s p bs)\<rparr>))\<lparr>pb_CurPhase := P_PREPREPARE, pb_SendChan := c\<rparr>"
    "pb_step env s (PRequest now hh ph ch reqs) = Some t" "pb_inv env t" "pb_sent t = pb_sent s @ [pp_msg env s p bs]"
    using request_step [OF d(1), of now reqs hh ph ch] by (auto simp: d p_def pb_cmds_def simp del: pb_step.simps)
  let ?m = "pp_msg env s p bs"
  obtain blk where blk: "bs = (pb_BlkStore s)\<lparr>CurProposalBlk := blk, CurBlkHash := Block_Hash env blk\<rparr>"
    "bh_Height (BlkHdr blk) = int v" "bh_PreBlkHash (BlkHdr blk) = h" "bd_Trans (BlkData blk) = pb_cmds reqs"
    using GenNewBlock_now [of "env\<lparr>Clock := now\<rparr>" "pb_BlkStore s" "int v" "pb_cmds reqs"] t(1) d(7) core(3) by auto
  have log: "MsgLog t = (MsgLog s)[v mod 10 := (cur_log s)\<lparr>PreprepareMsg := Some ?m\<rparr>]"
    by (simp add: t(2) log_set_def cur_log_def cur_slot_def) (simp add: d nat_mod_distrib)
  have cl: "cur_log t = (cur_log s)\<lparr>PreprepareMsg := Some ?m\<rparr>"
    using view_core_slot [OF core(1)] by (simp add: cur_log_def [of t] log) (simp add: t(2) cur_slot_def d nat_mod_distrib)
  have "pb_proposal env n sg v h reqs ?m"
    using assms(1,3) blk d by (simp add: pb_proposal_def ssm2_ok_def)
  moreover have "pb_core env n sg v l t"
    unfolding pb_core_def log
    using core(1) t(4) by (auto simp: t(2) pb_core_def blk(1))
  then have "pb_in env n sg v ?m [] P_PREPREPARE l t"
    using core(2) by (simp add: pb_in_def cl clean_log_def) (simp add: t(2) blk(1))
  moreover have "store_get (pb_BlkStore t) = store_get (pb_BlkStore s)" by (simp add: t(2) blk(1))
  ultimately show ?thesis using t(3,5) by (intro exI [of _ ?m] exI [of _ t]) (simp del: pb_step.simps)
qed

text \<open>The others accept it.\<close>

lemma pb_accept_step:
  assumes "pb_at env n sg v h i s" "i < n" "i \<noteq> v mod n" "pb_proposal env n sg v h reqs m"
  shows "\<exists>t. pb_step env s (PDeliver m) = Some t \<and> pb_in env n sg v m [] P_PREPREPARE i t \<and>
    pvote env sg v P_PREPARE (pm_Digest m) i \<in> set (pb_sent t) \<and> store_get (pb_BlkStore t) = store_get (pb_BlkStore s)"
proof -
  have core: "pb_core env n sg v i s" "clean_log (cur_log s)" using assms(1) by (simp_all add: pb_at_def)
  note d = pb_coreD [OF core(1)] and m = assms(4) [unfolded pb_proposal_def]
  have lead: "\<not> pb_IsLeader s" using d(10) assms(2,3) by simp
  have rdy: "pp_ready env s m"
    using m core(2) assms(2) by (simp add: pp_ready_def clean_log_def d pb_verify_def)
  obtain t u c where t: "pb_step env s (PDeliver m) = Some t" "pp_accepted env s m t"
    "pb_sent t = pb_sent s @ [Pbft_Props.vote_msg env s P_PREPARE (pm_SeqNum m) (pm_Digest m)]"
    "pp_take env s m = Some u" "t = u\<lparr>pb_SendChan := c\<rparr>"
    using round_preprepare [OF d(1) lead _ rdy] m core(2) by (auto simp: clean_log_def simp del: pb_step.simps)
  note a = t(2) [unfolded pp_accepted_def]
  have "MsgLog u = (MsgLog s)[v mod 10 := (cur_log s)\<lparr>PreprepareMsg := Some m\<rparr>]" "pb_CheckPoint u = pb_CheckPoint s"
    using t(4) lead by (auto simp: pp_take_def Let_def pb_stop_def UpdateConsensus_def log_set_def bind_Some_iff pb_IsLeader_def d(8))
  then have log: "MsgLog t = (MsgLog s)[v mod 10 := (cur_log s)\<lparr>PreprepareMsg := Some m\<rparr>]" "pb_CheckPoint t = pb_CheckPoint s"
    by (simp_all add: t(5))
  have "pb_core env n sg v i t"
    unfolding pb_core_def log using core(1) a m by (simp add: pb_core_def)
  then have "pb_in env n sg v m [] P_PREPREPARE i t"
    using a core(2) m by (simp add: pb_in_def clean_log_def)
  moreover have "store_get (pb_BlkStore t) = store_get (pb_BlkStore s)" using a by simp
  ultimately show ?thesis using t(1,3) core_vote [OF core(1)] m by (intro exI [of _ t]) (simp del: pb_step.simps)
qed

text \<open>Enough PREPAREs, at any node.\<close>

lemma pb_prepare_step:
  assumes "ssm2_ok env n sg" "pb_in env n sg v m [] P_PREPREPARE i s" "i < n" "pb_proposal env n sg v h reqs m"
    and Q: "set Q \<subseteq> {..<n}" "int (length Q) = vote_threshold (int n)"
  defines "ps \<equiv> map (pvote env sg v P_PREPARE (pm_Digest m)) Q"
  shows "\<exists>t. run (pb_step env) s (map PDeliver ps) = Some t \<and> pb_in env n sg v m ps P_PREPARE i t \<and>
    pvote env sg v P_COMMIT (pm_Digest m) i \<in> set (pb_sent t) \<and> store_get (pb_BlkStore t) = store_get (pb_BlkStore s)"
proof -
  note b = assms(2) [unfolded pb_in_def] and m = assms(4) [unfolded pb_proposal_def]
  have core: "pb_core env n sg v i s" using b by simp
  note d = pb_coreD [OF core]
  have len: "int (length ps) = thr2f (NodesNum (pb_View s)) + 1" using Q(2) by (simp add: ps_def d vote_threshold_thr2f)
  have "0 \<le> thr2f (NodesNum (pb_View s))" using thr2f_nonneg [OF pb_invD(7) [OF d(1)]] .
  then have "Q \<noteq> []" using len by (auto simp: ps_def)
  then have last: "pm_Digest (last ps) = pm_Digest m" by (simp add: ps_def last_map)
  have good: "\<forall>x \<in> set ps. good_vote env s P_PREPARE x"
    unfolding ps_def using pvotes_good [OF assms(1,2,3) Q(1)] m by blast
  have pre: "pb_CurPhase s \<noteq> P_VIEW_CHANGE" "pb_CurPhase s \<noteq> P_PREPARE" "PrepareMsgs (cur_log s) = []"
    "PreprepareMsg (cur_log s) = Some m" using b by simp_all
  obtain t c where t: "run (pb_step env) s (map PDeliver ps) = Some t" "pb_inv env t"
    "cur_log t = (cur_log s)\<lparr>PrepareMsgs := ps\<rparr>"
    "pb_sent t = pb_sent s @ [Pbft_Props.vote_msg env s P_COMMIT (SequenceNum s) (pm_Digest (last ps))]"
    "t = (log_set s (\<lambda>l. l\<lparr>PrepareMsgs := PrepareMsgs l @ ps\<rparr>))\<lparr>pb_CurPhase := P_PREPARE, pb_SendChan := c\<rparr>"
    using round_prepares [OF d(1) pre(1,2) good pre(3,4) len] by blast
  have log: "MsgLog t = (MsgLog s)[v mod 10 := (cur_log s)\<lparr>PrepareMsgs := ps\<rparr>]"
    using b by (simp add: t(5) log_set_def d)
  have "pb_core env n sg v i t"
    unfolding pb_core_def log using core t(2) by (simp add: pb_core_def t(5))
  then have "pb_in env n sg v m ps P_PREPARE i t" using b t(3) by (simp add: pb_in_def) (simp add: t(5))
  moreover have "store_get (pb_BlkStore t) = store_get (pb_BlkStore s)" by (simp add: t(5))
  ultimately show ?thesis using t(1,4) core_vote [OF core] d(5) last by (intro exI [of _ t]) (simp del: pb_step.simps)
qed

text \<open>The checkpoint that a node starts with the reply of every tenth round.\<close>

definition pcheck :: "'a env_scheme \<Rightarrow> (nat \<Rightarrow> ssm2_Signer) \<Rightarrow> nat \<Rightarrow> bytes \<Rightarrow> nat \<Rightarrow> PMsg" where
  "pcheck env sg v d i =
     (let m = with_hdr (\<lambda>h. h\<lparr>p_MType := P_CHECKPOINT, p_SeqNum := int v, p_Digest := d, p_SendNode := node_name (int i),
           p_ReciNode := ''Broadcast''\<rparr>) nil_PMsg
      in with_hdr (\<lambda>h. h\<lparr>p_Signature := ssm2_Sign env (sg i) (msg_bytes1 m)\<rparr>) m)"

lemma pcheck_sel [simp]: "pm_MType (pcheck env sg v d i) = P_CHECKPOINT" "pm_SeqNum (pcheck env sg v d i) = int v"
  "pm_SendNode (pcheck env sg v d i) = node_name (int i)" "p_ReciNode (hd_of (pcheck env sg v d i)) = ''Broadcast''"
  "pm_Signature (pcheck env sg v d i) = ssm2_Sign env (sg i) (msg_bytes1 (pcheck env sg v d i))"
  by (simp_all add: pcheck_def Let_def msg_bytes1_def hdr_bytes_def)

lemma checkpoint_due: "10 dvd int v + 1 \<longleftrightarrow> 10 dvd Suc v"
  by presburger

lemma pb_reply_frame:
  assumes "pb_core env n sg v i s" "pm_ViewNumber m = int v" "pb_reply env s m = Some (Some r, t)" "0 < n"
  shows "pb_View t = view_at n (Suc v)" "pm_SeqNum r = int v"
    "if 10 dvd Suc v then \<exists>w. pb_CheckPoint t = (pb_CheckPoint s)\<lparr>CPMsgsBuffer :=
         (CPMsgsBuffer (pb_CheckPoint s))(int v \<mapsto> [pcheck env sg v (pm_Digest m) i]), WaitSeq := w\<rparr>
       else pb_CheckPoint t = pb_CheckPoint s"
proof -
  note d = pb_coreD [OF assms(1)]
  have none: "CPMsgsBuffer (pb_CheckPoint s) (int v) = None" using assms(1) by (simp add: pb_core_def)
  obtain tm where stop: "pb_stop s = Some (s\<lparr>PTimer := tm\<rparr>)" using pb_stop_ok [OF d(1)] by blast
  have cu: "pb_catch_up s (pm_ViewNumber m) = Some s" using pb_catch_up_same [of "pm_ViewNumber m" s] d(2) assms(2) by simp
  have nv: "NextView (view_at n v) = Some (view_at n (Suc v))" using NextView_view_at assms(4) by blast
  have r: "pm_SeqNum r = int v \<and> pb_View t = view_at n (Suc v) \<and> (if 10 dvd Suc v then \<exists>w. pb_CheckPoint t = (pb_CheckPoint s)\<lparr>CPMsgsBuffer :=
         (CPMsgsBuffer (pb_CheckPoint s))(int v \<mapsto> [pcheck env sg v (pm_Digest m) i]), WaitSeq := w\<rparr>
       else pb_CheckPoint t = pb_CheckPoint s)"
    using assms(3) none nv by (cases "10 dvd Suc v")
      (auto simp: pb_reply_def cu stop d Let_def GenCheckPoint_def pb_NewRound_def pb_start_def bind_Some_iff CHECKPOINTNUM_def
        checkpoint_due pcheck_def put_sign_def pb_GetNodeName_def node_name_def split: if_splits)
  show "pb_View t = view_at n (Suc v)" "pm_SeqNum r = int v"
    "if 10 dvd Suc v then \<exists>w. pb_CheckPoint t = (pb_CheckPoint s)\<lparr>CPMsgsBuffer :=
         (CPMsgsBuffer (pb_CheckPoint s))(int v \<mapsto> [pcheck env sg v (pm_Digest m) i]), WaitSeq := w\<rparr>
       else pb_CheckPoint t = pb_CheckPoint s"
    using r by blast+
qed

lemma reply_tail_frame:
  assumes "pb_inv env w" "reply_tail w r = Some t"
  shows "\<exists>ts ph c. t = w\<lparr>pb_Tasks := ts, pb_CurPhase := ph, pb_SendChan := c\<rparr>"
    and "10 dvd pm_SeqNum r + 1 \<Longrightarrow> cp_buffer (pb_CheckPoint w) (pm_SeqNum r) = x # xs \<Longrightarrow> 0 \<le> pm_SeqNum r \<Longrightarrow> x \<in> set (pb_sent t)"
proof -
  have "after_reply w = w\<lparr>pb_Tasks := pb_Tasks (after_reply w), pb_CurPhase := pb_CurPhase (after_reply w)\<rparr>"
    by (simp add: after_reply_def Let_def)
  then obtain ts ph where a: "after_reply w = w\<lparr>pb_Tasks := ts, pb_CurPhase := ph\<rparr>" by metis
  show "\<exists>ts ph c. t = w\<lparr>pb_Tasks := ts, pb_CurPhase := ph, pb_SendChan := c\<rparr>"
  proof (cases "\<exists>x. pb_SendSerMsg (after_reply w) x = Some t")
    case True
    then obtain c where "t = (after_reply w)\<lparr>pb_SendChan := c\<rparr>" by (auto simp: pb_SendSerMsg_def Let_def split: option.splits)
    then have "t = w\<lparr>pb_Tasks := ts, pb_CurPhase := ph, pb_SendChan := c\<rparr>" using a by simp
    then show ?thesis by blast
  next
    case False
    then have "t = after_reply w" using assms(2) by (auto simp: reply_tail_def Let_def split: if_splits)
    then have "t = w\<lparr>pb_Tasks := ts, pb_CurPhase := ph, pb_SendChan := pb_SendChan w\<rparr>" using a by simp
    then show ?thesis by blast
  qed
  assume "10 dvd pm_SeqNum r + 1" "cp_buffer (pb_CheckPoint w) (pm_SeqNum r) = x # xs" "0 \<le> pm_SeqNum r"
  then have "pb_SendSerMsg (after_reply w) x = Some t" using assms(2) a by (simp add: reply_tail_def CHECKPOINTNUM_def)
  then show "x \<in> set (pb_sent t)"
    using pb_send_ok [OF after_reply_ok(1) [OF assms(1)], of x] by auto
qed

text \<open>Node \<open>i\<close> after the round of view \<open>v\<close> with its own message for the checkpoint of \<open>v\<close>.\<close>

definition pb_wait :: "'a env_scheme \<Rightarrow> nat \<Rightarrow> (nat \<Rightarrow> ssm2_Signer) \<Rightarrow> nat \<Rightarrow> bytes \<Rightarrow> bytes \<Rightarrow> PMsg list \<Rightarrow> nat \<Rightarrow> PBFT \<Rightarrow> bool" where
  "pb_wait env n sg v d h xs i s \<longleftrightarrow> pb_inv env s \<and> pb_View s = view_at n (Suc v) \<and> pb_ConsId s = int i \<and> pb_Signer s = sg i \<and>
     SequenceNum s = int (Suc v) \<and> cp_Seq (pb_CheckPoint s) = last_cp v \<and>
     CPMsgsBuffer (pb_CheckPoint s) (int v) = Some (pcheck env sg v d i # xs) \<and>
     (\<forall>k > int v. CPMsgsBuffer (pb_CheckPoint s) k = None) \<and>
     bs_Height (pb_BlkStore s) = int (Suc v) \<and> bs_PreBlkHash (pb_BlkStore s) = h"

text \<open>Enough COMMITs, at any node.\<close>

lemma pb_commit_step:
  assumes "ssm2_ok env n sg" "pb_in env n sg v m ps P_PREPARE i s" "i < n" "pb_proposal env n sg v h reqs m"
    and Q: "set Q \<subseteq> {..<n}" "int (length Q) = vote_threshold (int n)" and ps: "int (length ps) = vote_threshold (int n)"
  defines "cs \<equiv> map (pvote env sg v P_COMMIT (pm_Digest m)) Q"
  shows "\<exists>t. run (pb_step env) s (map PDeliver cs) = Some t \<and>
    (if 10 dvd Suc v then pb_wait env n sg v (pm_Digest m) (pm_Digest m) [] i t \<and> pcheck env sg v (pm_Digest m) i \<in> set (pb_sent t)
     else pb_at env n sg (Suc v) (pm_Digest m) i t) \<and>
    store_get (pb_BlkStore t) = (store_get (pb_BlkStore s))(int v := Some (committed env (p_Block (hd_of m)) cs))"
proof -
  note b = assms(2) [unfolded pb_in_def] and m = assms(4) [unfolded pb_proposal_def]
  have core: "pb_core env n sg v i s" using b by simp
  note d = pb_coreD [OF core]
  have len: "int (length cs) = thr2f (NodesNum (pb_View s)) + 1" using Q(2) by (simp add: cs_def d vote_threshold_thr2f)
  have "0 \<le> thr2f (NodesNum (pb_View s))" using thr2f_nonneg [OF pb_invD(7) [OF d(1)]] .
  then have ne: "Q \<noteq> []" using len by (auto simp: cs_def)
  then have last: "pm_Digest (last cs) = pm_Digest m" "pm_ViewNumber (last cs) = int v" by (simp_all add: cs_def last_map)
  have good: "\<forall>x \<in> set cs. good_vote env s P_COMMIT x"
    unfolding cs_def using pvotes_good [OF assms(1,2,3) Q(1)] m by blast
  have pre: "pb_CurPhase s \<noteq> P_VIEW_CHANGE" "CommitMsgs (cur_log s) = []" "above_thr (NodesNum (pb_View s)) (PrepareMsgs (cur_log s))"
    using b ps by (simp_all add: d above_thr_vote_threshold)
  let ?u = "log_set s (\<lambda>l. l\<lparr>CommitMsgs := CommitMsgs l @ cs\<rparr>)"
  obtain t r w where t: "run (pb_step env) s (map PDeliver cs) = Some t" "pb_inv env t"
    "(let b = committed env (CurProposalBlk (pb_BlkStore s)) cs
      in pb_BlkStore t = StoreBlock ((pb_BlkStore s)\<lparr>CurProposalBlk := b\<rparr>) b)"
    "pb_reply env ?u (last cs) = Some (Some r, w)" "reply_tail w r = Some t"
    using round_commits [OF d(1) pre(1) good pre(2,3) len] by blast
  have u: "pb_inv env ?u" using cur_slot_ok [OF d(1)] good
    by (intro log_set_inv [OF d(1)]) (auto simp: slot_ok_def good_vote_def pb_verify_def)
  have ucore: "pb_core env n sg v i ?u" by (rule pb_core_log_set [OF core u])
  have w: "pb_inv env w" "same_node ?u w" "SequenceNum w = int (Suc v)" "MsgLog w = MsgLog ?u"
    using pb_reply_ok [OF u, of "last cs"] t(4) last(2) d(2,5) by (auto simp del: pb_step.simps)
  have fr: "pb_View w = view_at n (Suc v)" "pm_SeqNum r = int v"
    "if 10 dvd Suc v then \<exists>x. pb_CheckPoint w = (pb_CheckPoint s)\<lparr>CPMsgsBuffer :=
         (CPMsgsBuffer (pb_CheckPoint s))(int v \<mapsto> [pcheck env sg v (pm_Digest m) i]), WaitSeq := x\<rparr>
       else pb_CheckPoint w = pb_CheckPoint s"
    using pb_reply_frame [OF ucore last(2) t(4)] assms(3) last(1) by auto
  obtain ts ph c where tw: "t = w\<lparr>pb_Tasks := ts, pb_CurPhase := ph, pb_SendChan := c\<rparr>" using reply_tail_frame(1) [OF w(1) t(5)] by blast
  define blk where "blk = committed env (p_Block (hd_of m)) cs"
  have bt: "pb_BlkStore t = StoreBlock ((pb_BlkStore s)\<lparr>CurProposalBlk := blk\<rparr>) blk" "bh_Height (BlkHdr blk) = int v"
    using t(3) b m by (simp_all add: Let_def blk_def) (simp add: committed_def)
  have bs: "bs_Height (pb_BlkStore t) = int (Suc v)" "bs_PreBlkHash (pb_BlkStore t) = pm_Digest m"
    "store_get (pb_BlkStore t) = (store_get (pb_BlkStore s))(int v := Some (committed env (p_Block (hd_of m)) cs))"
    unfolding bt(1) blk_def [symmetric] using b m d(7)
    by (simp add: StoreBlock_def, simp add: StoreBlock_def, simp add: fun_eq_iff store_get_put bt(2))
  have id: "pb_ConsId t = int i" "pb_Signer t = sg i" "pb_View t = view_at n (Suc v)" "SequenceNum t = int (Suc v)" "MsgLog t = MsgLog ?u"
    "pb_CheckPoint t = pb_CheckPoint w" using w fr(1) d by (simp_all add: tw same_node_def)
  have none: "\<And>k. int v \<le> k \<Longrightarrow> CPMsgsBuffer (pb_CheckPoint s) k = None" using core by (simp add: pb_core_def)
  show ?thesis
  proof (cases "10 dvd Suc v")
    case True
    then obtain x where cp: "pb_CheckPoint w = (pb_CheckPoint s)\<lparr>CPMsgsBuffer :=
         (CPMsgsBuffer (pb_CheckPoint s))(int v \<mapsto> [pcheck env sg v (pm_Digest m) i]), WaitSeq := x\<rparr>" using fr(3) by auto
    have "pb_wait env n sg v (pm_Digest m) (pm_Digest m) [] i t"
      using t(2) bs(1,2) id none d(6) by (simp add: pb_wait_def cp)
    moreover have "pcheck env sg v (pm_Digest m) i \<in> set (pb_sent t)"
      using reply_tail_frame(2) [OF w(1) t(5), of "pcheck env sg v (pm_Digest m) i" "[]"] True fr(2) checkpoint_due [of v]
      by (simp add: cp cp_buffer_def)
    ultimately show ?thesis using True t(1) bs(3) by (intro exI [of _ t]) (simp del: pb_step.simps)
  next
    case False
    have mod: "Suc v mod 10 = Suc (v mod 10)" using False by (simp add: mod_Suc dvd_eq_mod_eq_0 split: if_splits)
    have clean: "clean_log (MsgLog t ! k)" if "v mod 10 < k" "k < 10" for k
      using core that by (simp add: id(5) log_set_def d(8) pb_core_def)
    have "last_cp (Suc v) = last_cp v" using False by (simp add: last_cp_Suc dvd_eq_mod_eq_0)
    then have core': "pb_core env n sg (Suc v) i t"
      using t(2) bs(1) id clean mod False fr(3) none d(6) by (simp add: pb_core_def)
    then have slot: "cur_slot t = Suc v mod 10" by (rule pb_coreD(8))
    have "Suc v mod 10 < 10" by simp
    then have "clean_log (cur_log t)" using clean [of "Suc v mod 10"] mod by (simp only: cur_log_def slot lessI)
    with core' show ?thesis using False t(1) bs(2,3) by (intro exI [of _ t]) (simp add: pb_at_def del: pb_step.simps)
  qed
qed

text \<open>The messages of a checkpoint are buffered until there are enough; then the log starts afresh.\<close>

lemma check_step:
  assumes "ssm2_ok env n sg" "pb_wait env n sg v d h xs i s" "i < n" "j < n" "10 dvd Suc v"
  defines "m \<equiv> pcheck env sg v d j"
  shows "\<exists>t. pb_step env s (PDeliver m) = Some t \<and> pb_BlkStore t = pb_BlkStore s \<and>
    (if above_thr (int n) (pcheck env sg v d i # xs @ [m]) then pb_at env n sg (Suc v) h i t
     else pb_wait env n sg v d h (xs @ [m]) i t)"
proof -
  note w = assms(2) [unfolded pb_wait_def]
  define cp where "cp = (pb_CheckPoint s)\<lparr>CPMsgsBuffer := (CPMsgsBuffer (pb_CheckPoint s))(int v \<mapsto> pcheck env sg v d i # xs @ [m])\<rparr>"
  define cp' where "cp' = cp\<lparr>cp_Seq := int v, CPMsgs := go_copy (CPMsgs cp) (pcheck env sg v d i # xs @ [m]),
     CPMsgsBuffer := (CPMsgsBuffer cp)(int v \<mapsto> [])\<rparr>"
  let ?s1 = "s\<lparr>pb_CheckPoint := cp\<rparr>"
  let ?s2 = "s\<lparr>MsgLog := replicate (nat CHECKPOINTNUM) empty_MsgsLog, pb_CheckPoint := cp',
     pb_CurPhase := (if pb_IsLeader s then P_WAITING else P_NEW_VIEW)\<rparr>"
  have ver: "pb_verify env s m (msg_bytes1 m)" using assms(1,3,4) w by (simp add: pb_verify_def m_def ssm2_ok_def)
  have seq: "last_cp v < int v" using last_cp_less [of v] assms(5) by (simp add: dvd_eq_mod_eq_0)
  have log: "LogMsg s m = Some ?s1" using w by (simp add: LogMsg_def m_def cp_def cp_buffer_def Let_def)
  have buf: "cp_buffer cp (int v) = pcheck env sg v d i # xs @ [m]" by (simp add: cp_def cp_buffer_def)
  have lead: "pb_IsLeader ?s1 = pb_IsLeader s" by (simp add: pb_IsLeader_def)
  have ms: "pm_MType m = P_CHECKPOINT" "pm_SeqNum m = int v" by (simp_all add: m_def)
  have thr: "NodesNum (pb_View s) = int n" "cp_Seq (pb_CheckPoint s) = last_cp v" using w by simp_all
  let ?t = "if above_thr (int n) (pcheck env sg v d i # xs @ [m]) then ?s2 else ?s1"
  have "HandleCheckPoint env s m = Some (None, ?t)"
    using ver seq ms(2) thr log buf by (simp add: HandleCheckPoint_def Let_def cp'_def pb_IsLeader_def)
  then have step: "pb_step env s (PDeliver m) = Some ?t" using ms(1) by (simp add: HandlePMsg_eq RoutePMsg_def)
  have inv: "pb_inv env ?t" using pb_step_effect [OF _ step] w by blast
  have at: "pb_at env n sg (Suc v) h i ?s2" if "pb_inv env ?s2"
  proof -
    have "\<forall>k < 10. clean_log (MsgLog ?s2 ! k)" by (simp add: CHECKPOINTNUM_def clean_log_def)
    moreover have "CPMsgsBuffer cp' k = None" if "int (Suc v) \<le> k" for k using w that by (simp add: cp'_def cp_def)
    moreover have "last_cp (Suc v) = int v" using assms(5) by (simp add: last_cp_Suc dvd_eq_mod_eq_0)
    ultimately have core: "pb_core env n sg (Suc v) i ?s2" using that w by (simp add: pb_core_def) (simp add: cp'_def)
    have "clean_log (cur_log ?s2)" unfolding cur_log_def pb_coreD(8) [OF core] using \<open>\<forall>k < 10. clean_log (MsgLog ?s2 ! k)\<close> by simp
    with core w show ?thesis by (simp add: pb_at_def)
  qed
  have wait: "pb_wait env n sg v d h (xs @ [m]) i ?s1" if "pb_inv env ?s1"
    using that w by (simp add: pb_wait_def) (simp add: cp_def)
  show ?thesis
  proof (cases "above_thr (int n) (pcheck env sg v d i # xs @ [m])")
    case True
    with step inv have "pb_step env s (PDeliver m) = Some ?s2" "pb_inv env ?s2" by simp_all
    with at [OF this(2)] True show ?thesis by (intro exI [of _ ?s2]) (simp del: pb_step.simps if_weak_cong)
  next
    case False
    with step inv have "pb_step env s (PDeliver m) = Some ?s1" "pb_inv env ?s1" by simp_all
    with wait [OF this(2)] False show ?thesis by (intro exI [of _ ?s1]) (simp del: pb_step.simps)
  qed
qed

lemma check_steps:
  assumes "ssm2_ok env n sg" "i < n" "set Q \<subseteq> {..<n}" "10 dvd Suc v"
  shows "pb_wait env n sg v d h xs i s \<Longrightarrow> Q = [] \<or> int (Suc (length xs + length Q)) < vote_threshold (int n) \<Longrightarrow>
    \<exists>t. run (pb_step env) s (map PDeliver (map (pcheck env sg v d) Q)) = Some t \<and>
      pb_wait env n sg v d h (xs @ map (pcheck env sg v d) Q) i t \<and> pb_BlkStore t = pb_BlkStore s"
  using assms(3)
proof (induction Q arbitrary: xs s)
  case (Cons q Q)
  have q: "q < n" "set Q \<subseteq> {..<n}" using Cons.prems(3) by simp_all
  have few: "\<not> above_thr (int n) (pcheck env sg v d i # xs @ [pcheck env sg v d q])"
    using Cons.prems(2) by (simp add: above_thr_vote_threshold)
  obtain u where u: "pb_step env s (PDeliver (pcheck env sg v d q)) = Some u" "pb_BlkStore u = pb_BlkStore s"
    "pb_wait env n sg v d h (xs @ [pcheck env sg v d q]) i u"
    using check_step [OF assms(1) Cons.prems(1) assms(2) q(1) assms(4)] few by (auto simp del: pb_step.simps)
  from Cons.IH [OF u(3) _ q(2)] Cons.prems(2) u show ?case by (simp del: pb_step.simps)
qed simp

text \<open>All but two of a quorum bring a node one message short of the checkpoint, since it holds its own.\<close>

lemma check_run:
  assumes "ssm2_ok env n sg" "pb_wait env n sg v d h [] i s" "i < n" "10 dvd Suc v"
    and Q: "set Q \<subseteq> {..<n}" "int (length Q) = vote_threshold (int n)"
  defines "Q' \<equiv> take (max 1 (length Q - 1)) Q"
  shows "\<exists>t. run (pb_step env) s (map PDeliver (map (pcheck env sg v d) Q')) = Some t \<and>
    pb_at env n sg (Suc v) h i t \<and> pb_BlkStore t = pb_BlkStore s"
proof -
  have "0 \<le> thr2f (int n)" using assms(3) by (intro thr2f_nonneg) simp
  then have "1 \<le> length Q" using Q(2) by (simp add: vote_threshold_thr2f)
  then have Q': "Q' \<noteq> []" "length Q' = max 1 (length Q - 1)" by (auto simp: Q'_def)
  define A where "A = butlast Q'"
  define z where "z = last Q'"
  have split: "Q' = A @ [z]" using Q'(1) by (simp add: A_def z_def)
  have sub: "set Q' \<subseteq> {..<n}" using Q(1) set_take_subset [of _ Q] by (auto simp: Q'_def)
  then have sub': "set A \<subseteq> {..<n}" "z < n" by (simp_all add: split)
  have lenA: "length A = length Q - 2" using Q'(2) \<open>1 \<le> length Q\<close> by (simp add: A_def)
  have few: "A = [] \<or> int (Suc (length [] + length A)) < vote_threshold (int n)" using lenA Q(2) by (cases "length Q \<le> 2") auto
  obtain u where u: "run (pb_step env) s (map PDeliver (map (pcheck env sg v d) A)) = Some u"
    "pb_wait env n sg v d h (map (pcheck env sg v d) A) i u" "pb_BlkStore u = pb_BlkStore s"
    using check_steps [OF assms(1,3) sub'(1) assms(4,2) few] by auto
  have "above_thr (int n) (pcheck env sg v d i # map (pcheck env sg v d) A @ [pcheck env sg v d z])"
    using Q(2) lenA by (simp add: above_thr_vote_threshold)
  with check_step [OF assms(1) u(2) assms(3) sub'(2) assms(4)] obtain t where
    t: "pb_step env u (PDeliver (pcheck env sg v d z)) = Some t" "pb_BlkStore t = pb_BlkStore u" "pb_at env n sg (Suc v) h i t"
    by auto
  show ?thesis using u t by (intro exI [of _ t]) (simp add: split run_append del: pb_step.simps)
qed

section \<open>Rounds of the network\<close>

lemma Block_Hash_committed [simp]: "Block_Hash env (committed env' b cs) = Block_Hash env b"
  by (simp add: Block_Hash_def committed_def)

lemma committed_sel [simp]: "BlkData (committed env b cs) = BlkData b" "bh_PreBlkHash (BlkHdr (committed env b cs)) = bh_PreBlkHash (BlkHdr b)"
  by (simp_all add: committed_def)

lemma votes_there:
  "\<forall>q \<in> set Q. q < n \<and> vote q \<in> set (pb_sent (N q)) \<Longrightarrow> (\<And>q. p_ReciNode (hd_of (vote q)) = ''Broadcast'') \<Longrightarrow>
     (\<And>q. round_type (pm_MType (vote q))) \<Longrightarrow> \<forall>i \<in> I. \<forall>x \<in> set (map vote Q). pb_deliverable n N i x \<and> round_type (pm_MType x)"
  by (auto simp: pb_deliverable_def)

text \<open>The proposal reaches everybody.\<close>

lemma net_propose:
  assumes "ssm2_ok env n sg" "2 \<le> n" "\<forall>i < n. pb_at env n sg v h i (M i)"
  shows "\<exists>N m. pb_net env n M N \<and> pb_proposal env n sg v h reqs m \<and> (\<forall>i < n. pb_in env n sg v m [] P_PREPREPARE i (N i) \<and>
      store_get (pb_BlkStore (N i)) = store_get (pb_BlkStore (M i))) \<and>
    (\<forall>i < n. i \<noteq> v mod n \<longrightarrow> pvote env sg v P_PREPARE (pm_Digest m) i \<in> set (pb_sent (N i)))"
proof -
  let ?l = "v mod n"
  have l: "?l < n" using assms(2) by simp
  have "pb_at env n sg v h ?l (M ?l)" using assms(3) l by blast
  from pb_propose_step [OF assms(1) this l, of 0 0 None None reqs] obtain m t where
    t: "pb_step env (M ?l) (PRequest 0 0 None None reqs) = Some t" "pb_proposal env n sg v h reqs m"
      "pb_in env n sg v m [] P_PREPREPARE ?l t" "m \<in> set (pb_sent t)" "store_get (pb_BlkStore t) = store_get (pb_BlkStore (M ?l))" by blast
  define N1 where "N1 = M(?l := t)"
  have N1: "pb_net env n M N1" unfolding N1_def by (rule pb_net.local [where N = M and i = ?l, OF pb_net.start l _ t(1)]) simp
  let ?I = "{..<n} - {?l}"
  have runs: "\<forall>i \<in> ?I. \<exists>t. run (pb_step env) (N1 i) (map PDeliver [m]) = Some t \<and> pb_in env n sg v m [] P_PREPREPARE i t \<and>
      pvote env sg v P_PREPARE (pm_Digest m) i \<in> set (pb_sent t) \<and> store_get (pb_BlkStore t) = store_get (pb_BlkStore (M i))"
  proof
    fix i assume i: "i \<in> ?I"
    then have "pb_at env n sg v h i (M i)" using assms(3) by simp
    from pb_accept_step [OF this _ _ t(2)] i show "\<exists>t. run (pb_step env) (N1 i) (map PDeliver [m]) = Some t \<and> pb_in env n sg v m [] P_PREPREPARE i t \<and>
      pvote env sg v P_PREPARE (pm_Digest m) i \<in> set (pb_sent t) \<and> store_get (pb_BlkStore t) = store_get (pb_BlkStore (M i))"
      by (auto simp: N1_def simp del: pb_step.simps)
  qed
  have inv: "\<forall>i \<in> ?I. pb_inv env (N1 i)" using assms(3) by (auto simp: N1_def pb_at_def pb_core_def)
  have there: "\<forall>i \<in> ?I. \<forall>x \<in> set [m]. pb_deliverable n N1 i x \<and> round_type (pm_MType x)"
    using l t(2,4) by (auto simp: pb_deliverable_def N1_def pb_proposal_def round_type_def)
  have fin: "finite ?I" "?I \<subseteq> {..<n}" by auto
  from pb_net_all [OF fin N1 runs inv there] obtain N where N: "pb_net env n M N"
    "\<forall>i \<in> ?I. pb_in env n sg v m [] P_PREPREPARE i (N i) \<and> pvote env sg v P_PREPARE (pm_Digest m) i \<in> set (pb_sent (N i)) \<and>
       store_get (pb_BlkStore (N i)) = store_get (pb_BlkStore (M i))" "\<forall>i. i \<notin> ?I \<longrightarrow> N i = N1 i" by blast
  have lead: "N ?l = t" using N(3) by (simp add: N1_def)
  have "pb_in env n sg v m [] P_PREPREPARE i (N i) \<and> store_get (pb_BlkStore (N i)) = store_get (pb_BlkStore (M i))" if "i < n" for i
    using that N(2) lead t(3,5) by (cases "i = ?l") auto
  with N(1,2) t(2) show ?thesis by (intro exI [of _ N] exI [of _ m]) auto
qed

text \<open>What all nodes do with the same votes of some nodes.\<close>

lemma net_phase:
  assumes "pb_net env n M N" "\<forall>i < n. pb_inv env (N i)"
    and "\<forall>i < n. \<exists>t. run (pb_step env) (N i) (map PDeliver (map vote Q)) = Some t \<and> \<Phi> i t"
    and "\<forall>q \<in> set Q. q < n \<and> vote q \<in> set (pb_sent (N q))" "\<And>q. p_ReciNode (hd_of (vote q)) = ''Broadcast''"
    and "\<And>q. round_type (pm_MType (vote q))"
  shows "\<exists>N'. pb_net env n M N' \<and> (\<forall>i < n. \<Phi> i (N' i))"
proof -
  have runs: "\<forall>i \<in> {..<n}. \<exists>t. run (pb_step env) (N i) (map PDeliver (map vote Q)) = Some t \<and> \<Phi> i t" using assms(3) by blast
  have inv: "\<forall>i \<in> {..<n}. pb_inv env (N i)" using assms(2) by blast
  from pb_net_all [OF finite_lessThan subset_refl assms(1) runs inv votes_there [OF assms(4-6)]] show ?thesis by blast
qed

lemma pb_net_round:
  assumes "ssm2_ok env n sg" "2 \<le> n" "\<forall>i < n. pb_at env n sg v h i (M i)"
  shows "\<exists>N b. pb_net env n M N \<and> (\<forall>i < n. pb_at env n sg (Suc v) (Block_Hash env b) i (N i)) \<and>
    bh_PreBlkHash (BlkHdr b) = h \<and> bd_Trans (BlkData b) = pb_cmds reqs \<and>
    (\<forall>i < n. store_get (pb_BlkStore (N i)) = (store_get (pb_BlkStore (M i)))(int v := Some b))"
proof -
  let ?l = "v mod n"
  let ?Q = "quorum n ?l"
  have l: "?l < n" using assms(2) by simp
  note q = quorum_ok [OF assms(2) l]
  have Q: "set ?Q \<subseteq> {..<n}" "int (length ?Q) = vote_threshold (int n)" "\<forall>i \<in> set ?Q. i < n \<and> i \<noteq> ?l" using q(2,3) by auto
  obtain N1 m where N1: "pb_net env n M N1" "pb_proposal env n sg v h reqs m"
    "\<forall>i < n. pb_in env n sg v m [] P_PREPREPARE i (N1 i) \<and> store_get (pb_BlkStore (N1 i)) = store_get (pb_BlkStore (M i))"
    "\<forall>i < n. i \<noteq> ?l \<longrightarrow> pvote env sg v P_PREPARE (pm_Digest m) i \<in> set (pb_sent (N1 i))"
    using net_propose [OF assms, of reqs] by blast
  let ?d = "pm_Digest m"
  let ?ps = "map (pvote env sg v P_PREPARE ?d) ?Q" and ?cs = "map (pvote env sg v P_COMMIT ?d) ?Q"
  define b where "b = committed env (p_Block (hd_of m)) ?cs"
  note m = N1(2) [unfolded pb_proposal_def]
  have len: "int (length ?ps) = vote_threshold (int n)" using Q(2) by simp
  have inv: "pb_in env n sg v m ps ph i s \<Longrightarrow> pb_inv env s" "pb_wait env n sg v x h' xs i s \<Longrightarrow> pb_inv env s" for ps ph i s x h' xs
    by (simp_all add: pb_in_def pb_core_def pb_wait_def)
  have "\<forall>i < n. \<exists>t. run (pb_step env) (N1 i) (map PDeliver ?ps) = Some t \<and> (pb_in env n sg v m ?ps P_PREPARE i t \<and>
      pvote env sg v P_COMMIT ?d i \<in> set (pb_sent t) \<and> store_get (pb_BlkStore t) = store_get (pb_BlkStore (M i)))"
    using pb_prepare_step [OF assms(1) _ _ N1(2) Q(1,2)] N1(3) by metis
  from net_phase [OF N1(1) _ this _ pvote_sel(6)] obtain N2 where N2: "pb_net env n M N2" "\<forall>i < n. pb_in env n sg v m ?ps P_PREPARE i (N2 i) \<and>
      pvote env sg v P_COMMIT ?d i \<in> set (pb_sent (N2 i)) \<and> store_get (pb_BlkStore (N2 i)) = store_get (pb_BlkStore (M i))"
    using N1(3,4) Q(3) inv(1) by (simp add: round_type_def) blast
  let ?done = "\<lambda>i t. store_get (pb_BlkStore t) = (store_get (pb_BlkStore (M i)))(int v := Some b)"
  let ?left = "\<lambda>i t. (if 10 dvd Suc v then pb_wait env n sg v ?d ?d [] i t \<and> pcheck env sg v ?d i \<in> set (pb_sent t)
     else pb_at env n sg (Suc v) ?d i t) \<and> ?done i t"
  have "\<forall>i < n. \<exists>t. run (pb_step env) (N2 i) (map PDeliver ?cs) = Some t \<and> ?left i t"
    using pb_commit_step [OF assms(1) _ _ N1(2) Q(1,2) len] N2(2) unfolding b_def by metis
  from net_phase [OF N2(1) _ this _ pvote_sel(6)] obtain N3 where N3: "pb_net env n M N3" "\<forall>i < n. ?left i (N3 i)"
    using N2(2) Q(3) inv(1) by (simp add: round_type_def) blast
  have "\<exists>N. pb_net env n M N \<and> (\<forall>i < n. pb_at env n sg (Suc v) ?d i (N i) \<and> ?done i (N i))"
  proof (cases "10 dvd Suc v")
    case True
    let ?Q' = "take (max 1 (length ?Q - 1)) ?Q"
    have w: "\<forall>i < n. pb_wait env n sg v ?d ?d [] i (N3 i) \<and> pcheck env sg v ?d i \<in> set (pb_sent (N3 i)) \<and> ?done i (N3 i)"
      using N3(2) True by simp
    have runs: "\<forall>i < n. \<exists>t. run (pb_step env) (N3 i) (map PDeliver (map (pcheck env sg v ?d) ?Q')) = Some t \<and>
        (pb_at env n sg (Suc v) ?d i t \<and> ?done i t)"
      using check_run [OF assms(1) _ _ True Q(1,2)] w by metis
    have there: "\<forall>q \<in> set ?Q'. q < n \<and> pcheck env sg v ?d q \<in> set (pb_sent (N3 q))"
    proof
      fix q assume "q \<in> set ?Q'"
      then have "q \<in> set ?Q" by (rule in_set_takeD)
      with Q(3) have "q < n" by blast
      with w show "q < n \<and> pcheck env sg v ?d q \<in> set (pb_sent (N3 q))" by blast
    qed
    have "\<forall>i < n. pb_inv env (N3 i)" using w inv(2) by blast
    from net_phase [OF N3(1) this runs there pcheck_sel(4)] show ?thesis by (simp add: round_type_def)
  next
    case False
    with N3 show ?thesis by (intro exI [of _ N3]) simp
  qed
  then obtain N where "pb_net env n M N" "\<forall>i < n. pb_at env n sg (Suc v) ?d i (N i) \<and> ?done i (N i)" by blast
  moreover have "Block_Hash env b = ?d" "bh_PreBlkHash (BlkHdr b) = h" "bd_Trans (BlkData b) = pb_cmds reqs"
    using m by (simp_all add: b_def)
  ultimately show ?thesis by (intro exI [of _ N] exI [of _ b]) simp
qed

lemma NewPBFT_at:
  assumes "0 < n"
  shows "pb_at env n sg 0 (Some (EmptyHash (SM3 env))) i (NewPBFT env d (int i) (int n) path (Some []) (sg i))"
proof -
  let ?s = "NewPBFT env d (int i) (int n) path (Some []) (sg i)"
  have inv: "pb_inv env ?s" by (rule NewPBFT_inv) (use assms in simp)
  have log: "clean_log (MsgLog ?s ! k)" if "k < 10" for k
    using that by (simp add: NewPBFT_def clean_log_def CHECKPOINTNUM_def)
  have "pb_core env n sg 0 i ?s"
    using inv log by (simp add: pb_core_def) (simp add: NewPBFT_def view_at_def last_cp_def)
  moreover from this have "clean_log (cur_log ?s)" using log by (simp add: cur_log_def pb_coreD(8))
  ultimately show ?thesis by (simp add: pb_at_def) (simp add: NewPBFT_def)
qed

lemma pb_network_rounds:
  assumes "2 \<le> n" "ssm2_ok env n sg"
  shows "\<exists>N chain. pb_net env n (\<lambda>i. NewPBFT env d (int i) (int n) path (Some []) (sg i)) N \<and>
    (\<forall>i < n. pb_at env n sg (length batches) (last_hash env chain) i (N i)) \<and> chained_to env (map pb_cmds batches) chain \<and>
    (\<forall>i < n. \<forall>k < length batches. store_get (pb_BlkStore (N i)) (int k) = Some (chain ! k))"
proof (induction batches rule: rev_induct)
  let ?M = "\<lambda>i. NewPBFT env d (int i) (int n) path (Some []) (sg i)"
  case Nil
  have "\<forall>i < n. pb_at env n sg 0 (Some (EmptyHash (SM3 env))) i (?M i)"
    by (intro allI impI NewPBFT_at) (use assms(1) in simp)
  then show ?case by (intro exI [of _ ?M] exI [of _ "[]"]) (simp add: pb_net.start last_hash_def chained_to_def)
next
  let ?M = "\<lambda>i. NewPBFT env d (int i) (int n) path (Some []) (sg i)"
  case (snoc b bs)
  from snoc.IH obtain N chain where N: "pb_net env n ?M N" "\<forall>i < n. pb_at env n sg (length bs) (last_hash env chain) i (N i)"
    "chained_to env (map pb_cmds bs) chain" "\<forall>i < n. \<forall>k < length bs. store_get (pb_BlkStore (N i)) (int k) = Some (chain ! k)" by blast
  from pb_net_round [OF assms(2,1) N(2), of b] obtain N' c where c: "pb_net env n N N'"
    "\<forall>i < n. pb_at env n sg (Suc (length bs)) (Block_Hash env c) i (N' i)" "bh_PreBlkHash (BlkHdr c) = last_hash env chain"
    "bd_Trans (BlkData c) = pb_cmds b"
    "\<forall>i < n. store_get (pb_BlkStore (N' i)) = (store_get (pb_BlkStore (N i)))(int (length bs) := Some c)" by blast
  have "pb_net env n ?M N'" by (rule pb_net_trans [OF c(1) N(1)])
  moreover have "\<forall>i < n. pb_at env n sg (length (bs @ [b])) (last_hash env (chain @ [c])) i (N' i)" using c(2) by (simp add: last_hash_def)
  moreover have "chained_to env (map pb_cmds (bs @ [b])) (chain @ [c])" using chained_to_snoc [OF N(3) c(3,4)] by simp
  moreover have "length chain = length bs" using N(3) by (simp add: chained_to_def)
  then have "\<forall>i < n. \<forall>k < length (bs @ [b]). store_get (pb_BlkStore (N' i)) (int k) = Some ((chain @ [c]) ! k)"
    using N(4) c(5) by (simp add: nth_append less_Suc_eq)
  ultimately show ?case by blast
qed

text \<open>
  C4 A PBFT network makes progress: from the start of \<open>n \<ge> 2\<close> replicas whose signers verify each
  other's signatures, and for any batches of requests (so through any number of checkpoints), the
  replicas can exchange messages, all of them really sent by one of them, so that every one of them
  stores the same chain: block k in the file of height k, with the commands of batch k and the hash
  of the block before, and all with the same validation.
\<close>

theorem pb_network_commits:
  assumes "2 \<le> n" "ssm2_ok env n sg"
  shows "\<exists>N chain. pb_net env n (\<lambda>i. NewPBFT env d (int i) (int n) path (Some []) (sg i)) N \<and>
    chained_to env (map pb_cmds batches) chain \<and>
    (\<forall>i < n. ViewNumber (pb_View (N i)) = int (length batches) \<and>
       (\<forall>k < length batches. store_get (pb_BlkStore (N i)) (int k) = Some (chain ! k)))"
proof -
  let ?M = "\<lambda>i. NewPBFT env d (int i) (int n) path (Some []) (sg i)"
  obtain N chain where N: "pb_net env n ?M N" "\<forall>i < n. pb_at env n sg (length batches) (last_hash env chain) i (N i)"
    "chained_to env (map pb_cmds batches) chain"
    "\<forall>i < n. \<forall>k < length batches. store_get (pb_BlkStore (N i)) (int k) = Some (chain ! k)"
    using pb_network_rounds [OF assms] by blast
  have "ViewNumber (pb_View (N i)) = int (length batches)" if "i < n" for i
    using N(2) that by (simp add: pb_at_def pb_core_def)
  with N(1,3,4) show ?thesis by blast
qed

definition pb_net_signers :: "nat \<Rightarrow> ssm2_Signer" where
  "pb_net_signers i = pb_demo_signer\<lparr>ID := node_name (int i)\<rparr>"

lemma pb_net_signers_ok: "ssm2_ok pb_demo_env 4 pb_net_signers"
proof -
  have "j = 0 \<or> j = 1 \<or> j = 2 \<or> j = 3" if "j < 4" for j :: nat using that by linarith
  then show ?thesis
    by (auto simp: ssm2_ok_def ssm2_VerifySign_def ssm2_Sign_def pb_net_signers_def pb_demo_signer_def pb_demo_env_def)
qed

text \<open>Four replicas and eleven batches, one of them empty: past a checkpoint.\<close>

theorem pb_network_commits_witness:
  "\<exists>N c d. pb_net pb_demo_env 4 (\<lambda>i. NewPBFT pb_demo_env 5 (int i) 4 ''d'' (Some []) (pb_net_signers i)) N \<and>
     ViewNumber (pb_View (N 2)) = 11 \<and> store_get (pb_BlkStore (N 3)) 9 = Some c \<and> store_get (pb_BlkStore (N 3)) 10 = Some d \<and>
     bh_PreBlkHash (BlkHdr d) = Block_Hash pb_demo_env c"
proof -
  let ?b = "[] # replicate 10 [\<lparr>rq_Id = ''c_0'', rq_Cmd = [1], rq_Sign = []\<rparr>]"
  from pb_network_commits [OF _ pb_net_signers_ok, of 5 "''d''" ?b] obtain N chain where
    N: "pb_net pb_demo_env 4 (\<lambda>i. NewPBFT pb_demo_env 5 (int i) 4 ''d'' (Some []) (pb_net_signers i)) N"
    "chained_to pb_demo_env (map pb_cmds ?b) chain" "\<And>i. i < 4 \<Longrightarrow> ViewNumber (pb_View (N i)) = 11"
    "\<And>i k. i < 4 \<Longrightarrow> k < 11 \<Longrightarrow> store_get (pb_BlkStore (N i)) (int k) = Some (chain ! k)"
    by auto
  have "bh_PreBlkHash (BlkHdr (chain ! 10)) = Block_Hash pb_demo_env (chain ! 9)" using N(2) by (simp add: chained_to_def)
  with N(1) N(3) [of 2] N(4) [of 3 9] N(4) [of 3 10] show ?thesis
    by (intro exI [of _ N] exI [of _ "chain ! 9"] exI [of _ "chain ! 10"]) simp
qed

end
