(* ===== verification/Hs_Chained.thy ===== *)
theory Hs_Chained
  imports Mgmt_Types Dcs_Timer
begin

text \<open>
  Chained HotStuff (orderer/consensus/hotstuff/core/chained_hotstuff.go and generic.go): the state of
  a replica, every operation on it and the node step. Handlers return the list of messages to send;
  \<open>None\<close> is a panic or a call that blocks for ever.
\<close>

section \<open>The state\<close>

datatype chs_action = CAct_StartViewChange | CAct_nothing

text \<open>
  \<open>c_Spawned\<close> lists the messages of all goroutines \<open>go chs.SendSerMsg(...)\<close> in the order they were
  started, \<open>c_Ran\<close> the positions of those that have run; they can run in any order.
\<close>

record CHotstuff =
  c_CurPhase :: hs_StateType
  c_View :: View
  c_ConsId :: int
  ExecuteState :: bool
  LastLeaderState :: bool
  c_HsNodes :: "HsNode arr4"
  c_Blocks :: "Block arr4"
  GenericQC :: ChainedQC
  c_LockedQC :: ChainedQC
  c_LastProposal :: hs_Proposal
  c_CurProposal :: hs_Proposal
  c_ProposalLock :: bool
  c_CurRoundMsg :: "CMsg option"
  c_NewViewMsgs :: "CMsg list"
  GenericVoteMsgs :: "CMsg list"
  c_ViewChangeSendFlag :: bool
  ViewChangeFlag :: bool
  c_ViewTimer :: "chs_action MyTimer"
  c_BlkStore :: BlockStore
  c_ForwardChan :: "CMsg list option"
  c_SendChan :: "CMsg ServerMsg list option"
  c_Signer :: tss_Signer
  c_Spawned :: "CMsg list"
  c_Ran :: "nat list"

type_synonym chs_result = "(CMsg list \<times> CHotstuff) option"

definition empty_node :: "'a env_scheme \<Rightarrow> HsNode" where
  "empty_node env = (let emptyHash = Some (GenProposalHash (SM3 env) nil_Proposal)
     in \<lparr>CurHash = emptyHash, ParentHash = emptyHash\<rparr>)"

definition NewChainedHotstuff ::
  "'a env_scheme \<Rightarrow> int \<Rightarrow> int \<Rightarrow> int \<Rightarrow> string \<Rightarrow> CMsg ServerMsg list option \<Rightarrow> tss_Signer \<Rightarrow> CHotstuff" where
  "NewChainedHotstuff env timerDuration consId nodeNum path sendChan signer =
     (let n = empty_node env; hsNodes = Arr4 n n n n in
      \<lparr>c_CurPhase = HS_NEW_VIEW, c_View = \<lparr>ViewNumber = 0, Leader = 0, NodesNum = nodeNum\<rparr>,
       c_ConsId = consId, ExecuteState = False, LastLeaderState = False, c_HsNodes = hsNodes,
       c_Blocks = Arr4 empty_Block empty_Block empty_Block empty_Block,
       GenericQC = nil_ChainedQC\<lparr>cq_ViewNumber := -1, cq_HsNodes := hsNodes\<rparr>,
       c_LockedQC = nil_ChainedQC\<lparr>cq_ViewNumber := -1, cq_HsNodes := hsNodes\<rparr>,
       c_LastProposal = nil_Proposal, c_CurProposal = nil_Proposal, c_ProposalLock = False,
       c_CurRoundMsg = None, c_NewViewMsgs = [], GenericVoteMsgs = [], c_ViewChangeSendFlag = False,
       ViewChangeFlag = False, c_ViewTimer = NewTimer (timerDuration * 1000000),
       c_BlkStore = \<lparr>bs_Height = 0, GeneratedHeight = 0, bs_PreBlkHash = None, CurBlkHash = None,
         CurProposalBlk = empty_Block, bs_Path = path @ [CHR 0x5C] @ ''r_'' @ Itoa consId, bs_Files = (\<lambda>_. None)\<rparr>,
       c_ForwardChan = None, c_SendChan = sendChan, c_Signer = signer, c_Spawned = [], c_Ran = []\<rparr>)"

definition chs_GetNodeName :: "CHotstuff \<Rightarrow> string" where
  "chs_GetNodeName s = ''r_'' @ Itoa (c_ConsId s)"

definition chs_GetLeaderName :: "CHotstuff \<Rightarrow> string" where
  "chs_GetLeaderName s = LeaderName (c_View s)"

definition GetChainedCurLeader :: "CHotstuff \<Rightarrow> string" where
  "GetChainedCurLeader s = LeaderName (c_View s)"

definition GetChainedLastLeader :: "CHotstuff \<Rightarrow> string option" where
  "GetChainedLastLeader s = LastLeaderName (c_View s)"

definition chs_IsLeader :: "CHotstuff \<Rightarrow> bool" where
  "chs_IsLeader s \<longleftrightarrow> chs_GetNodeName s = LeaderName (c_View s)"

definition ExistNotExecuteBlock :: bool where
  "ExistNotExecuteBlock = False"

definition chs_Execute :: bool where
  "chs_Execute = True"

text \<open>As in basic HotStuff, the send channel is a list without the limit of 128 messages.\<close>

definition chs_SendSerMsg :: "CHotstuff \<Rightarrow> CMsg \<Rightarrow> CHotstuff option" where
  "chs_SendSerMsg s msg =
     (let serMsg = \<lparr>SType = ORDER, SendServer = cm_SendNode msg, ReciServer = cm_ReciNode msg,
                    Sign = None, Payload = msg\<rparr>
      in case c_SendChan s of
           None \<Rightarrow> None
         | Some c \<Rightarrow> Some (s\<lparr>c_SendChan := Some (c @ [serMsg])\<rparr>))"

text \<open>\<open>go chs.SendSerMsg(msg)\<close>.\<close>

definition go_send :: "CHotstuff \<Rightarrow> CMsg \<Rightarrow> CHotstuff" where
  "go_send s msg = s\<lparr>c_Spawned := c_Spawned s @ [msg]\<rparr>"

section \<open>Operations on blocks and nodes\<close>

definition UpdateHsNode :: "CHotstuff \<Rightarrow> HsNode \<Rightarrow> CHotstuff" where
  "UpdateHsNode s newNode =
     (let h = c_HsNodes s in s\<lparr>c_HsNodes := Arr4 newNode (at0 h) (at1 h) (at2 h)\<rparr>)"

definition UpdateBlock :: "'a env_scheme \<Rightarrow> CHotstuff \<Rightarrow> Block \<Rightarrow> CHotstuff" where
  "UpdateBlock env s blk =
     (let b = c_Blocks s;
          s = s\<lparr>c_Blocks := Arr4 blk (at0 b) (at1 b) (at2 b)\<rparr>;
          s = (if length (bd_Trans (BlkData blk)) = 0
               then s\<lparr>c_BlkStore := (c_BlkStore s)\<lparr>CurBlkHash := Some (EmptyHash (SM3 env))\<rparr>\<rparr> else s)
      in s\<lparr>c_BlkStore := (c_BlkStore s)\<lparr>GeneratedHeight := bh_Height (BlkHdr blk) + 1\<rparr>\<rparr>)"

definition chs_CreateLeaf :: "CHotstuff \<Rightarrow> bytes \<Rightarrow> HsNode" where
  "chs_CreateLeaf s parent = \<lparr>CurHash = CurBlkHash (c_BlkStore s), ParentHash = parent\<rparr>"

definition MatchingCMsg :: "CMsg \<Rightarrow> hs_StateType \<Rightarrow> int \<Rightarrow> bool" where
  "MatchingCMsg msg code curView \<longleftrightarrow> cm_MType msg = code \<and> cm_ViewNumber msg = curView"

definition CheckCMsg :: "CMsg \<Rightarrow> hs_StateType \<Rightarrow> int \<Rightarrow> bool" where
  "CheckCMsg msg code viewNum =
     (if code = HS_NEW_VIEW then MatchingCMsg msg code (viewNum - 1)
      else if code = HS_GENERIC_VOTE then MatchingCMsg msg code viewNum
      else False)"

definition MatchingCQC :: "QC \<Rightarrow> hs_StateType \<Rightarrow> int \<Rightarrow> bool" where
  "MatchingCQC qc code curView = (if QType qc = code \<and> qc_ViewNumber qc = curView then True else False)"

text \<open>\<open>CurRoundMsg\<close> is dereferenced: nil panics.\<close>

definition chs_CombineSign :: "'a env_scheme \<Rightarrow> CHotstuff \<Rightarrow> CMsg list \<Rightarrow> bytes option" where
  "chs_CombineSign env s voteMsgs = do {
     cur \<leftarrow> c_CurRoundMsg s;
     Some (CombineSig env (c_Signer s) (ChainedMessage2Byte cur) (map cm_PartialSig voteMsgs))
   }"

definition chs_SafeNode :: "CHotstuff \<Rightarrow> HsNode arr4 \<Rightarrow> ChainedQC \<Rightarrow> bool" where
  "chs_SafeNode s hsNode qc \<longleftrightarrow>
     bytes_Equal (CurHash (at0 (cq_HsNodes qc))) (ParentHash (at0 hsNode)) \<or>
     cq_ViewNumber qc > cq_ViewNumber (c_LockedQC s)"

definition CheckNewCHsNode :: "CHotstuff \<Rightarrow> CMsg \<Rightarrow> bool" where
  "CheckNewCHsNode s msg =
     (if ParentHash (at0 (cm_HsNodes msg)) = None \<or> CurHash (at1 (cm_HsNodes msg)) = None then False
      else if \<not> bytes_Equal (ParentHash (at0 (cm_HsNodes msg))) (CurHash (at1 (cm_HsNodes msg))) then False
      else if \<not> chs_SafeNode s (cm_HsNodes msg) (cm_Justify msg) then False
      else True)"

text \<open>The message with the highest certificate; an empty list panics.\<close>

definition GetHighChainedQC :: "CMsg list \<Rightarrow> CMsg option" where
  "GetHighChainedQC newViewMsgs =
     (case newViewMsgs of
        [] \<Rightarrow> None
      | m # _ \<Rightarrow> Some (newViewMsgs ! max_scan (\<lambda>m. cq_ViewNumber (cm_Justify m)) newViewMsgs 0 0
                        (cq_ViewNumber (cm_Justify m))))"

definition chs_stop :: "CHotstuff \<Rightarrow> CHotstuff option" where
  "chs_stop s = do { t \<leftarrow> Stop (c_ViewTimer s); Some (s\<lparr>c_ViewTimer := t\<rparr>) }"

definition chs_start :: "CHotstuff \<Rightarrow> CHotstuff option" where
  "chs_start s = do {
     t \<leftarrow> Start (c_ViewTimer s) (Some CAct_StartViewChange) (Some CAct_nothing);
     Some (s\<lparr>c_ViewTimer := t\<rparr>)
   }"

section \<open>Proposing (generic.go)\<close>

definition CHandleNewView :: "'a env_scheme \<Rightarrow> CHotstuff \<Rightarrow> CMsg \<Rightarrow> chs_result" where
  "CHandleNewView env s msg =
     (if c_CurPhase s \<noteq> HS_NEW_VIEW then Some ([], s)
      else do {
        s \<leftarrow> (if MatchingCMsg msg HS_NEW_VIEW (ViewNumber (c_View s)) then do {
                let s = s\<lparr>c_NewViewMsgs := c_NewViewMsgs s @ [msg]\<rparr>;
                l \<leftarrow> GetChainedLastLeader s;
                Some (if cm_SendNode msg = l then s\<lparr>LastLeaderState := True\<rparr> else s)
              } else Some s);
        if \<not> chs_IsLeader s then Some ([], s)
        else if \<not> above_thr (NodesNum (c_View s)) (c_NewViewMsgs s) then Some ([], s)
        else if \<not> LastLeaderState s \<and> \<not> ViewChangeFlag s then Some ([], s)
        else do {
          let s = s\<lparr>LastLeaderState := False, ViewChangeFlag := False\<rparr>;
          let s = s\<lparr>c_CurPhase := HS_WAITING\<rparr>;
          if ViewChangeFlag s then Some ([], s\<lparr>c_CurPhase := HS_NEW_VIEW\<rparr>)
          else if \<not> ExistNotExecuteBlock \<and> Proposal_IsEmpty (c_CurProposal s) then Some ([], s)
          else if c_ProposalLock s then Some ([], s)
          else do {
            s \<leftarrow> chs_stop s;
            high \<leftarrow> GetHighChainedQC (c_NewViewMsgs s);
            let s = s\<lparr>GenericQC := cm_Justify high\<rparr>;
            bs \<leftarrow> (if length (slices (Commands (c_CurProposal s))) = 0 then Some (GenEmptyBlock env (c_BlkStore s))
                   else do {
                     reqs \<leftarrow> CutOffTwoDimByteSlice (slices (Commands (c_CurProposal s))) 128;
                     GenNewBlock env (c_BlkStore s) (ViewNumber (c_View s)) (TwoDimByteSlice2StringSlice reqs)
                       [GeneratedHeight (c_BlkStore s)]
                   });
            let s = s\<lparr>c_BlkStore := bs\<lparr>bs_Height := bs_Height bs + 1\<rparr>\<rparr>;
            let newNode = chs_CreateLeaf s (CurHash (at0 (cq_HsNodes (cm_Justify high))));
            let h = c_HsNodes s;
            let nodes = Arr4 newNode (at0 h) (at1 h) (at2 h);
            let s = UpdateBlock env s (CurProposalBlk (c_BlkStore s));
            let s = s\<lparr>c_CurPhase := HS_HALF_GENERIC, LastLeaderState := False, ExecuteState := False,
                      c_NewViewMsgs := [], GenericVoteMsgs := []\<rparr>;
            Some ([nil_CMsg\<lparr>cm_MType := HS_GENERIC, cm_ViewNumber := ViewNumber (c_View s),
                     cm_ReciNode := ''Broadcast'', cm_HsNodes := nodes, cm_Proposal := c_CurProposal s,
                     cm_Blk := CurProposalBlk (c_BlkStore s), cm_Justify := GenericQC s\<rparr>], s)
          }
        }
      })"

definition chs_GenProposal :: "'a env_scheme \<Rightarrow> CHotstuff \<Rightarrow> (CMsg option \<times> CHotstuff) option" where
  "chs_GenProposal env s =
     (if \<not> above_thr (NodesNum (c_View s)) (c_NewViewMsgs s) \<and> ViewNumber (c_View s) \<noteq> 0 then Some (None, s)
      else do {
        s \<leftarrow> chs_stop s;
        high \<leftarrow> GetHighChainedQC (c_NewViewMsgs s);
        let s = s\<lparr>GenericQC := cm_Justify high\<rparr>;
        bs \<leftarrow> (if length (slices (Commands (c_CurProposal s))) = 0
               then Some (let bs = GenEmptyBlock env (c_BlkStore s) in bs\<lparr>bs_Height := bs_Height bs + 1\<rparr>)
               else do {
                 reqs \<leftarrow> CutOffTwoDimByteSlice (slices (Commands (c_CurProposal s))) 128;
                 GenNewBlock env (c_BlkStore s) (ViewNumber (c_View s)) (TwoDimByteSlice2StringSlice reqs)
                   [GeneratedHeight (c_BlkStore s)]
               });
        let s = s\<lparr>c_BlkStore := bs\<rparr>;
        let newNode = chs_CreateLeaf s (CurHash (at0 (cq_HsNodes (cm_Justify high))));
        let h = c_HsNodes s;
        let nodes = Arr4 newNode (at0 h) (at1 h) (at2 h);
        let s = UpdateBlock env s (CurProposalBlk (c_BlkStore s));
        let s = s\<lparr>c_CurPhase := HS_HALF_GENERIC, LastLeaderState := False, ExecuteState := False,
                  c_NewViewMsgs := [], GenericVoteMsgs := []\<rparr>;
        Some (Some (nil_CMsg\<lparr>cm_MType := HS_GENERIC, cm_ViewNumber := ViewNumber (c_View s),
                 cm_SendNode := chs_GetNodeName s, cm_ReciNode := ''Broadcast'', cm_HsNodes := nodes,
                 cm_Proposal := c_CurProposal s, cm_Blk := CurProposalBlk (c_BlkStore s), cm_Justify := GenericQC s\<rparr>), s)
      })"

section \<open>Voting\<close>

text \<open>The links of a message's four nodes.\<close>

definition link01 :: "HsNode arr4 \<Rightarrow> bool" where
  "link01 h \<longleftrightarrow> bytes_Equal (ParentHash (at0 h)) (CurHash (at1 h))"

definition link12 :: "HsNode arr4 \<Rightarrow> bool" where
  "link12 h \<longleftrightarrow> bytes_Equal (ParentHash (at1 h)) (CurHash (at2 h))"

definition link23 :: "HsNode arr4 \<Rightarrow> bool" where
  "link23 h \<longleftrightarrow> bytes_Equal (ParentHash (at2 h)) (CurHash (at3 h))"

text \<open>The last block of the pipeline is stored with the certificate of the message.\<close>

definition commit_block :: "'a env_scheme \<Rightarrow> CHotstuff \<Rightarrow> CMsg \<Rightarrow> CHotstuff" where
  "commit_block env s msg =
     (if \<not> Block_IsEmpty (at3 (c_Blocks s)) \<and>
         bytes_Equal (Block_Hash env (at3 (c_Blocks s))) (CurHash (at3 (c_HsNodes s))) then
        let b = c_Blocks s;
            blk = (at3 b)\<lparr>BlkHdr := (BlkHdr (at3 b))\<lparr>bh_Validation := cq_Sign (cm_Justify msg)\<rparr>\<rparr>;
            s = s\<lparr>c_Blocks := Arr4 (at0 b) (at1 b) (at2 b) blk\<rparr>;
            s = s\<lparr>c_BlkStore := (c_BlkStore s)\<lparr>CurBlkHash := Block_Hash env blk\<rparr>\<rparr>;
            s = s\<lparr>c_BlkStore := StoreBlock (c_BlkStore s) blk\<rparr>
        in s\<lparr>c_BlkStore := (c_BlkStore s)\<lparr>bs_Height := bs_Height (c_BlkStore s) - 1\<rparr>\<rparr>
      else s)"

definition CHandleGeneric :: "'a env_scheme \<Rightarrow> CHotstuff \<Rightarrow> CMsg \<Rightarrow> chs_result" where
  "CHandleGeneric env s msg =
     (if cm_ViewNumber msg \<noteq> ViewNumber (c_View s) then Some ([], s)
      else if \<not> CheckNewCHsNode s msg then Some ([], s)
      else do {
        let s = s\<lparr>ViewChangeFlag := False\<rparr>;
        s \<leftarrow> (if \<not> chs_IsLeader s then chs_stop (UpdateBlock env s (cm_Blk msg)) else Some s);
        let s = s\<lparr>c_HsNodes := cm_HsNodes msg\<rparr>;
        case ThresholdSign env (c_Signer s) (ChainedMessage2Byte msg) of
          None \<Rightarrow> Some ([], s)
        | Some partSig \<Rightarrow> do {
            let vote = nil_CMsg\<lparr>cm_MType := HS_GENERIC_VOTE, cm_ViewNumber := cm_ViewNumber msg,
                  cm_ReciNode := GetChainedCurLeader s, cm_HsNodes := cm_HsNodes msg, cm_PartialSig := Some partSig\<rparr>;
            let s = (if link01 (cm_HsNodes msg) then
                       let s = s\<lparr>GenericQC := cm_Justify msg\<rparr>
                       in if link12 (cm_HsNodes msg) then
                            let s = s\<lparr>c_LockedQC := cm_Justify msg\<rparr>
                            in if link23 (cm_HsNodes msg) then commit_block env (s\<lparr>ExecuteState := True\<rparr>) msg
                               else s
                          else s
                     else s);
            let s = s\<lparr>c_NewViewMsgs := []\<rparr>;
            if \<not> chs_IsLeader s then do {
              v \<leftarrow> NextView (c_View s);
              let s = s\<lparr>c_View := v\<rparr>;
              let newView = nil_CMsg\<lparr>cm_MType := HS_NEW_VIEW, cm_ViewNumber := ViewNumber (c_View s),
                    cm_HsNodes := c_HsNodes s, cm_Justify := GenericQC s\<rparr>;
              let newView = newView\<lparr>cm_ReciNode := GetChainedCurLeader s\<rparr>;
              let s = (if chs_GetNodeName s = chs_GetLeaderName s then s\<lparr>LastLeaderState := False\<rparr> else s);
              s \<leftarrow> chs_start s;
              Some ([vote, newView], s)
            }
            else Some ([vote], s)
          }
      })"

definition CHandleGenericVote :: "'a env_scheme \<Rightarrow> CHotstuff \<Rightarrow> CMsg \<Rightarrow> chs_result" where
  "CHandleGenericVote env s msg =
     (if c_CurPhase s \<noteq> HS_HALF_GENERIC then Some ([], s)
      else
        let s = (if CheckCMsg msg HS_GENERIC_VOTE (ViewNumber (c_View s))
                 then s\<lparr>GenericVoteMsgs := GenericVoteMsgs s @ [msg]\<rparr> else s)
        in if \<not> above_thr (NodesNum (c_View s)) (GenericVoteMsgs s) then Some ([], s)
           else do {
             s \<leftarrow> chs_stop s;
             let qc = nil_ChainedQC\<lparr>cq_QType := HS_GENERIC, cq_ViewNumber := cm_ViewNumber msg, cq_HsNodes := cm_HsNodes msg\<rparr>;
             sig \<leftarrow> chs_CombineSign env s (GenericVoteMsgs s);
             if sig = None then Some ([], s)
             else do {
               let s = s\<lparr>GenericQC := qc\<lparr>cq_Sign := sig\<rparr>\<rparr>;
               v \<leftarrow> NextView (c_View s);
               let s = s\<lparr>c_View := v, c_CurPhase := HS_NEW_VIEW, c_CurProposal := nil_Proposal\<rparr>;
               s \<leftarrow> chs_start s;
               Some ([nil_CMsg\<lparr>cm_MType := HS_NEW_VIEW, cm_HsNodes := c_HsNodes s,
                        cm_ReciNode := GetChainedCurLeader s, cm_ViewNumber := ViewNumber (c_View s),
                        cm_Justify := GenericQC s\<rparr>], s)
             }
           })"

section \<open>View change\<close>

definition chs_StartViewChange :: "'a env_scheme \<Rightarrow> CHotstuff \<Rightarrow> CHotstuff option" where
  "chs_StartViewChange env s = do {
     v \<leftarrow> NextView (c_View s);
     let s = s\<lparr>c_View := v, c_CurPhase := HS_NEW_VIEW, ViewChangeFlag := True\<rparr>;
     let m = nil_CMsg\<lparr>cm_MType := HS_NEW_VIEW, cm_Justify := GenericQC s, cm_ViewNumber := ViewNumber (c_View s),
           cm_SendNode := chs_GetNodeName s, cm_ReciNode := chs_GetLeaderName s\<rparr>;
     let m = (case ThresholdSign env (c_Signer s) (ChainedMessage2Byte m) of
                Some sign \<Rightarrow> m\<lparr>cm_PartialSig := Some sign\<rparr>
              | None \<Rightarrow> m);
     let s = (case c_ForwardChan s of
                None \<Rightarrow> s
              | Some c \<Rightarrow> s\<lparr>c_ViewChangeSendFlag := True, c_ForwardChan := Some (c @ [m])\<rparr>);
     s \<leftarrow> (if c_SendChan s \<noteq> None then chs_SendSerMsg s m else Some s);
     chs_start s
   }"

section \<open>Dispatch and requests (chained_hotstuff.go)\<close>

definition RouteCMsg :: "'a env_scheme \<Rightarrow> CHotstuff \<Rightarrow> CMsg \<Rightarrow> chs_result" where
  "RouteCMsg env s msg =
     (case cm_MType msg of
        HS_NEW_VIEW \<Rightarrow> CHandleNewView env s msg
      | HS_GENERIC \<Rightarrow> CHandleGeneric env s msg
      | HS_GENERIC_VOTE \<Rightarrow> CHandleGenericVote env s msg
      | _ \<Rightarrow> Some ([], s))"

text \<open>One pass of the loop over the returned messages.\<close>

definition dispatch_one :: "CHotstuff \<Rightarrow> CMsg \<Rightarrow> CHotstuff" where
  "dispatch_one s m =
     (let m = m\<lparr>cm_SendNode := chs_GetNodeName s\<rparr>;
          s = (if cm_MType m = HS_GENERIC then s\<lparr>c_CurRoundMsg := Some m\<rparr> else s);
          s = go_send s m
      in if cm_MType m = HS_NEW_VIEW \<and> ExecuteState s \<and>
            length (bval (bh_Validation (BlkHdr (at3 (c_Blocks s))))) \<noteq> 0 \<and> chs_Execute
         then (go_send s (nil_CMsg\<lparr>cm_ViewNumber := ViewNumber (c_View s) - 1, cm_Proposal := nil_Proposal,
                            cm_SendNode := chs_GetNodeName s, cm_ReciNode := ''Client''\<rparr>))\<lparr>ExecuteState := False\<rparr>
         else s)"

text \<open>\<open>None\<close> for the message stands for JSON that does not decode.\<close>

definition HandleCMsg :: "'a env_scheme \<Rightarrow> CHotstuff \<Rightarrow> CMsg option \<Rightarrow> CHotstuff option" where
  "HandleCMsg env s msg =
     (case msg of
        None \<Rightarrow> Some s
      | Some msg \<Rightarrow> do { (ms, s) \<leftarrow> RouteCMsg env s msg; Some (foldl dispatch_one s ms) })"

definition chs_HandleReq :: "'a env_scheme \<Rightarrow> CHotstuff \<Rightarrow> int \<Rightarrow> bytes \<Rightarrow> BCRequest list \<Rightarrow> CHotstuff option" where
  "chs_HandleReq env s height preHash req =
     (if c_CurPhase s = HS_WAITING then
        if c_ProposalLock s then None
        else do {
          let s = s\<lparr>c_ProposalLock := True\<rparr>;
          let p = nil_Proposal\<lparr>pr_Height := height, pr_PreBlkHash := preHash, Commands := Some []\<rparr>;
          let p = foldl (\<lambda>p r. p\<lparr>Commands := Some (slices (Commands p) @ [rq_Cmd r])\<rparr>) p req;
          let p = p\<lparr>pr_RootHash := Some (HashFromByteSlicesIterative (SM3 env) (slices (Commands p)))\<rparr>;
          let s = s\<lparr>c_CurProposal := p\<rparr>;
          s \<leftarrow> (if c_CurPhase s = HS_WAITING then do {
                  (ret, s) \<leftarrow> chs_GenProposal env s;
                  case ret of
                    None \<Rightarrow> Some s
                  | Some m \<Rightarrow> chs_SendSerMsg (s\<lparr>c_CurRoundMsg := Some m\<rparr>) m
                } else Some s);
          Some (s\<lparr>c_ProposalLock := False\<rparr>)
        }
      else Some s)"

definition RestartChainedHotstuff :: "'a env_scheme \<Rightarrow> CHotstuff \<Rightarrow> (CMsg option \<times> CHotstuff) option" where
  "RestartChainedHotstuff env s =
     (if chs_GetLeaderName s = chs_GetNodeName s then
        if \<not> Proposal_IsEmpty (c_CurProposal s) then do {
          (ret, s) \<leftarrow> chs_GenProposal env s;
          Some (ret, case ret of None \<Rightarrow> s | Some m \<Rightarrow> s\<lparr>c_CurRoundMsg := Some m\<rparr>)
        }
        else Some (None, s\<lparr>c_CurPhase := HS_WAITING\<rparr>)
      else Some (None, s))"

section \<open>Leaders, restart and sync\<close>

definition init_msg :: "'a env_scheme \<Rightarrow> CMsg" where
  "init_msg env =
     (let nodes = Arr4 (empty_node env) nil_HsNode nil_HsNode nil_HsNode
      in nil_CMsg\<lparr>cm_MType := HS_NEW_VIEW, cm_ViewNumber := 0, cm_SendNode := ''r_0'', cm_ReciNode := ''r_0'',
           cm_HsNodes := nodes,
           cm_Justify := nil_ChainedQC\<lparr>cq_QType := HS_NEW_VIEW, cq_ViewNumber := -1, cq_HsNodes := nodes\<rparr>,
           cm_PartialSig := None\<rparr>)"

definition chs_InitLeader :: "'a env_scheme \<Rightarrow> CHotstuff \<Rightarrow> CHotstuff" where
  "chs_InitLeader env s =
     (let s = s\<lparr>c_NewViewMsgs := c_NewViewMsgs s @ replicate (nat (thr2f (NodesNum (c_View s)))) (init_msg env)\<rparr>
      in s\<lparr>c_CurPhase := HS_WAITING\<rparr>)"

definition chs_FixLeader :: "'a env_scheme \<Rightarrow> CHotstuff \<Rightarrow> CHotstuff" where
  "chs_FixLeader env s =
     (let count = thr2f (NodesNum (c_View s)) - int (length (c_NewViewMsgs s)) + 1
      in s\<lparr>c_NewViewMsgs := c_NewViewMsgs s @ replicate (nat count) (init_msg env)\<rparr>)"

definition chs_ClearCurrentRound :: "'a env_scheme \<Rightarrow> CHotstuff \<Rightarrow> CHotstuff" where
  "chs_ClearCurrentRound env s =
     (let s = (if chs_GetNodeName s \<noteq> chs_GetLeaderName s
               then s\<lparr>c_CurProposal := nil_Proposal, c_NewViewMsgs := []\<rparr> else s);
          s = s\<lparr>c_CurRoundMsg := Some nil_CMsg\<rparr>;
          s = s\<lparr>c_BlkStore := GenEmptyBlock env (c_BlkStore s)\<rparr>
      in s\<lparr>c_CurPhase := HS_NEW_VIEW\<rparr>)"

definition chs_NewRound :: "CHotstuff \<Rightarrow> CHotstuff option" where
  "chs_NewRound s = do {
     v \<leftarrow> NextView (c_View s);
     Some (s\<lparr>c_View := v, c_CurRoundMsg := Some nil_CMsg, c_NewViewMsgs := [], GenericVoteMsgs := []\<rparr>)
   }"

definition chs_AddSyncInfo :: "CHotstuff \<Rightarrow> NodeMgmtMsg \<Rightarrow> NodeMgmtMsg" where
  "chs_AddSyncInfo s msg =
     msg\<lparr>nm_ViewNumber := ViewNumber (c_View s), nm_Block := nm_Block msg @ arr4_list (c_Blocks s),
         nm_HsNodes := nm_HsNodes msg @ arr4_list (c_HsNodes s), CJustify := GenericQC s,
         nm_Leader := Leader (c_View s)\<rparr>"

definition CSyncInfo :: "CHotstuff \<Rightarrow> CMsg \<Rightarrow> int \<Rightarrow> CHotstuff option" where
  "CSyncInfo s msg leader = do {
     let s = s\<lparr>c_BlkStore := (c_BlkStore s)\<lparr>CurProposalBlk := cm_Blk msg\<rparr>, GenericQC := cm_Justify msg,
               c_HsNodes := cm_HsNodes msg\<rparr>;
     let s = s\<lparr>c_BlkStore := (c_BlkStore s)\<lparr>bs_Height := pr_Height (c_CurProposal s)\<rparr>\<rparr>;
     let s = s\<lparr>c_BlkStore := StoreBlock (c_BlkStore s) (CurProposalBlk (c_BlkStore s))\<rparr>;
     s \<leftarrow> chs_NewRound s;
     Some (s\<lparr>c_View := UpdateView (c_View s) (cm_ViewNumber msg) leader\<rparr>)
   }"

definition chs_SyncInfo :: "CHotstuff \<Rightarrow> NodeMgmtMsg \<Rightarrow> int \<Rightarrow> CHotstuff option" where
  "chs_SyncInfo s msg leader =
     (case (nm_Block msg, nm_HsNodes msg) of
        ([b0, b1, b2, b3], [h0, h1, h2, h3]) \<Rightarrow> do {
          let s = s\<lparr>c_Blocks := Arr4 b0 b1 b2 b3, c_HsNodes := Arr4 h0 h1 h2 h3, GenericQC := CJustify msg\<rparr>;
          s \<leftarrow> chs_NewRound s;
          Some (s\<lparr>c_View := UpdateView (c_View s) (nm_ViewNumber msg) leader\<rparr>)
        }
      | _ \<Rightarrow> Some s)"

definition chs_UpdateNodesNum :: "CHotstuff \<Rightarrow> int \<Rightarrow> CHotstuff" where
  "chs_UpdateNodesNum s nodeNum = s\<lparr>c_View := (c_View s)\<lparr>NodesNum := nodeNum\<rparr>\<rparr>"

section \<open>The node\<close>

text \<open>
  An expiry is one event: the goroutine of the timer receives the timeout, sets \<open>IsStopped\<close> and calls back
  (timer.go:46 to 52) with nothing in between; \<open>hs_timer_race\<close> in Hs_Safety shows
  what happens in between.
  The operations of the node management (\<open>SyncInfo\<close>, \<open>ClearCurrentRound\<close>, restart, leader and number of nodes)
  are no events of this machine; they are events of the orderer in Ord_Props.
\<close>

datatype chs_event =
    CDeliver int "CMsg option"
  | CRequest int int bytes "BCRequest list"
  | CTimeout
  | CRunSend nat

fun chs_step :: "'a env_scheme \<Rightarrow> CHotstuff \<Rightarrow> chs_event \<Rightarrow> CHotstuff option" where
  "chs_step env s (CDeliver now m) = HandleCMsg (env\<lparr>Clock := now\<rparr>) s m"
| "chs_step env s (CRequest now h ph reqs) = chs_HandleReq (env\<lparr>Clock := now\<rparr>) s h ph reqs"
| "chs_step env s CTimeout =
     (if waiting (c_ViewTimer s) = 0 then Some s
      else do {
        t \<leftarrow> timer_take (c_ViewTimer s);
        t \<leftarrow> timer_mark t;
        s \<leftarrow> chs_StartViewChange env (s\<lparr>c_ViewTimer := t\<rparr>);
        t \<leftarrow> timer_finish (c_ViewTimer s);
        Some (s\<lparr>c_ViewTimer := t\<rparr>)
      })"
| "chs_step env s (CRunSend i) =
     (if i < length (c_Spawned s) \<and> i \<notin> set (c_Ran s)
      then chs_SendSerMsg (s\<lparr>c_Ran := c_Ran s @ [i]\<rparr>) (c_Spawned s ! i) else Some s)"

end
