(* ===== verification/Hs_Chained_Props.thy ===== *)
theory Hs_Chained_Props
  imports Hs_Chained Dcs_Quorum
begin

text \<open>
  Chained HotStuff: the invariant of a replica, handlers that always return, one vote per view, what
  a chain of four proposals commits, and what is not checked.
\<close>

section \<open>The invariant\<close>

definition chs_inv :: "CHotstuff \<Rightarrow> bool" where
  "chs_inv s \<longleftrightarrow> view_ok (c_View s) \<and> 0 \<le> ViewNumber (c_View s) \<and>
     Leader (c_View s) = ViewNumber (c_View s) mod NodesNum (c_View s) \<and>
     timer_ok (c_ViewTimer s) \<and> c_SendChan s \<noteq> None \<and> \<not> c_ProposalLock s \<and> c_ConsId s \<noteq> 0 \<and>
     (ViewNumber (c_View s) = 0 \<longrightarrow> c_CurPhase s \<noteq> HS_WAITING)"

lemma chs_invD:
  assumes "chs_inv s"
  shows "view_ok (c_View s)" "0 \<le> ViewNumber (c_View s)" "timer_ok (c_ViewTimer s)" "c_SendChan s \<noteq> None"
    "\<not> c_ProposalLock s" "c_ConsId s \<noteq> 0" "1 \<le> NodesNum (c_View s)"
    "ViewNumber (c_View s) = 0 \<Longrightarrow> c_CurPhase s \<noteq> HS_WAITING"
    "Leader (c_View s) = ViewNumber (c_View s) mod NodesNum (c_View s)"
  using assms by (simp_all add: chs_inv_def view_ok_def)

lemma chs_IsLeader_iff: "chs_IsLeader s \<longleftrightarrow> Leader (c_View s) = c_ConsId s"
  by (auto simp: chs_IsLeader_def chs_GetNodeName_def LeaderName_def)

lemma leader_not_view0: "chs_inv s \<Longrightarrow> chs_IsLeader s \<Longrightarrow> ViewNumber (c_View s) \<noteq> 0"
  by (auto simp: chs_IsLeader_iff chs_inv_def)

text \<open>The key of a vote that a replica sends in a view it does not lead.\<close>

definition chs_vote_key :: "int \<Rightarrow> int \<Rightarrow> CMsg \<Rightarrow> int option" where
  "chs_vote_key n i m = (if cm_MType m = HS_GENERIC_VOTE \<and> cm_ViewNumber m mod n \<noteq> i
     then Some (cm_ViewNumber m + 1) else None)"

abbreviation own_key :: "CHotstuff \<Rightarrow> CMsg \<Rightarrow> int option" where
  "own_key s \<equiv> chs_vote_key (NodesNum (c_View s)) (c_ConsId s)"

abbreviation c_view :: "CHotstuff \<Rightarrow> int" where
  "c_view s \<equiv> ViewNumber (c_View s)"

definition chs_same :: "CHotstuff \<Rightarrow> CHotstuff \<Rightarrow> bool" where
  "chs_same s s' \<longleftrightarrow> c_ConsId s' = c_ConsId s \<and> c_Signer s' = c_Signer s \<and> c_SendChan s' = c_SendChan s \<and>
     c_ForwardChan s' = c_ForwardChan s \<and> c_Spawned s' = c_Spawned s \<and> c_Ran s' = c_Ran s \<and>
     NodesNum (c_View s') = NodesNum (c_View s)"

lemma chs_same_refl [simp]: "chs_same s s"
  by (simp add: chs_same_def)

text \<open>The contract of a handler.\<close>

definition half_ok :: "CMsg list \<Rightarrow> CHotstuff \<Rightarrow> bool" where
  "half_ok ms s \<longleftrightarrow> (c_CurPhase s = HS_HALF_GENERIC \<longrightarrow> c_CurRoundMsg s \<noteq> None \<or> (\<exists>m\<in>set ms. cm_MType m = HS_GENERIC))"

definition chs_result_ok :: "CHotstuff \<Rightarrow> CMsg list \<Rightarrow> CHotstuff \<Rightarrow> bool" where
  "chs_result_ok s ms s' \<longleftrightarrow> chs_inv s' \<and> chs_same s s' \<and> c_view s \<le> c_view s' \<and> half_ok ms s' \<and>
     votes_between (c_view s) (c_view s') (vote_keys (own_key s) ms)"

definition chs_returns :: "CHotstuff \<Rightarrow> chs_result \<Rightarrow> bool" where
  "chs_returns s r \<longleftrightarrow> (\<exists>ms s'. r = Some (ms, s') \<and> chs_result_ok s ms s')"

lemma chs_returnsI: "chs_result_ok s ms s' \<Longrightarrow> chs_returns s (Some (ms, s'))"
  by (simp add: chs_returns_def)

lemma chs_returns_refl [simp]: "chs_inv s \<Longrightarrow> half_ok [] s \<Longrightarrow> chs_returns s (Some ([], s))"
  by (simp add: chs_returns_def chs_result_ok_def)

lemma chs_stop_ok: "chs_inv s \<Longrightarrow> \<exists>t. chs_stop s = Some (s\<lparr>c_ViewTimer := t\<rparr>) \<and> timer_ok t"
  using Stop_ok [OF chs_invD(3), of s] by (auto simp: chs_stop_def)

lemma chs_start_ok: "timer_ok (c_ViewTimer s) \<Longrightarrow> \<exists>t. chs_start s = Some (s\<lparr>c_ViewTimer := t\<rparr>) \<and> timer_ok t"
  using Start_ok [of "c_ViewTimer s" "Some CAct_StartViewChange" "Some CAct_nothing"] by (auto simp: chs_start_def)

lemma chs_next_view:
  assumes "chs_inv s"
  shows "\<exists>v. NextView (c_View s) = Some v \<and> view_ok v \<and> ViewNumber v = c_view s + 1 \<and> NodesNum v = NodesNum (c_View s) \<and>
    Leader v = ViewNumber v mod NodesNum v"
proof -
  note v = NextView_ok [OF chs_invD(1) [OF assms]]
  have "(Leader (c_View s) + 1) mod NodesNum (c_View s) = (c_view s + 1) mod NodesNum (c_View s)"
    unfolding chs_invD(9) [OF assms] by (simp add: mod_add_left_eq)
  with v NextView_view_ok [OF chs_invD(1) [OF assms] v] show ?thesis by simp
qed

lemma first_max_set: "first_max key xs j \<Longrightarrow> xs ! j \<in> set xs \<and> (\<forall>x\<in>set xs. key x \<le> key (xs ! j))"
  by (auto simp: first_max_def in_set_conv_nth)

lemma GetHighChainedQC_some: "ms \<noteq> [] \<Longrightarrow> \<exists>m. GetHighChainedQC ms = Some m \<and> m \<in> set ms \<and>
    (\<forall>x\<in>set ms. cq_ViewNumber (cm_Justify x) \<le> cq_ViewNumber (cm_Justify m))"
proof (cases ms)
  case (Cons a as)
  let ?j = "max_scan (\<lambda>m. cq_ViewNumber (cm_Justify m)) ms 0 0 (cq_ViewNumber (cm_Justify a))"
  have "first_max (\<lambda>m. cq_ViewNumber (cm_Justify m)) ms ?j"
    using max_scan_head [of "\<lambda>m. cq_ViewNumber (cm_Justify m)" a as] Cons by simp
  from first_max_set [OF this] show ?thesis using Cons by (simp add: GetHighChainedQC_def del: max_scan.simps)
qed simp

section \<open>The handlers return\<close>

lemma UpdateBlock_same [simp]:
  "c_View (UpdateBlock env s b) = c_View s" "c_CurPhase (UpdateBlock env s b) = c_CurPhase s"
  "c_ConsId (UpdateBlock env s b) = c_ConsId s" "c_Signer (UpdateBlock env s b) = c_Signer s"
  "c_SendChan (UpdateBlock env s b) = c_SendChan s" "c_Spawned (UpdateBlock env s b) = c_Spawned s"
  "c_Ran (UpdateBlock env s b) = c_Ran s" "c_ViewTimer (UpdateBlock env s b) = c_ViewTimer s"
  "c_ProposalLock (UpdateBlock env s b) = c_ProposalLock s" "c_CurRoundMsg (UpdateBlock env s b) = c_CurRoundMsg s"
  "c_HsNodes (UpdateBlock env s b) = c_HsNodes s" "c_ForwardChan (UpdateBlock env s b) = c_ForwardChan s"
  by (simp_all add: UpdateBlock_def Let_def)

lemma vote_keys_other [simp]: "cm_MType m \<noteq> HS_GENERIC_VOTE \<Longrightarrow> chs_vote_key n i m = None"
  by (simp add: chs_vote_key_def)

lemma nil_CMsg_sel [simp]: "cm_MType nil_CMsg = HS_NEW_VIEW" "cm_ViewNumber nil_CMsg = 0"
  by (simp_all add: nil_CMsg_def)

lemma GenNewBlock_some: "\<exists>bs. GenNewBlock env b v cmds hs = Some bs"
  using GenNewBlock_returns [of env b v cmds hs] by blast

lemma CHandleNewView_returns:
  assumes inv: "chs_inv s" and half: "half_ok [] s"
  shows "chs_returns s (CHandleNewView env s m)"
proof (cases "c_CurPhase s = HS_NEW_VIEW")
  case False
  with inv half show ?thesis by (simp add: CHandleNewView_def)
next
  case ph: True
  define s1 where "s1 = (if MatchingCMsg m HS_NEW_VIEW (c_view s) then
      (let t = s\<lparr>c_NewViewMsgs := c_NewViewMsgs s @ [m]\<rparr>
       in if cm_SendNode m = node_name ((Leader (c_View s) - 1) mod NodesNum (c_View s)) then t\<lparr>LastLeaderState := True\<rparr> else t)
      else s)"
  have collect: "(if MatchingCMsg m HS_NEW_VIEW (c_view s) then do {
                let s = s\<lparr>c_NewViewMsgs := c_NewViewMsgs s @ [m]\<rparr>;
                l \<leftarrow> GetChainedLastLeader s;
                Some (if cm_SendNode m = l then s\<lparr>LastLeaderState := True\<rparr> else s)
              } else Some s) = Some s1"
    using LastLeaderName_ok [OF chs_invD(1) [OF inv]] by (simp add: s1_def GetChainedLastLeader_def Let_def)
  have i1: "chs_inv s1" "chs_same s s1" "c_View s1 = c_View s" "c_CurPhase s1 = HS_NEW_VIEW"
    using inv ph by (auto simp: s1_def chs_inv_def chs_same_def Let_def)
  have quiet: "chs_returns s (Some ([], t))"
    if "chs_inv t" "chs_same s t" "c_View t = c_View s" "c_CurPhase t \<noteq> HS_HALF_GENERIC" for t
    using that by (simp add: chs_returns_def chs_result_ok_def half_ok_def)
  show ?thesis
  proof (cases "chs_IsLeader s1 \<and> above_thr (NodesNum (c_View s1)) (c_NewViewMsgs s1) \<and> (LastLeaderState s1 \<or> ViewChangeFlag s1)")
    case False
    with ph collect i1 quiet [of s1] show ?thesis by (auto simp: CHandleNewView_def)
  next
    case True
    define s2 where "s2 = s1\<lparr>LastLeaderState := False, ViewChangeFlag := False, c_CurPhase := HS_WAITING\<rparr>"
    have v0: "c_view s1 \<noteq> 0" using leader_not_view0 i1(1) True by blast
    have i2: "chs_inv s2" "chs_same s s2" "c_View s2 = c_View s" "c_CurPhase s2 = HS_WAITING"
      "c_NewViewMsgs s2 = c_NewViewMsgs s1" "\<not> c_ProposalLock s2" "\<not> ViewChangeFlag s2"
      using i1 v0 by (auto simp: s2_def chs_inv_def chs_same_def)
    show ?thesis
    proof (cases "Proposal_IsEmpty (c_CurProposal s2)")
      case True
      then show ?thesis
        using ph collect \<open>chs_IsLeader s1 \<and> _\<close> quiet [OF i2(1-3)] i2
        by (auto simp: CHandleNewView_def s2_def ExistNotExecuteBlock_def Let_def)
    next
      case ne: False
      obtain t where t: "chs_stop s2 = Some (s2\<lparr>c_ViewTimer := t\<rparr>)" "timer_ok t" using chs_stop_ok [OF i2(1)] by blast
      have "c_NewViewMsgs s2 \<noteq> []"
        using True i2(5) above_thr_nonempty chs_invD(7) [OF i1(1)] by metis
      then obtain high where high: "GetHighChainedQC (c_NewViewMsgs s2) = Some high"
        using GetHighChainedQC_some by blast
      obtain bs where bs: "GenNewBlock env (c_BlkStore s2) (c_view s2) (TwoDimByteSlice2StringSlice
          (map (take 128) (slices (Commands (c_CurProposal s2))))) [GeneratedHeight (c_BlkStore s2)] = Some bs"
        using GenNewBlock_some by blast
      show ?thesis
        using ph collect \<open>chs_IsLeader s1 \<and> _\<close> ne i2 t high bs
        by (auto simp: CHandleNewView_def s2_def ExistNotExecuteBlock_def Let_def chs_returns_def chs_result_ok_def
            chs_inv_def chs_same_def half_ok_def)
    qed
  qed
qed

lemma commit_block_same:
  "c_View (commit_block env s m) = c_View s" "c_CurPhase (commit_block env s m) = c_CurPhase s"
  "c_ConsId (commit_block env s m) = c_ConsId s" "c_Signer (commit_block env s m) = c_Signer s"
  "c_SendChan (commit_block env s m) = c_SendChan s" "c_Spawned (commit_block env s m) = c_Spawned s"
  "c_Ran (commit_block env s m) = c_Ran s" "c_ViewTimer (commit_block env s m) = c_ViewTimer s"
  "c_ProposalLock (commit_block env s m) = c_ProposalLock s" "c_CurRoundMsg (commit_block env s m) = c_CurRoundMsg s"
  "c_HsNodes (commit_block env s m) = c_HsNodes s" "c_ForwardChan (commit_block env s m) = c_ForwardChan s"
  by (simp_all add: commit_block_def Let_def)


lemma chs_leader_iff: "chs_inv s \<Longrightarrow> chs_IsLeader s \<longleftrightarrow> c_view s mod NodesNum (c_View s) = c_ConsId s"
  using chs_invD(9) [of s] by (simp add: chs_IsLeader_iff)

text \<open>What a proposal does to the certificates and the last block.\<close>

definition chain_update :: "'a env_scheme \<Rightarrow> CHotstuff \<Rightarrow> CMsg \<Rightarrow> CHotstuff" where
  "chain_update env s msg =
     (if link01 (cm_HsNodes msg) then
        let s = s\<lparr>GenericQC := cm_Justify msg\<rparr>
        in if link12 (cm_HsNodes msg) then
             let s = s\<lparr>c_LockedQC := cm_Justify msg\<rparr>
             in if link23 (cm_HsNodes msg) then commit_block env (s\<lparr>ExecuteState := True\<rparr>) msg
                else s
           else s
      else s)"

lemma chain_update_same:
  "c_View (chain_update env s m) = c_View s" "c_CurPhase (chain_update env s m) = c_CurPhase s"
  "c_ConsId (chain_update env s m) = c_ConsId s" "c_Signer (chain_update env s m) = c_Signer s"
  "c_SendChan (chain_update env s m) = c_SendChan s" "c_Spawned (chain_update env s m) = c_Spawned s"
  "c_Ran (chain_update env s m) = c_Ran s" "c_ViewTimer (chain_update env s m) = c_ViewTimer s"
  "c_ProposalLock (chain_update env s m) = c_ProposalLock s" "c_CurRoundMsg (chain_update env s m) = c_CurRoundMsg s"
  "c_HsNodes (chain_update env s m) = c_HsNodes s" "c_ForwardChan (chain_update env s m) = c_ForwardChan s"
  by (simp_all add: chain_update_def Let_def commit_block_same)

lemma chs_IsLeader_cong: "c_View s = c_View t \<Longrightarrow> c_ConsId s = c_ConsId t \<Longrightarrow> chs_IsLeader s = chs_IsLeader t"
  by (simp add: chs_IsLeader_iff)

lemma CHandleGeneric_returns:
  assumes inv: "chs_inv s" and half: "half_ok [] s"
  shows "chs_returns s (CHandleGeneric env s m)"
proof (cases "cm_ViewNumber m = c_view s \<and> CheckNewCHsNode s m")
  case False
  with inv half show ?thesis by (auto simp: CHandleGeneric_def)
next
  case ok: True
  let ?s0 = "s\<lparr>ViewChangeFlag := False\<rparr>"
  have lead0: "chs_IsLeader ?s0 = chs_IsLeader s" by (simp add: chs_IsLeader_iff)
  obtain s1 where s1: "(if \<not> chs_IsLeader ?s0 then chs_stop (UpdateBlock env ?s0 (cm_Blk m)) else Some ?s0) = Some s1"
    and i1: "chs_inv s1" "chs_same s s1" "c_View s1 = c_View s" "c_CurPhase s1 = c_CurPhase s" "c_CurRoundMsg s1 = c_CurRoundMsg s"
  proof (cases "chs_IsLeader s")
    case True
    have "chs_inv ?s0" "chs_same s ?s0" using inv by (simp_all add: chs_inv_def chs_same_def)
    with True lead0 that [of ?s0] show ?thesis by simp
  next
    case False
    let ?u = "UpdateBlock env ?s0 (cm_Blk m)"
    have u: "chs_inv ?u" using inv by (simp add: chs_inv_def)
    obtain t where t: "chs_stop ?u = Some (?u\<lparr>c_ViewTimer := t\<rparr>)" "timer_ok t" using chs_stop_ok [OF u] by blast
    have "chs_inv (?u\<lparr>c_ViewTimer := t\<rparr>)" "chs_same s (?u\<lparr>c_ViewTimer := t\<rparr>)"
      using u t(2) by (simp_all add: chs_inv_def chs_same_def)
    with False lead0 t that [of "?u\<lparr>c_ViewTimer := t\<rparr>"] show ?thesis by simp
  qed
  let ?s2 = "s1\<lparr>c_HsNodes := cm_HsNodes m\<rparr>"
  have i2: "chs_inv ?s2" "chs_same s ?s2" "half_ok [] ?s2"
    using i1 half by (simp_all add: chs_inv_def chs_same_def half_ok_def)
  note ok' = conjunct1 [OF ok] conjunct2 [OF ok]
  show ?thesis
  proof (cases "ThresholdSign env (c_Signer s1) (ChainedMessage2Byte m)")
    case None
    then show ?thesis using ok' s1 i1 i2
      by (simp add: CHandleGeneric_def chs_returns_def chs_result_ok_def Let_def)
  next
    case (Some sig)
    define s3 where "s3 = (chain_update env ?s2 m)\<lparr>c_NewViewMsgs := []\<rparr>"
    have i3: "chs_inv s3" "chs_same s s3" "half_ok ms s3 = half_ok ms s" "c_View s3 = c_View s" "c_ConsId s3 = c_ConsId s" for ms
      using i1 i2 inv by (simp_all add: s3_def chs_inv_def chs_same_def half_ok_def chain_update_same)
    define vote where "vote = nil_CMsg\<lparr>cm_MType := HS_GENERIC_VOTE, cm_ViewNumber := cm_ViewNumber m,
      cm_ReciNode := GetChainedCurLeader ?s2, cm_HsNodes := cm_HsNodes m, cm_PartialSig := Some sig\<rparr>"
    have half3: "half_ok ms s3" for ms using half i3(3) by (auto simp: half_ok_def)
    have lead3: "chs_IsLeader s3 = chs_IsLeader s" using i3(4,5) by (rule chs_IsLeader_cong)
    show ?thesis
    proof (cases "chs_IsLeader s")
      case True
      have "CHandleGeneric env s m = Some ([vote], s3)"
        using ok' s1 Some lead3 True by (simp add: CHandleGeneric_def Let_def vote_def s3_def chain_update_def)
      moreover have "own_key s vote = None"
        using True chs_leader_iff [OF inv] ok' by (simp add: chs_vote_key_def vote_def)
      ultimately show ?thesis using i3 half3 by (simp add: chs_returns_def chs_result_ok_def)
    next
      case False
      obtain v where v: "NextView (c_View s3) = Some v" "view_ok v" "ViewNumber v = c_view s + 1"
        "NodesNum v = NodesNum (c_View s)" "Leader v = ViewNumber v mod NodesNum v"
        using chs_next_view [OF i3(1)] i3(4) by auto
      define s4 where "s4 = (let t = s3\<lparr>c_View := v\<rparr> in
        if chs_GetNodeName t = chs_GetLeaderName t then t\<lparr>LastLeaderState := False\<rparr> else t)"
      have i4: "chs_inv s4" "chs_same s s4" "half_ok ms s4" "c_View s4 = v" for ms
        using i3 half3 v by (auto simp: s4_def Let_def chs_inv_def chs_same_def half_ok_def)
      obtain t where t: "chs_start s4 = Some (s4\<lparr>c_ViewTimer := t\<rparr>)" "timer_ok t"
        using chs_start_ok chs_invD(3) [OF i4(1)] by blast
      define nv where "nv = nil_CMsg\<lparr>cm_MType := HS_NEW_VIEW, cm_ViewNumber := ViewNumber v,
        cm_HsNodes := c_HsNodes s3, cm_Justify := GenericQC s3, cm_ReciNode := LeaderName v\<rparr>"
      have res: "CHandleGeneric env s m = Some ([vote, nv], s4\<lparr>c_ViewTimer := t\<rparr>)"
        using ok' s1 Some lead3 False v(1) t(1)
        by (simp add: CHandleGeneric_def Let_def vote_def s3_def chain_update_def s4_def nv_def GetChainedCurLeader_def)
      have k: "own_key s vote = Some (c_view s + 1)" "own_key s nv = None"
        using False chs_leader_iff [OF inv] ok' by (simp_all add: chs_vote_key_def vote_def nv_def)
      have "chs_inv (s4\<lparr>c_ViewTimer := t\<rparr>)" "chs_same s (s4\<lparr>c_ViewTimer := t\<rparr>)" "half_ok ms (s4\<lparr>c_ViewTimer := t\<rparr>)" for ms
        using i4 t(2) by (simp_all add: chs_inv_def chs_same_def half_ok_def)
      with res k i4(4) v(3) show ?thesis by (simp add: chs_returns_def chs_result_ok_def)
    qed
  qed
qed

lemma CHandleGenericVote_returns:
  assumes inv: "chs_inv s" and half: "half_ok [] s"
  shows "chs_returns s (CHandleGenericVote env s m)"
proof (cases "c_CurPhase s = HS_HALF_GENERIC")
  case False
  with inv half show ?thesis by (simp add: CHandleGenericVote_def)
next
  case ph: True
  define s1 where "s1 = (if CheckCMsg m HS_GENERIC_VOTE (c_view s) then s\<lparr>GenericVoteMsgs := GenericVoteMsgs s @ [m]\<rparr> else s)"
  have i1: "chs_inv s1" "chs_same s s1" "half_ok [] s1" "c_View s1 = c_View s" "c_CurPhase s1 = HS_HALF_GENERIC"
    "c_CurRoundMsg s1 = c_CurRoundMsg s"
    using inv half ph by (simp_all add: s1_def chs_inv_def chs_same_def half_ok_def)
  show ?thesis
  proof (cases "above_thr (NodesNum (c_View s)) (GenericVoteMsgs s1)")
    case False
    with ph i1 show ?thesis
      by (simp add: CHandleGenericVote_def Let_def chs_returns_def chs_result_ok_def s1_def [symmetric] cong: if_cong)
  next
    case thr: True
    obtain t where t: "chs_stop s1 = Some (s1\<lparr>c_ViewTimer := t\<rparr>)" "timer_ok t" using chs_stop_ok [OF i1(1)] by blast
    obtain cur where cur: "c_CurRoundMsg s = Some cur" using half ph by (auto simp: half_ok_def)
    let ?s2 = "s1\<lparr>c_ViewTimer := t\<rparr>"
    have i2: "chs_inv ?s2" "chs_same s ?s2" "half_ok [] ?s2" using i1 t by (simp_all add: chs_inv_def chs_same_def half_ok_def)
    obtain sig where sig: "chs_CombineSign env ?s2 (GenericVoteMsgs ?s2) = Some sig"
      using cur i1(6) by (simp add: chs_CombineSign_def)
    show ?thesis
    proof (cases sig)
      case None
      with ph thr t sig i2 i1 show ?thesis
        by (simp add: CHandleGenericVote_def Let_def chs_returns_def chs_result_ok_def s1_def [symmetric] cong: if_cong)
    next
      case (Some sg)
      let ?qc = "nil_ChainedQC\<lparr>cq_QType := HS_GENERIC, cq_ViewNumber := cm_ViewNumber m, cq_HsNodes := cm_HsNodes m, cq_Sign := sig\<rparr>"
      obtain v where v: "NextView (c_View s1) = Some v" "view_ok v" "ViewNumber v = c_view s + 1"
        "NodesNum v = NodesNum (c_View s)" "Leader v = ViewNumber v mod NodesNum v"
        using chs_next_view [OF i1(1)] i1(4) by auto
      define s3 where "s3 = ?s2\<lparr>GenericQC := ?qc, c_View := v, c_CurPhase := HS_NEW_VIEW, c_CurProposal := nil_Proposal\<rparr>"
      have i3: "chs_inv s3" "chs_same s s3" "half_ok ms s3" "c_View s3 = v" for ms
        using i2 v chs_invD(2) [OF inv] by (auto simp: s3_def chs_inv_def chs_same_def half_ok_def)
      obtain t' where t': "chs_start s3 = Some (s3\<lparr>c_ViewTimer := t'\<rparr>)" "timer_ok t'"
        using chs_start_ok chs_invD(3) [OF i3(1)] by blast
      have i4: "chs_inv (s3\<lparr>c_ViewTimer := t'\<rparr>)" "chs_same s (s3\<lparr>c_ViewTimer := t'\<rparr>)" "half_ok ms (s3\<lparr>c_ViewTimer := t'\<rparr>)" for ms
        using i3 t' by (simp_all add: chs_inv_def chs_same_def half_ok_def)
      have "\<exists>nv. cm_MType nv = HS_NEW_VIEW \<and> CHandleGenericVote env s m = Some ([nv], s3\<lparr>c_ViewTimer := t'\<rparr>)"
        using ph thr t(1) sig Some v(1) t'(1) i1(4)
        by (simp add: CHandleGenericVote_def Let_def s1_def [symmetric] s3_def cong: if_cong)
      then show ?thesis using i3(4) i4 v(3) by (auto simp: chs_returns_def chs_result_ok_def)
    qed
  qed
qed

lemma RouteCMsg_returns: "chs_inv s \<Longrightarrow> half_ok [] s \<Longrightarrow> chs_returns s (RouteCMsg env s m)"
  unfolding RouteCMsg_def
  by (cases "cm_MType m")
    (simp_all add: CHandleNewView_returns CHandleGeneric_returns CHandleGenericVote_returns)


section \<open>Dispatch\<close>

definition dispatched :: "CHotstuff \<Rightarrow> CMsg list \<Rightarrow> CHotstuff \<Rightarrow> bool" where
  "dispatched s ms t \<longleftrightarrow>
     (\<exists>new. c_Spawned t = c_Spawned s @ new \<and> (\<forall>n i. vote_keys (chs_vote_key n i) new = vote_keys (chs_vote_key n i) ms) \<and>
        (\<forall>m\<in>set ms. m\<lparr>cm_SendNode := chs_GetNodeName s\<rparr> \<in> set new)) \<and>
     c_View t = c_View s \<and> c_CurPhase t = c_CurPhase s \<and> c_ConsId t = c_ConsId s \<and> c_Signer t = c_Signer s \<and>
     c_SendChan t = c_SendChan s \<and> c_ForwardChan t = c_ForwardChan s \<and> c_Ran t = c_Ran s \<and> c_ViewTimer t = c_ViewTimer s \<and>
     c_ProposalLock t = c_ProposalLock s \<and> c_BlkStore t = c_BlkStore s \<and>
     (c_CurRoundMsg t = None \<longrightarrow> c_CurRoundMsg s = None \<and> (\<forall>m\<in>set ms. cm_MType m \<noteq> HS_GENERIC))"

lemma dispatched_refl [simp]: "dispatched s [] s"
  by (simp add: dispatched_def)

lemma chs_vote_key_SendNode [simp]: "chs_vote_key n i (m\<lparr>cm_SendNode := x\<rparr>) = chs_vote_key n i m"
  by (simp add: chs_vote_key_def)

lemma dispatched_one: "dispatched s [m] (dispatch_one s m)"
  by (simp add: dispatched_def dispatch_one_def go_send_def Let_def chs_GetNodeName_def split: option.split)

lemma dispatched_trans:
  assumes "dispatched s ms t" "dispatched t ns u"
  shows "dispatched s (ms @ ns) u"
proof -
  from assms(1) obtain a where a: "c_Spawned t = c_Spawned s @ a"
    "\<And>n i. vote_keys (chs_vote_key n i) a = vote_keys (chs_vote_key n i) ms"
    "\<And>m. m \<in> set ms \<Longrightarrow> m\<lparr>cm_SendNode := chs_GetNodeName s\<rparr> \<in> set a" by (auto simp: dispatched_def)
  from assms(2) obtain b where b: "c_Spawned u = c_Spawned t @ b"
    "\<And>n i. vote_keys (chs_vote_key n i) b = vote_keys (chs_vote_key n i) ns"
    "\<And>m. m \<in> set ns \<Longrightarrow> m\<lparr>cm_SendNode := chs_GetNodeName t\<rparr> \<in> set b" by (auto simp: dispatched_def)
  have nm: "chs_GetNodeName t = chs_GetNodeName s" using assms(1) by (simp add: dispatched_def chs_GetNodeName_def)
  have "c_Spawned u = c_Spawned s @ (a @ b) \<and> (\<forall>n i. vote_keys (chs_vote_key n i) (a @ b) = vote_keys (chs_vote_key n i) (ms @ ns)) \<and>
      (\<forall>m\<in>set (ms @ ns). m\<lparr>cm_SendNode := chs_GetNodeName s\<rparr> \<in> set (a @ b))"
    using a b nm by auto
  moreover have "c_View u = c_View s \<and> c_CurPhase u = c_CurPhase s \<and> c_ConsId u = c_ConsId s \<and> c_Signer u = c_Signer s \<and>
     c_SendChan u = c_SendChan s \<and> c_ForwardChan u = c_ForwardChan s \<and> c_Ran u = c_Ran s \<and> c_ViewTimer u = c_ViewTimer s \<and>
     c_ProposalLock u = c_ProposalLock s \<and> c_BlkStore u = c_BlkStore s"
    using assms by (simp add: dispatched_def)
  moreover have "c_CurRoundMsg u = None \<longrightarrow> c_CurRoundMsg s = None \<and> (\<forall>m\<in>set (ms @ ns). cm_MType m \<noteq> HS_GENERIC)"
    using assms by (auto simp: dispatched_def)
  ultimately show ?thesis unfolding dispatched_def by blast
qed

lemma dispatched_foldl: "dispatched s ms (foldl dispatch_one s ms)"
proof (induction ms rule: rev_induct)
  case (snoc m ms)
  from dispatched_trans [OF snoc dispatched_one] show ?case by simp
qed simp

text \<open>The node's invariant, for a replica with identity \<open>i\<close> of \<open>n\<close>.\<close>

definition node_inv :: "int \<Rightarrow> int \<Rightarrow> CHotstuff \<Rightarrow> bool" where
  "node_inv n i s \<longleftrightarrow> chs_inv s \<and> half_ok [] s \<and> NodesNum (c_View s) = n \<and> c_ConsId s = i"

text \<open>What is on the send channel; a step puts at most one message on it.\<close>

definition chs_sent :: "CHotstuff \<Rightarrow> CMsg list" where
  "chs_sent s = (case c_SendChan s of None \<Rightarrow> [] | Some c \<Rightarrow> map Payload c)"

lemma chs_sent_upd [simp]:
  "chs_sent (s\<lparr>c_View := a1\<rparr>) = chs_sent s" "chs_sent (s\<lparr>c_CurPhase := a2\<rparr>) = chs_sent s"
  "chs_sent (s\<lparr>ViewChangeFlag := a3\<rparr>) = chs_sent s" "chs_sent (s\<lparr>c_ViewChangeSendFlag := a4\<rparr>) = chs_sent s"
  "chs_sent (s\<lparr>c_ForwardChan := a5\<rparr>) = chs_sent s" "chs_sent (s\<lparr>c_ViewTimer := a6\<rparr>) = chs_sent s"
  "chs_sent (s\<lparr>c_ProposalLock := a7\<rparr>) = chs_sent s" "chs_sent (s\<lparr>c_CurRoundMsg := a8\<rparr>) = chs_sent s"
  "chs_sent (s\<lparr>c_CurProposal := a9\<rparr>) = chs_sent s" "chs_sent (s\<lparr>c_Ran := a10\<rparr>) = chs_sent s"
  by (simp_all add: chs_sent_def)

definition step_ok :: "int \<Rightarrow> int \<Rightarrow> CHotstuff \<Rightarrow> CHotstuff \<Rightarrow> bool" where
  "step_ok n i s s' \<longleftrightarrow> node_inv n i s' \<and> c_view s \<le> c_view s' \<and> c_Signer s' = c_Signer s \<and>
     one_more (chs_sent s) (chs_sent s') \<and> (c_ForwardChan s = None \<longrightarrow> c_ForwardChan s' = None) \<and>
     (\<exists>new. c_Spawned s' = c_Spawned s @ new \<and> votes_between (c_view s) (c_view s') (vote_keys (chs_vote_key n i) new))"

lemma step_ok_refl [simp]: "node_inv n i s \<Longrightarrow> step_ok n i s s"
  by (simp add: step_ok_def)

lemma chs_returns_dispatch:
  assumes "chs_returns s r" "node_inv n i s"
  shows "\<exists>s'. do { (ms, s) \<leftarrow> r; Some (foldl dispatch_one s ms) } = Some s' \<and> step_ok n i s s'"
proof -
  from assms(1) obtain ms t where t: "r = Some (ms, t)" "chs_result_ok s ms t" by (auto simp: chs_returns_def)
  let ?u = "foldl dispatch_one t ms"
  have d: "dispatched t ms ?u" by (rule dispatched_foldl)
  then obtain new where new: "c_Spawned ?u = c_Spawned t @ new"
    "vote_keys (chs_vote_key n i) new = vote_keys (chs_vote_key n i) ms" by (auto simp: dispatched_def)
  have ni: "NodesNum (c_View s) = n" "c_ConsId s = i" using assms(2) by (simp_all add: node_inv_def)
  have "node_inv n i ?u"
    using t(2) d ni by (auto simp: node_inv_def chs_result_ok_def dispatched_def chs_inv_def half_ok_def chs_same_def)
  moreover have "c_view s \<le> c_view ?u" "c_Signer ?u = c_Signer s" "c_Spawned t = c_Spawned s" "c_view ?u = c_view t"
    "chs_sent ?u = chs_sent s" "c_ForwardChan ?u = c_ForwardChan s"
    using t(2) d by (simp_all add: chs_result_ok_def dispatched_def chs_same_def chs_sent_def)
  moreover have "votes_between (c_view s) (c_view t) (vote_keys (chs_vote_key n i) new)"
    using t(2) new(2) ni by (simp add: chs_result_ok_def)
  ultimately show ?thesis using t(1) new(1) by (simp add: step_ok_def)
qed

lemma HandleCMsg_ok:
  assumes "node_inv n i s"
  shows "\<exists>s'. HandleCMsg env s m = Some s' \<and> step_ok n i s s'"
proof (cases m)
  case None
  with assms show ?thesis by (simp add: HandleCMsg_def)
next
  case (Some msg)
  have "chs_returns s (RouteCMsg env s msg)" using assms by (simp add: node_inv_def RouteCMsg_returns)
  from chs_returns_dispatch [OF this assms] Some show ?thesis by (simp add: HandleCMsg_def)
qed

section \<open>Requests, view changes and sends\<close>

lemma chs_GenProposal_ok:
  assumes inv: "chs_inv (s\<lparr>c_ProposalLock := False\<rparr>)" and w: "c_CurPhase s = HS_WAITING"
  shows "\<exists>r s'. chs_GenProposal env s = Some (r, s') \<and> chs_inv (s'\<lparr>c_ProposalLock := False\<rparr>) \<and> chs_same s s' \<and>
    c_View s' = c_View s \<and> (r = None \<longrightarrow> s' = s) \<and> (\<forall>m. r = Some m \<longrightarrow> cm_MType m = HS_GENERIC)"
proof (cases "above_thr (NodesNum (c_View s)) (c_NewViewMsgs s)")
  case False
  with inv w show ?thesis by (auto simp: chs_GenProposal_def chs_inv_def)
next
  case True
  have tm: "timer_ok (c_ViewTimer s)" using chs_invD(3) [OF inv] by simp
  obtain t where t: "chs_stop s = Some (s\<lparr>c_ViewTimer := t\<rparr>)" "timer_ok t"
    using Stop_ok [OF tm] by (auto simp: chs_stop_def)
  have "c_NewViewMsgs s \<noteq> []" using True above_thr_nonempty chs_invD(7) [OF inv] by fastforce
  then obtain high where high: "GetHighChainedQC (c_NewViewMsgs s) = Some high" using GetHighChainedQC_some by blast
  obtain bs where bs: "GenNewBlock env (c_BlkStore s) (c_view s) (TwoDimByteSlice2StringSlice
      (map (take 128) (slices (Commands (c_CurProposal s))))) [GeneratedHeight (c_BlkStore s)] = Some bs"
    using GenNewBlock_some by blast
  show ?thesis
    using inv w True t high bs by (auto simp: chs_GenProposal_def Let_def chs_inv_def chs_same_def)
qed

lemma chs_SendSerMsg_ok:
  assumes "c_SendChan s \<noteq> None"
  shows "\<exists>c. chs_SendSerMsg s m = Some (s\<lparr>c_SendChan := Some c\<rparr>) \<and> map Payload c = chs_sent s @ [m]"
  using assms by (auto simp: chs_SendSerMsg_def chs_sent_def)

lemma chs_sent_put [simp]: "chs_sent (s\<lparr>c_SendChan := Some c\<rparr>) = map Payload c"
  by (simp add: chs_sent_def)

lemma chs_HandleReq_ok:
  assumes "node_inv n i s"
  shows "\<exists>s'. chs_HandleReq env s h ph reqs = Some s' \<and> step_ok n i s s'"
proof (cases "c_CurPhase s = HS_WAITING")
  case False
  with assms show ?thesis by (simp add: chs_HandleReq_def)
next
  case w: True
  have inv: "chs_inv s" "\<not> c_ProposalLock s" using assms by (simp_all add: node_inv_def chs_inv_def)
  define p where "p = (foldl (\<lambda>p r. p\<lparr>Commands := Some (slices (Commands p) @ [rq_Cmd r])\<rparr>)
    (nil_Proposal\<lparr>pr_Height := h, pr_PreBlkHash := ph, Commands := Some []\<rparr>) reqs)"
  define s1 where "s1 = s\<lparr>c_ProposalLock := True,
    c_CurProposal := p\<lparr>pr_RootHash := Some (HashFromByteSlicesIterative (SM3 env) (slices (Commands p)))\<rparr>\<rparr>"
  have i1: "chs_inv (s1\<lparr>c_ProposalLock := False\<rparr>)" "c_CurPhase s1 = HS_WAITING"
    using inv w by (simp_all add: s1_def chs_inv_def)
  obtain r s2 where g: "chs_GenProposal env s1 = Some (r, s2)" "chs_inv (s2\<lparr>c_ProposalLock := False\<rparr>)"
    "chs_same s1 s2" "c_View s2 = c_View s1" "r = None \<longrightarrow> s2 = s1" "\<forall>m. r = Some m \<longrightarrow> cm_MType m = HS_GENERIC"
    using chs_GenProposal_ok [OF i1] by blast
  have same: "c_View s1 = c_View s" "c_ConsId s1 = c_ConsId s" "c_Signer s1 = c_Signer s" "c_Spawned s1 = c_Spawned s"
    "c_CurRoundMsg s1 = c_CurRoundMsg s" "c_CurPhase s1 = c_CurPhase s" "chs_sent s1 = chs_sent s"
    "c_ForwardChan s1 = c_ForwardChan s"
    by (simp_all add: s1_def)
  show ?thesis
  proof (cases r)
    case None
    have "chs_HandleReq env s h ph reqs = Some (s1\<lparr>c_ProposalLock := False\<rparr>)"
      using w inv(2) g(1,5) None by (simp add: chs_HandleReq_def Let_def p_def [symmetric] s1_def [symmetric])
    then show ?thesis using i1 same assms w by (simp add: step_ok_def node_inv_def half_ok_def)
  next
    case (Some m)
    obtain c where c: "chs_SendSerMsg (s2\<lparr>c_CurRoundMsg := Some m\<rparr>) m =
        Some (s2\<lparr>c_CurRoundMsg := Some m, c_SendChan := Some c\<rparr>)" "map Payload c = chs_sent s2 @ [m]"
      using chs_SendSerMsg_ok [of "s2\<lparr>c_CurRoundMsg := Some m\<rparr>" m] chs_invD(4) [OF g(2)] by auto
    have "chs_HandleReq env s h ph reqs = Some (s2\<lparr>c_CurRoundMsg := Some m, c_SendChan := Some c, c_ProposalLock := False\<rparr>)"
      using w inv(2) g(1) Some c i1(2) by (simp add: chs_HandleReq_def Let_def p_def [symmetric] s1_def [symmetric])
    moreover have "chs_sent s2 = chs_sent s" using g(3) same by (simp add: chs_same_def chs_sent_def)
    ultimately show ?thesis using g same assms c(2)
      by (simp add: step_ok_def node_inv_def half_ok_def chs_inv_def chs_same_def)
  qed
qed

lemma Start_expiring: "Start t e f = Some t' \<Longrightarrow> expiring t' = expiring t"
  by (auto simp: Start_def send_stop_def split: if_splits nat.splits)

lemma chs_StartViewChange_ok:
  assumes "node_inv n i s"
  shows "\<exists>s'. chs_StartViewChange env s = Some s' \<and> step_ok n i s s' \<and> c_view s' = c_view s + 1 \<and>
    expiring (c_ViewTimer s') = expiring (c_ViewTimer s)"
proof -
  have inv: "chs_inv s" using assms by (simp add: node_inv_def)
  obtain v where v: "NextView (c_View s) = Some v" "view_ok v" "ViewNumber v = c_view s + 1"
    "NodesNum v = NodesNum (c_View s)" "Leader v = ViewNumber v mod NodesNum v"
    using chs_next_view [OF inv] by blast
  define s0 where "s0 = s\<lparr>c_View := v, c_CurPhase := HS_NEW_VIEW, ViewChangeFlag := True\<rparr>"
  define m0 where "m0 = nil_CMsg\<lparr>cm_MType := HS_NEW_VIEW, cm_Justify := GenericQC s0, cm_ViewNumber := ViewNumber (c_View s0),
           cm_SendNode := chs_GetNodeName s0, cm_ReciNode := chs_GetLeaderName s0\<rparr>"
  define m where "m = (case ThresholdSign env (c_Signer s0) (ChainedMessage2Byte m0) of
    Some sign \<Rightarrow> m0\<lparr>cm_PartialSig := Some sign\<rparr> | None \<Rightarrow> m0)"
  define s1 where "s1 = (case c_ForwardChan s0 of None \<Rightarrow> s0
    | Some c \<Rightarrow> s0\<lparr>c_ViewChangeSendFlag := True, c_ForwardChan := Some (c @ [m])\<rparr>)"
  have i1: "step_ok n i s s1" "c_view s1 = c_view s + 1" "c_SendChan s1 \<noteq> None" "timer_ok (c_ViewTimer s1)" "c_ViewTimer s1 = c_ViewTimer s"
    "chs_sent s1 = chs_sent s"
    using assms v chs_invD(2-4) [OF inv]
    by (auto simp: s1_def s0_def step_ok_def node_inv_def chs_inv_def half_ok_def split: option.split)
  obtain c where c: "chs_SendSerMsg s1 m = Some (s1\<lparr>c_SendChan := Some c\<rparr>)" "map Payload c = chs_sent s1 @ [m]"
    using chs_SendSerMsg_ok [OF i1(3)] by blast
  obtain t where t: "chs_start (s1\<lparr>c_SendChan := Some c\<rparr>) = Some (s1\<lparr>c_SendChan := Some c, c_ViewTimer := t\<rparr>)" "timer_ok t"
    using chs_start_ok [of "s1\<lparr>c_SendChan := Some c\<rparr>"] i1(4) by auto
  have "expiring t = expiring (c_ViewTimer s)"
  proof -
    from t(1) obtain y where y: "Start (c_ViewTimer s1) (Some CAct_StartViewChange) (Some CAct_nothing) = Some y"
      "s1\<lparr>c_SendChan := Some c, c_ViewTimer := y\<rparr> = s1\<lparr>c_SendChan := Some c, c_ViewTimer := t\<rparr>"
      by (auto simp: chs_start_def bind_eq_Some_conv)
    from arg_cong [OF y(2), of c_ViewTimer] have "y = t" by simp
    with Start_expiring [OF y(1)] i1(5) show ?thesis by simp
  qed
  moreover have "chs_StartViewChange env s = Some (s1\<lparr>c_SendChan := Some c, c_ViewTimer := t\<rparr>)"
    unfolding chs_StartViewChange_def v(1) bind.bind_lunit Let_def s0_def [symmetric] m0_def [symmetric]
      m_def [symmetric] s1_def [symmetric]
    using c t(1) i1(3) by simp
  moreover have "step_ok n i s (s1\<lparr>c_SendChan := Some c, c_ViewTimer := t\<rparr>)"
    using i1(1,6) t(2) c(2) by (auto simp: step_ok_def node_inv_def chs_inv_def half_ok_def)
  ultimately show ?thesis using i1(2) by simp
qed

lemma node_inv_timer: "node_inv n i s \<Longrightarrow> timer_ok t \<Longrightarrow> node_inv n i (s\<lparr>c_ViewTimer := t\<rparr>)"
  by (simp add: node_inv_def chs_inv_def half_ok_def)

lemma chs_step_ok:
  assumes inv: "node_inv n i s"
  shows "\<exists>s'. chs_step env s e = Some s' \<and> step_ok n i s s'"
proof (cases e)
  case (CDeliver now m)
  with HandleCMsg_ok [OF inv] show ?thesis by simp
next
  case (CRequest now h ph reqs)
  with chs_HandleReq_ok [OF inv] show ?thesis by simp
next
  case CTimeout
  show ?thesis
  proof (cases "waiting (c_ViewTimer s) = 0")
    case True
    with CTimeout inv show ?thesis by simp
  next
    case False
    have "timer_ok (c_ViewTimer s)" using inv by (simp add: node_inv_def chs_invD)
    with False obtain t t' where t: "timer_take (c_ViewTimer s) = Some t" "timer_mark t = Some t'" "timer_ok t'" "0 < expiring t'"
      by (auto simp: timer_take_def timer_mark_def timer_ok_def split: nat.splits if_splits)
    from chs_StartViewChange_ok [OF node_inv_timer [OF inv t(3)]] obtain u where
      u: "chs_StartViewChange env (s\<lparr>c_ViewTimer := t'\<rparr>) = Some u" "step_ok n i (s\<lparr>c_ViewTimer := t'\<rparr>) u"
        "expiring (c_ViewTimer u) = expiring t'" by auto
    have "timer_ok (c_ViewTimer u)" using u(2) by (simp add: step_ok_def node_inv_def chs_invD)
    moreover obtain k where "expiring (c_ViewTimer u) = Suc k" using u(3) t(4) by (cases "expiring t'") auto
    ultimately obtain t2 where t2: "timer_finish (c_ViewTimer u) = Some t2" "timer_ok t2"
      by (auto simp: timer_finish_def timer_ok_def)
    have "step_ok n i s (u\<lparr>c_ViewTimer := t2\<rparr>)" using u(2) t2(2) by (auto simp: step_ok_def node_inv_timer)
    with CTimeout False t u t2 show ?thesis by simp
  qed
next
  case (CRunSend k)
  show ?thesis
  proof (cases "k < length (c_Spawned s) \<and> k \<notin> set (c_Ran s)")
    case True
    have "c_SendChan (s\<lparr>c_Ran := c_Ran s @ [k]\<rparr>) \<noteq> None" using inv by (simp add: node_inv_def chs_inv_def)
    from chs_SendSerMsg_ok [OF this] obtain c where
      "chs_SendSerMsg (s\<lparr>c_Ran := c_Ran s @ [k]\<rparr>) (c_Spawned s ! k) = Some (s\<lparr>c_Ran := c_Ran s @ [k], c_SendChan := Some c\<rparr>)"
      "map Payload c = chs_sent s @ [c_Spawned s ! k]"
      by fastforce
    with True CRunSend inv show ?thesis by (auto simp: step_ok_def node_inv_def chs_inv_def half_ok_def)
  next
    case False
    with CRunSend inv show ?thesis by auto
  qed
qed

interpretation chs: total_machine "chs_step env" "node_inv n i" "\<lambda>_. True" for env n i
proof (unfold_locales, goal_cases)
  case (1 s e s')
  with chs_step_ok [OF 1(1), of env e] show ?case by (simp add: step_ok_def)
next
  case (2 s e)
  with chs_step_ok [of n i s env e] show ?case by blast
qed

interpretation chsv: voting_machine "chs_step env" "node_inv n i" c_view c_Spawned "chs_vote_key n i" for env n i
proof (unfold_locales, goal_cases)
  case (1 s e s')
  with chs_step_ok [OF 1(1), of env e] show ?case by (simp add: step_ok_def)
next
  case (2 s e s')
  with chs_step_ok [OF 2(1), of env e] show ?case by (simp add: step_ok_def)
qed

lemma NewChainedHotstuff_inv:
  assumes "1 \<le> n" "i \<noteq> 0"
  shows "node_inv n i (NewChainedHotstuff env d i n path (Some []) signer)"
  using assms by (simp add: NewChainedHotstuff_def node_inv_def chs_inv_def half_ok_def view_ok_def Let_def)

section \<open>Properties\<close>

text \<open>
  C35 Every event returns: from the constructor, a chained HotStuff node other than node 0 handles every
  sequence of messages (well-formed or not), requests, timeouts and sending goroutines, in any order,
  without a panic, and in the state it is then in any further event returns too, does not lower the
  view number, and puts at most one message on the send channel and none on the forward channel. So
  it does not block either, as long as the send channel (of 128 places) has a free place at each
  event and the timer is not caught between its timeout and the assignment after it (timer.go:46 to
  49): an expiry is one event here. The leader is always the view modulo the number of nodes, and the
  view timer has exactly one goroutine waiting if it runs.
\<close>

theorem chs_never_stuck:
  assumes "1 \<le> n" "i \<noteq> 0"
  shows "\<exists>t. run (chs_step env) (NewChainedHotstuff env d i n path (Some []) signer) es = Some t \<and> 0 \<le> ViewNumber (c_View t) \<and>
    Leader (c_View t) = ViewNumber (c_View t) mod n \<and>
    waiting (c_ViewTimer t) = (if IsStopped (c_ViewTimer t) then 0 else 1) \<and> \<not> c_ProposalLock t \<and>
    (\<forall>e. \<exists>u. chs_step env t e = Some u \<and> ViewNumber (c_View t) \<le> ViewNumber (c_View u) \<and>
       one_more (chs_sent t) (chs_sent u) \<and> c_ForwardChan u = None)"
proof -
  note inv = NewChainedHotstuff_inv [OF assms, of env d path signer]
  from chs.run_returns [OF inv, of es env] obtain t where
    t: "run (chs_step env) (NewChainedHotstuff env d i n path (Some []) signer) es = Some t" by (auto simp: list_all_iff)
  note inv_t = chs.run_inv [OF inv t]
  have "run (chs_step env) s es = Some t \<Longrightarrow> node_inv n i s \<Longrightarrow> c_ForwardChan s = None \<Longrightarrow> c_ForwardChan t = None" for s es
  proof (induction es arbitrary: s)
    case (Cons e es)
    from Cons.prems(1) obtain u where "chs_step env s e = Some u" "run (chs_step env) u es = Some t" by (rule run_ConsE)
    with Cons chs_step_ok [OF Cons.prems(2), of env e] show ?case by (auto simp: step_ok_def)
  qed simp
  from this [OF t inv] have "c_ForwardChan t = None" by (simp add: NewChainedHotstuff_def Let_def)
  then have "\<exists>u. chs_step env t e = Some u \<and> ViewNumber (c_View t) \<le> ViewNumber (c_View u) \<and>
       one_more (chs_sent t) (chs_sent u) \<and> c_ForwardChan u = None" for e
    using chs_step_ok [OF inv_t, of env e] by (auto simp: step_ok_def)
  with inv_t show ?thesis using t by (auto simp: node_inv_def chs_inv_def timer_ok_def)
qed

text \<open>
  C34 At most one vote per view: over every run of messages, requests, timeouts and sending goroutines
  of a node other than node 0, the votes it makes in views it does not lead have strictly climbing
  view numbers, so no view gets two of them. The run holds no operation of the node management:
  \<open>SyncInfo\<close> sets the view to any number, after which the node may vote again.
\<close>

theorem chs_votes_once:
  assumes "1 \<le> n" "i \<noteq> 0"
    and "run (chs_step env) (NewChainedHotstuff env d i n path (Some []) signer) es = Some t"
  shows "sorted_wrt (<) (map cm_ViewNumber (filter (\<lambda>m. cm_MType m = HS_GENERIC_VOTE \<and> cm_ViewNumber m mod n \<noteq> i) (c_Spawned t)))"
proof -
  note inv = NewChainedHotstuff_inv [OF assms(1,2), of env d path signer]
  have "c_Spawned (NewChainedHotstuff env d i n path (Some []) signer) = []" by (simp add: NewChainedHotstuff_def Let_def)
  with chsv.run_out [OF inv assms(3)] have d: "sorted_wrt (<) (vote_keys (chs_vote_key n i) (c_Spawned t))"
    by (auto simp: votes_between_def)
  have "vote_keys (chs_vote_key n i) ms = map (\<lambda>k. k + 1) (map cm_ViewNumber (filter (\<lambda>m. cm_MType m = HS_GENERIC_VOTE \<and> cm_ViewNumber m mod n \<noteq> i) ms))" for ms
    by (induction ms) (auto simp: chs_vote_key_def)
  with d show ?thesis by (simp add: sorted_wrt_map add1_zle_eq del: map_map)
qed


section \<open>What a chain commits\<close>

text \<open>A proposal whose first node extends the second and whose certificate is for its parent.\<close>

definition linked :: "CMsg \<Rightarrow> bool" where
  "linked m \<longleftrightarrow> ParentHash (at0 (cm_HsNodes m)) \<noteq> None \<and> CurHash (at1 (cm_HsNodes m)) \<noteq> None \<and> link01 (cm_HsNodes m) \<and>
     bytes_Equal (CurHash (at0 (cq_HsNodes (cm_Justify m)))) (ParentHash (at0 (cm_HsNodes m)))"

lemma linked_check: "linked m \<Longrightarrow> CheckNewCHsNode s m"
  by (simp add: linked_def CheckNewCHsNode_def chs_SafeNode_def link01_def)

lemma dispatch_blocks: "c_Blocks (dispatch_one s m) = c_Blocks s \<and> c_BlkStore (dispatch_one s m) = c_BlkStore s \<and>
    c_LockedQC (dispatch_one s m) = c_LockedQC s \<and> c_HsNodes (dispatch_one s m) = c_HsNodes s"
  by (simp add: dispatch_one_def go_send_def Let_def)

lemma foldl_dispatch_blocks: "c_Blocks (foldl dispatch_one s ms) = c_Blocks s \<and> c_BlkStore (foldl dispatch_one s ms) = c_BlkStore s \<and>
    c_LockedQC (foldl dispatch_one s ms) = c_LockedQC s \<and> c_HsNodes (foldl dispatch_one s ms) = c_HsNodes s"
  by (induction ms arbitrary: s) (simp_all add: dispatch_blocks)

definition stored_as :: "CHotstuff \<Rightarrow> Block \<Rightarrow> bytes \<Rightarrow> bool" where
  "stored_as s b v \<longleftrightarrow> bs_Files (c_BlkStore s) (block_file (bs_Path (c_BlkStore s) @ ''/'') (bh_Height (BlkHdr b))) =
     Some (b\<lparr>BlkHdr := (BlkHdr b)\<lparr>bh_Validation := v\<rparr>\<rparr>)"

lemma commit_block_blocks:
  "at0 (c_Blocks (commit_block env s m)) = at0 (c_Blocks s)" "at1 (c_Blocks (commit_block env s m)) = at1 (c_Blocks s)"
  "at2 (c_Blocks (commit_block env s m)) = at2 (c_Blocks s)"
  "bs_Path (c_BlkStore (commit_block env s m)) = bs_Path (c_BlkStore s)" "c_LockedQC (commit_block env s m) = c_LockedQC s"
  by (simp_all add: commit_block_def Let_def)

lemma commit_block_stored:
  "\<lbrakk>\<not> Block_IsEmpty (at3 (c_Blocks s)); bytes_Equal (Block_Hash env (at3 (c_Blocks s))) (CurHash (at3 (c_HsNodes s)))\<rbrakk>
     \<Longrightarrow> stored_as (commit_block env s m) (at3 (c_Blocks s)) (cq_Sign (cm_Justify m))"
  by (simp add: commit_block_def Let_def stored_as_def StoreBlock_files)

lemma chain_update_blocks:
  "at0 (c_Blocks (chain_update env s m)) = at0 (c_Blocks s)" "at1 (c_Blocks (chain_update env s m)) = at1 (c_Blocks s)"
  "at2 (c_Blocks (chain_update env s m)) = at2 (c_Blocks s)"
  "bs_Path (c_BlkStore (chain_update env s m)) = bs_Path (c_BlkStore s)"
  "link01 (cm_HsNodes m) \<Longrightarrow> link12 (cm_HsNodes m) \<Longrightarrow> c_LockedQC (chain_update env s m) = cm_Justify m"
  by (simp_all add: chain_update_def Let_def commit_block_blocks)

lemma chain_update_stored:
  "\<lbrakk>link01 (cm_HsNodes m); link12 (cm_HsNodes m); link23 (cm_HsNodes m); \<not> Block_IsEmpty (at3 (c_Blocks s));
    bytes_Equal (Block_Hash env (at3 (c_Blocks s))) (CurHash (at3 (c_HsNodes s)))\<rbrakk>
     \<Longrightarrow> stored_as (chain_update env s m) (at3 (c_Blocks s)) (cq_Sign (cm_Justify m))"
  using commit_block_stored [of "s\<lparr>GenericQC := cm_Justify m, c_LockedQC := cm_Justify m, ExecuteState := True\<rparr>" env m]
  by (simp add: chain_update_def Let_def)

lemma UpdateBlock_blocks:
  "c_Blocks (UpdateBlock env s b) = Arr4 b (at0 (c_Blocks s)) (at1 (c_Blocks s)) (at2 (c_Blocks s))"
  "bs_Path (c_BlkStore (UpdateBlock env s b)) = bs_Path (c_BlkStore s)"
  by (simp_all add: UpdateBlock_def Let_def)

lemma generic_handled:
  assumes inv: "chs_inv s" and view: "cm_ViewNumber m = c_view s" and lead: "\<not> chs_IsLeader s" and chk: "CheckNewCHsNode s m"
    and sig: "ThresholdSign env (c_Signer s) (ChainedMessage2Byte m) = Some sg"
  shows "\<exists>ms s' t. CHandleGeneric env s m = Some (ms, s') \<and>
    (let u = chain_update env ((UpdateBlock env (s\<lparr>ViewChangeFlag := False\<rparr>) (cm_Blk m))\<lparr>c_ViewTimer := t, c_HsNodes := cm_HsNodes m\<rparr>) m
     in c_Blocks s' = c_Blocks u \<and> c_BlkStore s' = c_BlkStore u \<and> c_LockedQC s' = c_LockedQC u) \<and> c_view s' = c_view s + 1"
proof -
  let ?s0 = "s\<lparr>ViewChangeFlag := False\<rparr>"
  let ?u = "UpdateBlock env ?s0 (cm_Blk m)"
  have lead0: "\<not> chs_IsLeader ?s0" using lead by (simp add: chs_IsLeader_iff)
  have u: "chs_inv ?u" using inv by (simp add: chs_inv_def)
  obtain t where t: "chs_stop ?u = Some (?u\<lparr>c_ViewTimer := t\<rparr>)" "timer_ok t" using chs_stop_ok [OF u] by blast
  let ?s2 = "?u\<lparr>c_ViewTimer := t, c_HsNodes := cm_HsNodes m\<rparr>"
  define s3 where "s3 = (chain_update env ?s2 m)\<lparr>c_NewViewMsgs := []\<rparr>"
  have same: "c_View s3 = c_View s" "c_ConsId s3 = c_ConsId s" "timer_ok (c_ViewTimer s3)"
    using t(2) by (simp_all add: s3_def chain_update_same)
  have lead3: "\<not> chs_IsLeader s3" using lead chs_IsLeader_cong [OF same(1,2)] by simp
  obtain v where v: "NextView (c_View s3) = Some v" "ViewNumber v = c_view s + 1"
    using chs_next_view [OF inv] same(1) by auto
  define s4 where "s4 = (let t = s3\<lparr>c_View := v\<rparr> in
    if chs_GetNodeName t = chs_GetLeaderName t then t\<lparr>LastLeaderState := False\<rparr> else t)"
  have s4: "timer_ok (c_ViewTimer s4)" "c_View s4 = v" "c_Blocks s4 = c_Blocks s3" "c_BlkStore s4 = c_BlkStore s3" "c_LockedQC s4 = c_LockedQC s3"
    using same(3) by (simp_all add: s4_def Let_def)
  obtain t' where t': "chs_start s4 = Some (s4\<lparr>c_ViewTimer := t'\<rparr>)" using chs_start_ok [OF s4(1)] by blast
  have "\<exists>ms. CHandleGeneric env s m = Some (ms, s4\<lparr>c_ViewTimer := t'\<rparr>)"
    using view chk lead0 t(1) sig lead3 v(1) t'
    by (simp add: CHandleGeneric_def Let_def s3_def chain_update_def s4_def)
  then show ?thesis using s4 v(2) by (auto simp: s3_def Let_def)
qed

lemma generic_step:
  assumes inv: "node_inv n i s" and view: "cm_MType m = HS_GENERIC" "cm_ViewNumber m = c_view s" "c_view s mod n \<noteq> i"
    and lk: "linked m" and sig: "ThresholdSign env (c_Signer s) (ChainedMessage2Byte m) \<noteq> None"
  shows "\<exists>s'. chs_step env s (CDeliver now (Some m)) = Some s' \<and> node_inv n i s' \<and> c_view s' = c_view s + 1 \<and>
    c_Signer s' = c_Signer s \<and> at0 (c_Blocks s') = cm_Blk m \<and> at1 (c_Blocks s') = at0 (c_Blocks s) \<and>
    at2 (c_Blocks s') = at1 (c_Blocks s) \<and> bs_Path (c_BlkStore s') = bs_Path (c_BlkStore s) \<and>
    (link12 (cm_HsNodes m) \<longrightarrow> c_LockedQC s' = cm_Justify m) \<and>
    (link12 (cm_HsNodes m) \<and> link23 (cm_HsNodes m) \<and> \<not> Block_IsEmpty (at2 (c_Blocks s)) \<and>
       bytes_Equal (Block_Hash env (at2 (c_Blocks s))) (CurHash (at3 (cm_HsNodes m))) \<longrightarrow>
     stored_as s' (at2 (c_Blocks s)) (cq_Sign (cm_Justify m)))"
proof -
  let ?e = "env\<lparr>Clock := now\<rparr>"
  have ci: "chs_inv s" "NodesNum (c_View s) = n" "c_ConsId s = i" using inv by (simp_all add: node_inv_def)
  have lead: "\<not> chs_IsLeader s" using chs_leader_iff [OF ci(1)] view(3) ci by simp
  obtain sg where sg: "ThresholdSign ?e (c_Signer s) (ChainedMessage2Byte m) = Some sg"
    using sig by (auto simp: ThresholdSign_def)
  obtain ms s1 t where h: "CHandleGeneric ?e s m = Some (ms, s1)"
    "let u = chain_update ?e ((UpdateBlock ?e (s\<lparr>ViewChangeFlag := False\<rparr>) (cm_Blk m))\<lparr>c_ViewTimer := t, c_HsNodes := cm_HsNodes m\<rparr>) m
     in c_Blocks s1 = c_Blocks u \<and> c_BlkStore s1 = c_BlkStore u \<and> c_LockedQC s1 = c_LockedQC u" "c_view s1 = c_view s + 1"
    using generic_handled [OF ci(1) view(2) lead linked_check [OF lk] sg] by blast
  let ?s' = "foldl dispatch_one s1 ms"
  have st: "chs_step env s (CDeliver now (Some m)) = Some ?s'" using h(1) view(1) by (simp add: HandleCMsg_def RouteCMsg_def)
  have ok: "step_ok n i s ?s'" using chs_step_ok [OF inv, of env "CDeliver now (Some m)"] st by auto
  have vw: "c_view ?s' = c_view s + 1" using dispatched_foldl [of s1 ms] h(3) by (simp add: dispatched_def)
  have l01: "link01 (cm_HsNodes m)" using lk by (simp add: linked_def)
  let ?u0 = "(UpdateBlock ?e (s\<lparr>ViewChangeFlag := False\<rparr>) (cm_Blk m))\<lparr>c_ViewTimer := t, c_HsNodes := cm_HsNodes m\<rparr>"
  have h2: "c_Blocks s1 = c_Blocks (chain_update ?e ?u0 m)" "c_BlkStore s1 = c_BlkStore (chain_update ?e ?u0 m)"
    "c_LockedQC s1 = c_LockedQC (chain_update ?e ?u0 m)" using h(2) by (simp_all add: Let_def)
  have b0: "c_Blocks ?u0 = Arr4 (cm_Blk m) (at0 (c_Blocks s)) (at1 (c_Blocks s)) (at2 (c_Blocks s))"
    "bs_Path (c_BlkStore ?u0) = bs_Path (c_BlkStore s)" by (simp_all add: UpdateBlock_blocks)
  have "at0 (c_Blocks s1) = cm_Blk m \<and> at1 (c_Blocks s1) = at0 (c_Blocks s) \<and> at2 (c_Blocks s1) = at1 (c_Blocks s) \<and>
    bs_Path (c_BlkStore s1) = bs_Path (c_BlkStore s)"
    unfolding h2 chain_update_blocks b0 by simp
  moreover have "link12 (cm_HsNodes m) \<longrightarrow> c_LockedQC s1 = cm_Justify m"
    unfolding h2 using chain_update_blocks(5) l01 by blast
  moreover have "stored_as s1 (at2 (c_Blocks s)) (cq_Sign (cm_Justify m))"
    if "link12 (cm_HsNodes m)" "link23 (cm_HsNodes m)" "\<not> Block_IsEmpty (at2 (c_Blocks s))"
       "bytes_Equal (Block_Hash env (at2 (c_Blocks s))) (CurHash (at3 (cm_HsNodes m)))"
    using chain_update_stored [OF l01 that(1,2), of ?u0 ?e] that(3,4) h2 b0 by (simp add: stored_as_def)
  ultimately show ?thesis using st ok vw foldl_dispatch_blocks [of s1 ms] by (simp add: step_ok_def stored_as_def)
qed


definition deliveries :: "(nat \<Rightarrow> int) \<Rightarrow> (nat \<Rightarrow> CMsg) \<Rightarrow> chs_event list" where
  "deliveries now m = map (\<lambda>k. CDeliver (now k) (Some (m k))) [0..<4]"

lemma chain_stores:
  assumes inv: "node_inv n i s"
    and m: "\<forall>k<4. cm_MType (m k) = HS_GENERIC \<and> cm_ViewNumber (m k) = c_view s + int k \<and> (c_view s + int k) mod n \<noteq> i \<and>
      linked (m k) \<and> ThresholdSign env (c_Signer s) (ChainedMessage2Byte (m k)) \<noteq> None"
    and nodes: "link12 (cm_HsNodes (m 3))" "link23 (cm_HsNodes (m 3))"
      "bytes_Equal (Block_Hash env (cm_Blk (m 0))) (CurHash (at3 (cm_HsNodes (m 3))))"
    and blk: "\<not> Block_IsEmpty (cm_Blk (m 0))"
  shows "\<exists>t. run (chs_step env) s (deliveries now m) = Some t \<and>
    stored_as t (cm_Blk (m 0)) (cq_Sign (cm_Justify (m 3))) \<and> c_LockedQC t = cm_Justify (m 3) \<and>
    c_view t = c_view s + 4 \<and> node_inv n i t"
proof -
  have mk: "cm_MType (m k) = HS_GENERIC" "cm_ViewNumber (m k) = c_view s + int k" "(c_view s + int k) mod n \<noteq> i"
      "linked (m k)" "ThresholdSign env (c_Signer s) (ChainedMessage2Byte (m k)) \<noteq> None" if "k < 4" for k
    using m that by auto
  obtain a where a: "chs_step env s (CDeliver (now 0) (Some (m 0))) = Some a" "node_inv n i a" "c_view a = c_view s + 1"
    "c_Signer a = c_Signer s" "at0 (c_Blocks a) = cm_Blk (m 0)"
    using generic_step [OF inv, of "m 0" env "now 0"] mk [of 0] by auto
  obtain b where b: "chs_step env a (CDeliver (now 1) (Some (m 1))) = Some b" "node_inv n i b" "c_view b = c_view s + 2"
    "c_Signer b = c_Signer s" "at1 (c_Blocks b) = cm_Blk (m 0)"
    using generic_step [OF a(2), of "m 1" env "now 1"] mk [of 1] a(3-5) by (auto simp: add.assoc)
  obtain c where c: "chs_step env b (CDeliver (now 2) (Some (m 2))) = Some c" "node_inv n i c" "c_view c = c_view s + 3"
    "c_Signer c = c_Signer s" "at2 (c_Blocks c) = cm_Blk (m 0)"
    using generic_step [OF b(2), of "m 2" env "now 2"] mk [of 2] b(3-5) by (auto simp: add.assoc)
  obtain d where d: "chs_step env c (CDeliver (now 3) (Some (m 3))) = Some d" "node_inv n i d" "c_view d = c_view s + 4"
    "c_LockedQC d = cm_Justify (m 3)" "stored_as d (cm_Blk (m 0)) (cq_Sign (cm_Justify (m 3)))"
    using generic_step [OF c(2), of "m 3" env "now 3"] mk [of 3] c(3-5) nodes blk by (auto simp: add.assoc)
  have "run (chs_step env) s (deliveries now m) = Some d"
    using a(1) b(1) c(1) d(1) by (simp add: deliveries_def upt_rec numeral_eq_Suc)
  with d show ?thesis by blast
qed

text \<open>
  C33 The pipeline commits: when a replica receives in four consecutive views, none of which it leads,
  proposals each of whose first node extends the second with a certificate for it, and the fourth
  carries a chain of four nodes the last of which is the node of the first block, then the first
  block is in the file of its height with the signature of the fourth message's certificate as its
  validation, the lock is that certificate, and the replica is four views further.
\<close>

theorem chs_pipeline_commits:
  assumes "node_inv n i s"
    and "\<forall>k<4. cm_MType (m k) = HS_GENERIC \<and> cm_ViewNumber (m k) = c_view s + int k \<and> (c_view s + int k) mod n \<noteq> i \<and>
      linked (m k) \<and> ThresholdSign env (c_Signer s) (ChainedMessage2Byte (m k)) \<noteq> None"
    and "link12 (cm_HsNodes (m 3))" "link23 (cm_HsNodes (m 3))"
      "bytes_Equal (Block_Hash env (cm_Blk (m 0))) (CurHash (at3 (cm_HsNodes (m 3))))"
    and "\<not> Block_IsEmpty (cm_Blk (m 0))"
  shows "\<exists>t. run (chs_step env) s (deliveries now m) = Some t \<and>
    stored_as t (cm_Blk (m 0)) (cq_Sign (cm_Justify (m 3))) \<and> c_LockedQC t = cm_Justify (m 3) \<and> c_view t = c_view s + 4"
  using chain_stores [OF assms] by blast

text \<open>A chain anybody can make up: every node has the hash of the block, every certificate is \<open>v\<close>.\<close>

definition forged :: "'a env_scheme \<Rightarrow> string \<Rightarrow> int \<Rightarrow> Block \<Rightarrow> bytes \<Rightarrow> nat \<Rightarrow> CMsg" where
  "forged env from view b v k =
     (let nd = \<lparr>CurHash = Block_Hash env b, ParentHash = Block_Hash env b\<rparr>; nodes = Arr4 nd nd nd nd
      in nil_CMsg\<lparr>cm_MType := HS_GENERIC, cm_ViewNumber := view + int k, cm_SendNode := from, cm_HsNodes := nodes,
           cm_Blk := b, cm_Justify := nil_ChainedQC\<lparr>cq_HsNodes := nodes, cq_Sign := v\<rparr>\<rparr>)"

text \<open>
  No certificate is verified: for every block that is not empty and every byte string \<open>v\<close> offered
  as the threshold signature, four messages of one sender make a replica store the block with \<open>v\<close>
  as its validation, no vote of any other node being involved.
\<close>

theorem chs_forged_chain:
  assumes "node_inv n i s" "\<forall>k<4. (c_view s + int k) mod n \<noteq> i" "\<not> Block_IsEmpty b"
    and "\<forall>k<4. ThresholdSign env (c_Signer s) (ChainedMessage2Byte (forged env from (c_view s) b v k)) \<noteq> None"
  shows "\<exists>t. run (chs_step env) s (deliveries now (forged env from (c_view s) b v)) = Some t \<and> stored_as t b v"
proof -
  have "linked (forged env from (c_view s) b v k)" for k
    by (simp add: linked_def forged_def link01_def Let_def Block_Hash_def)
  then have "\<exists>t. run (chs_step env) s (deliveries now (forged env from (c_view s) b v)) = Some t \<and>
      stored_as t (cm_Blk (forged env from (c_view s) b v 0)) (cq_Sign (cm_Justify (forged env from (c_view s) b v 3)))"
    using chain_stores [OF assms(1), of "forged env from (c_view s) b v" env now] assms(2-4)
    by (auto simp: forged_def Let_def link12_def link23_def)
  then show ?thesis by (simp add: forged_def Let_def)
qed


section \<open>A concrete replica\<close>

text \<open>Node 4 of 5, which leads none of the first four views.\<close>

definition chs_demo :: CHotstuff where
  "chs_demo = NewChainedHotstuff example_env 5 4 5 [] (Some [])
     \<lparr>PrivateKey = (4, []), PublicKey = [], SignNum = 5, Threshold = 4\<rparr>"

definition demo_block :: Block where
  "demo_block = empty_Block\<lparr>BlkData := (BlkData empty_Block)\<lparr>bd_Trans := [''tx'']\<rparr>\<rparr>"

lemma chs_demo_inv: "node_inv 5 4 chs_demo"
  unfolding chs_demo_def by (rule NewChainedHotstuff_inv) simp_all

lemma chs_demo_view: "c_view chs_demo = 0"
  by (simp add: chs_demo_def NewChainedHotstuff_def Let_def)

lemma example_signs: "ThresholdSign example_env sg m \<noteq> None"
  by (simp add: ThresholdSign_def example_env_def)

lemma demo_block_full: "\<not> Block_IsEmpty demo_block"
  by (simp add: demo_block_def Block_IsEmpty_def)

lemma less_4_cases: "(\<forall>k<4. P (k::nat)) \<longleftrightarrow> P 0 \<and> P 1 \<and> P 2 \<and> P 3"
proof -
  have "{..<4::nat} = {0, 1, 2, 3}" by auto
  then show ?thesis by (metis (no_types, lifting) insert_iff lessThan_iff singletonD)
qed

theorem chs_forged_chain_witness:
  "\<exists>t. run (chs_step example_env) chs_demo (deliveries (\<lambda>_. 7) (forged example_env ''r_9'' 0 demo_block (Some [1, 2]))) = Some t \<and>
     stored_as t demo_block (Some [1, 2])"
  using chs_forged_chain [OF chs_demo_inv _ demo_block_full, of example_env "''r_9''" "Some [1, 2]" "\<lambda>_. 7"]
  by (simp add: chs_demo_view example_signs less_4_cases)

definition demo_chain :: "nat \<Rightarrow> CMsg" where
  "demo_chain k = (let nd = (\<lambda>j. \<lparr>CurHash = (if j = 3 then Block_Hash example_env demo_block else Some [to_byte j]),
         ParentHash = (if j = 4 then Block_Hash example_env demo_block else Some [to_byte (j - 1)])\<rparr>);
       nodes = (\<lambda>j. Arr4 (nd (j + 3)) (nd (j + 2)) (nd (j + 1)) (nd j))
     in nil_CMsg\<lparr>cm_MType := HS_GENERIC, cm_ViewNumber := int k, cm_SendNode := node_name (int k), cm_HsNodes := nodes (int k),
          cm_Blk := demo_block, cm_Justify := nil_ChainedQC\<lparr>cq_HsNodes := nodes (int k - 1), cq_Sign := Some [to_byte (int k)]\<rparr>\<rparr>)"

theorem chs_pipeline_commits_witness:
  "\<exists>t. run (chs_step example_env) chs_demo (deliveries (\<lambda>_. 7) demo_chain) = Some t \<and>
    stored_as t (cm_Blk (demo_chain 0)) (cq_Sign (cm_Justify (demo_chain 3))) \<and> c_LockedQC t = cm_Justify (demo_chain 3) \<and>
    c_view t = c_view chs_demo + 4"
  by (rule chs_pipeline_commits [OF chs_demo_inv])
    (simp_all add: chs_demo_view example_signs less_4_cases demo_block_full demo_chain_def Let_def linked_def link01_def
      link12_def link23_def Block_Hash_def)

theorem chs_never_stuck_witness:
  "\<exists>t. run (chs_step example_env) (NewChainedHotstuff example_env 5 1 4 [] (Some []) \<lparr>PrivateKey = (1, []), PublicKey = [], SignNum = 4, Threshold = 3\<rparr>)
      [CDeliver 0 None, CTimeout, CRequest 0 1 None [], CDeliver 3 (Some nil_CMsg), CRunSend 0] = Some t \<and>
     0 \<le> ViewNumber (c_View t) \<and> Leader (c_View t) = ViewNumber (c_View t) mod 4 \<and>
     waiting (c_ViewTimer t) = (if IsStopped (c_ViewTimer t) then 0 else 1) \<and> \<not> c_ProposalLock t"
proof -
  have "(1::int) \<le> 4" "(1::int) \<noteq> 0" by simp_all
  from chs_never_stuck [OF this] show ?thesis by blast
qed

theorem chs_votes_once_witness:
  "\<exists>t. run (chs_step example_env) chs_demo (deliveries (\<lambda>_. 7) demo_chain) = Some t \<and>
    sorted_wrt (<) (map cm_ViewNumber (filter (\<lambda>m. cm_MType m = HS_GENERIC_VOTE \<and> cm_ViewNumber m mod 5 \<noteq> 4) (c_Spawned t)))"
proof -
  obtain t where t: "run (chs_step example_env) chs_demo (deliveries (\<lambda>_. 7) demo_chain) = Some t"
    using chs.run_returns [OF chs_demo_inv] by (auto simp: list_all_iff)
  from chs_votes_once [OF _ _ t [unfolded chs_demo_def]] t show ?thesis by simp
qed

section \<open>The first leader\<close>

text \<open>
  One proposal stops the first leader: node 0, just initialised as the leader of view 0, handles
  a linked proposal for view 0 from anybody by dropping its new-view messages; its next client
  request then makes it panic, as it looks for the highest certificate in an empty list.
\<close>

theorem chs_leader_crash:
  assumes "cm_MType m = HS_GENERIC" "cm_ViewNumber m = 0" "linked m"
    and "ThresholdSign env signer (ChainedMessage2Byte m) \<noteq> None"
  shows "run (chs_step env) (chs_InitLeader env (NewChainedHotstuff env d 0 n path (Some []) signer))
    [CDeliver now (Some m), CRequest now' h ph reqs] = None"
proof -
  let ?e = "env\<lparr>Clock := now\<rparr>"
  define s where "s = chs_InitLeader env (NewChainedHotstuff env d 0 n path (Some []) signer)"
  have s: "c_view s = 0" "Leader (c_View s) = 0" "c_ConsId s = 0" "c_CurPhase s = HS_WAITING" "c_Signer s = signer"
    "\<not> c_ProposalLock s" "timer_ok (c_ViewTimer s)"
    by (simp_all add: s_def chs_InitLeader_def NewChainedHotstuff_def Let_def)
  obtain sg where sg: "ThresholdSign ?e signer (ChainedMessage2Byte m) = Some sg"
    using assms(4) by (auto simp: ThresholdSign_def)
  define s1 where "s1 = (chain_update ?e (s\<lparr>ViewChangeFlag := False, c_HsNodes := cm_HsNodes m\<rparr>) m)\<lparr>c_NewViewMsgs := []\<rparr>"
  have s1: "c_View s1 = c_View s" "c_CurPhase s1 = HS_WAITING" "\<not> c_ProposalLock s1" "timer_ok (c_ViewTimer s1)"
    "c_NewViewMsgs s1 = []" "c_ConsId s1 = 0"
    using s by (simp_all add: s1_def chain_update_same)
  have lead: "chs_IsLeader (s\<lparr>ViewChangeFlag := False\<rparr>)" "chs_IsLeader s1"
    using s s1 by (simp_all add: chs_IsLeader_iff)
  have "\<exists>ms. CHandleGeneric ?e s m = Some (ms, s1)"
    using assms(2) linked_check [OF assms(3)] lead s(1,5) sg
    by (simp add: CHandleGeneric_def Let_def s1_def chain_update_def)
  then obtain ms where "chs_step env s (CDeliver now (Some m)) = Some (foldl dispatch_one s1 ms)"
    using assms(1) by (auto simp: HandleCMsg_def RouteCMsg_def)
  moreover have "chs_HandleReq e (foldl dispatch_one s1 ms) h ph reqs = None" for e :: "'a env_scheme"
  proof -
    let ?t = "foldl dispatch_one s1 ms"
    have nv: "c_NewViewMsgs (foldl dispatch_one u ms) = c_NewViewMsgs u" for u
      by (induction ms arbitrary: u) (simp_all add: dispatch_one_def go_send_def Let_def)
    have t: "c_View ?t = c_View s" "c_CurPhase ?t = HS_WAITING" "\<not> c_ProposalLock ?t" "timer_ok (c_ViewTimer ?t)" "c_NewViewMsgs ?t = []"
      using dispatched_foldl [of s1 ms] s1 nv [of s1] by (simp_all add: dispatched_def)
    have "chs_GenProposal e (?t\<lparr>c_ProposalLock := True, c_CurProposal := p\<rparr>) = None" for p
      using t s(1) Stop_ok [OF t(4)] by (auto simp: chs_GenProposal_def chs_stop_def GetHighChainedQC_def)
    then show ?thesis using t by (simp add: chs_HandleReq_def Let_def)
  qed
  ultimately show ?thesis by (simp add: s_def)
qed

theorem chs_leader_crash_witness:
  "run (chs_step example_env) (chs_InitLeader example_env (NewChainedHotstuff example_env 5 0 4 [] (Some [])
      \<lparr>PrivateKey = (0, []), PublicKey = [], SignNum = 4, Threshold = 3\<rparr>))
    [CDeliver 1 (Some (demo_chain 0)), CRequest 2 1 None []] = None"
  by (rule chs_leader_crash)
    (simp_all add: demo_chain_def Let_def linked_def link01_def ThresholdSign_def example_env_def to_byte_def)

end
