(* ===== verification/Hs2_Core.thy ===== *)
theory Hs2_Core
  imports Mgmt_Types Dcs_Timer
begin

text \<open>
  HotStuff-2 (orderer/consensus/hotstuff2/core and pacemaker): the state of a replica with its
  pacemaker, every handler and operation, and the node step. A handler returns the message to send
  and the new state; \<open>None\<close> is a panic or a call that blocks for ever.
\<close>

section \<open>The state\<close>

datatype h2_action = HAct_StartViewChange | HAct_Enter | HAct_nothing

record Pacemaker =
  WishSendFlag :: bool
  OptimisticFlag :: bool
  EnterTimer :: "h2_action MyTimer"
  pm_ViewTimer :: "h2_action MyTimer"
  WishMsgs :: "int \<rightharpoonup> H2Msg list"

text \<open>
  The blocks \<open>LockBlk\<close> points to are never shared, so the list holds them by value. \<open>h2_Spawned\<close>
  lists the messages of the goroutines \<open>go hs2.SendSerMsg(...)\<close>, \<open>h2_Ran\<close> the positions of those
  that have run.
\<close>

record Hotstuff2 =
  h2_CurPhase :: h2_StateType
  h2_View :: View
  h2_ConsId :: int
  CurHs2Node :: HsNode
  h2_CurProposal :: h2_Proposal
  h2_ProposalLock :: bool
  ProposalQC :: QuromCert
  h2_PrepareQC :: QuromCert
  LockBlk :: "Block list"
  LockHs2Node :: "HsNode list"
  h2_IgnoreCheckQC :: bool
  h2_CurRoundMsgs :: "H2Msg list"
  h2_LastRoundMsg :: "H2Msg list"
  h2_NewViewMsgs :: "H2Msg list"
  Vote1 :: "H2Msg list"
  Vote2 :: "H2Msg list"
  h2_BlkStore :: BlockStore
  PM :: Pacemaker
  h2_ForwardChan :: "H2Msg list option"
  h2_SendChan :: "H2Msg ServerMsg list option"
  h2_Signer :: tss_Signer
  h2_Spawned :: "H2Msg list"
  h2_Ran :: "nat list"

type_synonym h2_result = "(H2Msg option \<times> Hotstuff2) option"

definition NewHotstuff2 ::
  "int \<Rightarrow> int \<Rightarrow> int \<Rightarrow> int \<Rightarrow> string \<Rightarrow> H2Msg ServerMsg list option \<Rightarrow> tss_Signer \<Rightarrow> Hotstuff2" where
  "NewHotstuff2 enterTD viewTD consId nodeNum path sendChan signer =
     \<lparr>h2_CurPhase = H2_NEW_VIEW, h2_View = \<lparr>ViewNumber = 0, Leader = 0, NodesNum = nodeNum\<rparr>, h2_ConsId = consId,
      CurHs2Node = nil_HsNode, h2_CurProposal = nil_h2_Proposal, h2_ProposalLock = False,
      ProposalQC = nil_QuromCert, h2_PrepareQC = nil_QuromCert, LockBlk = [], LockHs2Node = [],
      h2_IgnoreCheckQC = False, h2_CurRoundMsgs = [], h2_LastRoundMsg = [], h2_NewViewMsgs = [], Vote1 = [], Vote2 = [],
      h2_BlkStore = \<lparr>bs_Height = 0, GeneratedHeight = 0, bs_PreBlkHash = None, CurBlkHash = None,
        CurProposalBlk = empty_Block, bs_Path = path @ [CHR 0x5C] @ ''r_'' @ Itoa consId, bs_Files = (\<lambda>_. None)\<rparr>,
      PM = \<lparr>WishSendFlag = False, OptimisticFlag = False, EnterTimer = NewTimer (enterTD * 1000000),
        pm_ViewTimer = NewTimer (viewTD * 1000000), WishMsgs = (\<lambda>_. None)\<rparr>,
      h2_ForwardChan = None, h2_SendChan = sendChan, h2_Signer = signer, h2_Spawned = [], h2_Ran = []\<rparr>"

definition h2_GetNodeName :: "Hotstuff2 \<Rightarrow> string" where
  "h2_GetNodeName s = ''r_'' @ Itoa (h2_ConsId s)"

definition GetNextLeaderName :: "Hotstuff2 \<Rightarrow> string option" where
  "GetNextLeaderName s = NextLeaderName (h2_View s)"

definition h2_GetLeaderName :: "Hotstuff2 \<Rightarrow> string" where
  "h2_GetLeaderName s = LeaderName (h2_View s)"

definition GetLeaderNum :: "Hotstuff2 \<Rightarrow> int" where
  "GetLeaderNum s = Leader (h2_View s)"

definition h2_IsLeader :: "Hotstuff2 \<Rightarrow> bool" where
  "h2_IsLeader s \<longleftrightarrow> GetLeaderNum s = h2_ConsId s"

definition h2_InitLeader :: "Hotstuff2 \<Rightarrow> Hotstuff2" where
  "h2_InitLeader s = s\<lparr>h2_CurPhase := H2_NEW_PROPOSE\<rparr>"

definition h2_UpdateNodesNum :: "Hotstuff2 \<Rightarrow> int \<Rightarrow> Hotstuff2" where
  "h2_UpdateNodesNum s nodeNum = s\<lparr>h2_View := (h2_View s)\<lparr>NodesNum := nodeNum\<rparr>\<rparr>"

text \<open>As in basic HotStuff, the send channel is a list without the limit of 128 messages.\<close>

definition h2_SendSerMsg :: "Hotstuff2 \<Rightarrow> H2Msg \<Rightarrow> Hotstuff2 option" where
  "h2_SendSerMsg s msg =
     (let serMsg = \<lparr>SType = ORDER, SendServer = h_SendNode msg, ReciServer = h_ReciNode msg, Sign = None, Payload = msg\<rparr>
      in case h2_SendChan s of
           None \<Rightarrow> None
         | Some c \<Rightarrow> Some (s\<lparr>h2_SendChan := Some (c @ [serMsg])\<rparr>))"

text \<open>\<open>go hs2.SendSerMsg(msg)\<close>.\<close>

definition h2_go_send :: "Hotstuff2 \<Rightarrow> H2Msg \<Rightarrow> Hotstuff2" where
  "h2_go_send s msg = s\<lparr>h2_Spawned := h2_Spawned s @ [msg]\<rparr>"

text \<open>The timer calls, with the closures the code always passes.\<close>

definition h2_start_view :: "Hotstuff2 \<Rightarrow> Hotstuff2 option" where
  "h2_start_view s = do {
     t \<leftarrow> Start (pm_ViewTimer (PM s)) (Some HAct_StartViewChange) (Some HAct_nothing);
     Some (s\<lparr>PM := (PM s)\<lparr>pm_ViewTimer := t\<rparr>\<rparr>)
   }"

definition h2_stop_view :: "Hotstuff2 \<Rightarrow> Hotstuff2 option" where
  "h2_stop_view s = do { t \<leftarrow> Stop (pm_ViewTimer (PM s)); Some (s\<lparr>PM := (PM s)\<lparr>pm_ViewTimer := t\<rparr>\<rparr>) }"

definition h2_start_enter :: "Hotstuff2 \<Rightarrow> Hotstuff2 option" where
  "h2_start_enter s = do {
     t \<leftarrow> Start (EnterTimer (PM s)) (Some HAct_Enter) (Some HAct_nothing);
     Some (s\<lparr>PM := (PM s)\<lparr>EnterTimer := t\<rparr>\<rparr>)
   }"

section \<open>Certificates (hotstuff\_2.go)\<close>

definition h2_MatchingQC :: "QuromCert \<Rightarrow> h2_StateType \<Rightarrow> int \<Rightarrow> bool" where
  "h2_MatchingQC qc code curView = (if q2_QType qc = code \<and> q2_ViewNumber qc = curView then True else False)"

definition h2_CheckQC :: "'a env_scheme \<Rightarrow> Hotstuff2 \<Rightarrow> QuromCert \<Rightarrow> h2_StateType \<Rightarrow> int \<Rightarrow> int \<Rightarrow> bool" where
  "h2_CheckQC env s qc code viewNumber height =
     (if \<not> h2_MatchingQC qc code viewNumber then False
      else if q2_Height qc \<noteq> height then False
      else if \<not> ThresholdSignVerify env (h2_Signer s) (H2_QC2SignMsgByte qc) (q2_Sign qc) then False
      else True)"

definition h2_MatchingMsg :: "H2Msg \<Rightarrow> h2_StateType \<Rightarrow> int \<Rightarrow> bool" where
  "h2_MatchingMsg msg code curView \<longleftrightarrow> h_MType msg = code \<and> h_ViewNumber msg = curView"

definition h2_CheckMsg :: "H2Msg \<Rightarrow> h2_StateType \<Rightarrow> int \<Rightarrow> bool" where
  "h2_CheckMsg msg code viewNum =
     (if code = H2_NEW_VIEW then h2_MatchingMsg msg code (viewNum - 1)
      else if code \<in> {H2_PROPOSE, H2_VOTE1, H2_PREPARE, H2_VOTE2} then h2_MatchingMsg msg code viewNum
      else False)"

definition h2_CombineSign :: "'a env_scheme \<Rightarrow> Hotstuff2 \<Rightarrow> H2Msg list \<Rightarrow> H2Msg \<Rightarrow> bytes" where
  "h2_CombineSign env s voteMsgs msgSign =
     CombineSig env (h2_Signer s) (H2_Message2Byte msgSign) (map ConsSign voteMsgs)"

section \<open>Locked blocks and commits\<close>

definition h2_CreateLeaf :: "Hotstuff2 \<Rightarrow> bytes \<Rightarrow> HsNode" where
  "h2_CreateLeaf s parent = \<lparr>CurHash = CurBlkHash (h2_BlkStore s), ParentHash = parent\<rparr>"

definition h2_UpdateConsensus :: "'a env_scheme \<Rightarrow> Hotstuff2 \<Rightarrow> Hotstuff2" where
  "h2_UpdateConsensus env s =
     (let s = s\<lparr>LockHs2Node := LockHs2Node s @ [CurHs2Node s]\<rparr>;
          s = s\<lparr>LockBlk := LockBlk s @ [CurProposalBlk (h2_BlkStore s)]\<rparr>;
          s = s\<lparr>h2_BlkStore := GenEmptyBlock env (h2_BlkStore s)\<rparr>
      in s\<lparr>h2_CurProposal := nil_h2_Proposal, CurHs2Node := nil_HsNode, h2_NewViewMsgs := [], Vote1 := [], Vote2 := []\<rparr>)"

text \<open>The first locked block of the view of \<open>PrepareQC\<close>; \<open>None\<close> is the index -1.\<close>

fun lock_index :: "Block list \<Rightarrow> int \<Rightarrow> nat \<Rightarrow> nat option" where
  "lock_index [] v i = None"
| "lock_index (b # bs) v i = (if bh_ViewNumber (BlkHdr b) = v then Some i else lock_index bs v (Suc i))"

text \<open>
  The loop back along the parent links from index \<open>k\<close>: the start of the range; reading past the end
  of \<open>LockHs2Node\<close> panics.
\<close>

fun chain_start :: "HsNode list \<Rightarrow> nat \<Rightarrow> nat option" where
  "chain_start ns 0 = Some 0"
| "chain_start ns (Suc k) =
     (if Suc k < length ns then
        if bytes_Equal (CurHash (ns ! k)) (ParentHash (ns ! Suc k)) then chain_start ns k else Some (Suc k)
      else None)"

definition GenCommitBlkIndex :: "Hotstuff2 \<Rightarrow> (nat \<times> nat) option option" where
  "GenCommitBlkIndex s =
     (case lock_index (LockBlk s) (q2_ViewNumber (h2_PrepareQC s)) 0 of
        None \<Rightarrow> Some None
      | Some e \<Rightarrow> do { st \<leftarrow> chain_start (LockHs2Node s) e; Some (Some (st, e)) })"

fun put_validation :: "Block list \<Rightarrow> QuromCert \<Rightarrow> Block list" where
  "put_validation [] qc = []"
| "put_validation (b # bs) qc =
     (if bh_ViewNumber (BlkHdr b) = q2_ViewNumber qc
      then b\<lparr>BlkHdr := (BlkHdr b)\<lparr>bh_Validation := q2_Sign qc\<rparr>\<rparr> # bs
      else b # put_validation bs qc)"

definition AddValidation2Blk :: "Hotstuff2 \<Rightarrow> QuromCert \<Rightarrow> Hotstuff2" where
  "AddValidation2Blk s qc = s\<lparr>LockBlk := put_validation (LockBlk s) qc\<rparr>"

text \<open>\<open>xs[n:]\<close> and \<open>xs[:n]\<close>, which panic out of range.\<close>

definition slice_from :: "'b list \<Rightarrow> nat \<Rightarrow> 'b list option" where
  "slice_from xs n = (if n \<le> length xs then Some (drop n xs) else None)"

definition slice_to :: "'b list \<Rightarrow> nat \<Rightarrow> 'b list option" where
  "slice_to xs n = (if n \<le> length xs then Some (take n xs) else None)"

definition cut :: "'b list \<Rightarrow> nat \<Rightarrow> nat \<Rightarrow> 'b list option" where
  "cut xs st e = do { a \<leftarrow> slice_to xs st; b \<leftarrow> slice_from xs (e + 1); Some (a @ b) }"

definition UpdateAfterCommit :: "Hotstuff2 \<Rightarrow> nat \<Rightarrow> nat \<Rightarrow> Hotstuff2 option" where
  "UpdateAfterCommit s st e =
     (let ns = LockHs2Node s; bs = LockBlk s in
      if st = 0 \<and> int e = int (length ns) - 1 then Some (s\<lparr>LockHs2Node := [], LockBlk := []\<rparr>)
      else if st = 0 \<and> e = 0 then Some s
      else if st = 0 then do {
        ns \<leftarrow> slice_from ns (e + 1); bs \<leftarrow> slice_from bs (e + 1); Some (s\<lparr>LockHs2Node := ns, LockBlk := bs\<rparr>)
      }
      else if int e = int (length ns) - 1 then do {
        ns \<leftarrow> slice_to ns st; bs \<leftarrow> slice_to bs st; Some (s\<lparr>LockHs2Node := ns, LockBlk := bs\<rparr>)
      }
      else do { ns \<leftarrow> cut ns st e; bs \<leftarrow> cut bs st e; Some (s\<lparr>LockHs2Node := ns, LockBlk := bs\<rparr>) })"

definition WriteNewH2Block :: "Hotstuff2 \<Rightarrow> (nat \<times> nat) option \<Rightarrow> Hotstuff2 option" where
  "WriteNewH2Block s rg =
     (case rg of
        None \<Rightarrow> Some s
      | Some (st, e) \<Rightarrow> do {
          let s = s\<lparr>h2_BlkStore := foldl StoreBlock (h2_BlkStore s) (map ((!) (LockBlk s)) [st..<e + 1])\<rparr>;
          s \<leftarrow> UpdateAfterCommit s st e;
          Some (s\<lparr>h2_CurProposal := (h2_CurProposal s)\<lparr>p2_PreBlkHash := bs_PreBlkHash (h2_BlkStore s)\<rparr>\<rparr>)
        })"

definition h2_commit :: "Hotstuff2 \<Rightarrow> Hotstuff2 option" where
  "h2_commit s = do { rg \<leftarrow> GenCommitBlkIndex s; WriteNewH2Block s rg }"

section \<open>Entering a view (enter.go)\<close>

definition h2_HandleNewView :: "'a env_scheme \<Rightarrow> Hotstuff2 \<Rightarrow> H2Msg \<Rightarrow> h2_result" where
  "h2_HandleNewView env s msg =
     (if h2_CurPhase s \<noteq> H2_NEW_VIEW \<and> h2_CurPhase s \<noteq> H2_NEW_PROPOSE then Some (None, s)
      else if \<not> h2_CheckQC env s (Justify1 msg) H2_PROPOSE (q2_ViewNumber (Justify1 msg)) (bs_Height (h2_BlkStore s)) then Some (None, s)
      else if \<not> h2_CheckQC env s (Justify2 msg) H2_PREPARE (q2_ViewNumber (Justify2 msg)) (q2_Height (Justify2 msg)) then Some (None, s)
      else if ViewNumber (h2_View s) = h_ViewNumber msg + 1 then Some (None, s\<lparr>h2_NewViewMsgs := h2_NewViewMsgs s @ [msg]\<rparr>)
      else Some (None, s))"

definition HandleOptimisticEnter :: "'a env_scheme \<Rightarrow> Hotstuff2 \<Rightarrow> H2Msg \<Rightarrow> h2_result" where
  "HandleOptimisticEnter env s msg =
     (if h2_ProposalLock s then None
      else if ViewNumber (h2_View s) \<noteq> h_ViewNumber msg \<or> h2_CurPhase s = H2_NEW_PROPOSE then Some (None, s)
      else if \<not> h2_CheckQC env s (Justify2 msg) H2_PREPARE (ViewNumber (h2_View s)) (q2_Height (Justify2 msg)) then Some (None, s)
      else do {
        let s = s\<lparr>PM := (PM s)\<lparr>OptimisticFlag := True\<rparr>\<rparr>;
        let s = h2_UpdateConsensus env s;
        v \<leftarrow> NextView (h2_View s);
        let s = s\<lparr>h2_View := v\<rparr>;
        s \<leftarrow> h2_start_view s;
        if h2_IsLeader s then Some (None, s\<lparr>h2_CurPhase := H2_NEW_PROPOSE\<rparr>)
        else Some (None, s\<lparr>h2_CurPhase := H2_NEW_VIEW, h2_PrepareQC := Justify2 msg\<rparr>)
      })"

text \<open>The message a node sends, or keeps, with its locked certificates.\<close>

definition locked_msg :: "Hotstuff2 \<Rightarrow> H2Msg" where
  "locked_msg s = nil_H2Msg\<lparr>h_MType := H2_NEW_VIEW, h_ReciNode := h2_GetLeaderName s,
     h_ViewNumber := ViewNumber (h2_View s) - 1, Justify1 := ProposalQC s, Justify2 := h2_PrepareQC s\<rparr>"

definition HandleTC :: "'a env_scheme \<Rightarrow> Hotstuff2 \<Rightarrow> H2Msg \<Rightarrow> h2_result" where
  "HandleTC env s msg =
     (let wishMsg = nil_H2Msg\<lparr>h_MType := H2_WISH, h_ViewNumber := h_ViewNumber msg\<rparr> in
      if \<not> ThresholdSignVerify env (h2_Signer s) (H2_Message2Byte wishMsg) (ConsSign msg) then Some (None, s)
      else do {
        v \<leftarrow> catch_up (h2_View s) (h_ViewNumber msg);
        let s = s\<lparr>h2_View := v\<rparr>;
        if h2_IsLeader s then
          if ViewNumber (h2_View s) > h_ViewNumber msg then Some (None, s)
          else do {
            let s = s\<lparr>h2_CurPhase := H2_NEW_VIEW\<rparr>;
            let s = s\<lparr>h2_NewViewMsgs := h2_NewViewMsgs s @ [locked_msg s]\<rparr>;
            s \<leftarrow> h2_start_view s;
            if h2_CurPhase s \<noteq> H2_NEW_PROPOSE then do { s \<leftarrow> h2_start_enter s; Some (None, s) }
            else Some (None, s)
          }
        else do {
          let s = s\<lparr>h2_CurPhase := H2_NEW_PROPOSE\<rparr>;
          s \<leftarrow> h2_start_view s;
          Some (Some (locked_msg s), s)
        }
      })"

text \<open>The action of the enter timer.\<close>

definition enter_expired :: "Hotstuff2 \<Rightarrow> Hotstuff2 option" where
  "enter_expired s =
     (let s = s\<lparr>h2_CurPhase := H2_NEW_PROPOSE\<rparr>;
          m = nil_H2Msg\<lparr>h_MType := H2_NEW_PROPOSE, h_ReciNode := h2_GetNodeName s\<rparr>;
          s = (case h2_ForwardChan s of None \<Rightarrow> s | Some c \<Rightarrow> s\<lparr>h2_ForwardChan := Some (c @ [m])\<rparr>)
      in if h2_SendChan s \<noteq> None then h2_SendSerMsg s m else Some s)"

section \<open>Proposing (prepare.go, propose.go and vote1\_commit.go)\<close>

definition h2_GenProposal :: "'a env_scheme \<Rightarrow> Hotstuff2 \<Rightarrow> H2Msg \<Rightarrow> h2_result" where
  "h2_GenProposal env s msg =
     (if h2_ProposalLock s then None
      else if h2_CurPhase s \<noteq> H2_NEW_PROPOSE then Some (None, s)
      else
        let s = (if OptimisticFlag (PM s) \<and> q2_QType (Justify2 msg) \<noteq> H2_NEW_VIEW \<and>
                    h2_CheckQC env s (Justify2 msg) H2_PREPARE (h_ViewNumber msg) (q2_Height (Justify2 msg))
                 then s\<lparr>h2_PrepareQC := Justify2 msg, PM := (PM s)\<lparr>OptimisticFlag := False\<rparr>\<rparr> else s)
        in if H2_Proposal_IsEmpty (h2_CurProposal s) then Some (None, s)
           else do {
             s \<leftarrow> h2_commit (AddValidation2Blk s (h2_PrepareQC s));
             bs \<leftarrow> GenNewBlock env (h2_BlkStore s) (ViewNumber (h2_View s))
                    (TwoDimByteSlice2StringSlice (slices (Command (h2_CurProposal s)))) [];
             let s = s\<lparr>h2_BlkStore := bs, h2_CurProposal := (h2_CurProposal s)\<lparr>p2_ViewNumber := ViewNumber (h2_View s)\<rparr>\<rparr>;
             let s = s\<lparr>CurHs2Node := h2_CreateLeaf s (CurHash (q2_Hs2Node (ProposalQC s)))\<rparr>;
             Some (Some (nil_H2Msg\<lparr>h_MType := H2_PROPOSE, h_ViewNumber := ViewNumber (h2_View s),
                     h_SendNode := h2_GetNodeName s, h_ReciNode := ''Broadcast'', h_Block := CurProposalBlk (h2_BlkStore s),
                     h_Hs2Node := CurHs2Node s, Justify1 := ProposalQC s, Justify2 := h2_PrepareQC s\<rparr>),
                   s\<lparr>h2_CurPhase := H2_PROPOSE\<rparr>)
           })"

text \<open>
  \<open>GetHighestCertIndex\<close>, which nothing calls: the second maximum is updated from the first
  certificate of the message.
\<close>

fun cert_scan :: "H2Msg list \<Rightarrow> nat \<Rightarrow> nat \<Rightarrow> nat \<Rightarrow> int \<Rightarrow> int \<Rightarrow> nat \<times> nat" where
  "cert_scan [] i j1 j2 m1 m2 = (j1, j2)"
| "cert_scan (m # ms) i j1 j2 m1 m2 =
     (let (j1, m1) = (if q2_ViewNumber (Justify1 m) > m1 then (i, q2_ViewNumber (Justify1 m)) else (j1, m1));
          (j2, m2) = (if q2_ViewNumber (Justify2 m) > m2 then (i, q2_ViewNumber (Justify1 m)) else (j2, m2))
      in cert_scan ms (Suc i) j1 j2 m1 m2)"

definition GetHighestCertIndex :: "H2Msg list \<Rightarrow> (nat \<times> nat) option" where
  "GetHighestCertIndex newViewMsgs =
     (case newViewMsgs of
        [] \<Rightarrow> None
      | m # _ \<Rightarrow> Some (cert_scan newViewMsgs 0 0 0 (q2_ViewNumber (Justify1 m)) (q2_ViewNumber (Justify2 m))))"

text \<open>The two halves of \<open>HandlePropose\<close>: the checks with the commit, and the vote.\<close>

definition propose_cert :: "'a env_scheme \<Rightarrow> Hotstuff2 \<Rightarrow> H2Msg \<Rightarrow> Hotstuff2 option" where
  "propose_cert env s msg =
     (if h2_IsLeader s \<and> h2_GetNodeName s = h_SendNode msg then
        if ViewNumber (h2_View s) \<noteq> 0 \<and> \<not> h2_IgnoreCheckQC s \<and>
           \<not> h2_CheckQC env s (Justify1 msg) H2_PROPOSE (q2_ViewNumber (Justify1 msg)) (bs_Height (h2_BlkStore s) - 1)
        then None else Some s
      else if ViewNumber (h2_View s) \<noteq> 0 \<and> \<not> h2_IgnoreCheckQC s \<and>
              \<not> h2_CheckQC env s (Justify1 msg) H2_PROPOSE (q2_ViewNumber (Justify1 msg)) (bs_Height (h2_BlkStore s))
      then None
      else if q2_ViewNumber (ProposalQC s) < q2_ViewNumber (Justify1 msg) then Some (s\<lparr>ProposalQC := Justify1 msg\<rparr>)
      else Some s)"

definition propose_vote :: "'a env_scheme \<Rightarrow> Hotstuff2 \<Rightarrow> H2Msg \<Rightarrow> H2Msg option \<times> Hotstuff2" where
  "propose_vote env s msg =
     (let s = s\<lparr>h2_IgnoreCheckQC := False, CurHs2Node := h_Hs2Node msg\<rparr>;
          s = s\<lparr>h2_BlkStore := (h2_BlkStore s)\<lparr>CurProposalBlk := h_Block msg\<rparr>\<rparr>;
          s = s\<lparr>h2_BlkStore := (h2_BlkStore s)\<lparr>CurBlkHash := Block_Hash env (CurProposalBlk (h2_BlkStore s))\<rparr>\<rparr>;
          s = (if h_ViewNumber msg > ViewNumber (h2_View s)
               then s\<lparr>h2_View := (h2_View s)\<lparr>ViewNumber := h_ViewNumber msg\<rparr>\<rparr> else s);
          vote1 = nil_H2Msg\<lparr>h_MType := h_MType msg, h_ViewNumber := h_ViewNumber msg, h_Hs2Node := h_Hs2Node msg,
                    h_ReciNode := h_SendNode msg\<rparr>
      in case ThresholdSign env (h2_Signer s) (H2_Message2Byte vote1) of
           None \<Rightarrow> (None, s)
         | Some partSign \<Rightarrow> (Some (vote1\<lparr>ConsSign := Some partSign, h_ReciNode := h_SendNode msg, h_MType := H2_VOTE1\<rparr>),
                             s\<lparr>h2_CurPhase := H2_PROPOSE\<rparr>))"

definition HandlePropose :: "'a env_scheme \<Rightarrow> Hotstuff2 \<Rightarrow> H2Msg \<Rightarrow> h2_result" where
  "HandlePropose env s msg =
     (if h2_CurPhase s = H2_PROPOSE \<and> \<not> h2_IsLeader s then Some (None, s)
      else if ViewNumber (h2_View s) \<noteq> h_ViewNumber msg then Some (None, s)
      else case propose_cert env s msg of
        None \<Rightarrow> Some (None, s)
      | Some s \<Rightarrow>
          if \<not> h2_IsLeader s then
            if ViewNumber (h2_View s) \<noteq> 0 \<and> \<not> h2_IgnoreCheckQC s \<and>
               \<not> h2_CheckQC env s (Justify2 msg) H2_PREPARE (q2_ViewNumber (Justify2 msg)) (q2_Height (Justify2 msg))
            then Some (None, s)
            else do { s \<leftarrow> h2_commit (AddValidation2Blk s (Justify2 msg)); Some (propose_vote env s msg) }
          else Some (propose_vote env s msg))"

section \<open>Votes (prepare.go and vote2.go)\<close>

definition HandleVote1 :: "'a env_scheme \<Rightarrow> Hotstuff2 \<Rightarrow> H2Msg \<Rightarrow> h2_result" where
  "HandleVote1 env s msg =
     (if h_ViewNumber msg \<noteq> ViewNumber (h2_View s) then Some (None, s)
      else
        let s = s\<lparr>Vote1 := Vote1 s @ [msg]\<rparr>
        in if h2_CurPhase s \<noteq> H2_PROPOSE then Some (None, s)
           else if \<not> above_thr (NodesNum (h2_View s)) (Vote1 s) then Some (None, s)
           else
             let proposalQC = \<lparr>q2_QType = H2_PROPOSE, q2_ViewNumber = ViewNumber (h2_View s),
                   q2_Height = bh_Height (BlkHdr (CurProposalBlk (h2_BlkStore s))), q2_Hs2Node = CurHs2Node s, q2_Sign = None\<rparr>;
                 msgSign = nil_H2Msg\<lparr>h_MType := H2_PROPOSE, h_ViewNumber := ViewNumber (h2_View s), h_Hs2Node := CurHs2Node s\<rparr>;
                 proposalQC = proposalQC\<lparr>q2_Sign := h2_CombineSign env s (Vote1 s) msgSign\<rparr>;
                 s = s\<lparr>ProposalQC := proposalQC, h2_CurPhase := H2_PREPARE\<rparr>
             in Some (Some (nil_H2Msg\<lparr>h_MType := H2_PREPARE, h_ViewNumber := ViewNumber (h2_View s), h_Hs2Node := CurHs2Node s,
                        h_ReciNode := ''Broadcast'', Justify1 := proposalQC\<rparr>), s))"

definition h2_HandlePrepare :: "'a env_scheme \<Rightarrow> Hotstuff2 \<Rightarrow> H2Msg \<Rightarrow> h2_result" where
  "h2_HandlePrepare env s msg =
     (if ViewNumber (h2_View s) < h_ViewNumber msg then Some (None, s)
      else if (h2_IsLeader s \<and> h2_CurPhase s \<noteq> H2_PREPARE) \<or> (\<not> h2_IsLeader s \<and> h2_CurPhase s \<noteq> H2_PROPOSE) then Some (None, s)
      else if \<not> h2_CheckQC env s (Justify1 msg) H2_PROPOSE (ViewNumber (h2_View s))
                (bh_Height (BlkHdr (CurProposalBlk (h2_BlkStore s)))) then Some (None, s)
      else
        let vote2 = nil_H2Msg\<lparr>h_MType := h_MType msg, h_ViewNumber := h_ViewNumber msg, h_Hs2Node := h_Hs2Node msg\<rparr>
        in case ThresholdSign env (h2_Signer s) (H2_Message2Byte vote2) of
             None \<Rightarrow> Some (None, s)
           | Some partSign \<Rightarrow> do {
               nl \<leftarrow> GetNextLeaderName s;
               let vote2 = vote2\<lparr>ConsSign := Some partSign, h_ReciNode := nl, h_MType := H2_VOTE2\<rparr>;
               s \<leftarrow> h2_stop_view s;
               Some (Some vote2, s\<lparr>ProposalQC := Justify1 msg, h2_CurPhase := H2_PREPARE\<rparr>)
             })"

definition HandleVote2 :: "'a env_scheme \<Rightarrow> Hotstuff2 \<Rightarrow> H2Msg \<Rightarrow> h2_result" where
  "HandleVote2 env s msg =
     (if h_ViewNumber msg < ViewNumber (h2_View s) then Some (None, s)
      else
        let s = s\<lparr>Vote2 := Vote2 s @ [msg]\<rparr>
        in if h2_CurPhase s \<noteq> H2_PREPARE then Some (None, s)
           else if \<not> above_thr (NodesNum (h2_View s)) (Vote2 s) then Some (None, s)
           else
             let prepareQC = \<lparr>q2_QType = H2_PREPARE, q2_ViewNumber = ViewNumber (h2_View s),
                   q2_Height = bh_Height (BlkHdr (CurProposalBlk (h2_BlkStore s))), q2_Hs2Node = CurHs2Node s, q2_Sign = None\<rparr>;
                 msgSign = nil_H2Msg\<lparr>h_MType := H2_PREPARE, h_ViewNumber := ViewNumber (h2_View s), h_Hs2Node := CurHs2Node s\<rparr>
             in case h2_CombineSign env s (Vote2 s) msgSign of
                  None \<Rightarrow> Some (None, s)
                | Some prepareSign \<Rightarrow>
                    let prepareQC = prepareQC\<lparr>q2_Sign := Some prepareSign\<rparr>;
                        s = s\<lparr>h2_PrepareQC := prepareQC, h2_CurPhase := H2_NEW_VIEW\<rparr>
                    in Some (Some (nil_H2Msg\<lparr>h_MType := H2_ENTER, h_ViewNumber := ViewNumber (h2_View s),
                              h_ReciNode := ''Broadcast'', Justify2 := prepareQC\<rparr>), s))"

definition h2_NewRound :: "Hotstuff2 \<Rightarrow> Hotstuff2 option" where
  "h2_NewRound s = do {
     v \<leftarrow> NextView (h2_View s);
     let s = s\<lparr>h2_View := v\<rparr>;
     let s = s\<lparr>h2_LastRoundMsg := h2_CurRoundMsgs s\<rparr>;
     Some (s\<lparr>h2_CurRoundMsgs := [], h2_NewViewMsgs := [], Vote1 := [], Vote2 := []\<rparr>)
   }"

section \<open>The pacemaker (view\_change.go)\<close>

definition h2_StartViewChange :: "'a env_scheme \<Rightarrow> Hotstuff2 \<Rightarrow> Hotstuff2 option" where
  "h2_StartViewChange env s = do {
     nl \<leftarrow> GetNextLeaderName s;
     let m = nil_H2Msg\<lparr>h_MType := H2_WISH, h_ViewNumber := ViewNumber (h2_View s) + 1, h_SendNode := h2_GetNodeName s,
               h_ReciNode := nl\<rparr>;
     let m = (case ThresholdSign env (h2_Signer s) (H2_Message2Byte m) of
                Some sign \<Rightarrow> m\<lparr>ConsSign := Some sign\<rparr> | None \<Rightarrow> m);
     let s = s\<lparr>PM := (PM s)\<lparr>WishSendFlag := True\<rparr>\<rparr>;
     let s = (case h2_ForwardChan s of None \<Rightarrow> s | Some c \<Rightarrow> s\<lparr>h2_ForwardChan := Some (c @ [m])\<rparr>);
     if h2_SendChan s \<noteq> None then h2_SendSerMsg s m else Some s
   }"

definition wishes :: "Hotstuff2 \<Rightarrow> int \<Rightarrow> H2Msg list" where
  "wishes s v = (case WishMsgs (PM s) v of None \<Rightarrow> [] | Some ms \<Rightarrow> ms)"

definition HandleWish :: "'a env_scheme \<Rightarrow> Hotstuff2 \<Rightarrow> H2Msg \<Rightarrow> h2_result" where
  "HandleWish env s msg =
     (let v = h_ViewNumber msg;
          s = s\<lparr>PM := (PM s)\<lparr>WishMsgs := (WishMsgs (PM s))(v \<mapsto> wishes s v @ [msg])\<rparr>\<rparr>
      in if int (length (wishes s v)) \<noteq> thr2f (NodesNum (h2_View s)) + 1 then Some (None, s)
         else
           let wishSign = h2_CombineSign env s (wishes s v) (nil_H2Msg\<lparr>h_MType := H2_WISH, h_ViewNumber := v\<rparr>)
           in Some (Some (nil_H2Msg\<lparr>h_MType := H2_TCMSG, h_ViewNumber := v, h_ReciNode := ''Broadcast'', ConsSign := wishSign\<rparr>),
                    s\<lparr>PM := (PM s)\<lparr>WishMsgs := (WishMsgs (PM s))(v := None)\<rparr>\<rparr>))"

section \<open>Dispatch, requests, restart and sync (hotstuff\_2.go)\<close>

definition RouteH2Msg :: "'a env_scheme \<Rightarrow> Hotstuff2 \<Rightarrow> H2Msg \<Rightarrow> h2_result" where
  "RouteH2Msg env s msg =
     (case h_MType msg of
        H2_NEW_VIEW \<Rightarrow> h2_HandleNewView env s msg
      | H2_NEW_PROPOSE \<Rightarrow> h2_GenProposal env s msg
      | H2_PROPOSE \<Rightarrow> HandlePropose env s msg
      | H2_VOTE1 \<Rightarrow> HandleVote1 env s msg
      | H2_PREPARE \<Rightarrow> h2_HandlePrepare env s msg
      | H2_VOTE2 \<Rightarrow> HandleVote2 env s msg
      | H2_WISH \<Rightarrow> HandleWish env s msg
      | H2_TCMSG \<Rightarrow> HandleTC env s msg
      | H2_ENTER \<Rightarrow> HandleOptimisticEnter env s msg
      | H2_other _ \<Rightarrow> Some (None, s))"

text \<open>Errors of the JSON decoder are ignored; \<open>msg\<close> is what it leaves.\<close>

definition HandleH2Msg :: "'a env_scheme \<Rightarrow> Hotstuff2 \<Rightarrow> H2Msg \<Rightarrow> Hotstuff2 option" where
  "HandleH2Msg env s msg = do {
     (ret, s) \<leftarrow> RouteH2Msg env s msg;
     case ret of
       None \<Rightarrow> Some s
     | Some m \<Rightarrow> do {
         let m = m\<lparr>h_SendNode := h2_GetNodeName s\<rparr>;
         let s = s\<lparr>h2_CurRoundMsgs := h2_CurRoundMsgs s @ [m]\<rparr>;
         let s = (if h_MType m = H2_ENTER
                  then h2_go_send s (nil_H2Msg\<lparr>h_ViewNumber := ViewNumber (h2_View s) - 1, h_SendNode := h2_GetNodeName s,
                         h_ReciNode := ''Client''\<rparr>)
                  else s);
         h2_SendSerMsg s m
       }
   }"

definition h2_HandleReq :: "'a env_scheme \<Rightarrow> Hotstuff2 \<Rightarrow> int \<Rightarrow> bytes \<Rightarrow> BCRequest list \<Rightarrow> Hotstuff2 option" where
  "h2_HandleReq env s height preHash req =
     (let p = nil_h2_Proposal\<lparr>p2_Height := height, p2_PreBlkHash := preHash, Command := Some (map rq_Cmd req)\<rparr>;
          p = p\<lparr>p2_RootHash := Some (HashFromByteSlicesIterative (SM3 env) (slices (Command p)))\<rparr>;
          s = s\<lparr>h2_CurProposal := p\<rparr>
      in if h2_CurPhase s = H2_NEW_PROPOSE then do {
           (ret, s) \<leftarrow> h2_GenProposal env s (nil_H2Msg\<lparr>h_MType := H2_NEW_PROPOSE, h_SendNode := h2_GetNodeName s\<rparr>);
           case ret of
             None \<Rightarrow> Some s
           | Some m \<Rightarrow> h2_SendSerMsg (s\<lparr>h2_CurPhase := H2_PROPOSE\<rparr>) m
         }
         else Some s)"

definition RestartHotstuff2 :: "'a env_scheme \<Rightarrow> Hotstuff2 \<Rightarrow> h2_result" where
  "RestartHotstuff2 env s =
     (if h2_GetLeaderName s = h2_GetNodeName s then
        if \<not> H2_Proposal_IsEmpty (h2_CurProposal s) then do {
          (ret, s) \<leftarrow> h2_GenProposal env s (nil_H2Msg\<lparr>h_MType := H2_NEW_PROPOSE\<rparr>);
          Some (ret, case ret of None \<Rightarrow> s | Some m \<Rightarrow> s\<lparr>h2_CurRoundMsgs := h2_CurRoundMsgs s @ [m]\<rparr>)
        }
        else Some (None, s)
      else Some (None, s))"

definition h2_AddSyncInfo :: "Hotstuff2 \<Rightarrow> NodeMgmtMsg \<Rightarrow> NodeMgmtMsg" where
  "h2_AddSyncInfo s msg =
     msg\<lparr>nm_ViewNumber := ViewNumber (h2_View s), nm_Block := nm_Block msg @ LockBlk s,
         nm_HsNodes := nm_HsNodes msg @ [CurHs2Node s] @ LockHs2Node s, H2Justify := h2_PrepareQC s,
         nm_Leader := Leader (h2_View s)\<rparr>"

definition h2_SyncInfo :: "Hotstuff2 \<Rightarrow> NodeMgmtMsg \<Rightarrow> int \<Rightarrow> Hotstuff2 option" where
  "h2_SyncInfo s msg leader =
     (if length (nm_Block msg) = 0 \<or> length (nm_HsNodes msg) = 0 then Some s
      else do {
        let s = s\<lparr>LockBlk := LockBlk s @ nm_Block msg, h2_PrepareQC := H2Justify msg, LockHs2Node := nm_HsNodes msg\<rparr>;
        let s = s\<lparr>h2_BlkStore := (h2_BlkStore s)\<lparr>bs_Height := bh_Height (BlkHdr (last (LockBlk s)))\<rparr>,
                  h2_IgnoreCheckQC := True\<rparr>;
        s \<leftarrow> h2_NewRound s;
        Some (s\<lparr>h2_View := UpdateView (h2_View s) (nm_ViewNumber msg) leader\<rparr>)
      })"

section \<open>The node\<close>

text \<open>
  An expiry is one event: the goroutine of the timer receives the timeout, sets \<open>IsStopped\<close> and calls back
  (timer.go:46 to 52) with nothing in between; \<open>hs_timer_race\<close> in Hs_Safety shows
  what happens in between.
  The operations of the node management (\<open>SyncInfo\<close>, restart, leader and number of nodes)
  are no events of this machine; they are events of the orderer in Ord_Props.
\<close>

datatype h2_event =
    HDeliver int H2Msg
  | HRequest int int bytes "BCRequest list"
  | HViewTimeout
  | HEnterTimeout
  | HRunSend nat

text \<open>An expiring timer: the timeout, the action, the doubled duration.\<close>

fun h2_step :: "'a env_scheme \<Rightarrow> Hotstuff2 \<Rightarrow> h2_event \<Rightarrow> Hotstuff2 option" where
  "h2_step env s (HDeliver now m) = HandleH2Msg (env\<lparr>Clock := now\<rparr>) s m"
| "h2_step env s (HRequest now h ph reqs) = h2_HandleReq (env\<lparr>Clock := now\<rparr>) s h ph reqs"
| "h2_step env s HViewTimeout =
     (if waiting (pm_ViewTimer (PM s)) = 0 then Some s
      else do {
        t \<leftarrow> timer_take (pm_ViewTimer (PM s));
        t \<leftarrow> timer_mark t;
        s \<leftarrow> h2_StartViewChange env (s\<lparr>PM := (PM s)\<lparr>pm_ViewTimer := t\<rparr>\<rparr>);
        t \<leftarrow> timer_finish (pm_ViewTimer (PM s));
        Some (s\<lparr>PM := (PM s)\<lparr>pm_ViewTimer := t\<rparr>\<rparr>)
      })"
| "h2_step env s HEnterTimeout =
     (if waiting (EnterTimer (PM s)) = 0 then Some s
      else do {
        t \<leftarrow> timer_take (EnterTimer (PM s));
        t \<leftarrow> timer_mark t;
        s \<leftarrow> enter_expired (s\<lparr>PM := (PM s)\<lparr>EnterTimer := t\<rparr>\<rparr>);
        t \<leftarrow> timer_finish (EnterTimer (PM s));
        Some (s\<lparr>PM := (PM s)\<lparr>EnterTimer := t\<rparr>\<rparr>)
      })"
| "h2_step env s (HRunSend i) =
     (if i < length (h2_Spawned s) \<and> i \<notin> set (h2_Ran s)
      then h2_SendSerMsg (s\<lparr>h2_Ran := h2_Ran s @ [i]\<rparr>) (h2_Spawned s ! i) else Some s)"

section \<open>Grouping (enter.go)\<close>

text \<open>\<open>GroupByViewNumber\<close> fills a local map that nothing reads; here it is the result.\<close>

definition GroupByViewNumber :: "H2Msg list \<Rightarrow> int \<rightharpoonup> H2Msg list" where
  "GroupByViewNumber msgs = foldl (\<lambda>groups m. groups(h_ViewNumber m \<mapsto>
     (case groups (h_ViewNumber m) of None \<Rightarrow> [] | Some ms \<Rightarrow> ms) @ [m])) (\<lambda>_. None) msgs"

lemma GroupByViewNumber_filter:
  "GroupByViewNumber msgs v = (let ms = filter (\<lambda>m. h_ViewNumber m = v) msgs in if ms = [] then None else Some ms)"
  by (induction msgs rule: rev_induct) (auto simp: GroupByViewNumber_def Let_def)

end
