(* ===== verification/Hs2_Props.thy ===== *)
theory Hs2_Props
  imports Hs2_Core Dcs_Quorum
begin

text \<open>
  HotStuff-2: the invariant of a replica and of its pacemaker, handlers and steps that always return,
  and what every stored block went through.
\<close>

section \<open>The invariant\<close>

abbreviation h2_view :: "Hotstuff2 \<Rightarrow> int" where
  "h2_view s \<equiv> ViewNumber (h2_View s)"

definition h2_inv :: "Hotstuff2 \<Rightarrow> bool" where
  "h2_inv s \<longleftrightarrow> view_ok (h2_View s) \<and> Leader (h2_View s) = h2_view s mod NodesNum (h2_View s) \<and>
     timer_ok (pm_ViewTimer (PM s)) \<and> timer_ok (EnterTimer (PM s)) \<and> h2_SendChan s \<noteq> None \<and>
     \<not> h2_ProposalLock s \<and> length (LockBlk s) = length (LockHs2Node s)"

lemma h2_invD:
  assumes "h2_inv s"
  shows "view_ok (h2_View s)" "Leader (h2_View s) = h2_view s mod NodesNum (h2_View s)"
    "timer_ok (pm_ViewTimer (PM s))" "timer_ok (EnterTimer (PM s))" "h2_SendChan s \<noteq> None" "\<not> h2_ProposalLock s"
    "length (LockBlk s) = length (LockHs2Node s)" "1 \<le> NodesNum (h2_View s)"
  using assms by (simp_all add: h2_inv_def view_ok_def)

text \<open>
  The blocks and files a handler leaves: every one was there before, or is a locked block, or is the
  block that an ENTER message locks. Validations are left out of the comparison.
\<close>

definition bare :: "Block \<Rightarrow> Block" where
  "bare b = b\<lparr>BlkHdr := (BlkHdr b)\<lparr>bh_Validation := None\<rparr>\<rparr>"

lemma bare_validated [simp]: "bare (b\<lparr>BlkHdr := (BlkHdr b)\<lparr>bh_Validation := v\<rparr>\<rparr>) = bare b"
  by (simp add: bare_def)

definition h2_kept :: "Hotstuff2 \<Rightarrow> Block set" where
  "h2_kept s = bare ` (set (LockBlk s) \<union> Map.ran (bs_Files (h2_BlkStore s)))"

definition h2_local :: "Hotstuff2 \<Rightarrow> Hotstuff2 \<Rightarrow> bool" where
  "h2_local s s' \<longleftrightarrow> h2_ConsId s' = h2_ConsId s \<and> h2_Signer s' = h2_Signer s \<and>
     NodesNum (h2_View s') = NodesNum (h2_View s) \<and> h2_view s \<le> h2_view s' \<and>
     bs_Path (h2_BlkStore s') = bs_Path (h2_BlkStore s)"

text \<open>The handlers of messages leave the two channels alone; the node sends what they return.\<close>

definition h2_same :: "Hotstuff2 \<Rightarrow> Hotstuff2 \<Rightarrow> bool" where
  "h2_same s s' \<longleftrightarrow> h2_ConsId s' = h2_ConsId s \<and> h2_Signer s' = h2_Signer s \<and>
     NodesNum (h2_View s') = NodesNum (h2_View s) \<and> h2_view s \<le> h2_view s' \<and>
     bs_Path (h2_BlkStore s') = bs_Path (h2_BlkStore s) \<and> h2_SendChan s' = h2_SendChan s \<and>
     h2_ForwardChan s' = h2_ForwardChan s"

lemma h2_same_node: "h2_same s s' \<Longrightarrow> h2_local s s'"
  by (simp add: h2_same_def h2_local_def)

lemma h2_local_refl [simp]: "h2_local s s"
  by (simp add: h2_local_def)

lemma h2_same_refl [simp]: "h2_same s s"
  by (simp add: h2_same_def)

lemma h2_same_trans: "h2_same s t \<Longrightarrow> h2_same t u \<Longrightarrow> h2_same s u"
  by (simp add: h2_same_def)

definition h2_returns :: "Block set \<Rightarrow> Hotstuff2 \<Rightarrow> h2_result \<Rightarrow> bool" where
  "h2_returns new s r \<longleftrightarrow> (\<exists>ret s'. r = Some (ret, s') \<and> h2_inv s' \<and> h2_same s s' \<and> h2_kept s' \<subseteq> h2_kept s \<union> new)"

lemma h2_returns_quiet: "h2_inv s' \<Longrightarrow> h2_same s s' \<Longrightarrow> h2_kept s' \<subseteq> h2_kept s \<union> new \<Longrightarrow> h2_returns new s (Some (r, s'))"
  by (simp add: h2_returns_def)

section \<open>Timers and views\<close>

lemma h2_start_view_ok:
  "timer_ok (pm_ViewTimer (PM s)) \<Longrightarrow> \<exists>t. h2_start_view s = Some (s\<lparr>PM := (PM s)\<lparr>pm_ViewTimer := t\<rparr>\<rparr>) \<and> timer_ok t"
  using Start_ok [of "pm_ViewTimer (PM s)" "Some HAct_StartViewChange" "Some HAct_nothing"] by (auto simp: h2_start_view_def)

lemma h2_stop_view_ok:
  "timer_ok (pm_ViewTimer (PM s)) \<Longrightarrow> \<exists>t. h2_stop_view s = Some (s\<lparr>PM := (PM s)\<lparr>pm_ViewTimer := t\<rparr>\<rparr>) \<and> timer_ok t"
  using Stop_ok [of "pm_ViewTimer (PM s)"] by (auto simp: h2_stop_view_def)

lemma h2_start_enter_ok:
  "timer_ok (EnterTimer (PM s)) \<Longrightarrow> \<exists>t. h2_start_enter s = Some (s\<lparr>PM := (PM s)\<lparr>EnterTimer := t\<rparr>\<rparr>) \<and> timer_ok t"
  using Start_ok [of "EnterTimer (PM s)" "Some HAct_Enter" "Some HAct_nothing"] by (auto simp: h2_start_enter_def)

lemma h2_next_view:
  assumes "h2_inv s"
  shows "\<exists>v. NextView (h2_View s) = Some v \<and> view_ok v \<and> ViewNumber v = h2_view s + 1 \<and>
    NodesNum v = NodesNum (h2_View s) \<and> Leader v = ViewNumber v mod NodesNum v"
proof -
  note v = NextView_ok [OF h2_invD(1) [OF assms]]
  have "(Leader (h2_View s) + 1) mod NodesNum (h2_View s) = (h2_view s + 1) mod NodesNum (h2_View s)"
    unfolding h2_invD(2) [OF assms] by (simp add: mod_add_left_eq)
  with v NextView_view_ok [OF h2_invD(1) [OF assms] v] show ?thesis by simp
qed

lemma h2_catch_up:
  assumes "h2_inv s"
  shows "\<exists>v. catch_up (h2_View s) w = Some v \<and> view_ok v \<and> ViewNumber v = max (h2_view s) w \<and>
    NodesNum v = NodesNum (h2_View s) \<and> Leader v = ViewNumber v mod NodesNum v"
proof -
  from catch_up_ok [OF h2_invD(1) [OF assms], of w] obtain v where v: "catch_up (h2_View s) w = Some v" "view_ok v"
    "NodesNum v = NodesNum (h2_View s)" "ViewNumber v = max (h2_view s) w"
    "Leader v = (Leader (h2_View s) + (ViewNumber v - h2_view s)) mod NodesNum (h2_View s)" by blast
  have "Leader v = ViewNumber v mod NodesNum v"
    unfolding v(5) h2_invD(2) [OF assms] v(3) by (simp add: mod_add_left_eq)
  with v show ?thesis by blast
qed

section \<open>Commits\<close>

lemma lock_index_bounds: "lock_index bs v i = Some j \<Longrightarrow> i \<le> j \<and> j < i + length bs \<and> bh_ViewNumber (BlkHdr (bs ! (j - i))) = v"
  by (induction bs v i rule: lock_index.induct) (auto split: if_splits simp: nth_Cons' Suc_diff_le)

lemma chain_start_ok: "k < length ns \<Longrightarrow> \<exists>st. chain_start ns k = Some st \<and> st \<le> k"
  by (induction ns k rule: chain_start.induct) force+

lemma length_put_validation [simp]: "length (put_validation bs qc) = length bs"
  by (induction bs qc rule: put_validation.induct) auto

lemma bare_put_validation [simp]: "bare ` set (put_validation bs qc) = bare ` set bs"
  by (induction bs qc rule: put_validation.induct) auto

lemma foldl_StoreBlock:
  "bs_Path (foldl StoreBlock st bs) = bs_Path st" "Map.ran (bs_Files (foldl StoreBlock st bs)) \<subseteq> Map.ran (bs_Files st) \<union> set bs"
proof -
  show "bs_Path (foldl StoreBlock st bs) = bs_Path st" by (induction bs arbitrary: st) simp_all
  show "Map.ran (bs_Files (foldl StoreBlock st bs)) \<subseteq> Map.ran (bs_Files st) \<union> set bs"
  proof (induction bs arbitrary: st)
    case (Cons b bs)
    have "Map.ran (bs_Files (StoreBlock st b)) \<subseteq> Map.ran (bs_Files st) \<union> {b}"
      by (auto simp: StoreBlock_files Map.ran_def split: if_splits)
    with Cons.IH [of "StoreBlock st b"] show ?case by auto
  qed simp
qed

lemma cut_ok: "st \<le> e \<Longrightarrow> e < length xs \<Longrightarrow> cut xs st e = Some (take st xs @ drop (e + 1) xs)"
  by (simp add: cut_def slice_to_def slice_from_def)

lemma UpdateAfterCommit_ok:
  assumes "st \<le> e" "e < length (LockBlk s)" "length (LockBlk s) = length (LockHs2Node s)"
  shows "\<exists>ns bs. UpdateAfterCommit s st e = Some (s\<lparr>LockHs2Node := ns, LockBlk := bs\<rparr>) \<and> length bs = length ns \<and>
    set bs \<subseteq> set (LockBlk s)"
proof -
  have len: "e < length (LockHs2Node s)" using assms by simp
  have R: ?thesis if "UpdateAfterCommit s st e = Some (s\<lparr>LockHs2Node := ns, LockBlk := bs\<rparr>)" "length bs = length ns"
    "set bs \<subseteq> set (LockBlk s)" for ns bs using that by blast
  consider (all) "st = 0 \<and> int e = int (length (LockHs2Node s)) - 1" | (none) "st = 0" "e = 0" "int e \<noteq> int (length (LockHs2Node s)) - 1"
    | (front) "st = 0" "e \<noteq> 0" "int e \<noteq> int (length (LockHs2Node s)) - 1"
    | (rear) "st \<noteq> 0" "int e = int (length (LockHs2Node s)) - 1" | (mid) "st \<noteq> 0" "int e \<noteq> int (length (LockHs2Node s)) - 1"
    by blast
  then show ?thesis
  proof cases
    case all
    then have "UpdateAfterCommit s st e = Some (s\<lparr>LockHs2Node := [], LockBlk := []\<rparr>)" by (simp add: UpdateAfterCommit_def)
    then show ?thesis by (rule R) simp_all
  next
    case none
    then have "UpdateAfterCommit s st e = Some (s\<lparr>LockHs2Node := LockHs2Node s, LockBlk := LockBlk s\<rparr>)"
      by (simp add: UpdateAfterCommit_def)
    then show ?thesis by (rule R) (simp_all add: assms(3))
  next
    case front
    then have "UpdateAfterCommit s st e = Some (s\<lparr>LockHs2Node := drop (e + 1) (LockHs2Node s), LockBlk := drop (e + 1) (LockBlk s)\<rparr>)"
      using len assms by (simp add: UpdateAfterCommit_def slice_from_def)
    then show ?thesis by (rule R) (simp_all add: assms(3) set_drop_subset)
  next
    case rear
    then have "UpdateAfterCommit s st e = Some (s\<lparr>LockHs2Node := take st (LockHs2Node s), LockBlk := take st (LockBlk s)\<rparr>)"
      using len assms by (simp add: UpdateAfterCommit_def slice_to_def)
    then show ?thesis by (rule R) (simp_all add: assms(3) set_take_subset)
  next
    case mid
    then have "UpdateAfterCommit s st e = Some (s\<lparr>LockHs2Node := take st (LockHs2Node s) @ drop (e + 1) (LockHs2Node s),
        LockBlk := take st (LockBlk s) @ drop (e + 1) (LockBlk s)\<rparr>)"
      using cut_ok [OF assms(1) len] cut_ok [OF assms(1,2)] by (simp add: UpdateAfterCommit_def Let_def)
    then show ?thesis by (rule R) (simp_all add: assms(3) set_drop_subset set_take_subset)
  qed
qed

lemma h2_commit_ok:
  assumes "length (LockBlk s) = length (LockHs2Node s)"
  shows "\<exists>st ns bs p. h2_commit s = Some (s\<lparr>h2_BlkStore := st, LockHs2Node := ns, LockBlk := bs, h2_CurProposal := p\<rparr>) \<and>
    length bs = length ns \<and> set bs \<subseteq> set (LockBlk s) \<and> bs_Path st = bs_Path (h2_BlkStore s) \<and>
    Map.ran (bs_Files st) \<subseteq> Map.ran (bs_Files (h2_BlkStore s)) \<union> set (LockBlk s) \<and> Command p = Command (h2_CurProposal s)"
proof (cases "lock_index (LockBlk s) (q2_ViewNumber (h2_PrepareQC s)) 0")
  case None
  then have "h2_commit s = Some (s\<lparr>h2_BlkStore := h2_BlkStore s, LockHs2Node := LockHs2Node s, LockBlk := LockBlk s,
      h2_CurProposal := h2_CurProposal s\<rparr>)" by (simp add: h2_commit_def GenCommitBlkIndex_def WriteNewH2Block_def)
  then show ?thesis using assms by blast
next
  case (Some e)
  have e: "e < length (LockBlk s)" using lock_index_bounds [OF Some] by simp
  then obtain st where st: "chain_start (LockHs2Node s) e = Some st" "st \<le> e" using chain_start_ok assms by metis
  define stored where "stored = map ((!) (LockBlk s)) [st..<Suc e]"
  have sub: "set stored \<subseteq> set (LockBlk s)" using e by (auto simp: stored_def simp del: upt_Suc)
  let ?s1 = "s\<lparr>h2_BlkStore := foldl StoreBlock (h2_BlkStore s) stored\<rparr>"
  obtain ns bs where u: "UpdateAfterCommit ?s1 st e = Some (?s1\<lparr>LockHs2Node := ns, LockBlk := bs\<rparr>)" "length bs = length ns"
    "set bs \<subseteq> set (LockBlk s)" using UpdateAfterCommit_ok [of st e ?s1] st(2) e assms by auto
  define p where "p = (h2_CurProposal s)\<lparr>p2_PreBlkHash := bs_PreBlkHash (foldl StoreBlock (h2_BlkStore s) stored)\<rparr>"
  have "h2_commit s = Some (s\<lparr>h2_BlkStore := foldl StoreBlock (h2_BlkStore s) stored, LockHs2Node := ns, LockBlk := bs, h2_CurProposal := p\<rparr>)"
    using Some st(1) u(1) by (simp add: h2_commit_def GenCommitBlkIndex_def WriteNewH2Block_def stored_def [symmetric] p_def Let_def del: upt_Suc)
  moreover have "Command p = Command (h2_CurProposal s)" by (simp add: p_def)
  ultimately show ?thesis using u(2,3) foldl_StoreBlock [of "h2_BlkStore s" stored] sub by blast
qed


lemma h2_kept_upd [simp]:
  "h2_kept (s\<lparr>PM := pm\<rparr>) = h2_kept s" "h2_kept (s\<lparr>h2_View := v\<rparr>) = h2_kept s" "h2_kept (s\<lparr>h2_CurPhase := p\<rparr>) = h2_kept s"
  "h2_kept (s\<lparr>h2_PrepareQC := q\<rparr>) = h2_kept s" "h2_kept (s\<lparr>ProposalQC := q\<rparr>) = h2_kept s"
  "h2_kept (s\<lparr>h2_NewViewMsgs := ms\<rparr>) = h2_kept s" "h2_kept (s\<lparr>Vote1 := ms\<rparr>) = h2_kept s" "h2_kept (s\<lparr>Vote2 := ms\<rparr>) = h2_kept s"
  "h2_kept (s\<lparr>CurHs2Node := nd\<rparr>) = h2_kept s" "h2_kept (s\<lparr>h2_CurProposal := pr\<rparr>) = h2_kept s"
  "h2_kept (s\<lparr>h2_IgnoreCheckQC := b\<rparr>) = h2_kept s" "h2_kept (s\<lparr>h2_SendChan := c\<rparr>) = h2_kept s"
  "h2_kept (s\<lparr>h2_ForwardChan := fc\<rparr>) = h2_kept s" "h2_kept (s\<lparr>h2_Spawned := ms\<rparr>) = h2_kept s" "h2_kept (s\<lparr>h2_Ran := r\<rparr>) = h2_kept s"
  "h2_kept (s\<lparr>h2_CurRoundMsgs := ms\<rparr>) = h2_kept s"
  by (simp_all add: h2_kept_def)

lemma h2_kept_store: "h2_kept (s\<lparr>h2_BlkStore := (h2_BlkStore s)\<lparr>CurProposalBlk := b\<rparr>\<rparr>) = h2_kept s"
  "h2_kept (s\<lparr>h2_BlkStore := (h2_BlkStore s)\<lparr>CurBlkHash := h\<rparr>\<rparr>) = h2_kept s"
  by (simp_all add: h2_kept_def)

text \<open>The state after a commit: only the store, the locks and the proposal changed.\<close>

lemma h2_commit_effect:
  assumes inv: "h2_inv s"
  shows "\<exists>s'. h2_commit (AddValidation2Blk s qc) = Some s' \<and> h2_inv s' \<and> h2_same s s' \<and> h2_kept s' \<subseteq> h2_kept s \<and>
    h2_View s' = h2_View s \<and> h2_CurPhase s' = h2_CurPhase s \<and> h2_IgnoreCheckQC s' = h2_IgnoreCheckQC s \<and>
    Command (h2_CurProposal s') = Command (h2_CurProposal s)"
proof -
  let ?s = "AddValidation2Blk s qc"
  obtain st ns bs p where c: "h2_commit ?s = Some (?s\<lparr>h2_BlkStore := st, LockHs2Node := ns, LockBlk := bs, h2_CurProposal := p\<rparr>)"
    "length bs = length ns" "set bs \<subseteq> set (LockBlk ?s)" "bs_Path st = bs_Path (h2_BlkStore ?s)"
    "Map.ran (bs_Files st) \<subseteq> Map.ran (bs_Files (h2_BlkStore ?s)) \<union> set (LockBlk ?s)" "Command p = Command (h2_CurProposal ?s)"
    using h2_commit_ok [of ?s] h2_invD(7) [OF inv] by (auto simp: AddValidation2Blk_def)
  let ?t = "?s\<lparr>h2_BlkStore := st, LockHs2Node := ns, LockBlk := bs, h2_CurProposal := p\<rparr>"
  have "bare ` (set bs \<union> Map.ran (bs_Files st)) \<subseteq> bare ` (set (LockBlk ?s) \<union> Map.ran (bs_Files (h2_BlkStore s)))"
    using c(3,5) by (intro image_mono) (auto simp: AddValidation2Blk_def)
  then have "h2_kept ?t \<subseteq> h2_kept s" by (simp add: h2_kept_def AddValidation2Blk_def image_Un)
  moreover have "h2_inv ?t" using inv c(2) by (simp add: h2_inv_def AddValidation2Blk_def)
  moreover have "h2_same s ?t" using c(4) by (simp add: h2_same_def AddValidation2Blk_def)
  ultimately show ?thesis using c(1,6) by (simp add: AddValidation2Blk_def)
qed

section \<open>The handlers return\<close>

lemma h2_HandleNewView_returns: "h2_inv s \<Longrightarrow> h2_returns new s (h2_HandleNewView env s m)"
  by (auto simp: h2_HandleNewView_def h2_returns_def h2_inv_def h2_same_def)

definition entered :: "Hotstuff2 \<Rightarrow> H2Msg \<Rightarrow> Block set" where
  "entered s m = (if h_MType m = H2_ENTER then {bare (CurProposalBlk (h2_BlkStore s))} else {})"

lemma h2_UpdateConsensus_inv:
  "h2_inv s \<Longrightarrow> h2_inv (h2_UpdateConsensus env s)" "h2_same s (h2_UpdateConsensus env s)"
  "h2_kept (h2_UpdateConsensus env s) = h2_kept s \<union> {bare (CurProposalBlk (h2_BlkStore s))}"
  "h2_View (h2_UpdateConsensus env s) = h2_View s" "PM (h2_UpdateConsensus env s) = PM s"
  by (auto simp: h2_UpdateConsensus_def Let_def h2_inv_def h2_same_def h2_kept_def GenEmptyBlock_def image_Un)

lemma HandleOptimisticEnter_returns:
  assumes inv: "h2_inv s" and t: "h_MType m = H2_ENTER"
  shows "h2_returns (if h2_CheckQC env s (Justify2 m) H2_PREPARE (h2_view s) (q2_Height (Justify2 m)) then entered s m else {}) s
    (HandleOptimisticEnter env s m)"
proof (cases "h2_view s \<noteq> h_ViewNumber m \<or> h2_CurPhase s = H2_NEW_PROPOSE \<or>
    \<not> h2_CheckQC env s (Justify2 m) H2_PREPARE (h2_view s) (q2_Height (Justify2 m))")
  case True
  with inv h2_invD(6) [OF inv] show ?thesis by (auto simp: HandleOptimisticEnter_def h2_returns_def)
next
  case False
  let ?s0 = "s\<lparr>PM := (PM s)\<lparr>OptimisticFlag := True\<rparr>\<rparr>"
  let ?s1 = "h2_UpdateConsensus env ?s0"
  have i0: "h2_inv ?s0" using inv by (simp add: h2_inv_def)
  note i1 = h2_UpdateConsensus_inv(1) [OF i0, of env] h2_UpdateConsensus_inv(2) [of ?s0 env]
  obtain v where v: "NextView (h2_View ?s1) = Some v" "view_ok v" "ViewNumber v = h2_view s + 1"
    "NodesNum v = NodesNum (h2_View s)" "Leader v = ViewNumber v mod NodesNum v"
    using h2_next_view [OF i1(1)] by (auto simp: h2_UpdateConsensus_inv)
  let ?s2 = "?s1\<lparr>h2_View := v\<rparr>"
  have i2: "h2_inv ?s2" "h2_same s ?s2" "h2_kept ?s2 = h2_kept s \<union> entered s m"
    using i1 v t by (simp_all add: h2_inv_def h2_same_def h2_UpdateConsensus_inv entered_def)
  obtain tm where tm: "h2_start_view ?s2 = Some (?s2\<lparr>PM := (PM ?s2)\<lparr>pm_ViewTimer := tm\<rparr>\<rparr>)" "timer_ok tm"
    using h2_start_view_ok [OF h2_invD(3) [OF i2(1)]] by blast
  let ?s3 = "?s2\<lparr>PM := (PM ?s2)\<lparr>pm_ViewTimer := tm\<rparr>\<rparr>"
  have i3: "h2_inv ?s3" "h2_same s ?s3" "h2_kept ?s3 = h2_kept s \<union> entered s m"
    using i2 tm(2) by (simp_all add: h2_inv_def h2_same_def)
  have eq: "HandleOptimisticEnter env s m = (if h2_IsLeader ?s3 then Some (None, ?s3\<lparr>h2_CurPhase := H2_NEW_PROPOSE\<rparr>)
        else Some (None, ?s3\<lparr>h2_CurPhase := H2_NEW_VIEW, h2_PrepareQC := Justify2 m\<rparr>))"
    using False h2_invD(6) [OF inv] v(1) tm(1) by (simp add: HandleOptimisticEnter_def Let_def)
  show ?thesis unfolding eq using i3 False by (simp add: h2_returns_def h2_inv_def h2_same_def)
qed

lemma HandleTC_returns:
  assumes inv: "h2_inv s"
  shows "h2_returns new s (HandleTC env s m)"
proof (cases "ThresholdSignVerify env (h2_Signer s) (H2_Message2Byte (nil_H2Msg\<lparr>h_MType := H2_WISH, h_ViewNumber := h_ViewNumber m\<rparr>)) (ConsSign m)")
  case False
  with inv show ?thesis by (simp add: HandleTC_def h2_returns_def Let_def)
next
  case ok: True
  obtain v where v: "catch_up (h2_View s) (h_ViewNumber m) = Some v" "view_ok v" "ViewNumber v = max (h2_view s) (h_ViewNumber m)"
    "NodesNum v = NodesNum (h2_View s)" "Leader v = ViewNumber v mod NodesNum v" using h2_catch_up [OF inv] by blast
  let ?s1 = "s\<lparr>h2_View := v\<rparr>"
  have i1: "h2_inv ?s1" "h2_same s ?s1" using inv v by (simp_all add: h2_inv_def h2_same_def)
  show ?thesis
  proof (cases "h2_IsLeader ?s1")
    case False
    let ?s2 = "?s1\<lparr>h2_CurPhase := H2_NEW_PROPOSE\<rparr>"
    obtain tm where tm: "h2_start_view ?s2 = Some (?s2\<lparr>PM := (PM ?s2)\<lparr>pm_ViewTimer := tm\<rparr>\<rparr>)" "timer_ok tm"
      using h2_start_view_ok [of ?s2] h2_invD(3) [OF inv] by auto
    have "HandleTC env s m = Some (Some (locked_msg (?s2\<lparr>PM := (PM ?s2)\<lparr>pm_ViewTimer := tm\<rparr>\<rparr>)), ?s2\<lparr>PM := (PM ?s2)\<lparr>pm_ViewTimer := tm\<rparr>\<rparr>)"
      using ok v(1) False tm(1) by (simp add: HandleTC_def Let_def)
    then show ?thesis using i1 tm(2) by (simp add: h2_returns_def h2_inv_def h2_same_def)
  next
    case lead: True
    show ?thesis
    proof (cases "ViewNumber v > h_ViewNumber m")
      case True
      with ok v(1) lead i1 show ?thesis by (simp add: HandleTC_def h2_returns_def Let_def)
    next
      case False
      let ?s2 = "?s1\<lparr>h2_CurPhase := H2_NEW_VIEW\<rparr>"
      let ?s3 = "?s2\<lparr>h2_NewViewMsgs := h2_NewViewMsgs ?s2 @ [locked_msg ?s2]\<rparr>"
      obtain tm where tm: "h2_start_view ?s3 = Some (?s3\<lparr>PM := (PM ?s3)\<lparr>pm_ViewTimer := tm\<rparr>\<rparr>)" "timer_ok tm"
        using h2_start_view_ok [of ?s3] h2_invD(3) [OF inv] by auto
      let ?s4 = "?s3\<lparr>PM := (PM ?s3)\<lparr>pm_ViewTimer := tm\<rparr>\<rparr>"
      obtain te where te: "h2_start_enter ?s4 = Some (?s4\<lparr>PM := (PM ?s4)\<lparr>EnterTimer := te\<rparr>\<rparr>)" "timer_ok te"
        using h2_start_enter_ok [of ?s4] h2_invD(4) [OF inv] by auto
      have "HandleTC env s m = Some (None, ?s4\<lparr>PM := (PM ?s4)\<lparr>EnterTimer := te\<rparr>\<rparr>)"
        using ok v(1) lead False tm(1) te(1) by (simp add: HandleTC_def Let_def)
      then show ?thesis using i1 tm(2) te(2) by (simp add: h2_returns_def h2_inv_def h2_same_def)
    qed
  qed
qed

lemma h2_GenProposal_returns:
  assumes inv: "h2_inv s"
  shows "h2_returns new s (h2_GenProposal env s m)"
proof -
  define s1 where "s1 = (if OptimisticFlag (PM s) \<and> q2_QType (Justify2 m) \<noteq> H2_NEW_VIEW \<and>
                    h2_CheckQC env s (Justify2 m) H2_PREPARE (h_ViewNumber m) (q2_Height (Justify2 m))
                 then s\<lparr>h2_PrepareQC := Justify2 m, PM := (PM s)\<lparr>OptimisticFlag := False\<rparr>\<rparr> else s)"
  have i1: "h2_inv s1" "h2_same s s1" "h2_kept s1 = h2_kept s" using inv by (simp_all add: s1_def h2_inv_def h2_same_def)
  show ?thesis
  proof (cases "h2_CurPhase s \<noteq> H2_NEW_PROPOSE \<or> H2_Proposal_IsEmpty (h2_CurProposal s1)")
    case True
    with inv i1 h2_invD(6) [OF inv] show ?thesis
      by (auto simp: h2_GenProposal_def h2_returns_def Let_def s1_def [symmetric] cong: if_cong)
  next
    case False
    obtain u where u: "h2_commit (AddValidation2Blk s1 (h2_PrepareQC s1)) = Some u" "h2_inv u" "h2_same s1 u"
      "h2_kept u \<subseteq> h2_kept s1" using h2_commit_effect [OF i1(1)] by blast
    obtain bs where bs: "GenNewBlock env (h2_BlkStore u) (h2_view u) (TwoDimByteSlice2StringSlice (slices (Command (h2_CurProposal u)))) [] = Some bs"
      "bs_Files bs = bs_Files (h2_BlkStore u)" "bs_Path bs = bs_Path (h2_BlkStore u)"
      using GenNewBlock_returns [of env "h2_BlkStore u" "h2_view u" _ "[]"] by blast
    let ?t = "u\<lparr>h2_BlkStore := bs, h2_CurProposal := (h2_CurProposal u)\<lparr>p2_ViewNumber := h2_view u\<rparr>,
        CurHs2Node := \<lparr>CurHash = CurBlkHash bs, ParentHash = CurHash (q2_Hs2Node (ProposalQC u))\<rparr>, h2_CurPhase := H2_PROPOSE\<rparr>"
    have "h2_kept ?t = h2_kept u" using bs(2) by (simp add: h2_kept_def)
    with u(4) i1(3) have "h2_kept ?t \<subseteq> h2_kept s \<union> new" by blast
    moreover have "h2_inv ?t" "h2_same s ?t" using u(2) bs(3) h2_same_trans [OF i1(2) u(3)] by (simp_all add: h2_inv_def h2_same_def)
    moreover have "\<exists>r. h2_GenProposal env s m = Some (r, ?t)"
      using False h2_invD(6) [OF inv] u(1) bs(1)
      by (simp add: h2_GenProposal_def Let_def s1_def [symmetric] h2_CreateLeaf_def cong: if_cong)
    ultimately show ?thesis unfolding h2_returns_def by blast
  qed
qed


lemma h2_returnsI: "h2_inv t \<Longrightarrow> h2_same s t \<Longrightarrow> h2_kept t \<subseteq> h2_kept s \<Longrightarrow> h2_returns new s (Some (r, t))"
  unfolding h2_returns_def by blast

text \<open>The state after a proposal has been taken over, and the vote for it.\<close>

definition proposed :: "'a env_scheme \<Rightarrow> Hotstuff2 \<Rightarrow> H2Msg \<Rightarrow> Hotstuff2" where
  "proposed env s m = s\<lparr>h2_IgnoreCheckQC := False, CurHs2Node := h_Hs2Node m,
     h2_BlkStore := (h2_BlkStore s)\<lparr>CurProposalBlk := h_Block m, CurBlkHash := Block_Hash env (h_Block m)\<rparr>\<rparr>"

definition ballot :: "h2_StateType \<Rightarrow> int \<Rightarrow> HsNode \<Rightarrow> byte list" where
  "ballot t v nd = h2_sign_bytes t v nd"

definition vote1_msg :: "Hotstuff2 \<Rightarrow> H2Msg \<Rightarrow> byte list \<Rightarrow> H2Msg" where
  "vote1_msg s m sg = nil_H2Msg\<lparr>h_MType := H2_VOTE1, h_ViewNumber := h_ViewNumber m, h_Hs2Node := h_Hs2Node m,
     ConsSign := Some sg, h_ReciNode := h_SendNode m\<rparr>"

lemma propose_vote_eq:
  assumes "h_ViewNumber m = h2_view s"
  shows "propose_vote env s m =
    (case ThresholdSign env (h2_Signer s) (ballot (h_MType m) (h_ViewNumber m) (h_Hs2Node m)) of
       None \<Rightarrow> (None, proposed env s m)
     | Some sg \<Rightarrow> (Some (vote1_msg s m sg), (proposed env s m)\<lparr>h2_CurPhase := H2_PROPOSE\<rparr>))"
  using assms by (simp add: propose_vote_def proposed_def vote1_msg_def ballot_def H2_Message2Byte_def nil_H2Msg_def Let_def
      split: option.split)

lemma proposed_inv: "h2_inv s \<Longrightarrow> h2_inv (proposed env s m)" "h2_same s (proposed env s m)" "h2_kept (proposed env s m) = h2_kept s"
  by (simp_all add: proposed_def h2_inv_def h2_same_def h2_kept_def)

lemma h2_inv_phase [simp]: "h2_inv (s\<lparr>h2_CurPhase := p\<rparr>) = h2_inv s" "h2_same s (t\<lparr>h2_CurPhase := p\<rparr>) = h2_same s t"
  "h2_inv (s\<lparr>ProposalQC := q\<rparr>) = h2_inv s" "h2_same s (t\<lparr>ProposalQC := q\<rparr>) = h2_same s t"
  "h2_inv (s\<lparr>h2_PrepareQC := q\<rparr>) = h2_inv s" "h2_same s (t\<lparr>h2_PrepareQC := q\<rparr>) = h2_same s t"
  "h2_inv (s\<lparr>Vote1 := ms\<rparr>) = h2_inv s" "h2_same s (t\<lparr>Vote1 := ms\<rparr>) = h2_same s t"
  "h2_inv (s\<lparr>Vote2 := ms\<rparr>) = h2_inv s" "h2_same s (t\<lparr>Vote2 := ms\<rparr>) = h2_same s t"
  "h2_inv (s\<lparr>h2_CurRoundMsgs := ms\<rparr>) = h2_inv s" "h2_same s (t\<lparr>h2_CurRoundMsgs := ms\<rparr>) = h2_same s t"
  "h2_inv (s\<lparr>h2_Spawned := ms\<rparr>) = h2_inv s" "h2_same s (t\<lparr>h2_Spawned := ms\<rparr>) = h2_same s t"
  "h2_inv (s\<lparr>h2_Ran := rs\<rparr>) = h2_inv s" "h2_same s (t\<lparr>h2_Ran := rs\<rparr>) = h2_same s t"
  "h2_inv (s\<lparr>h2_CurProposal := pr\<rparr>) = h2_inv s" "h2_same s (t\<lparr>h2_CurProposal := pr\<rparr>) = h2_same s t"
  "h2_inv (s\<lparr>h2_ForwardChan := fc\<rparr>) = h2_inv s" "h2_inv s \<Longrightarrow> h2_inv (s\<lparr>h2_SendChan := Some c\<rparr>)"
  by (simp_all add: h2_inv_def h2_same_def)

lemma h2_local_upd [simp]: "h2_local s (t\<lparr>h2_CurPhase := p\<rparr>) = h2_local s t" "h2_local s (t\<lparr>h2_CurRoundMsgs := ms\<rparr>) = h2_local s t"
  "h2_local s (t\<lparr>h2_Spawned := ms\<rparr>) = h2_local s t" "h2_local s (t\<lparr>h2_Ran := rs\<rparr>) = h2_local s t"
  "h2_local s (t\<lparr>h2_CurProposal := pr\<rparr>) = h2_local s t" "h2_local s (t\<lparr>h2_ForwardChan := fc\<rparr>) = h2_local s t"
  "h2_local s (t\<lparr>h2_SendChan := sc\<rparr>) = h2_local s t"
  by (simp_all add: h2_local_def)

lemma propose_vote_returns:
  assumes "h2_inv u" "h2_same s u" "h2_kept u \<subseteq> h2_kept s" "h_ViewNumber m = h2_view u"
  shows "h2_returns new s (Some (propose_vote env u m))"
proof -
  have "h2_same s (proposed env u m)" using assms(2) proposed_inv(2) by (rule h2_same_trans)
  with assms proposed_inv(1) [of u env m] proposed_inv(3) [of env u m] show ?thesis
    unfolding propose_vote_eq [OF assms(4)] h2_returns_def by (auto split: option.split)
qed

lemma HandlePropose_returns:
  assumes inv: "h2_inv s"
  shows "h2_returns new s (HandlePropose env s m)"
proof (cases "(h2_CurPhase s = H2_PROPOSE \<and> \<not> h2_IsLeader s) \<or> h2_view s \<noteq> h_ViewNumber m \<or> propose_cert env s m = None")
  case True
  with inv show ?thesis by (auto simp: HandlePropose_def h2_returns_def)
next
  case False
  then obtain s1 where s1: "propose_cert env s m = Some s1" by auto
  then have i1: "h2_inv s1" "h2_same s s1" "h2_kept s1 = h2_kept s" "h2_View s1 = h2_View s"
    using inv by (auto simp: propose_cert_def split: if_splits)
  have vote: "h2_returns new s (Some (propose_vote env u m))"
    if "h2_inv u" "h2_same s1 u" "h2_kept u \<subseteq> h2_kept s1" "h2_View u = h2_View s1" for u
    using that i1 False h2_same_trans [OF i1(2) that(2)] by (intro propose_vote_returns) auto
  obtain u where u: "h2_commit (AddValidation2Blk s1 (Justify2 m)) = Some u" "h2_inv u" "h2_same s1 u"
      "h2_kept u \<subseteq> h2_kept s1" "h2_View u = h2_View s1" using h2_commit_effect [OF i1(1)] by blast
  consider "h2_IsLeader s1" | "\<not> h2_IsLeader s1" "h2_view s1 \<noteq> 0 \<and> \<not> h2_IgnoreCheckQC s1 \<and>
      \<not> h2_CheckQC env s1 (Justify2 m) H2_PREPARE (q2_ViewNumber (Justify2 m)) (q2_Height (Justify2 m))"
    | "\<not> h2_IsLeader s1" "\<not> (h2_view s1 \<noteq> 0 \<and> \<not> h2_IgnoreCheckQC s1 \<and>
      \<not> h2_CheckQC env s1 (Justify2 m) H2_PREPARE (q2_ViewNumber (Justify2 m)) (q2_Height (Justify2 m)))" by blast
  then show ?thesis
  proof cases
    case 1
    then have "HandlePropose env s m = Some (propose_vote env s1 m)" using False s1 by (auto simp: HandlePropose_def)
    then show ?thesis using vote [of s1] i1 by simp
  next
    case 2
    then have "HandlePropose env s m = Some (None, s1)" using False s1 by (auto simp: HandlePropose_def)
    then show ?thesis using i1 by (simp add: h2_returns_def)
  next
    case 3
    then have "HandlePropose env s m = Some (propose_vote env u m)" using False s1 u(1) by (auto simp: HandlePropose_def)
    then show ?thesis using vote [OF u(2-5)] by simp
  qed
qed

lemma HandleVote1_returns: "h2_inv s \<Longrightarrow> h2_returns new s (HandleVote1 env s m)"
  by (auto simp: HandleVote1_def h2_returns_def Let_def)

lemma HandleVote2_returns: "h2_inv s \<Longrightarrow> h2_returns new s (HandleVote2 env s m)"
  by (auto simp: HandleVote2_def h2_returns_def Let_def split: option.split)

lemma h2_HandlePrepare_returns:
  assumes inv: "h2_inv s"
  shows "h2_returns new s (h2_HandlePrepare env s m)"
proof -
  obtain nl where nl: "GetNextLeaderName s = Some nl"
    using NextLeaderName_ok [OF h2_invD(1) [OF inv]] by (simp add: GetNextLeaderName_def)
  obtain t where t: "h2_stop_view s = Some (s\<lparr>PM := (PM s)\<lparr>pm_ViewTimer := t\<rparr>\<rparr>)" "timer_ok t"
    using h2_stop_view_ok [OF h2_invD(3) [OF inv]] by blast
  have "h2_inv (s\<lparr>PM := (PM s)\<lparr>pm_ViewTimer := t\<rparr>\<rparr>)" "h2_same s (s\<lparr>PM := (PM s)\<lparr>pm_ViewTimer := t\<rparr>\<rparr>)"
    using inv t(2) by (simp_all add: h2_inv_def h2_same_def)
  with inv nl t(1) show ?thesis
    by (auto simp: h2_HandlePrepare_def h2_returns_def Let_def split: option.split)
qed

lemma HandleWish_returns: "h2_inv s \<Longrightarrow> h2_returns new s (HandleWish env s m)"
  by (auto simp: HandleWish_def h2_returns_def Let_def h2_inv_def h2_same_def)

definition locks_of :: "'a env_scheme \<Rightarrow> Hotstuff2 \<Rightarrow> H2Msg \<Rightarrow> Block set" where
  "locks_of env s m = (if h_MType m = H2_ENTER \<and> h_ViewNumber m = h2_view s \<and>
       h2_CheckQC env s (Justify2 m) H2_PREPARE (h2_view s) (q2_Height (Justify2 m))
     then {bare (CurProposalBlk (h2_BlkStore s))} else {})"

lemma HandleOptimisticEnter_locks:
  assumes inv: "h2_inv s" and t: "h_MType m = H2_ENTER"
  shows "h2_returns (locks_of env s m) s (HandleOptimisticEnter env s m)"
proof (cases "h_ViewNumber m = h2_view s")
  case True
  with HandleOptimisticEnter_returns [OF assms, of env] t show ?thesis by (simp add: locks_of_def entered_def cong: if_cong)
next
  case False
  with inv h2_invD(6) [OF inv] show ?thesis by (auto simp: HandleOptimisticEnter_def h2_returns_def)
qed

lemma RouteH2Msg_returns: "h2_inv s \<Longrightarrow> h2_returns (locks_of env s m) s (RouteH2Msg env s m)"
  unfolding RouteH2Msg_def
  by (cases "h_MType m")
    (simp_all add: h2_HandleNewView_returns h2_GenProposal_returns HandlePropose_returns HandleVote1_returns
      h2_HandlePrepare_returns HandleVote2_returns HandleWish_returns HandleTC_returns HandleOptimisticEnter_locks,
     simp add: h2_returns_def)


section \<open>Steps\<close>

definition h2_moves :: "Block set \<Rightarrow> Hotstuff2 \<Rightarrow> Hotstuff2 \<Rightarrow> bool" where
  "h2_moves new s s' \<longleftrightarrow> h2_inv s' \<and> h2_local s s' \<and> h2_kept s' \<subseteq> h2_kept s \<union> new"

lemma h2_moves_refl: "h2_inv s \<Longrightarrow> h2_moves new s s"
  by (simp add: h2_moves_def)

lemma h2_send_moves:
  assumes "h2_moves new s t"
  shows "\<exists>u. h2_SendSerMsg t m = Some u \<and> h2_moves new s u \<and> EnterTimer (PM u) = EnterTimer (PM t) \<and>
    pm_ViewTimer (PM u) = pm_ViewTimer (PM t)"
proof -
  from assms obtain c where c: "h2_SendSerMsg t m = Some (t\<lparr>h2_SendChan := Some c\<rparr>)"
    using h2_invD(5) [of t] by (auto simp: h2_moves_def h2_SendSerMsg_def)
  have "h2_moves new s (t\<lparr>h2_SendChan := Some c\<rparr>)" using assms by (simp add: h2_moves_def)
  with c show ?thesis by simp
qed

lemma HandleH2Msg_ok:
  assumes inv: "h2_inv s"
  shows "\<exists>s'. HandleH2Msg env s m = Some s' \<and> h2_moves (locks_of env s m) s s'"
proof -
  from RouteH2Msg_returns [OF inv, of env m] obtain ret t where
    t: "RouteH2Msg env s m = Some (ret, t)" "h2_moves (locks_of env s m) s t"
    by (auto simp: h2_returns_def h2_moves_def dest: h2_same_node)
  show ?thesis
  proof (cases ret)
    case None
    with t show ?thesis by (simp add: HandleH2Msg_def)
  next
    case (Some r)
    let ?r = "r\<lparr>h_SendNode := h2_GetNodeName t\<rparr>"
    let ?u = "t\<lparr>h2_CurRoundMsgs := h2_CurRoundMsgs t @ [?r]\<rparr>"
    define u where "u = (if h_MType r = H2_ENTER then h2_go_send ?u (nil_H2Msg\<lparr>h_ViewNumber := ViewNumber (h2_View ?u) - 1,
       h_SendNode := h2_GetNodeName ?u, h_ReciNode := ''Client''\<rparr>) else ?u)"
    have "h2_moves (locks_of env s m) s u" using t(2) by (simp add: u_def h2_moves_def h2_go_send_def)
    from h2_send_moves [OF this, of ?r] obtain w where "h2_SendSerMsg u ?r = Some w" "h2_moves (locks_of env s m) s w" by blast
    then show ?thesis using t(1) Some by (simp add: HandleH2Msg_def u_def Let_def)
  qed
qed

lemma h2_HandleReq_ok:
  assumes inv: "h2_inv s"
  shows "\<exists>s'. h2_HandleReq env s h ph reqs = Some s' \<and> h2_moves {} s s'"
proof -
  define p where "p = (let p = nil_h2_Proposal\<lparr>p2_Height := h, p2_PreBlkHash := ph, Command := Some (map rq_Cmd reqs)\<rparr>
    in p\<lparr>p2_RootHash := Some (HashFromByteSlicesIterative (SM3 env) (slices (Command p)))\<rparr>)"
  let ?s = "s\<lparr>h2_CurProposal := p\<rparr>"
  have i: "h2_inv ?s" using inv by simp
  show ?thesis
  proof (cases "h2_CurPhase s = H2_NEW_PROPOSE")
    case False
    then have "h2_HandleReq env s h ph reqs = Some ?s" by (simp add: h2_HandleReq_def p_def Let_def)
    then show ?thesis using inv by (simp add: h2_moves_def)
  next
    case True
    let ?m = "nil_H2Msg\<lparr>h_MType := H2_NEW_PROPOSE, h_SendNode := h2_GetNodeName ?s\<rparr>"
    from h2_GenProposal_returns [OF i, of "{}" env ?m] obtain ret t where
      t: "h2_GenProposal env ?s ?m = Some (ret, t)" "h2_moves {} s t" by (auto simp: h2_returns_def h2_moves_def h2_same_def h2_local_def)
    have eq: "h2_HandleReq env s h ph reqs = (case ret of None \<Rightarrow> Some t | Some r \<Rightarrow> h2_SendSerMsg (t\<lparr>h2_CurPhase := H2_PROPOSE\<rparr>) r)"
      using True t(1) by (simp add: h2_HandleReq_def p_def Let_def)
    have "h2_moves {} s (t\<lparr>h2_CurPhase := H2_PROPOSE\<rparr>)" using t(2) by (simp add: h2_moves_def)
    show ?thesis
    proof (cases ret)
      case None
      with t(2) eq show ?thesis by simp
    next
      case (Some r)
      with h2_send_moves [OF \<open>h2_moves {} s (t\<lparr>h2_CurPhase := H2_PROPOSE\<rparr>)\<close>, of r] eq show ?thesis by auto
    qed
  qed
qed

lemma h2_StartViewChange_ok:
  assumes inv: "h2_inv s"
  shows "\<exists>s'. h2_StartViewChange env s = Some s' \<and> h2_moves {} s s' \<and> pm_ViewTimer (PM s') = pm_ViewTimer (PM s)"
proof -
  obtain nl where nl: "GetNextLeaderName s = Some nl"
    using NextLeaderName_ok [OF h2_invD(1) [OF inv]] by (simp add: GetNextLeaderName_def)
  define m0 where "m0 = nil_H2Msg\<lparr>h_MType := H2_WISH, h_ViewNumber := ViewNumber (h2_View s) + 1, h_SendNode := h2_GetNodeName s, h_ReciNode := nl\<rparr>"
  define m where "m = (case ThresholdSign env (h2_Signer s) (H2_Message2Byte m0) of Some sign \<Rightarrow> m0\<lparr>ConsSign := Some sign\<rparr> | None \<Rightarrow> m0)"
  define s0 where "s0 = s\<lparr>PM := (PM s)\<lparr>WishSendFlag := True\<rparr>\<rparr>"
  define s1 where "s1 = (case h2_ForwardChan s0 of None \<Rightarrow> s0 | Some c \<Rightarrow> s0\<lparr>h2_ForwardChan := Some (c @ [m])\<rparr>)"
  have "h2_inv s0" "h2_local s s0" "h2_kept s0 = h2_kept s" using inv by (simp_all add: s0_def h2_inv_def h2_local_def)
  then have i1: "h2_moves {} s s1" "pm_ViewTimer (PM s1) = pm_ViewTimer (PM s)" "h2_SendChan s1 \<noteq> None"
    using h2_invD(5) [OF inv] by (auto simp: s1_def h2_moves_def split: option.split) (auto simp: s0_def)
  have "h2_StartViewChange env s = h2_SendSerMsg s1 m"
    unfolding h2_StartViewChange_def nl bind.bind_lunit Let_def m0_def [symmetric] m_def [symmetric] s0_def [symmetric] s1_def [symmetric]
    using i1(3) by simp
  with h2_send_moves [OF i1(1), of m] i1(2) show ?thesis by auto
qed

lemma enter_expired_ok:
  assumes inv: "h2_inv s"
  shows "\<exists>s'. enter_expired s = Some s' \<and> h2_moves {} s s' \<and> EnterTimer (PM s') = EnterTimer (PM s)"
proof -
  define s0 where "s0 = s\<lparr>h2_CurPhase := H2_NEW_PROPOSE\<rparr>"
  define m where "m = nil_H2Msg\<lparr>h_MType := H2_NEW_PROPOSE, h_ReciNode := h2_GetNodeName s0\<rparr>"
  define s1 where "s1 = (case h2_ForwardChan s0 of None \<Rightarrow> s0 | Some c \<Rightarrow> s0\<lparr>h2_ForwardChan := Some (c @ [m])\<rparr>)"
  have "h2_inv s0" "h2_local s s0" "h2_kept s0 = h2_kept s" using inv by (simp_all add: s0_def)
  then have i1: "h2_moves {} s s1" "EnterTimer (PM s1) = EnterTimer (PM s)" "h2_SendChan s1 \<noteq> None"
    using h2_invD(5) [OF inv] by (auto simp: s1_def h2_moves_def split: option.split) (auto simp: s0_def)
  have "enter_expired s = h2_SendSerMsg s1 m"
    unfolding enter_expired_def Let_def s0_def [symmetric] m_def [symmetric] s1_def [symmetric] using i1(3) by simp
  with h2_send_moves [OF i1(1), of m] i1(2) show ?thesis by auto
qed

text \<open>A timer that expires: it has been taken and marked, and can finish.\<close>

lemma timer_expires:
  assumes "timer_ok t" "waiting t \<noteq> 0"
  shows "\<exists>t1 t2 t3. timer_take t = Some t1 \<and> timer_mark t1 = Some t2 \<and> timer_ok t2 \<and> timer_finish t2 = Some t3 \<and> timer_ok t3"
  using assms by (auto simp: timer_ok_def timer_take_def timer_mark_def timer_finish_def split: nat.splits if_splits)

definition step_locks :: "'a env_scheme \<Rightarrow> Hotstuff2 \<Rightarrow> h2_event \<Rightarrow> Block set" where
  "step_locks env s e = (case e of HDeliver now m \<Rightarrow> locks_of env s m | _ \<Rightarrow> {})"

lemma locks_of_Clock [simp]: "locks_of (env\<lparr>Clock := t\<rparr>) s m = locks_of env s m"
  by (simp add: locks_of_def h2_CheckQC_def ThresholdSignVerify_def)

lemma h2_step_ok:
  assumes inv: "h2_inv s"
  shows "\<exists>s'. h2_step env s e = Some s' \<and> h2_moves (step_locks env s e) s s'"
proof (cases e)
  case (HDeliver now m)
  with HandleH2Msg_ok [OF inv, of "env\<lparr>Clock := now\<rparr>" m] show ?thesis by (simp add: step_locks_def)
next
  case (HRequest now h ph reqs)
  with h2_HandleReq_ok [OF inv] show ?thesis by (simp add: step_locks_def)
next
  case HViewTimeout
  show ?thesis
  proof (cases "waiting (pm_ViewTimer (PM s)) = 0")
    case True
    with HViewTimeout inv show ?thesis by (simp add: h2_moves_refl)
  next
    case False
    from timer_expires [OF h2_invD(3) [OF inv] False] obtain t1 t2 t3 where
      t: "timer_take (pm_ViewTimer (PM s)) = Some t1" "timer_mark t1 = Some t2" "timer_ok t2" "timer_finish t2 = Some t3" "timer_ok t3" by blast
    let ?s = "s\<lparr>PM := (PM s)\<lparr>pm_ViewTimer := t2\<rparr>\<rparr>"
    have i: "h2_inv ?s" "h2_local s ?s" "h2_kept ?s = h2_kept s" using inv t(3) by (simp_all add: h2_inv_def h2_local_def)
    from h2_StartViewChange_ok [OF i(1), of env] obtain u where
      u: "h2_StartViewChange env ?s = Some u" "h2_moves {} ?s u" "pm_ViewTimer (PM u) = t2" by auto
    have "h2_moves {} s (u\<lparr>PM := (PM u)\<lparr>pm_ViewTimer := t3\<rparr>\<rparr>)"
      using u(2) i(2,3) t(5) by (auto simp: h2_moves_def h2_inv_def h2_local_def)
    with HViewTimeout False t u show ?thesis by (simp add: step_locks_def)
  qed
next
  case HEnterTimeout
  show ?thesis
  proof (cases "waiting (EnterTimer (PM s)) = 0")
    case True
    with HEnterTimeout inv show ?thesis by (simp add: h2_moves_refl)
  next
    case False
    from timer_expires [OF h2_invD(4) [OF inv] False] obtain t1 t2 t3 where
      t: "timer_take (EnterTimer (PM s)) = Some t1" "timer_mark t1 = Some t2" "timer_ok t2" "timer_finish t2 = Some t3" "timer_ok t3" by blast
    let ?s = "s\<lparr>PM := (PM s)\<lparr>EnterTimer := t2\<rparr>\<rparr>"
    have i: "h2_inv ?s" "h2_local s ?s" "h2_kept ?s = h2_kept s" using inv t(3) by (simp_all add: h2_inv_def h2_local_def)
    from enter_expired_ok [OF i(1)] obtain u where
      u: "enter_expired ?s = Some u" "h2_moves {} ?s u" "EnterTimer (PM u) = t2" by auto
    have "h2_moves {} s (u\<lparr>PM := (PM u)\<lparr>EnterTimer := t3\<rparr>\<rparr>)"
      using u(2) i(2,3) t(5) by (auto simp: h2_moves_def h2_inv_def h2_local_def)
    with HEnterTimeout False t u show ?thesis by (simp add: step_locks_def)
  qed
next
  case (HRunSend k)
  have "h2_moves {} s (s\<lparr>h2_Ran := h2_Ran s @ [k]\<rparr>)" using inv by (simp add: h2_moves_def)
  from h2_send_moves [OF this, of "h2_Spawned s ! k"] HRunSend inv show ?thesis
    by (auto simp: step_locks_def h2_moves_refl)
qed

text \<open>A step puts at most one message on the send channel, and none on a forward channel that is nil.\<close>

definition h2_sent :: "Hotstuff2 \<Rightarrow> H2Msg list" where
  "h2_sent s = (case h2_SendChan s of None \<Rightarrow> [] | Some c \<Rightarrow> map Payload c)"

definition h2_posts :: "Hotstuff2 \<Rightarrow> Hotstuff2 \<Rightarrow> bool" where
  "h2_posts s s' \<longleftrightarrow> one_more (h2_sent s) (h2_sent s') \<and> (h2_ForwardChan s = None \<longrightarrow> h2_ForwardChan s' = None)"

lemma h2_send_posts:
  "h2_SendSerMsg t m = Some u \<Longrightarrow> h2_SendChan t = h2_SendChan s \<Longrightarrow> h2_ForwardChan t = h2_ForwardChan s \<Longrightarrow> h2_posts s u"
  by (auto simp: h2_SendSerMsg_def h2_posts_def h2_sent_def split: option.splits)

lemma h2_quiet_posts: "h2_SendChan t = h2_SendChan s \<Longrightarrow> h2_ForwardChan t = h2_ForwardChan s \<Longrightarrow> h2_posts s t"
  by (simp add: h2_posts_def h2_sent_def)

lemma HandleH2Msg_posts:
  assumes inv: "h2_inv s" and r: "HandleH2Msg env s m = Some s'"
  shows "h2_posts s s'"
proof -
  from RouteH2Msg_returns [OF inv, of env m] obtain ret t where
    t: "RouteH2Msg env s m = Some (ret, t)" "h2_SendChan t = h2_SendChan s" "h2_ForwardChan t = h2_ForwardChan s"
    by (auto simp: h2_returns_def h2_same_def)
  with r show ?thesis
    by (cases ret) (auto simp: HandleH2Msg_def Let_def h2_go_send_def intro: h2_quiet_posts
        elim!: h2_send_posts split: if_splits)
qed

lemma h2_HandleReq_posts:
  assumes inv: "h2_inv s" and r: "h2_HandleReq env s h ph reqs = Some s'"
  shows "h2_posts s s'"
proof (cases "h2_CurPhase s = H2_NEW_PROPOSE")
  case False
  with r show ?thesis by (auto simp: h2_HandleReq_def Let_def intro: h2_quiet_posts)
next
  case True
  from r True obtain p m ret t where
    t: "h2_GenProposal env (s\<lparr>h2_CurProposal := p\<rparr>) m = Some (ret, t)"
      "(case ret of None \<Rightarrow> Some t | Some x \<Rightarrow> h2_SendSerMsg (t\<lparr>h2_CurPhase := H2_PROPOSE\<rparr>) x) = Some s'"
    by (auto simp: h2_HandleReq_def Let_def bind_Some_iff split: option.splits)
  have "h2_inv (s\<lparr>h2_CurProposal := p\<rparr>)" using inv by simp
  from h2_GenProposal_returns [OF this, of "{}" env m] t(1) have
    "h2_SendChan t = h2_SendChan s" "h2_ForwardChan t = h2_ForwardChan s" by (auto simp: h2_returns_def h2_same_def)
  with t(2) show ?thesis by (cases ret) (auto intro: h2_quiet_posts elim!: h2_send_posts)
qed

lemma h2_StartViewChange_posts: "h2_StartViewChange env s = Some s' \<Longrightarrow> h2_posts s s'"
  by (auto simp: h2_StartViewChange_def Let_def bind_Some_iff h2_SendSerMsg_def h2_posts_def h2_sent_def split: option.splits if_splits)

lemma enter_expired_posts: "enter_expired s = Some s' \<Longrightarrow> h2_posts s s'"
  by (auto simp: enter_expired_def Let_def h2_SendSerMsg_def h2_posts_def h2_sent_def split: option.splits if_splits)

lemma h2_posts_PM [simp]: "h2_posts (s\<lparr>PM := p\<rparr>) t = h2_posts s t" "h2_posts s (t\<lparr>PM := p\<rparr>) = h2_posts s t"
  by (simp_all add: h2_posts_def h2_sent_def)

lemma h2_step_posts:
  assumes "h2_inv s" "h2_step env s e = Some s'"
  shows "h2_posts s s'"
proof (cases e)
  case (HDeliver now m)
  with HandleH2Msg_posts [OF assms(1)] assms(2) show ?thesis by simp
next
  case (HRequest now h ph reqs)
  with h2_HandleReq_posts [OF assms(1)] assms(2) show ?thesis by simp
next
  case HViewTimeout
  with assms(2) show ?thesis
    by (auto simp: bind_Some_iff h2_quiet_posts split: if_splits dest!: h2_StartViewChange_posts)
next
  case HEnterTimeout
  with assms(2) show ?thesis
    by (auto simp: bind_Some_iff h2_quiet_posts split: if_splits dest!: enter_expired_posts)
next
  case (HRunSend k)
  with assms(2) show ?thesis by (auto simp: h2_quiet_posts split: if_splits elim!: h2_send_posts)
qed

interpretation h2: total_machine "h2_step env" h2_inv "\<lambda>_. True" for env
proof (unfold_locales, goal_cases)
  case (1 s e s')
  with h2_step_ok [OF 1(1), of env e] show ?case by (simp add: h2_moves_def)
next
  case (2 s e)
  with h2_step_ok [of s env e] show ?case by blast
qed

lemma NewHotstuff2_inv: "1 \<le> n \<Longrightarrow> h2_inv (NewHotstuff2 e v i n path (Some []) signer)"
  by (simp add: NewHotstuff2_def h2_inv_def view_ok_def)

lemma NewHotstuff2_kept: "h2_kept (NewHotstuff2 e v i n path c signer) = {}"
  by (simp add: NewHotstuff2_def h2_kept_def)

section \<open>Properties\<close>

text \<open>
  C38 Every event returns: from the constructor, a HotStuff-2 node handles every sequence of messages
  (with whatever contents), requests, timeouts of both timers and runs of the sending goroutines to
  the end, without a panic and without an endless loop, and in the state it is then in any further
  event returns too, does not lower the view number, and puts at most one message on the send channel
  and none on the forward channel. So it does not block either, as long as the send channel (of 128
  places) has a free place at each event and neither timer is caught between its timeout and the
  assignment after it (timer.go:46 to 49): an expiry is one event here. The leader is always the view
  modulo the number of nodes, both timers have exactly one goroutine waiting if they run, and there
  is one locked node per locked block.
\<close>

theorem h2_never_stuck:
  assumes "1 \<le> n"
  shows "\<exists>t. run (h2_step env) (NewHotstuff2 e v i n path (Some []) signer) es = Some t \<and>
    Leader (h2_View t) = ViewNumber (h2_View t) mod n \<and>
    waiting (pm_ViewTimer (PM t)) = (if IsStopped (pm_ViewTimer (PM t)) then 0 else 1) \<and>
    waiting (EnterTimer (PM t)) = (if IsStopped (EnterTimer (PM t)) then 0 else 1) \<and>
    length (LockBlk t) = length (LockHs2Node t) \<and> \<not> h2_ProposalLock t \<and>
    (\<forall>x. \<exists>u. h2_step env t x = Some u \<and> ViewNumber (h2_View t) \<le> ViewNumber (h2_View u) \<and>
       one_more (h2_sent t) (h2_sent u) \<and> h2_ForwardChan u = None)"
proof -
  note inv = NewHotstuff2_inv [OF assms, of e v i path signer]
  from h2.run_returns [OF inv, of es env] obtain t where
    t: "run (h2_step env) (NewHotstuff2 e v i n path (Some []) signer) es = Some t" by (auto simp: list_all_iff)
  note inv_t = h2.run_inv [OF inv t]
  have same: "NodesNum (h2_View t) = n \<and> h2_ForwardChan t = None"
    using t
  proof (induction es arbitrary: t rule: rev_induct)
    case Nil
    then show ?case by (auto simp: NewHotstuff2_def)
  next
    case (snoc x es)
    then obtain u where u: "run (h2_step env) (NewHotstuff2 e v i n path (Some []) signer) es = Some u" "h2_step env u x = Some t"
      by (auto simp: run_append bind_Some_iff)
    note inv_u = h2.run_inv [OF inv u(1)]
    from snoc.IH [OF u(1)] h2_step_ok [OF inv_u, of env x] h2_step_posts [OF inv_u u(2)] u(2) show ?case
      by (auto simp: h2_moves_def h2_local_def h2_posts_def)
  qed
  have "\<exists>u. h2_step env t x = Some u \<and> ViewNumber (h2_View t) \<le> ViewNumber (h2_View u) \<and>
       one_more (h2_sent t) (h2_sent u) \<and> h2_ForwardChan u = None" for x
  proof -
    obtain u where u: "h2_step env t x = Some u" "h2_moves (step_locks env t x) t u"
      using h2_step_ok [OF inv_t, of env x] by blast
    with h2_step_posts [OF inv_t u(1)] same show ?thesis by (auto simp: h2_moves_def h2_local_def h2_posts_def)
  qed
  with inv_t same t show ?thesis by (auto simp: h2_inv_def timer_ok_def)
qed

theorem h2_never_stuck_witness:
  "\<exists>t. run (h2_step example_env) (NewHotstuff2 5 5 1 4 [] (Some []) \<lparr>PrivateKey = (1, []), PublicKey = [], SignNum = 4, Threshold = 3\<rparr>)
      [HDeliver 0 (nil_H2Msg\<lparr>h_MType := H2_PROPOSE\<rparr>), HViewTimeout, HRequest 0 1 None [], HDeliver 1 (nil_H2Msg\<lparr>h_MType := H2_TCMSG, h_ViewNumber := 7\<rparr>), HEnterTimeout, HRunSend 0] = Some t \<and>
    Leader (h2_View t) = ViewNumber (h2_View t) mod 4 \<and>
    length (LockBlk t) = length (LockHs2Node t) \<and> \<not> h2_ProposalLock t"
proof -
  have "(1::int) \<le> 4" by simp
  from h2_never_stuck [OF this] show ?thesis by blast
qed

end
