(* ===== verification/Hs2_Runs.thy ===== *)
theory Hs2_Runs
  imports Hs2_Props
begin

text \<open>
  HotStuff-2: what single messages make a replica do, the round of a replica up to the stored block,
  and runs that show what is not checked.
\<close>

section \<open>Sending\<close>

definition h2_sent :: "Hotstuff2 \<Rightarrow> H2Msg list" where
  "h2_sent s = (case h2_SendChan s of None \<Rightarrow> [] | Some c \<Rightarrow> map Payload c)"

definition h2_post :: "Hotstuff2 \<Rightarrow> H2Msg \<Rightarrow> Hotstuff2" where
  "h2_post s m = (let m = m\<lparr>h_SendNode := h2_GetNodeName s\<rparr>; s = s\<lparr>h2_CurRoundMsgs := h2_CurRoundMsgs s @ [m]\<rparr>
     in s\<lparr>h2_SendChan := map_option (\<lambda>c. c @ [\<lparr>SType = ORDER, SendServer = h_SendNode m, ReciServer = h_ReciNode m,
       Sign = None, Payload = m\<rparr>]) (h2_SendChan s)\<rparr>)"

lemma h2_post_sel [simp]:
  "h2_View (h2_post s m) = h2_View s" "h2_CurPhase (h2_post s m) = h2_CurPhase s" "h2_ConsId (h2_post s m) = h2_ConsId s"
  "h2_Signer (h2_post s m) = h2_Signer s" "LockBlk (h2_post s m) = LockBlk s" "LockHs2Node (h2_post s m) = LockHs2Node s"
  "h2_BlkStore (h2_post s m) = h2_BlkStore s" "CurHs2Node (h2_post s m) = CurHs2Node s" "ProposalQC (h2_post s m) = ProposalQC s"
  "h2_PrepareQC (h2_post s m) = h2_PrepareQC s" "h2_IgnoreCheckQC (h2_post s m) = h2_IgnoreCheckQC s" "PM (h2_post s m) = PM s"
  "h2_ProposalLock (h2_post s m) = h2_ProposalLock s" "h2_CurProposal (h2_post s m) = h2_CurProposal s"
  "h2_SendChan s \<noteq> None \<Longrightarrow> h2_SendChan (h2_post s m) \<noteq> None"
  by (simp_all add: h2_post_def Let_def)

lemma h2_sent_post: "h2_SendChan s \<noteq> None \<Longrightarrow> h2_sent (h2_post s m) = h2_sent s @ [m\<lparr>h_SendNode := h2_GetNodeName s\<rparr>]"
  by (auto simp: h2_sent_def h2_post_def Let_def)

lemma h2_sent_cong: "h2_SendChan s = h2_SendChan t \<Longrightarrow> h2_sent s = h2_sent t"
  by (simp add: h2_sent_def)

lemma h2_inv_post [simp]: "h2_inv (h2_post s m) = h2_inv s"
  by (auto simp: h2_inv_def h2_post_def Let_def)

lemma HandleH2Msg_post:
  assumes "RouteH2Msg env s m = Some (Some r, t)" "h_MType r \<noteq> H2_ENTER" "h2_SendChan t \<noteq> None"
  shows "HandleH2Msg env s m = Some (h2_post t r)"
  using assms by (auto simp: HandleH2Msg_def h2_SendSerMsg_def h2_post_def Let_def h2_GetNodeName_def)

lemma HandleH2Msg_quiet: "RouteH2Msg env s m = Some (None, t) \<Longrightarrow> HandleH2Msg env s m = Some t"
  by (simp add: HandleH2Msg_def)

lemma h2_Clock [simp]:
  "h2_CheckQC (env\<lparr>Clock := c\<rparr>) = h2_CheckQC env" "ThresholdSign (env\<lparr>Clock := c\<rparr>) = ThresholdSign env"
  "proposed (env\<lparr>Clock := c\<rparr>) s m = proposed env s m" "h2_UpdateConsensus (env\<lparr>Clock := c\<rparr>) s = h2_UpdateConsensus env s"
  by ((intro ext)?, simp add: h2_CheckQC_def ThresholdSignVerify_def ThresholdSign_def proposed_def h2_UpdateConsensus_def
      GenEmptyBlock_def Let_def)+

text \<open>The node's check of a certificate looks only at its signer.\<close>

lemma h2_CheckQC_cong: "h2_Signer s = h2_Signer t \<Longrightarrow> h2_CheckQC env s = h2_CheckQC env t"
  by (intro ext) (simp add: h2_CheckQC_def)

section \<open>A proposal, a prepare and an enter message\<close>

text \<open>The certificates a replica looks at; in view 0 and after a sync it looks at none.\<close>

definition h2_certs :: "'a env_scheme \<Rightarrow> Hotstuff2 \<Rightarrow> H2Msg \<Rightarrow> bool" where
  "h2_certs env s m \<longleftrightarrow> (h2_view s \<noteq> 0 \<and> \<not> h2_IgnoreCheckQC s \<longrightarrow>
     h2_CheckQC env s (Justify1 m) H2_PROPOSE (q2_ViewNumber (Justify1 m)) (bs_Height (h2_BlkStore s)) \<and>
     h2_CheckQC env s (Justify2 m) H2_PREPARE (q2_ViewNumber (Justify2 m)) (q2_Height (Justify2 m)))"

definition with_cert :: "Hotstuff2 \<Rightarrow> QuromCert \<Rightarrow> Hotstuff2" where
  "with_cert s q = (if q2_ViewNumber (ProposalQC s) < q2_ViewNumber q then s\<lparr>ProposalQC := q\<rparr> else s)"

lemma with_cert_sel [simp]:
  "h2_View (with_cert s q) = h2_View s" "h2_IgnoreCheckQC (with_cert s q) = h2_IgnoreCheckQC s" "h2_ConsId (with_cert s q) = h2_ConsId s"
  "h2_Signer (with_cert s q) = h2_Signer s" "h2_SendChan (with_cert s q) = h2_SendChan s" "LockBlk (with_cert s q) = LockBlk s"
  "LockHs2Node (with_cert s q) = LockHs2Node s" "h2_BlkStore (with_cert s q) = h2_BlkStore s" "h2_PrepareQC (with_cert s q) = h2_PrepareQC s"
  "PM (with_cert s q) = PM s" "h2_ProposalLock (with_cert s q) = h2_ProposalLock s" "h2_inv (with_cert s q) = h2_inv s"
  by (simp_all add: with_cert_def)

lemma h2_IsLeader_eq: "h2_inv s \<Longrightarrow> h2_IsLeader s \<longleftrightarrow> h2_view s mod NodesNum (h2_View s) = h2_ConsId s"
  by (simp add: h2_IsLeader_def GetLeaderNum_def h2_inv_def)

lemma propose_step:
  assumes inv: "h2_inv s" and m: "h_MType m = H2_PROPOSE" "h_ViewNumber m = h2_view s" and lead: "\<not> h2_IsLeader s"
    and ph: "h2_CurPhase s \<noteq> H2_PROPOSE" and cert: "h2_certs env s m"
    and commit: "h2_commit (AddValidation2Blk (with_cert s (Justify1 m)) (Justify2 m)) = Some u"
    and sg: "ThresholdSign env (h2_Signer s) (ballot H2_PROPOSE (h2_view s) (h_Hs2Node m)) = Some sg"
    and same: "h2_View u = h2_View s" "h2_Signer u = h2_Signer s" "h2_SendChan u = h2_SendChan s"
  shows "h2_step env s (HDeliver now m) =
    Some (h2_post ((proposed env u m)\<lparr>h2_CurPhase := H2_PROPOSE\<rparr>) (vote1_msg u m sg))"
proof -
  let ?e = "env\<lparr>Clock := now\<rparr>"
  have ps: "propose_cert ?e s m = Some (with_cert s (Justify1 m))"
    using lead cert by (auto simp: propose_cert_def h2_certs_def with_cert_def)
  have lead': "\<not> h2_IsLeader (with_cert s (Justify1 m))" using lead by (simp add: h2_IsLeader_def GetLeaderNum_def)
  have ok2: "\<not> (h2_view s \<noteq> 0 \<and> \<not> h2_IgnoreCheckQC s \<and>
      \<not> h2_CheckQC env (with_cert s (Justify1 m)) (Justify2 m) H2_PREPARE (q2_ViewNumber (Justify2 m)) (q2_Height (Justify2 m)))"
    using cert h2_CheckQC_cong [of "with_cert s (Justify1 m)" s env] by (auto simp: h2_certs_def)
  have "HandlePropose ?e s m = Some (propose_vote ?e u m)"
    using ph m(2) lead' ps commit ok2 by (auto simp: HandlePropose_def)
  also have "propose_vote ?e u m = (Some (vote1_msg u m sg), (proposed env u m)\<lparr>h2_CurPhase := H2_PROPOSE\<rparr>)"
    using propose_vote_eq [of m u ?e] m same sg by simp
  finally have "RouteH2Msg ?e s m = Some (Some (vote1_msg u m sg), (proposed env u m)\<lparr>h2_CurPhase := H2_PROPOSE\<rparr>)"
    using m(1) by (simp add: RouteH2Msg_def)
  then have "HandleH2Msg ?e s m = Some (h2_post ((proposed env u m)\<lparr>h2_CurPhase := H2_PROPOSE\<rparr>) (vote1_msg u m sg))"
    by (rule HandleH2Msg_post) (use same(3) h2_invD(5) [OF inv] in \<open>simp_all add: vote1_msg_def proposed_def\<close>)
  then show ?thesis by simp
qed

definition vote2_msg :: "Hotstuff2 \<Rightarrow> H2Msg \<Rightarrow> byte list \<Rightarrow> H2Msg" where
  "vote2_msg s m sg = nil_H2Msg\<lparr>h_MType := H2_VOTE2, h_ViewNumber := h_ViewNumber m, h_Hs2Node := h_Hs2Node m,
     ConsSign := Some sg, h_ReciNode := node_name ((h2_view s + 1) mod NodesNum (h2_View s))\<rparr>"

lemma prepare_step:
  assumes inv: "h2_inv s" and m: "h_MType m = H2_PREPARE" "h_ViewNumber m \<le> h2_view s" and lead: "\<not> h2_IsLeader s"
    and ph: "h2_CurPhase s = H2_PROPOSE"
    and qc: "h2_CheckQC env s (Justify1 m) H2_PROPOSE (h2_view s) (bh_Height (BlkHdr (CurProposalBlk (h2_BlkStore s))))"
    and sg: "ThresholdSign env (h2_Signer s) (ballot H2_PREPARE (h_ViewNumber m) (h_Hs2Node m)) = Some sg"
  shows "\<exists>t. timer_ok t \<and> h2_step env s (HDeliver now m) =
    Some (h2_post (s\<lparr>PM := (PM s)\<lparr>pm_ViewTimer := t\<rparr>, ProposalQC := Justify1 m, h2_CurPhase := H2_PREPARE\<rparr>) (vote2_msg s m sg))"
proof -
  let ?e = "env\<lparr>Clock := now\<rparr>"
  have "(Leader (h2_View s) + 1) mod NodesNum (h2_View s) = (h2_view s + 1) mod NodesNum (h2_View s)"
    unfolding h2_invD(2) [OF inv] by (simp add: mod_add_left_eq)
  then have nl: "GetNextLeaderName s = Some (node_name ((h2_view s + 1) mod NodesNum (h2_View s)))"
    using NextLeaderName_ok [OF h2_invD(1) [OF inv]] by (simp add: GetNextLeaderName_def)
  obtain t where t: "h2_stop_view s = Some (s\<lparr>PM := (PM s)\<lparr>pm_ViewTimer := t\<rparr>\<rparr>)" "timer_ok t"
    using h2_stop_view_ok [OF h2_invD(3) [OF inv]] by blast
  let ?t = "s\<lparr>PM := (PM s)\<lparr>pm_ViewTimer := t\<rparr>, ProposalQC := Justify1 m, h2_CurPhase := H2_PREPARE\<rparr>"
  have "h2_HandlePrepare ?e s m = Some (Some (vote2_msg s m sg), ?t)"
    using m lead ph qc sg nl t(1)
    by (simp add: h2_HandlePrepare_def Let_def vote2_msg_def ballot_def H2_Message2Byte_def nil_H2Msg_def)
  then have "RouteH2Msg ?e s m = Some (Some (vote2_msg s m sg), ?t)" using m(1) by (simp add: RouteH2Msg_def)
  then have "HandleH2Msg ?e s m = Some (h2_post ?t (vote2_msg s m sg))"
    by (rule HandleH2Msg_post) (use h2_invD(5) [OF inv] in \<open>simp_all add: vote2_msg_def\<close>)
  then show ?thesis using t(2) by auto
qed

lemma enter_step:
  assumes inv: "h2_inv s" and m: "h_MType m = H2_ENTER" "h_ViewNumber m = h2_view s"
    and next_lead: "(h2_view s + 1) mod NodesNum (h2_View s) \<noteq> h2_ConsId s" and ph: "h2_CurPhase s \<noteq> H2_NEW_PROPOSE"
    and qc: "h2_CheckQC env s (Justify2 m) H2_PREPARE (h2_view s) (q2_Height (Justify2 m))"
  shows "\<exists>v pm. NextView (h2_View s) = Some v \<and> view_ok v \<and> ViewNumber v = h2_view s + 1 \<and> NodesNum v = NodesNum (h2_View s) \<and>
    h2_step env s (HDeliver now m) = Some ((h2_UpdateConsensus env s)\<lparr>h2_View := v, PM := pm, h2_CurPhase := H2_NEW_VIEW, h2_PrepareQC := Justify2 m\<rparr>)"
proof -
  let ?e = "env\<lparr>Clock := now\<rparr>"
  let ?s0 = "s\<lparr>PM := (PM s)\<lparr>OptimisticFlag := True\<rparr>\<rparr>"
  obtain v where v: "NextView (h2_View s) = Some v" "view_ok v" "ViewNumber v = h2_view s + 1" "NodesNum v = NodesNum (h2_View s)"
    "Leader v = ViewNumber v mod NodesNum v" using h2_next_view [OF inv] by blast
  let ?s1 = "(h2_UpdateConsensus env ?s0)\<lparr>h2_View := v\<rparr>"
  have pm: "PM ?s1 = (PM s)\<lparr>OptimisticFlag := True\<rparr>" by (simp add: h2_UpdateConsensus_def Let_def)
  obtain t where t: "h2_start_view ?s1 = Some (?s1\<lparr>PM := (PM ?s1)\<lparr>pm_ViewTimer := t\<rparr>\<rparr>)"
    using h2_start_view_ok [of ?s1] h2_invD(3) [OF inv] pm by auto
  have lead: "\<not> h2_IsLeader (?s1\<lparr>PM := (PM ?s1)\<lparr>pm_ViewTimer := t\<rparr>\<rparr>)"
    using next_lead v(3-5) by (simp add: h2_IsLeader_def GetLeaderNum_def h2_UpdateConsensus_def Let_def)
  have eq: "h2_UpdateConsensus env ?s0 = (h2_UpdateConsensus env s)\<lparr>PM := (PM s)\<lparr>OptimisticFlag := True\<rparr>\<rparr>"
    by (cases s) (simp add: h2_UpdateConsensus_def Let_def)
  have "HandleOptimisticEnter ?e s m = Some (None, ?s1\<lparr>PM := (PM ?s1)\<lparr>pm_ViewTimer := t\<rparr>, h2_CurPhase := H2_NEW_VIEW, h2_PrepareQC := Justify2 m\<rparr>)"
    using h2_invD(6) [OF inv] m ph qc v(1) t lead by (simp add: HandleOptimisticEnter_def Let_def h2_UpdateConsensus_inv(4))
  then have "RouteH2Msg ?e s m = Some (None, ?s1\<lparr>PM := (PM ?s1)\<lparr>pm_ViewTimer := t\<rparr>, h2_CurPhase := H2_NEW_VIEW, h2_PrepareQC := Justify2 m\<rparr>)"
    using m(1) by (simp add: RouteH2Msg_def)
  from HandleH2Msg_quiet [OF this] have
    "h2_step env s (HDeliver now m) = Some ((h2_UpdateConsensus env s)\<lparr>h2_View := v, PM := (PM ?s1)\<lparr>pm_ViewTimer := t\<rparr>, h2_CurPhase := H2_NEW_VIEW, h2_PrepareQC := Justify2 m\<rparr>)"
    unfolding eq by simp
  with v show ?thesis by blast
qed


section \<open>The round of a replica\<close>

lemma commit_none: "LockBlk s = [] \<Longrightarrow> h2_commit s = Some s"
  by (simp add: h2_commit_def GenCommitBlkIndex_def WriteNewH2Block_def)

lemma commit_single:
  assumes "LockBlk s = [b]" "LockHs2Node s = [nd]" "bh_ViewNumber (BlkHdr b) = q2_ViewNumber (h2_PrepareQC s)"
  shows "h2_commit s = Some (s\<lparr>h2_BlkStore := StoreBlock (h2_BlkStore s) b, LockHs2Node := [], LockBlk := [],
    h2_CurProposal := (h2_CurProposal s)\<lparr>p2_PreBlkHash := CurBlkHash (h2_BlkStore s)\<rparr>\<rparr>)"
  using assms by (simp add: h2_commit_def GenCommitBlkIndex_def WriteNewH2Block_def UpdateAfterCommit_def Let_def)

definition gist :: "H2Msg \<Rightarrow> h2_StateType \<times> int \<times> HsNode" where
  "gist m = (h_MType m, h_ViewNumber m, h_Hs2Node m)"

lemma gist_simps [simp]:
  "gist ((vote1_msg s m sg)\<lparr>h_SendNode := x\<rparr>) = (H2_VOTE1, h_ViewNumber m, h_Hs2Node m)"
  "gist ((vote2_msg s m sg)\<lparr>h_SendNode := x\<rparr>) = (H2_VOTE2, h_ViewNumber m, h_Hs2Node m)"
  by (simp_all add: gist_def vote1_msg_def vote2_msg_def)

lemma CheckQC_view: "h2_CheckQC env s q t v h \<Longrightarrow> q2_ViewNumber q = v \<and> q2_Height q = h"
  by (auto simp: h2_CheckQC_def h2_MatchingQC_def split: if_splits)

text \<open>What a replica has done and sent, as far as the rounds need it.\<close>

definition h2_after :: "Hotstuff2 \<Rightarrow> Hotstuff2 \<Rightarrow> (h2_StateType \<times> int \<times> HsNode) list \<Rightarrow> bool" where
  "h2_after s t out \<longleftrightarrow> h2_inv t \<and> h2_Signer t = h2_Signer s \<and> h2_ConsId t = h2_ConsId s \<and>
     NodesNum (h2_View t) = NodesNum (h2_View s) \<and> bs_Path (h2_BlkStore t) = bs_Path (h2_BlkStore s) \<and>
     map gist (h2_sent t) = map gist (h2_sent s) @ out"

lemma h2_after_trans: "h2_after s t o1 \<Longrightarrow> h2_after t u o2 \<Longrightarrow> h2_after s u (o1 @ o2)"
  by (simp add: h2_after_def)

lemma after_propose:
  assumes inv: "h2_inv s" and m: "h_MType m = H2_PROPOSE" "h_ViewNumber m = h2_view s"
    and lead: "h2_view s mod NodesNum (h2_View s) \<noteq> h2_ConsId s" and ph: "h2_CurPhase s \<noteq> H2_PROPOSE" and cert: "h2_certs env s m"
    and sg: "\<forall>x. ThresholdSign env (h2_Signer s) x \<noteq> None" and locks: "LockBlk s = []"
  shows "\<exists>t. h2_step env s (HDeliver now m) = Some t \<and> h2_after s t [(H2_VOTE1, h2_view s, h_Hs2Node m)] \<and>
    h2_View t = h2_View s \<and> h2_CurPhase t = H2_PROPOSE \<and> LockBlk t = [] \<and> LockHs2Node t = [] \<and> CurHs2Node t = h_Hs2Node m \<and>
    CurProposalBlk (h2_BlkStore t) = h_Block m \<and> bs_Height (h2_BlkStore t) = bs_Height (h2_BlkStore s)"
proof -
  let ?w = "AddValidation2Blk (with_cert s (Justify1 m)) (Justify2 m)"
  have w: "LockBlk ?w = []" "h2_View ?w = h2_View s" "h2_Signer ?w = h2_Signer s" "h2_SendChan ?w = h2_SendChan s" "h2_inv ?w"
    "h2_BlkStore ?w = h2_BlkStore s" "h2_ConsId ?w = h2_ConsId s"
    using locks inv by (simp_all add: AddValidation2Blk_def) (simp add: h2_inv_def with_cert_def)
  obtain g where g: "ThresholdSign env (h2_Signer s) (ballot H2_PROPOSE (h2_view s) (h_Hs2Node m)) = Some g" using sg by blast
  let ?t = "h2_post ((proposed env ?w m)\<lparr>h2_CurPhase := H2_PROPOSE\<rparr>) (vote1_msg ?w m g)"
  have "h2_step env s (HDeliver now m) = Some ?t"
    using propose_step [OF inv m _ ph cert commit_none [OF w(1)] g w(2-4)] h2_IsLeader_eq [OF inv] lead by simp
  moreover have "h2_inv ?t" using proposed_inv(1) [OF w(5)] by simp
  moreover have "h2_sent ?t = h2_sent s @ [(vote1_msg ?w m g)\<lparr>h_SendNode := h2_GetNodeName ((proposed env ?w m)\<lparr>h2_CurPhase := H2_PROPOSE\<rparr>)\<rparr>]"
    using h2_invD(5) [OF inv] w(4) by (subst h2_sent_post) (auto simp: proposed_def h2_sent_def)
  moreover have "LockHs2Node ?w = []" using h2_invD(7) [OF w(5)] w(1) by simp
  ultimately show ?thesis using w m(2) by (simp add: h2_after_def proposed_def)
qed

lemma after_prepare:
  assumes inv: "h2_inv s" and m: "h_MType m = H2_PREPARE" "h_ViewNumber m \<le> h2_view s"
    and lead: "h2_view s mod NodesNum (h2_View s) \<noteq> h2_ConsId s" and ph: "h2_CurPhase s = H2_PROPOSE"
    and qc: "h2_CheckQC env s (Justify1 m) H2_PROPOSE (h2_view s) (bh_Height (BlkHdr (CurProposalBlk (h2_BlkStore s))))"
    and sg: "\<forall>x. ThresholdSign env (h2_Signer s) x \<noteq> None"
  shows "\<exists>t. h2_step env s (HDeliver now m) = Some t \<and> h2_after s t [(H2_VOTE2, h_ViewNumber m, h_Hs2Node m)] \<and>
    h2_View t = h2_View s \<and> h2_CurPhase t = H2_PREPARE \<and> LockBlk t = LockBlk s \<and> LockHs2Node t = LockHs2Node s \<and>
    h2_BlkStore t = h2_BlkStore s \<and> h2_IgnoreCheckQC t = h2_IgnoreCheckQC s \<and> ProposalQC t = Justify1 m"
proof -
  obtain g where g: "ThresholdSign env (h2_Signer s) (ballot H2_PREPARE (h_ViewNumber m) (h_Hs2Node m)) = Some g" using sg by blast
  obtain tm where tm: "timer_ok tm" "h2_step env s (HDeliver now m) =
    Some (h2_post (s\<lparr>PM := (PM s)\<lparr>pm_ViewTimer := tm\<rparr>, ProposalQC := Justify1 m, h2_CurPhase := H2_PREPARE\<rparr>) (vote2_msg s m g))"
    using prepare_step [OF inv m _ ph qc g] h2_IsLeader_eq [OF inv] lead by blast
  let ?u = "s\<lparr>PM := (PM s)\<lparr>pm_ViewTimer := tm\<rparr>, ProposalQC := Justify1 m, h2_CurPhase := H2_PREPARE\<rparr>"
  have "h2_inv ?u" using inv tm(1) by (simp add: h2_inv_def)
  moreover have "h2_sent (h2_post ?u (vote2_msg s m g)) = h2_sent s @ [(vote2_msg s m g)\<lparr>h_SendNode := h2_GetNodeName ?u\<rparr>]"
    using h2_invD(5) [OF inv] by (subst h2_sent_post) (auto simp: h2_sent_def)
  ultimately show ?thesis using tm(2) by (simp add: h2_after_def)
qed

lemma after_enter:
  assumes inv: "h2_inv s" and m: "h_MType m = H2_ENTER" "h_ViewNumber m = h2_view s"
    and lead: "(h2_view s + 1) mod NodesNum (h2_View s) \<noteq> h2_ConsId s" and ph: "h2_CurPhase s \<noteq> H2_NEW_PROPOSE"
    and qc: "h2_CheckQC env s (Justify2 m) H2_PREPARE (h2_view s) (q2_Height (Justify2 m))" and locks: "LockBlk s = []" "LockHs2Node s = []"
  shows "\<exists>t. h2_step env s (HDeliver now m) = Some t \<and> h2_after s t [] \<and> h2_view t = h2_view s + 1 \<and> h2_CurPhase t = H2_NEW_VIEW \<and>
    LockBlk t = [CurProposalBlk (h2_BlkStore s)] \<and> LockHs2Node t = [CurHs2Node s] \<and> h2_PrepareQC t = Justify2 m \<and>
    bs_Height (h2_BlkStore t) = bs_Height (h2_BlkStore s) \<and> CurBlkHash (h2_BlkStore t) = Some (EmptyHash (SM3 env))"
proof -
  obtain v pm where v: "NextView (h2_View s) = Some v" "ViewNumber v = h2_view s + 1" "NodesNum v = NodesNum (h2_View s)"
    and st: "h2_step env s (HDeliver now m) = Some ((h2_UpdateConsensus env s)\<lparr>h2_View := v, PM := pm, h2_CurPhase := H2_NEW_VIEW, h2_PrepareQC := Justify2 m\<rparr>)"
    using enter_step [OF inv m lead ph qc] by blast
  have "h2_inv ((h2_UpdateConsensus env s)\<lparr>h2_View := v, PM := pm, h2_CurPhase := H2_NEW_VIEW, h2_PrepareQC := Justify2 m\<rparr>)"
    using h2.inv_step [OF inv st] .
  then show ?thesis using st v locks
    by (simp add: h2_after_def h2_UpdateConsensus_def Let_def GenEmptyBlock_def h2_sent_def)
qed

text \<open>
  The next proposal stores the block locked by the enter message. It is linked to the hash of the
  empty string: \<open>CurBlkHash\<close> was reset when the block was locked.
\<close>

lemma after_next:
  assumes inv: "h2_inv s" and m: "h_MType m = H2_PROPOSE" "h_ViewNumber m = h2_view s"
    and lead: "h2_view s mod NodesNum (h2_View s) \<noteq> h2_ConsId s" and ph: "h2_CurPhase s \<noteq> H2_PROPOSE" and cert: "h2_certs env s m"
    and sg: "\<forall>x. ThresholdSign env (h2_Signer s) x \<noteq> None" and locks: "LockBlk s = [b]" "LockHs2Node s = [nd]"
    and vw: "bh_ViewNumber (BlkHdr b) = q2_ViewNumber (h2_PrepareQC s)" "q2_ViewNumber (Justify2 m) = bh_ViewNumber (BlkHdr b)"
  shows "\<exists>t. h2_step env s (HDeliver now m) = Some t \<and> h2_after s t [(H2_VOTE1, h2_view s, h_Hs2Node m)] \<and>
    h2_View t = h2_View s \<and> h2_CurPhase t = H2_PROPOSE \<and> LockBlk t = [] \<and> CurProposalBlk (h2_BlkStore t) = h_Block m \<and>
    bs_Height (h2_BlkStore t) = bs_Height (h2_BlkStore s) + 1 \<and> bs_PreBlkHash (h2_BlkStore t) = CurBlkHash (h2_BlkStore s) \<and>
    bs_Files (h2_BlkStore t) = (bs_Files (h2_BlkStore s))
      (block_file (bs_Path (h2_BlkStore s) @ ''/'') (bh_Height (BlkHdr b)) \<mapsto> b\<lparr>BlkHdr := (BlkHdr b)\<lparr>bh_Validation := q2_Sign (Justify2 m)\<rparr>\<rparr>)"
proof -
  let ?w = "AddValidation2Blk (with_cert s (Justify1 m)) (Justify2 m)"
  define b' where "b' = b\<lparr>BlkHdr := (BlkHdr b)\<lparr>bh_Validation := q2_Sign (Justify2 m)\<rparr>\<rparr>"
  have w: "LockBlk ?w = [b']" "LockHs2Node ?w = [nd]" "bh_ViewNumber (BlkHdr b') = q2_ViewNumber (h2_PrepareQC ?w)"
    "h2_BlkStore ?w = h2_BlkStore s"
    using locks vw by (simp_all add: AddValidation2Blk_def b'_def)
  define u where "u = ?w\<lparr>h2_BlkStore := StoreBlock (h2_BlkStore ?w) b', LockHs2Node := [], LockBlk := [],
    h2_CurProposal := (h2_CurProposal ?w)\<lparr>p2_PreBlkHash := CurBlkHash (h2_BlkStore ?w)\<rparr>\<rparr>"
  have c: "h2_commit ?w = Some u" unfolding u_def by (rule commit_single [OF w(1-3)])
  have u: "h2_View u = h2_View s" "h2_Signer u = h2_Signer s" "h2_SendChan u = h2_SendChan s" "h2_ConsId u = h2_ConsId s" "LockBlk u = []"
    "h2_BlkStore u = StoreBlock (h2_BlkStore s) b'"
    by (simp_all add: u_def AddValidation2Blk_def)
  have iu: "h2_inv u" using inv by (simp add: u_def AddValidation2Blk_def h2_inv_def with_cert_def)
  obtain g where g: "ThresholdSign env (h2_Signer s) (ballot H2_PROPOSE (h2_view s) (h_Hs2Node m)) = Some g" using sg by blast
  let ?t = "h2_post ((proposed env u m)\<lparr>h2_CurPhase := H2_PROPOSE\<rparr>) (vote1_msg u m g)"
  have "h2_step env s (HDeliver now m) = Some ?t"
    using propose_step [OF inv m _ ph cert c g u(1-3)] h2_IsLeader_eq [OF inv] lead by simp
  moreover have "h2_inv ?t" using proposed_inv(1) [OF iu] by simp
  moreover have "h2_sent ?t = h2_sent s @ [(vote1_msg u m g)\<lparr>h_SendNode := h2_GetNodeName ((proposed env u m)\<lparr>h2_CurPhase := H2_PROPOSE\<rparr>)\<rparr>]"
    using h2_invD(5) [OF inv] u(3) by (subst h2_sent_post) (auto simp: proposed_def h2_sent_def)
  ultimately show ?thesis using u m(2)
    by (simp add: h2_after_def proposed_def StoreBlock_files b'_def)
qed


lemma h2_certs_cong:
  "\<lbrakk>h2_Signer t = h2_Signer s; bs_Height (h2_BlkStore t) = bs_Height (h2_BlkStore s);
    h2_CheckQC env s (Justify1 m) H2_PROPOSE (q2_ViewNumber (Justify1 m)) (bs_Height (h2_BlkStore s));
    h2_CheckQC env s (Justify2 m) H2_PREPARE (q2_ViewNumber (Justify2 m)) (q2_Height (Justify2 m))\<rbrakk> \<Longrightarrow> h2_certs env t m"
  using h2_CheckQC_cong [of t s env] by (simp add: h2_certs_def)

section \<open>Properties\<close>

text \<open>
  C36 The round of a replica: a proposal, its prepare and enter messages with valid certificates and
  the proposal of the next view, sent to a replica that leads neither view and has nothing locked,
  make it send a first and a second vote and the first vote of the next view, store the block in the
  file of its height with the prepare certificate's signature as its validation, and lock nothing.
\<close>

theorem h2_replica_round:
  assumes inv: "h2_inv s" "LockBlk s = []" "h2_CurPhase s = H2_NEW_VIEW"
    and roles: "h2_view s mod NodesNum (h2_View s) \<noteq> h2_ConsId s" "(h2_view s + 1) mod NodesNum (h2_View s) \<noteq> h2_ConsId s"
    and signs: "\<forall>x. ThresholdSign env (h2_Signer s) x \<noteq> None"
    and p: "h_MType p = H2_PROPOSE" "h_ViewNumber p = h2_view s" "h2_certs env s p" "bh_ViewNumber (BlkHdr (h_Block p)) = h2_view s"
    and m: "h_MType m = H2_PREPARE" "h_ViewNumber m = h2_view s"
      "h2_CheckQC env s (Justify1 m) H2_PROPOSE (h2_view s) (bh_Height (BlkHdr (h_Block p)))"
    and e: "h_MType e = H2_ENTER" "h_ViewNumber e = h2_view s" "h2_CheckQC env s (Justify2 e) H2_PREPARE (h2_view s) (q2_Height (Justify2 e))"
    and q: "h_MType q = H2_PROPOSE" "h_ViewNumber q = h2_view s + 1"
      "h2_CheckQC env s (Justify1 q) H2_PROPOSE (q2_ViewNumber (Justify1 q)) (bs_Height (h2_BlkStore s))"
      "h2_CheckQC env s (Justify2 q) H2_PREPARE (h2_view s) (q2_Height (Justify2 q))"
  shows "\<exists>t. run (h2_step env) s [HDeliver t1 p, HDeliver t2 m, HDeliver t3 e, HDeliver t4 q] = Some t \<and>
    bs_Files (h2_BlkStore t) (block_file (bs_Path (h2_BlkStore s) @ ''/'') (bh_Height (BlkHdr (h_Block p)))) =
      Some ((h_Block p)\<lparr>BlkHdr := (BlkHdr (h_Block p))\<lparr>bh_Validation := q2_Sign (Justify2 q)\<rparr>\<rparr>) \<and>
    bs_Height (h2_BlkStore t) = bs_Height (h2_BlkStore s) + 1 \<and> LockBlk t = [] \<and> h2_view t = h2_view s + 1 \<and>
    map gist (h2_sent t) = map gist (h2_sent s) @ [(H2_VOTE1, h2_view s, h_Hs2Node p), (H2_VOTE2, h2_view s, h_Hs2Node m),
      (H2_VOTE1, h2_view s + 1, h_Hs2Node q)]"
proof -
  obtain a where a: "h2_step env s (HDeliver t1 p) = Some a" "h2_after s a [(H2_VOTE1, h2_view s, h_Hs2Node p)]" "h2_View a = h2_View s"
    "h2_CurPhase a = H2_PROPOSE" "LockBlk a = []" "LockHs2Node a = []" "CurProposalBlk (h2_BlkStore a) = h_Block p"
    "bs_Height (h2_BlkStore a) = bs_Height (h2_BlkStore s)"
    using after_propose [OF inv(1) p(1,2) roles(1) _ p(3) signs inv(2), of t1] inv(3) by auto
  have ia: "h2_inv a" "h2_Signer a = h2_Signer s" "h2_ConsId a = h2_ConsId s" using a(2) by (simp_all add: h2_after_def)
  note qa = h2_CheckQC_cong [OF ia(2), of env]
  obtain b where b: "h2_step env a (HDeliver t2 m) = Some b" "h2_after a b [(H2_VOTE2, h2_view s, h_Hs2Node m)]" "h2_View b = h2_View s"
    "h2_CurPhase b = H2_PREPARE" "LockBlk b = []" "LockHs2Node b = []" "h2_BlkStore b = h2_BlkStore a"
    using after_prepare [OF ia(1) m(1), of env t2] m(2,3) roles(1) signs a(3-7) ia qa by auto
  have ib: "h2_inv b" "h2_Signer b = h2_Signer s" "h2_ConsId b = h2_ConsId s" using b(2) ia by (simp_all add: h2_after_def)
  obtain c where c: "h2_step env b (HDeliver t3 e) = Some c" "h2_after b c []" "h2_view c = h2_view s + 1" "h2_CurPhase c = H2_NEW_VIEW"
    "LockBlk c = [h_Block p]" "LockHs2Node c = [CurHs2Node b]" "h2_PrepareQC c = Justify2 e" "bs_Height (h2_BlkStore c) = bs_Height (h2_BlkStore s)"
    using after_enter [OF ib(1) e(1), of env t3] e(2,3) roles(2) a(7,8) b(3-7) ib h2_CheckQC_cong [OF ib(2), of env] by auto
  have ic: "h2_inv c" "h2_Signer c = h2_Signer s" "h2_ConsId c = h2_ConsId s" "NodesNum (h2_View c) = NodesNum (h2_View s)"
    "bs_Path (h2_BlkStore c) = bs_Path (h2_BlkStore s)"
    using c(2) ib b(3) b(2) a(2) by (simp_all add: h2_after_def)
  have vq: "q2_ViewNumber (Justify2 q) = h2_view s" "q2_ViewNumber (Justify2 e) = h2_view s" using CheckQC_view q(4) e(3) by blast+
  have cq: "h2_certs env c q" using q(4) vq(1) by (intro h2_certs_cong [OF ic(2) c(8) q(3)]) simp
  obtain d where d: "h2_step env c (HDeliver t4 q) = Some d" "h2_after c d [(H2_VOTE1, h2_view c, h_Hs2Node q)]" "h2_View d = h2_View c"
    "LockBlk d = []" "bs_Height (h2_BlkStore d) = bs_Height (h2_BlkStore c) + 1"
    "bs_Files (h2_BlkStore d) = (bs_Files (h2_BlkStore c)) (block_file (bs_Path (h2_BlkStore c) @ ''/'') (bh_Height (BlkHdr (h_Block p))) \<mapsto>
       (h_Block p)\<lparr>BlkHdr := (BlkHdr (h_Block p))\<lparr>bh_Validation := q2_Sign (Justify2 q)\<rparr>\<rparr>)"
    using after_next [OF ic(1) q(1) _ _ _ cq _ c(5,6), of t4] q(2) c(3,4,7) roles(2) ic signs p(4) vq by auto
  have "h2_after s d ([(H2_VOTE1, h2_view s, h_Hs2Node p)] @ [(H2_VOTE2, h2_view s, h_Hs2Node m)] @ [] @ [(H2_VOTE1, h2_view c, h_Hs2Node q)])"
    using a(2) b(2) c(2) d(2) by (blast intro: h2_after_trans)
  then show ?thesis using a(1) b(1) c(1,3,8) d ic(5) by (simp add: h2_after_def)
qed

text \<open>
  Two blocks of one view: after the prepare message of a proposal a replica takes a second
  proposal for the same view, as only the phase after the first is refused, and votes for it and for
  its prepare message too, so both blocks can get both certificates in one view.
\<close>

theorem h2_double_vote:
  assumes inv: "h2_inv s" "LockBlk s = []" "h2_CurPhase s = H2_NEW_VIEW" "h2_view s mod NodesNum (h2_View s) \<noteq> h2_ConsId s"
    and signs: "\<forall>x. ThresholdSign env (h2_Signer s) x \<noteq> None"
    and p: "\<forall>p\<in>{p1, p2}. h_MType p = H2_PROPOSE \<and> h_ViewNumber p = h2_view s \<and>
      h2_CheckQC env s (Justify1 p) H2_PROPOSE (q2_ViewNumber (Justify1 p)) (bs_Height (h2_BlkStore s)) \<and>
      h2_CheckQC env s (Justify2 p) H2_PREPARE (q2_ViewNumber (Justify2 p)) (q2_Height (Justify2 p))"
    and m: "\<forall>(m, p)\<in>{(m1, p1), (m2, p2)}. h_MType m = H2_PREPARE \<and> h_ViewNumber m = h2_view s \<and>
      h2_CheckQC env s (Justify1 m) H2_PROPOSE (h2_view s) (bh_Height (BlkHdr (h_Block p)))"
  shows "\<exists>t. run (h2_step env) s [HDeliver t1 p1, HDeliver t2 m1, HDeliver t3 p2, HDeliver t4 m2] = Some t \<and>
    map gist (h2_sent t) = map gist (h2_sent s) @ [(H2_VOTE1, h2_view s, h_Hs2Node p1), (H2_VOTE2, h2_view s, h_Hs2Node m1),
      (H2_VOTE1, h2_view s, h_Hs2Node p2), (H2_VOTE2, h2_view s, h_Hs2Node m2)]"
proof -
  have half: "\<exists>u. h2_step env w (HDeliver ta pa) \<bind> (\<lambda>w. h2_step env w (HDeliver tb ma)) = Some u \<and>
      h2_after w u [(H2_VOTE1, h2_view s, h_Hs2Node pa), (H2_VOTE2, h2_view s, h_Hs2Node ma)] \<and> h2_View u = h2_View s \<and>
      h2_CurPhase u = H2_PREPARE \<and> LockBlk u = [] \<and> bs_Height (h2_BlkStore u) = bs_Height (h2_BlkStore s)"
    if w: "h2_inv w" "h2_Signer w = h2_Signer s" "h2_ConsId w = h2_ConsId s" "h2_View w = h2_View s" "h2_CurPhase w \<noteq> H2_PROPOSE" "LockBlk w = []"
      "bs_Height (h2_BlkStore w) = bs_Height (h2_BlkStore s)" and pm: "pa \<in> {p1, p2}" "(ma, pa) \<in> {(m1, p1), (m2, p2)}" for w pa ma ta tb
  proof -
    from p pm(1) have pa: "h_MType pa = H2_PROPOSE" "h_ViewNumber pa = h2_view w"
      "h2_CheckQC env s (Justify1 pa) H2_PROPOSE (q2_ViewNumber (Justify1 pa)) (bs_Height (h2_BlkStore s))"
      "h2_CheckQC env s (Justify2 pa) H2_PREPARE (q2_ViewNumber (Justify2 pa)) (q2_Height (Justify2 pa))" using w(4) by auto
    from m pm(2) have ma: "h_MType ma = H2_PREPARE" "h_ViewNumber ma = h2_view s"
      "h2_CheckQC env s (Justify1 ma) H2_PROPOSE (h2_view s) (bh_Height (BlkHdr (h_Block pa)))" by auto
    obtain a where a: "h2_step env w (HDeliver ta pa) = Some a" "h2_after w a [(H2_VOTE1, h2_view s, h_Hs2Node pa)]" "h2_View a = h2_View s"
      "h2_CurPhase a = H2_PROPOSE" "LockBlk a = []" "CurProposalBlk (h2_BlkStore a) = h_Block pa"
      "bs_Height (h2_BlkStore a) = bs_Height (h2_BlkStore s)"
      using after_propose [OF w(1) pa(1,2) _ w(5) h2_certs_cong [OF w(2,7) pa(3,4)] _ w(6), of ta] inv(4) w(2-4,7) signs by auto
    have ia: "h2_inv a" "h2_Signer a = h2_Signer s" "h2_ConsId a = h2_ConsId s" using a(2) w(2,3) by (simp_all add: h2_after_def)
    obtain b where b: "h2_step env a (HDeliver tb ma) = Some b" "h2_after a b [(H2_VOTE2, h2_view s, h_Hs2Node ma)]" "h2_View b = h2_View s"
      "h2_CurPhase b = H2_PREPARE" "LockBlk b = []" "h2_BlkStore b = h2_BlkStore a"
      using after_prepare [OF ia(1) ma(1), of env tb] ma(2,3) inv(4) signs a(3-6) ia h2_CheckQC_cong [OF ia(2), of env] by auto
    have "h2_after w b ([(H2_VOTE1, h2_view s, h_Hs2Node pa)] @ [(H2_VOTE2, h2_view s, h_Hs2Node ma)])"
      using a(2) b(2) by (rule h2_after_trans)
    with a b show ?thesis by simp
  qed
  obtain u where u: "h2_step env s (HDeliver t1 p1) \<bind> (\<lambda>w. h2_step env w (HDeliver t2 m1)) = Some u"
    "h2_after s u [(H2_VOTE1, h2_view s, h_Hs2Node p1), (H2_VOTE2, h2_view s, h_Hs2Node m1)]" "h2_View u = h2_View s"
    "h2_CurPhase u = H2_PREPARE" "LockBlk u = []" "bs_Height (h2_BlkStore u) = bs_Height (h2_BlkStore s)"
    using half [of s p1 m1 t1 t2] inv by auto
  have iu: "h2_inv u" "h2_Signer u = h2_Signer s" "h2_ConsId u = h2_ConsId s" using u(2) by (simp_all add: h2_after_def)
  obtain t where t: "h2_step env u (HDeliver t3 p2) \<bind> (\<lambda>w. h2_step env w (HDeliver t4 m2)) = Some t"
    "h2_after u t [(H2_VOTE1, h2_view s, h_Hs2Node p2), (H2_VOTE2, h2_view s, h_Hs2Node m2)]"
    using half [of u p2 m2 t3 t4] u iu by auto
  have "run (h2_step env) s [HDeliver t1 p1, HDeliver t2 m1, HDeliver t3 p2, HDeliver t4 m2] = Some t"
    using u(1) t(1) by (auto simp: bind_Some_iff)
  with h2_after_trans [OF u(2) t(2)] show ?thesis by (auto simp: h2_after_def)
qed


text \<open>
  A second vote for anything: a replica that has voted for a proposal signs, for one valid
  certificate of that proposal, a second vote for whatever node and whatever view up to its own the
  prepare message names; neither is compared with the certificate.
\<close>

theorem h2_vote2_unbound:
  assumes inv: "h2_inv s" and "h2_CurPhase s = H2_PROPOSE" "h2_view s mod NodesNum (h2_View s) \<noteq> h2_ConsId s"
    and qc: "h2_CheckQC env s qc H2_PROPOSE (h2_view s) (bh_Height (BlkHdr (CurProposalBlk (h2_BlkStore s))))"
    and "w \<le> h2_view s" and sg: "ThresholdSign env (h2_Signer s) (h2_sign_bytes H2_PREPARE w nd) = Some sg"
  shows "\<exists>t vote. h2_step env s (HDeliver now (nil_H2Msg\<lparr>h_MType := H2_PREPARE, h_ViewNumber := w, h_Hs2Node := nd, Justify1 := qc\<rparr>)) = Some t \<and>
    h2_sent t = h2_sent s @ [vote] \<and> gist vote = (H2_VOTE2, w, nd) \<and> ConsSign vote = Some sg"
proof -
  let ?m = "nil_H2Msg\<lparr>h_MType := H2_PREPARE, h_ViewNumber := w, h_Hs2Node := nd, Justify1 := qc\<rparr>"
  have g: "ThresholdSign env (h2_Signer s) (ballot H2_PREPARE (h_ViewNumber ?m) (h_Hs2Node ?m)) = Some sg"
    using sg by (simp add: ballot_def)
  obtain tm where st: "h2_step env s (HDeliver now ?m) =
    Some (h2_post (s\<lparr>PM := (PM s)\<lparr>pm_ViewTimer := tm\<rparr>, ProposalQC := Justify1 ?m, h2_CurPhase := H2_PREPARE\<rparr>) (vote2_msg s ?m sg))"
    using prepare_step [OF inv _ _ _ assms(2) _ g, of now] assms(3,5) qc h2_IsLeader_eq [OF inv] by auto
  let ?u = "s\<lparr>PM := (PM s)\<lparr>pm_ViewTimer := tm\<rparr>, ProposalQC := Justify1 ?m, h2_CurPhase := H2_PREPARE\<rparr>"
  have "h2_sent (h2_post ?u (vote2_msg s ?m sg)) = h2_sent s @ [(vote2_msg s ?m sg)\<lparr>h_SendNode := h2_GetNodeName ?u\<rparr>]"
    using h2_invD(5) [OF inv] by (subst h2_sent_post) (auto simp: h2_sent_def)
  moreover have "ConsSign ((vote2_msg s ?m sg)\<lparr>h_SendNode := h2_GetNodeName ?u\<rparr>) = Some sg" by (simp add: vote2_msg_def)
  moreover have "gist ((vote2_msg s ?m sg)\<lparr>h_SendNode := h2_GetNodeName ?u\<rparr>) = (H2_VOTE2, w, nd)" by simp
  ultimately show ?thesis using st by blast
qed

text \<open>
  A timeout certificate is never spent: only the low byte of its view is signed, so the
  certificate for view \<open>w\<close>, relabelled, takes a node to every later view \<open>w + 256 k\<close>, and leaves it,
  unless it leads that view, in the phase in which it proposes blocks on requests.
\<close>

theorem h2_tc_replay:
  assumes inv: "h2_inv s" and "h2_view s \<le> w + 256 * int k"
    and tc: "ThresholdSignVerify env (h2_Signer s) (h2_sign_bytes H2_WISH w nil_HsNode) sg"
  shows "\<exists>t. h2_step env s (HDeliver now (nil_H2Msg\<lparr>h_MType := H2_TCMSG, h_ViewNumber := w + 256 * int k, ConsSign := sg\<rparr>)) = Some t \<and>
    h2_view t = w + 256 * int k \<and>
    (Leader (h2_View t) \<noteq> h2_ConsId s \<longrightarrow> h2_CurPhase t = H2_NEW_PROPOSE)"
proof -
  let ?e = "env\<lparr>Clock := now\<rparr>" and ?m = "nil_H2Msg\<lparr>h_MType := H2_TCMSG, h_ViewNumber := w + 256 * int k, ConsSign := sg\<rparr>"
  have "h2_sign_bytes H2_WISH (w + 256 * int k) nil_HsNode = h2_sign_bytes H2_WISH w nil_HsNode"
  proof (induction k)
    case (Suc k)
    have "h2_sign_bytes H2_WISH (w + 256 * int (Suc k)) nil_HsNode = h2_sign_bytes H2_WISH ((w + 256 * int k) + 256) nil_HsNode"
      by (simp add: algebra_simps)
    with Suc h2_form.collides show ?case by simp
  qed simp
  then have ok: "ThresholdSignVerify ?e (h2_Signer s) (H2_Message2Byte (nil_H2Msg\<lparr>h_MType := H2_WISH, h_ViewNumber := h_ViewNumber ?m\<rparr>)) (ConsSign ?m)"
    using tc by (simp add: H2_Message2Byte_def nil_H2Msg_def ThresholdSignVerify_def)
  obtain v where v: "catch_up (h2_View s) (h_ViewNumber ?m) = Some v" "ViewNumber v = w + 256 * int k"
    using h2_catch_up [OF inv, of "h_ViewNumber ?m"] assms(2) by auto
  obtain r t where rt: "RouteH2Msg ?e s ?m = Some (r, t)" "h2_moves (locks_of ?e s ?m) s t"
    using RouteH2Msg_returns [OF inv, of ?e ?m] by (auto simp: h2_returns_def h2_moves_def dest: h2_same_node)
  have tc': "HandleTC ?e s ?m = Some (r, t)" using rt(1) by (simp add: RouteH2Msg_def)
  have t: "h2_View t = v \<and> (\<not> h2_IsLeader (s\<lparr>h2_View := v\<rparr>) \<longrightarrow> h2_CurPhase t = H2_NEW_PROPOSE)"
    using tc' ok v unfolding HandleTC_def Let_def
    by (auto simp: bind_Some_iff h2_start_view_def h2_start_enter_def split: if_splits)
  obtain t' where t': "HandleH2Msg ?e s ?m = Some t'" "h2_View t' = h2_View t" "h2_CurPhase t' = h2_CurPhase t"
  proof (cases r)
    case None
    with rt(1) that [of t] show ?thesis by (simp add: HandleH2Msg_def)
  next
    case (Some x)
    have "h_MType x = H2_NEW_VIEW" using tc' Some unfolding HandleTC_def Let_def
      by (auto simp: bind_Some_iff locked_msg_def split: if_splits)
    then have "HandleH2Msg ?e s ?m = Some (h2_post t x)"
      using HandleH2Msg_post [OF rt(1) [unfolded Some]] h2_invD(5) rt(2) by (simp add: h2_moves_def)
    then show ?thesis using that by simp
  qed
  then show ?thesis using t v(2) by (auto simp: h2_IsLeader_def GetLeaderNum_def)
qed

text \<open>
  Blocks are not linked: the leader of the next view that has entered it with a prepare
  certificate stores the last block on its next request, and the block it then proposes names as its
  predecessor the hash of the empty string, whatever the stored block was.
\<close>

theorem h2_chain_unlinked:
  assumes inv: "h2_inv s" "LockBlk s = []" "h2_CurPhase s \<noteq> H2_NEW_PROPOSE"
    and lead: "(h2_view s + 1) mod NodesNum (h2_View s) = h2_ConsId s"
    and e: "h_MType e = H2_ENTER" "h_ViewNumber e = h2_view s" "h2_CheckQC env s (Justify2 e) H2_PREPARE (h2_view s) (q2_Height (Justify2 e))"
    and b: "CurProposalBlk (h2_BlkStore s) = b" "bh_ViewNumber (BlkHdr b) = q2_ViewNumber (h2_PrepareQC s)"
  shows "\<exists>t m. run (h2_step env) s [HDeliver t1 e, HRequest t2 h ph reqs] = Some t \<and> h2_sent t = h2_sent s @ [m] \<and>
    gist m = (H2_PROPOSE, h2_view s + 1, CurHs2Node t) \<and>
    bs_Files (h2_BlkStore t) (block_file (bs_Path (h2_BlkStore s) @ ''/'') (bh_Height (BlkHdr b))) =
      Some (b\<lparr>BlkHdr := (BlkHdr b)\<lparr>bh_Validation := q2_Sign (h2_PrepareQC s)\<rparr>\<rparr>) \<and>
    bh_PreBlkHash (BlkHdr (h_Block m)) = Some (EmptyHash (SM3 env))"
proof -
  have ns: "LockHs2Node s = []" using h2_invD(7) [OF inv(1)] inv(2) by simp
  let ?e = "env\<lparr>Clock := t1\<rparr>" and ?f = "env\<lparr>Clock := t2\<rparr>"
  let ?s0 = "s\<lparr>PM := (PM s)\<lparr>OptimisticFlag := True\<rparr>\<rparr>"
  obtain v where v: "NextView (h2_View s) = Some v" "ViewNumber v = h2_view s + 1" "NodesNum v = NodesNum (h2_View s)"
    "Leader v = ViewNumber v mod NodesNum v" using h2_next_view [OF inv(1)] by blast
  let ?s1 = "(h2_UpdateConsensus env ?s0)\<lparr>h2_View := v\<rparr>"
  obtain tm where tm: "h2_start_view ?s1 = Some (?s1\<lparr>PM := (PM ?s1)\<lparr>pm_ViewTimer := tm\<rparr>\<rparr>)"
    using h2_start_view_ok [of ?s1] h2_invD(3) [OF inv(1)] by (auto simp: h2_UpdateConsensus_inv(5))
  define u where "u = ?s1\<lparr>PM := (PM ?s1)\<lparr>pm_ViewTimer := tm\<rparr>, h2_CurPhase := H2_NEW_PROPOSE\<rparr>"
  have "h2_IsLeader (?s1\<lparr>PM := (PM ?s1)\<lparr>pm_ViewTimer := tm\<rparr>\<rparr>)"
    using lead v by (simp add: h2_IsLeader_def GetLeaderNum_def h2_UpdateConsensus_def Let_def)
  then have "HandleOptimisticEnter ?e s e = Some (None, u)"
    using h2_invD(6) [OF inv(1)] inv(3) e v(1) tm by (simp add: HandleOptimisticEnter_def Let_def h2_UpdateConsensus_inv(4) u_def)
  then have st: "h2_step env s (HDeliver t1 e) = Some u" using e(1) by (simp add: HandleH2Msg_def RouteH2Msg_def)
  have u: "h2_CurPhase u = H2_NEW_PROPOSE" "\<not> h2_ProposalLock u" "h2_View u = v" "LockBlk u = [b]" "LockHs2Node u = [CurHs2Node s]"
    "h2_PrepareQC u = h2_PrepareQC s" "h2_SendChan u = h2_SendChan s" "h2_ConsId u = h2_ConsId s"
    "CurBlkHash (h2_BlkStore u) = Some (EmptyHash (SM3 env))" "bs_Files (h2_BlkStore u) = bs_Files (h2_BlkStore s)"
    "bs_Path (h2_BlkStore u) = bs_Path (h2_BlkStore s)" "h2_sent u = h2_sent s"
    using inv(2) ns b(1) h2_invD(6) [OF inv(1)]
    by (simp_all add: u_def h2_UpdateConsensus_def Let_def GenEmptyBlock_def h2_sent_def)
  define p where "p = (let p = nil_h2_Proposal\<lparr>p2_Height := h, p2_PreBlkHash := ph, Command := Some (map rq_Cmd reqs)\<rparr>
    in p\<lparr>p2_RootHash := Some (HashFromByteSlicesIterative (SM3 ?f) (slices (Command p)))\<rparr>)"
  let ?w = "u\<lparr>h2_CurProposal := p\<rparr>"
  define b' where "b' = b\<lparr>BlkHdr := (BlkHdr b)\<lparr>bh_Validation := q2_Sign (h2_PrepareQC s)\<rparr>\<rparr>"
  let ?a = "AddValidation2Blk ?w (h2_PrepareQC ?w)"
  have a: "LockBlk ?a = [b']" "LockHs2Node ?a = [CurHs2Node s]" "bh_ViewNumber (BlkHdr b') = q2_ViewNumber (h2_PrepareQC ?a)"
    "Command (h2_CurProposal ?a) = Some (map rq_Cmd reqs)" "h2_BlkStore ?a = h2_BlkStore u"
    using u b(2) by (simp_all add: AddValidation2Blk_def b'_def p_def Let_def)
  define c where "c = ?a\<lparr>h2_BlkStore := StoreBlock (h2_BlkStore ?a) b', LockHs2Node := [], LockBlk := [],
    h2_CurProposal := (h2_CurProposal ?a)\<lparr>p2_PreBlkHash := CurBlkHash (h2_BlkStore ?a)\<rparr>\<rparr>"
  have cm: "h2_commit ?a = Some c" unfolding c_def by (rule commit_single [OF a(1-3)])
  have c: "h2_View c = v" "h2_SendChan c = h2_SendChan s" "h2_ConsId c = h2_ConsId s" "h2_BlkStore c = StoreBlock (h2_BlkStore u) b'"
    "Command (h2_CurProposal c) = Some (map rq_Cmd reqs)"
    using u a(4,5) by (simp_all add: c_def AddValidation2Blk_def)
  obtain bs where bs: "GenNewBlock ?f (h2_BlkStore c) (h2_view c) (TwoDimByteSlice2StringSlice (slices (Command (h2_CurProposal c)))) [] = Some bs"
    "bs_Files bs = bs_Files (h2_BlkStore c)" "bh_PreBlkHash (BlkHdr (CurProposalBlk bs)) = bs_PreBlkHash (h2_BlkStore c)"
    using GenNewBlock_returns [of ?f "h2_BlkStore c" "h2_view c" _ "[]"] by blast
  define d where "d = c\<lparr>h2_BlkStore := bs, h2_CurProposal := (h2_CurProposal c)\<lparr>p2_ViewNumber := h2_view c\<rparr>,
    CurHs2Node := \<lparr>CurHash = CurBlkHash bs, ParentHash = CurHash (q2_Hs2Node (ProposalQC c))\<rparr>\<rparr>"
  define m where "m = nil_H2Msg\<lparr>h_MType := H2_PROPOSE, h_ViewNumber := h2_view d,
       h_SendNode := h2_GetNodeName d, h_ReciNode := ''Broadcast'', h_Block := CurProposalBlk (h2_BlkStore d),
       h_Hs2Node := CurHs2Node d, Justify1 := ProposalQC d, Justify2 := h2_PrepareQC d\<rparr>"
  have gp: "h2_GenProposal ?f ?w (nil_H2Msg\<lparr>h_MType := H2_NEW_PROPOSE, h_SendNode := h2_GetNodeName ?w\<rparr>) = Some (Some m, d\<lparr>h2_CurPhase := H2_PROPOSE\<rparr>)"
  proof -
    have "\<not> H2_Proposal_IsEmpty p" by (simp add: H2_Proposal_IsEmpty_def p_def Let_def)
    moreover have "q2_QType (Justify2 (nil_H2Msg\<lparr>h_MType := H2_NEW_PROPOSE, h_SendNode := h2_GetNodeName ?w\<rparr>)) = H2_NEW_VIEW"
      by (simp add: nil_H2Msg_def nil_QuromCert_def)
    ultimately show ?thesis using u(1,2) cm bs(1)
      by (simp add: h2_GenProposal_def Let_def h2_CreateLeaf_def d_def m_def h2_GetNodeName_def)
  qed
  obtain ch where ch: "h2_SendChan s = Some ch" using h2_invD(5) [OF inv(1)] by blast
  let ?t = "d\<lparr>h2_CurPhase := H2_PROPOSE, h2_SendChan := Some (ch @ [\<lparr>SType = ORDER, SendServer = h_SendNode m,
     ReciServer = h_ReciNode m, Sign = None, Payload = m\<rparr>])\<rparr>"
  have "h2_step env u (HRequest t2 h ph reqs) = Some ?t"
    using u(1) gp c(2) ch by (simp add: h2_HandleReq_def p_def Let_def h2_SendSerMsg_def d_def)
  then have "run (h2_step env) s [HDeliver t1 e, HRequest t2 h ph reqs] = Some ?t" using st by (simp del: h2_step.simps)
  moreover have "h2_sent ?t = h2_sent s @ [m]" using ch by (simp add: h2_sent_def)
  moreover have "gist m = (H2_PROPOSE, h2_view s + 1, CurHs2Node ?t)" using c(1) v(2) by (simp add: gist_def m_def d_def)
  moreover have "bs_Files (h2_BlkStore ?t) (block_file (bs_Path (h2_BlkStore s) @ ''/'') (bh_Height (BlkHdr b))) = Some b'"
    using bs(2) c(4) u(11) by (simp add: d_def StoreBlock_files b'_def)
  moreover have "bh_PreBlkHash (BlkHdr (h_Block m)) = Some (EmptyHash (SM3 env))"
    using bs(3) c(4) u(9) by (simp add: m_def d_def)
  ultimately show ?thesis unfolding b'_def by blast
qed


section \<open>A concrete replica\<close>

text \<open>Node \<open>i\<close> of 4; with the empty public polynomial a certificate is signed by its own bytes.\<close>

definition h2_demo :: "int \<Rightarrow> Hotstuff2" where
  "h2_demo i = NewHotstuff2 5 5 i 4 [] (Some []) \<lparr>PrivateKey = (i, []), PublicKey = [], SignNum = 4, Threshold = 3\<rparr>"

definition demo_qc :: "h2_StateType \<Rightarrow> int \<Rightarrow> int \<Rightarrow> HsNode \<Rightarrow> QuromCert" where
  "demo_qc t v h nd = \<lparr>q2_QType = t, q2_ViewNumber = v, q2_Height = h, q2_Hs2Node = nd, q2_Sign = Some (h2_sign_bytes t v nd)\<rparr>"

definition demo_node :: "byte \<Rightarrow> HsNode" where
  "demo_node k = \<lparr>CurHash = Some [k], ParentHash = Some [0]\<rparr>"

definition demo_blk :: "byte \<Rightarrow> Block" where
  "demo_blk k = empty_Block\<lparr>BlkHdr := empty_BlockHeader\<lparr>bh_RootHash := Some [k]\<rparr>\<rparr>"

definition demo_propose :: "int \<Rightarrow> byte \<Rightarrow> H2Msg" where
  "demo_propose v k = nil_H2Msg\<lparr>h_MType := H2_PROPOSE, h_ViewNumber := v, h_Hs2Node := demo_node k, h_Block := demo_blk k,
     Justify1 := demo_qc H2_PROPOSE 0 0 (demo_node 1), Justify2 := demo_qc H2_PREPARE 0 0 (demo_node 1)\<rparr>"

definition demo_prepare :: "byte \<Rightarrow> H2Msg" where
  "demo_prepare k = nil_H2Msg\<lparr>h_MType := H2_PREPARE, h_Hs2Node := demo_node k, Justify1 := demo_qc H2_PROPOSE 0 0 (demo_node k)\<rparr>"

definition demo_enter :: H2Msg where
  "demo_enter = nil_H2Msg\<lparr>h_MType := H2_ENTER, Justify2 := demo_qc H2_PREPARE 0 0 (demo_node 1)\<rparr>"

lemma h2_demo_inv: "h2_inv (h2_demo i)"
  unfolding h2_demo_def by (rule NewHotstuff2_inv) simp

lemma h2_demo_sel:
  "h2_View (h2_demo i) = \<lparr>ViewNumber = 0, Leader = 0, NodesNum = 4\<rparr>" "h2_ConsId (h2_demo i) = i" "LockBlk (h2_demo i) = []"
  "h2_CurPhase (h2_demo i) = H2_NEW_VIEW" "bs_Height (h2_BlkStore (h2_demo i)) = 0" "CurProposalBlk (h2_BlkStore (h2_demo i)) = empty_Block"
  "PublicKey (h2_Signer (h2_demo i)) = []" "h2_PrepareQC (h2_demo i) = nil_QuromCert" "h2_sent (h2_demo i) = []"
  "bs_Path (h2_BlkStore (h2_demo i)) = [CHR 0x5C] @ ''r_'' @ Itoa i"
  by (simp_all add: h2_demo_def NewHotstuff2_def h2_sent_def)

lemma demo_qc_checks: "PublicKey (h2_Signer s) = [] \<Longrightarrow> h2_CheckQC example_env s (demo_qc t v h nd) t v h"
  by (simp add: h2_CheckQC_def h2_MatchingQC_def demo_qc_def ThresholdSignVerify_def example_env_def H2_QC2SignMsgByte_def)

lemma demo_qc_sel [simp]: "q2_ViewNumber (demo_qc t v h nd) = v" "q2_Height (demo_qc t v h nd) = h"
  by (simp_all add: demo_qc_def)

lemma demo_msgs [simp]:
  "h_MType (demo_propose v k) = H2_PROPOSE" "h_ViewNumber (demo_propose v k) = v" "h_Block (demo_propose v k) = demo_blk k"
  "Justify1 (demo_propose v k) = demo_qc H2_PROPOSE 0 0 (demo_node 1)" "Justify2 (demo_propose v k) = demo_qc H2_PREPARE 0 0 (demo_node 1)"
  "h_MType (demo_prepare k) = H2_PREPARE" "h_ViewNumber (demo_prepare k) = 0" "Justify1 (demo_prepare k) = demo_qc H2_PROPOSE 0 0 (demo_node k)"
  "h_MType demo_enter = H2_ENTER" "h_ViewNumber demo_enter = 0" "Justify2 demo_enter = demo_qc H2_PREPARE 0 0 (demo_node 1)"
  "bh_ViewNumber (BlkHdr (demo_blk k)) = 0" "bh_Height (BlkHdr (demo_blk k)) = 0"
  by (simp_all add: demo_propose_def demo_prepare_def demo_enter_def demo_blk_def nil_H2Msg_def empty_BlockHeader_def)

lemma demo_signs: "\<forall>x. ThresholdSign example_env sg x \<noteq> None"
  by (simp add: ThresholdSign_def example_env_def)

lemma h2_demo_round: "\<exists>t. run (h2_step example_env) (h2_demo 2)
      [HDeliver 1 (demo_propose 0 1), HDeliver 2 (demo_prepare 1), HDeliver 3 demo_enter, HDeliver 4 (demo_propose 1 2)] = Some t \<and>
    bs_Files (h2_BlkStore t) (block_file ([CHR 0x5C] @ ''r_'' @ Itoa 2 @ ''/'') 0) \<noteq> None" (is "\<exists>t. ?r = Some t \<and> _")
proof -
  let ?s = "h2_demo 2"
  note sel = h2_demo_sel [of 2]
  have "h2_certs example_env ?s (demo_propose 0 1)" by (simp add: h2_certs_def sel)
  then obtain a where a: "h2_step example_env ?s (HDeliver 1 (demo_propose 0 1)) = Some a" "h2_after ?s a [(H2_VOTE1, 0, h_Hs2Node (demo_propose 0 1))]"
    "h2_View a = h2_View ?s" "h2_CurPhase a = H2_PROPOSE" "LockBlk a = []" "LockHs2Node a = []" "CurProposalBlk (h2_BlkStore a) = demo_blk 1"
    "bs_Height (h2_BlkStore a) = 0"
    using after_propose [OF h2_demo_inv _ _ _ _ _ demo_signs, of "demo_propose 0 1" 2 1] by (auto simp: sel)
  have ia: "h2_inv a" "PublicKey (h2_Signer a) = []" "h2_ConsId a = 2" "bs_Path (h2_BlkStore a) = bs_Path (h2_BlkStore ?s)"
    using a(2) by (simp_all add: h2_after_def sel)
  obtain b where b: "h2_step example_env a (HDeliver 2 (demo_prepare 1)) = Some b" "h2_after a b [(H2_VOTE2, 0, h_Hs2Node (demo_prepare 1))]"
    "h2_View b = h2_View ?s" "h2_CurPhase b = H2_PREPARE" "LockBlk b = []" "LockHs2Node b = []" "h2_BlkStore b = h2_BlkStore a"
    using after_prepare [OF ia(1) _ _ _ _ _ demo_signs, of "demo_prepare 1" 2] demo_qc_checks [OF ia(2)] a(3-7) ia by (auto simp: sel)
  have ib: "h2_inv b" "PublicKey (h2_Signer b) = []" "h2_ConsId b = 2" using b(2) ia by (simp_all add: h2_after_def)
  obtain c where c: "h2_step example_env b (HDeliver 3 demo_enter) = Some c" "h2_after b c []" "h2_view c = 1" "h2_CurPhase c = H2_NEW_VIEW"
    "LockBlk c = [demo_blk 1]" "LockHs2Node c = [CurHs2Node b]" "h2_PrepareQC c = demo_qc H2_PREPARE 0 0 (demo_node 1)" "bs_Height (h2_BlkStore c) = 0"
    using after_enter [OF ib(1), of demo_enter example_env 3] demo_qc_checks [OF ib(2)] a(7,8) b(3-7) ib by (auto simp: sel)
  have ic: "h2_inv c" "PublicKey (h2_Signer c) = []" "h2_ConsId c = 2" "NodesNum (h2_View c) = 4" "bs_Path (h2_BlkStore c) = bs_Path (h2_BlkStore ?s)"
    using c(2) ib b(3,7) ia(4) by (simp_all add: h2_after_def sel)
  have "h2_certs example_env c (demo_propose 1 2)" using demo_qc_checks [OF ic(2)] c(8) by (simp add: h2_certs_def)
  then obtain d where d: "h2_step example_env c (HDeliver 4 (demo_propose 1 2)) = Some d"
    "bs_Files (h2_BlkStore d) (block_file (bs_Path (h2_BlkStore c) @ ''/'') 0) \<noteq> None"
    using after_next [OF ic(1) _ _ _ _ _ demo_signs c(5,6), of "demo_propose 1 2" 4] c(3,4,7) ic by auto
  have "run (h2_step example_env) ?s [HDeliver 1 (demo_propose 0 1), HDeliver 2 (demo_prepare 1), HDeliver 3 demo_enter, HDeliver 4 (demo_propose 1 2)] = Some d"
    using a(1) b(1) c(1) d(1) by (simp del: h2_step.simps)
  with d(2) show ?thesis unfolding ic(5) sel(10) by auto
qed

text \<open>
  C37 Only certified blocks are stored: in every run of messages, requests, timeouts and sending
  goroutines from the constructor, every block in the node's files was, when an ENTER message of the
  node's view with a valid prepare certificate of that view arrived, the block of the node's last
  proposal (up to the validation, which is added later). The run holds no \<open>SyncInfo\<close>: that operation,
  by which a node that joins catches up, appends blocks of other nodes to the locked ones unchecked,
  and a later commit stores them.
\<close>

theorem h2_stored_was_certified:
  assumes "1 \<le> n" and "run (h2_step env) (NewHotstuff2 e v i n path (Some []) signer) es = Some t"
    and "bs_Files (h2_BlkStore t) f = Some b"
  shows "\<exists>es1 now m es2 u. es = es1 @ HDeliver now m # es2 \<and>
    run (h2_step env) (NewHotstuff2 e v i n path (Some []) signer) es1 = Some u \<and> h_MType m = H2_ENTER \<and>
    h_ViewNumber m = h2_view u \<and> h2_CheckQC env u (Justify2 m) H2_PREPARE (h2_view u) (q2_Height (Justify2 m)) \<and>
    bare b = bare (CurProposalBlk (h2_BlkStore u))"
proof -
  note inv = NewHotstuff2_inv [OF assms(1), of e v i path signer]
  let ?s = "NewHotstuff2 e v i n path (Some []) signer"
  define went where "went es b \<longleftrightarrow> (\<exists>es1 now m es2 u. es = es1 @ HDeliver now m # es2 \<and> run (h2_step env) ?s es1 = Some u \<and>
      b \<in> locks_of env u m)" for es b
  have "run (h2_step env) ?s es = Some t \<Longrightarrow> b \<in> h2_kept t \<Longrightarrow> went es b" for es t b
  proof (induction es arbitrary: t rule: rev_induct)
    case Nil
    then show ?case by (auto simp: NewHotstuff2_kept)
  next
    case (snoc x es)
    from snoc.prems(1) obtain u where u: "run (h2_step env) ?s es = Some u" "h2_step env u x = Some t"
      by (auto simp: run_append bind_Some_iff)
    from h2_step_ok [OF h2.run_inv [OF inv u(1)], of env x] u(2) have "h2_kept t \<subseteq> h2_kept u \<union> step_locks env u x"
      by (simp add: h2_moves_def)
    with snoc.prems(2) consider "b \<in> h2_kept u" | "b \<in> step_locks env u x" by blast
    then show ?case
    proof cases
      case 1
      from snoc.IH [OF u(1) 1] obtain es1 now m es2 w where
        "es = es1 @ HDeliver now m # es2" "run (h2_step env) ?s es1 = Some w" "b \<in> locks_of env w m" by (auto simp: went_def)
      then have "es @ [x] = es1 @ HDeliver now m # (es2 @ [x])" by simp
      with \<open>run (h2_step env) ?s es1 = Some w\<close> \<open>b \<in> locks_of env w m\<close> show ?thesis unfolding went_def by blast
    next
      case 2
      then obtain now m where "x = HDeliver now m" "b \<in> locks_of env u m" by (auto simp: step_locks_def split: h2_event.splits)
      with u(1) show ?thesis unfolding went_def by blast
    qed
  qed
  moreover have "bare b \<in> h2_kept t" using assms(3) by (auto simp: h2_kept_def Map.ran_def)
  ultimately have "went es (bare b)" using assms(2) by blast
  then show ?thesis by (auto simp: went_def locks_of_def split: if_splits)
qed

theorem h2_stored_was_certified_witness:
  "\<exists>t f b es1 now m es2 u. run (h2_step example_env) (h2_demo 2)
      [HDeliver 1 (demo_propose 0 1), HDeliver 2 (demo_prepare 1), HDeliver 3 demo_enter, HDeliver 4 (demo_propose 1 2)] = Some t \<and>
    bs_Files (h2_BlkStore t) f = Some b \<and>
    [HDeliver 1 (demo_propose 0 1), HDeliver 2 (demo_prepare 1), HDeliver 3 demo_enter, HDeliver 4 (demo_propose 1 2)] = es1 @ HDeliver now m # es2 \<and>
    run (h2_step example_env) (h2_demo 2) es1 = Some u \<and> h_MType m = H2_ENTER \<and>
    h_ViewNumber m = h2_view u \<and> h2_CheckQC example_env u (Justify2 m) H2_PREPARE (h2_view u) (q2_Height (Justify2 m)) \<and>
    bare b = bare (CurProposalBlk (h2_BlkStore u))"
proof -
  from h2_demo_round obtain t f b where t: "run (h2_step example_env) (h2_demo 2)
      [HDeliver 1 (demo_propose 0 1), HDeliver 2 (demo_prepare 1), HDeliver 3 demo_enter, HDeliver 4 (demo_propose 1 2)] = Some t"
    "bs_Files (h2_BlkStore t) f = Some b" by (auto simp del: run.simps)
  from h2_stored_was_certified [OF _ t(1) [unfolded h2_demo_def] t(2)] show ?thesis
    unfolding h2_demo_def [symmetric] using t by (simp del: run.simps) blast
qed

theorem h2_replica_round_witness:
  "\<exists>t. run (h2_step example_env) (h2_demo 2) [HDeliver 1 (demo_propose 0 1), HDeliver 2 (demo_prepare 1), HDeliver 3 demo_enter, HDeliver 4 (demo_propose 1 2)] = Some t \<and>
    LockBlk t = [] \<and> h2_view t = 1"
  using h2_replica_round [OF h2_demo_inv, of 2 example_env "demo_propose 0 1" "demo_prepare 1" demo_enter "demo_propose 1 2" 1 2 3 4]
    demo_qc_checks [of "h2_demo 2"] by (simp add: h2_demo_sel demo_signs h2_certs_def del: run.simps) blast

theorem h2_double_vote_witness:
  "\<exists>t. run (h2_step example_env) (h2_demo 2) [HDeliver 1 (demo_propose 0 1), HDeliver 2 (demo_prepare 1), HDeliver 3 (demo_propose 0 2), HDeliver 4 (demo_prepare 2)] = Some t \<and>
    map gist (h2_sent t) = [(H2_VOTE1, 0, demo_node 1), (H2_VOTE2, 0, demo_node 1), (H2_VOTE1, 0, demo_node 2), (H2_VOTE2, 0, demo_node 2)]"
proof -
  have nd: "h_Hs2Node (demo_propose 0 k) = demo_node k" "h_Hs2Node (demo_prepare k) = demo_node k" for k
    by (simp_all add: demo_propose_def demo_prepare_def)
  show ?thesis
    using h2_double_vote [OF h2_demo_inv, of 2 example_env "demo_propose 0 1" "demo_propose 0 2" "demo_prepare 1" "demo_prepare 2" 1 2 3 4]
      demo_qc_checks [of "h2_demo 2"] by (simp add: h2_demo_sel demo_signs nd del: run.simps)
qed

theorem h2_vote2_unbound_witness:
  "\<exists>t vote. h2_step example_env ((h2_demo 2)\<lparr>h2_CurPhase := H2_PROPOSE\<rparr>)
      (HDeliver 3 (nil_H2Msg\<lparr>h_MType := H2_PREPARE, h_ViewNumber := -5, h_Hs2Node := demo_node 9, Justify1 := demo_qc H2_PROPOSE 0 0 (demo_node 1)\<rparr>)) = Some t \<and>
    h2_sent t = h2_sent ((h2_demo 2)\<lparr>h2_CurPhase := H2_PROPOSE\<rparr>) @ [vote] \<and> gist vote = (H2_VOTE2, -5, demo_node 9) \<and>
    ConsSign vote = Some (to_byte 2 # h2_sign_bytes H2_PREPARE (-5) (demo_node 9))"
  using demo_qc_checks [of "(h2_demo 2)\<lparr>h2_CurPhase := H2_PROPOSE\<rparr>" H2_PROPOSE 0 0 "demo_node 1"]
  by (intro h2_vote2_unbound)
    (simp_all add: h2_demo_inv h2_demo_sel ThresholdSign_def empty_Block_def empty_BlockHeader_def,
     simp add: h2_demo_def NewHotstuff2_def example_env_def)

theorem h2_tc_replay_witness:
  "\<exists>t. h2_step example_env (h2_demo 2) (HDeliver 3 (nil_H2Msg\<lparr>h_MType := H2_TCMSG, h_ViewNumber := 1 + 256 * int 1000,
       ConsSign := Some (h2_sign_bytes H2_WISH 1 nil_HsNode)\<rparr>)) = Some t \<and>
    h2_view t = 1 + 256 * int 1000 \<and> (Leader (h2_View t) \<noteq> h2_ConsId (h2_demo 2) \<longrightarrow> h2_CurPhase t = H2_NEW_PROPOSE)"
  by (rule h2_tc_replay) (simp_all add: h2_demo_inv h2_demo_sel ThresholdSignVerify_def example_env_def)

theorem h2_chain_unlinked_witness:
  "\<exists>t m. run (h2_step example_env) (h2_demo 1) [HDeliver 3 demo_enter, HRequest 4 1 None []] = Some t \<and>
    h2_sent t = h2_sent (h2_demo 1) @ [m] \<and> gist m = (H2_PROPOSE, 1, CurHs2Node t) \<and>
    bh_PreBlkHash (BlkHdr (h_Block m)) = Some (EmptyHash (SM3 example_env))"
  using h2_chain_unlinked [OF h2_demo_inv, of 1 demo_enter example_env empty_Block 3 4 1 None "[]"] demo_qc_checks [of "h2_demo 1"]
  by (simp add: h2_demo_sel empty_Block_def empty_BlockHeader_def nil_QuromCert_def del: run.simps) blast

end
