(* ===== verification/Ord_Core.thy ===== *)
theory Ord_Core
  imports Hs_Basic Hs_Chained Hs2_Core Pbft_ViewChange
begin

text \<open>
  The orderer (orderer/core): the protocol a server has chosen, the core that runs it, the flags
  that accept messages and requests, and the operations that pass every call on to the core.
  \<open>None\<close> is a panic, a nil pointer among them, or a call that blocks for ever.
\<close>

section \<open>The outside of a node\<close>

text \<open>
  The encodings of encoding/json the node uses. A decoder of an \<open>option\<close> type gives \<open>None\<close> for an
  error the code looks at; the others give what is left in the variable when errors are ignored.
  \<open>map_order\<close> is the order in which a loop meets the entries of a map, \<open>Dials\<close> tells whether a TCP
  connection to an address succeeds.
\<close>

record node_env = pbft_env +
  enc_Msg :: "Msg \<Rightarrow> byte list"
  dec_Msg :: "byte list \<Rightarrow> Msg option"
  enc_CMsg :: "CMsg \<Rightarrow> byte list"
  dec_CMsg :: "byte list \<Rightarrow> CMsg option"
  enc_H2Msg :: "H2Msg \<Rightarrow> byte list"
  dec_H2Msg :: "byte list \<Rightarrow> H2Msg"
  enc_PMsg :: "PMsg \<Rightarrow> byte list"
  dec_PMsg :: "byte list \<Rightarrow> PMsg"
  enc_Mgmt :: "NodeMgmtMsg \<Rightarrow> byte list"
  dec_Mgmt :: "byte list \<Rightarrow> NodeMgmtMsg option"
  dec_Req :: "byte list \<Rightarrow> BCRequest"
  enc_Ser :: "byte list ServerMsg \<Rightarrow> byte list"
  dec_Ser :: "byte list \<Rightarrow> byte list ServerMsg option"
  map_order :: "(int \<times> nat) list \<Rightarrow> (int \<times> nat) list"
  Dials :: "string \<Rightarrow> bool"

text \<open>A concrete instance for the examples, in which JSON carries nothing; single fields are replaced there.\<close>

definition node_demo_env :: node_env where
  "node_demo_env = \<lparr>SM3 = SM3 example_env, Sm2Sign = Sm2Sign example_env, Sm2Verify = Sm2Verify example_env,
     TblsSign = TblsSign example_env, TblsRecover = TblsRecover example_env, BdnVerify = BdnVerify example_env, Clock = 0,
     MarshalMsgs = (\<lambda>ms. []), enc_Msg = (\<lambda>m. []), dec_Msg = (\<lambda>b. None), enc_CMsg = (\<lambda>m. []), dec_CMsg = (\<lambda>b. None),
     enc_H2Msg = (\<lambda>m. []), dec_H2Msg = (\<lambda>b. nil_H2Msg), enc_PMsg = (\<lambda>m. []), dec_PMsg = (\<lambda>b. nil_PMsg),
     enc_Mgmt = (\<lambda>m. []), dec_Mgmt = (\<lambda>b. None), dec_Req = (\<lambda>b. \<lparr>rq_Id = [], rq_Cmd = [], rq_Sign = []\<rparr>),
     enc_Ser = Payload, dec_Ser = (\<lambda>b. None), map_order = (\<lambda>cs. cs), Dials = (\<lambda>a. False)\<rparr>"

section \<open>The state (orderer.go)\<close>

datatype ConsensusType = CT_BASIC | CT_CHAINED | CT_HOTSTUFF_2 | CT_PBFT | CT_other string

text \<open>The dynamic type of \<open>signer interface{}\<close>, and of the payload of \<open>SendMsg\<close>.\<close>

datatype any_Signer = TssSigner tss_Signer | Ssm2Signer ssm2_Signer | OtherSigner

datatype any_Msg = BasicMsg Msg | ChainedMsg CMsg | Hs2Msg H2Msg | PbftMsg PMsg

text \<open>
  \<open>SendChan\<close> is the channel the core was given, so it is not held a second time. \<open>ReqFlagChan\<close> has
  the capacity 1.
\<close>

record Orderer =
  ConsType :: ConsensusType
  HandleState :: bool
  ReqState :: bool
  ReqFlagChan :: "bool list option"
  BasicHotstuff :: "BCHotstuff option"
  ChainedHotstuff :: "CHotstuff option"
  OrdHotstuff2 :: "Hotstuff2 option"
  PBFTConsensus :: "PBFT option"

definition nil_Orderer :: Orderer where
  "nil_Orderer = \<lparr>ConsType = CT_other [], HandleState = False, ReqState = False, ReqFlagChan = None,
     BasicHotstuff = None, ChainedHotstuff = None, OrdHotstuff2 = None, PBFTConsensus = None\<rparr>"

text \<open>A method call through one of the four pointers.\<close>

definition on_basic :: "(BCHotstuff \<Rightarrow> BCHotstuff option) \<Rightarrow> Orderer \<Rightarrow> Orderer option" where
  "on_basic f r = do { c \<leftarrow> BasicHotstuff r; c \<leftarrow> f c; Some (r\<lparr>BasicHotstuff := Some c\<rparr>) }"

definition on_chained :: "(CHotstuff \<Rightarrow> CHotstuff option) \<Rightarrow> Orderer \<Rightarrow> Orderer option" where
  "on_chained f r = do { c \<leftarrow> ChainedHotstuff r; c \<leftarrow> f c; Some (r\<lparr>ChainedHotstuff := Some c\<rparr>) }"

definition on_hs2 :: "(Hotstuff2 \<Rightarrow> Hotstuff2 option) \<Rightarrow> Orderer \<Rightarrow> Orderer option" where
  "on_hs2 f r = do { c \<leftarrow> OrdHotstuff2 r; c \<leftarrow> f c; Some (r\<lparr>OrdHotstuff2 := Some c\<rparr>) }"

definition on_pbft :: "(PBFT \<Rightarrow> PBFT option) \<Rightarrow> Orderer \<Rightarrow> Orderer option" where
  "on_pbft f r = do { c \<leftarrow> PBFTConsensus r; c \<leftarrow> f c; Some (r\<lparr>PBFTConsensus := Some c\<rparr>) }"

text \<open>The switch over the four protocols that most operations are made of; another type does nothing.\<close>

definition on_core ::
  "(BCHotstuff \<Rightarrow> BCHotstuff option) \<Rightarrow> (CHotstuff \<Rightarrow> CHotstuff option) \<Rightarrow> (Hotstuff2 \<Rightarrow> Hotstuff2 option) \<Rightarrow>
   (PBFT \<Rightarrow> PBFT option) \<Rightarrow> Orderer \<Rightarrow> Orderer option" where
  "on_core fb fc fh fp r =
     (case ConsType r of
        CT_BASIC \<Rightarrow> on_basic fb r
      | CT_CHAINED \<Rightarrow> on_chained fc r
      | CT_HOTSTUFF_2 \<Rightarrow> on_hs2 fh r
      | CT_PBFT \<Rightarrow> on_pbft fp r
      | CT_other _ \<Rightarrow> Some r)"

definition of_core ::
  "'a \<Rightarrow> (BCHotstuff \<Rightarrow> 'a) \<Rightarrow> (CHotstuff \<Rightarrow> 'a) \<Rightarrow> (Hotstuff2 \<Rightarrow> 'a) \<Rightarrow> (PBFT \<Rightarrow> 'a) \<Rightarrow> Orderer \<Rightarrow> 'a option" where
  "of_core d fb fc fh fp r =
     (case ConsType r of
        CT_BASIC \<Rightarrow> map_option fb (BasicHotstuff r)
      | CT_CHAINED \<Rightarrow> map_option fc (ChainedHotstuff r)
      | CT_HOTSTUFF_2 \<Rightarrow> map_option fh (OrdHotstuff2 r)
      | CT_PBFT \<Rightarrow> map_option fp (PBFTConsensus r)
      | CT_other _ \<Rightarrow> Some d)"

section \<open>Queries (utils.go)\<close>

definition ord_IsLeader :: "Orderer \<Rightarrow> bool option" where
  "ord_IsLeader = of_core False bhs_IsLeader chs_IsLeader h2_IsLeader pb_IsLeader"

definition IsWaitingReq :: "Orderer \<Rightarrow> bool option" where
  "IsWaitingReq = of_core False (\<lambda>c. CurPhase c = HS_WAITING) (\<lambda>c. c_CurPhase c = HS_WAITING)
     (\<lambda>c. h2_CurPhase c = H2_NEW_PROPOSE) (\<lambda>c. pb_CurPhase c = P_WAITING)"

definition ord_GetLeaderName :: "Orderer \<Rightarrow> string option" where
  "ord_GetLeaderName = of_core [] bhs_GetLeaderName chs_GetLeaderName h2_GetLeaderName pb_GetLeaderName"

text \<open>
  \<open>SendMsg\<close>: a payload of the wrong type is logged. For PBFT the log is that of the HotStuff-2 core,
  a nil pointer.
\<close>

definition chan_put :: "'p \<Rightarrow> string \<Rightarrow> string \<Rightarrow> 'p ServerMsg list option \<Rightarrow> 'p ServerMsg list option" where
  "chan_put m sender receiver ch =
     map_option (\<lambda>c. c @ [\<lparr>SType = ORDER, SendServer = sender, ReciServer = receiver, Sign = None, Payload = m\<rparr>]) ch"

definition ord_SendMsg :: "Orderer \<Rightarrow> any_Msg \<Rightarrow> Orderer option" where
  "ord_SendMsg r payload =
     (case ConsType r of
        CT_BASIC \<Rightarrow> (case payload of
            BasicMsg m \<Rightarrow> on_basic (\<lambda>c. do { ch \<leftarrow> chan_put m (SendNode m) (ReciNode m) (SendChan c); Some (c\<lparr>SendChan := Some ch\<rparr>) }) r
          | _ \<Rightarrow> on_basic Some r)
      | CT_CHAINED \<Rightarrow> (case payload of
            ChainedMsg m \<Rightarrow> on_chained (\<lambda>c. do { ch \<leftarrow> chan_put m (cm_SendNode m) (cm_ReciNode m) (c_SendChan c); Some (c\<lparr>c_SendChan := Some ch\<rparr>) }) r
          | _ \<Rightarrow> on_chained Some r)
      | CT_HOTSTUFF_2 \<Rightarrow> (case payload of
            Hs2Msg m \<Rightarrow> on_hs2 (\<lambda>c. do { ch \<leftarrow> chan_put m (h_SendNode m) (h_ReciNode m) (h2_SendChan c); Some (c\<lparr>h2_SendChan := Some ch\<rparr>) }) r
          | _ \<Rightarrow> on_hs2 Some r)
      | CT_PBFT \<Rightarrow> (case payload of
            PbftMsg m \<Rightarrow> on_pbft (\<lambda>c. do { ch \<leftarrow> chan_put m (pm_SendNode m) (p_ReciNode (hd_of m)) (pb_SendChan c); Some (c\<lparr>pb_SendChan := Some ch\<rparr>) }) r
          | _ \<Rightarrow> on_hs2 Some r)
      | CT_other _ \<Rightarrow> Some r)"

section \<open>Operations (orderer.go)\<close>

definition ord_InitLeader :: "'a env_scheme \<Rightarrow> Orderer \<Rightarrow> Orderer option" where
  "ord_InitLeader env = on_core (\<lambda>c. Some (bhs_InitLeader env c)) (\<lambda>c. Some (chs_InitLeader env c))
     (\<lambda>c. Some (h2_InitLeader c)) (\<lambda>c. Some (pb_InitLeader c))"

text \<open>
  \<open>InitConsensus\<close> with the channel of a new server, which is empty. The type assertions on the
  signer, and the default case, panic.
\<close>

definition new_core :: "'a env_scheme \<Rightarrow> Orderer \<Rightarrow> int \<Rightarrow> int \<Rightarrow> string \<Rightarrow> any_Signer \<Rightarrow> Orderer option" where
  "new_core env r i n path signer =
     (case (ConsType r, signer) of
        (CT_BASIC, TssSigner t) \<Rightarrow> Some (r\<lparr>BasicHotstuff := Some (NewBCHotstuff env 5000 i n path (Some []) t)\<rparr>)
      | (CT_CHAINED, TssSigner t) \<Rightarrow> Some (r\<lparr>ChainedHotstuff := Some (NewChainedHotstuff env 2000 i n path (Some []) t)\<rparr>)
      | (CT_HOTSTUFF_2, TssSigner t) \<Rightarrow> Some (r\<lparr>OrdHotstuff2 := Some (NewHotstuff2 500 2000 i n path (Some []) t)\<rparr>)
      | (CT_PBFT, Ssm2Signer g) \<Rightarrow> Some (r\<lparr>PBFTConsensus := Some (NewPBFT env 10000 i n path (Some []) g)\<rparr>)
      | _ \<Rightarrow> None)"

definition InitConsensus ::
  "'a env_scheme \<Rightarrow> Orderer \<Rightarrow> ConsensusType \<Rightarrow> int \<Rightarrow> int \<Rightarrow> string \<Rightarrow> any_Signer \<Rightarrow> Orderer option" where
  "InitConsensus env r consType i n path signer = do {
     let r = r\<lparr>ConsType := consType, ReqFlagChan := Some [], HandleState := True, ReqState := True\<rparr>;
     r \<leftarrow> new_core env r i n path signer;
     leads \<leftarrow> ord_IsLeader r;
     if leads then ord_InitLeader env r else Some r
   }"

definition ord_FixLeader :: "'a env_scheme \<Rightarrow> Orderer \<Rightarrow> Orderer option" where
  "ord_FixLeader env r =
     (case ConsType r of
        CT_BASIC \<Rightarrow> on_basic (\<lambda>c. Some (bhs_FixLeader env c)) r
      | CT_CHAINED \<Rightarrow> on_chained (\<lambda>c. Some (chs_FixLeader env c)) r
      | _ \<Rightarrow> Some r)"

definition stop_enter :: "Hotstuff2 \<Rightarrow> Hotstuff2 option" where
  "stop_enter c = do { t \<leftarrow> Stop (EnterTimer (PM c)); Some (c\<lparr>PM := (PM c)\<lparr>EnterTimer := t\<rparr>\<rparr>) }"

definition ord_Stop :: "Orderer \<Rightarrow> Orderer option" where
  "ord_Stop r = on_core stop_ViewTimer chs_stop (\<lambda>c. do { c \<leftarrow> stop_enter c; h2_stop_view c }) pb_stop
     (r\<lparr>HandleState := False, ReqState := False\<rparr>)"

definition ord_ClearCurrentRound :: "'a env_scheme \<Rightarrow> Orderer \<Rightarrow> Orderer option" where
  "ord_ClearCurrentRound env r =
     (case ConsType r of
        CT_BASIC \<Rightarrow> on_basic (\<lambda>c. Some (bhs_ClearCurrentRound env c)) r
      | CT_CHAINED \<Rightarrow> on_chained (\<lambda>c. Some (chs_ClearCurrentRound env c)) r
      | _ \<Rightarrow> Some r)"

definition ResetState :: "'a env_scheme \<Rightarrow> Orderer \<Rightarrow> Orderer option" where
  "ResetState env r = do {
     r \<leftarrow> ord_ClearCurrentRound env r;
     Some (r\<lparr>HandleState := True, ReqState := True\<rparr>)
   }"

definition send_ret :: "('m \<Rightarrow> any_Msg) \<Rightarrow> 'm option \<Rightarrow> Orderer \<Rightarrow> Orderer option" where
  "send_ret wrap ret r = (case ret of None \<Rightarrow> Some r | Some m \<Rightarrow> ord_SendMsg r (wrap m))"

definition RestartCons :: "'a env_scheme \<Rightarrow> Orderer \<Rightarrow> Orderer option" where
  "RestartCons env r =
     (case ConsType r of
        CT_BASIC \<Rightarrow> do {
          c \<leftarrow> BasicHotstuff r;
          (ret, c) \<leftarrow> RestartBasicHotstuff env c;
          send_ret BasicMsg ret (r\<lparr>BasicHotstuff := Some c\<rparr>)
        }
      | CT_CHAINED \<Rightarrow> do {
          c \<leftarrow> ChainedHotstuff r;
          (ret, c) \<leftarrow> RestartChainedHotstuff env c;
          send_ret ChainedMsg ret (r\<lparr>ChainedHotstuff := Some c\<rparr>)
        }
      | CT_HOTSTUFF_2 \<Rightarrow> do {
          c \<leftarrow> OrdHotstuff2 r;
          (ret, c) \<leftarrow> RestartHotstuff2 env (c\<lparr>h2_IgnoreCheckQC := True\<rparr>);
          send_ret Hs2Msg ret (r\<lparr>OrdHotstuff2 := Some c\<rparr>)
        }
      | _ \<Rightarrow> Some r)"

definition ord_AddSyncInfo :: "Orderer \<Rightarrow> NodeMgmtMsg \<Rightarrow> NodeMgmtMsg option" where
  "ord_AddSyncInfo r msg = of_core msg (\<lambda>c. bhs_AddSyncInfo c msg) (\<lambda>c. chs_AddSyncInfo c msg)
     (\<lambda>c. h2_AddSyncInfo c msg) (\<lambda>c. pb_AddSyncInfo c msg) r"

definition ord_RefreshLeader :: "Orderer \<Rightarrow> Orderer option" where
  "ord_RefreshLeader = on_core
     (\<lambda>c. do { v \<leftarrow> RefreshLeader (hs_View c); Some (c\<lparr>hs_View := v\<rparr>) })
     (\<lambda>c. do { v \<leftarrow> RefreshLeader (c_View c); Some (c\<lparr>c_View := v\<rparr>) })
     (\<lambda>c. do { v \<leftarrow> RefreshLeader (h2_View c); Some (c\<lparr>h2_View := v\<rparr>) })
     (\<lambda>c. do { v \<leftarrow> RefreshLeader (pb_View c); Some (c\<lparr>pb_View := v\<rparr>) })"

definition IsReady :: "Orderer \<Rightarrow> bool option" where
  "IsReady = of_core True (\<lambda>c. NodesNum (hs_View c) = SignNum (ThresholdSigner c))
     (\<lambda>c. NodesNum (c_View c) = SignNum (c_Signer c)) (\<lambda>c. NodesNum (h2_View c) = SignNum (h2_Signer c)) (\<lambda>c. True)"

definition ord_UpdateNodesNum :: "Orderer \<Rightarrow> int \<Rightarrow> Orderer option" where
  "ord_UpdateNodesNum r n = on_core (\<lambda>c. Some (bhs_UpdateNodesNum c n)) (\<lambda>c. Some (chs_UpdateNodesNum c n))
     (\<lambda>c. Some (h2_UpdateNodesNum c n)) (\<lambda>c. Some (pb_UpdateNodesNum c n)) r"

definition ord_SyncInfo :: "Orderer \<Rightarrow> NodeMgmtMsg \<Rightarrow> int \<Rightarrow> Orderer option" where
  "ord_SyncInfo r msg leader = on_core (\<lambda>c. bhs_SyncInfo c msg leader) (\<lambda>c. chs_SyncInfo c msg leader)
     (\<lambda>c. h2_SyncInfo c msg leader) (\<lambda>c. pb_SyncInfo c msg leader) r"

section \<open>Requests and messages (handler.go)\<close>

definition ord_HandleReq ::
  "'a env_scheme \<Rightarrow> Orderer \<Rightarrow> int \<Rightarrow> bytes \<Rightarrow> bytes \<Rightarrow> BCRequest list \<Rightarrow> Orderer option" where
  "ord_HandleReq env r height preHash curHash req =
     (if ReqState r
      then on_core (\<lambda>c. bhs_HandleReq env c height preHash req) (\<lambda>c. chs_HandleReq env c height preHash req)
             (\<lambda>c. h2_HandleReq env c height preHash req) (\<lambda>c. pb_HandleReq env c height preHash curHash req) r
      else Some r)"

definition ord_HandleMsg :: "'a node_env_scheme \<Rightarrow> Orderer \<Rightarrow> byte list \<Rightarrow> bytes \<Rightarrow> Orderer option" where
  "ord_HandleMsg env r msgJson pk =
     (if HandleState r
      then on_core (\<lambda>c. HandleBMsg env c (dec_Msg env msgJson) pk) (\<lambda>c. HandleCMsg env c (dec_CMsg env msgJson))
             (\<lambda>c. HandleH2Msg env c (dec_H2Msg env msgJson)) (\<lambda>c. HandlePMsg env c (dec_PMsg env msgJson)) r
      else Some r)"

end
