(* ===== verification/Mps_Manager.thy ===== *)
theory Mps_Manager
  imports Mgmt_Types "HOL-Library.AList" "HOL-Library.Multiset"
begin

text \<open>
  The node manager: the state every manager shares (mps/mgmt/mgmt.go) and the basic manager that
  handles joins and exits (mps/basic). A Go map is the list of its entries in the order a loop meets
  them. The servers that are started together share one map of channels, so \<open>NodesChannel\<close> is the
  address of a map in an explicit store.
\<close>

section \<open>The manager (mps/mgmt/mgmt.go)\<close>

type_synonym 'v table = "(string \<times> 'v) list"

type_synonym chan_maps = "nat \<Rightarrow> chan_ref table"

record NodeManager =
  NMID :: int
  NewNode :: NodeInfo
  mg_State :: nm_StateType
  mg_Mode :: nm_Mode
  NodesTable :: "NodeKey table"
  NodesChannel :: nat

definition NewNodeManager :: "int \<Rightarrow> NodeKey table \<Rightarrow> nat \<Rightarrow> NodeManager" where
  "NewNodeManager nid nodesTable nodesChannel =
     \<lparr>NMID = nid, NewNode = nil_NodeInfo, mg_State = NM_INACTIVE, mg_Mode = NM_NONE,
      NodesTable = nodesTable, NodesChannel = nodesChannel\<rparr>"

definition UpdateSm4Key :: "'a NodeManager_scheme \<Rightarrow> string \<Rightarrow> bytes \<Rightarrow> 'a NodeManager_scheme" where
  "UpdateSm4Key nm name key =
     (case map_of (NodesTable nm) name of
        None \<Rightarrow> nm\<lparr>NodesTable := AList.update name \<lparr>nk_Name = name, Sm2PubKey = None, Sm4Key = key\<rparr> (NodesTable nm)\<rparr>
      | Some nk \<Rightarrow> nm\<lparr>NodesTable := AList.update name (nk\<lparr>Sm4Key := key\<rparr>) (NodesTable nm)\<rparr>)"

definition nm_GetName :: "'a NodeManager_scheme \<Rightarrow> string" where
  "nm_GetName nm = ''r_'' @ Itoa (NMID nm)"

definition UpdateNewNodeInfo :: "chan_maps \<Rightarrow> 'a NodeManager_scheme \<Rightarrow> chan_maps \<times> 'a NodeManager_scheme" where
  "UpdateNewNodeInfo h nm =
     (let c = NodesChannel nm; name = ni_Name (NewNode nm) in
      if mg_Mode nm = NM_JOIN then
        (h(c := AList.update name (ni_Chan (NewNode nm)) (h c)),
         nm\<lparr>NodesTable := AList.update name (ni_NodeKey (NewNode nm)) (NodesTable nm)\<rparr>)
      else if mg_Mode nm = NM_EXIT then
        (h(c := AList.delete name (h c)), nm\<lparr>NodesTable := AList.delete name (NodesTable nm)\<rparr>)
      else (h, nm))"

definition ResetNodeManager :: "'a NodeManager_scheme \<Rightarrow> 'a NodeManager_scheme" where
  "ResetNodeManager nm = nm\<lparr>NewNode := nil_NodeInfo, mg_State := NM_INACTIVE, mg_Mode := NM_NONE\<rparr>"

definition GetNodeNames :: "chan_maps \<Rightarrow> 'a NodeManager_scheme \<Rightarrow> string list" where
  "GetNodeNames h nm = map fst (h (NodesChannel nm))"

text \<open>A slice of the negative capacity -1, for an empty map, panics.\<close>

definition GetOtherNodeNames :: "chan_maps \<Rightarrow> 'a NodeManager_scheme \<Rightarrow> string list option" where
  "GetOtherNodeNames h nm =
     (if h (NodesChannel nm) = [] then None
      else Some (filter (\<lambda>k. k \<noteq> ''r_'' @ Itoa (NMID nm)) (map fst (h (NodesChannel nm)))))"

section \<open>The basic manager (mps/basic)\<close>

record bc_NodeManager = NodeManager +
  SyncMsgs :: "NodeMgmtMsg list"

definition bc_NewNodeManager :: "int \<Rightarrow> NodeKey table \<Rightarrow> nat \<Rightarrow> bc_NodeManager" where
  "bc_NewNodeManager nid nodesTable nodesChannel = NodeManager.extend (NewNodeManager nid nodesTable nodesChannel) \<lparr>SyncMsgs = []\<rparr>"

definition HandleJoin :: "bc_NodeManager \<Rightarrow> NodeMgmtMsg \<Rightarrow> NodeMgmtMsg \<times> bc_NodeManager" where
  "HandleJoin nm msg =
     (let nm = nm\<lparr>NewNode := (NewNode nm)\<lparr>ni_Name := nm_SendNode msg, ni_NodeKey := nm_NodeKey msg\<rparr>, mg_Mode := NM_JOIN\<rparr>
      in (nil_NodeMgmtMsg\<lparr>nm_Type := NM_JOIN, nm_NMType := NM_SYNC, nm_ReciNode := ni_Name (NewNode nm)\<rparr>, nm))"

text \<open>The loop of \<open>GetHighQCIndex\<close>: the maximum is replaced by the view of the message, not of its certificate.\<close>

fun high_scan :: "NodeMgmtMsg list \<Rightarrow> nat \<Rightarrow> nat \<Rightarrow> int \<Rightarrow> nat" where
  "high_scan [] i maxIndex maxViewNumber = maxIndex"
| "high_scan (m # ms) i maxIndex maxViewNumber =
     (if qc_ViewNumber (nm_Justify m) > maxViewNumber then high_scan ms (Suc i) i (nm_ViewNumber m)
      else high_scan ms (Suc i) maxIndex maxViewNumber)"

definition mgr_GetHighQCIndex :: "NodeMgmtMsg list \<Rightarrow> nat option" where
  "mgr_GetHighQCIndex syncMsgs =
     (case syncMsgs of
        [] \<Rightarrow> None
      | m # _ \<Rightarrow> Some (high_scan syncMsgs 0 0 (qc_ViewNumber (nm_Justify m))))"

definition HandleSync :: "bc_NodeManager \<Rightarrow> NodeMgmtMsg \<Rightarrow> ((int \<times> NodeMgmtMsg option) \<times> bc_NodeManager) option" where
  "HandleSync nm msg =
     (let nm = nm\<lparr>SyncMsgs := SyncMsgs nm @ [msg]\<rparr> in
      if int (length (SyncMsgs nm)) \<le> thr2f (int (length (NodesTable nm))) then Some ((-1, None), nm)
      else if mg_State nm = NM_SYNC \<or> mg_State nm = NM_INACTIVE then Some ((-1, None), nm)
      else do {
        k \<leftarrow> mgr_GetHighQCIndex (SyncMsgs nm);
        let nm = nm\<lparr>mg_State := NM_SYNC\<rparr>;
        Some ((int k, Some (nil_NodeMgmtMsg\<lparr>nm_Type := NM_JOIN, nm_NMType := NM_RESTART,
                 nm_SendNode := ni_Name (NewNode nm), nm_ReciNode := ''Gossip''\<rparr>)), nm)
      })"

text \<open>Looking up a name that is not in the map gives the nil channel.\<close>

definition chan_at :: "chan_ref table \<Rightarrow> string \<Rightarrow> chan_ref" where
  "chan_at m name = (case map_of m name of None \<Rightarrow> None | Some r \<Rightarrow> r)"

definition HandleExit :: "chan_maps \<Rightarrow> bc_NodeManager \<Rightarrow> NodeMgmtMsg \<Rightarrow> NodeMgmtMsg \<times> bc_NodeManager" where
  "HandleExit h nm msg =
     (let nm = nm\<lparr>NewNode := (NewNode nm)\<lparr>ni_Name := nm_SendNode msg\<rparr>\<rparr>;
          nm = nm\<lparr>NewNode := (NewNode nm)\<lparr>ni_Chan := chan_at (h (NodesChannel nm)) (ni_Name (NewNode nm))\<rparr>\<rparr>;
          nm = nm\<lparr>mg_Mode := NM_EXIT\<rparr>
      in (nil_NodeMgmtMsg\<lparr>nm_Type := NM_EXIT, nm_NMType := NM_AGREE, nm_SendNode := nm_GetName nm,
            nm_ReciNode := ni_Name (NewNode nm)\<rparr>, nm))"

definition HandleAgree :: "bc_NodeManager \<Rightarrow> NodeMgmtMsg \<Rightarrow> NodeMgmtMsg option \<times> bc_NodeManager" where
  "HandleAgree nm msg =
     (let nm = nm\<lparr>SyncMsgs := SyncMsgs nm @ [msg]\<rparr> in
      if int (length (SyncMsgs nm)) \<le> thr2f (int (length (NodesTable nm))) then (None, nm)
      else if mg_State nm = NM_AGREE \<or> mg_State nm = NM_INACTIVE then (None, nm)
      else
        let nm = nm\<lparr>mg_State := NM_AGREE\<rparr>
        in (Some (nil_NodeMgmtMsg\<lparr>nm_Type := NM_EXIT, nm_NMType := NM_RESTART, nm_SendNode := nm_GetName nm,
                    nm_ReciNode := ''Gossip''\<rparr>), nm))"

text \<open>
  The map of the votes per leader, and the loop over it: \<open>order\<close> is the order in which the loop
  meets the entries, which Go leaves open.
\<close>

definition leader_counts :: "NodeMgmtMsg list \<Rightarrow> (int \<times> nat) list" where
  "leader_counts syncMsgs =
     foldl (\<lambda>leaders m. AList.update (nm_Leader m)
              ((case map_of leaders (nm_Leader m) of None \<Rightarrow> 0 | Some c \<Rightarrow> c) + 1) leaders) [] syncMsgs"

fun first_over :: "int \<Rightarrow> (int \<times> nat) list \<Rightarrow> int" where
  "first_over t [] = -1"
| "first_over t ((l, c) # cs) = (if int c > t then l else first_over t cs)"

definition GetLeaderFromSyncMsgs ::
  "((int \<times> nat) list \<Rightarrow> (int \<times> nat) list) \<Rightarrow> bc_NodeManager \<Rightarrow> NodeMgmtMsg list \<Rightarrow> int" where
  "GetLeaderFromSyncMsgs order nm syncMsgs = first_over (thr2f (int (length (NodesTable nm)))) (order (leader_counts syncMsgs))"


section \<open>Collecting a quorum\<close>

fun feed_all :: "('s \<Rightarrow> 'm \<Rightarrow> ('o option \<times> 's) option) \<Rightarrow> 's \<Rightarrow> 'm list \<Rightarrow> ('o option list \<times> 's) option" where
  "feed_all feed s [] = Some ([], s)"
| "feed_all feed s (m # ms) = do {
     (r, s) \<leftarrow> feed s m;
     (rs, s) \<leftarrow> feed_all feed s ms;
     Some (r # rs, s)
   }"

text \<open>
  The contract of the handlers that wait for more than \<open>quorum\<close> messages: every message is counted,
  and the answer \<open>reply\<close> comes with the message that completes the quorum and never again.
\<close>

locale collector =
  fixes feed :: "'s \<Rightarrow> 'm \<Rightarrow> ('o option \<times> 's) option"
    and got :: "'s \<Rightarrow> 'm list"
    and quorum :: "'s \<Rightarrow> int"
    and armed :: "'s \<Rightarrow> bool"
    and reply :: "'s \<Rightarrow> 'o"
  assumes feed_returns: "\<exists>r t. feed s m = Some (r, t) \<and> got t = got s @ [m] \<and> quorum t = quorum s \<and> reply t = reply s \<and>
      r = (if armed s \<and> quorum s < int (length (got t)) then Some (reply s) else None) \<and> (armed t \<longleftrightarrow> armed s \<and> r = None)"
begin

lemma silent:
  "\<not> armed s \<Longrightarrow> \<exists>rs t. feed_all feed s ms = Some (rs, t) \<and> got t = got s @ ms \<and> rs = replicate (length ms) None"
proof (induction ms arbitrary: s)
  case (Cons m ms)
  from feed_returns [of s m] Cons.prems obtain t where t: "feed s m = Some (None, t)" "got t = got s @ [m]" "\<not> armed t"
    by auto
  from Cons.IH [OF t(3)] t show ?case by auto
qed simp

lemma fires_once:
  assumes "armed s"
  shows "\<exists>rs t. feed_all feed s ms = Some (rs, t) \<and> got t = got s @ ms \<and> length rs = length ms \<and>
    (\<forall>i < length ms. rs ! i = (if i = nat (quorum s - int (length (got s))) then Some (reply s) else None))"
  using assms
proof (induction ms arbitrary: s)
  case (Cons m ms)
  obtain r t where t: "feed s m = Some (r, t)" "got t = got s @ [m]" "quorum t = quorum s" "reply t = reply s"
    "r = (if quorum s < int (Suc (length (got s))) then Some (reply s) else None)" "armed t \<longleftrightarrow> r = None"
    using feed_returns [of s m] Cons.prems(1) by auto
  show ?case
  proof (cases "quorum s < int (Suc (length (got s)))")
    case True
    then have r: "r = Some (reply s)" "\<not> armed t" "nat (quorum s - int (length (got s))) = 0" using t by auto
    obtain rs u where u: "feed_all feed t ms = Some (rs, u)" "got u = got t @ ms" "rs = replicate (length ms) None"
      using silent [OF r(2)] by blast
    have "(r # rs) ! i = (if i = nat (quorum s - int (length (got s))) then Some (reply s) else None)" if "i < length (m # ms)" for i
      using that u(3) r(1,3) by (cases i) auto
    then show ?thesis using t(1,2) u by (intro exI [of _ "r # rs"] exI [of _ u]) auto
  next
    case False
    with t have r: "r = None" "armed t" by auto
    have n: "nat (quorum s - int (length (got s))) = Suc (nat (quorum t - int (length (got t))))"
      using False t(2,3) by simp
    obtain rs u where u: "feed_all feed t ms = Some (rs, u)" "got u = got t @ ms" "length rs = length ms"
      "\<forall>i < length ms. rs ! i = (if i = nat (quorum t - int (length (got t))) then Some (reply t) else None)"
      using Cons.IH [OF r(2)] by blast
    have "(r # rs) ! i = (if i = nat (quorum s - int (length (got s))) then Some (reply s) else None)" if "i < length (m # ms)" for i
      using that u(4) r(1) t(4) unfolding n by (cases i) auto
    then show ?thesis using t(1,2) u by (intro exI [of _ "r # rs"] exI [of _ u]) auto
  qed
qed simp

end

definition sync_feed :: "bc_NodeManager \<Rightarrow> NodeMgmtMsg \<Rightarrow> (NodeMgmtMsg option \<times> bc_NodeManager) option" where
  "sync_feed nm m = map_option (\<lambda>((k, r), nm). (r, nm)) (HandleSync nm m)"

definition agree_feed :: "bc_NodeManager \<Rightarrow> NodeMgmtMsg \<Rightarrow> (NodeMgmtMsg option \<times> bc_NodeManager) option" where
  "agree_feed nm m = Some (HandleAgree nm m)"

abbreviation table_quorum :: "bc_NodeManager \<Rightarrow> int" where
  "table_quorum nm \<equiv> thr2f (int (length (NodesTable nm)))"

abbreviation join_restart :: "bc_NodeManager \<Rightarrow> NodeMgmtMsg" where
  "join_restart nm \<equiv> nil_NodeMgmtMsg\<lparr>nm_Type := NM_JOIN, nm_NMType := NM_RESTART, nm_SendNode := ni_Name (NewNode nm), nm_ReciNode := ''Gossip''\<rparr>"

abbreviation exit_restart :: "bc_NodeManager \<Rightarrow> NodeMgmtMsg" where
  "exit_restart nm \<equiv> nil_NodeMgmtMsg\<lparr>nm_Type := NM_EXIT, nm_NMType := NM_RESTART, nm_SendNode := nm_GetName nm, nm_ReciNode := ''Gossip''\<rparr>"

lemma HandleSync_eq:
  "\<exists>k. HandleSync nm m = Some (if mg_State nm \<noteq> NM_SYNC \<and> mg_State nm \<noteq> NM_INACTIVE \<and> table_quorum nm < int (Suc (length (SyncMsgs nm)))
     then ((k, Some (join_restart nm)), nm\<lparr>SyncMsgs := SyncMsgs nm @ [m], mg_State := NM_SYNC\<rparr>)
     else ((-1, None), nm\<lparr>SyncMsgs := SyncMsgs nm @ [m]\<rparr>))"
proof -
  obtain k where "mgr_GetHighQCIndex (SyncMsgs nm @ [m]) = Some k" by (cases "SyncMsgs nm") (simp_all add: mgr_GetHighQCIndex_def)
  then show ?thesis by (auto simp: HandleSync_def Let_def)
qed

interpretation syncs: collector sync_feed SyncMsgs table_quorum "\<lambda>nm. mg_State nm \<noteq> NM_SYNC \<and> mg_State nm \<noteq> NM_INACTIVE" join_restart
proof (unfold_locales, goal_cases)
  case (1 nm m)
  from HandleSync_eq [of nm m] obtain k where
    k: "HandleSync nm m = Some (if mg_State nm \<noteq> NM_SYNC \<and> mg_State nm \<noteq> NM_INACTIVE \<and> table_quorum nm < int (Suc (length (SyncMsgs nm)))
     then ((k, Some (join_restart nm)), nm\<lparr>SyncMsgs := SyncMsgs nm @ [m], mg_State := NM_SYNC\<rparr>)
     else ((-1, None), nm\<lparr>SyncMsgs := SyncMsgs nm @ [m]\<rparr>))" ..
  show ?case
  proof (cases "mg_State nm \<noteq> NM_SYNC \<and> mg_State nm \<noteq> NM_INACTIVE \<and> table_quorum nm < int (Suc (length (SyncMsgs nm)))")
    case True
    with k have "sync_feed nm m = Some (Some (join_restart nm), nm\<lparr>SyncMsgs := SyncMsgs nm @ [m], mg_State := NM_SYNC\<rparr>)"
      by (simp add: sync_feed_def)
    with True show ?thesis by simp
  next
    case False
    with k have "sync_feed nm m = Some (None, nm\<lparr>SyncMsgs := SyncMsgs nm @ [m]\<rparr>)" by (simp add: sync_feed_def)
    with False show ?thesis by simp
  qed
qed

interpretation agrees: collector agree_feed SyncMsgs table_quorum "\<lambda>nm. mg_State nm \<noteq> NM_AGREE \<and> mg_State nm \<noteq> NM_INACTIVE" exit_restart
  by unfold_locales (auto simp: agree_feed_def HandleAgree_def nm_GetName_def Let_def)

text \<open>
  C22 A join and an exit are decided exactly once: of the sync (agree) messages that reach a node
  that has applied, the first one with which it keeps more than \<open>(n-1)/3*2\<close> of them, for \<open>n\<close> nodes in its
  table, and no other, makes it send the RESTART message, however many follow; none of them makes it
  panic. What it keeps is not emptied between the two: with more than that kept from its join, a
  node decides its exit on the first AGREE.
\<close>

theorem handshake_fires_once:
  assumes "mg_State nm = NM_APPLY"
  shows "(\<exists>rs t. feed_all sync_feed nm ms = Some (rs, t) \<and> SyncMsgs t = SyncMsgs nm @ ms \<and> length rs = length ms \<and>
      (\<forall>i < length ms. rs ! i = (if i = nat (table_quorum nm - int (length (SyncMsgs nm))) then Some (join_restart nm) else None))) \<and>
    (\<exists>rs t. feed_all agree_feed nm ms = Some (rs, t) \<and> SyncMsgs t = SyncMsgs nm @ ms \<and> length rs = length ms \<and>
      (\<forall>i < length ms. rs ! i = (if i = nat (table_quorum nm - int (length (SyncMsgs nm))) then Some (exit_restart nm) else None)))"
  using syncs.fires_once [of nm ms] agrees.fires_once [of nm ms] assms by simp

definition demo_mgr :: bc_NodeManager where
  "demo_mgr = (bc_NewNodeManager 4 (map (\<lambda>i. (node_name i, nil_NodeKey)) [4, 0, 1, 2, 3]) 0)\<lparr>mg_State := NM_APPLY\<rparr>"

lemma demo_mgr_sel [simp]:
  "mg_State demo_mgr = NM_APPLY" "SyncMsgs demo_mgr = []" "table_quorum demo_mgr = 2" "NewNode demo_mgr = nil_NodeInfo"
  by (simp_all add: demo_mgr_def bc_NewNodeManager_def NewNodeManager_def NodeManager.extend_def thr2f_pos)

theorem handshake_fires_once_witness:
  "(\<exists>rs t. feed_all sync_feed demo_mgr (replicate 4 nil_NodeMgmtMsg) = Some (rs, t) \<and> rs ! 1 = None \<and>
    rs ! 2 = Some (join_restart demo_mgr) \<and> rs ! 3 = None) \<and>
   (\<exists>rs t. feed_all agree_feed (demo_mgr\<lparr>SyncMsgs := replicate 3 nil_NodeMgmtMsg\<rparr>) [nil_NodeMgmtMsg] = Some (rs, t) \<and>
    rs = [Some (exit_restart demo_mgr)])"
proof
  from handshake_fires_once [of demo_mgr "replicate 4 nil_NodeMgmtMsg"] obtain rs t where
    r: "feed_all sync_feed demo_mgr (replicate 4 nil_NodeMgmtMsg) = Some (rs, t)"
    "\<forall>i < 4. rs ! i = (if i = 2 then Some (join_restart demo_mgr) else None)" by auto
  from r(2) have "rs ! 1 = None" "rs ! 2 = Some (join_restart demo_mgr)" "rs ! 3 = None" by simp_all
  with r(1) show "\<exists>rs t. feed_all sync_feed demo_mgr (replicate 4 nil_NodeMgmtMsg) = Some (rs, t) \<and> rs ! 1 = None \<and>
    rs ! 2 = Some (join_restart demo_mgr) \<and> rs ! 3 = None" by blast
  let ?nm = "demo_mgr\<lparr>SyncMsgs := replicate 3 nil_NodeMgmtMsg\<rparr>"
  have st: "mg_State ?nm = NM_APPLY" "table_quorum ?nm = 2" "length (SyncMsgs ?nm) = 3" "exit_restart ?nm = exit_restart demo_mgr"
    using demo_mgr_sel(1,3) by (simp_all add: nm_GetName_def)
  from conjunct2 [OF handshake_fires_once [OF st(1), of "[nil_NodeMgmtMsg]"]] obtain rs t where
    "feed_all agree_feed ?nm [nil_NodeMgmtMsg] = Some (rs, t)" "length rs = 1" "rs ! 0 = Some (exit_restart demo_mgr)"
    unfolding st by auto
  then show "\<exists>rs t. feed_all agree_feed ?nm [nil_NodeMgmtMsg] = Some (rs, t) \<and> rs = [Some (exit_restart demo_mgr)]"
    by (cases rs) auto
qed

section \<open>The leader and the certificate of a sync\<close>

lemma leader_counts_foldl:
  "map_of (foldl (\<lambda>leaders m. AList.update (nm_Leader m)
     ((case map_of leaders (nm_Leader m) of None \<Rightarrow> 0 | Some c \<Rightarrow> c) + 1) leaders) ls ms) l =
   (if l \<in> nm_Leader ` set ms \<or> map_of ls l \<noteq> None
    then Some ((case map_of ls l of None \<Rightarrow> 0 | Some c \<Rightarrow> c) + length (filter (\<lambda>m. nm_Leader m = l) ms)) else None)"
  by (induction ms arbitrary: ls) (auto simp: update_conv' split: option.splits)

lemma map_of_leader_counts:
  "map_of (leader_counts ms) l = (if l \<in> nm_Leader ` set ms then Some (length (filter (\<lambda>m. nm_Leader m = l) ms)) else None)"
  unfolding leader_counts_def by (subst leader_counts_foldl) simp

lemma distinct_leader_counts: "distinct (map fst (leader_counts ms))"
proof -
  have "distinct (map fst ls) \<Longrightarrow> distinct (map fst (foldl (\<lambda>leaders m. AList.update (nm_Leader m)
     ((case map_of leaders (nm_Leader m) of None \<Rightarrow> 0 | Some c \<Rightarrow> c) + 1) leaders) ls ms))" for ls :: "(int \<times> nat) list"
    by (induction ms arbitrary: ls) (simp_all add: distinct_update)
  then show ?thesis by (simp add: leader_counts_def)
qed

lemma first_over_none: "(\<forall>(l, c) \<in> set cs. int c \<le> t) \<Longrightarrow> first_over t cs = -1"
  by (induction cs) auto

lemma first_over_only:
  "(l, c) \<in> set cs \<Longrightarrow> int c > t \<Longrightarrow> (\<forall>(k, d) \<in> set cs. int d > t \<longrightarrow> k = l) \<Longrightarrow> first_over t cs = l"
  by (induction cs) auto

text \<open>
  The leader of a sync has to be unanimous: a node that joins looks for the leader when it has
  one message more than two thirds of the known nodes, so whatever the order of the map, it finds
  one only if all of these messages name it; a single other answer gives the leader -1.
\<close>

theorem sync_leader_unanimous:
  assumes "int (length ms) = table_quorum nm + 1" and "\<And>xs. mset (order xs) = mset xs"
  shows "GetLeaderFromSyncMsgs order nm ms =
    (if \<forall>m \<in> set ms. nm_Leader m = nm_Leader (hd ms) then nm_Leader (hd ms) else -1)"
proof -
  let ?t = "table_quorum nm"
  have set: "set (order xs) = set xs" for xs using assms(2) by (metis set_mset_mset)
  have c: "int c \<le> ?t \<longleftrightarrow> \<not> (\<forall>m \<in> set ms. nm_Leader m = l)" if "(l, c) \<in> set (leader_counts ms)" for l c
  proof -
    have "c = length (filter (\<lambda>m. nm_Leader m = l) ms)"
      using map_of_is_SomeI [OF distinct_leader_counts that] by (simp add: map_of_leader_counts split: if_splits)
    moreover have "length (filter (\<lambda>m. nm_Leader m = l) ms) \<le> length ms" by simp
    ultimately have "int c \<le> ?t \<longleftrightarrow> length (filter (\<lambda>m. nm_Leader m = l) ms) \<noteq> length ms" using assms(1) by linarith
    moreover have "length (filter (\<lambda>m. nm_Leader m = l) ms) = length ms \<longleftrightarrow> (\<forall>m \<in> set ms. nm_Leader m = l)"
      by (auto simp: filter_True dest: length_filter_less [of _ ms "\<lambda>m. nm_Leader m = l"])
    ultimately show ?thesis by simp
  qed
  show ?thesis
  proof (cases "\<forall>m \<in> set ms. nm_Leader m = nm_Leader (hd ms)")
    case True
    have "0 \<le> ?t" by (cases "NodesTable nm") (simp_all add: thr2f_nonneg, simp add: thr2f_def signed_divide_int_def)
    with assms(1) have ne: "ms \<noteq> []" by auto
    then obtain n where n: "(nm_Leader (hd ms), n) \<in> set (leader_counts ms)"
      using map_of_leader_counts [of ms "nm_Leader (hd ms)"] map_of_SomeD by fastforce
    have "first_over ?t (order (leader_counts ms)) = nm_Leader (hd ms)"
    proof (rule first_over_only)
      show "(nm_Leader (hd ms), n) \<in> set (order (leader_counts ms))" "int n > ?t" using n c [OF n] True by (auto simp: set)
      have "k = nm_Leader (hd ms)" if "(k, d) \<in> set (leader_counts ms)" "int d > ?t" for k d
        using c [OF that(1)] that(2) ne by (metis hd_in_set not_less)
      then show "\<forall>(k, d) \<in> set (order (leader_counts ms)). int d > ?t \<longrightarrow> k = nm_Leader (hd ms)" by (auto simp: set)
    qed
    with True show ?thesis by (simp add: GetLeaderFromSyncMsgs_def)
  next
    case False
    have "\<not> (\<forall>m \<in> set ms. nm_Leader m = l)" for l using False by (cases ms) auto
    then have "first_over ?t (order (leader_counts ms)) = -1" using c by (intro first_over_none) (auto simp: set)
    then show ?thesis unfolding GetLeaderFromSyncMsgs_def if_not_P [OF False] .
  qed
qed

theorem sync_leader_unanimous_witness:
  "GetLeaderFromSyncMsgs rev demo_mgr [nil_NodeMgmtMsg\<lparr>nm_Leader := 2\<rparr>, nil_NodeMgmtMsg\<lparr>nm_Leader := 2\<rparr>, nil_NodeMgmtMsg\<lparr>nm_Leader := 3\<rparr>] = -1"
  by (subst sync_leader_unanimous) simp_all

text \<open>
  The synchronised certificate need not be the highest: among three sync messages with rising
  certificates, the second one wins when its own view reaches the third certificate, as that of a
  node one view ahead of its certificate does; with views equal to the certificates' the highest wins.
\<close>

theorem sync_picks_stale_qc:
  assumes "qc_ViewNumber (nm_Justify a) < qc_ViewNumber (nm_Justify b)" "qc_ViewNumber (nm_Justify b) < qc_ViewNumber (nm_Justify c)"
  shows "mgr_GetHighQCIndex [a, b, c] = Some (if qc_ViewNumber (nm_Justify c) \<le> nm_ViewNumber b then 1 else 2)"
  using assms by (simp add: mgr_GetHighQCIndex_def)

theorem sync_picks_stale_qc_witness:
  "mgr_GetHighQCIndex [nil_NodeMgmtMsg\<lparr>nm_ViewNumber := 1\<rparr>, nil_NodeMgmtMsg\<lparr>nm_ViewNumber := 2, nm_Justify := nil_QC\<lparr>qc_ViewNumber := 1\<rparr>\<rparr>,
     nil_NodeMgmtMsg\<lparr>nm_ViewNumber := 3, nm_Justify := nil_QC\<lparr>qc_ViewNumber := 2\<rparr>\<rparr>] = Some 1"
  using sync_picks_stale_qc [of "nil_NodeMgmtMsg\<lparr>nm_ViewNumber := 1\<rparr>" "nil_NodeMgmtMsg\<lparr>nm_ViewNumber := 2, nm_Justify := nil_QC\<lparr>qc_ViewNumber := 1\<rparr>\<rparr>"
     "nil_NodeMgmtMsg\<lparr>nm_ViewNumber := 3, nm_Justify := nil_QC\<lparr>qc_ViewNumber := 2\<rparr>\<rparr>"]
  by (simp add: nil_NodeMgmtMsg_def nil_QC_def)

end
