(* ===== verification/Srv_Core.thy ===== *)
theory Srv_Core
  imports Ord_Core Mps_Manager
begin

text \<open>
  The server (core/server): the orderer, the node manager and the network of one node, and the
  handlers of everything that reaches it. The channels of the nodes and the maps that name them are
  shared between servers, so they are in a world every handler takes and returns. \<open>None\<close> is a panic
  or a call that blocks.
\<close>

section \<open>The state (server.go, identity.go, client_info.go)\<close>

record PubID =
  pid_Name :: string
  pid_PubKey :: bytes

text \<open>A channel is named by the node that made it.\<close>

record PrivID =
  pid_ID :: PubID
  Address :: chan_ref
  sid_PrivateKey :: bytes

text \<open>\<open>Conn\<close> tells whether there is a TCP connection.\<close>

record ClientInfo =
  ci_Name :: string
  ci_Addr :: string
  ci_Pk :: bytes
  Conn :: bool

datatype nm_Type = NMT_BASIC | NMT_other string

text \<open>
  Two fields stand for goroutines: \<open>Sends\<close> are the messages of \<open>go s.SendMsg(...)\<close> not yet run, and
  \<open>Workers\<close> is the number of loops \<open>HandleReq\<close> waiting for a flag. The lock of the requests is taken
  and released within one handler and so is left out, as is the logger.
\<close>

record Server =
  ServerID :: PrivID
  Port :: string
  Clients :: "ClientInfo table"
  sv_Orderer :: Orderer
  NMType :: nm_Type
  sv_Manager :: bc_NodeManager
  Requests :: "BCRequest list"
  BatchSize :: int
  sv_BlkStore :: BlockStore
  Sends :: "byte list ServerMsg list"
  Workers :: nat

abbreviation sv_Name :: "Server \<Rightarrow> string" where
  "sv_Name s \<equiv> pid_Name (pid_ID (ServerID s))"

text \<open>
  The world of the servers: the maps of channels, the queue of every channel, what was written to
  TCP connections, and the senders of messages whose signature did not verify, which the code logs.
\<close>

record World =
  Maps :: chan_maps
  Queues :: "string \<Rightarrow> byte list list"
  Wire :: "(string \<times> byte list) list"
  SignErrors :: "string list"

section \<open>The network (network/local, network/p2p)\<close>

text \<open>A send on a nil channel blocks for ever.\<close>

definition chan_send_to :: "chan_ref \<Rightarrow> byte list \<Rightarrow> World \<Rightarrow> World option" where
  "chan_send_to ch m w =
     (case ch of None \<Rightarrow> None | Some a \<Rightarrow> Some (w\<lparr>Queues := (Queues w)(a := Queues w a @ [m])\<rparr>))"

fun send_each :: "chan_ref list \<Rightarrow> byte list \<Rightarrow> World \<Rightarrow> World option" where
  "send_each [] m w = Some w"
| "send_each (ch # chs) m w = do { w \<leftarrow> chan_send_to ch m w; send_each chs m w }"

definition p2p_Send ::
  "(string \<Rightarrow> bool) \<Rightarrow> bool \<Rightarrow> string \<Rightarrow> byte list \<Rightarrow> (string \<times> byte list) list \<Rightarrow> bool \<times> (string \<times> byte list) list" where
  "p2p_Send dials conn addr msg wire =
     (if conn then (False, wire @ [(addr, msg)])
      else if \<not> dials addr then (False, wire)
      else (True, wire @ [(addr, msg)]))"

text \<open>\<open>SendMsg\<close>: a receiver that is not one of the named groups is the new node or a node of the map.\<close>

definition sv_SendMsg :: "'a node_env_scheme \<Rightarrow> Server \<Rightarrow> byte list ServerMsg \<Rightarrow> World \<Rightarrow> (Server \<times> World) option" where
  "sv_SendMsg env s msg w =
     (case Sm2Sign env (sid_PrivateKey (ServerID s)) (pid_PubKey (pid_ID (ServerID s))) (SM3 env (Payload msg)) of
        None \<Rightarrow> Some (s, w)
      | Some sign \<Rightarrow>
          let msgJson = enc_Ser env (msg\<lparr>Sign := Some sign\<rparr>);
              nm = sv_Manager s;
              chans = Maps w (NodesChannel nm)
          in if ReciServer msg = ''Broadcast'' then do { w \<leftarrow> send_each (map snd chans) msgJson w; Some (s, w) }
             else if ReciServer msg = ''Gossip'' then do {
               w \<leftarrow> send_each (map snd (filter (\<lambda>(n, ch). n \<noteq> SendServer msg) chans)) msgJson w;
               Some (s, w)
             }
             else if ReciServer msg = ''Client'' then do {
               ci \<leftarrow> map_of (Clients s) ''c_0'';
               let (new, wire) = p2p_Send (Dials env) (Conn ci) (ci_Addr ci) (msgJson @ [10]) (Wire w);
               let s = (if new then s\<lparr>Clients := AList.update ''c_0'' (ci\<lparr>Conn := True\<rparr>) (Clients s)\<rparr> else s);
               Some (s, w\<lparr>Wire := wire\<rparr>)
             }
             else if ReciServer msg = ni_Name (NewNode nm) then do {
               w \<leftarrow> chan_send_to (ni_Chan (NewNode nm)) msgJson w; Some (s, w)
             }
             else do { w \<leftarrow> chan_send_to (chan_at chans (ReciServer msg)) msgJson w; Some (s, w) })"

definition sv_go_SendMsg :: "Server \<Rightarrow> byte list ServerMsg \<Rightarrow> Server" where
  "sv_go_SendMsg s msg = s\<lparr>Sends := Sends s @ [msg]\<rparr>"

definition mgmt_msg :: "'a node_env_scheme \<Rightarrow> Server \<Rightarrow> NodeMgmtMsg \<Rightarrow> byte list ServerMsg" where
  "mgmt_msg env s ret = \<lparr>SType = NODEMGMT, SendServer = sv_Name s, ReciServer = nm_ReciNode ret, Sign = None,
     Payload = enc_Mgmt env ret\<rparr>"

section \<open>Creation (server.go)\<close>

definition InitNodeManager :: "Server \<Rightarrow> nm_Type \<Rightarrow> int \<Rightarrow> NodeKey table \<Rightarrow> nat \<Rightarrow> Server" where
  "InitNodeManager s nmType i nodesTable nodesChannel =
     (if nmType = NMT_BASIC then s\<lparr>sv_Manager := bc_NewNodeManager i nodesTable nodesChannel\<rparr> else s)"

definition sv_InitConsensus ::
  "'a env_scheme \<Rightarrow> Server \<Rightarrow> ConsensusType \<Rightarrow> int \<Rightarrow> int \<Rightarrow> string \<Rightarrow> any_Signer \<Rightarrow> Server option" where
  "sv_InitConsensus env s consType i n path signer = do {
     r \<leftarrow> InitConsensus env (sv_Orderer s) consType i n path signer;
     Some (s\<lparr>sv_Orderer := r\<rparr>)
   }"

text \<open>
  \<open>NewServer\<close>: \<open>keygen\<close> is the result of the key generation, \<open>key1\<close> and \<open>key2\<close> what the two files of
  the client's public key hold. \<open>Inl\<close> is the error return.
\<close>

definition nil_BlockStore :: BlockStore where
  "nil_BlockStore = \<lparr>bs_Height = 0, GeneratedHeight = 0, bs_PreBlkHash = None, CurBlkHash = None,
     CurProposalBlk = empty_Block, bs_Path = [], bs_Files = (\<lambda>_. None)\<rparr>"

definition NewServer ::
  "'a env_scheme \<Rightarrow> (unit + bytes \<times> bytes) \<Rightarrow> bytes \<Rightarrow> bytes \<Rightarrow> int \<Rightarrow> int \<Rightarrow> string \<Rightarrow> ConsensusType \<Rightarrow> nm_Type \<Rightarrow> any_Signer \<Rightarrow> nat \<Rightarrow>
   (unit + Server) option" where
  "NewServer env keygen key1 key2 i n path consType nmType signer nodesChannel =
     (case keygen of
        Inl _ \<Rightarrow> Some (Inl ())
      | Inr (sk, pk) \<Rightarrow> do {
          let name = ''r_'' @ Itoa i;
          let nodesTable = [(name, \<lparr>nk_Name = name, Sm2PubKey = pk, Sm4Key = None\<rparr>)];
          let cpk = (if length (bval key1) = 0 then key2 else key1);
          let s = \<lparr>ServerID = \<lparr>pid_ID = \<lparr>pid_Name = name, pid_PubKey = pk\<rparr>, Address = Some name, sid_PrivateKey = sk\<rparr>,
                   Port = Itoa (i + 20001),
                   Clients = [(''c_0'', \<lparr>ci_Name = ''c_0'', ci_Addr = ''127.0.0.1:30000'', ci_Pk = cpk, Conn = False\<rparr>)],
                   sv_Orderer = nil_Orderer, NMType = nmType, sv_Manager = bc_NewNodeManager 0 [] 0, Requests = [],
                   BatchSize = 128, sv_BlkStore = nil_BlockStore, Sends = [], Workers = 0\<rparr>;
          let s = InitNodeManager s nmType i nodesTable nodesChannel;
          s \<leftarrow> sv_InitConsensus env s consType i n path signer;
          Some (Inr s)
        })"

definition sv_GetNodeNames :: "Server \<Rightarrow> World \<Rightarrow> string list" where
  "sv_GetNodeNames s w = GetNodeNames (Maps w) (sv_Manager s)"

definition sv_GetOtherNodeNames :: "Server \<Rightarrow> World \<Rightarrow> string list option" where
  "sv_GetOtherNodeNames s w = GetOtherNodeNames (Maps w) (sv_Manager s)"

section \<open>Requests (handler.go, server.go)\<close>

definition sv_VerifyReqs :: "Server \<Rightarrow> bool" where
  "sv_VerifyReqs s = (if length (Requests s) = 0 then False else True)"

definition ValidateAndHandleReq :: "'a node_env_scheme \<Rightarrow> Server \<Rightarrow> byte list \<Rightarrow> Server option" where
  "ValidateAndHandleReq env s payload = do {
     let s = s\<lparr>Requests := Requests s @ [dec_Req env payload]\<rparr>;
     waits \<leftarrow> IsWaitingReq (sv_Orderer s);
     if waits then do {
       r \<leftarrow> ord_HandleReq env (sv_Orderer s) (bs_Height (sv_BlkStore s)) (bs_PreBlkHash (sv_BlkStore s))
             (CurBlkHash (sv_BlkStore s)) (Requests s);
       Some (s\<lparr>sv_Orderer := r\<rparr>)
     }
     else Some s
   }"

text \<open>One pass of the loop \<open>HandleReq\<close>, after it has received a flag.\<close>

definition handle_batch :: "'a env_scheme \<Rightarrow> Server \<Rightarrow> Server option" where
  "handle_batch env s =
     (if length (Requests s) \<noteq> 0 \<and> int (length (Requests s)) \<le> BatchSize s then do {
        leader \<leftarrow> ord_GetLeaderName (sv_Orderer s);
        if sv_Name s = leader then
          if sv_VerifyReqs s then do {
            r \<leftarrow> ord_HandleReq env (sv_Orderer s) (bs_Height (sv_BlkStore s)) (bs_PreBlkHash (sv_BlkStore s))
                  (CurBlkHash (sv_BlkStore s)) (Requests s);
            Some (s\<lparr>sv_Orderer := r, Requests := []\<rparr>)
          }
          else Some (s\<lparr>Requests := []\<rparr>)
        else Some s
      }
      else Some s)"

text \<open>
  A worker takes the flag, handles the batch, and waits again if the orderer still accepts
  requests; with no flag or no worker nothing happens.
\<close>

definition sv_HandleReq :: "'a env_scheme \<Rightarrow> Server \<Rightarrow> Server option" where
  "sv_HandleReq env s =
     (case (Workers s, ReqFlagChan (sv_Orderer s)) of
        (Suc k, Some (flag # flags)) \<Rightarrow> do {
          let s = s\<lparr>sv_Orderer := (sv_Orderer s)\<lparr>ReqFlagChan := Some flags\<rparr>\<rparr>;
          s \<leftarrow> handle_batch env s;
          Some (if ReqState (sv_Orderer s) then s else s\<lparr>Workers := k\<rparr>)
        }
      | _ \<Rightarrow> Some s)"

definition go_HandleReq :: "Server \<Rightarrow> Server" where
  "go_HandleReq s = (if ReqState (sv_Orderer s) then s\<lparr>Workers := Suc (Workers s)\<rparr> else s)"

section \<open>Stop, restart, update (sync.go)\<close>

definition StopOrderer :: "Server \<Rightarrow> Server option" where
  "StopOrderer s = do { r \<leftarrow> ord_Stop (sv_Orderer s); Some (s\<lparr>sv_Orderer := r\<rparr>) }"

definition RestartOrderer :: "'a env_scheme \<Rightarrow> Server \<Rightarrow> Server option" where
  "RestartOrderer env s = do {
     r \<leftarrow> ResetState env (sv_Orderer s);
     let s = go_HandleReq (s\<lparr>sv_Orderer := r\<rparr>);
     r \<leftarrow> RestartCons env (sv_Orderer s);
     Some (s\<lparr>sv_Orderer := r\<rparr>)
   }"

text \<open>An index out of range panics.\<close>

definition nth_sync :: "NodeMgmtMsg list \<Rightarrow> int \<Rightarrow> NodeMgmtMsg option" where
  "nth_sync ms i = (if 0 \<le> i \<and> i < int (length ms) then Some (ms ! nat i) else None)"

definition UpdateNodeInfo :: "'a node_env_scheme \<Rightarrow> Server \<Rightarrow> int \<Rightarrow> World \<Rightarrow> (Server \<times> World) option" where
  "UpdateNodeInfo env s index w =
     (if sv_Name s \<noteq> ni_Name (NewNode (sv_Manager s)) then do {
        let (h, nm) = UpdateNewNodeInfo (Maps w) (sv_Manager s);
        let w = w\<lparr>Maps := h\<rparr>;
        r \<leftarrow> ord_UpdateNodesNum (sv_Orderer s) (int (length (NodesTable nm)));
        Some (s\<lparr>sv_Orderer := r, sv_Manager := ResetNodeManager nm\<rparr>, w)
      }
      else do {
        let nm = sv_Manager s;
        r \<leftarrow> ord_UpdateNodesNum (sv_Orderer s) (int (length (NodesTable nm)));
        m \<leftarrow> nth_sync (SyncMsgs nm) index;
        r \<leftarrow> ord_SyncInfo r m (GetLeaderFromSyncMsgs (map_order env) nm (SyncMsgs nm));
        Some (s\<lparr>sv_Orderer := r, sv_Manager := ResetNodeManager nm\<rparr>, w)
      })"

section \<open>Messages of the node manager (handler.go)\<close>

definition sv_JoinApply :: "'a node_env_scheme \<Rightarrow> Server \<Rightarrow> NodeMgmtMsg \<Rightarrow> World \<Rightarrow> (Server \<times> World) option" where
  "sv_JoinApply env s msg w = do {
     s \<leftarrow> StopOrderer s;
     let (ret, nm) = HandleJoin (sv_Manager s) msg;
     let s = s\<lparr>sv_Manager := nm\<rparr>;
     ret \<leftarrow> ord_AddSyncInfo (sv_Orderer s) ret;
     (s, w) \<leftarrow> UpdateNodeInfo env s (-1) w;
     Some (sv_go_SendMsg s (mgmt_msg env s ret), w)
   }"

definition sv_JoinSync :: "'a node_env_scheme \<Rightarrow> Server \<Rightarrow> NodeMgmtMsg \<Rightarrow> World \<Rightarrow> (Server \<times> World) option" where
  "sv_JoinSync env s msg w = do {
     ((msgSync, ret), nm) \<leftarrow> HandleSync (sv_Manager s) msg;
     let s = s\<lparr>sv_Manager := nm\<rparr>;
     case ret of
       None \<Rightarrow> Some (s, w)
     | Some ret \<Rightarrow>
         if msgSync \<noteq> -1 \<and> mg_State nm = NM_SYNC then do {
           (s, w) \<leftarrow> UpdateNodeInfo env s msgSync w;
           Some (sv_go_SendMsg s (mgmt_msg env s ret), w)
         }
         else Some (s, w)
   }"

text \<open>
  The handlers of RESTART wait until the signers have been replaced; until then they do not return.
\<close>

definition sv_JoinRestart :: "'a node_env_scheme \<Rightarrow> Server \<Rightarrow> World \<Rightarrow> (Server \<times> World) option" where
  "sv_JoinRestart env s w = do {
     ready \<leftarrow> IsReady (sv_Orderer s);
     if \<not> ready then None
     else do {
       s \<leftarrow> RestartOrderer env s;
       leader \<leftarrow> ord_GetLeaderName (sv_Orderer s);
       if sv_Name s = leader then do { r \<leftarrow> ord_FixLeader env (sv_Orderer s); Some (s\<lparr>sv_Orderer := r\<rparr>, w) }
       else Some (s, w)
     }
   }"

definition sv_ExitApply :: "'a node_env_scheme \<Rightarrow> Server \<Rightarrow> NodeMgmtMsg \<Rightarrow> World \<Rightarrow> (Server \<times> World) option" where
  "sv_ExitApply env s msg w = do {
     s \<leftarrow> StopOrderer s;
     let (ret, nm) = HandleExit (Maps w) (sv_Manager s) msg;
     let s = s\<lparr>sv_Manager := nm\<rparr>;
     (s, w) \<leftarrow> sv_SendMsg env s (mgmt_msg env s ret) w;
     UpdateNodeInfo env s (-1) w
   }"

definition sv_ExitAgree :: "'a node_env_scheme \<Rightarrow> Server \<Rightarrow> NodeMgmtMsg \<Rightarrow> World \<Rightarrow> (Server \<times> World) option" where
  "sv_ExitAgree env s msg w =
     (let (ret, nm) = HandleAgree (sv_Manager s) msg;
          s = s\<lparr>sv_Manager := nm\<rparr>
      in case ret of
           None \<Rightarrow> Some (s, w)
         | Some ret \<Rightarrow> Some (sv_go_SendMsg s (mgmt_msg env s ret), w))"

definition sv_ExitRestart :: "'a node_env_scheme \<Rightarrow> Server \<Rightarrow> NodeMgmtMsg \<Rightarrow> World \<Rightarrow> (Server \<times> World) option" where
  "sv_ExitRestart env s msg w = do {
     ready \<leftarrow> IsReady (sv_Orderer s);
     if \<not> ready then None
     else do {
       s \<leftarrow> RestartOrderer env s;
       leader \<leftarrow> ord_GetLeaderName (sv_Orderer s);
       if nm_SendNode msg = leader then do {
         r \<leftarrow> ord_RefreshLeader (sv_Orderer s);
         let s = s\<lparr>sv_Orderer := r\<rparr>;
         leader \<leftarrow> ord_GetLeaderName (sv_Orderer s);
         if sv_Name s = leader then do { r \<leftarrow> ord_InitLeader env (sv_Orderer s); Some (s\<lparr>sv_Orderer := r\<rparr>, w) }
         else Some (s, w)
       }
       else Some (s, w)
     }
   }"

definition HandleNodeManagerMsg :: "'a node_env_scheme \<Rightarrow> Server \<Rightarrow> byte list \<Rightarrow> World \<Rightarrow> (Server \<times> World) option" where
  "HandleNodeManagerMsg env s payload w =
     (if NMType s \<noteq> NMT_BASIC then Some (s, w)
      else case dec_Mgmt env payload of
        None \<Rightarrow> Some (s, w)
      | Some msg \<Rightarrow>
          if nm_Type msg = NM_JOIN then
            if nm_NMType msg = NM_APPLY then sv_JoinApply env s msg w
            else if nm_NMType msg = NM_SYNC then sv_JoinSync env s msg w
            else if nm_NMType msg = NM_RESTART then sv_JoinRestart env s w
            else Some (s, w)
          else if nm_Type msg = NM_EXIT then
            if nm_NMType msg = NM_APPLY then sv_ExitApply env s msg w
            else if nm_NMType msg = NM_AGREE then sv_ExitAgree env s msg w
            else if nm_NMType msg = NM_RESTART then sv_ExitRestart env s msg w
            else Some (s, w)
          else Some (s, w))"

definition SubmitMsg2NodeManager :: "'a node_env_scheme \<Rightarrow> Server \<Rightarrow> byte list \<Rightarrow> World \<Rightarrow> (Server \<times> World) option" where
  "SubmitMsg2NodeManager env s msg w = (if NMType s = NMT_BASIC then HandleNodeManagerMsg env s msg w else Some (s, w))"

definition SubmitMsg2Consensus :: "'a node_env_scheme \<Rightarrow> Server \<Rightarrow> byte list \<Rightarrow> Server option" where
  "SubmitMsg2Consensus env s msg = do {
     ci \<leftarrow> map_of (Clients s) ''c_0'';
     r \<leftarrow> ord_HandleMsg env (sv_Orderer s) msg (ci_Pk ci);
     Some (s\<lparr>sv_Orderer := r\<rparr>)
   }"

section \<open>The loop of a server (server.go)\<close>

text \<open>The public key of a node that is not in the table is nil.\<close>

definition key_of :: "NodeKey table \<Rightarrow> string \<Rightarrow> bytes" where
  "key_of t name = (case map_of t name of None \<Rightarrow> None | Some nk \<Rightarrow> Sm2PubKey nk)"

definition sv_signed :: "'a node_env_scheme \<Rightarrow> Server \<Rightarrow> byte list ServerMsg \<Rightarrow> bool" where
  "sv_signed env s msg = Sm2Verify env (Sign msg) (key_of (NodesTable (sv_Manager s)) (SendServer msg)) (SM3 env (Payload msg))"

text \<open>A message that does not verify is only logged.\<close>

definition RouteServerMsg :: "'a node_env_scheme \<Rightarrow> Server \<Rightarrow> byte list \<Rightarrow> World \<Rightarrow> (Server \<times> World) option" where
  "RouteServerMsg env s msgJson w =
     (case dec_Ser env msgJson of
        None \<Rightarrow> Some (s, w)
      | Some msg \<Rightarrow>
          let w = (if sv_signed env s msg then w else w\<lparr>SignErrors := SignErrors w @ [SendServer msg]\<rparr>)
          in case SType msg of
               REQUEST \<Rightarrow> do { s \<leftarrow> ValidateAndHandleReq env s (Payload msg); Some (s, w) }
             | NODEMGMT \<Rightarrow> SubmitMsg2NodeManager env s (Payload msg) w
             | ORDER \<Rightarrow> do { s \<leftarrow> SubmitMsg2Consensus env s (Payload msg); Some (s, w) }
             | SType_other _ \<Rightarrow> Some (s, w))"

text \<open>The other arm of the select: the first message of the send channel, if there is one, is sent.\<close>

definition as_bytes :: "('p \<Rightarrow> byte list) \<Rightarrow> 'p ServerMsg \<Rightarrow> byte list ServerMsg" where
  "as_bytes enc m = \<lparr>SType = SType m, SendServer = SendServer m, ReciServer = ReciServer m, Sign = Sign m, Payload = enc (Payload m)\<rparr>"

definition take_send :: "'a node_env_scheme \<Rightarrow> Orderer \<Rightarrow> (byte list ServerMsg \<times> Orderer) option" where
  "take_send env r =
     (case (ConsType r, BasicHotstuff r, ChainedHotstuff r, OrdHotstuff2 r, PBFTConsensus r) of
        (CT_BASIC, Some c, _) \<Rightarrow> (case SendChan c of
            Some (m # ms) \<Rightarrow> Some (as_bytes (enc_Msg env) m, r\<lparr>BasicHotstuff := Some (c\<lparr>SendChan := Some ms\<rparr>)\<rparr>) | _ \<Rightarrow> None)
      | (CT_CHAINED, _, Some c, _) \<Rightarrow> (case c_SendChan c of
            Some (m # ms) \<Rightarrow> Some (as_bytes (enc_CMsg env) m, r\<lparr>ChainedHotstuff := Some (c\<lparr>c_SendChan := Some ms\<rparr>)\<rparr>) | _ \<Rightarrow> None)
      | (CT_HOTSTUFF_2, _, _, Some c, _) \<Rightarrow> (case h2_SendChan c of
            Some (m # ms) \<Rightarrow> Some (as_bytes (enc_H2Msg env) m, r\<lparr>OrdHotstuff2 := Some (c\<lparr>h2_SendChan := Some ms\<rparr>)\<rparr>) | _ \<Rightarrow> None)
      | (CT_PBFT, _, _, _, Some c) \<Rightarrow> (case pb_SendChan c of
            Some (m # ms) \<Rightarrow> Some (as_bytes (enc_PMsg env) m, r\<lparr>PBFTConsensus := Some (c\<lparr>pb_SendChan := Some ms\<rparr>)\<rparr>) | _ \<Rightarrow> None)
      | _ \<Rightarrow> None)"

definition drain_one :: "'a node_env_scheme \<Rightarrow> Server \<Rightarrow> World \<Rightarrow> (Server \<times> World) option" where
  "drain_one env s w =
     (case take_send env (sv_Orderer s) of
        None \<Rightarrow> Some (s, w)
      | Some (m, r) \<Rightarrow> sv_SendMsg env (s\<lparr>sv_Orderer := r\<rparr>) m w)"

section \<open>Joining and leaving (join.go, exit.go)\<close>

text \<open>
  The message of a join to every node of the table but the node itself. The servers of the
  simulation get the channel of the new node first (\<open>hand_over\<close>).
\<close>

definition hand_over :: "Server \<Rightarrow> Server \<Rightarrow> Server" where
  "hand_over s node = node\<lparr>sv_Manager := (sv_Manager node)\<lparr>NewNode := (NewNode (sv_Manager node))\<lparr>ni_Chan := ni_Chan (NewNode (sv_Manager s))\<rparr>\<rparr>\<rparr>"

definition join_apply :: "Server \<Rightarrow> NodeKey \<Rightarrow> NodeMgmtMsg" where
  "join_apply s nk = nil_NodeMgmtMsg\<lparr>nm_Type := NM_JOIN, nm_NMType := NM_APPLY,
     nm_NodeKey := \<lparr>nk_Name = ni_Name (NewNode (sv_Manager s)), Sm2PubKey = pid_PubKey (pid_ID (ServerID s)), Sm4Key = Sm4Key nk\<rparr>,
     nm_SendNode := sv_Name s, nm_ReciNode := nk_Name nk\<rparr>"

definition StartBCNodeJoin :: "'a node_env_scheme \<Rightarrow> Server \<Rightarrow> Server list \<Rightarrow> Server \<times> Server list" where
  "StartBCNodeJoin env s simulateServers =
     (let s = s\<lparr>sv_Manager := (sv_Manager s)\<lparr>mg_Mode := NM_JOIN\<rparr>\<rparr>;
          servers = map (hand_over s) simulateServers;
          s = foldl (\<lambda>s (_, nk). if nk_Name nk = sv_Name s then s else sv_go_SendMsg s (mgmt_msg env s (join_apply s nk)))
                s (NodesTable (sv_Manager s))
      in (s\<lparr>sv_Manager := (sv_Manager s)\<lparr>mg_State := NM_APPLY\<rparr>\<rparr>, servers))"

definition StartNodeJoin :: "'a node_env_scheme \<Rightarrow> Server \<Rightarrow> Server list \<Rightarrow> Server \<times> Server list" where
  "StartNodeJoin env s simulateServers =
     (if NMType s = NMT_BASIC then StartBCNodeJoin env s simulateServers else (s, simulateServers))"

text \<open>The leader field carries the clock, in milliseconds.\<close>

definition exit_apply :: "int \<Rightarrow> Server \<Rightarrow> NodeKey \<Rightarrow> NodeMgmtMsg" where
  "exit_apply now s nk = nil_NodeMgmtMsg\<lparr>nm_Type := NM_EXIT, nm_NMType := NM_APPLY, nm_Leader := now,
     nm_SendNode := sv_Name s, nm_ReciNode := nk_Name nk\<rparr>"

fun exit_each :: "'a node_env_scheme \<Rightarrow> Server \<Rightarrow> NodeKey list \<Rightarrow> Server option" where
  "exit_each env s [] = Some s"
| "exit_each env s (nk # nks) =
     (if nk_Name nk = sv_Name s then do { s \<leftarrow> StopOrderer s; exit_each env s nks }
      else exit_each env (sv_go_SendMsg s (mgmt_msg env s (exit_apply (Clock env) s nk))) nks)"

definition StartBCNodeExit :: "'a node_env_scheme \<Rightarrow> Server \<Rightarrow> Server option" where
  "StartBCNodeExit env s = do {
     let s = s\<lparr>sv_Manager := (sv_Manager s)\<lparr>mg_Mode := NM_EXIT\<rparr>\<rparr>;
     s \<leftarrow> exit_each env s (map snd (NodesTable (sv_Manager s)));
     Some (s\<lparr>sv_Manager := (sv_Manager s)\<lparr>mg_State := NM_APPLY\<rparr>\<rparr>)
   }"

definition StartNodeExit :: "'a node_env_scheme \<Rightarrow> Server \<Rightarrow> Server option" where
  "StartNodeExit env s = (if NMType s = NMT_BASIC then StartBCNodeExit env s else Some s)"

end
