(* ===== verification/Fac_Core.thy ===== *)
theory Fac_Core
  imports Srv_Core Dcs_Quorum
begin

text \<open>
  The factory (core/factory): signers and servers of a simulated network, a server that joins it,
  the replacement of the signers, and the requests given to the leader.
\<close>

section \<open>Signers (gen\_signers.go)\<close>

text \<open>
  \<open>tss\<close> stands for \<open>tss.NewSigners\<close> and \<open>sm2\<close> for \<open>ssm2.NewSigners\<close> with the randomness they draw. The
  library makes a share for every signer; a nil signer is not modelled and counts as a panic.
\<close>

record gen =
  gen_tss :: "int \<Rightarrow> int \<Rightarrow> tss_Signer option list option"
  gen_ssm2 :: "nat \<Rightarrow> ssm2_Signer list option"
  gen_keys :: "nat \<Rightarrow> unit + bytes \<times> bytes"
  gen_sm4 :: "nat \<Rightarrow> nat \<Rightarrow> bytes"
  client_key1 :: bytes
  client_key2 :: bytes

fun all_some :: "'b option list \<Rightarrow> 'b list option" where
  "all_some [] = Some []"
| "all_some (x # xs) = do { y \<leftarrow> x; ys \<leftarrow> all_some xs; Some (y # ys) }"

definition GenSigners :: "'g gen_scheme \<Rightarrow> ConsensusType \<Rightarrow> nat \<Rightarrow> any_Signer list option" where
  "GenSigners g consType nodeNum =
     (if consType = CT_PBFT then do { ss \<leftarrow> gen_ssm2 g nodeNum; Some (map Ssm2Signer ss) }
      else do {
        ss \<leftarrow> gen_tss g (int nodeNum) (vote_threshold (int nodeNum));
        ss \<leftarrow> all_some ss;
        Some (map TssSigner ss)
      })"

section \<open>Servers (gen\_servers.go)\<close>

text \<open>
  The first loop, from index \<open>i\<close> on: the servers made so far and the entries of their common map.
  After a failed key generation the server of the index is missing, and starting its goroutines
  panics, as does a missing signer. Both goroutines start; the one of the requests is a worker.
\<close>

fun gen_servers ::
  "'a env_scheme \<Rightarrow> 'g gen_scheme \<Rightarrow> ConsensusType \<Rightarrow> nat \<Rightarrow> string \<Rightarrow> any_Signer list \<Rightarrow> nat \<Rightarrow> nat \<Rightarrow> nat \<Rightarrow>
   Server list \<times> chan_ref table \<Rightarrow> (Server list \<times> chan_ref table) option" where
  "gen_servers env g ct n path signers mp i 0 acc = Some acc"
| "gen_servers env g ct n path signers mp i (Suc k) (servers, chans) =
     (case signers of
        [] \<Rightarrow> None
      | sg # signers \<Rightarrow> do {
          res \<leftarrow> NewServer env (gen_keys g i) (client_key1 g) (client_key2 g) (int i) (int n) path ct NMT_BASIC sg mp;
          let (servers, chans) = (case res of
                Inl _ \<Rightarrow> (servers, chans)
              | Inr s \<Rightarrow> (servers @ [s], AList.update (''r_'' @ Itoa (int i)) (Address (ServerID s)) chans));
          if i < length servers
          then gen_servers env g ct n path signers mp (Suc i) k (servers[i := go_HandleReq (servers ! i)], chans)
          else None
        })"

definition add_node :: "Server \<Rightarrow> Server \<Rightarrow> Server" where
  "add_node s t = s\<lparr>sv_Manager := (sv_Manager s)\<lparr>NodesTable := AList.update (sv_Name t)
     \<lparr>nk_Name = sv_Name t, Sm2PubKey = pid_PubKey (pid_ID (ServerID t)), Sm4Key = None\<rparr> (NodesTable (sv_Manager s))\<rparr>\<rparr>"

definition share_sm4 :: "Server \<Rightarrow> Server \<Rightarrow> bytes \<Rightarrow> Server" where
  "share_sm4 s t key = s\<lparr>sv_Manager := UpdateSm4Key (sv_Manager s) (sv_Name t) key\<rparr>"

text \<open>One pass of the second loop, which fills the tables of the \<open>i\<close>-th server and of the later ones.\<close>

definition route_pair :: "'g gen_scheme \<Rightarrow> Server list \<Rightarrow> nat \<times> nat \<Rightarrow> Server list" where
  "route_pair g servers ij =
     (let (i, j) = ij in
      if j = i then servers
      else
        let servers = servers[i := add_node (servers ! i) (servers ! j)]
        in if j > i then
             let servers = servers[i := share_sm4 (servers ! i) (servers ! j) (gen_sm4 g i j)]
             in servers[j := share_sm4 (servers ! j) (servers ! i) (gen_sm4 g i j)]
           else servers)"

definition route_tables :: "'g gen_scheme \<Rightarrow> nat \<Rightarrow> Server list \<Rightarrow> Server list" where
  "route_tables g n servers = foldl (route_pair g) servers (List.product [0..<n] [0..<n])"

text \<open>\<open>mp\<close> is the address of the new map of channels.\<close>

definition GenServers ::
  "'a env_scheme \<Rightarrow> 'g gen_scheme \<Rightarrow> nat \<Rightarrow> string \<Rightarrow> ConsensusType \<Rightarrow> nat \<Rightarrow> World \<Rightarrow> (Server list \<times> World) option" where
  "GenServers env g nodeNum path consType mp w = do {
     newSigners \<leftarrow> GenSigners g consType nodeNum;
     (servers, chans) \<leftarrow> gen_servers env g consType nodeNum path newSigners mp 0 nodeNum ([], []);
     Some (route_tables g nodeNum servers, w\<lparr>Maps := (Maps w)(mp := chans)\<rparr>)
   }"

section \<open>A server that joins (server\_join.go)\<close>

definition know_node :: "'g gen_scheme \<Rightarrow> nat \<Rightarrow> Server \<times> chan_ref table \<Rightarrow> nat \<times> Server \<Rightarrow> Server \<times> chan_ref table" where
  "know_node g i sc kn =
     (let (s, chans) = sc; (k, node) = kn in
      (s\<lparr>sv_Manager := (sv_Manager s)\<lparr>NodesTable := AList.update (sv_Name node)
           \<lparr>nk_Name = sv_Name node, Sm2PubKey = pid_PubKey (pid_ID (ServerID node)), Sm4Key = gen_sm4 g i k\<rparr> (NodesTable (sv_Manager s))\<rparr>\<rparr>,
       AList.update (sv_Name node) (Address (ServerID node)) chans))"

text \<open>What the new server learns: its own node information, the channels and the keys of all the others.\<close>

definition introduce :: "'g gen_scheme \<Rightarrow> Server list \<Rightarrow> Server \<Rightarrow> Server \<times> chan_ref table" where
  "introduce g servers s =
     (let i = length servers;
          nodeName = ''r_'' @ Itoa (int i);
          chans = [(nodeName, Address (ServerID s))];
          s = s\<lparr>sv_Manager := (sv_Manager s)\<lparr>NewNode := (NewNode (sv_Manager s))\<lparr>ni_Name := sv_Name s,
                ni_NodeKey := (ni_NodeKey (NewNode (sv_Manager s)))\<lparr>Sm2PubKey := pid_PubKey (pid_ID (ServerID s))\<rparr>,
                ni_Chan := Address (ServerID s)\<rparr>\<rparr>\<rparr>
      in foldl (know_node g i) (s, chans) (zip [0..<i] servers))"

text \<open>
  \<open>NewBHServerJoin\<close> up to its goroutines: the list with the new server at its end. An error of the
  key generation leaves everything as it was; the first signer of one, or the first server, missing
  is an index out of range.
\<close>

definition NewBHServerJoin ::
  "'a env_scheme \<Rightarrow> 'g gen_scheme \<Rightarrow> Server list \<Rightarrow> nat \<Rightarrow> World \<Rightarrow> (Server list \<times> World) option" where
  "NewBHServerJoin env g servers mp w = do {
     let i = length servers;
     signers \<leftarrow> gen_tss g 1 1;
     t \<leftarrow> (case signers of Some t # _ \<Rightarrow> Some t | _ \<Rightarrow> None);
     first \<leftarrow> (case servers of [] \<Rightarrow> None | s # _ \<Rightarrow> Some s);
     res \<leftarrow> NewServer env (gen_keys g i) (client_key1 g) (client_key2 g) (int i) (int i) ''./BCData''
             (ConsType (sv_Orderer first)) NMT_BASIC (TssSigner t) mp;
     case res of
       Inl _ \<Rightarrow> Some (servers, w)
     | Inr s \<Rightarrow> do {
         let (s, chans) = introduce g servers s;
         Some (servers @ [go_HandleReq s], w\<lparr>Maps := (Maps w)(mp := chans)\<rparr>)
       }
   }"

definition put_signer :: "Orderer \<Rightarrow> tss_Signer \<Rightarrow> Orderer option" where
  "put_signer r t =
     (case ConsType r of
        CT_BASIC \<Rightarrow> on_basic (\<lambda>c. Some (c\<lparr>ThresholdSigner := t\<rparr>)) r
      | CT_CHAINED \<Rightarrow> on_chained (\<lambda>c. Some (c\<lparr>c_Signer := t\<rparr>)) r
      | CT_HOTSTUFF_2 \<Rightarrow> on_hs2 (\<lambda>c. Some (c\<lparr>h2_Signer := t\<rparr>)) r
      | _ \<Rightarrow> Some r)"

fun put_signers :: "Server list \<Rightarrow> tss_Signer list \<Rightarrow> Server list option" where
  "put_signers [] ts = Some []"
| "put_signers (s # ss) [] = None"
| "put_signers (s # ss) (t # ts) = do {
     r \<leftarrow> put_signer (sv_Orderer s) t;
     ss \<leftarrow> put_signers ss ts;
     Some (s\<lparr>sv_Orderer := r\<rparr> # ss)
   }"

text \<open>All servers run the protocol of the first one; with PBFT nothing is replaced.\<close>

definition UpdateSigners :: "'g gen_scheme \<Rightarrow> Server list \<Rightarrow> Server list option" where
  "UpdateSigners g servers = do {
     ts \<leftarrow> gen_tss g (int (length servers)) (vote_threshold (int (length servers)));
     ts \<leftarrow> all_some ts;
     first \<leftarrow> (case servers of [] \<Rightarrow> None | s # _ \<Rightarrow> Some s);
     if ConsType (sv_Orderer first) \<in> {CT_BASIC, CT_CHAINED, CT_HOTSTUFF_2} then put_signers servers ts else Some servers
   }"

section \<open>Requests (gen\_req.go, gen\_first\_round.go)\<close>

text \<open>A flag on \<open>ReqFlagChan\<close>, which holds one; a second one, or a nil channel, blocks.\<close>

definition send_flag :: "Server \<Rightarrow> Server option" where
  "send_flag s =
     (case ReqFlagChan (sv_Orderer s) of
        Some [] \<Rightarrow> Some (s\<lparr>sv_Orderer := (sv_Orderer s)\<lparr>ReqFlagChan := Some [True]\<rparr>\<rparr>)
      | _ \<Rightarrow> None)"

text \<open>
  One pass of the endless loop of \<open>GenNewReq\<close>: the first leader that waits and has room gets the
  requests and the flag. The Boolean tells whether it has found one.
\<close>

fun push_requests :: "Server list \<Rightarrow> BCRequest list \<Rightarrow> (bool \<times> Server list) option" where
  "push_requests [] reqs = Some (False, [])"
| "push_requests (s # ss) reqs = do {
     leads \<leftarrow> ord_IsLeader (sv_Orderer s);
     waits \<leftarrow> (if leads then IsWaitingReq (sv_Orderer s) else Some False);
     if waits \<and> int (length (Requests s) + length reqs) \<le> BatchSize s
     then do { s \<leftarrow> send_flag (s\<lparr>Requests := Requests s @ reqs\<rparr>); Some (True, s # ss) }
     else do { (found, ss) \<leftarrow> push_requests ss reqs; Some (found, s # ss) }
   }"

definition GenNewReq :: "Server list \<Rightarrow> BCRequest list \<Rightarrow> (bool \<times> Server list) option" where
  "GenNewReq servers reqs = (if length reqs = 0 then Some (True, servers) else push_requests servers reqs)"

text \<open>The first request; \<open>sign\<close> is the client's signature of it. The removal of old files is left out.\<close>

definition GenFirstRound :: "(byte list \<Rightarrow> byte list) \<Rightarrow> Server list \<Rightarrow> Server list option" where
  "GenFirstRound sign servers =
     (case servers of
        [] \<Rightarrow> None
      | s # ss \<Rightarrow> do {
          let cmd = str2bytes ''Genesis block'';
          s \<leftarrow> send_flag (s\<lparr>Requests := [\<lparr>rq_Id = ''Client'', rq_Cmd = cmd, rq_Sign = sign cmd\<rparr>]\<rparr>);
          Some (s # ss)
        })"

definition SignCmd :: "(byte list \<Rightarrow> byte list) \<Rightarrow> byte list list \<Rightarrow> BCRequest list" where
  "SignCmd sign cmds = map (\<lambda>c. \<lparr>rq_Id = ''c_0'', rq_Cmd = c, rq_Sign = sign c\<rparr>) cmds"

fun StopAll :: "Server list \<Rightarrow> Server list option" where
  "StopAll [] = Some []"
| "StopAll (s # ss) = do { s \<leftarrow> StopOrderer s; ss \<leftarrow> StopAll ss; Some (s # ss) }"

end
