(* ===== verification/Ord_Props.thy ===== *)
theory Ord_Props
  imports Ord_Core Hs_Agreement Hs_Chained_Props Hs2_Props
begin

text \<open>
  The orderer as a machine: its events, its typing, the runs of its core, and what follows from the
  theorems about the cores.
\<close>

section \<open>Events\<close>

text \<open>
  Messages and requests pass the orderer's flags; timeouts and goroutines are the core's own. The
  rest are the operations of the orderer that the server calls, and \<open>SendMsg\<close>. An expiry is one
  event here: the timer's goroutine finds it, checks \<open>IsStopped\<close> and calls back, with no other event
  in between.
\<close>

datatype ord_event =
    OMsg int "byte list" bytes
  | OReq int int bytes bytes "BCRequest list"
  | OTimeout
  | OEnterTimeout
  | OTask nat int
  | OStop
  | OReset
  | ORestart int
  | OInit
  | OFix
  | ORefresh
  | ONodes int
  | OSync NodeMgmtMsg int
  | OSend any_Msg

fun ord_step :: "'a node_env_scheme \<Rightarrow> Orderer \<Rightarrow> ord_event \<Rightarrow> Orderer option" where
  "ord_step env r (OMsg now b pk) = ord_HandleMsg (env\<lparr>Clock := now\<rparr>) r b pk"
| "ord_step env r (OReq now h ph ch reqs) = ord_HandleReq (env\<lparr>Clock := now\<rparr>) r h ph ch reqs"
| "ord_step env r OTimeout = on_core (\<lambda>c. hs_step env c Timeout) (\<lambda>c. chs_step env c CTimeout)
     (\<lambda>c. h2_step env c HViewTimeout) (\<lambda>c. pb_step env c PTimeout) r"
| "ord_step env r OEnterTimeout = on_core Some Some (\<lambda>c. h2_step env c HEnterTimeout) Some r"
| "ord_step env r (OTask k now) = on_core (\<lambda>c. hs_step env c RunSend) (\<lambda>c. chs_step env c (CRunSend k))
     (\<lambda>c. h2_step env c (HRunSend k)) (\<lambda>c. pb_step env c (PRunTask now)) r"
| "ord_step env r OStop = ord_Stop r"
| "ord_step env r OReset = ResetState env r"
| "ord_step env r (ORestart now) = RestartCons (env\<lparr>Clock := now\<rparr>) r"
| "ord_step env r OInit = ord_InitLeader env r"
| "ord_step env r OFix = ord_FixLeader env r"
| "ord_step env r ORefresh = ord_RefreshLeader r"
| "ord_step env r (ONodes n) = ord_UpdateNodesNum r n"
| "ord_step env r (OSync m l) = ord_SyncInfo r m l"
| "ord_step env r (OSend m) = ord_SendMsg r m"

fun ord_input :: "ord_event \<Rightarrow> bool" where
  "ord_input (OMsg now b pk) = True"
| "ord_input (OReq now h ph ch reqs) = True"
| "ord_input OTimeout = True"
| "ord_input OEnterTimeout = True"
| "ord_input _ = False"

fun ord_calm :: "ord_event \<Rightarrow> bool" where
  "ord_calm (OTask k now) = True"
| "ord_calm e = ord_input e"

section \<open>Types\<close>

definition signer_matches :: "ConsensusType \<Rightarrow> any_Signer \<Rightarrow> bool" where
  "signer_matches ct sg = (case (ct, sg) of
     (CT_PBFT, Ssm2Signer _) \<Rightarrow> True | (CT_BASIC, TssSigner _) \<Rightarrow> True | (CT_CHAINED, TssSigner _) \<Rightarrow> True
   | (CT_HOTSTUFF_2, TssSigner _) \<Rightarrow> True | _ \<Rightarrow> False)"

text \<open>Exactly the pointer of the chosen protocol is set.\<close>

definition ord_wf :: "ConsensusType \<Rightarrow> Orderer \<Rightarrow> bool" where
  "ord_wf ct r \<longleftrightarrow> ConsType r = ct \<and> (BasicHotstuff r \<noteq> None \<longleftrightarrow> ct = CT_BASIC) \<and> (ChainedHotstuff r \<noteq> None \<longleftrightarrow> ct = CT_CHAINED) \<and>
     (OrdHotstuff2 r \<noteq> None \<longleftrightarrow> ct = CT_HOTSTUFF_2) \<and> (PBFTConsensus r \<noteq> None \<longleftrightarrow> ct = CT_PBFT)"

lemma on_ptr_wf:
  "on_basic f r = Some t \<Longrightarrow> ord_wf ct r \<Longrightarrow> ord_wf ct t" "on_chained g r = Some t \<Longrightarrow> ord_wf ct r \<Longrightarrow> ord_wf ct t"
  "on_hs2 h r = Some t \<Longrightarrow> ord_wf ct r \<Longrightarrow> ord_wf ct t" "on_pbft p r = Some t \<Longrightarrow> ord_wf ct r \<Longrightarrow> ord_wf ct t"
  by (auto simp: on_basic_def on_chained_def on_hs2_def on_pbft_def ord_wf_def bind_Some_iff)

lemma on_core_wf: "on_core f g h p r = Some t \<Longrightarrow> ord_wf ct r \<Longrightarrow> ord_wf ct t"
  by (auto simp: on_core_def intro: on_ptr_wf split: ConsensusType.splits)

lemma ord_SendMsg_wf: "ord_SendMsg r m = Some t \<Longrightarrow> ord_wf ct r \<Longrightarrow> ord_wf ct t"
  by (auto simp: ord_SendMsg_def intro: on_ptr_wf split: ConsensusType.splits any_Msg.splits)

lemma send_ret_wf: "send_ret w ret r = Some t \<Longrightarrow> ord_wf ct r \<Longrightarrow> ord_wf ct t"
  by (auto simp: send_ret_def intro: ord_SendMsg_wf split: option.splits)

lemma ord_flags_wf [simp]: "ord_wf ct (r\<lparr>HandleState := a\<rparr>) = ord_wf ct r" "ord_wf ct (r\<lparr>ReqState := b\<rparr>) = ord_wf ct r"
  by (simp_all add: ord_wf_def)

lemma RestartCons_wf: "RestartCons env r = Some t \<Longrightarrow> ord_wf ct r \<Longrightarrow> ord_wf ct t"
  by (auto simp: RestartCons_def bind_Some_iff split: ConsensusType.splits elim!: send_ret_wf) (auto simp: ord_wf_def)

lemma ClearCurrentRound_wf: "ord_ClearCurrentRound env r = Some t \<Longrightarrow> ord_wf ct r \<Longrightarrow> ord_wf ct t"
  by (auto simp: ord_ClearCurrentRound_def intro: on_ptr_wf split: ConsensusType.splits)

lemma ord_Stop_wf: "ord_Stop r = Some t \<Longrightarrow> ord_wf ct r \<Longrightarrow> ord_wf ct t"
  unfolding ord_Stop_def by (erule on_core_wf) simp

lemma ord_FixLeader_wf: "ord_FixLeader env r = Some t \<Longrightarrow> ord_wf ct r \<Longrightarrow> ord_wf ct t"
  by (auto simp: ord_FixLeader_def intro: on_ptr_wf split: ConsensusType.splits)

lemma ord_Handle_wf:
  "ord_HandleMsg nenv r b pk = Some t \<Longrightarrow> ord_wf ct r \<Longrightarrow> ord_wf ct t"
  "ord_HandleReq env r h ph ch reqs = Some t \<Longrightarrow> ord_wf ct r \<Longrightarrow> ord_wf ct t"
  by (auto simp: ord_HandleMsg_def ord_HandleReq_def intro: on_core_wf split: if_splits)

lemma ord_step_wf: "ord_step env r e = Some t \<Longrightarrow> ord_wf ct r \<Longrightarrow> ord_wf ct t"
proof (cases e)
  case OReset
  assume "ord_step env r e = Some t" "ord_wf ct r"
  with OReset show ?thesis by (auto simp: ResetState_def bind_Some_iff dest: ClearCurrentRound_wf)
qed (simp_all only: ord_step.simps ord_InitLeader_def ord_RefreshLeader_def ord_UpdateNodesNum_def ord_SyncInfo_def,
  (erule (1) ord_Handle_wf on_core_wf ord_Stop_wf RestartCons_wf ord_FixLeader_wf ord_SendMsg_wf)+)

interpretation ord_typed: machine "ord_step env" "ord_wf ct" for env ct
  by unfold_locales (rule ord_step_wf)

lemma ord_IsLeader_wf: "ord_wf ct r \<Longrightarrow> \<exists>b. ord_IsLeader r = Some b"
  by (cases ct) (auto simp: ord_IsLeader_def of_core_def ord_wf_def)

lemma ord_InitLeader_wf: "ord_wf ct r \<Longrightarrow> \<exists>t. ord_InitLeader env r = Some t \<and> ord_wf ct t"
  by (cases ct) (auto simp: ord_InitLeader_def on_core_def on_basic_def on_chained_def on_hs2_def on_pbft_def ord_wf_def)

lemma new_core_wf:
  "signer_matches ct sg \<Longrightarrow> \<exists>t. new_core env (nil_Orderer\<lparr>ConsType := ct, ReqFlagChan := Some [], HandleState := True, ReqState := True\<rparr>) i n path sg = Some t \<and> ord_wf ct t"
  by (cases ct; cases sg) (auto simp: signer_matches_def new_core_def ord_wf_def nil_Orderer_def)

lemma InitConsensus_ok:
  assumes "signer_matches ct sg"
  shows "\<exists>t. InitConsensus env nil_Orderer ct i n path sg = Some t \<and> ord_wf ct t"
proof -
  from new_core_wf [OF assms, of env i n path] obtain u where
    u: "new_core env (nil_Orderer\<lparr>ConsType := ct, ReqFlagChan := Some [], HandleState := True, ReqState := True\<rparr>) i n path sg = Some u"
      "ord_wf ct u" by blast
  with ord_IsLeader_wf [OF u(2)] ord_InitLeader_wf [OF u(2), of env] show ?thesis by (auto simp: InitConsensus_def)
qed

lemma run_wf: "InitConsensus env nil_Orderer ct i n path sg = Some r \<Longrightarrow> run (ord_step env) r es = Some t \<Longrightarrow>
    signer_matches ct sg \<Longrightarrow> ord_wf ct t"
  using InitConsensus_ok [of ct sg env i n path] ord_typed.run_inv by fastforce

text \<open>A payload of the type of the messages of a protocol.\<close>

fun payload_of :: "ConsensusType \<Rightarrow> any_Msg \<Rightarrow> bool" where
  "payload_of CT_BASIC (BasicMsg m) = True"
| "payload_of CT_CHAINED (ChainedMsg m) = True"
| "payload_of CT_HOTSTUFF_2 (Hs2Msg m) = True"
| "payload_of CT_PBFT (PbftMsg m) = True"
| "payload_of ct m = False"

lemma SendMsg_wrong:
  assumes "ord_wf ct t" "\<not> payload_of ct m" "signer_matches ct sg"
  shows "ord_SendMsg t m = (if ct = CT_PBFT then None else Some t)"
  using assms
  by (cases ct; cases m)
    (auto simp: ord_wf_def ord_SendMsg_def on_basic_def on_chained_def on_hs2_def signer_matches_def)

lemma InitConsensus_iff: "InitConsensus env nil_Orderer ct i n path sg = None \<longleftrightarrow> \<not> signer_matches ct sg"
proof
  show "InitConsensus env nil_Orderer ct i n path sg = None" if "\<not> signer_matches ct sg"
    using that by (cases ct; cases sg) (auto simp: InitConsensus_def new_core_def signer_matches_def)
qed (use InitConsensus_ok [of ct sg env i n path] in force)

text \<open>
  C24 Typing of the orderer: building it panics exactly when the signer is not of the kind the
  protocol signs with (or the protocol is unknown). After any sequence of its operations that
  returned, stops, restarts, synchronisations and \<open>SendMsg\<close> included, exactly the pointer of its
  protocol is set. \<open>SendMsg\<close> then ignores a payload that is not a message of the protocol, but for
  PBFT, where it logs the mistake through the HotStuff-2 core, which is nil, and panics.
\<close>

theorem orderer_typed:
  "(InitConsensus env nil_Orderer ct i n path sg = None \<longleftrightarrow> \<not> signer_matches ct sg) \<and>
   (\<forall>r es t. InitConsensus env nil_Orderer ct i n path sg = Some r \<longrightarrow> run (ord_step env) r es = Some t \<longrightarrow>
      ord_wf ct t \<and>
      (\<forall>m. \<not> payload_of ct m \<longrightarrow> ord_step env t (OSend m) = (if ct = CT_PBFT then None else Some t)))"
proof -
  have "ord_wf ct t \<and> (\<forall>m. \<not> payload_of ct m \<longrightarrow> ord_step env t (OSend m) = (if ct = CT_PBFT then None else Some t))"
    if r: "InitConsensus env nil_Orderer ct i n path sg = Some r" "run (ord_step env) r es = Some t" for r es t
  proof -
    have sg: "signer_matches ct sg" using r(1) InitConsensus_iff [of env ct i n path sg] by auto
    have "ord_wf ct t" by (rule run_wf [OF r sg])
    with SendMsg_wrong [OF this _ sg] show ?thesis by simp
  qed
  with InitConsensus_iff show ?thesis by blast
qed

definition demo_ssm2 :: ssm2_Signer where
  "demo_ssm2 = \<lparr>ID = ''r_0'', Pk = None, Sk = None, Pks = Map.empty\<rparr>"

theorem orderer_typed_witness:
  "InitConsensus node_demo_env nil_Orderer CT_PBFT 0 4 [] (TssSigner \<lparr>PrivateKey = (0, []), PublicKey = [], SignNum = 4, Threshold = 3\<rparr>) = None \<and>
   (\<exists>r. InitConsensus node_demo_env nil_Orderer CT_PBFT 0 4 [] (Ssm2Signer demo_ssm2) = Some r \<and>
     ord_step node_demo_env r (OSend (BasicMsg nil_Msg)) = None)"
proof -
  let ?g = "Ssm2Signer demo_ssm2"
  note typed = orderer_typed [of node_demo_env CT_PBFT 0 4 "[]"]
  obtain r where r: "InitConsensus node_demo_env nil_Orderer CT_PBFT 0 4 [] ?g = Some r"
    using typed [of ?g] by (auto simp: signer_matches_def)
  have run: "run (ord_step node_demo_env) r [] = Some r" by simp
  have "\<not> payload_of CT_PBFT (BasicMsg nil_Msg)" by simp
  with conjunct2 [OF typed [of ?g]] r run have "ord_step node_demo_env r (OSend (BasicMsg nil_Msg)) = None" by meson
  with r typed [of "TssSigner \<lparr>PrivateKey = (0, []), PublicKey = [], SignNum = 4, Threshold = 3\<rparr>"] show ?thesis
    by (auto simp: signer_matches_def)
qed

section \<open>The core inside\<close>

datatype core = CoreB BCHotstuff | CoreC CHotstuff | CoreH Hotstuff2 | CoreP PBFT

fun core_type :: "core \<Rightarrow> ConsensusType" where
  "core_type (CoreB s) = CT_BASIC"
| "core_type (CoreC s) = CT_CHAINED"
| "core_type (CoreH s) = CT_HOTSTUFF_2"
| "core_type (CoreP s) = CT_PBFT"

fun put_core :: "Orderer \<Rightarrow> core \<Rightarrow> Orderer" where
  "put_core r (CoreB s) = r\<lparr>BasicHotstuff := Some s\<rparr>"
| "put_core r (CoreC s) = r\<lparr>ChainedHotstuff := Some s\<rparr>"
| "put_core r (CoreH s) = r\<lparr>OrdHotstuff2 := Some s\<rparr>"
| "put_core r (CoreP s) = r\<lparr>PBFTConsensus := Some s\<rparr>"

definition core_of :: "Orderer \<Rightarrow> core option" where
  "core_of r = (case ConsType r of
     CT_BASIC \<Rightarrow> map_option CoreB (BasicHotstuff r) | CT_CHAINED \<Rightarrow> map_option CoreC (ChainedHotstuff r)
   | CT_HOTSTUFF_2 \<Rightarrow> map_option CoreH (OrdHotstuff2 r) | CT_PBFT \<Rightarrow> map_option CoreP (PBFTConsensus r) | CT_other _ \<Rightarrow> None)"

text \<open>What the events of an orderer are for its core.\<close>

fun hs_of :: "'a node_env_scheme \<Rightarrow> ord_event \<Rightarrow> hs_event option" where
  "hs_of env (OMsg now b pk) = Some (Deliver now (dec_Msg env b) pk)"
| "hs_of env (OReq now h ph ch reqs) = Some (Request now h ph reqs)"
| "hs_of env OTimeout = Some Timeout"
| "hs_of env (OTask k now) = Some RunSend"
| "hs_of env _ = None"

fun chs_of :: "'a node_env_scheme \<Rightarrow> ord_event \<Rightarrow> chs_event option" where
  "chs_of env (OMsg now b pk) = Some (CDeliver now (dec_CMsg env b))"
| "chs_of env (OReq now h ph ch reqs) = Some (CRequest now h ph reqs)"
| "chs_of env OTimeout = Some CTimeout"
| "chs_of env (OTask k now) = Some (CRunSend k)"
| "chs_of env _ = None"

fun h2_of :: "'a node_env_scheme \<Rightarrow> ord_event \<Rightarrow> h2_event option" where
  "h2_of env (OMsg now b pk) = Some (HDeliver now (dec_H2Msg env b))"
| "h2_of env (OReq now h ph ch reqs) = Some (HRequest now h ph reqs)"
| "h2_of env OTimeout = Some HViewTimeout"
| "h2_of env OEnterTimeout = Some HEnterTimeout"
| "h2_of env (OTask k now) = Some (HRunSend k)"
| "h2_of env _ = None"

fun pb_of :: "'a node_env_scheme \<Rightarrow> ord_event \<Rightarrow> p_event option" where
  "pb_of env (OMsg now b pk) = Some (PDeliver (dec_PMsg env b))"
| "pb_of env (OReq now h ph ch reqs) = Some (PRequest now h ph ch reqs)"
| "pb_of env OTimeout = Some PTimeout"
| "pb_of env (OTask k now) = Some (PRunTask now)"
| "pb_of env _ = None"

fun ev_time :: "'a node_env_scheme \<Rightarrow> ord_event \<Rightarrow> 'a node_env_scheme" where
  "ev_time env (OMsg now b pk) = env\<lparr>Clock := now\<rparr>"
| "ev_time env _ = env"

definition opt_step :: "('s \<Rightarrow> 'e \<Rightarrow> 's option) \<Rightarrow> 's \<Rightarrow> 'e option \<Rightarrow> 's option" where
  "opt_step step s e = (case e of None \<Rightarrow> Some s | Some e \<Rightarrow> step s e)"

text \<open>
  The core under the events of its orderer: how \<open>ord_step\<close> passes them on while both flags are set,
  written with the machines of the cores, so that their lemmas apply to a core inside an orderer.
\<close>

fun core_step :: "'a node_env_scheme \<Rightarrow> core \<Rightarrow> ord_event \<Rightarrow> core option" where
  "core_step env (CoreB s) e = map_option CoreB (opt_step (hs_step env) s (hs_of env e))"
| "core_step env (CoreC s) e = map_option CoreC (opt_step (chs_step env) s (chs_of env e))"
| "core_step env (CoreH s) e = map_option CoreH (opt_step (h2_step env) s (h2_of env e))"
| "core_step env (CoreP s) e = map_option CoreP (opt_step (pb_step (ev_time env e)) s (pb_of env e))"

lemma core_put: "core_of r = Some c \<Longrightarrow> core_type c' = core_type c \<Longrightarrow> core_of (put_core r c') = Some c'"
  by (cases c; cases c') (auto simp: core_of_def split: ConsensusType.splits)

lemma core_step_type: "core_step env c e = Some c' \<Longrightarrow> core_type c' = core_type c"
  by (cases c) auto

lemma put_core_flags [simp]: "HandleState (put_core r c) = HandleState r" "ReqState (put_core r c) = ReqState r"
  by (cases c; simp)+

lemma put_put: "core_type c = core_type c' \<Longrightarrow> put_core (put_core r c) c' = put_core r c'"
  by (cases c; cases c') simp_all

lemma put_same: "core_of r = Some c \<Longrightarrow> put_core r c = r"
  by (cases c) (auto simp: core_of_def split: ConsensusType.splits)

lemma ord_step_core:
  assumes "core_of r = Some c" "HandleState r" "ReqState r" "ord_calm e"
  shows "ord_step env r e = map_option (put_core r) (core_step env c e)"
proof -
  note defs = on_core_def on_basic_def on_chained_def on_hs2_def on_pbft_def opt_step_def map_option_case
  consider (b) s where "c = CoreB s" "ConsType r = CT_BASIC" "BasicHotstuff r = Some s"
    | (c) s where "c = CoreC s" "ConsType r = CT_CHAINED" "ChainedHotstuff r = Some s"
    | (h) s where "c = CoreH s" "ConsType r = CT_HOTSTUFF_2" "OrdHotstuff2 r = Some s"
    | (p) s where "c = CoreP s" "ConsType r = CT_PBFT" "PBFTConsensus r = Some s"
    using assms(1) by (auto simp: core_of_def split: ConsensusType.splits)
  then show ?thesis
  proof cases
    case b
    with assms(2-4) show ?thesis
      by (cases e) (simp_all add: defs ord_HandleMsg_def ord_HandleReq_def bind_eq_None_conv split: option.split Option.bind_splits)
  next
    case c
    with assms(2-4) show ?thesis
      by (cases e) (simp_all add: defs ord_HandleMsg_def ord_HandleReq_def split: option.split Option.bind_splits)
  next
    case h
    with assms(2-4) show ?thesis
      by (cases e) (simp_all add: defs ord_HandleMsg_def ord_HandleReq_def split: option.split Option.bind_splits)
  next
    case p
    with assms(2-4) show ?thesis
      by (cases e) (simp_all add: defs ord_HandleMsg_def ord_HandleReq_def split: option.split Option.bind_splits)
  qed
qed

lemma core_type_of: "core_of r = Some c \<Longrightarrow> core_type c = ConsType r"
  by (auto simp: core_of_def split: ConsensusType.splits)

lemma ord_run_core:
  assumes "core_of r = Some c" "HandleState r" "ReqState r" "list_all ord_calm es"
  shows "run (ord_step env) r es = map_option (put_core r) (run (core_step env) c es)"
  using assms
proof (induction es arbitrary: r c)
  case Nil
  then show ?case by (simp add: put_same)
next
  case (Cons e es)
  note st = ord_step_core [OF Cons.prems(1-3), of e env]
  show ?case
  proof (cases "core_step env c e")
    case None
    with st Cons.prems show ?thesis by simp
  next
    case (Some c')
    note ty = core_step_type [OF Some]
    have "run (ord_step env) (put_core r c') es = map_option (put_core (put_core r c')) (run (core_step env) c' es)"
      using Cons.prems core_put [OF Cons.prems(1) ty] by (intro Cons.IH) simp_all
    moreover have "put_core (put_core r c') d = put_core r d" if "run (core_step env) c' es = Some d" for d
    proof -
      have "core_type d = core_type c'" using that
        by (induction es arbitrary: c') (auto simp: bind_Some_iff dest: core_step_type)
      then show ?thesis by (simp add: put_put)
    qed
    ultimately show ?thesis using st Some Cons.prems by (auto simp: map_option_case split: option.split)
  qed
qed

section \<open>HotStuff orderers\<close>

text \<open>The invariant of the cores whose handlers return for every message.\<close>

fun core_inv :: "core \<Rightarrow> bool" where
  "core_inv (CoreB s) = hs_inv s"
| "core_inv (CoreC s) = (\<exists>n i. node_inv n i s)"
| "core_inv (CoreH s) = h2_inv s"
| "core_inv (CoreP s) = False"

lemma opt_step_ok: "I s \<Longrightarrow> (\<And>e. \<exists>t. step s e = Some t \<and> I t) \<Longrightarrow> \<exists>t. opt_step step s eo = Some t \<and> I t"
  by (cases eo) (auto simp: opt_step_def)

lemma core_step_ok:
  assumes "core_inv c"
  shows "\<exists>c'. core_step env c e = Some c' \<and> core_inv c'"
proof (cases c)
  case (CoreB s)
  with assms have i: "hs_inv s" by simp
  have "\<exists>t. hs_step env s x = Some t \<and> hs_inv t" for x using hs.step_returns [OF i] hs.inv_step [OF i] by blast
  from opt_step_ok [where I = hs_inv and step = "hs_step env", OF i this] CoreB show ?thesis by fastforce
next
  case (CoreC s)
  with assms obtain n k where i: "node_inv n k s" by auto
  have "\<exists>t. chs_step env s x = Some t \<and> node_inv n k t" for x using chs.step_returns [OF i] chs.inv_step [OF i] by blast
  from opt_step_ok [where I = "node_inv n k" and step = "chs_step env", OF i this] CoreC show ?thesis by fastforce
next
  case (CoreH s)
  with assms have i: "h2_inv s" by simp
  have "\<exists>t. h2_step env s x = Some t \<and> h2_inv t" for x using h2.step_returns [OF i] h2.inv_step [OF i] by blast
  from opt_step_ok [where I = h2_inv and step = "h2_step env", OF i this] CoreH show ?thesis by fastforce
next
  case (CoreP s)
  with assms show ?thesis by simp
qed

interpretation cores: total_machine "core_step env" core_inv "\<lambda>e. True" for env
proof (unfold_locales, goal_cases)
  case (1 c e c')
  with core_step_ok [OF 1(1), of env e] show ?case by simp
next
  case (2 c e)
  with core_step_ok [of c env e] show ?case by blast
qed

text \<open>An orderer as a server builds it, of one of the HotStuff protocols; node 0 leads the first view of chained HotStuff.\<close>

definition hotstuff_type :: "ConsensusType \<Rightarrow> int \<Rightarrow> bool" where
  "hotstuff_type ct i \<longleftrightarrow> ct = CT_BASIC \<or> ct = CT_CHAINED \<and> i \<noteq> 0 \<or> ct = CT_HOTSTUFF_2"

lemma InitConsensus_basic:
  "InitConsensus env nil_Orderer CT_BASIC i n path (TssSigner t) = Some r \<Longrightarrow>
   r = nil_Orderer\<lparr>ConsType := CT_BASIC, ReqFlagChan := Some [], HandleState := True, ReqState := True,
     BasicHotstuff := Some (hs_start env i n path t)\<rparr>"
  by (auto simp: InitConsensus_def new_core_def ord_IsLeader_def of_core_def ord_InitLeader_def on_core_def on_basic_def
      hs_start_def Let_def split: if_splits)

lemma InitConsensus_core:
  assumes "hotstuff_type ct i" "1 \<le> n" "InitConsensus env nil_Orderer ct i n path sg = Some r"
  shows "\<exists>c. core_of r = Some c \<and> core_inv c \<and> HandleState r \<and> ReqState r"
proof -
  consider (b) t where "ct = CT_BASIC" "sg = TssSigner t" | (c) t where "ct = CT_CHAINED" "sg = TssSigner t" "i \<noteq> 0"
    | (h) t where "ct = CT_HOTSTUFF_2" "sg = TssSigner t"
    using assms(1,3) by (cases sg) (auto simp: hotstuff_type_def InitConsensus_def new_core_def)
  then show ?thesis
  proof cases
    case b
    with assms(3) have "r = nil_Orderer\<lparr>ConsType := CT_BASIC, ReqFlagChan := Some [], HandleState := True, ReqState := True,
        BasicHotstuff := Some (hs_start env i n path t)\<rparr>"
      using InitConsensus_basic by blast
    then show ?thesis using hs_start_inv [OF assms(2), of env i path t] by (simp add: core_of_def)
  next
    case c
    let ?c = "NewChainedHotstuff env 2000 i n path (Some []) t"
    have "\<not> chs_IsLeader ?c" using c(3) by (simp add: chs_IsLeader_def NewChainedHotstuff_def chs_GetNodeName_def LeaderName_def
        Let_def)
    with c assms(3) have "r = nil_Orderer\<lparr>ConsType := CT_CHAINED, ReqFlagChan := Some [], HandleState := True, ReqState := True, ChainedHotstuff := Some ?c\<rparr>"
      by (auto simp: InitConsensus_def new_core_def ord_IsLeader_def of_core_def)
    then show ?thesis using NewChainedHotstuff_inv [OF assms(2) c(3), of env 2000 path t] by (auto simp: core_of_def)
  next
    case h
    let ?c = "NewHotstuff2 500 2000 i n path (Some []) t"
    note inv = NewHotstuff2_inv [OF assms(2), of 500 2000 i path t]
    from h assms(3) have "r = nil_Orderer\<lparr>ConsType := CT_HOTSTUFF_2, ReqFlagChan := Some [], HandleState := True, ReqState := True,
        OrdHotstuff2 := Some (if h2_IsLeader ?c then h2_InitLeader ?c else ?c)\<rparr>"
      by (auto simp: InitConsensus_def new_core_def ord_IsLeader_def of_core_def ord_InitLeader_def on_core_def on_hs2_def split: if_splits)
    then show ?thesis using inv by (simp add: core_of_def h2_InitLeader_def)
  qed
qed

lemma Stop_waits: "timer_ok t \<Longrightarrow> \<exists>t'. Stop t = Some t' \<and> waiting t' = 0"
  using Stop_ok [of t] by (auto simp: timer_ok_def)

lemma ord_Stop_silences:
  assumes "core_of s = Some d" "core_inv d"
  shows "\<exists>t. ord_Stop s = Some t \<and> \<not> HandleState t \<and> \<not> ReqState t \<and> (\<forall>e. ord_input e \<longrightarrow> ord_step env t e = Some t)"
proof (cases d)
  case (CoreB c)
  with assms(2) Stop_waits hs_invD(2) obtain w where w: "Stop (ViewTimer c) = Some w" "waiting w = 0" by fastforce
  let ?t = "s\<lparr>HandleState := False, ReqState := False, BasicHotstuff := Some (c\<lparr>ViewTimer := w\<rparr>)\<rparr>"
  have s: "ConsType s = CT_BASIC" "BasicHotstuff s = Some c" using assms(1) CoreB by (auto simp: core_of_def split: ConsensusType.splits)
  then have "ord_Stop s = Some ?t" using w(1) by (simp add: ord_Stop_def on_core_def on_basic_def stop_ViewTimer_def)
  moreover have "ord_step env ?t e = Some ?t" if "ord_input e" for e
    using that s w(2) by (cases e) (simp_all add: ord_HandleMsg_def ord_HandleReq_def on_core_def on_basic_def)
  ultimately show ?thesis by (intro exI [of _ ?t]) simp
next
  case (CoreC c)
  with assms(2) have "timer_ok (c_ViewTimer c)" by (auto simp: node_inv_def chs_inv_def)
  with Stop_waits obtain w where w: "Stop (c_ViewTimer c) = Some w" "waiting w = 0" by blast
  let ?t = "s\<lparr>HandleState := False, ReqState := False, ChainedHotstuff := Some (c\<lparr>c_ViewTimer := w\<rparr>)\<rparr>"
  have s: "ConsType s = CT_CHAINED" "ChainedHotstuff s = Some c" using assms(1) CoreC by (auto simp: core_of_def split: ConsensusType.splits)
  then have "ord_Stop s = Some ?t" using w(1) by (simp add: ord_Stop_def on_core_def on_chained_def chs_stop_def)
  moreover have "ord_step env ?t e = Some ?t" if "ord_input e" for e
    using that s w(2) by (cases e) (simp_all add: ord_HandleMsg_def ord_HandleReq_def on_core_def on_chained_def)
  ultimately show ?thesis by (intro exI [of _ ?t]) simp
next
  case (CoreH c)
  with assms(2) have i: "h2_inv c" by simp
  obtain w where w: "Stop (EnterTimer (PM c)) = Some w" "waiting w = 0" using Stop_waits [OF h2_invD(4) [OF i]] by blast
  obtain v where v: "Stop (pm_ViewTimer (PM c)) = Some v" "waiting v = 0" using Stop_waits [OF h2_invD(3) [OF i]] by blast
  let ?t = "s\<lparr>HandleState := False, ReqState := False, OrdHotstuff2 := Some (c\<lparr>PM := (PM c)\<lparr>EnterTimer := w, pm_ViewTimer := v\<rparr>\<rparr>)\<rparr>"
  have s: "ConsType s = CT_HOTSTUFF_2" "OrdHotstuff2 s = Some c" using assms(1) CoreH by (auto simp: core_of_def split: ConsensusType.splits)
  then have "ord_Stop s = Some ?t" using w(1) v(1) by (simp add: ord_Stop_def on_core_def on_hs2_def stop_enter_def h2_stop_view_def)
  moreover have "ord_step env ?t e = Some ?t" if "ord_input e" for e
    using that s w(2) v(2) by (cases e) (simp_all add: ord_HandleMsg_def ord_HandleReq_def on_core_def on_hs2_def)
  ultimately show ?thesis by (intro exI [of _ ?t]) simp
next
  case (CoreP c)
  with assms(2) show ?thesis by simp
qed

lemma core_of_put_run: "core_of r = Some c \<Longrightarrow> run (core_step env) c es = Some d \<Longrightarrow> core_of (put_core r d) = Some d"
proof -
  assume r: "core_of r = Some c" and d: "run (core_step env) c es = Some d"
  from d have "core_type d = core_type c"
    by (induction es arbitrary: c) (auto simp: bind_Some_iff dest: core_step_type)
  with r show ?thesis by (rule core_put)
qed

text \<open>
  C8 A HotStuff orderer returns from every event and can be stopped: built by a server for basic
  HotStuff, HotStuff-2 or (for a node other than node 0) chained HotStuff, it handles every sequence of
  messages, whatever their bytes decode to, requests, timer expiries and goroutines of its core to the
  end, and in the state it is then in, any further such event returns, and so does the stop; after the
  stop no message, request or expiry has any effect until it is reset. This is about runs in which an
  expiry is one event: a stop that falls between the timeout and the assignment after it (timer.go:46
  to 49) can block for ever, as \<open>hs_timer_race\<close> shows, and so can a send to a channel that has no free
  place of its 128 left.
\<close>

theorem hotstuff_orderer_never_stuck:
  assumes "hotstuff_type ct i" "1 \<le> n" "InitConsensus env nil_Orderer ct i n path sg = Some r" "list_all ord_calm es"
  shows "\<exists>s t. run (ord_step env) r es = Some s \<and> (\<forall>e. ord_calm e \<longrightarrow> ord_step env s e \<noteq> None) \<and>
    ord_step env s OStop = Some t \<and> \<not> HandleState t \<and> \<not> ReqState t \<and>
    (\<forall>fs. list_all ord_input fs \<longrightarrow> run (ord_step env) t fs = Some t)"
proof -
  obtain c where c: "core_of r = Some c" "core_inv c" "HandleState r" "ReqState r" using InitConsensus_core [OF assms(1-3)] by blast
  obtain d where d: "run (core_step env) c es = Some d" using cores.run_returns [OF c(2)] by (auto simp: list_all_iff)
  have i: "core_inv d" by (rule cores.run_inv [OF c(2) d])
  have run: "run (ord_step env) r es = Some (put_core r d)" using ord_run_core [OF c(1,3,4) assms(4), of env] d by simp
  obtain t where t: "ord_Stop (put_core r d) = Some t" "\<not> HandleState t" "\<not> ReqState t" "\<forall>e. ord_input e \<longrightarrow> ord_step env t e = Some t"
    using ord_Stop_silences [OF core_of_put_run [OF c(1) d] i] by blast
  have "run (ord_step env) t fs = Some t" if "list_all ord_input fs" for fs using that t(4) by (induction fs) auto
  moreover have "ord_step env (put_core r d) e \<noteq> None" if "ord_calm e" for e
    using ord_step_core [OF core_of_put_run [OF c(1) d] _ _ that, of env] c(3,4) core_step_ok [OF i, of env e] by auto
  ultimately show ?thesis using run t by auto
qed

definition demo_tss :: tss_Signer where
  "demo_tss = \<lparr>PrivateKey = (0, []), PublicKey = [], SignNum = 4, Threshold = 3\<rparr>"

definition demo_orderer :: "ConsensusType \<Rightarrow> int \<Rightarrow> Orderer" where
  "demo_orderer ct i = the (InitConsensus node_demo_env nil_Orderer ct i 4 [] (TssSigner demo_tss))"

lemma demo_orderer_built:
  assumes "hotstuff_type ct i"
  shows "InitConsensus node_demo_env nil_Orderer ct i 4 [] (TssSigner demo_tss) = Some (demo_orderer ct i)"
proof -
  have "signer_matches ct (TssSigner demo_tss)" using assms by (auto simp: hotstuff_type_def signer_matches_def)
  from InitConsensus_ok [OF this, of node_demo_env i 4 "[]"] show ?thesis by (auto simp: demo_orderer_def)
qed

theorem hotstuff_orderer_never_stuck_witness:
  "\<exists>s t. run (ord_step node_demo_env) (demo_orderer CT_CHAINED 1) [OMsg 3 [1] None, OTimeout] = Some s \<and> ord_step node_demo_env s OStop = Some t \<and>
    run (ord_step node_demo_env) t [OTimeout, OReq 0 1 None None [], OMsg 5 [2] None] = Some t"
proof -
  have ty: "hotstuff_type CT_CHAINED 1" by (simp add: hotstuff_type_def)
  from hotstuff_orderer_never_stuck [OF ty _ demo_orderer_built [OF ty], of "[OMsg 3 [1] None, OTimeout]"] obtain s t where
    "run (ord_step node_demo_env) (demo_orderer CT_CHAINED 1) [OMsg 3 [1] None, OTimeout] = Some s" "ord_step node_demo_env s OStop = Some t"
    and q: "\<forall>fs. list_all ord_input fs \<longrightarrow> run (ord_step node_demo_env) t fs = Some t" by (auto simp del: run.simps ord_step.simps)
  moreover have "run (ord_step node_demo_env) t [OTimeout, OReq 0 1 None None [], OMsg 5 [2] None] = Some t"
    using q by (simp del: run.simps ord_step.simps)
  ultimately show ?thesis by blast
qed

end
