(* ===== verification/Srv_Props.thy ===== *)
theory Srv_Props
  imports Srv_Core Ord_Props
begin

text \<open>
  The server: what management messages do to it, whoever sent them, and what happens to requests.
\<close>

section \<open>The orderer of a server\<close>

text \<open>\<open>View\<close> of the core, and the operations that the management of nodes performs on it.\<close>

definition ord_View :: "Orderer \<Rightarrow> View option" where
  "ord_View = of_core \<lparr>ViewNumber = 0, Leader = 0, NodesNum = 0\<rparr> hs_View c_View h2_View pb_View"

lemma core_of_cases:
  assumes "core_of r = Some d"
  obtains (b) s where "d = CoreB s" "ConsType r = CT_BASIC" "BasicHotstuff r = Some s"
  | (c) s where "d = CoreC s" "ConsType r = CT_CHAINED" "ChainedHotstuff r = Some s"
  | (h) s where "d = CoreH s" "ConsType r = CT_HOTSTUFF_2" "OrdHotstuff2 r = Some s"
  | (p) s where "d = CoreP s" "ConsType r = CT_PBFT" "PBFTConsensus r = Some s"
  using assms by (auto simp: core_of_def split: ConsensusType.splits)

lemma ord_UpdateNodesNum_ok:
  assumes "core_of r = Some d"
  shows "\<exists>t v. ord_UpdateNodesNum r n = Some t \<and> HandleState t = HandleState r \<and> ReqState t = ReqState r \<and>
    ord_View r = Some v \<and> ord_View t = Some (v\<lparr>NodesNum := n\<rparr>) \<and> ConsType t = ConsType r"
  using assms
  by (cases rule: core_of_cases)
    (simp_all add: ord_UpdateNodesNum_def on_core_def on_basic_def on_chained_def on_hs2_def on_pbft_def ord_View_def of_core_def
       bhs_UpdateNodesNum_def chs_UpdateNodesNum_def h2_UpdateNodesNum_def pb_UpdateNodesNum_def)

lemma ord_Stop_core:
  assumes "core_of r = Some d" "core_inv d"
  shows "\<exists>t d'. ord_Stop r = Some t \<and> \<not> HandleState t \<and> \<not> ReqState t \<and> core_of t = Some d' \<and> ord_View t = ord_View r"
  using assms(1)
proof (cases rule: core_of_cases)
  case (b c)
  with assms(2) Stop_waits hs_invD(2) obtain w where "Stop (ViewTimer c) = Some w" by fastforce
  with b show ?thesis
    by (simp add: ord_Stop_def on_core_def on_basic_def stop_ViewTimer_def core_of_def ord_View_def of_core_def)
next
  case (c c)
  with assms(2) have "timer_ok (c_ViewTimer c)" by (auto simp: node_inv_def chs_inv_def)
  with Stop_waits obtain w where "Stop (c_ViewTimer c) = Some w" by blast
  with c show ?thesis by (simp add: ord_Stop_def on_core_def on_chained_def chs_stop_def core_of_def ord_View_def of_core_def)
next
  case (h c)
  with assms(2) have i: "h2_inv c" by simp
  obtain w v where "Stop (EnterTimer (PM c)) = Some w" "Stop (pm_ViewTimer (PM c)) = Some v"
    using Stop_waits [OF h2_invD(4) [OF i]] Stop_waits [OF h2_invD(3) [OF i]] by blast
  with h show ?thesis
    by (simp add: ord_Stop_def on_core_def on_hs2_def stop_enter_def h2_stop_view_def core_of_def ord_View_def of_core_def)
next
  case (p c)
  with assms(2) show ?thesis by simp
qed

lemma ord_AddSyncInfo_ok:
  assumes "core_of r = Some d"
  shows "\<exists>v ret. ord_View r = Some v \<and> ord_AddSyncInfo r m = Some ret \<and> nm_ViewNumber ret = ViewNumber v \<and> nm_Leader ret = Leader v \<and>
    nm_Type ret = nm_Type m \<and> nm_NMType ret = nm_NMType m \<and> nm_ReciNode ret = nm_ReciNode m"
  using assms
  by (cases rule: core_of_cases)
    (simp_all add: ord_AddSyncInfo_def ord_View_def of_core_def bhs_AddSyncInfo_def chs_AddSyncInfo_def h2_AddSyncInfo_def pb_AddSyncInfo_def)

section \<open>Management messages\<close>

text \<open>A message that carries a management message, however it is signed.\<close>

definition carries :: "'a node_env_scheme \<Rightarrow> byte list \<Rightarrow> NodeMgmtMsg \<Rightarrow> bool" where
  "carries env b m \<longleftrightarrow> (\<exists>msg. dec_Ser env b = Some msg \<and> SType msg = NODEMGMT \<and> dec_Mgmt env (Payload msg) = Some m)"

definition logged :: "'a node_env_scheme \<Rightarrow> Server \<Rightarrow> byte list \<Rightarrow> World \<Rightarrow> World" where
  "logged env s b w = (case dec_Ser env b of None \<Rightarrow> w
     | Some msg \<Rightarrow> if sv_signed env s msg then w else w\<lparr>SignErrors := SignErrors w @ [SendServer msg]\<rparr>)"

lemma Route_carries:
  assumes "carries env b m" "NMType s = NMT_BASIC"
  shows "RouteServerMsg env s b w =
    (if nm_Type m = NM_JOIN then
       if nm_NMType m = NM_APPLY then sv_JoinApply env s m (logged env s b w)
       else if nm_NMType m = NM_SYNC then sv_JoinSync env s m (logged env s b w)
       else if nm_NMType m = NM_RESTART then sv_JoinRestart env s (logged env s b w)
       else Some (s, logged env s b w)
     else if nm_Type m = NM_EXIT then
       if nm_NMType m = NM_APPLY then sv_ExitApply env s m (logged env s b w)
       else if nm_NMType m = NM_AGREE then sv_ExitAgree env s m (logged env s b w)
       else if nm_NMType m = NM_RESTART then sv_ExitRestart env s m (logged env s b w)
       else Some (s, logged env s b w)
     else Some (s, logged env s b w))"
  using assms by (auto simp: carries_def RouteServerMsg_def logged_def SubmitMsg2NodeManager_def HandleNodeManagerMsg_def Let_def)

lemma logged_sel [simp]: "Maps (logged env s b w) = Maps w" "Queues (logged env s b w) = Queues w" "Wire (logged env s b w) = Wire w"
  by (simp_all add: logged_def split: option.split)

text \<open>
  One message kills a server: a JOIN application that names the receiver itself as the joining
  node makes the server look for a sync message with index -1 and panic, whoever sent it and
  whether or not it is signed.
\<close>

theorem server_forged_join_crash:
  assumes "NMType s = NMT_BASIC" "carries env b m" "nm_Type m = NM_JOIN" "nm_NMType m = NM_APPLY" "nm_SendNode m = sv_Name s"
  shows "RouteServerMsg env s b w = None"
proof -
  have "sv_JoinApply env s m v = None" for v
    using assms(5)
    by (auto simp: sv_JoinApply_def StopOrderer_def HandleJoin_def UpdateNodeInfo_def nth_sync_def Let_def
        split: Option.bind_splits)
  with Route_carries [OF assms(2,1)] assms(3,4) show ?thesis by simp
qed

definition chans_of :: "Server \<Rightarrow> World \<Rightarrow> chan_ref table" where
  "chans_of s w = Maps w (NodesChannel (sv_Manager s))"

lemma JoinApply_ok:
  assumes core: "core_of (sv_Orderer s) = Some d" "core_inv d" and k: "nm_SendNode m \<noteq> sv_Name s"
  shows "\<exists>s' v ret. sv_JoinApply env s m w = Some (s', w\<lparr>Maps := (Maps w)(NodesChannel (sv_Manager s) :=
        AList.update (nm_SendNode m) (ni_Chan (NewNode (sv_Manager s))) (chans_of s w))\<rparr>) \<and>
    NodesTable (sv_Manager s') = AList.update (nm_SendNode m) (nm_NodeKey m) (NodesTable (sv_Manager s)) \<and>
    \<not> HandleState (sv_Orderer s') \<and> \<not> ReqState (sv_Orderer s') \<and> ord_View (sv_Orderer s) = Some v \<and>
    ord_View (sv_Orderer s') = Some (v\<lparr>NodesNum := int (length (NodesTable (sv_Manager s')))\<rparr>) \<and>
    Sends s' = Sends s @ [mgmt_msg env s ret] \<and> nm_Type ret = NM_JOIN \<and> nm_NMType ret = NM_SYNC \<and>
    nm_ReciNode ret = nm_SendNode m \<and> nm_ViewNumber ret = ViewNumber v \<and> nm_Leader ret = Leader v \<and>
    NewNode (sv_Manager s') = nil_NodeInfo \<and> ServerID s' = ServerID s"
proof -
  obtain r1 d1 where r1: "ord_Stop (sv_Orderer s) = Some r1" "\<not> HandleState r1" "\<not> ReqState r1" "core_of r1 = Some d1"
    "ord_View r1 = ord_View (sv_Orderer s)" using ord_Stop_core [OF core] by blast
  define nm where "nm = snd (HandleJoin (sv_Manager s) m)"
  define ret0 where "ret0 = fst (HandleJoin (sv_Manager s) m)"
  have nm: "NewNode nm = (NewNode (sv_Manager s))\<lparr>ni_Name := nm_SendNode m, ni_NodeKey := nm_NodeKey m\<rparr>" "mg_Mode nm = NM_JOIN"
    "NodesTable nm = NodesTable (sv_Manager s)" "NodesChannel nm = NodesChannel (sv_Manager s)"
    and ret0: "nm_Type ret0 = NM_JOIN" "nm_NMType ret0 = NM_SYNC" "nm_ReciNode ret0 = nm_SendNode m"
    by (simp_all add: nm_def ret0_def HandleJoin_def)
  obtain v ret where ret: "ord_View r1 = Some v" "ord_AddSyncInfo r1 ret0 = Some ret" "nm_ViewNumber ret = ViewNumber v" "nm_Leader ret = Leader v"
    "nm_Type ret = nm_Type ret0" "nm_NMType ret = nm_NMType ret0" "nm_ReciNode ret = nm_ReciNode ret0"
    using ord_AddSyncInfo_ok [OF r1(4)] by blast
  let ?t = "AList.update (nm_SendNode m) (nm_NodeKey m) (NodesTable (sv_Manager s))"
  obtain r2 v2 where r2: "ord_UpdateNodesNum r1 (int (length ?t)) = Some r2" "HandleState r2 = HandleState r1"
    "ReqState r2 = ReqState r1" "ord_View r1 = Some v2" "ord_View r2 = Some (v2\<lparr>NodesNum := int (length ?t)\<rparr>)"
    using ord_UpdateNodesNum_ok [OF r1(4)] by blast
  let ?s' = "s\<lparr>sv_Orderer := r2, sv_Manager := ResetNodeManager (nm\<lparr>NodesTable := ?t\<rparr>), Sends := Sends s @ [mgmt_msg env s ret]\<rparr>"
  have "sv_JoinApply env s m w = Some (?s', w\<lparr>Maps := (Maps w)(NodesChannel (sv_Manager s) :=
        AList.update (nm_SendNode m) (ni_Chan (NewNode (sv_Manager s))) (chans_of s w))\<rparr>)"
    using r1(1) ret(2) r2(1) k nm
    by (simp add: sv_JoinApply_def StopOrderer_def case_prod_beta nm_def [symmetric] ret0_def [symmetric] UpdateNodeInfo_def
        UpdateNewNodeInfo_def Let_def sv_go_SendMsg_def chans_of_def mgmt_msg_def)
  moreover have "v2 = v" using r2(4) ret(1) by simp
  ultimately show ?thesis using r1 r2 ret ret0
    by (intro exI [of _ ?s'] exI [of _ v] exI [of _ ret]) (simp add: ResetNodeManager_def)
qed

text \<open>
  C21 A join at an original node: for an application of another node, a running HotStuff server stops
  its orderer, enters the key of the new node in its table and the channel it was handed in the map,
  sets the number of nodes to the size of the table, and spawns a sync message to the new node that
  carries its view and leader; nothing else of the view changes.
\<close>

theorem server_admits_node:
  assumes "NMType s = NMT_BASIC" "carries env b m" "nm_Type m = NM_JOIN" "nm_NMType m = NM_APPLY" "nm_SendNode m \<noteq> sv_Name s"
    and core: "core_of (sv_Orderer s) = Some d" "core_inv d"
  shows "\<exists>s' w' v ret. RouteServerMsg env s b w = Some (s', w') \<and> \<not> HandleState (sv_Orderer s') \<and> \<not> ReqState (sv_Orderer s') \<and>
    map_of (NodesTable (sv_Manager s')) = (map_of (NodesTable (sv_Manager s)))(nm_SendNode m \<mapsto> nm_NodeKey m) \<and>
    map_of (chans_of s w') = (map_of (chans_of s w))(nm_SendNode m \<mapsto> ni_Chan (NewNode (sv_Manager s))) \<and>
    ord_View (sv_Orderer s) = Some v \<and> ord_View (sv_Orderer s') = Some (v\<lparr>NodesNum := int (length (NodesTable (sv_Manager s')))\<rparr>) \<and>
    Sends s' = Sends s @ [mgmt_msg env s ret] \<and> nm_Type ret = NM_JOIN \<and> nm_NMType ret = NM_SYNC \<and>
    nm_ReciNode ret = nm_SendNode m \<and> nm_ViewNumber ret = ViewNumber v \<and> nm_Leader ret = Leader v"
proof -
  obtain s' v ret where j: "sv_JoinApply env s m (logged env s b w) = Some (s', (logged env s b w)\<lparr>Maps := (Maps w)(NodesChannel (sv_Manager s) :=
        AList.update (nm_SendNode m) (ni_Chan (NewNode (sv_Manager s))) (chans_of s w))\<rparr>)"
    "NodesTable (sv_Manager s') = AList.update (nm_SendNode m) (nm_NodeKey m) (NodesTable (sv_Manager s))"
    "\<not> HandleState (sv_Orderer s')" "\<not> ReqState (sv_Orderer s')" "ord_View (sv_Orderer s) = Some v"
    "ord_View (sv_Orderer s') = Some (v\<lparr>NodesNum := int (length (NodesTable (sv_Manager s')))\<rparr>)"
    "Sends s' = Sends s @ [mgmt_msg env s ret]" "nm_Type ret = NM_JOIN" "nm_NMType ret = NM_SYNC" "nm_ReciNode ret = nm_SendNode m"
    "nm_ViewNumber ret = ViewNumber v" "nm_Leader ret = Leader v"
    using JoinApply_ok [OF core assms(5), of env "logged env s b w"] by (auto simp: chans_of_def)
  have "RouteServerMsg env s b w = sv_JoinApply env s m (logged env s b w)" using Route_carries [OF assms(2,1)] assms(3,4) by simp
  with j show ?thesis
    by (intro exI [of _ s'] exI [of _ "(logged env s b w)\<lparr>Maps := (Maps w)(NodesChannel (sv_Manager s) :=
        AList.update (nm_SendNode m) (ni_Chan (NewNode (sv_Manager s))) (chans_of s w))\<rparr>"] exI [of _ v] exI [of _ ret])
      (simp add: chans_of_def update_conv')
qed

definition can_sign :: "'a node_env_scheme \<Rightarrow> Server \<Rightarrow> bool" where
  "can_sign env s \<longleftrightarrow> (\<forall>x. Sm2Sign env (sid_PrivateKey (ServerID s)) (pid_PubKey (pid_ID (ServerID s))) x \<noteq> None)"

text \<open>The names \<open>SendMsg\<close> takes for groups.\<close>

definition group_name :: "string \<Rightarrow> bool" where
  "group_name k \<longleftrightarrow> k = ''Broadcast'' \<or> k = ''Gossip'' \<or> k = ''Client''"

lemma SendMsg_new_node:
  assumes "can_sign env s" "\<not> group_name (ReciServer msg)" "ReciServer msg = ni_Name (NewNode (sv_Manager s))"
  shows "\<exists>json. sv_SendMsg env s msg w = do { w \<leftarrow> chan_send_to (ni_Chan (NewNode (sv_Manager s))) json w; Some (s, w) }"
proof -
  obtain g where "Sm2Sign env (sid_PrivateKey (ServerID s)) (pid_PubKey (pid_ID (ServerID s))) (SM3 env (Payload msg)) = Some g"
    using assms(1) by (auto simp: can_sign_def)
  with assms(2,3) show ?thesis by (auto simp: group_name_def sv_SendMsg_def Let_def)
qed

lemma ExitApply_ok:
  assumes core: "core_of (sv_Orderer s) = Some d" "core_inv d" and k: "nm_SendNode m \<noteq> sv_Name s" "\<not> group_name (nm_SendNode m)"
    and sign: "can_sign env s" and w: "chan_at (chans_of s w) (nm_SendNode m) = Some a"
  shows "\<exists>s' v json. sv_ExitApply env s m w = Some (s', w\<lparr>Queues := (Queues w)(a := Queues w a @ [json]),
      Maps := (Maps w)(NodesChannel (sv_Manager s) := AList.delete (nm_SendNode m) (chans_of s w))\<rparr>) \<and>
    NodesTable (sv_Manager s') = AList.delete (nm_SendNode m) (NodesTable (sv_Manager s)) \<and>
    \<not> HandleState (sv_Orderer s') \<and> \<not> ReqState (sv_Orderer s') \<and> ord_View (sv_Orderer s) = Some v \<and>
    ord_View (sv_Orderer s') = Some (v\<lparr>NodesNum := int (length (NodesTable (sv_Manager s')))\<rparr>)"
proof -
  obtain r1 d1 where r1: "ord_Stop (sv_Orderer s) = Some r1" "\<not> HandleState r1" "\<not> ReqState r1" "core_of r1 = Some d1"
    "ord_View r1 = ord_View (sv_Orderer s)" using ord_Stop_core [OF core] by blast
  let ?k = "nm_SendNode m"
  define nm where "nm = snd (HandleExit (Maps w) (sv_Manager s) m)"
  define ret where "ret = fst (HandleExit (Maps w) (sv_Manager s) m)"
  have nm: "NewNode nm = (NewNode (sv_Manager s))\<lparr>ni_Name := ?k, ni_Chan := Some a\<rparr>" "mg_Mode nm = NM_EXIT"
    "NodesTable nm = NodesTable (sv_Manager s)" "NodesChannel nm = NodesChannel (sv_Manager s)" "nm_ReciNode ret = ?k"
    using w by (simp_all add: nm_def ret_def HandleExit_def chans_of_def Let_def)
  let ?s1 = "s\<lparr>sv_Orderer := r1, sv_Manager := nm\<rparr>"
  obtain json where json: "sv_SendMsg env ?s1 (mgmt_msg env ?s1 ret) w = Some (?s1, w\<lparr>Queues := (Queues w)(a := Queues w a @ [json])\<rparr>)"
    using SendMsg_new_node [of env ?s1 "mgmt_msg env ?s1 ret" w] sign k nm by (auto simp: can_sign_def mgmt_msg_def chan_send_to_def)
  let ?t = "AList.delete ?k (NodesTable (sv_Manager s))"
  obtain r2 v where r2: "ord_UpdateNodesNum r1 (int (length ?t)) = Some r2" "HandleState r2 = HandleState r1"
    "ReqState r2 = ReqState r1" "ord_View r1 = Some v" "ord_View r2 = Some (v\<lparr>NodesNum := int (length ?t)\<rparr>)"
    using ord_UpdateNodesNum_ok [OF r1(4)] by blast
  let ?s' = "s\<lparr>sv_Orderer := r2, sv_Manager := ResetNodeManager (nm\<lparr>NodesTable := ?t\<rparr>)\<rparr>"
  have "sv_ExitApply env s m w = Some (?s', w\<lparr>Queues := (Queues w)(a := Queues w a @ [json]),
      Maps := (Maps w)(NodesChannel (sv_Manager s) := AList.delete ?k (chans_of s w))\<rparr>)"
    using r1(1) json r2(1) k nm
    by (simp add: sv_ExitApply_def StopOrderer_def case_prod_beta nm_def [symmetric] ret_def [symmetric] UpdateNodeInfo_def
        UpdateNewNodeInfo_def Let_def chans_of_def)
  with r1 r2 show ?thesis by (intro exI [of _ ?s'] exI [of _ v] exI [of _ json]) (simp add: ResetNodeManager_def)
qed

lemma ExitApply_blocks:
  assumes "can_sign env s" "\<not> group_name (nm_SendNode m)" "chan_at (chans_of s w) (nm_SendNode m) = None"
  shows "sv_ExitApply env s m w = None"
proof -
  define nm where "nm = snd (HandleExit (Maps w) (sv_Manager s) m)"
  define ret where "ret = fst (HandleExit (Maps w) (sv_Manager s) m)"
  have nm: "ni_Name (NewNode nm) = nm_SendNode m" "ni_Chan (NewNode nm) = None" "nm_ReciNode ret = nm_SendNode m"
    using assms(3) by (simp_all add: nm_def ret_def HandleExit_def chans_of_def Let_def)
  have "sv_SendMsg env (s\<lparr>sv_Orderer := r1, sv_Manager := nm\<rparr>) (mgmt_msg env (s\<lparr>sv_Orderer := r1, sv_Manager := nm\<rparr>) ret) w = None" for r1
    using SendMsg_new_node [of env "s\<lparr>sv_Orderer := r1, sv_Manager := nm\<rparr>" "mgmt_msg env (s\<lparr>sv_Orderer := r1, sv_Manager := nm\<rparr>) ret" w]
      assms(1,2) nm by (auto simp: can_sign_def mgmt_msg_def chan_send_to_def)
  then show ?thesis
    by (auto simp: sv_ExitApply_def StopOrderer_def case_prod_beta nm_def [symmetric] ret_def [symmetric] Let_def split: Option.bind_splits)
qed

text \<open>
  C23 The exit of a node locks up the others: of servers that share their map of channels, as all
  servers started together do, the first one that handles an exit, signed or not, stops, drops the
  node and deletes its channel from the map; the next one then answers on a nil channel and blocks
  for ever.
\<close>

theorem exit_locks_up_servers:
  assumes "NMType s = NMT_BASIC" "NMType s2 = NMT_BASIC" "carries env b m" "carries env b2 m2"
    and m: "nm_Type m = NM_EXIT" "nm_NMType m = NM_APPLY" "nm_SendNode m = k" "nm_Type m2 = NM_EXIT" "nm_NMType m2 = NM_APPLY" "nm_SendNode m2 = k"
    and k: "k \<noteq> sv_Name s" "\<not> group_name k" and chan: "chan_at (chans_of s w) k = Some a"
    and shared: "NodesChannel (sv_Manager s2) = NodesChannel (sv_Manager s)"
    and core: "core_of (sv_Orderer s) = Some d" "core_inv d" and sign: "can_sign env s" "can_sign env s2"
  shows "\<exists>s' w' v. RouteServerMsg env s b w = Some (s', w') \<and> \<not> HandleState (sv_Orderer s') \<and> \<not> ReqState (sv_Orderer s') \<and>
    map_of (NodesTable (sv_Manager s')) = (map_of (NodesTable (sv_Manager s)))(k := None) \<and>
    ord_View (sv_Orderer s) = Some v \<and> ord_View (sv_Orderer s') = Some (v\<lparr>NodesNum := int (length (NodesTable (sv_Manager s')))\<rparr>) \<and>
    RouteServerMsg env s2 b2 w' = None"
proof -
  let ?w = "logged env s b w"
  have chan': "chan_at (chans_of s ?w) (nm_SendNode m) = Some a" using chan m by (simp add: chans_of_def)
  obtain s' v json where e: "sv_ExitApply env s m ?w = Some (s', ?w\<lparr>Queues := (Queues ?w)(a := Queues ?w a @ [json]),
      Maps := (Maps ?w)(NodesChannel (sv_Manager s) := AList.delete (nm_SendNode m) (chans_of s ?w))\<rparr>)"
    "NodesTable (sv_Manager s') = AList.delete (nm_SendNode m) (NodesTable (sv_Manager s))"
    "\<not> HandleState (sv_Orderer s')" "\<not> ReqState (sv_Orderer s')" "ord_View (sv_Orderer s) = Some v"
    "ord_View (sv_Orderer s') = Some (v\<lparr>NodesNum := int (length (NodesTable (sv_Manager s')))\<rparr>)"
    using ExitApply_ok [OF core _ _ sign(1) chan'] m(3) k by blast
  define w' where "w' = ?w\<lparr>Queues := (Queues ?w)(a := Queues ?w a @ [json]),
      Maps := (Maps ?w)(NodesChannel (sv_Manager s) := AList.delete (nm_SendNode m) (chans_of s ?w))\<rparr>"
  have "RouteServerMsg env s b w = Some (s', w')" using Route_carries [OF assms(3,1)] m e(1) by (simp add: w'_def)
  moreover have "RouteServerMsg env s2 b2 w' = None"
  proof -
    have "chan_at (chans_of s2 (logged env s2 b2 w')) (nm_SendNode m2) = None"
      using shared m by (simp add: chans_of_def w'_def chan_at_def delete_conv')
    from ExitApply_blocks [OF sign(2) _ this] k(2) m show ?thesis using Route_carries [OF assms(4,2)] by simp
  qed
  ultimately show ?thesis using e(2-6) m(3) by (intro exI [of _ s'] exI [of _ w'] exI [of _ v]) (simp add: delete_conv')
qed

section \<open>Requests of a stopped server\<close>

text \<open>
  A stopped server throws its requests away: a worker that receives a flag while the orderer does
  not accept requests clears the batch of the leader without proposing it, and ends.
\<close>

theorem stopped_server_drops_requests:
  assumes "\<not> ReqState (sv_Orderer s)" "Workers s = Suc k" "ReqFlagChan (sv_Orderer s) = Some (flag # flags)"
    and "Requests s \<noteq> []" "int (length (Requests s)) \<le> BatchSize s" "ord_GetLeaderName (sv_Orderer s) = Some (sv_Name s)"
  shows "sv_HandleReq env s = Some (s\<lparr>sv_Orderer := (sv_Orderer s)\<lparr>ReqFlagChan := Some flags\<rparr>, Requests := [], Workers := k\<rparr>)"
proof -
  have "ord_GetLeaderName ((sv_Orderer s)\<lparr>ReqFlagChan := Some flags\<rparr>) = Some (sv_Name s)"
    using assms(6) by (simp add: ord_GetLeaderName_def of_core_def split: ConsensusType.splits)
  with assms show ?thesis by (simp add: sv_HandleReq_def handle_batch_def sv_VerifyReqs_def ord_HandleReq_def)
qed

section \<open>Examples\<close>

text \<open>An environment in which every message decodes to the same management message, unsigned.\<close>

definition srv_env :: "NodeMgmtMsg \<Rightarrow> node_env" where
  "srv_env m = node_demo_env\<lparr>dec_Ser := \<lambda>b. Some \<lparr>SType = NODEMGMT, SendServer = ''x'', ReciServer = [], Sign = None, Payload = b\<rparr>,
     dec_Mgmt := \<lambda>b. Some m\<rparr>"

definition demo_server :: "int \<Rightarrow> Server" where
  "demo_server i = (case NewServer node_demo_env (Inr (Some [1], Some [1])) None None i 4 [] CT_BASIC NMT_BASIC (TssSigner demo_tss) 0 of
     Some (Inr s) \<Rightarrow> s | _ \<Rightarrow> undefined)"

definition demo_world :: World where
  "demo_world = \<lparr>Maps = (\<lambda>_. [(''r_0'', Some ''r_0''), (''r_1'', Some ''r_1''), (''r_2'', Some ''r_2'')]), Queues = (\<lambda>_. []), Wire = [], SignErrors = []\<rparr>"

lemma Itoa_01 [simp]: "Itoa 0 = ''0''" "Itoa 1 = ''1''"
  by code_simp+

lemma basic_type: "hotstuff_type CT_BASIC i"
  by (simp add: hotstuff_type_def)

lemma demo_server_sel [simp]:
  "sv_Orderer (demo_server i) = demo_orderer CT_BASIC i" "NMType (demo_server i) = NMT_BASIC" "sv_Name (demo_server i) = ''r_'' @ Itoa i"
  "sv_Manager (demo_server i) = bc_NewNodeManager i [(''r_'' @ Itoa i, \<lparr>nk_Name = ''r_'' @ Itoa i, Sm2PubKey = Some [1], Sm4Key = None\<rparr>)] 0"
  "Requests (demo_server i) = []"
  using demo_orderer_built [OF basic_type [of i]]
  by (simp_all add: demo_server_def NewServer_def sv_InitConsensus_def InitNodeManager_def Let_def)

lemma demo_server_core: "\<exists>d. core_of (demo_orderer CT_BASIC i) = Some d \<and> core_inv d"
  using InitConsensus_core [OF basic_type [of i] _ demo_orderer_built [OF basic_type [of i]]] by auto

lemma srv_env_carries [simp]: "carries (srv_env m) b m"
  by (simp add: carries_def srv_env_def)

lemma srv_env_signs [simp]: "can_sign (srv_env m) s"
  by (simp add: can_sign_def srv_env_def node_demo_env_def example_env_def)

lemma demo_manager_sel [simp]: "NodesChannel (bc_NewNodeManager i t c) = c" "NodesTable (bc_NewNodeManager i t c) = t"
  "NewNode (bc_NewNodeManager i t c) = nil_NodeInfo"
  by (simp_all add: bc_NewNodeManager_def NewNodeManager_def NodeManager.extend_def)

theorem server_forged_join_crash_witness:
  "RouteServerMsg (srv_env (nil_NodeMgmtMsg\<lparr>nm_Type := NM_JOIN, nm_NMType := NM_APPLY, nm_SendNode := ''r_1''\<rparr>)) (demo_server 1) [7] demo_world = None"
  by (rule server_forged_join_crash [OF _ srv_env_carries]) simp_all

theorem server_admits_node_witness:
  "\<exists>s' w'. RouteServerMsg (srv_env (nil_NodeMgmtMsg\<lparr>nm_Type := NM_JOIN, nm_NMType := NM_APPLY, nm_SendNode := ''r_4''\<rparr>)) (demo_server 1) [7] demo_world = Some (s', w') \<and>
    \<not> HandleState (sv_Orderer s') \<and> map_of (NodesTable (sv_Manager s')) ''r_4'' = Some nil_NodeKey"
proof -
  let ?m = "nil_NodeMgmtMsg\<lparr>nm_Type := NM_JOIN, nm_NMType := NM_APPLY, nm_SendNode := ''r_4''\<rparr>"
  obtain d where d: "core_of (demo_orderer CT_BASIC 1) = Some d" "core_inv d" using demo_server_core by blast
  have "nm_NodeKey ?m = nil_NodeKey" by (simp add: nil_NodeMgmtMsg_def)
  with server_admits_node [of "demo_server 1" "srv_env ?m" "[7]" ?m d demo_world] d show ?thesis by fastforce
qed

theorem exit_locks_up_servers_witness:
  "\<exists>s' w'. RouteServerMsg (srv_env (nil_NodeMgmtMsg\<lparr>nm_Type := NM_EXIT, nm_NMType := NM_APPLY, nm_SendNode := ''r_0''\<rparr>)) (demo_server 1) [7] demo_world = Some (s', w') \<and>
    RouteServerMsg (srv_env (nil_NodeMgmtMsg\<lparr>nm_Type := NM_EXIT, nm_NMType := NM_APPLY, nm_SendNode := ''r_0''\<rparr>)) (demo_server 2) [8] w' = None"
proof -
  let ?m = "nil_NodeMgmtMsg\<lparr>nm_Type := NM_EXIT, nm_NMType := NM_APPLY, nm_SendNode := ''r_0''\<rparr>"
  obtain d where d: "core_of (demo_orderer CT_BASIC 1) = Some d" "core_inv d" using demo_server_core by blast
  have "chan_at (chans_of (demo_server 1) demo_world) ''r_0'' = Some ''r_0''" by (simp add: chans_of_def demo_world_def chan_at_def)
  with exit_locks_up_servers [of "demo_server 1" "demo_server 2" "srv_env ?m" "[7]" ?m "[8]" ?m "''r_0''" demo_world "''r_0''" d] d
  show ?thesis by (auto simp: group_name_def)
qed

theorem stopped_server_drops_requests_witness:
  "Requests (the (sv_HandleReq node_demo_env ((demo_server 0)\<lparr>sv_Orderer := (demo_orderer CT_BASIC 0)\<lparr>ReqState := False, ReqFlagChan := Some [True]\<rparr>,
     Workers := 1, Requests := [\<lparr>rq_Id = [], rq_Cmd = [1], rq_Sign = []\<rparr>], BatchSize := 128\<rparr>))) = []"
proof -
  have "demo_orderer CT_BASIC 0 = nil_Orderer\<lparr>ConsType := CT_BASIC, ReqFlagChan := Some [], HandleState := True, ReqState := True,
     BasicHotstuff := Some (hs_start node_demo_env 0 4 [] demo_tss)\<rparr>"
    by (rule InitConsensus_basic [OF demo_orderer_built [OF basic_type]])
  then have "ord_GetLeaderName ((demo_orderer CT_BASIC 0)\<lparr>ReqState := False, ReqFlagChan := Some [True]\<rparr>) = Some ''r_0''"
    by (simp add: ord_GetLeaderName_def of_core_def bhs_GetLeaderName_def LeaderName_def)
  with stopped_server_drops_requests [of "(demo_server 0)\<lparr>sv_Orderer := (demo_orderer CT_BASIC 0)\<lparr>ReqState := False, ReqFlagChan := Some [True]\<rparr>,
     Workers := 1, Requests := [\<lparr>rq_Id = [], rq_Cmd = [1], rq_Sign = []\<rparr>], BatchSize := 128\<rparr>" 0 True "[]" node_demo_env]
  show ?thesis by simp
qed

end
