(* ===== verification/Fac_Props.thy ===== *)
theory Fac_Props
  imports Fac_Core Srv_Props
begin

text \<open>
  The network that \<open>GenServers\<close> makes: who knows whom, and which keys are lost on the way.
\<close>

section \<open>One server\<close>

text \<open>What a new server \<open>s\<close> of index \<open>i\<close> and public key \<open>pk\<close> looks like, whatever its tables are.\<close>

definition fresh_server :: "ConsensusType \<Rightarrow> nat \<Rightarrow> nat \<Rightarrow> bytes \<Rightarrow> Server \<Rightarrow> bool" where
  "fresh_server ct mp i pk s \<longleftrightarrow> sv_Name s = node_name (int i) \<and> pid_PubKey (pid_ID (ServerID s)) = pk \<and>
     Address (ServerID s) = Some (node_name (int i)) \<and> ord_wf ct (sv_Orderer s) \<and> NMType s = NMT_BASIC \<and>
     NodesChannel (sv_Manager s) = mp \<and>
     map_of (NodesTable (sv_Manager s)) (node_name (int i)) = Some \<lparr>nk_Name = node_name (int i), Sm2PubKey = pk, Sm4Key = None\<rparr>"

lemma NewServer_fresh:
  assumes "signer_matches ct sg"
  shows "\<exists>s. NewServer env (Inr (sk, pk)) k1 k2 (int i) (int n) path ct NMT_BASIC sg mp = Some (Inr s) \<and> fresh_server ct mp i pk s \<and>
    NodesTable (sv_Manager s) = [(node_name (int i), \<lparr>nk_Name = node_name (int i), Sm2PubKey = pk, Sm4Key = None\<rparr>)]"
  using InitConsensus_ok [OF assms, of env "int i" "int n" path]
  by (auto simp: NewServer_def sv_InitConsensus_def InitNodeManager_def Let_def fresh_server_def node_name_def)

lemma fresh_worker [simp]: "fresh_server ct mp i pk (go_HandleReq s) = fresh_server ct mp i pk s"
  "sv_Manager (go_HandleReq s) = sv_Manager s" "ServerID (go_HandleReq s) = ServerID s"
  by (simp_all add: go_HandleReq_def fresh_server_def)

lemma all_some_length: "all_some xs = Some ys \<Longrightarrow> length ys = length xs"
  by (induction xs arbitrary: ys) (auto simp: bind_Some_iff)

lemma GenSigners_match:
  assumes "GenSigners g ct n = Some sgs" "\<forall>x. ct \<noteq> CT_other x" "sg \<in> set sgs"
  shows "signer_matches ct sg"
  using assms by (cases ct) (auto simp: GenSigners_def signer_matches_def bind_Some_iff split: if_splits)

section \<open>The first loop\<close>

lemma gen_servers_ok:
  assumes "\<forall>sg \<in> set sgs. signer_matches ct sg" "length sgs = k" "\<forall>j. i \<le> j \<and> j < i + k \<longrightarrow> (\<exists>sk. gen_keys g j = Inr (sk, pub j))"
    and "length ss = i" "\<forall>j < i. fresh_server ct mp j (pub j) (ss ! j) \<and> map fst (NodesTable (sv_Manager (ss ! j))) = [node_name (int j)]"
    and "map_of chans = (\<lambda>x. if x \<in> (\<lambda>j. node_name (int j)) ` {..<i} then Some (Some x) else None)"
  shows "\<exists>ss' chans'. gen_servers env g ct n path sgs mp i k (ss, chans) = Some (ss', chans') \<and> length ss' = i + k \<and>
    (\<forall>j < i + k. fresh_server ct mp j (pub j) (ss' ! j) \<and> map fst (NodesTable (sv_Manager (ss' ! j))) = [node_name (int j)]) \<and>
    map_of chans' = (\<lambda>x. if x \<in> (\<lambda>j. node_name (int j)) ` {..<i + k} then Some (Some x) else None)"
  using assms
proof (induction k arbitrary: i sgs ss chans)
  case 0
  then show ?case by simp
next
  case (Suc k)
  then obtain sg sgs' where sg: "sgs = sg # sgs'" by (cases sgs) auto
  obtain sk where sk: "gen_keys g i = Inr (sk, pub i)" using Suc.prems(3) by auto
  obtain s where s: "NewServer env (Inr (sk, pub i)) (client_key1 g) (client_key2 g) (int i) (int n) path ct NMT_BASIC sg mp = Some (Inr s)"
    "fresh_server ct mp i (pub i) s" "NodesTable (sv_Manager s) = [(node_name (int i), \<lparr>nk_Name = node_name (int i), Sm2PubKey = pub i, Sm4Key = None\<rparr>)]"
    using NewServer_fresh [of ct sg env sk "pub i" "client_key1 g" "client_key2 g" i n path mp] Suc.prems(1) sg by auto
  let ?ss = "ss @ [go_HandleReq s]"
  let ?chans = "AList.update (node_name (int i)) (Some (node_name (int i))) chans"
  have "\<exists>ss' chans'. gen_servers env g ct n path sgs' mp (Suc i) k (?ss, ?chans) = Some (ss', chans') \<and> length ss' = Suc i + k \<and>
    (\<forall>j < Suc i + k. fresh_server ct mp j (pub j) (ss' ! j) \<and> map fst (NodesTable (sv_Manager (ss' ! j))) = [node_name (int j)]) \<and>
    map_of chans' = (\<lambda>x. if x \<in> (\<lambda>j. node_name (int j)) ` {..<Suc i + k} then Some (Some x) else None)"
  proof (rule Suc.IH)
    show "\<forall>sg \<in> set sgs'. signer_matches ct sg" "length sgs' = k" using Suc.prems(1,2) sg by auto
    show "\<forall>j. Suc i \<le> j \<and> j < Suc i + k \<longrightarrow> (\<exists>sk. gen_keys g j = Inr (sk, pub j))" using Suc.prems(3) by auto
    show "length ?ss = Suc i" using Suc.prems(4) by simp
    show "\<forall>j < Suc i. fresh_server ct mp j (pub j) (?ss ! j) \<and> map fst (NodesTable (sv_Manager (?ss ! j))) = [node_name (int j)]"
      using Suc.prems(4,5) s by (auto simp: nth_append less_Suc_eq)
    show "map_of ?chans = (\<lambda>x. if x \<in> (\<lambda>j. node_name (int j)) ` {..<Suc i} then Some (Some x) else None)"
      using Suc.prems(6) by (auto simp: update_conv' fun_eq_iff lessThan_Suc)
  qed
  moreover have "Address (ServerID s) = Some (node_name (int i))" using s(2) by (simp add: fresh_server_def)
  ultimately show ?case using s(1) sk sg Suc.prems(4) by (simp add: node_name_def nth_append list_update_append)
qed

section \<open>The second loop\<close>

definition knows_ok :: "ConsensusType \<Rightarrow> nat \<Rightarrow> nat \<Rightarrow> nat \<Rightarrow> bytes \<Rightarrow> Server \<Rightarrow> bool" where
  "knows_ok ct mp n i pk s \<longleftrightarrow> fresh_server ct mp i pk s \<and> distinct (map fst (NodesTable (sv_Manager s))) \<and>
     fst ` set (NodesTable (sv_Manager s)) \<subseteq> (\<lambda>j. node_name (int j)) ` {..<n}"

definition net_ok :: "ConsensusType \<Rightarrow> nat \<Rightarrow> nat \<Rightarrow> (nat \<Rightarrow> bytes) \<Rightarrow> Server list \<Rightarrow> bool" where
  "net_ok ct mp n pub ss \<longleftrightarrow> length ss = n \<and> (\<forall>i < n. knows_ok ct mp n i (pub i) (ss ! i))"

abbreviation entry :: "Server list \<Rightarrow> nat \<Rightarrow> nat \<Rightarrow> NodeKey option" where
  "entry ss a b \<equiv> map_of (NodesTable (sv_Manager (ss ! a))) (node_name (int b))"

lemma UpdateSm4Key_table:
  "map_of (NodesTable (UpdateSm4Key nm x key)) = (map_of (NodesTable nm))(x \<mapsto> (case map_of (NodesTable nm) x of
     None \<Rightarrow> \<lparr>nk_Name = x, Sm2PubKey = None, Sm4Key = key\<rparr> | Some nk \<Rightarrow> nk\<lparr>Sm4Key := key\<rparr>))"
  "distinct (map fst (NodesTable nm)) \<Longrightarrow> distinct (map fst (NodesTable (UpdateSm4Key nm x key)))"
  "fst ` set (NodesTable (UpdateSm4Key nm x key)) = insert x (fst ` set (NodesTable nm))"
  "NodesChannel (UpdateSm4Key nm x key) = NodesChannel nm"
  by (auto simp: UpdateSm4Key_def update_conv' distinct_update dom_update split: option.split)

text \<open>What the two operations on a server of index \<open>a\<close> do, for another name.\<close>

lemma add_node_fresh:
  assumes "fresh_server ct mp a pk s" "fresh_server ct mp b pk' t" "a \<noteq> b"
  shows "fresh_server ct mp a pk (add_node s t)"
    "map_of (NodesTable (sv_Manager (add_node s t))) =
       (map_of (NodesTable (sv_Manager s)))(node_name (int b) \<mapsto> \<lparr>nk_Name = node_name (int b), Sm2PubKey = pk', Sm4Key = None\<rparr>)"
    "distinct (map fst (NodesTable (sv_Manager s))) \<Longrightarrow> distinct (map fst (NodesTable (sv_Manager (add_node s t))))"
    "fst ` set (NodesTable (sv_Manager (add_node s t))) = insert (node_name (int b)) (fst ` set (NodesTable (sv_Manager s)))"
  using assms by (simp_all add: fresh_server_def add_node_def update_conv' distinct_update dom_update)

lemma share_sm4_fresh:
  assumes "fresh_server ct mp a pk s" "fresh_server ct mp b pk' t" "a \<noteq> b"
  shows "fresh_server ct mp a pk (share_sm4 s t key)"
    "map_of (NodesTable (sv_Manager (share_sm4 s t key))) =
       (map_of (NodesTable (sv_Manager s)))(node_name (int b) \<mapsto> (case map_of (NodesTable (sv_Manager s)) (node_name (int b)) of
          None \<Rightarrow> \<lparr>nk_Name = node_name (int b), Sm2PubKey = None, Sm4Key = key\<rparr> | Some nk \<Rightarrow> nk\<lparr>Sm4Key := key\<rparr>))"
    "distinct (map fst (NodesTable (sv_Manager s))) \<Longrightarrow> distinct (map fst (NodesTable (sv_Manager (share_sm4 s t key))))"
    "fst ` set (NodesTable (sv_Manager (share_sm4 s t key))) = insert (node_name (int b)) (fst ` set (NodesTable (sv_Manager s)))"
  using assms by (simp_all add: fresh_server_def share_sm4_def UpdateSm4Key_table)

lemma route_pair_effect:
  assumes "net_ok ct mp n pub ss" "i < n" "j < n"
  shows "net_ok ct mp n pub (route_pair g ss (i, j))"
    "a < n \<Longrightarrow> b < n \<Longrightarrow> a \<noteq> b \<Longrightarrow> entry (route_pair g ss (i, j)) a b =
      (if a = i \<and> b = j then Some \<lparr>nk_Name = node_name (int b), Sm2PubKey = pub b, Sm4Key = (if a < b then gen_sm4 g a b else None)\<rparr>
       else if a = j \<and> b = i \<and> i < j then Some (case entry ss a b of
          None \<Rightarrow> \<lparr>nk_Name = node_name (int b), Sm2PubKey = None, Sm4Key = gen_sm4 g i j\<rparr> | Some nk \<Rightarrow> nk\<lparr>Sm4Key := gen_sm4 g i j\<rparr>)
       else entry ss a b)"
proof -
  have len: "length ss = n" and ok: "\<And>k. k < n \<Longrightarrow> knows_ok ct mp n k (pub k) (ss ! k)"
    using assms(1) by (auto simp: net_ok_def)
  then have fr: "\<And>k. k < n \<Longrightarrow> fresh_server ct mp k (pub k) (ss ! k)" by (auto simp: knows_ok_def)
  let ?u = "add_node (ss ! i) (ss ! j)"
  let ?v = "share_sm4 ?u (ss ! j) (gen_sm4 g i j)"
  let ?w = "share_sm4 (ss ! j) ?v (gen_sm4 g i j)"
  note u = add_node_fresh [OF fr [OF assms(2)] fr [OF assms(3)]]
  show "net_ok ct mp n pub (route_pair g ss (i, j))"
  proof (cases "j = i")
    case False
    then have ij: "i \<noteq> j" by simp
    note v = share_sm4_fresh [OF u(1) [OF ij] fr [OF assms(3)] ij, of "gen_sm4 g i j"]
    note w = share_sm4_fresh [OF fr [OF assms(3)] v(1) False, of "gen_sm4 g i j"]
    have "route_pair g ss (i, j) = (if i < j then ss[i := ?v, j := ?w] else ss[i := ?u])"
      using False len assms(2,3) by (simp add: route_pair_def Let_def)
    moreover have "knows_ok ct mp n i (pub i) ?u" "knows_ok ct mp n i (pub i) ?v" "knows_ok ct mp n j (pub j) ?w"
      using ok [OF assms(2)] ok [OF assms(3)] u [OF ij] v w assms(2,3) unfolding knows_ok_def by simp_all
    ultimately show ?thesis using ok len assms(2,3) by (auto simp: net_ok_def nth_list_update)
  qed (use assms(1) in \<open>simp add: route_pair_def\<close>)
  assume ab: "a < n" "b < n" "a \<noteq> b"
  show "entry (route_pair g ss (i, j)) a b =
      (if a = i \<and> b = j then Some \<lparr>nk_Name = node_name (int b), Sm2PubKey = pub b, Sm4Key = (if a < b then gen_sm4 g a b else None)\<rparr>
       else if a = j \<and> b = i \<and> i < j then Some (case entry ss a b of
          None \<Rightarrow> \<lparr>nk_Name = node_name (int b), Sm2PubKey = None, Sm4Key = gen_sm4 g i j\<rparr> | Some nk \<Rightarrow> nk\<lparr>Sm4Key := gen_sm4 g i j\<rparr>)
       else entry ss a b)"
  proof (cases "j = i")
    case False
    then have ij: "i \<noteq> j" by simp
    note v = share_sm4_fresh [OF u(1) [OF ij] fr [OF assms(3)] ij, of "gen_sm4 g i j"]
    note w = share_sm4_fresh [OF fr [OF assms(3)] v(1) False, of "gen_sm4 g i j"]
    have "route_pair g ss (i, j) = (if i < j then ss[i := ?v, j := ?w] else ss[i := ?u])"
      using False len assms(2,3) by (simp add: route_pair_def Let_def)
    then show ?thesis using ab len assms(2,3) u(2) [OF ij] v(2) w(2) ij by (auto simp: nth_list_update)
  qed (use ab in \<open>auto simp: route_pair_def\<close>)
qed

lemma route_all:
  "net_ok ct mp n pub ss \<Longrightarrow> set ps \<subseteq> {..<n} \<times> {..<n} \<Longrightarrow> net_ok ct mp n pub (foldl (route_pair g) ss ps)"
  by (induction ps arbitrary: ss) (auto simp: route_pair_effect(1))

lemma route_keep:
  assumes "net_ok ct mp n pub ss" "set ps \<subseteq> {..<n} \<times> {..<n}" "a < n" "b < n" "a \<noteq> b" "(a, b) \<notin> set ps" "b < a \<longrightarrow> (b, a) \<notin> set ps"
  shows "entry (foldl (route_pair g) ss ps) a b = entry ss a b"
  using assms
proof (induction ps arbitrary: ss)
  case (Cons p ps)
  obtain i j where p: "p = (i, j)" by force
  with Cons.prems(2) have ij: "i < n" "j < n" by auto
  have "entry (route_pair g ss (i, j)) a b = entry ss a b"
    unfolding route_pair_effect(2) [OF Cons.prems(1) ij Cons.prems(3-5)] using Cons.prems(6,7) p by auto
  with Cons p route_pair_effect(1) [OF Cons.prems(1) ij, of g] show ?case by auto
qed simp

lemma product_split:
  assumes "a < n" "b < n"
  shows "\<exists>pre. List.product [0..<n] [0..<n] = pre @ (a, b) # map (Pair a) [Suc b..<n] @ List.product [Suc a..<n] [0..<n]"
proof -
  have "[0..<n] = [0..<a] @ a # [Suc a..<n]" "[0..<n] = [0..<b] @ b # [Suc b..<n]"
    using assms upt_add_eq_append [of 0 a "n - a"] upt_add_eq_append [of 0 b "n - b"] by (simp_all add: upt_conv_Cons)
  then have "List.product [0..<n] [0..<n] = List.product [0..<a] [0..<n] @ map (Pair a) ([0..<b] @ b # [Suc b..<n]) @ List.product [Suc a..<n] [0..<n]"
    by (metis (no_types) product_concat_map List.product.simps(2) concat_append map_append)
  then show ?thesis by auto
qed

lemma route_tables_entry:
  assumes ok: "net_ok ct mp n pub ss" and ab: "a < n" "b < n" "a \<noteq> b"
  shows "entry (route_tables g n ss) a b = Some \<lparr>nk_Name = node_name (int b), Sm2PubKey = pub b, Sm4Key = (if a < b then gen_sm4 g a b else None)\<rparr>"
proof -
  let ?post = "map (Pair a) [Suc b..<n] @ List.product [Suc a..<n] [0..<n]"
  obtain pre where p: "List.product [0..<n] [0..<n] = pre @ (a, b) # ?post" using product_split [OF ab(1,2)] by blast
  have sub: "set pre \<subseteq> {..<n} \<times> {..<n}" "set ?post \<subseteq> {..<n} \<times> {..<n}"
  proof -
    have "set (pre @ (a, b) # ?post) \<subseteq> {..<n} \<times> {..<n}" unfolding p [symmetric] by auto
    then show "set pre \<subseteq> {..<n} \<times> {..<n}" "set ?post \<subseteq> {..<n} \<times> {..<n}" by simp_all
  qed
  let ?s1 = "foldl (route_pair g) ss pre"
  have o1: "net_ok ct mp n pub ?s1" by (rule route_all [OF ok sub(1)])
  let ?s2 = "route_pair g ?s1 (a, b)"
  have o2: "net_ok ct mp n pub ?s2" by (rule route_pair_effect(1) [OF o1 ab(1,2)])
  have "entry (foldl (route_pair g) ?s2 ?post) a b = entry ?s2 a b"
    using ab by (intro route_keep [OF o2 sub(2)]) auto
  also have "\<dots> = Some \<lparr>nk_Name = node_name (int b), Sm2PubKey = pub b, Sm4Key = (if a < b then gen_sm4 g a b else None)\<rparr>"
    using route_pair_effect(2) [OF o1 ab(1,2) ab, of g] by simp
  finally show ?thesis by (simp add: route_tables_def p)
qed

lemma route_tables_ok: "net_ok ct mp n pub ss \<Longrightarrow> net_ok ct mp n pub (route_tables g n ss)"
  unfolding route_tables_def by (rule route_all) auto

lemma net_ok_table_length:
  assumes ok: "net_ok ct mp n pub ss" and a: "a < n" and all: "\<And>b. b < n \<Longrightarrow> entry ss a b \<noteq> None"
  shows "length (NodesTable (sv_Manager (ss ! a))) = n"
proof -
  let ?t = "NodesTable (sv_Manager (ss ! a))"
  have d: "distinct (map fst ?t)" "fst ` set ?t \<subseteq> (\<lambda>j. node_name (int j)) ` {..<n}" using ok a by (auto simp: net_ok_def knows_ok_def)
  have "(\<lambda>j. node_name (int j)) ` {..<n} \<subseteq> fst ` set ?t" using all by (auto simp: map_of_eq_None_iff)
  with d(2) have "fst ` set ?t = (\<lambda>j. node_name (int j)) ` {..<n}" by blast
  then have "card (fst ` set ?t) = n" by (simp add: card_image inj_on_def)
  with distinct_card [OF d(1)] show ?thesis by simp
qed

text \<open>
  C20 The network the factory starts: every server is named after its index, runs a well-typed
  orderer, shares the one map that names the channel of every server, and has a table of exactly
  the n servers with all their public keys. Of the symmetric keys every server keeps only those of
  the servers after it: the pass of its own row erases the ones the earlier servers agreed with it.
\<close>

theorem GenServers_network:
  assumes "\<forall>i < n. \<exists>sk. gen_keys g i = Inr (sk, pub i)" and "GenSigners g ct n = Some sgs" "length sgs = n" "\<forall>x. ct \<noteq> CT_other x"
  shows "\<exists>ss w'. GenServers env g n path ct mp w = Some (ss, w') \<and> length ss = n \<and>
    map_of (Maps w' mp) = (\<lambda>x. if x \<in> (\<lambda>i. node_name (int i)) ` {..<n} then Some (Some x) else None) \<and>
    (\<forall>i < n. sv_Name (ss ! i) = node_name (int i) \<and> ord_wf ct (sv_Orderer (ss ! i)) \<and> NodesChannel (sv_Manager (ss ! i)) = mp \<and>
       length (NodesTable (sv_Manager (ss ! i))) = n \<and>
       (\<forall>j < n. map_of (NodesTable (sv_Manager (ss ! i))) (node_name (int j)) =
          Some \<lparr>nk_Name = node_name (int j), Sm2PubKey = pub j, Sm4Key = (if i < j then gen_sm4 g i j else None)\<rparr>))"
proof -
  have "\<forall>sg \<in> set sgs. signer_matches ct sg" using GenSigners_match [OF assms(2,4)] by blast
  then obtain ss chans where s: "gen_servers env g ct n path sgs mp 0 n ([], []) = Some (ss, chans)" "length ss = n"
    "\<forall>j < n. fresh_server ct mp j (pub j) (ss ! j) \<and> map fst (NodesTable (sv_Manager (ss ! j))) = [node_name (int j)]"
    "map_of chans = (\<lambda>x. if x \<in> (\<lambda>j. node_name (int j)) ` {..<n} then Some (Some x) else None)"
    using gen_servers_ok [of sgs ct n 0 g pub "[]" mp "[]" env n path] assms by auto
  have ok: "net_ok ct mp n pub ss"
    using s(2,3) by (auto simp: net_ok_def knows_ok_def simp flip: set_map)
  let ?r = "route_tables g n ss"
  have okr: "net_ok ct mp n pub ?r" by (rule route_tables_ok [OF ok])
  have e: "entry ?r i j = Some \<lparr>nk_Name = node_name (int j), Sm2PubKey = pub j, Sm4Key = (if i < j then gen_sm4 g i j else None)\<rparr>"
    if "i < n" "j < n" for i j
  proof (cases "i = j")
    case True
    with okr that show ?thesis by (simp add: net_ok_def knows_ok_def fresh_server_def)
  next
    case False
    from route_tables_entry [OF ok that this, of g] show ?thesis .
  qed
  have "length (NodesTable (sv_Manager (?r ! i))) = n" if "i < n" for i
    using net_ok_table_length [OF okr that] e [OF that] by simp
  moreover have "GenServers env g n path ct mp w = Some (?r, w\<lparr>Maps := (Maps w)(mp := chans)\<rparr>)"
    using assms(2) s(1) by (simp add: GenServers_def)
  moreover have "length ?r = n" "\<forall>i < n. fresh_server ct mp i (pub i) (?r ! i)" using okr by (auto simp: net_ok_def knows_ok_def)
  ultimately show ?thesis using e s(4)
    by (intro exI [of _ ?r] exI [of _ "w\<lparr>Maps := (Maps w)(mp := chans)\<rparr>"]) (simp add: fresh_server_def)
qed

section \<open>Example\<close>

definition demo_gen :: gen where
  "demo_gen = \<lparr>gen_tss = (\<lambda>n t. Some (replicate (nat n) (Some demo_tss))), gen_ssm2 = (\<lambda>n. None),
     gen_keys = (\<lambda>i. Inr (Some [1], Some [of_nat i])), gen_sm4 = (\<lambda>i j. Some [of_nat i, of_nat j]), client_key1 = Some [7], client_key2 = None\<rparr>"

lemma demo_gen_sel [simp]: "gen_keys demo_gen i = Inr (Some [1], Some [of_nat i])" "gen_sm4 demo_gen i j = Some [of_nat i, of_nat j]"
  by (simp_all add: demo_gen_def)

lemma all_some_replicate: "all_some (replicate n (Some x)) = Some (replicate n x)"
  by (induction n) simp_all

lemma demo_gen_signers: "ct \<noteq> CT_PBFT \<Longrightarrow> GenSigners demo_gen ct n = Some (replicate n (TssSigner demo_tss))"
  by (simp add: GenSigners_def demo_gen_def all_some_replicate)

theorem GenServers_network_witness:
  "\<exists>ss w. GenServers node_demo_env demo_gen 3 [] CT_CHAINED 0 demo_world = Some (ss, w) \<and> length ss = 3 \<and>
     map_of (NodesTable (sv_Manager (ss ! 0))) (node_name 2) = Some \<lparr>nk_Name = node_name 2, Sm2PubKey = Some [2], Sm4Key = Some [0, 2]\<rparr> \<and>
     map_of (NodesTable (sv_Manager (ss ! 2))) (node_name 0) = Some \<lparr>nk_Name = node_name 0, Sm2PubKey = Some [0], Sm4Key = None\<rparr>"
proof -
  from GenServers_network [of 3 demo_gen "\<lambda>i. Some [of_nat i]" CT_CHAINED "replicate 3 (TssSigner demo_tss)" node_demo_env "[]" 0 demo_world]
  obtain ss w where "GenServers node_demo_env demo_gen 3 [] CT_CHAINED 0 demo_world = Some (ss, w)" "length ss = 3"
    and e: "\<forall>i < 3. \<forall>j < 3. map_of (NodesTable (sv_Manager (ss ! i))) (node_name (int j)) =
      Some \<lparr>nk_Name = node_name (int j), Sm2PubKey = Some [of_nat j], Sm4Key = (if i < j then Some [of_nat i, of_nat j] else None)\<rparr>"
    by (auto simp: demo_gen_signers)
  with e [rule_format, of 0 2] e [rule_format, of 2 0] show ?thesis by (intro exI [of _ ss] exI [of _ w]) simp
qed

end
