(* ===== verification/Cli_Requests.thy ===== *)
theory Cli_Requests
  imports Fac_Core Dcs_Block
begin

text \<open>
  What the program reads from files and writes to them besides blocks: random requests
  (orderer/common/gen.go), the signed requests of the client (core/client/gen\_req\_sign.go,
  core/factory/gen\_req.go), the keys of the client (bccrypto/sign\_sm2), the configuration
  (common/config) and the removal of directories (orderer/common/file.go). The lemmas show that the
  requests written are the requests read, up to which length, and what the key files hold.
\<close>

section \<open>Base64 and JSON byte slices\<close>

text \<open>\<open>encoding/base64\<close>: three bytes become four symbols of the alphabet, the rest is padded.\<close>

definition std_alphabet :: "byte list" where
  "std_alphabet = str2bytes ''ABCDEFGHIJKLMNOPQRSTUVWXYZabcdefghijklmnopqrstuvwxyz0123456789+/''"

definition url_alphabet :: "byte list" where
  "url_alphabet = str2bytes ''ABCDEFGHIJKLMNOPQRSTUVWXYZabcdefghijklmnopqrstuvwxyz0123456789-_''"

fun b64_encode :: "byte list \<Rightarrow> byte list \<Rightarrow> byte list" where
  "b64_encode al [] = []"
| "b64_encode al [a] = [al ! (unat a div 4), al ! (unat a mod 4 * 16), 61, 61]"
| "b64_encode al [a, b] = [al ! (unat a div 4), al ! (unat a mod 4 * 16 + unat b div 16), al ! (unat b mod 16 * 4), 61]"
| "b64_encode al (a # b # c # xs) =
     [al ! (unat a div 4), al ! (unat a mod 4 * 16 + unat b div 16), al ! (unat b mod 16 * 4 + unat c div 64),
      al ! (unat c mod 64)] @ b64_encode al xs"

definition b64_index :: "byte list \<Rightarrow> byte \<Rightarrow> nat" where
  "b64_index al s = length (takeWhile (\<lambda>t. t \<noteq> s) al)"

text \<open>The decoder, on what the encoder writes; the padding is not a symbol.\<close>

fun b64_decode :: "byte list \<Rightarrow> byte list \<Rightarrow> byte list" where
  "b64_decode al (p # q # r # s # xs) =
     (let i = b64_index al p; j = b64_index al q; k = b64_index al r; l = b64_index al s in
      if r = 61 then [of_nat (i * 4 + j div 16)]
      else if s = 61 then [of_nat (i * 4 + j div 16), of_nat (j mod 16 * 16 + k div 4)]
      else [of_nat (i * 4 + j div 16), of_nat (j mod 16 * 16 + k div 4), of_nat (k mod 4 * 64 + l)] @ b64_decode al xs)"
| "b64_decode al _ = []"

text \<open>\<open>json.Marshal\<close> of a byte slice.\<close>

definition json_bytes :: "bytes \<Rightarrow> byte list" where
  "json_bytes b = (case b of None \<Rightarrow> str2bytes ''null'' | Some xs \<Rightarrow> [34] @ b64_encode std_alphabet xs @ [34])"

text \<open>
  What \<open>json.Unmarshal\<close> leaves in an empty slice is a parameter of the code below; this is one
  function that inverts \<open>json_bytes\<close>.
\<close>

definition unjson_bytes :: "byte list \<Rightarrow> byte list" where
  "unjson_bytes l = (case l of [] \<Rightarrow> [] | q # r \<Rightarrow> if q = 34 then b64_decode std_alphabet (butlast r) else [])"

definition json_inverse :: "(byte list \<Rightarrow> byte list) \<Rightarrow> bool" where
  "json_inverse un \<longleftrightarrow> (\<forall>b. un (json_bytes b) = bval b)"

lemma length_alphabets [simp]: "length std_alphabet = 64" "length url_alphabet = 64"
  by (simp_all add: std_alphabet_def url_alphabet_def str2bytes_def)

lemma distinct_std_alphabet: "distinct std_alphabet"
  by (simp add: std_alphabet_def str2bytes_def)

lemma std_alphabet_symbols: "61 \<notin> set std_alphabet" "10 \<notin> set std_alphabet" "13 \<notin> set std_alphabet" "34 \<notin> set std_alphabet"
  by (simp_all add: std_alphabet_def str2bytes_def)

lemma url_alphabet_symbols: "c \<in> set url_alphabet \<Longrightarrow> c \<noteq> 10 \<and> c \<noteq> 13 \<and> c \<noteq> 32"
  by (auto simp: url_alphabet_def str2bytes_def)

lemma b64_index_nth: "distinct al \<Longrightarrow> i < length al \<Longrightarrow> b64_index al (al ! i) = i"
proof (induction al arbitrary: i)
  case (Cons a al)
  then show ?case by (cases i) (auto simp: b64_index_def)
qed simp

lemma unat_byte_less [simp]: "unat b < 256" for b :: byte
  using unsigned_less [of b] by simp

lemma b64_bounds [simp]:
  fixes a b c :: byte
  shows "unat a div 4 < 64" "unat a mod 4 * 16 + unat b div 16 < 64" "unat a mod 4 * 16 < 64"
    "unat b mod 16 * 4 + unat c div 64 < 64" "unat b mod 16 * 4 < 64" "unat c mod 64 < 64"
  using unat_byte_less [of a] unat_byte_less [of b] unat_byte_less [of c] by linarith+

lemma div_mod_join: "d < m \<Longrightarrow> (x * m + d) div m = x" "d < m \<Longrightarrow> (x * m + d) mod m = d" for d m x :: nat
  by simp_all

lemma unat_byte_parts [simp]: "unat b div 16 < 16" "unat b div 64 < 4" for b :: byte
  using unat_byte_less [of b] by linarith+

lemma b64_joins [simp]:
  fixes a b c :: byte
  shows "unat a div 4 * 4 + (unat a mod 4 * 16 + unat b div 16) div 16 = unat a"
    "unat a div 4 * 4 + unat a mod 4 = unat a"
    "(unat a mod 4 * 16 + unat b div 16) mod 16 * 16 + (unat b mod 16 * 4 + unat c div 64) div 4 = unat b"
    "(unat a mod 4 * 16 + unat b div 16) mod 16 * 16 + unat b mod 16 = unat b"
    "(unat b mod 16 * 4 + unat c div 64) mod 4 * 64 + unat c mod 64 = unat c"
proof -
  have "(unat a mod 4 * 16 + unat b div 16) div 16 = unat a mod 4" "(unat a mod 4 * 16 + unat b div 16) mod 16 = unat b div 16"
    by (rule div_mod_join, simp)+
  moreover have "(unat b mod 16 * 4 + unat c div 64) div 4 = unat b mod 16" "(unat b mod 16 * 4 + unat c div 64) mod 4 = unat c div 64"
    by (rule div_mod_join, simp)+
  ultimately show "unat a div 4 * 4 + (unat a mod 4 * 16 + unat b div 16) div 16 = unat a"
    "unat a div 4 * 4 + unat a mod 4 = unat a"
    "(unat a mod 4 * 16 + unat b div 16) mod 16 * 16 + (unat b mod 16 * 4 + unat c div 64) div 4 = unat b"
    "(unat a mod 4 * 16 + unat b div 16) mod 16 * 16 + unat b mod 16 = unat b"
    "(unat b mod 16 * 4 + unat c div 64) mod 4 * 64 + unat c mod 64 = unat c"
    by (simp_all only: div_mult_mod_eq)
qed

lemma b64_decode_encode:
  assumes "distinct al" "length al = 64" "61 \<notin> set al"
  shows "b64_decode al (b64_encode al xs) = xs"
  using assms
proof (induction al xs rule: b64_encode.induct)
  case (1 al)
  then show ?case by simp
next
  case (2 al a)
  then show ?case by (simp add: Let_def b64_index_nth del: of_nat_add of_nat_mult)
next
  case (3 al a b)
  have "al ! (unat b mod 16 * 4) \<noteq> 61" using 3 by (metis b64_bounds(5) nth_mem)
  with 3 show ?case by (simp add: Let_def b64_index_nth del: of_nat_add of_nat_mult)
next
  case (4 al a b c xs)
  have "al ! (unat b mod 16 * 4 + unat c div 64) \<noteq> 61" "al ! (unat c mod 64) \<noteq> 61"
    using "4.prems" by (metis b64_bounds(4) nth_mem, metis b64_bounds(6) nth_mem)
  with 4 show ?case by (simp add: Let_def b64_index_nth del: of_nat_add of_nat_mult)
qed

lemma b64_length: "length (b64_encode al xs) = (length xs + 2) div 3 * 4"
proof (induction al xs rule: b64_encode.induct)
  case (4 al a b c xs)
  have "(length (a # b # c # xs) + 2) div 3 = Suc ((length xs + 2) div 3)"
    using div_add_self2 [of 3 "length xs + 2"] by (simp add: add.commute)
  with 4 show ?case by simp
qed simp_all

lemma b64_symbols: "length al = 64 \<Longrightarrow> set (b64_encode al xs) \<subseteq> insert 61 (set al)"
  by (induction al xs rule: b64_encode.induct) simp_all

lemma length_json_bytes: "length (json_bytes b) = (case b of None \<Rightarrow> 4 | Some xs \<Rightarrow> (length xs + 2) div 3 * 4 + 2)"
  by (simp add: json_bytes_def b64_length str2bytes_def split: option.split)

lemma json_bytes_one_line [simp]: "10 \<notin> set (json_bytes b)" "13 \<notin> set (json_bytes b)"
  using b64_symbols [of std_alphabet "bval b"] std_alphabet_symbols
  by (auto simp: json_bytes_def str2bytes_def split: option.splits)

lemma json_inverse_unjson: "json_inverse unjson_bytes"
  by (simp add: json_inverse_def json_bytes_def unjson_bytes_def b64_decode_encode distinct_std_alphabet
      std_alphabet_symbols str2bytes_def split: option.split)

section \<open>Random requests (gen.go)\<close>

text \<open>
  \<open>crand k n\<close> is the answer of the k-th read of n bytes from the secure source. A negative length
  panics, and so does the slice expression when the answer was too short for it.
\<close>

definition GenerateSecureRandomString :: "(nat \<Rightarrow> bytes) \<Rightarrow> int \<Rightarrow> string option" where
  "GenerateSecureRandomString crand l =
     (if l < 0 then None
      else case crand (nat l) of
        None \<Rightarrow> Some []
      | Some randomBytes \<Rightarrow>
          let s = b64_encode url_alphabet randomBytes
          in if nat l \<le> length s then Some (bytes2str (take (nat l) s)) else None)"

fun opt_map :: "('a \<Rightarrow> 'b option) \<Rightarrow> 'a list \<Rightarrow> 'b list option" where
  "opt_map f [] = Some []"
| "opt_map f (x # xs) = do { y \<leftarrow> f x; ys \<leftarrow> opt_map f xs; Some (y # ys) }"

definition GenerateSecureRandomStringSlice :: "(nat \<Rightarrow> nat \<Rightarrow> bytes) \<Rightarrow> int \<Rightarrow> int \<Rightarrow> string list option" where
  "GenerateSecureRandomStringSlice crand reqNum l =
     (if reqNum < 0 then None else opt_map (\<lambda>k. GenerateSecureRandomString (crand k) l) [0..<nat reqNum])"

definition GenerateSecureRandomByteSlice :: "(nat \<Rightarrow> bytes) \<Rightarrow> int \<Rightarrow> byte list option" where
  "GenerateSecureRandomByteSlice crand l = do { str \<leftarrow> GenerateSecureRandomString crand l; Some (str2bytes str) }"

definition GenerateSecureRandom2ByteSlice :: "(nat \<Rightarrow> nat \<Rightarrow> bytes) \<Rightarrow> int \<Rightarrow> int \<Rightarrow> byte list list option" where
  "GenerateSecureRandom2ByteSlice crand num l =
     (if num < 0 then None else opt_map (\<lambda>k. GenerateSecureRandomByteSlice (crand k) l) [0..<nat num])"

text \<open>The insecure variant; \<open>rnd i\<close> is the i-th answer of \<open>Intn\<close>, below the length of the character set.\<close>

definition charset :: string where
  "charset = ''abcdefghijklmnopqrstuvwxyzABCDEFGHIJKLMNOPQRSTUVWXYZ0123456789''"

definition GenerateRandomString :: "(nat \<Rightarrow> nat) \<Rightarrow> int \<Rightarrow> string option" where
  "GenerateRandomString rnd l =
     (if l < 0 then None
      else opt_map (\<lambda>i. if rnd i < length charset then Some (charset ! rnd i) else None) [0..<nat l])"

lemma opt_map_Some: "(\<And>x. x \<in> set xs \<Longrightarrow> f x = Some (g x)) \<Longrightarrow> opt_map f xs = Some (map g xs)"
  by (induction xs) simp_all

lemma opt_map_props: "opt_map f xs = Some ys \<Longrightarrow> list_all2 (\<lambda>x y. f x = Some y) xs ys"
  by (induction xs arbitrary: ys) (auto simp: bind_Some_iff)

text \<open>A random string has the length asked for and is one word of one line, whatever the bytes are.\<close>

lemma random_string_props:
  assumes "0 \<le> l" "crand (nat l) = Some bs" "length bs = nat l"
  shows "\<exists>s. GenerateSecureRandomString crand l = Some s \<and> length s = nat l \<and> (\<forall>c \<in> set s. of_char c \<notin> {10, 13, 32 :: byte})"
proof -
  let ?e = "b64_encode url_alphabet bs"
  have l: "nat l \<le> length ?e" by (simp add: b64_length assms(3))
  have "c \<notin> {10, 13, 32}" if "c \<in> set (take (nat l) ?e)" for c
    using that b64_symbols [of url_alphabet bs] url_alphabet_symbols [of c] set_take_subset [of "nat l" ?e] by auto
  then have "of_char c \<notin> {10, 13, 32 :: byte}" if "c \<in> set (bytes2str (take (nat l) ?e))" for c
    using that by (auto simp: bytes2str_def)
  with l assms show ?thesis by (auto simp: GenerateSecureRandomString_def Let_def bytes2str_def)
qed

section \<open>Key files (sign\_sm2)\<close>

text \<open>
  The file system is a map from paths to contents. \<open>log.Fatalf\<close> ends the process; the message says
  where. The formats that are parsed are parameters: PEM, JSON.
\<close>

type_synonym files = "string \<rightharpoonup> byte list"

datatype fatal = Fatalf string

record formats =
  un_json :: "byte list \<Rightarrow> byte list"
  pem_Encode :: "byte list \<Rightarrow> byte list"
  pem_Decode :: "byte list \<Rightarrow> byte list option"

definition WriteKey :: "'f formats_scheme \<Rightarrow> bool \<Rightarrow> bytes \<Rightarrow> string \<Rightarrow> files \<Rightarrow> fatal + files" where
  "WriteKey fm ok k path fs =
     (if ok then Inr (fs(path \<mapsto> pem_Encode fm (bval k))) else Inl (Fatalf ''Failed to write public key to file''))"

text \<open>A file that is not there gives a nil key, one without a PEM block a nil pointer.\<close>

definition ReadKey :: "'f formats_scheme \<Rightarrow> files \<Rightarrow> string \<Rightarrow> bytes option" where
  "ReadKey fm fs path =
     (case fs path of
        None \<Rightarrow> Some None
      | Some d \<Rightarrow> (case pem_Decode fm d of None \<Rightarrow> None | Some k \<Rightarrow> Some (Some k)))"

definition StorePK :: "'f formats_scheme \<Rightarrow> bool \<Rightarrow> ssm2_Signer \<Rightarrow> files \<Rightarrow> fatal + files" where
  "StorePK fm ok s fs = WriteKey fm ok (Pk s) ''E:/MyOwnDoc/Project/GoProject/src/DeltaChain/config/public.pem'' fs"

definition GetPKFromFile :: "'f formats_scheme \<Rightarrow> files \<Rightarrow> bytes option" where
  "GetPKFromFile fm fs = ReadKey fm fs ''E:/MyOwnDoc/Project/GoProject/src/DeltaChain/config/client/public.pem''"

definition StoreSK :: "'f formats_scheme \<Rightarrow> bool \<Rightarrow> ssm2_Signer \<Rightarrow> files \<Rightarrow> fatal + files" where
  "StoreSK fm ok s fs = WriteKey fm ok (Pk s) ''E:/MyOwnDoc/Project/GoProject/src/DeltaChain/config/client/private.pem'' fs"

definition GetSKFromFile :: "'f formats_scheme \<Rightarrow> files \<Rightarrow> bytes option" where
  "GetSKFromFile fm fs = ReadKey fm fs ''E:/MyOwnDoc/Project/GoProject/src/DeltaChain/config/client/private.pem''"

text \<open>The signer that \<open>SignCmd\<close> and \<open>GenFirstRound\<close> make for the client.\<close>

definition client_signer :: "'f formats_scheme \<Rightarrow> files \<Rightarrow> ssm2_Signer option" where
  "client_signer fm fs = do {
     sk \<leftarrow> GetSKFromFile fm fs;
     pk \<leftarrow> GetPKFromFile fm fs;
     Some \<lparr>ID = [], Pk = pk, Sk = sk, Pks = (\<lambda>_. None)\<rparr>
   }"

section \<open>Signed requests in files (gen\_req\_sign.go, gen\_req.go)\<close>

text \<open>
  One pass of the loop of \<open>GenNewReqs\<close>: the random request, its signature (\<open>None\<close> for an error, after
  which the pass is repeated), and whether the writes succeed; a failed write ends the process.
\<close>

record pass =
  p_req :: "byte list"
  p_sign :: "byte list option"
  p_writes :: bool

fun write_reqs :: "pass list \<Rightarrow> nat \<Rightarrow> byte list \<Rightarrow> (fatal + byte list) option" where
  "write_reqs ps 0 out = Some (Inr out)"
| "write_reqs [] (Suc k) out = None"
| "write_reqs (p # ps) (Suc k) out =
     (case p_sign p of
        None \<Rightarrow> write_reqs ps (Suc k) out
      | Some sign \<Rightarrow>
          if p_writes p
          then write_reqs ps k (out @ json_bytes (Some (p_req p)) @ [10] @ json_bytes (Some sign) @ [10])
          else Some (Inl (Fatalf ''Failed to write requests to file'')))"

text \<open>
  \<open>passes\<close> gives the passes from the keys; \<open>created\<close> tells whether the file could be created. The
  result is \<open>None\<close> when a key file has no PEM block, or as long as signing fails.
\<close>

definition GenNewReqs ::
  "'f formats_scheme \<Rightarrow> (bytes \<Rightarrow> bytes \<Rightarrow> int \<Rightarrow> pass list) \<Rightarrow> bool \<Rightarrow> string \<Rightarrow> int \<Rightarrow> int \<Rightarrow> files \<Rightarrow> (fatal + files) option" where
  "GenNewReqs fm passes created keyPath num l fs = do {
     sk \<leftarrow> ReadKey fm fs (keyPath @ ''private.pem'');
     pk \<leftarrow> ReadKey fm fs (keyPath @ ''public.pem'');
     if sk = None \<or> pk = None then Some (Inr fs)
     else if \<not> created then Some (Inl (Fatalf ''Failed to create file''))
     else do {
       r \<leftarrow> write_reqs (passes sk pk l) (nat num) [];
       case r of
         Inl e \<Rightarrow> Some (Inl e)
       | Inr file \<Rightarrow> Some (Inr (fs(''../../config/request/request'' @ Itoa l \<mapsto> file)))
     }
   }"

text \<open>
  \<open>bufio.Scanner\<close>: the next line without its end, and what follows. A line must end within the buffer
  of 64 KiB; a longer one, like the end of the input, gives no token.
\<close>

definition MaxScanTokenSize :: nat where
  "MaxScanTokenSize = 65536"

definition drop_cr :: "byte list \<Rightarrow> byte list" where
  "drop_cr l = (if l \<noteq> [] \<and> last l = 13 then butlast l else l)"

definition Scan :: "byte list \<Rightarrow> (byte list \<times> byte list) option" where
  "Scan input =
     (let line = takeWhile (\<lambda>c. c \<noteq> 10) input
      in if input = [] \<or> MaxScanTokenSize \<le> length line then None
         else Some (drop_cr line, drop (Suc (length line)) input))"

fun read_reqs :: "(byte list \<Rightarrow> byte list) \<Rightarrow> byte list \<Rightarrow> nat \<Rightarrow> fatal + BCRequest list" where
  "read_reqs un input 0 = Inr []"
| "read_reqs un input (Suc k) =
     (case Scan input of
        None \<Rightarrow> Inl (Fatalf ''Failed to read requests to file'')
      | Some (cmd, input) \<Rightarrow>
          (case Scan input of
             None \<Rightarrow> Inl (Fatalf ''Failed to read signature to file'')
           | Some (sign, input) \<Rightarrow>
               (case read_reqs un input k of
                  Inl e \<Rightarrow> Inl e
                | Inr reqs \<Rightarrow> Inr (\<lparr>rq_Id = ''c_0'', rq_Cmd = un cmd, rq_Sign = un sign\<rparr> # reqs))))"

text \<open>A negative count makes the allocation of the result panic.\<close>

definition ReadReq :: "'f formats_scheme \<Rightarrow> files \<Rightarrow> int \<Rightarrow> int \<Rightarrow> (fatal + BCRequest list) option" where
  "ReadReq fm fs num l =
     (if num < 0 then None
      else case (case fs (''../../config/request/request'' @ Itoa l) of
                   Some d \<Rightarrow> Some d
                 | None \<Rightarrow> fs (''./config/request/request'' @ Itoa l)) of
             None \<Rightarrow> Some (Inl (Fatalf ''Failed to open file''))
           | Some d \<Rightarrow> Some (read_reqs (un_json fm) d (nat num)))"

lemma Scan_line:
  assumes "10 \<notin> set l" "13 \<notin> set l" "length l < MaxScanTokenSize"
  shows "Scan (l @ 10 # rest) = Some (l, rest)"
proof -
  have "takeWhile (\<lambda>c. c \<noteq> 10) (l @ 10 # rest) = l" using assms(1) by (simp add: takeWhile_append)
  moreover have "drop_cr l = l" using assms(2) by (metis drop_cr_def last_in_set)
  ultimately show ?thesis using assms(3) by (simp add: Scan_def)
qed

lemma Scan_long: "10 \<notin> set l \<Longrightarrow> MaxScanTokenSize \<le> length l \<Longrightarrow> Scan (l @ 10 # rest) = None"
  by (simp add: Scan_def takeWhile_append)

definition signed_passes :: "pass list \<Rightarrow> (byte list \<times> byte list) list" where
  "signed_passes ps = concat (map (\<lambda>p. case p_sign p of None \<Rightarrow> [] | Some s \<Rightarrow> [(p_req p, s)]) ps)"

definition req_lines :: "(byte list \<times> byte list) list \<Rightarrow> byte list" where
  "req_lines rs = concat (map (\<lambda>(r, s). json_bytes (Some r) @ [10] @ json_bytes (Some s) @ [10]) rs)"

lemma signed_passes_simps [simp]:
  "signed_passes [] = []"
  "signed_passes (p # ps) = (case p_sign p of None \<Rightarrow> [] | Some s \<Rightarrow> [(p_req p, s)]) @ signed_passes ps"
  by (simp_all add: signed_passes_def)

lemma req_lines_simps [simp]:
  "req_lines [] = []"
  "req_lines ((r, s) # rs) = json_bytes (Some r) @ 10 # json_bytes (Some s) @ 10 # req_lines rs"
  by (simp_all add: req_lines_def)

lemma write_reqs_lines:
  "\<forall>p \<in> set ps. p_writes p \<Longrightarrow> write_reqs ps k out =
     (if k \<le> length (signed_passes ps) then Some (Inr (out @ req_lines (take k (signed_passes ps)))) else None)"
proof (induction ps arbitrary: k out)
  case Nil
  then show ?case by (cases k) simp_all
next
  case (Cons p ps)
  then show ?case by (cases k) (auto split: option.splits)
qed

lemma read_reqs_lines:
  assumes "json_inverse un" "\<forall>(r, s) \<in> set rs. length r \<le> 49149 \<and> length s \<le> 49149"
  shows "read_reqs un (req_lines rs) k =
    (if k \<le> length rs then Inr (map (\<lambda>(r, s). \<lparr>rq_Id = ''c_0'', rq_Cmd = r, rq_Sign = s\<rparr>) (take k rs))
     else Inl (Fatalf ''Failed to read requests to file''))"
  using assms(2)
proof (induction rs arbitrary: k)
  case Nil
  then show ?case by (cases k) (simp_all add: Scan_def)
next
  case (Cons rs1 rs)
  obtain r s where rs1: "rs1 = (r, s)" by force
  have len: "length (json_bytes (Some x)) < MaxScanTokenSize" if "length x \<le> 49149" for x
  proof -
    have "(length x + 2) div 3 \<le> 49151 div 3" by (rule div_le_mono) (use that in simp)
    then show ?thesis by (simp add: length_json_bytes MaxScanTokenSize_def)
  qed
  have un: "un (json_bytes (Some x)) = x" for x using assms(1) by (simp add: json_inverse_def)
  show ?case
  proof (cases k)
    case (Suc j)
    with Cons rs1 len [of r] len [of s] show ?thesis by (simp add: Scan_line un)
  qed simp
qed

lemma read_reqs_too_long:
  assumes "49149 < length r"
  shows "read_reqs un (req_lines ((r, s) # rs)) (Suc k) = Inl (Fatalf ''Failed to read requests to file'')"
  using assms by (simp add: Scan_long length_json_bytes MaxScanTokenSize_def)

text \<open>
  C15 The requests that \<open>GenNewReqs\<close> writes are the requests that \<open>ReadReq\<close> reads: the first ones, in
  their order, each with its own signature, however often signing had to be repeated; asking for more
  than were written ends the process. The bound is the longest request whose line the scanner takes.
\<close>

theorem request_file_roundtrip:
  assumes "json_inverse (un_json fm)"
    and keys: "ReadKey fm fs (keyPath @ ''private.pem'') = Some (Some sk)" "ReadKey fm fs (keyPath @ ''public.pem'') = Some (Some pk)"
    and gen: "GenNewReqs fm passes True keyPath n l fs = Some (Inr fs')" "\<forall>p \<in> set (passes (Some sk) (Some pk) l). p_writes p"
    and short: "\<forall>(r, s) \<in> set (signed_passes (passes (Some sk) (Some pk) l)). length r \<le> 49149 \<and> length s \<le> 49149"
    and "0 \<le> m"
  shows "ReadReq fm fs' m l =
    Some (if m \<le> max 0 n
          then Inr (map (\<lambda>(r, s). \<lparr>rq_Id = ''c_0'', rq_Cmd = r, rq_Sign = s\<rparr>) (take (nat m) (signed_passes (passes (Some sk) (Some pk) l))))
          else Inl (Fatalf ''Failed to read requests to file''))"
proof -
  let ?rs = "signed_passes (passes (Some sk) (Some pk) l)"
  from gen keys have n: "nat n \<le> length ?rs" and fs': "fs' (''../../config/request/request'' @ Itoa l) = Some (req_lines (take (nat n) ?rs))"
    by (auto simp: GenNewReqs_def write_reqs_lines bind_Some_iff split: if_splits sum.splits)
  have "\<forall>(r, s) \<in> set (take (nat n) ?rs). length r \<le> 49149 \<and> length s \<le> 49149"
    using short by (meson in_set_takeD)
  from read_reqs_lines [OF assms(1) this, of "nat m"] n fs' \<open>0 \<le> m\<close> show ?thesis
    by (auto simp: ReadReq_def min_def)
qed

definition example_formats :: formats where
  "example_formats = \<lparr>un_json = unjson_bytes, pem_Encode = (\<lambda>k. 45 # k), pem_Decode = (\<lambda>d. case d of [] \<Rightarrow> None | _ # k \<Rightarrow> Some k)\<rparr>"

definition example_key_files :: files where
  "example_key_files = [''k/private.pem'' \<mapsto> [45, 1], ''k/public.pem'' \<mapsto> [45, 2]]"

theorem request_file_roundtrip_witness:
  "\<exists>fs'. GenNewReqs example_formats (\<lambda>sk pk l. [\<lparr>p_req = [7, 8], p_sign = None, p_writes = True\<rparr>, \<lparr>p_req = [9], p_sign = Some [3], p_writes = True\<rparr>])
       True ''k/'' 1 1 example_key_files = Some (Inr fs') \<and>
     ReadReq example_formats fs' 1 1 = Some (Inr [\<lparr>rq_Id = ''c_0'', rq_Cmd = [9], rq_Sign = [3]\<rparr>])"
proof -
  let ?ps = "\<lambda>sk pk l. [\<lparr>p_req = [7, 8], p_sign = None, p_writes = True\<rparr>, \<lparr>p_req = [9], p_sign = Some [3], p_writes = True\<rparr>]"
  have keys: "ReadKey example_formats example_key_files (''k/'' @ ''private.pem'') = Some (Some [1])"
    "ReadKey example_formats example_key_files (''k/'' @ ''public.pem'') = Some (Some [2])"
    by (simp_all add: ReadKey_def example_formats_def example_key_files_def)
  then obtain fs' where gen: "GenNewReqs example_formats ?ps True ''k/'' 1 1 example_key_files = Some (Inr fs')"
    by (simp add: GenNewReqs_def)
  have "json_inverse (un_json example_formats)" by (simp add: example_formats_def json_inverse_unjson)
  from request_file_roundtrip [OF this keys gen, of 1] gen show ?thesis by auto
qed

text \<open>
  The key files: \<open>StoreSK\<close> writes the public key, so the client's secret key read back after it is
  the public key, and \<open>StorePK\<close> writes to another path than \<open>GetPKFromFile\<close> reads, which does not
  notice it. A signer made from the files after both then signs with the public key of the stored one.
\<close>

theorem key_files_lose_secret:
  assumes "\<forall>k. pem_Decode fm (pem_Encode fm k) = Some k" "Pk s = Some pk"
    and "StorePK fm True s fs = Inr fs1" "StoreSK fm True s fs1 = Inr fs2"
  shows "GetSKFromFile fm fs2 = Some (Pk s) \<and> GetPKFromFile fm fs2 = GetPKFromFile fm fs \<and>
    (GetPKFromFile fm fs = Some (Pk s) \<longrightarrow>
       (\<exists>c. client_signer fm fs2 = Some c \<and> ssm2_Sign env c m = Sm2Sign env (Pk s) (Pk s) m))"
  using assms by (auto simp: StorePK_def StoreSK_def WriteKey_def GetSKFromFile_def GetPKFromFile_def ReadKey_def
      client_signer_def ssm2_Sign_def split: option.split)

theorem key_files_lose_secret_witness:
  "\<exists>fs2. StoreSK example_formats True \<lparr>ID = [], Pk = Some [2], Sk = Some [1], Pks = (\<lambda>_. None)\<rparr> (\<lambda>_. None) = Inr fs2 \<and>
     GetSKFromFile example_formats fs2 = Some (Some [2])"
proof -
  let ?s = "\<lparr>ID = [], Pk = Some [2], Sk = Some [1], Pks = (\<lambda>_. None)\<rparr>" and ?p = "''E:/MyOwnDoc/Project/GoProject/src/DeltaChain/config/public.pem''"
  let ?f1 = "[?p \<mapsto> [45, 2]]" and ?q = "''E:/MyOwnDoc/Project/GoProject/src/DeltaChain/config/client/private.pem''"
  have s: "StorePK example_formats True ?s (\<lambda>_. None) = Inr ?f1" "StoreSK example_formats True ?s ?f1 = Inr (?f1(?q \<mapsto> [45, 2]))"
    by (simp_all add: StorePK_def StoreSK_def WriteKey_def example_formats_def)
  have "\<forall>k. pem_Decode example_formats (pem_Encode example_formats k) = Some k" by (simp add: example_formats_def)
  from key_files_lose_secret [OF this _ s, of "[2]"] s(2) show ?thesis
    by (simp add: StoreSK_def WriteKey_def GetSKFromFile_def ReadKey_def example_formats_def)
qed

section \<open>Configuration (config.go)\<close>

record Config =
  cfg_BatchSize :: int
  cfg_Payload :: string

text \<open>
  \<open>un\<close> is what \<open>json.Unmarshal\<close> leaves in the zero configuration and whether it succeeds; the second
  component of the result tells that there was an error. \<open>enc\<close> is \<open>json.MarshalIndent\<close>.
\<close>

definition ReadConfig :: "(byte list \<Rightarrow> Config \<times> bool) \<Rightarrow> files \<Rightarrow> string \<Rightarrow> Config \<times> bool" where
  "ReadConfig un fs filename =
     (case fs filename of
        None \<Rightarrow> (\<lparr>cfg_BatchSize = 0, cfg_Payload = []\<rparr>, True)
      | Some d \<Rightarrow> (let (config, ok) = un d in (config, \<not> ok)))"

definition WriteConfig :: "(Config \<Rightarrow> byte list option) \<Rightarrow> bool \<Rightarrow> files \<Rightarrow> string \<Rightarrow> Config \<Rightarrow> bool \<times> files" where
  "WriteConfig enc ok fs filename config =
     (case enc config of
        None \<Rightarrow> (True, fs)
      | Some d \<Rightarrow> if ok then (False, fs(filename \<mapsto> d)) else (True, fs))"

lemma ReadConfig_WriteConfig:
  assumes "enc c = Some d" "un d = (c, True)" "WriteConfig enc True fs f c = (False, fs')"
  shows "ReadConfig un fs' f = (c, False)"
  using assms by (auto simp: ReadConfig_def WriteConfig_def)

section \<open>Removing directories (file.go)\<close>

text \<open>
  A directory is the list of its entries in the order of their names, in which \<open>filepath.Walk\<close> visits
  them. The walk reads the names of a directory before its function is called on it, so after the
  function has removed a directory, the first of these names cannot be found and ends the walk with an
  error.
\<close>

datatype entry = File_entry | Dir_entry "(string \<times> entry) list"

fun walk_remove :: "(string \<times> entry) list \<Rightarrow> bool \<times> (string \<times> entry) list" where
  "walk_remove [] = (False, [])"
| "walk_remove ((n, File_entry) # es) = walk_remove es"
| "walk_remove ((n, Dir_entry []) # es) = walk_remove es"
| "walk_remove ((n, Dir_entry (_ # _)) # es) = (True, es)"

text \<open>The Boolean is the error; removals themselves succeed. The walk fails on a path that is not there.\<close>

definition RemoveAllFilesAndDirs :: "entry option \<Rightarrow> bool \<times> entry option" where
  "RemoveAllFilesAndDirs d =
     (case d of
        None \<Rightarrow> (True, None)
      | Some File_entry \<Rightarrow> (False, None)
      | Some (Dir_entry es) \<Rightarrow>
          (let (err, rest) = walk_remove es in if err then (True, Some (Dir_entry rest)) else (False, None)))"

lemma walk_remove_flat: "\<forall>(n, e) \<in> set es. e = File_entry \<or> e = Dir_entry [] \<Longrightarrow> walk_remove es = (False, [])"
  by (induction es rule: walk_remove.induct) auto

lemma walk_remove_error: "fst (walk_remove es) \<longleftrightarrow> (\<exists>n x xs. (n, Dir_entry (x # xs)) \<in> set es)"
  by (induction es rule: walk_remove.induct) auto

text \<open>
  A directory is removed exactly when none of its own directories holds anything; otherwise
  \<open>RemoveAllFilesAndDirs\<close> returns an error, and the directory stays, with the entries that come after
  the first directory that is not empty. The directory of the blocks, which holds files, is removed.
\<close>

lemma RemoveAllFilesAndDirs_flat_only:
  "snd (RemoveAllFilesAndDirs (Some (Dir_entry es))) = None \<longleftrightarrow> (\<forall>n xs. (n, Dir_entry xs) \<in> set es \<longrightarrow> xs = [])"
proof -
  have "snd (RemoveAllFilesAndDirs (Some (Dir_entry es))) = None \<longleftrightarrow> \<not> fst (walk_remove es)"
    by (auto simp: RemoveAllFilesAndDirs_def split: prod.split)
  then show ?thesis by (metis walk_remove_error neq_Nil_conv)
qed

end
