(* ===== verification/Cli_Client.thy ===== *)
theory Cli_Client
  imports Complex_Main Dcs_Block Srv_Core
begin

text \<open>
  The client (core/client/client.go) and the scores it prints (common/dcs). A client sends commands to
  the servers, measures the replies, and on an empty line prints and stores what it has measured. The
  lemmas show what a measurement reports, and where the client divides by zero.
\<close>

section \<open>Scores (dcs.go)\<close>

text \<open>
  Floating-point values: the finite ones are real numbers, without rounding; a division by zero gives
  an infinity or no number, as the zeros of this code are positive.
\<close>

datatype float64 = Fin real | PInf | NInf | NaN

fun fdiv :: "float64 \<Rightarrow> float64 \<Rightarrow> float64" where
  "fdiv (Fin x) (Fin y) = (if y \<noteq> 0 then Fin (x / y) else if 0 < x then PInf else if x < 0 then NInf else NaN)"
| "fdiv (Fin x) PInf = Fin 0"
| "fdiv (Fin x) NInf = Fin 0"
| "fdiv PInf (Fin y) = (if 0 \<le> y then PInf else NInf)"
| "fdiv NInf (Fin y) = (if 0 \<le> y then NInf else PInf)"
| "fdiv _ _ = NaN"

fun fpos :: "float64 \<Rightarrow> bool" where
  "fpos (Fin x) \<longleftrightarrow> 0 < x"
| "fpos PInf \<longleftrightarrow> True"
| "fpos _ \<longleftrightarrow> False"

text \<open>\<open>1 - x\<close>, \<open>math.Exp(-x)\<close>, and \<open>math.Log10\<close> of a positive value.\<close>

fun one_minus :: "float64 \<Rightarrow> float64" where
  "one_minus (Fin x) = Fin (1 - x)"
| "one_minus PInf = NInf"
| "one_minus NInf = PInf"
| "one_minus NaN = NaN"

fun exp_neg :: "float64 \<Rightarrow> float64" where
  "exp_neg (Fin x) = Fin (exp (- x))"
| "exp_neg PInf = Fin 0"
| "exp_neg NInf = PInf"
| "exp_neg NaN = NaN"

fun log10_pos :: "float64 \<Rightarrow> float64" where
  "log10_pos (Fin x) = Fin (ln x / ln 10)"
| "log10_pos PInf = PInf"
| "log10_pos _ = NaN"

definition GetDecentralization :: "int \<Rightarrow> float64" where
  "GetDecentralization nodesNum = (if 0 < nodesNum then one_minus (fdiv (Fin 1) (Fin (of_int nodesNum))) else Fin 0)"

definition GetConsistency :: "float64 \<Rightarrow> float64" where
  "GetConsistency latency = (if fpos latency then exp_neg latency else Fin 0)"

definition GetScalability :: "float64 \<Rightarrow> float64" where
  "GetScalability throughput = (if fpos throughput then one_minus (fdiv (Fin 1) (log10_pos throughput)) else Fin 0)"

definition GetDCS :: "int \<Rightarrow> float64 \<Rightarrow> float64 \<Rightarrow> float64 \<times> float64 \<times> float64" where
  "GetDCS nodesNum latency throughput =
     (GetDecentralization nodesNum, GetConsistency latency, GetScalability throughput)"

definition is_score :: "float64 \<Rightarrow> bool" where
  "is_score f \<longleftrightarrow> (\<exists>x. f = Fin x \<and> 0 \<le> x \<and> x \<le> 1)"

lemma log10_bounds: "0 < x \<Longrightarrow> 1 \<le> ln x / ln 10 \<longleftrightarrow> 10 \<le> x" for x :: real
  by (simp add: le_divide_eq)

lemma score_recip: "0 \<le> 1 - 1 / l \<and> 1 - 1 / l \<le> 1 \<and> l \<noteq> 0 \<longleftrightarrow> 1 \<le> l" for l :: real
  by (cases "0 < l"; cases "l = 0") (auto simp: field_simps)

text \<open>
  The scores: decentralisation and consistency lie between 0 and 1 for every measurement;
  scalability does so exactly when the throughput is at least 10 requests in a second or is not
  positive. At one request in a second it is minus infinity, between that and ten it is negative, and
  below one it is above 1.
\<close>

theorem dcs_scores:
  "is_score (GetDecentralization n) \<and> (latency \<noteq> NaN \<longrightarrow> is_score (GetConsistency latency)) \<and>
   (is_score (GetScalability (Fin t)) \<longleftrightarrow> t \<le> 0 \<or> 10 \<le> t) \<and> GetScalability (Fin 1) = NInf \<and>
   (0 < t \<longrightarrow> t < 1 \<longrightarrow> (\<exists>x > 1. GetScalability (Fin t) = Fin x))"
proof -
  have "is_score (GetDecentralization n)" by (auto simp: GetDecentralization_def is_score_def)
  moreover have "is_score (GetConsistency latency)" if "latency \<noteq> NaN"
    using that by (cases latency) (auto simp: GetConsistency_def is_score_def)
  moreover have "is_score (GetScalability (Fin t)) \<longleftrightarrow> t \<le> 0 \<or> 10 \<le> t"
  proof (cases "0 < t")
    case True
    let ?l = "ln t / ln 10"
    have "is_score (GetScalability (Fin t)) \<longleftrightarrow> 0 \<le> 1 - 1 / ?l \<and> 1 - 1 / ?l \<le> 1 \<and> ?l \<noteq> 0"
      using True by (simp add: GetScalability_def is_score_def del: divide_eq_0_iff)
    also have "\<dots> \<longleftrightarrow> 1 \<le> ?l" by (rule score_recip)
    finally show ?thesis using True log10_bounds [OF True] by auto
  qed (simp add: GetScalability_def is_score_def)
  moreover have "GetScalability (Fin 1) = NInf" by (simp add: GetScalability_def)
  moreover have "\<exists>x > 1. GetScalability (Fin t) = Fin x" if "0 < t" "t < 1"
  proof -
    have "ln t / ln 10 < 0" using that by (simp add: divide_neg_pos)
    then show ?thesis using that by (auto simp: GetScalability_def divide_neg_neg divide_pos_neg)
  qed
  ultimately show ?thesis by blast
qed

theorem dcs_scores_witness:
  "is_score (GetConsistency (Fin 2)) \<and> \<not> is_score (GetScalability (Fin 5)) \<and> (\<exists>x > 1. GetScalability (Fin (1 / 2)) = Fin x)"
  using dcs_scores [of 4 "Fin 2" 5] dcs_scores [of 4 "Fin 2" "1 / 2"] by simp

section \<open>The client\<close>

text \<open>
  The logger and the lock are left out; the parts of \<open>handleReply\<close> outside the lock race in the code,
  here a reply is handled as a whole. \<open>cl_Sheet\<close> holds the rows of the spreadsheet as it was saved.
\<close>

record Client =
  cl_ID :: PrivID
  cl_Address :: string
  cl_Port :: string
  SerAddr :: string
  ServerAddr :: "int \<rightharpoonup> string"
  startTime :: int
  endTime :: int
  reqNum :: int
  batchSize :: int
  viewCount :: int
  startView :: int
  endView :: int
  showedView :: int
  cl_nodes :: int

text \<open>\<open>None\<close> is the nil client after a failed key generation.\<close>

definition NewClient :: "unit + bytes \<times> bytes \<Rightarrow> string \<Rightarrow> string \<Rightarrow> Client option" where
  "NewClient keygen addr port =
     (case keygen of
        Inl _ \<Rightarrow> None
      | Inr (sk, pk) \<Rightarrow> Some \<lparr>cl_ID = \<lparr>pid_ID = \<lparr>pid_Name = ''client'', pid_PubKey = pk\<rparr>, Address = None, sid_PrivateKey = sk\<rparr>,
          cl_Address = addr, cl_Port = port, SerAddr = ''127.0.0.1:20000'',
          ServerAddr = [0 \<mapsto> ''20001'', 1 \<mapsto> ''20002'', 2 \<mapsto> ''20003'', 3 \<mapsto> ''20004''],
          startTime = 0, endTime = 0, reqNum = 1, batchSize = 0, viewCount = 0, startView = -1, endView = 0,
          showedView = 0, cl_nodes = 0\<rparr>)"

definition RefreshState :: "Client \<Rightarrow> Client" where
  "RefreshState c = c\<lparr>startTime := 0, endTime := 0, reqNum := 1, batchSize := 0, viewCount := 0, startView := -1\<rparr>"

section \<open>Replies\<close>

text \<open>
  \<open>now\<close> is the time in milliseconds; \<open>dec_view\<close> is the view number that \<open>json.Unmarshal\<close> leaves in an
  empty message, 0 for what it cannot decode. The second component is what is printed: the scores of
  a new view. Indexing the empty payload of a start message panics.
\<close>

definition measured_dcs :: "Client \<Rightarrow> float64 \<times> float64 \<times> float64" where
  "measured_dcs c =
     (let time = of_int (endTime c - startTime c); views = endView c - startView c + 1
      in GetDCS (cl_nodes c) (fdiv (Fin time) (Fin (1000 * of_int views)))
           (fdiv (Fin (of_int (batchSize c * views * 1000))) (Fin time)))"

definition handleReply ::
  "(byte list \<Rightarrow> int) \<Rightarrow> int \<Rightarrow> Client \<Rightarrow> byte list ServerMsg \<Rightarrow> (Client \<times> (float64 \<times> float64 \<times> float64) option) option" where
  "handleReply dec_view now c msg =
     (if SendServer msg = ''start'' then
        (case Payload msg of
           [] \<Rightarrow> None
         | b # _ \<Rightarrow> Some (c\<lparr>startTime := now, endTime := now, cl_nodes := uint b\<rparr>, None))
      else
        let v = dec_view (Payload msg);
            c = c\<lparr>endTime := now, endView := v\<rparr>;
            c = (if startView c = -1 then c\<lparr>startView := v\<rparr> else c)
        in Some (if showedView c < v then (c\<lparr>showedView := v\<rparr>, Some (measured_dcs c)) else (c, None)))"

text \<open>
  \<open>handleConn\<close> on one read of at most 2048 bytes: what cannot be decoded as one message is logged and
  handled all the same, as the message that decoding has left (\<open>dec_msg\<close>), an empty one in most cases.
\<close>

definition handleRead ::
  "(byte list \<Rightarrow> byte list ServerMsg) \<Rightarrow> (byte list \<Rightarrow> int) \<Rightarrow> int \<Rightarrow> Client \<Rightarrow> byte list \<Rightarrow>
   (Client \<times> (float64 \<times> float64 \<times> float64) option) option" where
  "handleRead dec_msg dec_view now c buf = handleReply dec_view now c (dec_msg (take 2048 buf))"

section \<open>Commands\<close>

definition go_div :: "int \<Rightarrow> int \<Rightarrow> int option" where
  "go_div a b = (if b = 0 then None else Some (a sdiv b))"

text \<open>The six numbers that \<open>LogResult\<close> prints and \<open>StoreResult\<close> stores; a division by zero panics.\<close>

definition report :: "Client \<Rightarrow> int list option" where
  "report c = do {
     let time = endTime c - startTime c;
     let views = endView c - startView c + 1;
     throughput \<leftarrow> go_div (reqNum c * 1000) time;
     latency \<leftarrow> go_div time views;
     Some [batchSize c * views, batchSize c, time, views, throughput, latency]
   }"

definition LogResult :: "Client \<Rightarrow> int list option" where
  "LogResult c = report c"

text \<open>
  The spreadsheet library: whether the file is there, whether it can be opened and saved, the number of
  rows of a sheet, if it can be read, and whether a row can be set, given the sheet and the row. The
  result is the row to write and its position, if it is saved.
\<close>

record sheet_lib =
  xl_exists :: bool
  xl_open :: bool
  xl_rows :: "string \<Rightarrow> nat option"
  xl_set :: "string \<Rightarrow> nat \<Rightarrow> bool"
  xl_save :: bool

definition StoreResult :: "sheet_lib \<Rightarrow> Client \<Rightarrow> (string \<times> nat \<times> int list) option option" where
  "StoreResult x c =
     (let sheetName = ''Batchsize'' @ Itoa (batchSize c) in
      if (if xl_exists x then \<not> xl_open x else \<not> xl_set x sheetName 1) then Some None
      else case xl_rows x sheetName of
        None \<Rightarrow> Some None
      | Some rows \<Rightarrow> do {
          row \<leftarrow> report c;
          Some (if xl_set x sheetName (rows + 1) \<and> xl_save x then Some (sheetName, rows + 1, row) else None)
        })"

text \<open>\<open>strings.Split\<close> at single characters, \<open>strings.TrimSpace\<close> and \<open>TrimRight\<close> on ASCII text.\<close>

fun split_at :: "char \<Rightarrow> string \<Rightarrow> string list" where
  "split_at sep [] = [[]]"
| "split_at sep (c # cs) =
     (if c = sep then [] # split_at sep cs else (case split_at sep cs of [] \<Rightarrow> [[c]] | w # ws \<Rightarrow> (c # w) # ws))"

definition TrimRight :: "string \<Rightarrow> char set \<Rightarrow> string" where
  "TrimRight s ends = rev (dropWhile (\<lambda>c. c \<in> ends) (rev s))"

definition TrimSpace :: "string \<Rightarrow> string" where
  "TrimSpace s = (let space = {CHR '' '', CHR 0x09, CHR 0x0A, CHR 0x0B, CHR 0x0C, CHR 0x0D}
     in TrimRight (dropWhile (\<lambda>c. c \<in> space) s) space)"

text \<open>The factors of a command \<open>a\<close>: a word that is not a number counts as its index.\<close>

definition req_factor :: "nat \<times> string \<Rightarrow> int" where
  "req_factor iw = (case Atoi (snd iw) of Some v \<Rightarrow> v | None \<Rightarrow> int (fst iw))"

definition parse_auto :: "Client \<Rightarrow> string list \<Rightarrow> Client" where
  "parse_auto c input =
     (if length input < 4 then c\<lparr>reqNum := 10\<rparr>
      else
        let factors = butlast (tl input);
            c = foldl (\<lambda>c iw. c\<lparr>reqNum := reqNum c * req_factor iw\<rparr>) c (zip [0..<length factors] factors)
        in case Atoi (input ! (length input - 2)) of Some val \<Rightarrow> c\<lparr>batchSize := val\<rparr> | None \<Rightarrow> c)"

text \<open>
  One pass of the loop of \<open>StartClient\<close> on a line of the user: the new state, the bytes sent to the
  server, the report of an empty line with what is stored, and whether the loop ends.
\<close>

record client_out =
  co_sent :: "byte list"
  co_report :: "int list option"
  co_stored :: "(string \<times> nat \<times> int list) option"
  co_quit :: bool

definition client_line :: "sheet_lib \<Rightarrow> Client \<Rightarrow> string \<Rightarrow> (Client \<times> client_out) option" where
  "client_line x c line =
     (let msg = TrimSpace line in
      if length msg \<noteq> 0 then
        let c = c\<lparr>viewCount := 0\<rparr>; sent = str2bytes (msg @ [CHR 0x0A])
        in Some (if hd msg = CHR ''a''
                 then (parse_auto c (split_at (CHR '' '') msg), \<lparr>co_sent = sent, co_report = None, co_stored = None, co_quit = False\<rparr>)
                 else (c, \<lparr>co_sent = sent, co_report = None, co_stored = None, co_quit = (hd msg = CHR ''q'')\<rparr>))
      else do {
        rep \<leftarrow> LogResult c;
        stored \<leftarrow> StoreResult x c;
        Some (RefreshState c, \<lparr>co_sent = [], co_report = Some rep, co_stored = stored, co_quit = False\<rparr>)
      })"

section \<open>What is measured\<close>

definition reply_step :: "(byte list \<Rightarrow> int) \<Rightarrow> Client \<Rightarrow> int \<times> byte list ServerMsg \<Rightarrow> Client option" where
  "reply_step dec_view c tm = map_option fst (handleReply dec_view (fst tm) c (snd tm))"

abbreviation reply_view :: "(byte list \<Rightarrow> int) \<Rightarrow> int \<times> byte list ServerMsg \<Rightarrow> int" where
  "reply_view dec_view tm \<equiv> dec_view (Payload (snd tm))"

lemma reply_step_view:
  assumes "SendServer (snd tm) \<noteq> ''start''"
  shows "reply_step dec_view c tm = Some (c\<lparr>endTime := fst tm, endView := reply_view dec_view tm,
     startView := (if startView c = -1 then reply_view dec_view tm else startView c),
     showedView := max (showedView c) (reply_view dec_view tm)\<rparr>)"
  using assms by (simp add: reply_step_def handleReply_def Let_def max_def)

text \<open>The first view that is not -1, or -1: what a client that waits takes for the start.\<close>

fun first_view :: "int list \<Rightarrow> int" where
  "first_view [] = -1"
| "first_view (v # vs) = (if v = -1 then first_view vs else v)"

lemma replies_run:
  assumes "\<forall>tm \<in> set tms. SendServer (snd tm) \<noteq> ''start''" "tms \<noteq> []"
  shows "run (reply_step dec_view) c tms = Some (c\<lparr>endTime := fst (last tms), endView := reply_view dec_view (last tms),
     startView := (if startView c = -1 then first_view (map (reply_view dec_view) tms) else startView c),
     showedView := Max (insert (showedView c) (reply_view dec_view ` set tms))\<rparr>)"
  using assms
proof (induction tms arbitrary: c)
  case (Cons tm tms)
  note step = reply_step_view [of tm dec_view c]
  show ?case
  proof (cases "tms = []")
    case True
    with Cons.prems step show ?thesis by simp
  next
    case False
    let ?c = "c\<lparr>endTime := fst tm, endView := reply_view dec_view tm, startView := (if startView c = -1 then reply_view dec_view tm else startView c),
       showedView := max (showedView c) (reply_view dec_view tm)\<rparr>"
    have "run (reply_step dec_view) c (tm # tms) = run (reply_step dec_view) ?c tms"
      using Cons.prems step by simp
    also have "\<dots> = Some (?c\<lparr>endTime := fst (last tms), endView := reply_view dec_view (last tms),
       startView := (if startView ?c = -1 then first_view (map (reply_view dec_view) tms) else startView ?c),
       showedView := Max (insert (showedView ?c) (reply_view dec_view ` set tms))\<rparr>)"
      using Cons.prems False by (intro Cons.IH) simp_all
    also have "Max (insert (showedView ?c) (reply_view dec_view ` set tms)) =
        Max (insert (showedView c) (reply_view dec_view ` set (tm # tms)))"
      using False by (simp add: max.assoc)
    finally show ?thesis using False by simp
  qed
qed simp

lemma report_iff: "report c = None \<longleftrightarrow> endTime c = startTime c \<or> endView c + 1 = startView c"
  by (auto simp: report_def go_div_def Let_def)

text \<open>
  C16 A measurement: after any replies, none of them from ''start'', that arrive when the client waits
  for the first one (its start view is -1), it reports the time from the start to the last reply, the
  views from that of the first to that of the last reply, one batch for each of them, the throughput
  and the latency. The first reply is the first one of a view other than -1 (HotStuff-2 sends -1 in its
  view 0, and the client takes it for no view); if there is none, one view is reported. It panics when
  no time has passed or the last view is just before the first one, and so it does on an empty line
  right after a report.
\<close>

theorem client_measures:
  assumes "\<forall>tm \<in> set tms. SendServer (snd tm) \<noteq> ''start''" "tms \<noteq> []" "startView c = -1"
  shows "\<exists>c'. run (reply_step dec_view) c tms = Some c' \<and>
    (let time = fst (last tms) - startTime c;
         views = reply_view dec_view (last tms) - first_view (map (reply_view dec_view) tms) + 1
     in LogResult c' = (if time = 0 \<or> views = 0 then None
          else Some [batchSize c * views, batchSize c, time, views, reqNum c * 1000 sdiv time, time sdiv views])) \<and>
    showedView c' = Max (insert (showedView c) (reply_view dec_view ` set tms)) \<and>
    client_line x (RefreshState c') [] = None"
proof -
  let ?c' = "c\<lparr>endTime := fst (last tms), endView := reply_view dec_view (last tms), startView := first_view (map (reply_view dec_view) tms),
     showedView := Max (insert (showedView c) (reply_view dec_view ` set tms))\<rparr>"
  have "run (reply_step dec_view) c tms = Some ?c'"
    using replies_run [OF assms(1,2), of dec_view c] assms(3) by simp
  moreover have "report (RefreshState ?c') = None" by (simp add: report_iff RefreshState_def)
  ultimately show ?thesis
    by (intro exI [of _ ?c']) (auto simp: LogResult_def report_def go_div_def Let_def client_line_def TrimSpace_def TrimRight_def)
qed

theorem client_measures_witness:
  "\<exists>c c'. NewClient (Inr (None, None)) ''a'' ''p'' = Some c \<and>
     run (reply_step (\<lambda>p. uint (hd p))) c
       [(4, \<lparr>SType = ORDER, SendServer = ''r_0'', ReciServer = ''Client'', Sign = None, Payload = [2]\<rparr>),
        (9, \<lparr>SType = ORDER, SendServer = ''r_1'', ReciServer = ''Client'', Sign = None, Payload = [4]\<rparr>)] = Some c' \<and>
     LogResult c' = Some [0, 0, 9, 3, 111, 3] \<and> showedView c' = 4"
proof -
  obtain c where c: "NewClient (Inr (None, None)) ''a'' ''p'' = Some c" "startView c = -1" "batchSize c = 0" "startTime c = 0" "reqNum c = 1"
    "showedView c = 0"
    by (simp add: NewClient_def)
  let ?tms = "[(4, \<lparr>SType = ORDER, SendServer = ''r_0'', ReciServer = ''Client'', Sign = None, Payload = [2]\<rparr>),
        (9, \<lparr>SType = ORDER, SendServer = ''r_1'', ReciServer = ''Client'', Sign = None, Payload = [4]\<rparr>)] :: (int \<times> byte list ServerMsg) list"
  have "\<forall>tm \<in> set ?tms. SendServer (snd tm) \<noteq> ''start''" "?tms \<noteq> []" by simp_all
  from client_measures [where tms = ?tms and dec_view = "\<lambda>p. uint (hd p)" and c = c, OF this c(2)] obtain c' where
    "run (reply_step (\<lambda>p. uint (hd p))) c ?tms = Some c'" "LogResult c' = Some [0, 0, 9, 3, 1000 sdiv 9, 9 sdiv 3]" "showedView c' = 4"
    using c(3-6) by (auto simp: Let_def)
  with c(1) show ?thesis by auto
qed

end
