(* ===== verification/Cmd_Core.thy ===== *)
theory Cmd_Core
  imports Fac_Core Cli_Requests Cli_Client
begin

text \<open>
  The commands of the simulated network: the dispatchers that read them (cmd/run\_with\_client,
  cmd/run\_without\_client, core/test/bhc\_bcmps.go), a server that joins or leaves, the automatic
  generation of requests (core/factory/gen\_req.go) and the count of the stored requests
  (core/factory/check.go).
\<close>

section \<open>A server that joins (bhc\_bcmps.go)\<close>

text \<open>The new server and a server of the network learn the keys of each other's PBFT signers.\<close>

definition learn_key :: "string \<Rightarrow> bytes \<Rightarrow> Orderer \<Rightarrow> Orderer option" where
  "learn_key name pk = on_pbft (\<lambda>c. Some (c\<lparr>pb_Signer := (pb_Signer c)\<lparr>Pks := (Pks (pb_Signer c))(name \<mapsto> pk)\<rparr>\<rparr>))"

definition signer_key :: "Server \<Rightarrow> bytes option" where
  "signer_key s = do { c \<leftarrow> PBFTConsensus (sv_Orderer s); Some (Pk (pb_Signer c)) }"

fun exchange_keys :: "Server \<Rightarrow> Server list \<Rightarrow> (Server \<times> Server list) option" where
  "exchange_keys new [] = Some (new, [])"
| "exchange_keys new (s # ss) = do {
     k \<leftarrow> signer_key s;
     r \<leftarrow> learn_key (sv_Name s) k (sv_Orderer new);
     let new = new\<lparr>sv_Orderer := r\<rparr>;
     k \<leftarrow> signer_key new;
     r \<leftarrow> learn_key (sv_Name new) k (sv_Orderer s);
     (new, ss) \<leftarrow> exchange_keys new ss;
     Some (new, s\<lparr>sv_Orderer := r\<rparr> # ss)
   }"

text \<open>
  \<open>NewServerJoin\<close> up to its goroutines, like \<open>NewBHServerJoin\<close>: here the signer is one of the
  protocol. Its goroutines are the loops of the new server, \<open>StartNodeJoin\<close> on the servers before it,
  and the replacement of the signers a while later.
\<close>

definition NewServerJoin ::
  "'a env_scheme \<Rightarrow> 'g gen_scheme \<Rightarrow> Server list \<Rightarrow> nat \<Rightarrow> World \<Rightarrow> (Server list \<times> World) option" where
  "NewServerJoin env g servers mp w = do {
     let i = length servers;
     first \<leftarrow> (case servers of [] \<Rightarrow> None | s # _ \<Rightarrow> Some s);
     tSigner \<leftarrow> GenSigners g (ConsType (sv_Orderer first)) 1;
     sg \<leftarrow> (case tSigner of [] \<Rightarrow> None | t # _ \<Rightarrow> Some t);
     res \<leftarrow> NewServer env (gen_keys g i) (client_key1 g) (client_key2 g) (int i) (int i) ''./BCData''
             (ConsType (sv_Orderer first)) NMT_BASIC sg mp;
     case res of
       Inl _ \<Rightarrow> Some (servers, w)
     | Inr s \<Rightarrow> do {
         (s, servers) \<leftarrow> (if ConsType (sv_Orderer first) = CT_PBFT then exchange_keys s servers else Some (s, servers));
         let (s, chans) = introduce g servers s;
         Some (servers @ [go_HandleReq s], w\<lparr>Maps := (Maps w)(mp := chans)\<rparr>)
       }
   }"

section \<open>A server that leaves\<close>

text \<open>
  The first server of the name starts its exit and is taken off the list; the last component is that
  server, whose goroutines go on. Without a parameter nothing happens, not even later.
\<close>

definition OriServerExit :: "'a node_env_scheme \<Rightarrow> Server list \<Rightarrow> string list \<Rightarrow> (Server list \<times> Server option) option" where
  "OriServerExit env servers ids =
     (case ids of
        [] \<Rightarrow> Some (servers, None)
      | i # _ \<Rightarrow>
          (case dropWhile (\<lambda>s. sv_Name s \<noteq> ''r_'' @ i) servers of
             [] \<Rightarrow> Some (servers, None)
           | s # rest \<Rightarrow> do {
               s \<leftarrow> StartNodeExit env s;
               Some (takeWhile (\<lambda>s. sv_Name s \<noteq> ''r_'' @ i) servers @ rest, Some s)
             }))"

text \<open>The replacement of the signers is written out once more for this driver.\<close>

definition cmd_UpdateSigners :: "'g gen_scheme \<Rightarrow> Server list \<Rightarrow> Server list option" where
  "cmd_UpdateSigners g servers = do {
     ts \<leftarrow> gen_tss g (int (length servers)) (vote_threshold (int (length servers)));
     ts \<leftarrow> all_some ts;
     first \<leftarrow> (case servers of [] \<Rightarrow> None | s # _ \<Rightarrow> Some s);
     case ConsType (sv_Orderer first) of
       CT_BASIC \<Rightarrow> put_signers servers ts
     | CT_CHAINED \<Rightarrow> put_signers servers ts
     | CT_HOTSTUFF_2 \<Rightarrow> put_signers servers ts
     | _ \<Rightarrow> Some servers
   }"

section \<open>Automatic requests (gen\_req.go)\<close>

definition auto_params :: "string list \<Rightarrow> int \<times> int \<times> int" where
  "auto_params params =
     (case params of
        a # b # c # _ \<Rightarrow> (let val = (\<lambda>i w. case Atoi w of Some v \<Rightarrow> v | None \<Rightarrow> i) in (val 0 a, val 1 b, val 2 c))
      | _ \<Rightarrow> (1, 128, 128))"

text \<open>The message that tells the client how many nodes there are, in one byte.\<close>

definition start_msg :: "nat \<Rightarrow> byte list ServerMsg" where
  "start_msg n = \<lparr>SType = REQUEST, SendServer = ''start'', ReciServer = [], Sign = None, Payload = [of_nat n]\<rparr>"

definition tell_client :: "'a node_env_scheme \<Rightarrow> Server list \<Rightarrow> World \<Rightarrow> (Server list \<times> World) option" where
  "tell_client env servers w =
     (case servers of
        [] \<Rightarrow> None
      | s # ss \<Rightarrow> do {
          ci \<leftarrow> map_of (Clients s) ''c_0'';
          let (new, wire) = p2p_Send (Dials env) (Conn ci) (ci_Addr ci) (enc_Ser env (start_msg (length servers)) @ [10]) (Wire w);
          let s = (if new then s\<lparr>Clients := AList.update ''c_0'' (ci\<lparr>Conn := True\<rparr>) (Clients s)\<rparr> else s);
          Some (s # ss, w\<lparr>Wire := wire\<rparr>)
        })"

text \<open>
  \<open>AutoGenNewReq\<close> up to its loop, which remains as a job: how often the same batch is still to be
  handed out. A pass of the job is one pass of the endless loop in \<open>GenNewReq\<close>.
\<close>

record job =
  j_left :: nat
  j_reqs :: "BCRequest list"

definition AutoGenNewReq ::
  "'a node_env_scheme \<Rightarrow> 'f formats_scheme \<Rightarrow> files \<Rightarrow> Server list \<Rightarrow> World \<Rightarrow> string list \<Rightarrow>
   (fatal + Server list \<times> World \<times> job) option" where
  "AutoGenNewReq env fm fs servers w params = do {
     let (num, size, len) = auto_params params;
     let servers = map (\<lambda>s. s\<lparr>BatchSize := size\<rparr>) servers;
     reqs \<leftarrow> ReadReq fm fs size len;
     case reqs of
       Inl e \<Rightarrow> Some (Inl e)
     | Inr reqs \<Rightarrow> do {
         (servers, w) \<leftarrow> tell_client env servers w;
         Some (Inr (servers, w, \<lparr>j_left = nat num, j_reqs = reqs\<rparr>))
       }
   }"

definition job_pass :: "Server list \<Rightarrow> job \<Rightarrow> (Server list \<times> job) option" where
  "job_pass servers j =
     (if j_left j = 0 then Some (servers, j)
      else do {
        (found, servers) \<leftarrow> GenNewReq servers (j_reqs j);
        Some (servers, if found then j\<lparr>j_left := j_left j - 1\<rparr> else j)
      })"

section \<open>Counting the stored requests (check.go, gen\_first\_round.go)\<close>

text \<open>
  \<open>cap n\<close> is the capacity of the slice converted from a string of length n, which the language leaves
  open; printing the first ten bytes of the first request of a block needs that much of it.
\<close>

fun count_blocks :: "(nat \<Rightarrow> nat) \<Rightarrow> (string \<rightharpoonup> Block) \<Rightarrow> string \<Rightarrow> nat list \<Rightarrow> int \<Rightarrow> int option" where
  "count_blocks cap files dir [] num = Some num"
| "count_blocks cap files dir (i # is) num = do {
     blk \<leftarrow> files (block_file dir (int i));
     first \<leftarrow> (case bd_Trans (BlkData blk) of [] \<Rightarrow> None | t # _ \<Rightarrow> Some t);
     if 10 \<le> cap (length first) then count_blocks cap files dir is (num + int (length (bd_Trans (BlkData blk)))) else None
   }"

text \<open>\<open>walked dir\<close> are the names that a walk through the directory meets.\<close>

definition CheckBlkInfo :: "(nat \<Rightarrow> nat) \<Rightarrow> (string \<Rightarrow> string list) \<Rightarrow> (string \<rightharpoonup> Block) \<Rightarrow> Server list \<Rightarrow> int option" where
  "CheckBlkInfo cap walked files servers =
     (case servers of
        [] \<Rightarrow> None
      | s # _ \<Rightarrow>
          let dir = ''./BCData/'' @ sv_Name s @ ''/''
          in count_blocks cap files dir [0..<nat (GetBlockHeight (walked dir) + 1)] 0)"

definition ClearBlockInPath :: "Server list \<Rightarrow> string \<Rightarrow> (string \<Rightarrow> entry option) \<Rightarrow> string \<Rightarrow> entry option" where
  "ClearBlockInPath servers path dirs =
     foldl (\<lambda>dirs s. let d = path @ ''/'' @ sv_Name s @ ''/'' in dirs(d := snd (RemoveAllFilesAndDirs (dirs d)))) dirs servers"

section \<open>The dispatchers\<close>

text \<open>
  The state of a dispatcher: the servers and their world, the job it is busy with, the servers that
  have left, what is to happen later (the start of a join, with the list of the servers at that time,
  by its length; the replacement of the signers) and the numbers it has printed.
\<close>

datatype later = Later_join nat | Later_signers

record Driver =
  d_Servers :: "Server list"
  d_World :: World
  d_Job :: job
  d_Gone :: "Server list"
  d_Later :: "later list"
  d_Shown :: "int list"

text \<open>What a dispatcher needs to know: the factory's randomness, the files, the client's signature.\<close>

record driver_env =
  de_gen :: gen
  de_formats :: formats
  de_files :: files
  de_sign :: "byte list \<Rightarrow> byte list"
  de_cap :: "nat \<Rightarrow> nat"
  de_walked :: "string \<Rightarrow> string list"
  de_blocks :: "string \<rightharpoonup> Block"
  de_map :: nat

definition words :: "string \<Rightarrow> string list" where
  "words line = split_at (CHR '' '') (TrimRight line {CHR 0x0D, CHR 0x0A})"

definition show_known :: "Server list \<Rightarrow> int option" where
  "show_known servers = (case servers of _ # s # _ \<Rightarrow> Some (int (length (NodesTable (sv_Manager s)))) | _ \<Rightarrow> None)"

definition cmd_auto :: "'a node_env_scheme \<Rightarrow> driver_env \<Rightarrow> Driver \<Rightarrow> string list \<Rightarrow> (fatal + Driver) option" where
  "cmd_auto env e d params = do {
     r \<leftarrow> AutoGenNewReq env (de_formats e) (de_files e) (d_Servers d) (d_World d) params;
     Some (case r of
       Inl x \<Rightarrow> Inl x
     | Inr (servers, w, j) \<Rightarrow> Inr (d\<lparr>d_Servers := servers, d_World := w, d_Job := j\<rparr>))
   }"

definition cmd_join :: "'a node_env_scheme \<Rightarrow> driver_env \<Rightarrow> Driver \<Rightarrow> Driver option" where
  "cmd_join env e d = do {
     (servers, w) \<leftarrow> NewServerJoin env (de_gen e) (d_Servers d) (de_map e) (d_World d);
     Some (if length servers = length (d_Servers d) then d
           else d\<lparr>d_Servers := servers, d_World := w, d_Later := d_Later d @ [Later_join (length (d_Servers d)), Later_signers]\<rparr>)
   }"

definition cmd_exit :: "'a node_env_scheme \<Rightarrow> Driver \<Rightarrow> string list \<Rightarrow> Driver option" where
  "cmd_exit env d ids = do {
     (servers, gone) \<leftarrow> OriServerExit env (d_Servers d) ids;
     let d = d\<lparr>d_Servers := servers, d_Gone := d_Gone d @ (case gone of None \<Rightarrow> [] | Some s \<Rightarrow> [s])\<rparr>;
     Some (if ids = [] then d else d\<lparr>d_Later := d_Later d @ [Later_signers]\<rparr>)
   }"

definition cmd_push :: "Driver \<Rightarrow> BCRequest list \<Rightarrow> Driver" where
  "cmd_push d reqs = d\<lparr>d_Job := \<lparr>j_left = 1, j_reqs = reqs\<rparr>\<rparr>"

text \<open>
  One line in \<open>handleClient\<close> (rwc.go); the Boolean says that the loop ends. The job of the command
  before has to be finished (\<open>d_Job\<close> with nothing left); the others run while it is not.
\<close>

definition rwc_command :: "'a node_env_scheme \<Rightarrow> driver_env \<Rightarrow> Driver \<Rightarrow> string \<Rightarrow> (fatal + Driver \<times> bool) option" where
  "rwc_command env e d line =
     (let input = words line; cmd = hd input; args = tl input in
      if cmd = ''r'' then Some (Inr (cmd_push d (SignCmd (de_sign e) (StringSlice2TwoDimByteSlice args)), False))
      else if cmd = ''a'' then do { r \<leftarrow> cmd_auto env e d args; Some (case r of Inl x \<Rightarrow> Inl x | Inr d \<Rightarrow> Inr (d, False)) }
      else if cmd = ''c'' then do { n \<leftarrow> show_known (d_Servers d); Some (Inr (d\<lparr>d_Shown := d_Shown d @ [n]\<rparr>, False)) }
      else if cmd = ''b'' then do {
        n \<leftarrow> CheckBlkInfo (de_cap e) (de_walked e) (de_blocks e) (d_Servers d);
        Some (Inr (d\<lparr>d_Shown := d_Shown d @ [n]\<rparr>, False))
      }
      else if cmd = ''j'' then do { d \<leftarrow> cmd_join env e d; Some (Inr (d, False)) }
      else if cmd = ''e'' then do { d \<leftarrow> cmd_exit env d args; Some (Inr (d, False)) }
      else if cmd = ''q'' then do { ss \<leftarrow> StopAll (d_Servers d); Some (Inr (d\<lparr>d_Servers := ss\<rparr>, True)) }
      else Some (Inr (d, False)))"

text \<open>One line in \<open>Start\<close> (bhc\_bcmps.go): only the first word of a request is used, and needed.\<close>

definition start_command :: "'a node_env_scheme \<Rightarrow> driver_env \<Rightarrow> Driver \<Rightarrow> string \<Rightarrow> (fatal + Driver \<times> bool) option" where
  "start_command env e d line =
     (let input = words line in
      if hd input = ''r'' then
        (case tl input of
           [] \<Rightarrow> None
         | w # _ \<Rightarrow> Some (Inr (cmd_push d (SignCmd (de_sign e) [str2bytes w]), False)))
      else rwc_command env e d line)"

definition driver_pass :: "Driver \<Rightarrow> Driver option" where
  "driver_pass d = do { (servers, j) \<leftarrow> job_pass (d_Servers d) (d_Job d); Some (d\<lparr>d_Servers := servers, d_Job := j\<rparr>) }"

text \<open>A later action; a join that no longer finds its server in the list has nothing to do.\<close>

definition run_later :: "'a node_env_scheme \<Rightarrow> driver_env \<Rightarrow> Driver \<Rightarrow> later \<Rightarrow> Driver option" where
  "run_later env e d l =
     (case l of
        Later_signers \<Rightarrow> do { ss \<leftarrow> cmd_UpdateSigners (de_gen e) (d_Servers d); Some (d\<lparr>d_Servers := ss\<rparr>) }
      | Later_join i \<Rightarrow>
          if i < length (d_Servers d) then
            let (s, ss) = StartNodeJoin env (d_Servers d ! i) (take i (d_Servers d))
            in Some (d\<lparr>d_Servers := ss @ s # drop (Suc i) (d_Servers d)\<rparr>)
          else Some d)"

section \<open>The main programs\<close>

definition protocol_of :: "string \<Rightarrow> ConsensusType option" where
  "protocol_of p =
     (if p = ''bh'' then Some CT_BASIC else if p = ''ch'' then Some CT_CHAINED
      else if p = ''h2'' then Some CT_HOTSTUFF_2 else if p = ''pbft'' then Some CT_PBFT else None)"

definition empty_World :: World where
  "empty_World = \<lparr>Maps = (\<lambda>_. []), Queues = (\<lambda>_. []), Wire = [], SignErrors = []\<rparr>"

definition new_Driver :: "Server list \<Rightarrow> World \<Rightarrow> Driver" where
  "new_Driver servers w = \<lparr>d_Servers = servers, d_World = w, d_Job = \<lparr>j_left = 0, j_reqs = []\<rparr>, d_Gone = [], d_Later = [], d_Shown = []\<rparr>"

text \<open>
  The server's part of rwc.go, up to the listening: an unknown protocol is reported, and the basic one
  is used. Making no servers ends with an index out of range.
\<close>

definition rwc_main ::
  "'a env_scheme \<Rightarrow> driver_env \<Rightarrow> string \<Rightarrow> int \<Rightarrow> string \<Rightarrow> (string \<Rightarrow> entry option) \<Rightarrow> (Driver \<times> (string \<Rightarrow> entry option)) option" where
  "rwc_main env e protocol node path dirs =
     (let pro = (case protocol_of protocol of None \<Rightarrow> CT_BASIC | Some ct \<Rightarrow> ct) in
      if node < 0 then None
      else do {
        (servers, w) \<leftarrow> GenServers env (de_gen e) (nat node) path pro 0 empty_World;
        if servers = [] then None else Some (new_Driver servers w, ClearBlockInPath servers path dirs)
      })"

definition bhc_Start ::
  "'a env_scheme \<Rightarrow> driver_env \<Rightarrow> int \<Rightarrow> string \<Rightarrow> ConsensusType \<Rightarrow> (string \<Rightarrow> entry option) \<Rightarrow> (Driver \<times> (string \<Rightarrow> entry option)) option" where
  "bhc_Start env e node path consType dirs =
     (if node < 0 then None
      else do {
        (servers, w) \<leftarrow> GenServers env (de_gen e) (nat node) path consType 0 empty_World;
        let dirs = ClearBlockInPath servers path dirs;
        servers \<leftarrow> GenFirstRound (de_sign e) servers;
        Some (new_Driver servers w, dirs)
      })"

text \<open>rwoc.go: an unknown protocol starts nothing.\<close>

definition rwoc_main ::
  "'a env_scheme \<Rightarrow> driver_env \<Rightarrow> string \<Rightarrow> int \<Rightarrow> string \<Rightarrow> (string \<Rightarrow> entry option) \<Rightarrow> (Driver \<times> (string \<Rightarrow> entry option)) option option" where
  "rwoc_main env e protocol node path dirs =
     (case protocol_of protocol of None \<Rightarrow> None | Some ct \<Rightarrow> Some (bhc_Start env e node path ct dirs))"

end
