(* ===== verification/Sys_Steps.thy ===== *)
theory Sys_Steps
  imports Fac_Props Cmd_Core
begin

text \<open>
  The simulated network as a transition system: the steps of its servers in any order, with nodes
  that join and leave and forged messages, and what no interleaving of them can change. The handlers
  and the expiry of a timer are one step each.
\<close>

section \<open>The steps\<close>

text \<open>
  The servers of the driver's list, those it has taken off the list (their goroutines go on), and the
  channels between them.
\<close>

record System =
  Servers :: "Server list"
  Gone :: "Server list"
  Net :: World

definition all_servers :: "System \<Rightarrow> Server list" where
  "all_servers S = Servers S @ Gone S"

definition with_servers :: "System \<Rightarrow> Server list \<Rightarrow> System" where
  "with_servers S ss = S\<lparr>Servers := take (length (Servers S)) ss, Gone := drop (length (Servers S)) ss\<rparr>"

text \<open>Several servers are replaced, by index.\<close>

definition put_servers :: "Server list \<Rightarrow> nat list \<Rightarrow> Server list \<Rightarrow> Server list" where
  "put_servers ss js ts = foldl (\<lambda>ss (j, t). ss[j := t]) ss (zip js ts)"

text \<open>
  A server receives the first message of its channel, sends the first message of its orderer, runs
  one of its spawned sends, handles a batch, sees a timer expire (as one step) or runs a goroutine of
  its core; the driver hands requests to a leader, lets a new server in (in one of two ways), has one
  leave, replaces the signers and stops all servers on its list. A join starts in a goroutine of its
  own, which reads a slice that the driver's list shares: it may find any of the other servers there.
  Anybody can put any bytes on a channel. A step that panics or blocks is no step. The indices of
  servers that are not on the list any more follow those of the list.
\<close>

datatype sys_label =
    Receive nat int
  | Drain nat
  | RunSpawned nat nat
  | Batch nat int
  | ViewOut nat
  | EnterOut nat
  | CoreTask nat nat int
  | Push "BCRequest list"
  | NewServerJoins nat
  | NewBHServerJoins nat
  | StartJoin nat "nat list"
  | ServerExits int "string list"
  | NewSigners
  | StopServers
  | Forge string "byte list"

text \<open>A step of one server, in its world.\<close>

inductive sv_step :: "'a node_env_scheme \<Rightarrow> Server \<times> World \<Rightarrow> sys_label \<Rightarrow> Server \<times> World \<Rightarrow> bool" for env where
  receive: "Address (ServerID s) = Some a \<Longrightarrow> Queues w a = b # q \<Longrightarrow>
    RouteServerMsg (env\<lparr>Clock := now\<rparr>) s b (w\<lparr>Queues := (Queues w)(a := q)\<rparr>) = Some (s', w') \<Longrightarrow>
    sv_step env (s, w) (Receive i now) (s', w')"
| drain: "drain_one env s w = Some (s', w') \<Longrightarrow> sv_step env (s, w) (Drain i) (s', w')"
| spawned: "k < length (Sends s) \<Longrightarrow>
    sv_SendMsg env (s\<lparr>Sends := take k (Sends s) @ drop (Suc k) (Sends s)\<rparr>) (Sends s ! k) w = Some (s', w') \<Longrightarrow>
    sv_step env (s, w) (RunSpawned i k) (s', w')"
| batch: "sv_HandleReq (env\<lparr>Clock := now\<rparr>) s = Some s' \<Longrightarrow> sv_step env (s, w) (Batch i now) (s', w)"
| view_out: "ord_step env (sv_Orderer s) OTimeout = Some r \<Longrightarrow> sv_step env (s, w) (ViewOut i) (s\<lparr>sv_Orderer := r\<rparr>, w)"
| enter_out: "ord_step env (sv_Orderer s) OEnterTimeout = Some r \<Longrightarrow> sv_step env (s, w) (EnterOut i) (s\<lparr>sv_Orderer := r\<rparr>, w)"
| core_task: "ord_step env (sv_Orderer s) (OTask k now) = Some r \<Longrightarrow> sv_step env (s, w) (CoreTask i k now) (s\<lparr>sv_Orderer := r\<rparr>, w)"

declare ord_step.simps [simp del]

inductive_cases sv_stepE: "sv_step env sw l tw"

fun who :: "sys_label \<Rightarrow> nat option" where
  "who (Receive i now) = Some i"
| "who (Drain i) = Some i"
| "who (RunSpawned i k) = Some i"
| "who (Batch i now) = Some i"
| "who (ViewOut i) = Some i"
| "who (EnterOut i) = Some i"
| "who (CoreTask i k now) = Some i"
| "who _ = None"

inductive sys_step :: "'a node_env_scheme \<Rightarrow> 'g gen_scheme \<Rightarrow> System \<Rightarrow> sys_label \<Rightarrow> System \<Rightarrow> bool" for env g where
  server: "who l = Some i \<Longrightarrow> i < length (all_servers S) \<Longrightarrow> sv_step env (all_servers S ! i, Net S) l (s', w') \<Longrightarrow>
    sys_step env g S l (with_servers S ((all_servers S)[i := s'])\<lparr>Net := w'\<rparr>)"
| push: "GenNewReq (Servers S) reqs = Some (found, ss) \<Longrightarrow> sys_step env g S (Push reqs) (S\<lparr>Servers := ss\<rparr>)"
| new_server: "NewServerJoin env g (Servers S) mp (Net S) = Some (ss, w') \<Longrightarrow>
    sys_step env g S (NewServerJoins mp) (S\<lparr>Servers := ss, Net := w'\<rparr>)"
| new_bh_server: "NewBHServerJoin env g (Servers S) mp (Net S) = Some (ss, w') \<Longrightarrow>
    sys_step env g S (NewBHServerJoins mp) (S\<lparr>Servers := ss, Net := w'\<rparr>)"
| start_join: "i < length (all_servers S) \<Longrightarrow> distinct js \<Longrightarrow> i \<notin> set js \<Longrightarrow> (\<forall>j\<in>set js. j < length (all_servers S)) \<Longrightarrow>
    StartNodeJoin env (all_servers S ! i) (map (\<lambda>j. all_servers S ! j) js) = (s', ts) \<Longrightarrow>
    sys_step env g S (StartJoin i js) (with_servers S (put_servers ((all_servers S)[i := s']) js ts))"
| exits: "OriServerExit (env\<lparr>Clock := now\<rparr>) (Servers S) ids = Some (ss, gone) \<Longrightarrow>
    sys_step env g S (ServerExits now ids) (S\<lparr>Servers := ss, Gone := Gone S @ (case gone of None \<Rightarrow> [] | Some s \<Rightarrow> [s])\<rparr>)"
| new_signers: "UpdateSigners g (Servers S) = Some ss \<Longrightarrow> sys_step env g S NewSigners (S\<lparr>Servers := ss\<rparr>)"
| stop_servers: "StopAll (Servers S) = Some ss \<Longrightarrow> sys_step env g S StopServers (S\<lparr>Servers := ss\<rparr>)"
| forge: "sys_step env g S (Forge a b) (S\<lparr>Net := (Net S)\<lparr>Queues := (Queues (Net S))(a := Queues (Net S) a @ [b])\<rparr>\<rparr>)"

inductive_cases sys_stepE: "sys_step env g S l T"

inductive sys_run :: "'a node_env_scheme \<Rightarrow> 'g gen_scheme \<Rightarrow> System \<Rightarrow> sys_label list \<Rightarrow> System \<Rightarrow> bool" for env g where
  stop: "sys_run env g S [] S"
| step: "sys_step env g S l T \<Longrightarrow> sys_run env g T ls U \<Longrightarrow> sys_run env g S (l # ls) U"

inductive_simps sys_run_simps [simp]: "sys_run env g S [] T" "sys_run env g S (l # ls) T"

section \<open>What a server keeps\<close>

abbreviation known :: "Server \<Rightarrow> string list" where
  "known s \<equiv> map fst (NodesTable (sv_Manager s))"

text \<open>From \<open>s\<close> to \<open>t\<close>: the identity, the type of the orderer, distinct names, and the node's own entry.\<close>

definition keeps :: "Server \<Rightarrow> Server \<Rightarrow> bool" where
  "keeps s t \<longleftrightarrow> ServerID t = ServerID s \<and> (\<forall>ct. ord_wf ct (sv_Orderer s) \<longrightarrow> ord_wf ct (sv_Orderer t)) \<and>
     (distinct (known s) \<longrightarrow> distinct (known t)) \<and> (sv_Name s \<in> set (known s) \<longrightarrow> sv_Name s \<in> set (known t))"

lemma keeps_refl [simp]: "keeps s s"
  by (simp add: keeps_def)

lemma keeps_trans: "keeps s t \<Longrightarrow> keeps t u \<Longrightarrow> keeps s u"
  by (simp add: keeps_def)

text \<open>Steps that change only the orderer, and fields that play no part.\<close>

lemma keeps_orderer: "(\<And>ct. ord_wf ct (sv_Orderer s) \<Longrightarrow> ord_wf ct r) \<Longrightarrow> keeps s (s\<lparr>sv_Orderer := r\<rparr>)"
  by (simp add: keeps_def)

lemma keeps_upd [simp]:
  "keeps s (t\<lparr>Requests := rs\<rparr>) = keeps s t" "keeps s (t\<lparr>Workers := k\<rparr>) = keeps s t" "keeps s (t\<lparr>Sends := ms\<rparr>) = keeps s t"
  "keeps s (t\<lparr>Clients := cs\<rparr>) = keeps s t" "keeps (s\<lparr>Requests := rs\<rparr>) t = keeps s t" "keeps (s\<lparr>Sends := ms\<rparr>) t = keeps s t"
  by (simp_all add: keeps_def)

lemma keeps_manager: "NodesTable nm = NodesTable (sv_Manager t) \<Longrightarrow> keeps s (t\<lparr>sv_Manager := nm\<rparr>) = keeps s t"
  by (simp add: keeps_def)

lemma SendMsg_keeps: "sv_SendMsg env s m w = Some (t, w') \<Longrightarrow> keeps s t"
  by (auto simp: sv_SendMsg_def Let_def bind_Some_iff case_prod_beta split: option.splits if_splits)

lemma flag_wf [simp]: "ord_wf ct (r\<lparr>ReqFlagChan := c\<rparr>) = ord_wf ct r"
  by (simp add: ord_wf_def)

lemma handle_batch_keeps: "handle_batch env s = Some t \<Longrightarrow> keeps s t"
  by (auto simp: handle_batch_def bind_Some_iff intro!: keeps_orderer intro: ord_Handle_wf(2) split: if_splits)

lemma HandleReq_keeps: "sv_HandleReq env s = Some t \<Longrightarrow> keeps s t"
proof -
  assume "sv_HandleReq env s = Some t"
  then consider "t = s" | u fl k where "handle_batch env (s\<lparr>sv_Orderer := (sv_Orderer s)\<lparr>ReqFlagChan := fl\<rparr>\<rparr>) = Some u" "t = u \<or> t = u\<lparr>Workers := k\<rparr>"
    by (auto simp: sv_HandleReq_def bind_Some_iff split: nat.splits option.splits list.splits if_splits)
  then show ?thesis
  proof cases
    case 2
    have "keeps s (s\<lparr>sv_Orderer := (sv_Orderer s)\<lparr>ReqFlagChan := fl\<rparr>\<rparr>)" by (rule keeps_orderer) simp
    from keeps_trans [OF this handle_batch_keeps [OF 2(1)]] 2(2) show ?thesis by auto
  qed simp
qed

lemma ValidateAndHandleReq_keeps: "ValidateAndHandleReq env s p = Some t \<Longrightarrow> keeps s t"
  by (auto simp: ValidateAndHandleReq_def bind_Some_iff Let_def intro!: keeps_orderer [of "s\<lparr>Requests := _\<rparr>", simplified]
      intro: ord_Handle_wf(2) split: if_splits)

lemma SubmitMsg2Consensus_keeps: "SubmitMsg2Consensus env s p = Some t \<Longrightarrow> keeps s t"
  by (auto simp: SubmitMsg2Consensus_def bind_Some_iff intro!: keeps_orderer intro: ord_Handle_wf(1))

lemma StopOrderer_keeps: "StopOrderer s = Some t \<Longrightarrow> keeps s t"
  by (auto simp: StopOrderer_def bind_Some_iff intro!: keeps_orderer intro: ord_Stop_wf)

lemma ResetState_wf: "ResetState env r = Some t \<Longrightarrow> ord_wf ct r \<Longrightarrow> ord_wf ct t"
  by (auto simp: ResetState_def bind_Some_iff dest: ClearCurrentRound_wf)

lemma go_HandleReq_sel [simp]: "sv_Orderer (go_HandleReq s) = sv_Orderer s" "sv_Manager (go_HandleReq s) = sv_Manager s"
  "ServerID (go_HandleReq s) = ServerID s"
  by (simp_all add: go_HandleReq_def)

lemma RestartOrderer_keeps:
  assumes "RestartOrderer env s = Some t"
  shows "keeps s t"
proof -
  from assms obtain r r' where r: "ResetState env (sv_Orderer s) = Some r" "RestartCons env r = Some r'"
    "t = go_HandleReq (s\<lparr>sv_Orderer := r\<rparr>)\<lparr>sv_Orderer := r'\<rparr>"
    by (auto simp: RestartOrderer_def Let_def bind_Some_iff simp del: go_HandleReq_def)
  have "ord_wf ct r'" if "ord_wf ct (sv_Orderer s)" for ct
    by (rule RestartCons_wf [OF r(2) ResetState_wf [OF r(1) that]])
  then show ?thesis by (simp add: keeps_def r(3))
qed

lemma UpdateNewNodeInfo_names:
  "distinct (map fst (NodesTable nm)) \<Longrightarrow> distinct (map fst (NodesTable (snd (UpdateNewNodeInfo h nm))))"
  by (simp add: UpdateNewNodeInfo_def Let_def distinct_update distinct_delete)

lemma UpdateNewNodeInfo_others:
  "x \<noteq> ni_Name (NewNode nm) \<Longrightarrow> x \<in> fst ` set (NodesTable nm) \<Longrightarrow> x \<in> fst ` set (NodesTable (snd (UpdateNewNodeInfo h nm)))"
  by (simp add: UpdateNewNodeInfo_def Let_def dom_update) (auto simp: delete_keys simp flip: set_map)

lemma UpdateNodeInfo_keeps:
  assumes "UpdateNodeInfo env s k w = Some (t, w')"
  shows "keeps s t"
proof (cases "sv_Name s \<noteq> ni_Name (NewNode (sv_Manager s))")
  case True
  define nm where "nm = snd (UpdateNewNodeInfo (Maps w) (sv_Manager s))"
  have tab: "distinct (known s) \<longrightarrow> distinct (map fst (NodesTable nm))"
    "sv_Name s \<in> set (known s) \<longrightarrow> sv_Name s \<in> set (map fst (NodesTable nm))"
    using True UpdateNewNodeInfo_names [of "sv_Manager s"] UpdateNewNodeInfo_others [of "sv_Name s" "sv_Manager s"]
    by (simp_all add: nm_def)
  from assms True obtain r where r: "ord_UpdateNodesNum (sv_Orderer s) (int (length (NodesTable nm))) = Some r"
    "t = s\<lparr>sv_Orderer := r, sv_Manager := ResetNodeManager nm\<rparr>"
    by (auto simp: UpdateNodeInfo_def case_prod_beta nm_def [symmetric] bind_Some_iff Let_def)
  then have "ord_wf ct (sv_Orderer s) \<Longrightarrow> ord_wf ct r" for ct by (auto simp: ord_UpdateNodesNum_def dest: on_core_wf)
  with tab r(2) show ?thesis by (simp add: keeps_def ResetNodeManager_def)
next
  case False
  with assms obtain r1 r m where "ord_UpdateNodesNum (sv_Orderer s) (int (length (NodesTable (sv_Manager s)))) = Some r1"
    "ord_SyncInfo r1 m (GetLeaderFromSyncMsgs (map_order env) (sv_Manager s) (SyncMsgs (sv_Manager s))) = Some r"
    "t = s\<lparr>sv_Orderer := r, sv_Manager := ResetNodeManager (sv_Manager s)\<rparr>"
    by (auto simp: UpdateNodeInfo_def bind_Some_iff Let_def)
  then show ?thesis by (auto simp: keeps_def ResetNodeManager_def ord_UpdateNodesNum_def ord_SyncInfo_def dest!: on_core_wf)
qed

lemma sv_JoinApply_keeps: "sv_JoinApply env s m w = Some (t, w') \<Longrightarrow> keeps s t"
proof -
  assume a: "sv_JoinApply env s m w = Some (t, w')"
  then obtain u ret v x where u: "StopOrderer s = Some u" "UpdateNodeInfo env (u\<lparr>sv_Manager := snd (HandleJoin (sv_Manager u) m)\<rparr>) (-1) w = Some (v, x)"
    "t = sv_go_SendMsg v (mgmt_msg env v ret)"
    by (auto simp: sv_JoinApply_def case_prod_beta bind_Some_iff Let_def)
  have "keeps s (u\<lparr>sv_Manager := snd (HandleJoin (sv_Manager u) m)\<rparr>)"
    using StopOrderer_keeps [OF u(1)] by (simp add: keeps_manager HandleJoin_def Let_def)
  from keeps_trans [OF this UpdateNodeInfo_keeps [OF u(2)]] u(3) show ?thesis by (simp add: sv_go_SendMsg_def)
qed

lemma sv_JoinSync_keeps: "sv_JoinSync env s m w = Some (t, w') \<Longrightarrow> keeps s t"
proof -
  assume a: "sv_JoinSync env s m w = Some (t, w')"
  then obtain k ret nm where h: "HandleSync (sv_Manager s) m = Some ((k, ret), nm)" by (auto simp: sv_JoinSync_def bind_Some_iff)
  with HandleSync_eq [of "sv_Manager s" m] have nt: "NodesTable nm = NodesTable (sv_Manager s)" by (auto split: if_splits)
  then have k1: "keeps s (s\<lparr>sv_Manager := nm\<rparr>)" by (simp add: keeps_manager)
  from a h consider "t = s\<lparr>sv_Manager := nm\<rparr>" | v x msg where "UpdateNodeInfo env (s\<lparr>sv_Manager := nm\<rparr>) k w = Some (v, x)" "t = sv_go_SendMsg v msg"
    by (auto simp: sv_JoinSync_def bind_Some_iff Let_def split: option.splits if_splits)
  then show ?thesis using k1 keeps_trans [OF k1 UpdateNodeInfo_keeps] by cases (auto simp: sv_go_SendMsg_def)
qed

lemma sv_JoinRestart_keeps: "sv_JoinRestart env s w = Some (t, w') \<Longrightarrow> keeps s t"
proof -
  assume "sv_JoinRestart env s w = Some (t, w')"
  then obtain u where u: "RestartOrderer env s = Some u" "t = u \<or> (\<exists>r. ord_FixLeader env (sv_Orderer u) = Some r \<and> t = u\<lparr>sv_Orderer := r\<rparr>)"
    by (auto simp: sv_JoinRestart_def bind_Some_iff split: if_splits)
  have "keeps u t" using u(2) by (auto intro!: keeps_orderer intro: ord_FixLeader_wf)
  with RestartOrderer_keeps [OF u(1)] show ?thesis by (rule keeps_trans)
qed

lemma sv_ExitApply_keeps: "sv_ExitApply env s m w = Some (t, w') \<Longrightarrow> keeps s t"
proof -
  assume a: "sv_ExitApply env s m w = Some (t, w')"
  then obtain u nm v x msg where u: "StopOrderer s = Some u" "nm = snd (HandleExit (Maps w) (sv_Manager u) m)"
    "sv_SendMsg env (u\<lparr>sv_Manager := nm\<rparr>) msg w = Some (v, x)" "UpdateNodeInfo env v (-1) x = Some (t, w')"
    by (auto simp: sv_ExitApply_def case_prod_beta bind_Some_iff Let_def)
  have "keeps s (u\<lparr>sv_Manager := nm\<rparr>)" using StopOrderer_keeps [OF u(1)] by (simp add: u(2) keeps_manager HandleExit_def Let_def)
  from keeps_trans [OF this SendMsg_keeps [OF u(3)]] UpdateNodeInfo_keeps [OF u(4)] show ?thesis by (rule keeps_trans)
qed

lemma sv_ExitAgree_keeps: "sv_ExitAgree env s m w = Some (t, w') \<Longrightarrow> keeps s t"
  by (auto simp: sv_ExitAgree_def HandleAgree_def Let_def keeps_manager sv_go_SendMsg_def split: option.splits if_splits)

lemma sv_ExitRestart_keeps: "sv_ExitRestart env s m w = Some (t, w') \<Longrightarrow> keeps s t"
proof -
  assume "sv_ExitRestart env s m w = Some (t, w')"
  then obtain u where u: "RestartOrderer env s = Some u" "t = u \<or> (\<exists>r. ord_RefreshLeader (sv_Orderer u) = Some r \<and>
      (t = u\<lparr>sv_Orderer := r\<rparr> \<or> (\<exists>q. ord_InitLeader env r = Some q \<and> t = u\<lparr>sv_Orderer := q\<rparr>)))"
    by (auto simp: sv_ExitRestart_def bind_Some_iff Let_def split: if_splits)
  have "keeps u t" using u(2)
    by (auto simp: ord_RefreshLeader_def ord_InitLeader_def intro!: keeps_orderer intro: on_core_wf)
  with RestartOrderer_keeps [OF u(1)] show ?thesis by (rule keeps_trans)
qed

lemmas mgmt_keeps = sv_JoinApply_keeps sv_JoinSync_keeps sv_JoinRestart_keeps sv_ExitApply_keeps sv_ExitAgree_keeps sv_ExitRestart_keeps

lemma RouteServerMsg_keeps: "RouteServerMsg env s b w = Some (t, w') \<Longrightarrow> keeps s t"
  by (auto simp: RouteServerMsg_def Let_def bind_Some_iff SubmitMsg2NodeManager_def HandleNodeManagerMsg_def
      split: option.splits SMsgType.splits if_splits
      dest: ValidateAndHandleReq_keeps SubmitMsg2Consensus_keeps mgmt_keeps)

lemma ord_step_keeps: "ord_step env (sv_Orderer s) e = Some r \<Longrightarrow> keeps s (s\<lparr>sv_Orderer := r\<rparr>)"
  by (intro keeps_orderer) (rule ord_step_wf)

lemma as_sent_keeps: "take_send env (sv_Orderer s) = Some (m, r) \<Longrightarrow> keeps s (s\<lparr>sv_Orderer := r\<rparr>)"
  by (intro keeps_orderer) (auto simp: take_send_def ord_wf_def split: ConsensusType.splits option.splits list.splits)

lemma drain_one_keeps: "drain_one env s w = Some (t, w') \<Longrightarrow> keeps s t"
  by (auto simp: drain_one_def split: option.splits intro: keeps_trans [OF as_sent_keeps SendMsg_keeps])

lemma exit_each_keeps: "exit_each env s nks = Some t \<Longrightarrow> keeps s t"
proof (induction env s nks rule: exit_each.induct)
  case (2 env s nk nks)
  show ?case
  proof (cases "nk_Name nk = sv_Name s")
    case True
    with "2.prems" obtain u where u: "StopOrderer s = Some u" "exit_each env u nks = Some t" by (auto simp: bind_Some_iff)
    from keeps_trans [OF StopOrderer_keeps [OF u(1)] "2.IH"(1) [OF True u(1) u(2)]] show ?thesis .
  next
    case False
    with "2.prems" have "keeps (sv_go_SendMsg s (mgmt_msg env s (exit_apply (Clock env) s nk))) t" by (intro "2.IH"(2)) simp_all
    then show ?thesis by (simp add: sv_go_SendMsg_def)
  qed
qed simp

lemma StartNodeExit_keeps:
  assumes "StartNodeExit env s = Some t"
  shows "keeps s t"
proof -
  let ?s = "s\<lparr>sv_Manager := (sv_Manager s)\<lparr>mg_Mode := NM_EXIT\<rparr>\<rparr>"
  from assms consider "t = s" | u where "exit_each env ?s (map snd (NodesTable (sv_Manager s))) = Some u"
      "t = u\<lparr>sv_Manager := (sv_Manager u)\<lparr>mg_State := NM_APPLY\<rparr>\<rparr>"
    by (auto simp: StartNodeExit_def StartBCNodeExit_def Let_def bind_Some_iff split: if_splits)
  then show ?thesis
  proof cases
    case 2
    have "keeps s ?s" by (simp add: keeps_manager)
    from keeps_trans [OF this exit_each_keeps [OF 2(1)]] show ?thesis by (simp add: 2(2) keeps_manager)
  qed simp
qed

text \<open>Whatever a server receives, sends or runs.\<close>

lemma sv_step_keeps: "sv_step env (s, w) l (t, w') \<Longrightarrow> keeps s t"
proof (erule sv_stepE)
  fix k sa sb wa wb
  assume "(s, w) = (sa, wa)" "(t, w') = (sb, wb)"
    and "sv_SendMsg env (sa\<lparr>Sends := take k (Sends sa) @ drop (Suc k) (Sends sa)\<rparr>) (Sends sa ! k) wa = Some (sb, wb)"
  then show ?thesis by (auto dest!: SendMsg_keeps)
qed (auto simp del: ord_step.simps dest: RouteServerMsg_keeps drain_one_keeps HandleReq_keeps ord_step_keeps)

section \<open>The steps of the driver\<close>

text \<open>Every server is named after its index, is well typed, and has its own entry among distinct ones.\<close>

definition sv_ok :: "ConsensusType \<Rightarrow> nat \<Rightarrow> Server \<Rightarrow> bool" where
  "sv_ok ct i s \<longleftrightarrow> sv_Name s = node_name (int i) \<and> ord_wf ct (sv_Orderer s) \<and> distinct (known s) \<and> sv_Name s \<in> set (known s)"

definition all_ok :: "ConsensusType \<Rightarrow> Server list \<Rightarrow> bool" where
  "all_ok ct ss \<longleftrightarrow> (\<forall>i < length ss. sv_ok ct i (ss ! i))"

lemma sv_ok_keeps: "sv_ok ct i s \<Longrightarrow> keeps s t \<Longrightarrow> sv_ok ct i t"
  by (auto simp: sv_ok_def keeps_def simp flip: set_map)

lemma all_ok_update: "all_ok ct ss \<Longrightarrow> keeps (ss ! i) t \<Longrightarrow> all_ok ct (ss[i := t])"
  by (cases "i < length ss") (auto simp: all_ok_def nth_list_update intro: sv_ok_keeps)

lemma all_ok_map2: "all_ok ct ss \<Longrightarrow> list_all2 keeps ss ts \<Longrightarrow> all_ok ct ts"
  by (auto simp: all_ok_def list_all2_conv_all_nth intro: sv_ok_keeps)

lemma send_flag_keeps: "send_flag s = Some t \<Longrightarrow> keeps s t"
  by (auto simp: send_flag_def intro!: keeps_orderer split: option.splits list.splits)

lemma push_requests_keeps: "push_requests ss reqs = Some (b, ts) \<Longrightarrow> list_all2 keeps ss ts"
proof (induction ss arbitrary: b ts)
  case (Cons s ss)
  then consider t where "send_flag (s\<lparr>Requests := Requests s @ reqs\<rparr>) = Some t" "ts = t # ss"
    | c us where "push_requests ss reqs = Some (c, us)" "ts = s # us"
    by (auto simp: bind_Some_iff split: if_splits)
  then show ?case
  proof cases
    case 1
    with send_flag_keeps [OF 1(1)] show ?thesis by (simp add: list_all2_refl)
  qed (use Cons.IH in auto)
qed simp

lemma GenNewReq_keeps: "GenNewReq ss reqs = Some (b, ts) \<Longrightarrow> list_all2 keeps ss ts"
  by (auto simp: GenNewReq_def list_all2_refl intro: push_requests_keeps split: if_splits)

lemma put_signer_wf: "put_signer r t = Some r' \<Longrightarrow> ord_wf ct r \<Longrightarrow> ord_wf ct r'"
  by (auto simp: put_signer_def intro: on_ptr_wf split: ConsensusType.splits)

lemma list_all2_keeps_refl [simp]: "list_all2 keeps ss ss"
  by (rule list_all2_refl) simp

lemma put_signers_keeps: "put_signers ss sgs = Some ts \<Longrightarrow> list_all2 keeps ss ts"
proof (induction ss sgs arbitrary: ts rule: put_signers.induct)
  case (3 s ss t sgs)
  then obtain r us where r: "put_signer (sv_Orderer s) t = Some r" "put_signers ss sgs = Some us" "ts = s\<lparr>sv_Orderer := r\<rparr> # us"
    by (auto simp: bind_Some_iff)
  have "keeps s (s\<lparr>sv_Orderer := r\<rparr>)" by (rule keeps_orderer) (rule put_signer_wf [OF r(1)])
  with r "3.IH" show ?case by auto
qed simp_all

lemma UpdateSigners_keeps:
  assumes "UpdateSigners g ss = Some ts"
  shows "list_all2 keeps ss ts"
proof -
  from assms consider "ts = ss" | sgs where "put_signers ss sgs = Some ts"
    unfolding UpdateSigners_def by (auto simp: bind_Some_iff simp del: all_some.simps put_signers.simps split: if_splits)
  then show ?thesis by cases (auto intro: put_signers_keeps)
qed

lemma hand_over_keeps: "list_all2 keeps ss (map (hand_over s) ss)"
  by (simp add: list_all2_conv_all_nth hand_over_def keeps_manager)

lemma join_sends_keeps:
  "keeps s (foldl (\<lambda>s (_, nk). if nk_Name nk = sv_Name s then s else sv_go_SendMsg s (mgmt_msg env s (join_apply s nk))) s nks)"
proof (induction nks arbitrary: s)
  case (Cons x nks)
  obtain k nk where "x = (k, nk)" by (cases x)
  with Cons [of s] Cons [of "sv_go_SendMsg s (mgmt_msg env s (join_apply s nk))"] show ?case
    by (auto simp: sv_go_SendMsg_def)
qed simp

lemma StartNodeJoin_keeps:
  assumes "StartNodeJoin env s ss = (t, ts)"
  shows "keeps s t \<and> list_all2 keeps ss ts"
proof (cases "NMType s = NMT_BASIC")
  case True
  let ?s = "s\<lparr>sv_Manager := (sv_Manager s)\<lparr>mg_Mode := NM_JOIN\<rparr>\<rparr>"
  let ?u = "foldl (\<lambda>s (_, nk). if nk_Name nk = sv_Name s then s else sv_go_SendMsg s (mgmt_msg env s (join_apply s nk))) ?s (NodesTable (sv_Manager s))"
  have t: "t = ?u\<lparr>sv_Manager := (sv_Manager ?u)\<lparr>mg_State := NM_APPLY\<rparr>\<rparr>" "ts = map (hand_over ?s) ss"
    using assms True by (simp_all add: StartNodeJoin_def StartBCNodeJoin_def Let_def)
  have "keeps s ?s" by (simp add: keeps_manager)
  from keeps_trans [OF this join_sends_keeps] have "keeps s t" unfolding t(1) by (simp add: keeps_manager)
  then show ?thesis by (simp add: t(2) hand_over_keeps)
qed (use assms in \<open>simp add: StartNodeJoin_def list_all2_refl\<close>)

lemma know_node_keeps: "keeps s (fst (know_node g i sc kn))" if "fst sc = s"
  using that by (auto simp: know_node_def Let_def case_prod_beta keeps_def distinct_update dom_update)

lemma know_nodes_keeps: "keeps s (fst (foldl (know_node g i) (s, chans) kns))"
proof (induction kns arbitrary: s chans)
  case (Cons kn kns)
  obtain t c where t: "know_node g i (s, chans) kn = (t, c)" by (cases "know_node g i (s, chans) kn")
  from keeps_trans [OF know_node_keeps [of "(s, chans)" s g i kn] Cons [of "fst (know_node g i (s, chans) kn)" c]] show ?case by (simp add: t)
qed simp

lemma InitConsensus_matches: "InitConsensus env r ct i n path sg = Some t \<Longrightarrow> signer_matches ct sg"
  by (auto simp: InitConsensus_def new_core_def signer_matches_def bind_Some_iff Let_def split: ConsensusType.splits any_Signer.splits)

lemma NewServer_ok:
  assumes "NewServer env (Inr (sk, pk)) k1 k2 (int i) (int n) path ct NMT_BASIC sg mp = Some (Inr s)"
  shows "sv_ok ct i s"
proof -
  from assms have "signer_matches ct sg"
    by (auto simp: NewServer_def sv_InitConsensus_def InitNodeManager_def Let_def bind_Some_iff dest: InitConsensus_matches)
  from NewServer_fresh [OF this, of env sk pk k1 k2 i n path mp] assms show ?thesis by (auto simp: sv_ok_def fresh_server_def)
qed

lemma introduce_keeps: "keeps s (fst (introduce g ss s))"
proof -
  let ?s = "s\<lparr>sv_Manager := (sv_Manager s)\<lparr>NewNode := (NewNode (sv_Manager s))\<lparr>ni_Name := sv_Name s,
                ni_NodeKey := (ni_NodeKey (NewNode (sv_Manager s)))\<lparr>Sm2PubKey := pid_PubKey (pid_ID (ServerID s))\<rparr>,
                ni_Chan := Address (ServerID s)\<rparr>\<rparr>\<rparr>"
  have "keeps s ?s" by (simp add: keeps_manager)
  from keeps_trans [OF this know_nodes_keeps] show ?thesis unfolding introduce_def Let_def .
qed

lemma go_HandleReq_ok [simp]: "sv_ok ct i (go_HandleReq s) = sv_ok ct i s"
  by (simp add: sv_ok_def)

text \<open>A list that a server joins: the others are kept, and the new one is named after their number.\<close>

definition joined :: "ConsensusType \<Rightarrow> Server list \<Rightarrow> Server list \<Rightarrow> bool" where
  "joined ct ss ts \<longleftrightarrow> (\<exists>us new. ts = us @ new \<and> list_all2 keeps ss us \<and> length new \<le> 1 \<and> (\<forall>s\<in>set new. sv_ok ct (length ss) s))"

lemma joined_same: "list_all2 keeps ss us \<Longrightarrow> joined ct ss us"
  unfolding joined_def by (rule exI [of _ us], rule exI [of _ "[]"]) simp

lemma joined_new: "list_all2 keeps ss us \<Longrightarrow> sv_ok ct (length ss) s \<Longrightarrow> joined ct ss (us @ [s])"
  unfolding joined_def by (rule exI [of _ us], rule exI [of _ "[s]"]) simp

lemma NewBHServerJoin_ok:
  assumes "NewBHServerJoin env g ss mp w = Some (ts, w')" "\<forall>s\<in>set ss. ord_wf ct (sv_Orderer s)"
  shows "joined ct ss ts"
proof -
  from assms(1) obtain t first res where r: "(case ss of [] \<Rightarrow> None | s # _ \<Rightarrow> Some s) = Some first"
    "NewServer env (gen_keys g (length ss)) (client_key1 g) (client_key2 g) (int (length ss)) (int (length ss)) ''./BCData''
       (ConsType (sv_Orderer first)) NMT_BASIC (TssSigner t) mp = Some res"
    and rest: "(case res of Inl _ \<Rightarrow> Some (ss, w) | Inr s \<Rightarrow> do {
         let (s, chans) = introduce g ss s;
         Some (ss @ [go_HandleReq s], w\<lparr>Maps := (Maps w)(mp := chans)\<rparr>) }) = Some (ts, w')"
    unfolding NewBHServerJoin_def Let_def bind_Some_iff by blast
  have ct: "ConsType (sv_Orderer first) = ct" using assms(2) r(1) by (cases ss) (simp_all add: ord_wf_def)
  show ?thesis
  proof (cases res)
    case (Inr s)
    then obtain sk pk where k: "gen_keys g (length ss) = Inr (sk, pk)" using r(2) by (cases "gen_keys g (length ss)") (auto simp: NewServer_def)
    have "sv_ok ct (length ss) s" by (rule NewServer_ok) (rule r(2) [unfolded k ct Inr])
    from sv_ok_keeps [OF this introduce_keeps] have "sv_ok ct (length ss) (go_HandleReq (fst (introduce g ss s)))" by simp
    moreover have "ts = ss @ [go_HandleReq (fst (introduce g ss s))]" using rest Inr by (simp add: case_prod_beta)
    ultimately show ?thesis using joined_new [OF list_all2_keeps_refl] by simp
  next
    case (Inl e)
    with rest have "ts = ss" by simp
    then show ?thesis using joined_same [OF list_all2_keeps_refl] by simp
  qed
qed

lemma learn_key_keeps: "learn_key n k (sv_Orderer s) = Some r \<Longrightarrow> keeps s (s\<lparr>sv_Orderer := r\<rparr>)"
  by (auto simp: learn_key_def on_pbft_def ord_wf_def bind_Some_iff intro!: keeps_orderer split: ConsensusType.splits)

lemma exchange_keys_keeps: "exchange_keys s ss = Some (t, ts) \<Longrightarrow> keeps s t \<and> list_all2 keeps ss ts"
proof (induction ss arbitrary: s t ts)
  case (Cons a ss)
  then obtain r r' s' ss' where "keeps s (s\<lparr>sv_Orderer := r\<rparr>)" "keeps a (a\<lparr>sv_Orderer := r'\<rparr>)"
    "exchange_keys (s\<lparr>sv_Orderer := r\<rparr>) ss = Some (t, ss')" "ts = a\<lparr>sv_Orderer := r'\<rparr> # ss'"
    by (auto simp: bind_Some_iff Let_def intro: learn_key_keeps)
  with Cons.IH [OF this(3)] show ?case by (auto intro: keeps_trans)
qed simp

lemma NewServerJoin_ok:
  assumes "NewServerJoin env g ss mp w = Some (ts, w')" "\<forall>s\<in>set ss. ord_wf ct (sv_Orderer s)"
  shows "joined ct ss ts"
proof -
  from assms(1) obtain sg first res where r: "(case ss of [] \<Rightarrow> None | s # _ \<Rightarrow> Some s) = Some first"
    "NewServer env (gen_keys g (length ss)) (client_key1 g) (client_key2 g) (int (length ss)) (int (length ss)) ''./BCData''
       (ConsType (sv_Orderer first)) NMT_BASIC sg mp = Some res"
    and rest: "(case res of Inl _ \<Rightarrow> Some (ss, w) | Inr s \<Rightarrow> do {
         (s, ss) \<leftarrow> (if ConsType (sv_Orderer first) = CT_PBFT then exchange_keys s ss else Some (s, ss));
         let (s, chans) = introduce g ss s;
         Some (ss @ [go_HandleReq s], w\<lparr>Maps := (Maps w)(mp := chans)\<rparr>) }) = Some (ts, w')"
    unfolding NewServerJoin_def Let_def bind_Some_iff by blast
  have ct: "ConsType (sv_Orderer first) = ct" using assms(2) r(1) by (cases ss) (simp_all add: ord_wf_def)
  show ?thesis
  proof (cases res)
    case (Inr s)
    then obtain sk pk where k: "gen_keys g (length ss) = Inr (sk, pk)" using r(2) by (cases "gen_keys g (length ss)") (auto simp: NewServer_def)
    have ok: "sv_ok ct (length ss) s" by (rule NewServer_ok) (rule r(2) [unfolded k ct Inr])
    from rest Inr obtain t us where t: "(if ct = CT_PBFT then exchange_keys s ss else Some (s, ss)) = Some (t, us)"
      "ts = us @ [go_HandleReq (fst (introduce g us t))]"
      by (auto simp: ct bind_Some_iff case_prod_beta)
    then have kp: "keeps s t" "list_all2 keeps ss us" by (auto split: if_splits dest: exchange_keys_keeps)
    from sv_ok_keeps [OF ok keeps_trans [OF kp(1) introduce_keeps]] have "sv_ok ct (length ss) (go_HandleReq (fst (introduce g us t)))"
      by simp
    with kp(2) show ?thesis unfolding t(2) by (rule joined_new)
  next
    case (Inl e)
    with rest have "ts = ss" by simp
    then show ?thesis using joined_same [OF list_all2_keeps_refl] by simp
  qed
qed

lemma StopAll_keeps: "StopAll ss = Some ts \<Longrightarrow> list_all2 keeps ss ts"
  by (induction ss arbitrary: ts) (auto simp: bind_Some_iff intro: StopOrderer_keeps)

lemma list_all2_keeps_trans: "list_all2 keeps ss ts \<Longrightarrow> list_all2 keeps ts us \<Longrightarrow> list_all2 keeps ss us"
  by (rule list_all2_trans [OF keeps_trans])

lemma list_update_keeps: "list_all2 keeps ss ts \<Longrightarrow> (i < length ss \<Longrightarrow> keeps (ss ! i) t) \<Longrightarrow> list_all2 keeps ss (ts[i := t])"
proof -
  assume a: "list_all2 keeps ss ts" "i < length ss \<Longrightarrow> keeps (ss ! i) t"
  have "keeps (ss ! j) (ts[i := t] ! j)" if "j < length ss" for j
    using that a by (cases "j = i") (auto dest: list_all2_nthD list_all2_lengthD)
  with list_all2_lengthD [OF a(1)] show ?thesis by (simp add: list_all2_conv_all_nth)
qed

lemma put_servers_keeps:
  "list_all2 keeps ss us \<Longrightarrow> list_all2 (\<lambda>j t. keeps (ss ! j) t) js ts \<Longrightarrow> list_all2 keeps ss (put_servers us js ts)"
proof (induction js arbitrary: us ts)
  case (Cons j js)
  then obtain t ts' where ts: "ts = t # ts'" "keeps (ss ! j) t" "list_all2 (\<lambda>j t. keeps (ss ! j) t) js ts'" by (cases ts) auto
  with Cons.IH [OF list_update_keeps [OF Cons.prems(1)]] show ?case by (simp add: put_servers_def)
qed (simp add: put_servers_def)

lemma all_with_servers [simp]: "all_servers (with_servers S ss) = ss" "all_servers (S\<lparr>Net := w\<rparr>) = all_servers S"
  "Servers (with_servers S ss) = take (length (Servers S)) ss" "Gone (with_servers S ss) = drop (length (Servers S)) ss"
  by (simp_all add: all_servers_def with_servers_def)

text \<open>What one step does to the servers: all of them are kept, and one may come new.\<close>

definition sys_keeps :: "ConsensusType \<Rightarrow> System \<Rightarrow> System \<Rightarrow> bool" where
  "sys_keeps ct S T \<longleftrightarrow> (\<exists>us new. list_all2 keeps (all_servers S) us \<and> mset (all_servers T) = mset us + mset new \<and>
     length new \<le> 1 \<and> (\<forall>s\<in>set new. sv_ok ct (length (Servers S)) s) \<and>
     (Gone T = [] \<longrightarrow> Gone S = [] \<and> Servers T = us @ new))"

lemma sys_keeps_with: "list_all2 keeps (all_servers S) us \<Longrightarrow> sys_keeps ct S (with_servers S us)"
  unfolding sys_keeps_def
proof (rule exI [of _ us], rule exI [of _ "[]"], intro conjI impI)
  assume us: "list_all2 keeps (all_servers S) us" and g: "Gone (with_servers S us) = []"
  from list_all2_lengthD [OF us] have l: "length us = length (Servers S) + length (Gone S)" by (simp add: all_servers_def)
  with g have "length (Gone S) = 0" by simp
  with l show "Gone S = []" "Servers (with_servers S us) = us @ []" by simp_all
qed simp_all

lemma sys_keeps_joined: "joined ct (Servers S) ts \<Longrightarrow> sys_keeps ct S (S\<lparr>Servers := ts\<rparr>)"
proof -
  assume "joined ct (Servers S) ts"
  then obtain us new where j: "ts = us @ new" "list_all2 keeps (Servers S) us" "length new \<le> 1"
    "\<forall>s\<in>set new. sv_ok ct (length (Servers S)) s" by (auto simp: joined_def)
  have "list_all2 keeps (all_servers S) (us @ Gone S)"
    unfolding all_servers_def using j(2) by (rule list_all2_appendI) simp
  with j(1,3,4) show ?thesis unfolding sys_keeps_def
    by - (rule exI [of _ "us @ Gone S"], rule exI [of _ new], simp add: all_servers_def)
qed

lemma sys_keeps_net [simp]: "sys_keeps ct S (T\<lparr>Net := w\<rparr>) = sys_keeps ct S T"
  by (simp add: sys_keeps_def)

lemma Exit_keeps:
  assumes "OriServerExit env ss ids = Some (ts, gone)"
  shows "gone = None \<and> ts = ss \<or> (\<exists>s t as bs. gone = Some t \<and> keeps s t \<and> ss = as @ s # bs \<and> ts = as @ bs)"
proof (cases "ids = [] \<or> dropWhile (\<lambda>s. sv_Name s \<noteq> ''r_'' @ hd ids) ss = []")
  case True
  have "OriServerExit env ss ids = Some (ss, None)"
  proof (cases ids)
    case (Cons i js)
    with True have "dropWhile (\<lambda>s. sv_Name s \<noteq> ''r_'' @ i) ss = []" by simp
    with Cons show ?thesis unfolding OriServerExit_def by (simp only: list.case)
  qed (simp add: OriServerExit_def)
  with assms show ?thesis by simp
next
  case False
  let ?P = "\<lambda>s. sv_Name s \<noteq> ''r_'' @ hd ids"
  from False obtain i js s rest where i: "ids = i # js" "dropWhile ?P ss = s # rest" by (cases ids; cases "dropWhile ?P ss") auto
  with assms obtain t where t: "StartNodeExit env s = Some t" "gone = Some t" "ts = takeWhile ?P ss @ rest"
    by (auto simp: OriServerExit_def bind_Some_iff)
  have "ss = takeWhile ?P ss @ s # rest" using takeWhile_dropWhile_id [of ?P ss] unfolding i(2) by (rule sym)
  with t StartNodeExit_keeps show ?thesis by blast
qed

lemma sys_step_keeps:
  assumes "sys_step env g S l T" "\<forall>s\<in>set (all_servers S). ord_wf ct (sv_Orderer s)"
  shows "sys_keeps ct S T"
  using assms(1)
proof cases
  case (server i s' w')
  have "list_all2 keeps (all_servers S) ((all_servers S)[i := s'])"
    using sv_step_keeps [OF server(4)] by (intro list_update_keeps) simp_all
  then show ?thesis unfolding server(1) by (simp add: sys_keeps_with)
next
  case (start_join i js s' ts)
  from start_join(3-) have k: "keeps (all_servers S ! i) s' \<and> list_all2 keeps (map (\<lambda>j. all_servers S ! j) js) ts"
    by (blast dest: StartNodeJoin_keeps)
  have "list_all2 keeps (all_servers S) ((all_servers S)[i := s'])" using k by (intro list_update_keeps) simp_all
  moreover have "list_all2 (\<lambda>j t. keeps (all_servers S ! j) t) js ts" using k by (simp add: list_all2_map1)
  ultimately show ?thesis unfolding start_join(2) by (intro sys_keeps_with put_servers_keeps)
next
  case (exits now ids ss gone)
  from exits(3) have "gone = None \<and> ss = Servers S \<or>
      (\<exists>s t as bs. gone = Some t \<and> keeps s t \<and> Servers S = as @ s # bs \<and> ss = as @ bs)" by (rule Exit_keeps)
  then show ?thesis
  proof (elim disjE exE conjE)
    fix s t as bs
    assume e: "gone = Some t" "keeps s t" "Servers S = as @ s # bs" "ss = as @ bs"
    have "list_all2 keeps (as @ s # bs @ Gone S) (as @ t # bs @ Gone S)" using e(2) by (intro list_all2_appendI) simp_all
    then show ?thesis unfolding sys_keeps_def exits(2)
      by - (rule exI [of _ "as @ t # bs @ Gone S"], rule exI [of _ "[]"], simp add: e all_servers_def)
  next
    assume e: "gone = None" "ss = Servers S"
    then show ?thesis unfolding sys_keeps_def exits(2)
      by - (rule exI [of _ "all_servers S"], rule exI [of _ "[]"], simp add: all_servers_def)
  qed
next
  case (forge a b)
  have "sys_keeps ct S S" unfolding sys_keeps_def
    by (rule exI [of _ "all_servers S"], rule exI [of _ "[]"]) (simp add: all_servers_def)
  with forge show ?thesis by simp
qed (use assms(2) in \<open>auto simp: all_servers_def intro: sys_keeps_joined joined_same GenNewReq_keeps UpdateSigners_keeps StopAll_keeps
   NewServerJoin_ok NewBHServerJoin_ok\<close>)

text \<open>
  The invariant: every server has the name of some number below that of all servers, is well typed
  and knows itself; as long as none has left, they stand at their numbers.
\<close>

definition sys_ok :: "ConsensusType \<Rightarrow> System \<Rightarrow> bool" where
  "sys_ok ct S \<longleftrightarrow> (\<forall>s\<in>set (all_servers S). \<exists>k < length (all_servers S). sv_ok ct k s) \<and> (Gone S = [] \<longrightarrow> all_ok ct (Servers S))"

lemma sys_keeps_ok:
  assumes "sys_keeps ct S T" "sys_ok ct S"
  shows "sys_ok ct T \<and> mset (map ServerID (all_servers S)) \<subseteq># mset (map ServerID (all_servers T))"
proof -
  from assms(1) obtain us new where k: "list_all2 keeps (all_servers S) us" "mset (all_servers T) = mset us + mset new"
    "length new \<le> 1" "\<forall>s\<in>set new. sv_ok ct (length (Servers S)) s" "Gone T = [] \<longrightarrow> Gone S = [] \<and> Servers T = us @ new"
    by (auto simp: sys_keeps_def)
  have set: "set (all_servers T) = set us \<union> set new" using k(2) by (metis set_mset_mset set_mset_union)
  have len: "length (all_servers T) = length us + length new" using k(2) by (metis size_mset size_union)
  have us: "length us = length (all_servers S)" using list_all2_lengthD [OF k(1)] by simp
  have ids: "map ServerID us = map ServerID (all_servers S)"
    using k(1) by (auto simp: list_all2_conv_all_nth keeps_def intro: nth_equalityI)
  have named: "\<exists>k < length (all_servers T). sv_ok ct k s" if "s \<in> set (all_servers T)" for s
  proof (cases "s \<in> set us")
    case True
    then obtain i where i: "i < length us" "us ! i = s" by (auto simp: in_set_conv_nth)
    then have "keeps (all_servers S ! i) s" "all_servers S ! i \<in> set (all_servers S)" using k(1) us by (auto dest: list_all2_nthD2)
    moreover from this assms(2) obtain n where "n < length (all_servers S)" "sv_ok ct n (all_servers S ! i)"
      unfolding sys_ok_def by blast
    ultimately have "n < length (all_servers S)" "sv_ok ct n s" by (auto intro: sv_ok_keeps)
    then show ?thesis using len us by (intro exI [of _ n]) simp
  next
    case False
    with that set have n: "s \<in> set new" by simp
    then have "0 < length new" by auto
    with n k(4) len us show ?thesis by (intro exI [of _ "length (Servers S)"]) (simp add: all_servers_def)
  qed
  have "all_ok ct (Servers T)" if "Gone T = []"
  proof -
    from that k(5) have g: "Gone S = []" "Servers T = us @ new" by auto
    then have "all_ok ct us" using assms(2) k(1) by (auto simp: sys_ok_def all_servers_def intro: all_ok_map2)
    with k(3,4) us g show ?thesis by (cases new) (auto simp: all_ok_def all_servers_def nth_append less_Suc_eq)
  qed
  moreover have "mset (map ServerID (all_servers T)) = mset (map ServerID (all_servers S)) + mset (map ServerID new)"
    using k(2) ids by (metis image_mset_union mset_map)
  ultimately show ?thesis using named by (auto simp: sys_ok_def)
qed

lemma sys_step_ok:
  assumes "sys_step env g S l T" "sys_ok ct S"
  shows "sys_ok ct T \<and> mset (map ServerID (all_servers S)) \<subseteq># mset (map ServerID (all_servers T))"
proof -
  have "\<forall>s\<in>set (all_servers S). ord_wf ct (sv_Orderer s)" using assms(2) by (fastforce simp: sys_ok_def sv_ok_def)
  from sys_keeps_ok [OF sys_step_keeps [OF assms(1) this] assms(2)] show ?thesis .
qed

lemma sys_run_ok:
  "sys_run env g S ls T \<Longrightarrow> sys_ok ct S \<Longrightarrow> sys_ok ct T \<and> mset (map ServerID (all_servers S)) \<subseteq># mset (map ServerID (all_servers T))"
proof (induction rule: sys_run.induct)
  case (step S l T ls U)
  with sys_step_ok [OF step.hyps(1)] show ?case using subset_mset.order_trans by blast
qed simp

section \<open>The network of the factory\<close>

lemma gen_servers_all_ok:
  assumes "gen_servers env g ct n path sgs mp i k (ss, chans) = Some (ts, chans')" "length ss = i" "all_ok ct ss"
  shows "all_ok ct ts \<and> length ts = i + k"
  using assms
proof (induction k arbitrary: i sgs ss chans)
  case (Suc k)
  then obtain sg sgs' res where r: "sgs = sg # sgs'"
    "NewServer env (gen_keys g i) (client_key1 g) (client_key2 g) (int i) (int n) path ct NMT_BASIC sg mp = Some res"
    by (cases sgs) (auto simp: bind_Some_iff)
  obtain s where s: "res = Inr s" using Suc.prems r by (cases res) (auto simp: Let_def)
  obtain sk pk where k: "gen_keys g i = Inr (sk, pk)" using r(2) s by (cases "gen_keys g i") (auto simp: NewServer_def)
  have "sv_ok ct i s" by (rule NewServer_ok) (rule r(2) [unfolded k s])
  then have "all_ok ct (ss @ [go_HandleReq s])" using Suc.prems(2,3) by (auto simp: all_ok_def nth_append less_Suc_eq)
  moreover obtain c where "gen_servers env g ct n path sgs' mp (Suc i) k (ss @ [go_HandleReq s], c) = Some (ts, chans')"
    using Suc.prems(1,2) r s by (auto simp: Let_def nth_append list_update_append)
  ultimately show ?case using Suc.IH [of sgs' "Suc i" "ss @ [go_HandleReq s]" c] Suc.prems(2) by simp
qed simp

lemma add_node_keeps: "keeps s (add_node s t)"
  by (simp add: add_node_def keeps_def distinct_update dom_update)

lemma share_sm4_keeps: "keeps s (share_sm4 s t key)"
  by (simp add: share_sm4_def UpdateSm4Key_def keeps_def distinct_update dom_update Let_def split: option.split)

lemma route_pair_ok:
  assumes "all_ok ct ss"
  shows "all_ok ct (route_pair g ss (i, j))"
proof -
  define a where "a = ss[i := add_node (ss ! i) (ss ! j)]"
  define b where "b = a[i := share_sm4 (a ! i) (a ! j) (gen_sm4 g i j)]"
  have a: "all_ok ct a" unfolding a_def by (rule all_ok_update [OF assms add_node_keeps])
  then have b: "all_ok ct b" unfolding b_def by (rule all_ok_update [OF _ share_sm4_keeps])
  then have "all_ok ct (b[j := share_sm4 (b ! j) (b ! i) (gen_sm4 g i j)])" by (rule all_ok_update [OF _ share_sm4_keeps])
  with assms a show ?thesis
    unfolding route_pair_def Let_def prod.case a_def [symmetric] b_def [symmetric] by simp
qed

lemma route_tables_all_ok: "all_ok ct ss \<Longrightarrow> all_ok ct (route_tables g n ss)"
proof -
  have "all_ok ct ss \<Longrightarrow> all_ok ct (foldl (route_pair g) ss ijs)" for ijs
    by (induction ijs arbitrary: ss) (auto simp: route_pair_ok)
  then show "all_ok ct ss \<Longrightarrow> all_ok ct (route_tables g n ss)" by (simp add: route_tables_def)
qed

lemma route_tables_length: "length (route_tables g n ss) = length ss"
proof -
  have "length (foldl (route_pair g) ss ijs) = length ss" for ijs
    by (induction ijs arbitrary: ss) (auto simp: route_pair_def Let_def)
  then show ?thesis by (simp add: route_tables_def)
qed

lemma GenServers_all_ok:
  assumes "GenServers env g n path ct mp w = Some (ss, w0)"
  shows "all_ok ct ss \<and> length ss = n"
proof -
  from assms obtain sgs ss1 chans where g: "gen_servers env g ct n path sgs mp 0 n ([], []) = Some (ss1, chans)" "ss = route_tables g n ss1"
    by (auto simp: GenServers_def bind_Some_iff)
  have "all_ok ct ss1 \<and> length ss1 = n" using gen_servers_all_ok [OF g(1)] by (simp add: all_ok_def)
  then show ?thesis by (simp add: g(2) route_tables_all_ok route_tables_length)
qed

lemma put_signers_ok:
  "\<forall>s \<in> set ss. ord_wf ct (sv_Orderer s) \<Longrightarrow> length ss \<le> length ts \<Longrightarrow> \<exists>us. put_signers ss ts = Some us \<and> map sv_Name us = map sv_Name ss"
proof (induction ss ts rule: put_signers.induct)
  case (3 s ss t ts)
  have "\<exists>r. put_signer (sv_Orderer s) t = Some r" using "3.prems"(1)
    by (cases ct) (auto simp: put_signer_def ord_wf_def on_basic_def on_chained_def on_hs2_def)
  with 3 show ?case by auto
qed simp_all

lemma sys_ok_start:
  assumes "GenServers env g n path ct mp w = Some (ss, w0)"
  shows "sys_ok ct \<lparr>Servers = ss, Gone = [], Net = w0\<rparr>"
proof -
  note ok = conjunct1 [OF GenServers_all_ok [OF assms]]
  have "\<exists>k < length ss. sv_ok ct k s" if "s \<in> set ss" for s
    using that ok unfolding in_set_conv_nth all_ok_def by blast
  with ok show ?thesis by (simp add: sys_ok_def all_servers_def)
qed

text \<open>
  C7 Invariant of the simulated network: once the factory has built its servers, whatever they receive,
  send or run, whatever expires, is forged, joins or leaves, in any order, all of the first servers
  are still there, on the driver's list or (having left) off it, with the name, keys and address
  they were built with; and every server, those that came later and those that left included, has the
  name of a number below the number of all servers, exactly the core of the protocol it was built
  with, no node listed twice in its table, and an entry for itself. As long as none has left, the i-th server
  is named after i.
\<close>

theorem sys_invariant:
  assumes "GenServers env g n path ct mp w = Some (ss, w0)"
    and "sys_run env g \<lparr>Servers = ss, Gone = [], Net = w0\<rparr> ls T"
  shows "mset (map ServerID ss) \<subseteq># mset (map ServerID (all_servers T)) \<and>
    (\<forall>s\<in>set (all_servers T). (\<exists>k < length (all_servers T). sv_Name s = node_name (int k)) \<and> ord_wf ct (sv_Orderer s) \<and>
       distinct (map fst (NodesTable (sv_Manager s))) \<and> map_of (NodesTable (sv_Manager s)) (sv_Name s) \<noteq> None) \<and>
    (Gone T = [] \<longrightarrow> (\<forall>i < length (Servers T). sv_Name (Servers T ! i) = node_name (int i)))"
proof -
  from sys_run_ok [OF assms(2) sys_ok_start [OF assms(1)]]
  have ok: "sys_ok ct T" and ids: "mset (map ServerID ss) \<subseteq># mset (map ServerID (all_servers T))" by (simp_all add: all_servers_def)
  have own: "map_of (NodesTable (sv_Manager s)) (sv_Name s) \<noteq> None" if "sv_ok ct k s" for s k
    using that unfolding sv_ok_def map_of_eq_None_iff set_map by argo
  have "(\<exists>k < length (all_servers T). sv_Name s = node_name (int k)) \<and> ord_wf ct (sv_Orderer s) \<and>
       distinct (map fst (NodesTable (sv_Manager s))) \<and> map_of (NodesTable (sv_Manager s)) (sv_Name s) \<noteq> None"
    if "s \<in> set (all_servers T)" for s
  proof -
    from ok that obtain k where k: "k < length (all_servers T)" "sv_ok ct k s" unfolding sys_ok_def by blast
    with own [OF k(2)] show ?thesis by (auto simp: sv_ok_def)
  qed
  moreover have "\<forall>i < length (Servers T). sv_Name (Servers T ! i) = node_name (int i)" if "Gone T = []"
    using ok that by (simp add: sys_ok_def all_ok_def sv_ok_def)
  ultimately show ?thesis using ids by blast
qed

text \<open>
  A name is given twice: when a server other than the last has left, the next one to join gets the
  name of the last one, which is still on the list.
\<close>

lemma exit_then_name_taken:
  assumes "all_ok ct ss" "OriServerExit env ss ids = Some (ts, Some t)" "sv_Name t \<noteq> node_name (int (length ts))"
    and "NewServerJoin env g ts mp w = Some (us @ [new], w')" "length us = length ts"
  shows "\<exists>s\<in>set ts. sv_Name s = sv_Name new"
proof -
  from Exit_keeps [OF assms(2)] obtain s as bs where e: "keeps s t" "ss = as @ s # bs" "ts = as @ bs" by auto
  have name: "sv_Name (ss ! i) = node_name (int i)" if "i < length ss" for i using that assms(1) by (simp add: all_ok_def sv_ok_def)
  have "bs \<noteq> []"
  proof
    assume "bs = []"
    with e name [of "length as"] have "sv_Name t = node_name (int (length ts))" by (simp add: keeps_def)
    with assms(3) show False by simp
  qed
  then have "last ss \<in> set ts" "last ss = ss ! length ts" using e by (auto simp: last_conv_nth)
  moreover have "sv_Name (ss ! length ts) = node_name (int (length ts))" using name [of "length ts"] e by simp
  moreover have "\<forall>s\<in>set ts. ord_wf ct (sv_Orderer s)"
  proof
    fix x
    assume "x \<in> set ts"
    then have "x \<in> set ss" using e by auto
    with assms(1) show "ord_wf ct (sv_Orderer x)" by (auto simp: all_ok_def sv_ok_def in_set_conv_nth)
  qed
  from NewServerJoin_ok [OF assms(4) this] assms(5) have "sv_Name new = node_name (int (length ts))"
    by (auto simp: joined_def sv_ok_def dest!: list_all2_lengthD)
  ultimately show ?thesis by metis
qed

lemma Itoa_2: "Itoa 2 = ''2''"
  by code_simp

theorem sys_invariant_witness:
  "\<exists>ss w T. GenServers node_demo_env demo_gen 3 [] CT_CHAINED 0 demo_world = Some (ss, w) \<and>
     sys_run node_demo_env demo_gen \<lparr>Servers = ss, Gone = [], Net = w\<rparr> [Forge [] [1], StartJoin 2 [0, 1], NewSigners] T \<and>
     length (Servers T) = 3 \<and> sv_Name (Servers T ! 2) = ''r_2'' \<and> ord_wf CT_CHAINED (sv_Orderer (Servers T ! 2))"
proof -
  let ?sgs = "replicate 3 (TssSigner demo_tss)"
  obtain ss1 c where "gen_servers node_demo_env demo_gen CT_CHAINED 3 [] ?sgs 0 0 3 ([], []) = Some (ss1, c)"
    using gen_servers_ok [of ?sgs CT_CHAINED 3 0 demo_gen "\<lambda>i. Some [of_nat i]" "[]" 0 "[]" node_demo_env 3 "[]"]
    by (auto simp: signer_matches_def)
  then obtain ss w where s: "GenServers node_demo_env demo_gen 3 [] CT_CHAINED 0 demo_world = Some (ss, w)"
    by (auto simp: GenServers_def demo_gen_signers)
  with GenServers_all_ok have l: "length ss = 3" by blast
  let ?S = "\<lparr>Servers = ss, Gone = [], Net = w\<lparr>Queues := (Queues w)([] := Queues w [] @ [[1]])\<rparr>\<rparr>"
  obtain s2 ts where j: "StartNodeJoin node_demo_env (ss ! 2) [ss ! 0, ss ! 1] = (s2, ts)"
    by (cases "StartNodeJoin node_demo_env (ss ! 2) [ss ! 0, ss ! 1]")
  define T where "T = with_servers ?S (put_servers (ss[2 := s2]) [0, 1] ts)"
  have forge: "sys_step node_demo_env demo_gen \<lparr>Servers = ss, Gone = [], Net = w\<rparr> (Forge [] [1]) ?S"
    using sys_step.forge [of node_demo_env demo_gen "\<lparr>Servers = ss, Gone = [], Net = w\<rparr>" "[]" "[1]"] by simp
  have join: "sys_step node_demo_env demo_gen ?S (StartJoin 2 [0, 1]) T"
    using sys_step.start_join [of 2 ?S "[0, 1]" node_demo_env s2 ts demo_gen] l j by (simp add: T_def all_servers_def)
  note ok = sys_ok_start [OF s]
  have "length (put_servers (ss[2 := s2]) [0, 1] ts) = 3"
    using put_servers_keeps [of "ss[2 := s2]" "ss[2 := s2]" "[0, 1]" ts] StartNodeJoin_keeps [OF j] l
    by (auto simp: list_all2_Cons1 put_servers_def)
  then have T: "Gone T = []" "length (Servers T) = 3" using l by (simp_all add: T_def)
  have okT: "sys_ok CT_CHAINED T" using sys_step_ok [OF join] sys_step_ok [OF forge ok] by blast
  then have all: "all_ok CT_CHAINED (Servers T)" using T by (simp add: sys_ok_def)
  then have wf: "\<forall>s \<in> set (Servers T). ord_wf CT_CHAINED (sv_Orderer s)" by (auto simp: all_ok_def sv_ok_def in_set_conv_nth)
  from put_signers_ok [OF this, of "replicate 3 demo_tss"] T obtain us where
    us: "put_signers (Servers T) (replicate 3 demo_tss) = Some us" "map sv_Name us = map sv_Name (Servers T)" by auto
  have lu: "length us = 3" using us(2) T by (metis length_map)
  obtain a as where as: "Servers T = a # as" using T by (cases "Servers T") auto
  have "ConsType (sv_Orderer a) = CT_CHAINED" using wf as by (simp add: ord_wf_def)
  then have "UpdateSigners demo_gen (Servers T) = Some us" using us(1) T
    by (simp add: UpdateSigners_def demo_gen_def all_some_replicate as)
  then have "sys_step node_demo_env demo_gen T NewSigners (T\<lparr>Servers := us\<rparr>)" by (rule sys_step.new_signers)
  with forge join have run: "sys_run node_demo_env demo_gen \<lparr>Servers = ss, Gone = [], Net = w\<rparr> [Forge [] [1], StartJoin 2 [0, 1], NewSigners] (T\<lparr>Servers := us\<rparr>)"
    unfolding sys_run_simps by blast
  from sys_invariant [OF s run] have inv: "\<forall>s\<in>set us. ord_wf CT_CHAINED (sv_Orderer s)" "\<forall>i<length us. sv_Name (us ! i) = node_name (int i)"
    using T by (simp_all add: all_servers_def)
  then have "sv_Name (us ! 2) = ''r_2'' \<and> ord_wf CT_CHAINED (sv_Orderer (us ! 2))"
    using lu by (simp add: node_name_def Itoa_2)
  with s run lu show ?thesis by (intro exI [of _ ss] exI [of _ w] exI [of _ "T\<lparr>Servers := us\<rparr>"]) simp
qed

end
