(* ===== verification/Cmd_Props.thy ===== *)
theory Cmd_Props
  imports Fac_Props Cmd_Core
begin

text \<open>
  What the commands do: the two ways to join, the keys of a PBFT node that joins, the batches of
  automatic requests, the count of stored requests, and what a client and the servers read from one
  line.
\<close>

section \<open>Joining\<close>

text \<open>
  The two functions that let a server join do the same in a network that does not run PBFT, when
  the library makes one signer for one signer.
\<close>

theorem joins_agree:
  assumes "servers \<noteq> []" "ConsType (sv_Orderer (hd servers)) \<noteq> CT_PBFT"
    and "gen_tss g 1 1 = Some [Some t]"
  shows "NewServerJoin env g servers mp w = NewBHServerJoin env g servers mp w"
proof -
  obtain s ss where s: "servers = s # ss" using assms(1) by (cases servers) auto
  have "GenSigners g (ConsType (sv_Orderer s)) 1 = Some [TssSigner t]"
    using assms(2,3) by (simp add: s GenSigners_def vote_threshold_def)
  then show ?thesis using assms(2,3) by (simp add: s NewServerJoin_def NewBHServerJoin_def Let_def)
qed

theorem joins_agree_witness:
  "\<exists>s. ConsType (sv_Orderer s) = CT_CHAINED \<and>
     NewServerJoin node_demo_env demo_gen [s] 0 demo_world = NewBHServerJoin node_demo_env demo_gen [s] 0 demo_world"
proof -
  obtain s where "NewServer node_demo_env (Inr (None, None)) None None (int 0) (int 1) [] CT_CHAINED NMT_BASIC (TssSigner demo_tss) 0 = Some (Inr s)"
    "fresh_server CT_CHAINED 0 0 None s"
    using NewServer_fresh [of CT_CHAINED "TssSigner demo_tss" node_demo_env None None None None 0 1 "[]" 0] by (auto simp: signer_matches_def)
  then have ct: "ConsType (sv_Orderer s) = CT_CHAINED" by (auto simp: fresh_server_def ord_wf_def)
  then have "ConsType (sv_Orderer (hd [s])) \<noteq> CT_PBFT" by simp
  from joins_agree [OF _ this, of demo_gen demo_tss node_demo_env 0 demo_world] ct show ?thesis by (auto simp: demo_gen_def)
qed

lemma NewServer_pbft:
  assumes "NewServer env kg k1 k2 i n path CT_PBFT nmt (Ssm2Signer sg) mp = Some (Inr s)"
  shows "\<exists>c. PBFTConsensus (sv_Orderer s) = Some c \<and> pb_Signer c = sg \<and> sv_Name s = node_name i \<and> pb_GetNodeName c = node_name i"
  using assms by (auto simp: NewServer_def sv_InitConsensus_def InitConsensus_def new_core_def InitNodeManager_def Let_def
      bind_Some_iff NewPBFT_def pb_InitLeader_def ord_InitLeader_def on_core_def on_pbft_def node_name_def pb_GetNodeName_def
      split: sum.splits if_splits)

lemma gen_one_signer:
  "gen_signers keygen i 1 = Some gs \<Longrightarrow> \<exists>sk pk. gs = [\<lparr>ID = node_name i, Pk = pk, Sk = sk, Pks = (\<lambda>_. None)\<rparr>]"
proof (induction keygen)
  case (Cons k keygen)
  then show ?case by (cases k) (auto simp: node_name_def)
qed simp

lemma NewSigners_one:
  assumes "ssm2_NewSigners keygen 1 = Some sgs"
  shows "\<exists>t. sgs = [t] \<and> dom (Pks t) = {node_name 0}"
proof -
  from assms obtain gs where "gen_signers keygen 0 1 = Some gs" "sgs = map (add_pks gs) gs"
    by (auto simp: ssm2_NewSigners_def bind_Some_iff)
  with gen_one_signer show ?thesis by (fastforce simp: add_pks_def)
qed

lemma exchange_keys_effect:
  assumes "exchange_keys new ss = Some (new', ss')" "PBFTConsensus (sv_Orderer new) = Some c"
  shows "\<exists>c'. PBFTConsensus (sv_Orderer new') = Some c' \<and> Pk (pb_Signer c') = Pk (pb_Signer c) \<and> pb_GetNodeName c' = pb_GetNodeName c \<and> dom (Pks (pb_Signer c')) = dom (Pks (pb_Signer c)) \<union> sv_Name ` set ss \<and>
    ServerID new' = ServerID new \<and>
    list_all2 (\<lambda>s t. sv_Name t = sv_Name s \<and> (\<exists>d. PBFTConsensus (sv_Orderer t) = Some d \<and> Pks (pb_Signer d) (sv_Name new) = Some (Pk (pb_Signer c)))) ss ss'"
  using assms
proof (induction ss arbitrary: new c ss')
  case (Cons s ss)
  from Cons.prems obtain d ss'' where d: "PBFTConsensus (sv_Orderer s) = Some d"
    and rest: "exchange_keys (new\<lparr>sv_Orderer := (sv_Orderer new)\<lparr>PBFTConsensus :=
        Some (c\<lparr>pb_Signer := (pb_Signer c)\<lparr>Pks := (Pks (pb_Signer c))(sv_Name s \<mapsto> Pk (pb_Signer d))\<rparr>\<rparr>)\<rparr>\<rparr>) ss = Some (new', ss'')"
    and ss': "ss' = s\<lparr>sv_Orderer := (sv_Orderer s)\<lparr>PBFTConsensus :=
        Some (d\<lparr>pb_Signer := (pb_Signer d)\<lparr>Pks := (Pks (pb_Signer d))(sv_Name new \<mapsto> Pk (pb_Signer c))\<rparr>\<rparr>)\<rparr>\<rparr> # ss''"
    by (auto simp: bind_Some_iff Let_def signer_key_def learn_key_def on_pbft_def)
  from Cons.IH [OF rest] show ?case unfolding ss' by (auto simp: dom_def pb_GetNodeName_def)
qed simp

text \<open>The table of keys a server of the network has after the exchange.\<close>

definition told :: "string \<Rightarrow> bytes \<Rightarrow> Server \<Rightarrow> Server \<Rightarrow> bool" where
  "told name k s u \<longleftrightarrow> sv_Name u = sv_Name s \<and> (\<exists>d e. PBFTConsensus (sv_Orderer s) = Some d \<and> PBFTConsensus (sv_Orderer u) = Some e \<and>
     pb_Signer e = (pb_Signer d)\<lparr>Pks := (Pks (pb_Signer d))(name \<mapsto> k)\<rparr>)"

lemma exchange_keys_tables:
  assumes "exchange_keys new ss = Some (new', ss')" "PBFTConsensus (sv_Orderer new) = Some c" "distinct (map sv_Name ss)"
  shows "\<exists>c'. PBFTConsensus (sv_Orderer new') = Some c' \<and> (\<forall>x. x \<notin> sv_Name ` set ss \<longrightarrow> Pks (pb_Signer c') x = Pks (pb_Signer c) x) \<and>
    (\<forall>s\<in>set ss. signer_key s \<noteq> None \<and> Pks (pb_Signer c') (sv_Name s) = signer_key s) \<and>
    list_all2 (told (sv_Name new) (Pk (pb_Signer c))) ss ss'"
  using assms
proof (induction ss arbitrary: new c ss')
  case (Cons s ss)
  from Cons.prems obtain d ss'' where d: "PBFTConsensus (sv_Orderer s) = Some d"
    and rest: "exchange_keys (new\<lparr>sv_Orderer := (sv_Orderer new)\<lparr>PBFTConsensus :=
        Some (c\<lparr>pb_Signer := (pb_Signer c)\<lparr>Pks := (Pks (pb_Signer c))(sv_Name s \<mapsto> Pk (pb_Signer d))\<rparr>\<rparr>)\<rparr>\<rparr>) ss = Some (new', ss'')"
    and ss': "ss' = s\<lparr>sv_Orderer := (sv_Orderer s)\<lparr>PBFTConsensus :=
        Some (d\<lparr>pb_Signer := (pb_Signer d)\<lparr>Pks := (Pks (pb_Signer d))(sv_Name new \<mapsto> Pk (pb_Signer c))\<rparr>\<rparr>)\<rparr>\<rparr> # ss''"
    by (auto simp: bind_Some_iff Let_def signer_key_def learn_key_def on_pbft_def)
  have "sv_Name s \<notin> sv_Name ` set ss" "distinct (map sv_Name ss)" using Cons.prems(3) by simp_all
  from Cons.IH [OF rest _ this(2)] this(1) d show ?case unfolding ss' by (auto simp: signer_key_def told_def)
qed simp

lemma introduce_orderer [simp]: "sv_Orderer (fst (introduce g ss s)) = sv_Orderer s" "ServerID (fst (introduce g ss s)) = ServerID s"
proof -
  have "sv_Orderer (fst (foldl (know_node g i) (s, chans) kns)) = sv_Orderer s \<and> ServerID (fst (foldl (know_node g i) (s, chans) kns)) = ServerID s"
    for i s chans kns
  proof (induction kns arbitrary: s chans)
    case (Cons kn kns)
    then show ?case by (cases kn) (simp add: know_node_def Let_def)
  qed simp
  then show "sv_Orderer (fst (introduce g ss s)) = sv_Orderer s" "ServerID (fst (introduce g ss s)) = ServerID s"
    by (simp_all add: introduce_def Let_def)
qed

text \<open>The keys a PBFT node has after the sync: those it had, and its own under its name.\<close>

lemma pb_SyncInfo_keys:
  "pb_SyncInfo c msg leader = Some c2 \<Longrightarrow> Pks (pb_Signer c2) = (Pks (pb_Signer c))(pb_GetNodeName c \<mapsto> Pk (pb_Signer c))"
  by (auto simp: pb_SyncInfo_def bind_Some_iff Let_def)

text \<open>
  C13 The keys of a node that joins a PBFT network, whose servers have different names and none of them
  the name of the node (\<open>r_n\<close> for \<open>n\<close> servers): right after the join it has the public key of each
  of them under its name, and every one of them has added its key under its name to a table that is
  unchanged otherwise; its own key under its name, which its messages to itself are checked with, it
  does not have before the sync, because its signer was made alone, under the name of node 0. The sync adds
  that key and keeps the others.
\<close>

theorem pbft_joiner_keys:
  assumes "NewServerJoin env g servers mp w = Some (ss, w')" "length servers < length ss"
    and "ConsType (sv_Orderer (hd servers)) = CT_PBFT" "\<forall>s \<in> set servers. sv_Name s \<noteq> node_name (int (length servers))"
    and "distinct (map sv_Name servers)" "gen_ssm2 g 1 = ssm2_NewSigners keygen 1"
  shows "\<exists>c. PBFTConsensus (sv_Orderer (last ss)) = Some c \<and> sv_Name (last ss) = node_name (int (length servers)) \<and>
    \<not> ssm2_VerifySign env (pb_Signer c) (sv_Name (last ss)) sign m \<and>
    (\<forall>i < length servers. \<exists>d e. PBFTConsensus (sv_Orderer (servers ! i)) = Some d \<and> PBFTConsensus (sv_Orderer (ss ! i)) = Some e \<and>
       Pks (pb_Signer c) (sv_Name (servers ! i)) = Some (Pk (pb_Signer d)) \<and>
       pb_Signer e = (pb_Signer d)\<lparr>Pks := (Pks (pb_Signer d))(sv_Name (last ss) \<mapsto> Pk (pb_Signer c))\<rparr>) \<and>
    (\<forall>nm leader c2. pb_SyncInfo c nm leader = Some c2 \<longrightarrow>
       Pks (pb_Signer c2) = (Pks (pb_Signer c))(sv_Name (last ss) \<mapsto> Pk (pb_Signer c)))"
proof -
  let ?n = "int (length servers)"
  from assms(1) obtain first sgs sg res where first: "(case servers of [] \<Rightarrow> None | s # _ \<Rightarrow> Some s) = Some first"
    and sgs: "GenSigners g (ConsType (sv_Orderer first)) 1 = Some sgs" "(case sgs of [] \<Rightarrow> None | t # _ \<Rightarrow> Some t) = Some sg"
    and new: "NewServer env (gen_keys g (length servers)) (client_key1 g) (client_key2 g) ?n ?n ''./BCData''
      (ConsType (sv_Orderer first)) NMT_BASIC sg mp = Some res"
    and rest: "(case res of Inl _ \<Rightarrow> Some (servers, w) | Inr s \<Rightarrow> do {
         (s, servers) \<leftarrow> (if ConsType (sv_Orderer first) = CT_PBFT then exchange_keys s servers else Some (s, servers));
         let (s, chans) = introduce g servers s;
         Some (servers @ [go_HandleReq s], w\<lparr>Maps := (Maps w)(mp := chans)\<rparr>) }) = Some (ss, w')"
    unfolding NewServerJoin_def Let_def bind_Some_iff by blast
  have ct: "ConsType (sv_Orderer first) = CT_PBFT" using first assms(3) by (cases servers) auto
  obtain ts where ts: "ssm2_NewSigners keygen 1 = Some ts" "sgs = map Ssm2Signer ts"
    using sgs(1) unfolding ct assms(6) [symmetric] by (auto simp: GenSigners_def bind_Some_iff)
  obtain t where "ts = [t]" and t2: "dom (Pks t) = {node_name 0}" using NewSigners_one [OF ts(1)] by blast
  with ts(2) sgs(2) have "sg = Ssm2Signer t" by simp
  note t = this t2
  have "res \<noteq> Inl x" for x using rest assms(2) by auto
  then obtain s where res: "res = Inr s" by (cases res) auto
  obtain s' us where "exchange_keys s servers = Some (s', us)" "ss = us @ [go_HandleReq (fst (introduce g us s'))]"
    using rest by (simp add: res ct bind_Some_iff case_prod_beta) (metis prod.collapse)
  note s = res this
  obtain c where c: "PBFTConsensus (sv_Orderer s) = Some c" "pb_Signer c = t" "sv_Name s = node_name ?n" "pb_GetNodeName c = node_name ?n"
    using NewServer_pbft [OF new [unfolded s(1) t(1) ct]] by blast
  from exchange_keys_effect [OF s(2) c(1)] obtain c' where c': "PBFTConsensus (sv_Orderer s') = Some c'" "Pk (pb_Signer c') = Pk t" "pb_GetNodeName c' = node_name ?n"
    "dom (Pks (pb_Signer c')) = {node_name 0} \<union> sv_Name ` set servers" "ServerID s' = ServerID s"
    "list_all2 (\<lambda>s u. sv_Name u = sv_Name s \<and> (\<exists>d. PBFTConsensus (sv_Orderer u) = Some d \<and> Pks (pb_Signer d) (node_name ?n) = Some (Pk t))) servers us"
    using c t(2) by auto
  have l: "length us = length servers" using c'(6) by (auto dest: list_all2_lengthD)
  have last: "PBFTConsensus (sv_Orderer (last ss)) = Some c'" "sv_Name (last ss) = node_name ?n"
    using c'(1,5) c(3) by (simp_all add: s(3) go_HandleReq_def)
  have "node_name ?n \<notin> dom (Pks (pb_Signer c'))" using c'(4) assms(4) first by (cases servers) auto
  then have "\<not> ssm2_VerifySign env (pb_Signer c') (node_name ?n) sign m" by (auto simp: ssm2_VerifySign_def split: option.split)
  moreover have tables: "(\<forall>s\<in>set servers. signer_key s \<noteq> None \<and> Pks (pb_Signer c') (sv_Name s) = signer_key s) \<and>
      list_all2 (told (node_name ?n) (Pk t)) servers us"
    using exchange_keys_tables [OF s(2) c(1) assms(5)] c'(1) c(2,3) by auto
  have "\<exists>d e. PBFTConsensus (sv_Orderer (servers ! i)) = Some d \<and> PBFTConsensus (sv_Orderer (ss ! i)) = Some e \<and>
       Pks (pb_Signer c') (sv_Name (servers ! i)) = Some (Pk (pb_Signer d)) \<and>
       pb_Signer e = (pb_Signer d)\<lparr>Pks := (Pks (pb_Signer d))(node_name ?n \<mapsto> Pk (pb_Signer c'))\<rparr>"
    if "i < length servers" for i
  proof -
    have "ss ! i = us ! i" using that l by (simp add: s(3) nth_append)
    moreover have "told (node_name ?n) (Pk t) (servers ! i) (us ! i)" using list_all2_nthD [OF conjunct2 [OF tables] that] .
    moreover have "Pks (pb_Signer c') (sv_Name (servers ! i)) = signer_key (servers ! i)" using tables that by simp
    ultimately show ?thesis by (auto simp: told_def signer_key_def c'(2))
  qed
  moreover have "Pks (pb_Signer c2) = (Pks (pb_Signer c'))(node_name ?n \<mapsto> Pk (pb_Signer c'))"
    if "pb_SyncInfo c' nm leader = Some c2" for nm leader c2
    using pb_SyncInfo_keys [OF that] by (simp add: c'(3))
  ultimately show ?thesis using last by (intro exI [of _ c']) auto
qed

definition pbft_gen :: gen where
  "pbft_gen = demo_gen\<lparr>gen_ssm2 := ssm2_NewSigners [Inr (Some [1], Some [1])]\<rparr>"

lemma pbft_gen_signer: "\<exists>t. ssm2_NewSigners [Inr (Some [1], Some [1])] 1 = Some [t]"
  by (simp add: ssm2_NewSigners_def)

theorem pbft_joiner_keys_witness:
  "\<exists>s ss w'. sv_Name s = node_name 0 \<and> NewServerJoin node_demo_env pbft_gen [s] 0 demo_world = Some (ss, w') \<and>
     (\<exists>c. PBFTConsensus (sv_Orderer (last ss)) = Some c \<and> \<not> ssm2_VerifySign node_demo_env (pb_Signer c) (node_name 1) (Some []) [])"
proof -
  obtain t where t: "ssm2_NewSigners [Inr (Some [1], Some [1])] 1 = Some [t]" using pbft_gen_signer by blast
  have m: "signer_matches CT_PBFT (Ssm2Signer t)" by (simp add: signer_matches_def)
  obtain s where s: "NewServer node_demo_env (Inr (None, None)) None None (int 0) (int 1) [] CT_PBFT NMT_BASIC (Ssm2Signer t) 0 = Some (Inr s)"
    "fresh_server CT_PBFT 0 0 None s"
    using NewServer_fresh [OF m, of node_demo_env None None None None 0 1 "[]" 0] by blast
  obtain c where c: "PBFTConsensus (sv_Orderer s) = Some c" using NewServer_pbft [OF s(1)] by blast
  have ct: "ConsType (sv_Orderer s) = CT_PBFT" and name: "sv_Name s = node_name 0" using s(2) by (auto simp: fresh_server_def ord_wf_def)
  obtain s' where s': "NewServer node_demo_env (gen_keys pbft_gen 1) (client_key1 pbft_gen) (client_key2 pbft_gen) (int 1) (int 1) ''./BCData'' CT_PBFT NMT_BASIC (Ssm2Signer t) 0 = Some (Inr s')"
    using NewServer_fresh [OF m, of node_demo_env "Some [1]" "Some [1]" "client_key1 pbft_gen" "client_key2 pbft_gen" 1 1 "''./BCData''" 0]
    by (auto simp: pbft_gen_def demo_gen_def)
  obtain c' where c': "PBFTConsensus (sv_Orderer s') = Some c'" using NewServer_pbft [OF s'] by blast
  have g: "GenSigners pbft_gen CT_PBFT 1 = Some [Ssm2Signer t]" using t by (simp add: GenSigners_def pbft_gen_def)
  have "\<exists>ss w'. NewServerJoin node_demo_env pbft_gen [s] 0 demo_world = Some (ss, w') \<and> length ss = 2"
    using g s' c c' by (simp add: NewServerJoin_def ct signer_key_def learn_key_def on_pbft_def Let_def case_prod_beta)
  then obtain ss w' where j: "NewServerJoin node_demo_env pbft_gen [s] 0 demo_world = Some (ss, w')" "length [s] < length ss" by auto
  have "\<forall>u \<in> set [s]. sv_Name u \<noteq> node_name (int (length [s]))" "ConsType (sv_Orderer (hd [s])) = CT_PBFT" using name ct by simp_all
  from pbft_joiner_keys [OF j this(2,1) _, where keygen = "[Inr (Some [1], Some [1])]" and sign = "Some []" and m = "[]"] name j(1)
  show ?thesis by (auto simp: pbft_gen_def)
qed

section \<open>Batches\<close>

lemma read_reqs_length: "read_reqs un d k = Inr reqs \<Longrightarrow> length reqs = k"
proof (induction k arbitrary: d reqs)
  case (Suc k)
  then show ?case by (auto split: option.splits sum.splits)
qed simp

lemma ReadReq_length: "ReadReq fm fs n l = Some (Inr reqs) \<Longrightarrow> 0 \<le> n \<and> int (length reqs) = n"
  by (auto simp: ReadReq_def dest!: read_reqs_length split: if_splits option.splits)

lemma push_requests_cases:
  assumes "push_requests ss reqs = Some (found, ts)"
  shows "if found then \<exists>i < length ss. \<exists>t. send_flag ((ss ! i)\<lparr>Requests := Requests (ss ! i) @ reqs\<rparr>) = Some t \<and> ts = ss[i := t] \<and>
       int (length (Requests (ss ! i)) + length reqs) \<le> BatchSize (ss ! i) \<and> ord_IsLeader (sv_Orderer (ss ! i)) = Some True
     else ts = ss"
  using assms
proof (induction ss arbitrary: ts)
  case (Cons s ss)
  show ?case
  proof (cases "\<exists>us. ts = s # us \<and> push_requests ss reqs = Some (found, us)")
    case True
    then obtain us where us: "ts = s # us" "push_requests ss reqs = Some (found, us)" by blast
    from Cons.IH [OF us(2)] show ?thesis
    proof (cases found)
      case True
      with Cons.IH [OF us(2)] obtain i t where "i < length ss" "send_flag ((ss ! i)\<lparr>Requests := Requests (ss ! i) @ reqs\<rparr>) = Some t"
        "us = ss[i := t]" "int (length (Requests (ss ! i)) + length reqs) \<le> BatchSize (ss ! i)" "ord_IsLeader (sv_Orderer (ss ! i)) = Some True"
        by auto
      with True us(1) show ?thesis by (simp, intro exI [of _ "Suc i"]) simp
    qed (use us in simp)
  next
    case False
    with Cons.prems obtain t where "found" "ts = t # ss" "send_flag (s\<lparr>Requests := Requests s @ reqs\<rparr>) = Some t"
      "int (length (Requests s) + length reqs) \<le> BatchSize s" "ord_IsLeader (sv_Orderer s) = Some True"
      by (auto simp: bind_Some_iff split: if_splits)
    then show ?thesis by (simp, intro exI [of _ 0]) simp
  qed
qed simp

text \<open>
  C14 Batches: while the servers keep the batch size of an automatic command, every pass that hands out
  its batch gives it, whole and alone, to one leader that had no requests, and raises the flag of that
  leader; and a longer list of requests is never handed out, so its loop does not end.
\<close>

theorem auto_batches:
  assumes "AutoGenNewReq env fm fs servers w params = Some (Inr (ss0, w', j))"
    and "auto_params params = (num, batch, len)" "0 < batch" "\<forall>s \<in> set ss. BatchSize s = batch"
  shows "(\<forall>s \<in> set ss0. BatchSize s = batch) \<and> int (j_left j) = max 0 num \<and>
    (job_pass ss j = Some (ss', j') \<longrightarrow> j_left j' \<noteq> j_left j \<longrightarrow>
       (\<exists>i < length ss. Requests (ss ! i) = [] \<and> Requests (ss' ! i) = j_reqs j \<and> ord_IsLeader (sv_Orderer (ss ! i)) = Some True \<and>
          ReqFlagChan (sv_Orderer (ss' ! i)) = Some [True] \<and> (\<forall>k. k \<noteq> i \<longrightarrow> ss' ! k = ss ! k))) \<and>
    (batch < int (length reqs) \<longrightarrow> GenNewReq ss reqs = Some (found, ts) \<longrightarrow> \<not> found \<and> ts = ss)"
proof -
  from assms(1,2) obtain reqs0 where r: "ReadReq fm fs batch len = Some (Inr reqs0)"
    "tell_client env (map (\<lambda>s. s\<lparr>BatchSize := batch\<rparr>) servers) w = Some (ss0, w')" "j = \<lparr>j_left = nat num, j_reqs = reqs0\<rparr>"
    by (cases "ReadReq fm fs batch len"; cases "the (ReadReq fm fs batch len)") (auto simp: AutoGenNewReq_def bind_Some_iff Let_def)
  have len: "int (length reqs0) = batch" using ReadReq_length [OF r(1)] by simp
  have "\<forall>s \<in> set ss0. BatchSize s = batch"
    using r(2) by (auto simp: tell_client_def bind_Some_iff Let_def case_prod_beta split: list.splits if_splits)
  moreover have "\<exists>i < length ss. Requests (ss ! i) = [] \<and> Requests (ss' ! i) = j_reqs j \<and> ord_IsLeader (sv_Orderer (ss ! i)) = Some True \<and>
          ReqFlagChan (sv_Orderer (ss' ! i)) = Some [True] \<and> (\<forall>k. k \<noteq> i \<longrightarrow> ss' ! k = ss ! k)"
    if "job_pass ss j = Some (ss', j')" "j_left j' \<noteq> j_left j"
  proof -
    have "reqs0 \<noteq> []" using len assms(3) by auto
    then have "push_requests ss reqs0 = Some (True, ss')" using that by (auto simp: job_pass_def GenNewReq_def r(3) bind_Some_iff split: if_splits)
    from push_requests_cases [OF this] obtain i t where i: "i < length ss" "send_flag ((ss ! i)\<lparr>Requests := Requests (ss ! i) @ reqs0\<rparr>) = Some t"
      "ss' = ss[i := t]" "int (length (Requests (ss ! i)) + length reqs0) \<le> BatchSize (ss ! i)" "ord_IsLeader (sv_Orderer (ss ! i)) = Some True"
      by auto
    have "Requests (ss ! i) = []" using i(1,4) assms(4) len by simp
    with i show ?thesis by (intro exI [of _ i]) (auto simp: r(3) send_flag_def split: option.splits list.splits)
  qed
  moreover have "\<not> found \<and> ts = ss" if "batch < int (length reqs)" "GenNewReq ss reqs = Some (found, ts)"
  proof -
    have "push_requests ss reqs = Some (found, ts)" using that assms(3) by (auto simp: GenNewReq_def split: if_splits)
    from push_requests_cases [OF this] that(1) assms(4) show ?thesis by (auto split: if_splits)
  qed
  ultimately show ?thesis using r(3) by (auto simp: max_def)
qed

lemma IsWaitingReq_wf: "ord_wf ct r \<Longrightarrow> \<exists>b. IsWaitingReq r = Some b"
  by (cases ct) (auto simp: IsWaitingReq_def of_core_def ord_wf_def)

lemma push_not_big:
  "\<forall>s \<in> set ss. (\<exists>ct. ord_wf ct (sv_Orderer s)) \<and> BatchSize s < int (length reqs) \<Longrightarrow> push_requests ss reqs = Some (False, ss)"
proof (induction ss)
  case (Cons s ss)
  then obtain ct where ct: "ord_wf ct (sv_Orderer s)" by auto
  obtain b b' where "ord_IsLeader (sv_Orderer s) = Some b" "IsWaitingReq (sv_Orderer s) = Some b'"
    using ord_IsLeader_wf [OF ct] IsWaitingReq_wf [OF ct] by blast
  with Cons show ?case by (cases b) simp_all
qed simp

theorem auto_batches_witness:
  "\<exists>s ss w j. AutoGenNewReq node_demo_env example_formats [''../../config/request/request1'' \<mapsto> req_lines [([9], [3])]] [s] demo_world [''5'', ''1'', ''1''] =
       Some (Inr (ss, w, j)) \<and> j_left j = 5 \<and> length ss = 1 \<and>
     GenNewReq ss [\<lparr>rq_Id = ''c_0'', rq_Cmd = [1], rq_Sign = []\<rparr>, \<lparr>rq_Id = ''c_0'', rq_Cmd = [2], rq_Sign = []\<rparr>] = Some (False, ss)"
proof -
  let ?fs = "[''../../config/request/request1'' \<mapsto> req_lines [([9], [3])]] :: files"
  let ?reqs = "[\<lparr>rq_Id = ''c_0'', rq_Cmd = [1], rq_Sign = []\<rparr>, \<lparr>rq_Id = ''c_0'', rq_Cmd = [2], rq_Sign = []\<rparr>]"
  obtain s where new: "NewServer node_demo_env (Inr (None, None)) None None (int 0) (int 1) [] CT_CHAINED NMT_BASIC (TssSigner demo_tss) 0 = Some (Inr s)"
    "fresh_server CT_CHAINED 0 0 None s"
    using NewServer_fresh [of CT_CHAINED "TssSigner demo_tss" node_demo_env None None None None 0 1 "[]" 0] by (auto simp: signer_matches_def)
  have wf: "ord_wf CT_CHAINED (sv_Orderer s)" using new(2) by (simp add: fresh_server_def)
  have "map_of (Clients s) ''c_0'' \<noteq> None"
    using new(1) by (auto simp: NewServer_def sv_InitConsensus_def InitNodeManager_def Let_def bind_Some_iff)
  then obtain t w where t: "tell_client node_demo_env [s\<lparr>BatchSize := 1\<rparr>] demo_world = Some ([t], w)" "sv_Orderer t = sv_Orderer s" "BatchSize t = 1"
    by (auto simp: tell_client_def case_prod_beta Let_def)
  have i1: "Itoa 1 = ''1''" by code_simp
  have par: "auto_params [''5'', ''1'', ''1''] = (5, 1, 1)"
    by (simp add: auto_params_def Atoi_def Atoi_unsigned_def is_digit_char_def)
  have un: "json_inverse (un_json example_formats)" by (simp add: example_formats_def json_inverse_unjson)
  have "ReadReq example_formats ?fs 1 1 = Some (Inr [\<lparr>rq_Id = ''c_0'', rq_Cmd = [9], rq_Sign = [3]\<rparr>])"
    using read_reqs_lines [OF un, of "[([9], [3])]" 1] by (simp add: ReadReq_def i1)
  then have gen: "AutoGenNewReq node_demo_env example_formats ?fs [s] demo_world [''5'', ''1'', ''1''] =
      Some (Inr ([t], w, \<lparr>j_left = nat 5, j_reqs = [\<lparr>rq_Id = ''c_0'', rq_Cmd = [9], rq_Sign = [3]\<rparr>]\<rparr>))"
    using t(1) by (simp add: AutoGenNewReq_def par Let_def)
  have "GenNewReq [t] ?reqs = Some (False, [t])"
    using push_not_big [of "[t]" ?reqs] wf t(2,3) by (auto simp: GenNewReq_def simp del: push_requests.simps)
  moreover have "j_left \<lparr>j_left = nat 5, j_reqs = [\<lparr>rq_Id = ''c_0'', rq_Cmd = [9], rq_Sign = [3]\<rparr>]\<rparr> = 5"
    using auto_batches [OF gen par, of "[t]" "[t]" undefined ?reqs False "[t]"] t(3) by simp
  ultimately show ?thesis using gen by (intro exI [of _ s] exI [of _ "[t]"] exI [of _ w] exI conjI) (assumption | simp)+
qed

section \<open>One line on both sides\<close>

lemma split_at_word: "sep \<notin> set w \<Longrightarrow> split_at sep w = [w]" "sep \<notin> set w \<Longrightarrow> split_at sep (w @ sep # rest) = w # split_at sep rest"
  by (induction w) auto

lemma digit_not_space: "is_digit_char c \<Longrightarrow> c \<notin> {CHR '' '', CHR 0x09, CHR 0x0A, CHR 0x0B, CHR 0x0C, CHR 0x0D}"
  by (auto simp: is_digit_char_def)

lemma Itoa_chars: "c \<in> set (Itoa i) \<Longrightarrow> is_digit_char c \<or> c = CHR ''-''"
  using nat_digits_digits by (auto simp: Itoa_def list_all_iff split: if_splits)

lemma Itoa_no_space: "c \<in> {CHR '' '', CHR 0x09, CHR 0x0A, CHR 0x0B, CHR 0x0C, CHR 0x0D} \<Longrightarrow> c \<notin> set (Itoa i)"
  using Itoa_chars [of c i] digit_not_space by auto

lemma Itoa_ne [simp]: "Itoa i \<noteq> []"
  by (simp add: Itoa_def)

lemma TrimRight_end: "w \<noteq> [] \<Longrightarrow> last w \<notin> X \<Longrightarrow> set e \<subseteq> X \<Longrightarrow> TrimRight (w @ e) X = w"
proof -
  assume a: "w \<noteq> []" "last w \<notin> X" "set e \<subseteq> X"
  then have "dropWhile (\<lambda>c. c \<in> X) (rev e @ rev w) = dropWhile (\<lambda>c. c \<in> X) (rev w)"
    by (subst dropWhile_append) (auto simp: subset_iff)
  also have "\<dots> = rev w" using a(1,2) by (cases "rev w") (auto simp: rev_swap)
  finally show ?thesis by (simp add: TrimRight_def)
qed

text \<open>
  One command, two readers: when the user types \<open>a n b l\<close> with three numbers, the client counts a
  batch size of b and n times b requests, and the servers, on the line it sends, read n batches of b
  requests of length l.
\<close>

theorem client_server_agree:
  assumes "\<forall>i \<in> {n, b, l}. - (2 ^ 63) \<le> i \<and> i < 2 ^ 63"
    and "line = ''a '' @ Itoa n @ '' '' @ Itoa b @ '' '' @ Itoa l"
  shows "\<exists>c' out. client_line x c (line @ [CHR 0x0A]) = Some (c', out) \<and>
    batchSize c' = b \<and> reqNum c' = reqNum c * n * b \<and> \<not> co_quit out \<and>
    hd (words (bytes2str (co_sent out))) = ''a'' \<and> auto_params (tl (words (bytes2str (co_sent out)))) = (n, b, l)"
proof -
  let ?sp = "{CHR '' '', CHR 0x09, CHR 0x0A, CHR 0x0B, CHR 0x0C, CHR 0x0D}"
  have last: "last line = last (Itoa l)" "line \<noteq> []" by (simp_all add: assms(2))
  have ns: "last line \<notin> ?sp" using Itoa_no_space [of "last line" l] last by (metis Itoa_ne last_in_set)
  have tr: "TrimSpace (line @ [CHR 0x0A]) = line"
    using TrimRight_end [OF last(2) ns, of "[CHR 0x0A]"] by (simp add: TrimSpace_def Let_def assms(2))
  have sp: "CHR '' '' \<notin> set (Itoa i)" for i by (rule Itoa_no_space) simp
  have split: "split_at (CHR '' '') line = [''a'', Itoa n, Itoa b, Itoa l]"
    using split_at_word [OF sp] by (simp add: assms(2))
  have w: "words (line @ [CHR 0x0A]) = [''a'', Itoa n, Itoa b, Itoa l]"
    using TrimRight_end [of line "{CHR 0x0D, CHR 0x0A}" "[CHR 0x0A]"] last(2) ns by (simp add: words_def split)
  have at: "Atoi (Itoa n) = Some n" "Atoi (Itoa b) = Some b" "Atoi (Itoa l) = Some l"
    using assms(1) Atoi_Itoa by simp_all
  have "length line \<noteq> 0" "hd line = CHR ''a''" using assms(2) by simp_all
  then show ?thesis
    by (simp add: client_line_def tr Let_def split parse_auto_def req_factor_def at w auto_params_def del: str2bytes_append)
qed

theorem client_server_agree_witness:
  "\<forall>x. \<exists>c c' out. NewClient (Inr (None, None)) ''a'' ''p'' = Some c \<and> client_line x c (''a 3 8 128'' @ [CHR 0x0A]) = Some (c', out) \<and>
     batchSize c' = 8 \<and> reqNum c' = 24 \<and> auto_params (tl (words (bytes2str (co_sent out)))) = (3, 8, 128)"
proof
  fix x
  obtain c where c: "NewClient (Inr (None, None)) ''a'' ''p'' = Some c" "reqNum c = 1" by (simp add: NewClient_def)
  have l: "''a 3 8 128'' = ''a '' @ Itoa 3 @ '' '' @ Itoa 8 @ '' '' @ Itoa 128" by code_simp
  from client_server_agree [OF _ l, of x c] c
  show "\<exists>c c' out. NewClient (Inr (None, None)) ''a'' ''p'' = Some c \<and> client_line x c (''a 3 8 128'' @ [CHR 0x0A]) = Some (c', out) \<and>
     batchSize c' = 8 \<and> reqNum c' = 24 \<and> auto_params (tl (words (bytes2str (co_sent out)))) = (3, 8, 128)" by auto
qed

section \<open>The count of the stored requests\<close>

text \<open>The count needs every block and ten bytes of the first request of each; then it is the total.\<close>

lemma count_blocks_total:
  assumes "\<forall>i \<in> set is. \<exists>b t ts. files (block_file dir (int i)) = Some b \<and> bd_Trans (BlkData b) = t # ts \<and> 10 \<le> cap (length t)"
  shows "count_blocks cap files dir is n =
    Some (n + (\<Sum>i\<leftarrow>is. int (length (bd_Trans (BlkData (the (files (block_file dir (int i)))))))))"
  using assms by (induction "is" arbitrary: n) auto

lemma count_blocks_short:
  assumes "i \<in> set is" "files (block_file dir (int i)) = Some b" "bd_Trans (BlkData b) = t # ts" "cap (length t) < 10"
  shows "count_blocks cap files dir is n = None"
  using assms(1)
proof (induction "is" arbitrary: n)
  case (Cons k "is")
  show ?case
  proof (cases "k = i")
    case False
    with Cons have "count_blocks cap files dir is m = None" for m by simp
    then show ?thesis by (cases "files (block_file dir (int k))") (simp_all split: list.split)
  qed (use assms(2-4) in simp)
qed simp

lemma start_request_without_words: "start_command env e d ''r'' = None"
  by (simp add: start_command_def words_def TrimRight_def)

end
