(* ===== verification/Drv_Core.thy ===== *)
theory Drv_Core
  imports Fac_Core
begin

text \<open>
  The earlier driver (orderer/factory): a node that holds one of the four cores and a node manager and
  sends the messages of the core itself, without signing them. It gives the core no send channel; the
  channel the node reads from is also the forward channel of the core, into which an expired timer
  puts its message. A handler takes and returns the world of channels of \<open>Srv_Core\<close>; \<open>None\<close> is a panic,
  a nil pointer among them, or a call that blocks for ever.
\<close>

section \<open>The state (node.go)\<close>

text \<open>What encoding/json leaves in a variable when its errors are ignored.\<close>

record drv_env = node_env +
  left_CMsg :: "byte list \<Rightarrow> CMsg"
  left_Mgmt :: "byte list \<Rightarrow> NodeMgmtMsg"

text \<open>A goroutine that was started and has not run yet.\<close>

datatype drv_go = Go_NMMsg NodeMgmtMsg | Go_CMsg CMsg | Go_Preprepare

text \<open>
  \<open>nd_Inbox\<close> is the channel the loop of the node reads from, which is the forward channel of its core,
  \<open>nd_Workers\<close> the number of running loops \<open>HandleReq\<close>, \<open>nd_Go\<close> the other goroutines. The field \<open>Cons\<close>,
  which nothing reads, is left out.
\<close>

record Node =
  NodeID :: PrivID
  nd_HandleState :: bool
  nd_ReqState :: bool
  nd_ConsType :: ConsensusType
  nd_Basic :: "BCHotstuff option"
  nd_Chained :: "CHotstuff option"
  nd_Hs2 :: "Hotstuff2 option"
  nd_PBFT :: "PBFT option"
  nd_NMType :: nm_Type
  nd_Manager :: bc_NodeManager
  nd_BlkStore :: BlockStore
  nd_Requests :: "byte list list"
  nd_Inbox :: chan_ref
  nd_Workers :: nat
  nd_Go :: "drv_go list"

abbreviation nd_Name :: "Node \<Rightarrow> string" where
  "nd_Name n \<equiv> pid_Name (pid_ID (NodeID n))"

text \<open>
  A new core has a nil signer; whoever makes a node gives it one before a message can reach it, so the
  signer of a core is a record, and these two stand for nil.
\<close>

definition no_tss :: tss_Signer where
  "no_tss = \<lparr>PrivateKey = (0, []), PublicKey = [], SignNum = 0, Threshold = 0\<rparr>"

definition no_ssm2 :: ssm2_Signer where
  "no_ssm2 = \<lparr>ID = [], Pk = None, Sk = None, Pks = (\<lambda>_. None)\<rparr>"

definition nd_InitConsensus :: "'a env_scheme \<Rightarrow> Node \<Rightarrow> ConsensusType \<Rightarrow> string \<Rightarrow> int \<Rightarrow> Node" where
  "nd_InitConsensus env n consType path i =
     (case consType of
        CT_BASIC \<Rightarrow> n\<lparr>nd_Basic := Some (NewBCHotstuff env 2000 i 0 path None no_tss)\<rparr>
      | CT_CHAINED \<Rightarrow> n\<lparr>nd_Chained := Some (NewChainedHotstuff env 2000 i 0 path None no_tss)\<rparr>
      | CT_HOTSTUFF_2 \<Rightarrow> n\<lparr>nd_Hs2 := Some (NewHotstuff2 500 2000 i 0 path None no_tss)\<rparr>
      | CT_PBFT \<Rightarrow> n\<lparr>nd_PBFT := Some (NewPBFT env 2000 i 0 path None no_ssm2)\<rparr>
      | CT_other _ \<Rightarrow> n)"

definition nd_InitNodeManager :: "Node \<Rightarrow> nm_Type \<Rightarrow> int \<Rightarrow> NodeKey table \<Rightarrow> nat \<Rightarrow> Node" where
  "nd_InitNodeManager n nmType i nodesTable mp =
     (if nmType = NMT_BASIC then n\<lparr>nd_Manager := bc_NewNodeManager i nodesTable mp\<rparr> else n)"

text \<open>
  \<open>NewNode\<close>: the error of the key generation is ignored, so \<open>keys\<close> may be nil. \<open>mp\<close> is the address of
  the new, empty map of channels. The field \<open>NMType\<close> is not set.
\<close>

definition NewNode_of :: "'a env_scheme \<Rightarrow> bytes \<times> bytes \<Rightarrow> int \<Rightarrow> ConsensusType \<Rightarrow> string \<Rightarrow> nat \<Rightarrow> World \<Rightarrow> Node \<times> World" where
  "NewNode_of env keys i consType path mp w =
     (let name = ''r_'' @ Itoa i;
          (sk, pk) = keys;
          nodesTable = [(name, \<lparr>nk_Name = name, Sm2PubKey = pk, Sm4Key = None\<rparr>)];
          n = \<lparr>NodeID = \<lparr>pid_ID = \<lparr>pid_Name = name, pid_PubKey = pk\<rparr>, Address = Some name, sid_PrivateKey = sk\<rparr>,
               nd_HandleState = True, nd_ReqState = True, nd_ConsType = consType, nd_Basic = None, nd_Chained = None,
               nd_Hs2 = None, nd_PBFT = None, nd_NMType = NMT_other [], nd_Manager = bc_NewNodeManager 0 [] 0,
               nd_BlkStore = nil_BlockStore, nd_Requests = [], nd_Inbox = None, nd_Workers = 0, nd_Go = []\<rparr>;
          n = nd_InitNodeManager n NMT_BASIC i nodesTable mp
      in (nd_InitConsensus env n consType path i, w\<lparr>Maps := (Maps w)(mp := [])\<rparr>))"

section \<open>Queries (node.go)\<close>

definition nd_InitHeight :: "Node \<Rightarrow> string list \<Rightarrow> Node" where
  "nd_InitHeight n walked =
     (let blkNum = GetBlockHeight walked
      in if blkNum > 0 then n\<lparr>nd_BlkStore := (nd_BlkStore n)\<lparr>bs_Height := blkNum\<rparr>\<rparr> else n)"

definition nd_GetNodeNames :: "Node \<Rightarrow> World \<Rightarrow> string list" where
  "nd_GetNodeNames n w = GetNodeNames (Maps w) (nd_Manager n)"

definition nd_GetOtherNodeNames :: "Node \<Rightarrow> World \<Rightarrow> string list option" where
  "nd_GetOtherNodeNames n w = GetOtherNodeNames (Maps w) (nd_Manager n)"

definition nd_GetLeaderNum :: "Node \<Rightarrow> int option" where
  "nd_GetLeaderNum n = do {
     c \<leftarrow> nd_Basic n;
     let k = int (length (NodesTable (nd_Manager n)));
     if k = 0 then None else Some (ViewNumber (hs_View c) smod k)
   }"

definition nd_GetLeader :: "Node \<Rightarrow> string option" where
  "nd_GetLeader n = do { k \<leftarrow> nd_GetLeaderNum n; Some (''r_'' @ Itoa k) }"

definition nd_Execute :: bool where
  "nd_Execute = True"

definition nd_Sign :: "'a env_scheme \<Rightarrow> Node \<Rightarrow> byte list \<Rightarrow> byte list option" where
  "nd_Sign env n msg = Sm2Sign env (sid_PrivateKey (NodeID n)) (pid_PubKey (pid_ID (NodeID n))) msg"

definition nd_VerifySign :: "'a env_scheme \<Rightarrow> byte list \<Rightarrow> bytes \<Rightarrow> bytes \<Rightarrow> bool" where
  "nd_VerifySign env msg pubKey sign = Sm2Verify env sign pubKey msg"

section \<open>Sending\<close>

text \<open>The sends of basic HotStuff and of the node manager: a named group, the new node, or a node of the map.\<close>

definition drv_send :: "Node \<Rightarrow> string \<Rightarrow> string \<Rightarrow> byte list \<Rightarrow> World \<Rightarrow> World option" where
  "drv_send n reci sender msgJson w =
     (let nm = nd_Manager n; chans = Maps w (NodesChannel nm) in
      if reci = ''Broadcast'' then send_each (map snd chans) msgJson w
      else if reci = ''Gossip'' then send_each (map snd (filter (\<lambda>(k, ch). k \<noteq> sender) chans)) msgJson w
      else if reci = ni_Name (NewNode nm) then chan_send_to (ni_Chan (NewNode nm)) msgJson w
      else chan_send_to (chan_at chans reci) msgJson w)"

definition SendBMsg :: "'a node_env_scheme \<Rightarrow> Node \<Rightarrow> Msg \<Rightarrow> World \<Rightarrow> World option" where
  "SendBMsg env n msg w = drv_send n (ReciNode msg) (SendNode msg) (enc_Msg env msg) w"

definition SendNMMsg :: "'a node_env_scheme \<Rightarrow> Node \<Rightarrow> NodeMgmtMsg \<Rightarrow> World \<Rightarrow> World option" where
  "SendNMMsg env n msg w = drv_send n (nm_ReciNode msg) (nm_SendNode msg) (enc_Mgmt env msg) w"

text \<open>The other protocols know fewer groups.\<close>

definition SendCMsg :: "'a node_env_scheme \<Rightarrow> Node \<Rightarrow> CMsg \<Rightarrow> World \<Rightarrow> World option" where
  "SendCMsg env n msg w =
     (let chans = Maps w (NodesChannel (nd_Manager n)); msgJson = enc_CMsg env msg in
      if cm_ReciNode msg = ''Broadcast'' then send_each (map snd chans) msgJson w
      else chan_send_to (chan_at chans (cm_ReciNode msg)) msgJson w)"

definition drv_send4 :: "Node \<Rightarrow> string \<Rightarrow> byte list \<Rightarrow> World \<Rightarrow> World option" where
  "drv_send4 n reci msgJson w =
     (let chans = Maps w (NodesChannel (nd_Manager n)) in
      if reci = ''Broadcast'' then send_each (map snd chans) msgJson w
      else if reci = ''Gossip'' then send_each (map snd (filter (\<lambda>(k, ch). k \<noteq> nd_Name n) chans)) msgJson w
      else if reci = ''Forward'' then chan_send_to (chan_at chans (nd_Name n)) msgJson w
      else chan_send_to (chan_at chans reci) msgJson w)"

definition SendH2Msg :: "'a node_env_scheme \<Rightarrow> Node \<Rightarrow> H2Msg \<Rightarrow> World \<Rightarrow> World option" where
  "SendH2Msg env n msg w = drv_send4 n (h_ReciNode msg) (enc_H2Msg env msg) w"

definition SendPMsg :: "'a node_env_scheme \<Rightarrow> Node \<Rightarrow> PMsg \<Rightarrow> World \<Rightarrow> World option" where
  "SendPMsg env n msg w = drv_send4 n (p_ReciNode (hd_of msg)) (enc_PMsg env msg) w"

section \<open>Basic HotStuff: consensus messages and requests (hotstuff\_basic\_node.go)\<close>

text \<open>The message a core returns is named, recorded and sent.\<close>

definition send_round :: "'a node_env_scheme \<Rightarrow> Node \<Rightarrow> BCHotstuff \<Rightarrow> Msg \<Rightarrow> World \<Rightarrow> (Node \<times> World) option" where
  "send_round env n c r w = do {
     let r = r\<lparr>SendNode := nd_Name n\<rparr>;
     let n = n\<lparr>nd_Basic := Some (c\<lparr>CurRoundMsg := CurRoundMsg c @ [r]\<rparr>)\<rparr>;
     w \<leftarrow> SendBMsg env n r w;
     Some (n, w)
   }"

definition HandleConsMsg :: "'a node_env_scheme \<Rightarrow> Node \<Rightarrow> Msg \<Rightarrow> World \<Rightarrow> (Node \<times> World) option" where
  "HandleConsMsg env n msg w = do {
     c \<leftarrow> nd_Basic n;
     if ViewChangeSendFlag c \<and> MType msg = HS_NEW_VIEW \<and> SendNode msg = nd_Name n then do {
       w \<leftarrow> SendBMsg env n msg w;
       Some (n\<lparr>nd_Basic := Some (c\<lparr>ViewChangeSendFlag := False\<rparr>)\<rparr>, w)
     }
     else do {
       (msgReturn, c) \<leftarrow> RouteBMsg env c msg None;
       case msgReturn of
         None \<Rightarrow> Some (n\<lparr>nd_Basic := Some c\<rparr>, w)
       | Some r \<Rightarrow> do {
           (n, w) \<leftarrow> send_round env n c r w;
           c \<leftarrow> nd_Basic n;
           if MType r = HS_NEW_VIEW \<and> \<not> Proposal_IsEmpty (CurProposal c) then
             if nd_Execute then Some (n\<lparr>nd_Basic := Some (UpdateBasicHotstuff c)\<rparr>, w) else Some (n, w)
           else Some (n, w)
         }
     }
   }"

text \<open>
  One pass of the loop \<open>HandleReq\<close>: the leader takes all requests as its proposal, whatever its phase,
  and proposes when it waits. The loop ends when \<open>ReqState\<close> is false.
\<close>

definition nd_HandleReq :: "'a node_env_scheme \<Rightarrow> Node \<Rightarrow> World \<Rightarrow> (Node \<times> World) option" where
  "nd_HandleReq env n w =
     (if nd_Workers n = 0 then Some (n, w)
      else if \<not> nd_ReqState n then Some (n\<lparr>nd_Workers := nd_Workers n - 1\<rparr>, w)
      else if nd_Requests n = [] then Some (n, w)
      else do {
        c \<leftarrow> nd_Basic n;
        if nd_Name n \<noteq> bhs_GetLeaderName c then Some (n, w)
        else do {
          let c = c\<lparr>CurProposal := nil_Proposal\<lparr>pr_Height := bs_Height (nd_BlkStore n), pr_PreBlkHash := bs_PreBlkHash (nd_BlkStore n),
                pr_RootHash := Some (HashFromByteSlicesIterative (SM3 env) (nd_Requests n)), Commands := Some (nd_Requests n)\<rparr>\<rparr>;
          let n = n\<lparr>nd_Basic := Some c, nd_Requests := []\<rparr>;
          if CurPhase c = HS_WAITING then do {
            (msgReturn, c) \<leftarrow> GenProposal env c;
            case msgReturn of
              None \<Rightarrow> Some (n\<lparr>nd_Basic := Some c\<rparr>, w)
            | Some r \<Rightarrow> send_round env n c r w
          }
          else Some (n, w)
        }
      })"

section \<open>Stop, restart, update (hotstuff\_basic\_node.go, node.go)\<close>

definition nd_Stop :: "Node \<Rightarrow> Node option" where
  "nd_Stop n = do {
     let n = n\<lparr>nd_HandleState := False, nd_ReqState := False\<rparr>;
     c \<leftarrow> nd_Basic n;
     c \<leftarrow> stop_ViewTimer c;
     Some (n\<lparr>nd_Basic := Some c\<rparr>)
   }"

definition RestartNode :: "'a node_env_scheme \<Rightarrow> Node \<Rightarrow> World \<Rightarrow> (Node \<times> World) option" where
  "RestartNode env n w = do {
     c \<leftarrow> nd_Basic n;
     let c = bhs_ClearCurrentRound env c;
     let n = n\<lparr>nd_Basic := Some c, nd_HandleState := True, nd_ReqState := True, nd_Workers := Suc (nd_Workers n)\<rparr>;
     if bhs_GetLeaderName c = nd_Name n then
       if \<not> Proposal_IsEmpty (CurProposal c) then do {
         (msgReturn, c) \<leftarrow> GenProposal env c;
         case msgReturn of
           None \<Rightarrow> Some (n\<lparr>nd_Basic := Some c\<rparr>, w)
         | Some r \<Rightarrow> send_round env n c r w
       }
       else Some (n\<lparr>nd_Basic := Some (c\<lparr>CurPhase := HS_WAITING\<rparr>)\<rparr>, w)
     else Some (n, w)
   }"

text \<open>The original nodes' half of \<open>UpdateNodeInfo\<close>, which is also all of \<open>DeleteNodeInfo\<close>.\<close>

definition update_known :: "Node \<Rightarrow> World \<Rightarrow> (Node \<times> World) option" where
  "update_known n w = do {
     let (h, nm) = UpdateNewNodeInfo (Maps w) (nd_Manager n);
     c \<leftarrow> nd_Basic n;
     let c = bhs_UpdateNodesNum c (int (length (NodesTable nm)));
     Some (n\<lparr>nd_Basic := Some c, nd_Manager := ResetNodeManager nm\<rparr>, w\<lparr>Maps := h\<rparr>)
   }"

definition nd_UpdateNodeInfo :: "'a node_env_scheme \<Rightarrow> Node \<Rightarrow> int \<Rightarrow> World \<Rightarrow> (Node \<times> World) option" where
  "nd_UpdateNodeInfo env n index w =
     (let nm = nd_Manager n in
      if nd_Name n \<noteq> ni_Name (NewNode nm) then update_known n w
      else do {
        c \<leftarrow> nd_Basic n;
        let c = bhs_UpdateNodesNum c (int (length (NodesTable nm)));
        m \<leftarrow> nth_sync (SyncMsgs nm) index;
        c \<leftarrow> bhs_SyncInfo c m (GetLeaderFromSyncMsgs (map_order env) nm (SyncMsgs nm));
        Some (n\<lparr>nd_Basic := Some c, nd_Manager := ResetNodeManager nm\<rparr>, w)
      })"

definition DeleteNodeInfo :: "Node \<Rightarrow> World \<Rightarrow> (Node \<times> World) option" where
  "DeleteNodeInfo n w = (if nd_Name n \<noteq> ni_Name (NewNode (nd_Manager n)) then update_known n w else Some (n, w))"

text \<open>
  \<open>nd_StartJoin\<close>: all the other nodes get the channel of the new node, and each of the nodes it
  knows an application. The log of the basic core is used, so another node panics.
\<close>

definition join_msg :: "Node \<Rightarrow> NodeKey \<Rightarrow> NodeMgmtMsg" where
  "join_msg n nodeKey =
     nil_NodeMgmtMsg\<lparr>nm_Type := NM_JOIN, nm_NMType := NM_APPLY,
       nm_NodeKey := \<lparr>nk_Name = ni_Name (NewNode (nd_Manager n)), Sm2PubKey = pid_PubKey (pid_ID (NodeID n)), Sm4Key = Sm4Key nodeKey\<rparr>,
       nm_SendNode := nd_Name n, nm_ReciNode := nk_Name nodeKey\<rparr>"

definition nd_StartJoin :: "Node \<Rightarrow> Node list \<Rightarrow> (Node \<times> Node list) option" where
  "nd_StartJoin n simulateNodes = do {
     _ \<leftarrow> nd_Basic n;
     let n = n\<lparr>nd_Manager := (nd_Manager n)\<lparr>mg_Mode := NM_JOIN\<rparr>\<rparr>;
     let ch = ni_Chan (NewNode (nd_Manager n));
     let others = map (\<lambda>m. m\<lparr>nd_Manager := (nd_Manager m)\<lparr>NewNode := (NewNode (nd_Manager m))\<lparr>ni_Chan := ch\<rparr>\<rparr>\<rparr>) simulateNodes;
     let known = filter (\<lambda>k. nk_Name k \<noteq> nd_Name n) (map snd (NodesTable (nd_Manager n)));
     let n = n\<lparr>nd_Go := nd_Go n @ map (\<lambda>k. Go_NMMsg (join_msg n k)) known\<rparr>;
     Some (n\<lparr>nd_Manager := (nd_Manager n)\<lparr>mg_State := NM_APPLY\<rparr>\<rparr>, others)
   }"

definition exit_msg :: "'a env_scheme \<Rightarrow> Node \<Rightarrow> NodeKey \<Rightarrow> NodeMgmtMsg" where
  "exit_msg env n nodeKey =
     nil_NodeMgmtMsg\<lparr>nm_Type := NM_EXIT, nm_NMType := NM_APPLY, nm_Leader := Clock env, nm_SendNode := nd_Name n,
       nm_ReciNode := nk_Name nodeKey\<rparr>"

fun nd_exit_each :: "'a env_scheme \<Rightarrow> Node \<Rightarrow> NodeKey list \<Rightarrow> Node option" where
  "nd_exit_each env n [] = Some n"
| "nd_exit_each env n (k # ks) = do {
     n \<leftarrow> (if nk_Name k = nd_Name n then nd_Stop n else Some (n\<lparr>nd_Go := nd_Go n @ [Go_NMMsg (exit_msg env n k)]\<rparr>));
     nd_exit_each env n ks
   }"

definition nd_StartExit :: "'a env_scheme \<Rightarrow> Node \<Rightarrow> Node option" where
  "nd_StartExit env n = do {
     _ \<leftarrow> nd_Basic n;
     let n = n\<lparr>nd_Manager := (nd_Manager n)\<lparr>mg_Mode := NM_EXIT\<rparr>\<rparr>;
     n \<leftarrow> nd_exit_each env n (map snd (NodesTable (nd_Manager n)));
     Some (n\<lparr>nd_Manager := (nd_Manager n)\<lparr>mg_State := NM_APPLY\<rparr>\<rparr>)
   }"

section \<open>The loop of a node with basic HotStuff (hotstuff\_basic\_node.go)\<close>

text \<open>An assignment to the first element of a slice; an empty one panics.\<close>

definition set_first :: "'b list \<Rightarrow> 'b \<Rightarrow> 'b list option" where
  "set_first xs x = (case xs of [] \<Rightarrow> None | _ # ys \<Rightarrow> Some (x # ys))"

definition nd_JoinSync :: "'a node_env_scheme \<Rightarrow> Node \<Rightarrow> NodeMgmtMsg \<Rightarrow> World \<Rightarrow> (Node \<times> World) option" where
  "nd_JoinSync env n msg w = do {
     ((msgSync, msgReturn), nm) \<leftarrow> HandleSync (nd_Manager n) msg;
     let n = n\<lparr>nd_Manager := nm\<rparr>;
     case msgReturn of
       None \<Rightarrow> Some (n, w)
     | Some r \<Rightarrow>
         if msgSync \<noteq> -1 \<and> mg_State nm = NM_SYNC then do {
           (n, w) \<leftarrow> nd_UpdateNodeInfo env n msgSync w;
           w \<leftarrow> SendNMMsg env n r w;
           Some (n, w)
         }
         else Some (n, w)
   }"

text \<open>The loops that wait until the signers have been replaced do not return before that.\<close>

definition nd_ready :: "Node \<Rightarrow> bool option" where
  "nd_ready n = do { c \<leftarrow> nd_Basic n; Some (NodesNum (hs_View c) = SignNum (ThresholdSigner c)) }"

definition nd_JoinRestart :: "'a node_env_scheme \<Rightarrow> Node \<Rightarrow> World \<Rightarrow> (Node \<times> World) option" where
  "nd_JoinRestart env n w = do { ready \<leftarrow> nd_ready n; if \<not> ready then None else RestartNode env n w }"

definition nd_JoinOther :: "'a node_env_scheme \<Rightarrow> Node \<Rightarrow> NodeMgmtMsg \<Rightarrow> World \<Rightarrow> (Node \<times> World) option" where
  "nd_JoinOther env n msg w = do {
     n \<leftarrow> nd_Stop n;
     let (r, nm) = HandleJoin (nd_Manager n) msg;
     let n = n\<lparr>nd_Manager := nm\<rparr>;
     c \<leftarrow> nd_Basic n;
     let r = r\<lparr>nm_ViewNumber := ViewNumber (hs_View c)\<rparr>;
     blks \<leftarrow> set_first (nm_Block r) (CurProposalBlk (BlkStore c));
     nodes \<leftarrow> set_first (nm_HsNodes r) (hs_HsNode c);
     let r = r\<lparr>nm_Block := blks, nm_HsNodes := nodes, nm_Justify := PrepareQC c, nm_Leader := Leader (hs_View c)\<rparr>;
     w \<leftarrow> SendNMMsg env n r w;
     nd_UpdateNodeInfo env n (-1) w
   }"

definition nd_ExitApply :: "'a node_env_scheme \<Rightarrow> Node \<Rightarrow> NodeMgmtMsg \<Rightarrow> World \<Rightarrow> (Node \<times> World) option" where
  "nd_ExitApply env n msg w = do {
     n \<leftarrow> nd_Stop n;
     let (r, nm) = HandleExit (Maps w) (nd_Manager n) msg;
     let n = n\<lparr>nd_Manager := nm\<rparr>;
     w \<leftarrow> SendNMMsg env n r w;
     nd_UpdateNodeInfo env n (-1) w
   }"

definition nd_ExitAgree :: "'a node_env_scheme \<Rightarrow> Node \<Rightarrow> NodeMgmtMsg \<Rightarrow> World \<Rightarrow> (Node \<times> World) option" where
  "nd_ExitAgree env n msg w =
     (let (msgReturn, nm) = HandleAgree (nd_Manager n) msg;
          n = n\<lparr>nd_Manager := nm\<rparr>
      in case msgReturn of
           None \<Rightarrow> Some (n, w)
         | Some r \<Rightarrow> do { w \<leftarrow> SendNMMsg env n r w; Some (n, w) })"

definition nd_ExitRestart :: "'a node_env_scheme \<Rightarrow> Node \<Rightarrow> NodeMgmtMsg \<Rightarrow> World \<Rightarrow> (Node \<times> World) option" where
  "nd_ExitRestart env n msg w = do {
     (n, w) \<leftarrow> nd_JoinRestart env n w;
     c \<leftarrow> nd_Basic n;
     c \<leftarrow> (if nm_SendNode msg = bhs_GetLeaderName c
            then do { v \<leftarrow> RefreshLeader (hs_View c); Some (c\<lparr>hs_View := v\<rparr>) } else Some c);
     let c = (if nd_Name n = bhs_GetLeaderName c then bhs_InitLeader env c else c);
     Some (n\<lparr>nd_Basic := Some c\<rparr>, w)
   }"

definition nd_HandleMgmt :: "'a node_env_scheme \<Rightarrow> Node \<Rightarrow> NodeMgmtMsg \<Rightarrow> World \<Rightarrow> (Node \<times> World) option" where
  "nd_HandleMgmt env n msg w =
     (if nm_Type msg = NM_JOIN then
        if nm_NMType msg = NM_SYNC then nd_JoinSync env n msg w
        else if nm_NMType msg = NM_RESTART then nd_JoinRestart env n w
        else nd_JoinOther env n msg w
      else if nm_Type msg = NM_EXIT then
        if nm_NMType msg = NM_APPLY then nd_ExitApply env n msg w
        else if nm_NMType msg = NM_AGREE then nd_ExitAgree env n msg w
        else if nm_NMType msg = NM_RESTART then nd_ExitRestart env n msg w
        else Some (n, w)
      else Some (n, w))"

text \<open>One pass of \<open>HandleMsg\<close>, with the bytes it has received: what is no consensus message is one of the manager.\<close>

definition nd_HandleMsg :: "'a drv_env_scheme \<Rightarrow> Node \<Rightarrow> byte list \<Rightarrow> World \<Rightarrow> (Node \<times> World) option" where
  "nd_HandleMsg env n msgJson w =
     (case dec_Msg env msgJson of
        Some msg \<Rightarrow> if nd_HandleState n then HandleConsMsg env n msg w else Some (n, w)
      | None \<Rightarrow> nd_HandleMgmt env n (left_Mgmt env msgJson) w)"

section \<open>Chained HotStuff (hotstuff\_chained\_node.go)\<close>

definition chained_one :: "Node \<Rightarrow> CMsg \<Rightarrow> Node option" where
  "chained_one n r = do {
     c \<leftarrow> nd_Chained n;
     let r = r\<lparr>cm_SendNode := nd_Name n\<rparr>;
     let c = (if cm_MType r = HS_GENERIC then c\<lparr>c_CurRoundMsg := Some r\<rparr> else c);
     let n = n\<lparr>nd_Go := nd_Go n @ [Go_CMsg r]\<rparr>;
     let c = (if cm_MType r = HS_NEW_VIEW \<and> ExecuteState c \<and> length (bval (bh_Validation (BlkHdr (at3 (c_Blocks c))))) \<noteq> 0 \<and> nd_Execute
              then c\<lparr>ExecuteState := False\<rparr> else c);
     Some (n\<lparr>nd_Chained := Some c\<rparr>)
   }"

fun chained_each :: "Node \<Rightarrow> CMsg list \<Rightarrow> Node option" where
  "chained_each n [] = Some n"
| "chained_each n (r # rs) = do { n \<leftarrow> chained_one n r; chained_each n rs }"

text \<open>A forwarded message of the own view change is sent on, and handled as well.\<close>

definition CHandleMsg :: "'a drv_env_scheme \<Rightarrow> Node \<Rightarrow> byte list \<Rightarrow> World \<Rightarrow> (Node \<times> World) option" where
  "CHandleMsg env n msgJson w = do {
     let msg = left_CMsg env msgJson;
     c \<leftarrow> nd_Chained n;
     let (n, c) = (if c_ViewChangeSendFlag c \<and> cm_MType msg = HS_NEW_VIEW \<and> cm_SendNode msg = nd_Name n
                   then (n\<lparr>nd_Go := nd_Go n @ [Go_CMsg msg]\<rparr>, c\<lparr>c_ViewChangeSendFlag := False\<rparr>) else (n, c));
     (rs, c) \<leftarrow> RouteCMsg env c msg;
     n \<leftarrow> chained_each (n\<lparr>nd_Chained := Some c\<rparr>) rs;
     Some (n, w)
   }"

text \<open>One pass of \<open>CHandleReq\<close>.\<close>

definition CHandleReq :: "'a node_env_scheme \<Rightarrow> Node \<Rightarrow> World \<Rightarrow> (Node \<times> World) option" where
  "CHandleReq env n w = do {
     c \<leftarrow> nd_Chained n;
     if c_CurPhase c \<noteq> HS_WAITING then Some (n, w)
     else if length (nd_Requests n) \<noteq> 0 \<and> chs_IsLeader c then do {
       root \<leftarrow> HashFromByteSlices (SM3 env) (nd_Requests n);
       let c = c\<lparr>c_CurProposal := nil_Proposal\<lparr>pr_Height := bs_Height (nd_BlkStore n), pr_PreBlkHash := bs_PreBlkHash (nd_BlkStore n),
             pr_RootHash := Some root, Commands := Some (nd_Requests n)\<rparr>\<rparr>;
       let n = n\<lparr>nd_Requests := []\<rparr>;
       (ret, c) \<leftarrow> chs_GenProposal env c;
       case ret of
         None \<Rightarrow> Some (n\<lparr>nd_Chained := Some c\<rparr>, w)
       | Some r \<Rightarrow> do {
           let n = n\<lparr>nd_Chained := Some (c\<lparr>c_CurRoundMsg := Some r\<rparr>)\<rparr>;
           w \<leftarrow> SendCMsg env n r w;
           Some (n, w)
         }
     }
     else if ExistNotExecuteBlock then
       Some (n\<lparr>nd_Chained := Some (c\<lparr>c_CurProposal := nil_Proposal, c_CurPhase := HS_NEW_VIEW\<rparr>)\<rparr>, w)
     else Some (n, w)
   }"

section \<open>HotStuff-2 (hotstuff2\_node.go)\<close>

definition H2HandleMsg :: "'a node_env_scheme \<Rightarrow> Node \<Rightarrow> byte list \<Rightarrow> World \<Rightarrow> (Node \<times> World) option" where
  "H2HandleMsg env n msgJson w = do {
     let msg = dec_H2Msg env msgJson;
     c \<leftarrow> nd_Hs2 n;
     if h_MType msg = H2_WISH \<and> WishSendFlag (PM c) \<and> h_SendNode msg = nd_Name n then do {
       let n = n\<lparr>nd_Hs2 := Some (c\<lparr>PM := (PM c)\<lparr>WishSendFlag := False\<rparr>\<rparr>)\<rparr>;
       w \<leftarrow> SendH2Msg env n msg w;
       Some (n, w)
     }
     else do {
       (ret, c) \<leftarrow> RouteH2Msg env c msg;
       case ret of
         None \<Rightarrow> Some (n\<lparr>nd_Hs2 := Some c\<rparr>, w)
       | Some r \<Rightarrow> do {
           let r = r\<lparr>h_SendNode := nd_Name n\<rparr>;
           let n = n\<lparr>nd_Hs2 := Some (c\<lparr>h2_CurRoundMsgs := h2_CurRoundMsgs c @ [r]\<rparr>)\<rparr>;
           w \<leftarrow> SendH2Msg env n r w;
           Some (n, w)
         }
     }
   }"

text \<open>One pass of \<open>H2HandleReq\<close>: the phase is not looked at.\<close>

definition H2HandleReq :: "'a node_env_scheme \<Rightarrow> Node \<Rightarrow> World \<Rightarrow> (Node \<times> World) option" where
  "H2HandleReq env n w =
     (if length (nd_Requests n) = 0 then Some (n, w)
      else do {
        c \<leftarrow> nd_Hs2 n;
        if \<not> h2_IsLeader c then Some (n, w)
        else do {
          root \<leftarrow> HashFromByteSlices (SM3 env) (nd_Requests n);
          let c = c\<lparr>h2_CurProposal := nil_h2_Proposal\<lparr>p2_Height := bs_Height (nd_BlkStore n), p2_PreBlkHash := bs_PreBlkHash (nd_BlkStore n),
                p2_RootHash := Some root, Command := Some (nd_Requests n)\<rparr>\<rparr>;
          let n = n\<lparr>nd_Requests := []\<rparr>;
          (ret, c) \<leftarrow> h2_GenProposal env c nil_H2Msg;
          let n = n\<lparr>nd_Hs2 := Some c\<rparr>;
          case ret of
            None \<Rightarrow> Some (n, w)
          | Some r \<Rightarrow> do { w \<leftarrow> SendH2Msg env n r w; Some (n, w) }
        }
      })"

section \<open>PBFT (pbft\_node.go)\<close>

definition start_preprepare :: "Node \<Rightarrow> PBFT \<Rightarrow> Node" where
  "start_preprepare n c = (if pb_IsLeader c then n\<lparr>nd_Go := nd_Go n @ [Go_Preprepare]\<rparr> else n)"

definition PHandleMsg :: "'a node_env_scheme \<Rightarrow> Node \<Rightarrow> byte list \<Rightarrow> World \<Rightarrow> (Node \<times> World) option" where
  "PHandleMsg env n msgJson w = do {
     let msg = dec_PMsg env msgJson;
     c \<leftarrow> nd_PBFT n;
     if VCMsgSendFlag c \<and> pm_SendNode msg = nd_Name n \<and> pm_MType msg = P_VIEW_CHANGE then do {
       let n = n\<lparr>nd_PBFT := Some (c\<lparr>VCMsgSendFlag := False\<rparr>)\<rparr>;
       w \<leftarrow> SendPMsg env n msg w;
       Some (n, w)
     }
     else do {
       (ret, c) \<leftarrow> RoutePMsg env c msg;
       let n = n\<lparr>nd_PBFT := Some c\<rparr>;
       case ret of
         None \<Rightarrow> Some (n, w)
       | Some r \<Rightarrow>
           if pm_MType r = P_REPLY then
             if nd_Execute then do {
               let n = start_preprepare n c;
               let buf = cp_buffer (pb_CheckPoint c) (pm_SeqNum r);
               w \<leftarrow> (if (pm_SeqNum r + 1) smod CHECKPOINTNUM = 0 \<and> length buf \<noteq> 0 then SendPMsg env n (hd buf) w else Some w);
               Some (n, w)
             }
             else Some (n, w)
           else if pm_MType r = P_VC_REPLY then do {
             _ \<leftarrow> redo_execute c (OSet r);
             let c = ReSetViewchangeMsgs c;
             Some (start_preprepare (n\<lparr>nd_PBFT := Some c\<rparr>) c, w)
           }
           else do {
             w \<leftarrow> SendPMsg env n (with_hdr (\<lambda>h. h\<lparr>p_SendNode := nd_Name n\<rparr>) r) w;
             Some (n, w)
           }
     }
   }"

text \<open>One pass of \<open>PHandleReq\<close>: the phase is set before the proposal, and the lock is not asked for.\<close>

definition PHandleReq :: "'a node_env_scheme \<Rightarrow> Node \<Rightarrow> World \<Rightarrow> (Node \<times> World) option" where
  "PHandleReq env n w =
     (if length (nd_Requests n) = 0 then Some (n, w)
      else do {
        c \<leftarrow> nd_PBFT n;
        if \<not> pb_IsLeader c then Some (n, w)
        else do {
          let c = c\<lparr>pb_CurProposal := nil_p_Proposal\<lparr>pp_Height := bs_Height (nd_BlkStore n), pp_PreBlkHash := bs_PreBlkHash (nd_BlkStore n),
                pp_CurBlkHash := CurBlkHash (nd_BlkStore n), pp_Command := Some (nd_Requests n)\<rparr>\<rparr>;
          let n = n\<lparr>nd_Requests := []\<rparr>;
          let c = c\<lparr>pb_CurPhase := P_NEW_VIEW\<rparr>;
          (ret, c) \<leftarrow> Preprepare env c;
          let n = n\<lparr>nd_PBFT := Some c\<rparr>;
          case ret of
            None \<Rightarrow> Some (n, w)
          | Some r \<Rightarrow> do { w \<leftarrow> SendPMsg env n r w; Some (n, w) }
        }
      })"

section \<open>Goroutines and timers\<close>

definition drv_run_go :: "'a node_env_scheme \<Rightarrow> Node \<Rightarrow> drv_go \<Rightarrow> World \<Rightarrow> (Node \<times> World) option" where
  "drv_run_go env n g w =
     (case g of
        Go_NMMsg m \<Rightarrow> do { w \<leftarrow> SendNMMsg env n m w; Some (n, w) }
      | Go_CMsg m \<Rightarrow> do { w \<leftarrow> SendCMsg env n m w; Some (n, w) }
      | Go_Preprepare \<Rightarrow> do {
          c \<leftarrow> nd_PBFT n;
          (ret, c) \<leftarrow> Preprepare env c;
          let n = n\<lparr>nd_PBFT := Some c\<rparr>;
          case ret of
            None \<Rightarrow> Some (n, w)
          | Some m \<Rightarrow> do { w \<leftarrow> SendPMsg env n (with_hdr (\<lambda>h. h\<lparr>p_SendNode := nd_Name n\<rparr>) m) w; Some (n, w) }
        })"

text \<open>
  What an expired timer has put into the forward channel of a core is put into the channel of the
  node, which is the same one.
\<close>

fun forward :: "chan_ref \<Rightarrow> byte list list \<Rightarrow> World \<Rightarrow> World option" where
  "forward ch [] w = Some w"
| "forward ch (m # ms) w = do { w \<leftarrow> chan_send_to ch m w; forward ch ms w }"

definition drv_timeout :: "'a drv_env_scheme \<Rightarrow> Node \<Rightarrow> bool \<Rightarrow> World \<Rightarrow> (Node \<times> World) option" where
  "drv_timeout env n enter w =
     (case nd_ConsType n of
        CT_BASIC \<Rightarrow> do {
          c \<leftarrow> nd_Basic n;
          c \<leftarrow> hs_step env (c\<lparr>ForwardChan := Some []\<rparr>) Timeout;
          w \<leftarrow> forward (nd_Inbox n) (map (enc_Msg env) (the (ForwardChan c))) w;
          Some (n\<lparr>nd_Basic := Some (c\<lparr>ForwardChan := Some []\<rparr>)\<rparr>, w)
        }
      | CT_CHAINED \<Rightarrow> do {
          c \<leftarrow> nd_Chained n;
          c \<leftarrow> chs_step env (c\<lparr>c_ForwardChan := Some []\<rparr>) CTimeout;
          w \<leftarrow> forward (nd_Inbox n) (map (enc_CMsg env) (the (c_ForwardChan c))) w;
          Some (n\<lparr>nd_Chained := Some (c\<lparr>c_ForwardChan := Some []\<rparr>)\<rparr>, w)
        }
      | CT_HOTSTUFF_2 \<Rightarrow> do {
          c \<leftarrow> nd_Hs2 n;
          c \<leftarrow> h2_step env (c\<lparr>h2_ForwardChan := Some []\<rparr>) (if enter then HEnterTimeout else HViewTimeout);
          w \<leftarrow> forward (nd_Inbox n) (map (enc_H2Msg env) (the (h2_ForwardChan c))) w;
          Some (n\<lparr>nd_Hs2 := Some (c\<lparr>h2_ForwardChan := Some []\<rparr>)\<rparr>, w)
        }
      | CT_PBFT \<Rightarrow> do {
          c \<leftarrow> nd_PBFT n;
          c \<leftarrow> pb_step env (c\<lparr>pb_ForwardChan := Some []\<rparr>) PTimeout;
          w \<leftarrow> forward (nd_Inbox n) (map (enc_PMsg env) (the (pb_ForwardChan c))) w;
          Some (n\<lparr>nd_PBFT := Some (c\<lparr>pb_ForwardChan := Some []\<rparr>)\<rparr>, w)
        }
      | CT_other _ \<Rightarrow> Some (n, w))"

text \<open>
  What can happen to a node: its loop takes the next bytes of its channel, its request loop makes a
  pass, a goroutine runs, a timer expires.
\<close>

datatype drv_event = D_Receive int | D_Requests int | D_Go nat int | D_Timeout bool int

definition drv_receive :: "'a drv_env_scheme \<Rightarrow> Node \<Rightarrow> World \<Rightarrow> (Node \<times> World) option" where
  "drv_receive env n w =
     (case nd_Inbox n of
        None \<Rightarrow> Some (n, w)
      | Some a \<Rightarrow> (case Queues w a of
            [] \<Rightarrow> Some (n, w)
          | m # ms \<Rightarrow>
              let w = w\<lparr>Queues := (Queues w)(a := ms)\<rparr>
              in case nd_ConsType n of
                   CT_BASIC \<Rightarrow> nd_HandleMsg env n m w
                 | CT_CHAINED \<Rightarrow> CHandleMsg env n m w
                 | CT_HOTSTUFF_2 \<Rightarrow> H2HandleMsg env n m w
                 | CT_PBFT \<Rightarrow> PHandleMsg env n m w
                 | CT_other _ \<Rightarrow> Some (n, w)))"

definition drv_requests :: "'a node_env_scheme \<Rightarrow> Node \<Rightarrow> World \<Rightarrow> (Node \<times> World) option" where
  "drv_requests env n w =
     (case nd_ConsType n of
        CT_BASIC \<Rightarrow> nd_HandleReq env n w
      | CT_CHAINED \<Rightarrow> CHandleReq env n w
      | CT_HOTSTUFF_2 \<Rightarrow> H2HandleReq env n w
      | CT_PBFT \<Rightarrow> PHandleReq env n w
      | CT_other _ \<Rightarrow> Some (n, w))"

fun drv_step :: "'a drv_env_scheme \<Rightarrow> Node \<Rightarrow> drv_event \<Rightarrow> World \<Rightarrow> (Node \<times> World) option" where
  "drv_step env n (D_Receive now) w = drv_receive (env\<lparr>Clock := now\<rparr>) n w"
| "drv_step env n (D_Requests now) w = drv_requests (env\<lparr>Clock := now\<rparr>) n w"
| "drv_step env n (D_Go i now) w =
     (if i < length (nd_Go n)
      then drv_run_go (env\<lparr>Clock := now\<rparr>) (n\<lparr>nd_Go := take i (nd_Go n) @ drop (Suc i) (nd_Go n)\<rparr>) (nd_Go n ! i) w
      else Some (n, w))"
| "drv_step env n (D_Timeout enter now) w = drv_timeout (env\<lparr>Clock := now\<rparr>) n enter w"

end
