(* ===== verification/Drv_Tests.thy ===== *)
theory Drv_Tests
  imports Drv_Core Cmd_Core
begin

text \<open>
  The programs on top of the earlier driver: one per protocol (orderer/orderer\_test) and one in which
  nodes join and leave (mps/test). Each makes the nodes of a network, starts the first round, hands
  requests to the leader and reacts to the lines a user types. Their goroutines are the steps of
  \<open>Drv_Core\<close>; what a program does itself is atomic.
\<close>

section \<open>Making the nodes\<close>

text \<open>The error of the key generation is ignored, and the keys are nil then.\<close>

definition drv_keys :: "'g gen_scheme \<Rightarrow> nat \<Rightarrow> bytes \<times> bytes" where
  "drv_keys g i = (case gen_keys g i of Inl _ \<Rightarrow> (None, None) | Inr k \<Rightarrow> k)"

text \<open>
  The first loop of all programs: \<open>mk\<close> finishes the node of an index with the signer of that index and
  names its channel. A missing signer is an index out of range. The first map of a node, at an address
  of its own, is dropped for the common one at \<open>mp\<close>.
\<close>

fun drv_nodes ::
  "'a env_scheme \<Rightarrow> 'g gen_scheme \<Rightarrow> ConsensusType \<Rightarrow> string \<Rightarrow> (nat \<Rightarrow> 'sg \<Rightarrow> Node \<Rightarrow> Node option) \<Rightarrow> nat \<Rightarrow> 'sg list \<Rightarrow> nat \<Rightarrow> nat \<Rightarrow>
   Node list \<times> chan_ref table \<times> World \<Rightarrow> (Node list \<times> chan_ref table \<times> World) option" where
  "drv_nodes env g ct path mk mp sgs i 0 acc = Some acc"
| "drv_nodes env g ct path mk mp [] i (Suc k) acc = None"
| "drv_nodes env g ct path mk mp (sg # sgs) i (Suc k) (nodes, chans, w) = do {
     let (n, w) = NewNode_of env (drv_keys g i) (int i) ct path (Suc (mp + i)) w;
     n \<leftarrow> mk i sg (n\<lparr>nd_Manager := (nd_Manager n)\<lparr>NodesChannel := mp\<rparr>\<rparr>);
     drv_nodes env g ct path mk mp sgs (Suc i) k (nodes @ [n], AList.update (nd_Name n) (nd_Inbox n) chans, w)
   }"

definition nd_add :: "Node \<Rightarrow> Node \<Rightarrow> Node" where
  "nd_add n t = n\<lparr>nd_Manager := (nd_Manager n)\<lparr>NodesTable := AList.update (nd_Name t)
     \<lparr>nk_Name = nd_Name t, Sm2PubKey = pid_PubKey (pid_ID (NodeID t)), Sm4Key = None\<rparr> (NodesTable (nd_Manager n))\<rparr>\<rparr>"

definition nd_share :: "Node \<Rightarrow> Node \<Rightarrow> bytes \<Rightarrow> Node" where
  "nd_share n t key = n\<lparr>nd_Manager := UpdateSm4Key (nd_Manager n) (nd_Name t) key\<rparr>"

definition nd_route :: "'g gen_scheme \<Rightarrow> Node list \<Rightarrow> nat \<times> nat \<Rightarrow> Node list" where
  "nd_route g nodes ij =
     (let (i, j) = ij in
      if j = i then nodes
      else
        let nodes = nodes[i := nd_add (nodes ! i) (nodes ! j)]
        in if j > i then
             let nodes = nodes[i := nd_share (nodes ! i) (nodes ! j) (gen_sm4 g i j)]
             in nodes[j := nd_share (nodes ! j) (nodes ! i) (gen_sm4 g i j)]
           else nodes)"

text \<open>The second loop of all programs fills the tables of keys.\<close>

definition nd_routes :: "'g gen_scheme \<Rightarrow> nat \<Rightarrow> Node list \<Rightarrow> Node list" where
  "nd_routes g n nodes = foldl (nd_route g) nodes (List.product [0..<n] [0..<n])"

definition drv_tss :: "'g gen_scheme \<Rightarrow> nat \<Rightarrow> tss_Signer list option" where
  "drv_tss g n = do { ts \<leftarrow> gen_tss g (int n) (vote_threshold (int n)); all_some ts }"

text \<open>The channel a program makes for a node, when it does not use the one of the node.\<close>

definition own_chan :: "nat \<Rightarrow> chan_ref" where
  "own_chan i = Some (''chan_'' @ Itoa (int i))"

definition bh_node :: "nat \<Rightarrow> string \<Rightarrow> nat \<Rightarrow> tss_Signer \<Rightarrow> Node \<Rightarrow> Node option" where
  "bh_node nodeNum path i t n = do {
     c \<leftarrow> nd_Basic n;
     let c = c\<lparr>ThresholdSigner := t, ConsId := int i, ForwardChan := Some [],
           BlkStore := (BlkStore c)\<lparr>bs_Path := path @ [CHR 0x5C] @ ''r_'' @ Itoa (int i)\<rparr>,
           LastRoundMsg := LastRoundMsg c @ [nil_Msg\<lparr>m_ViewNumber := -1\<rparr>],
           hs_View := (hs_View c)\<lparr>NodesNum := int nodeNum\<rparr>\<rparr>;
     Some (n\<lparr>nd_Basic := Some c, nd_Inbox := Address (NodeID n), nd_Workers := 1\<rparr>)
   }"

definition bh_GenNodes :: "'a env_scheme \<Rightarrow> 'g gen_scheme \<Rightarrow> nat \<Rightarrow> string \<Rightarrow> nat \<Rightarrow> World \<Rightarrow> (Node list \<times> World) option" where
  "bh_GenNodes env g nodeNum path mp w = do {
     sgs \<leftarrow> drv_tss g nodeNum;
     (nodes, chans, w) \<leftarrow> drv_nodes env g CT_BASIC path (bh_node nodeNum path) mp sgs 0 nodeNum ([], [], w);
     Some (nd_routes g nodeNum nodes, w\<lparr>Maps := (Maps w)(mp := chans)\<rparr>)
   }"

text \<open>The function of mps/test of the same name is the same code.\<close>

definition bt_GenNodes :: "'a env_scheme \<Rightarrow> 'g gen_scheme \<Rightarrow> nat \<Rightarrow> string \<Rightarrow> nat \<Rightarrow> World \<Rightarrow> (Node list \<times> World) option" where
  "bt_GenNodes = bh_GenNodes"

definition ch_node :: "nat \<Rightarrow> nat \<Rightarrow> tss_Signer \<Rightarrow> Node \<Rightarrow> Node option" where
  "ch_node nodeNum i t n = do {
     c \<leftarrow> nd_Chained n;
     let c = c\<lparr>c_Signer := t, c_ConsId := int i, c_ForwardChan := Some [],
           c_BlkStore := (c_BlkStore c)\<lparr>bs_Path := ''./BCData/r_'' @ Itoa (int i)\<rparr>,
           c_View := (c_View c)\<lparr>NodesNum := int nodeNum\<rparr>\<rparr>;
     Some (n\<lparr>nd_Chained := Some c, nd_Inbox := own_chan i\<rparr>)
   }"

definition GenChainedNodes :: "'a env_scheme \<Rightarrow> 'g gen_scheme \<Rightarrow> nat \<Rightarrow> nat \<Rightarrow> World \<Rightarrow> (Node list \<times> World) option" where
  "GenChainedNodes env g nodeNum mp w = do {
     sgs \<leftarrow> drv_tss g nodeNum;
     (nodes, chans, w) \<leftarrow> drv_nodes env g CT_CHAINED ''./BCData'' (ch_node nodeNum) mp sgs 0 nodeNum ([], [], w);
     Some (nd_routes g nodeNum nodes, w\<lparr>Maps := (Maps w)(mp := chans)\<rparr>)
   }"

definition h2_node :: "nat \<Rightarrow> nat \<Rightarrow> tss_Signer \<Rightarrow> Node \<Rightarrow> Node option" where
  "h2_node nodeNum i t n = do {
     c \<leftarrow> nd_Hs2 n;
     let c = c\<lparr>h2_Signer := t, h2_ConsId := int i, h2_ForwardChan := Some [],
           h2_BlkStore := (h2_BlkStore c)\<lparr>bs_Path := ''./BCData/r_'' @ Itoa (int i)\<rparr>,
           h2_View := (h2_View c)\<lparr>NodesNum := int nodeNum\<rparr>\<rparr>;
     Some (n\<lparr>nd_Hs2 := Some c, nd_Inbox := own_chan i\<rparr>)
   }"

text \<open>
  \<open>GenEmptyQC\<close> of HotStuff-2: the second node combines the first three signatures, so fewer than three
  nodes are an index out of range. Errors are ignored and leave nil.
\<close>

definition h2_GenEmptyQC :: "'a env_scheme \<Rightarrow> Node list \<Rightarrow> int \<Rightarrow> h2_StateType \<Rightarrow> QuromCert option" where
  "h2_GenEmptyQC env nodes viewNumber qcType = do {
     let emptyHash = Some (H2_GenProposalHash (SM3 env) nil_h2_Proposal);
     let m = nil_H2Msg\<lparr>h_MType := qcType, h_ViewNumber := viewNumber, h_Hs2Node := \<lparr>CurHash = emptyHash, ParentHash = emptyHash\<rparr>\<rparr>;
     cs \<leftarrow> all_some (map nd_Hs2 nodes);
     let partSign = map (\<lambda>c. ThresholdSign env (h2_Signer c) (H2_Message2Byte m)) cs;
     c \<leftarrow> (case cs of _ # c # _ \<Rightarrow> Some c | _ \<Rightarrow> None);
     if length partSign < 3 then None
     else Some \<lparr>q2_QType = qcType, q2_ViewNumber = h_ViewNumber m, q2_Height = 0, q2_Hs2Node = h_Hs2Node m,
                q2_Sign = CombineSig env (h2_Signer c) (H2_Message2Byte m) (take 3 partSign)\<rparr>
   }"

definition GenH2Nodes :: "'a env_scheme \<Rightarrow> 'g gen_scheme \<Rightarrow> nat \<Rightarrow> nat \<Rightarrow> World \<Rightarrow> (Node list \<times> World) option" where
  "GenH2Nodes env g nodeNum mp w = do {
     sgs \<leftarrow> drv_tss g nodeNum;
     (nodes, chans, w) \<leftarrow> drv_nodes env g CT_HOTSTUFF_2 ''./BCData'' (h2_node nodeNum) mp sgs 0 nodeNum ([], [], w);
     proposalQC \<leftarrow> h2_GenEmptyQC env nodes (-1) H2_PROPOSE;
     prepareQC \<leftarrow> h2_GenEmptyQC env nodes (-1) H2_PREPARE;
     let nodes = map (\<lambda>n. n\<lparr>nd_Hs2 := map_option (\<lambda>c. c\<lparr>ProposalQC := proposalQC, h2_PrepareQC := prepareQC\<rparr>) (nd_Hs2 n)\<rparr>) nodes;
     Some (nd_routes g nodeNum nodes, w\<lparr>Maps := (Maps w)(mp := chans)\<rparr>)
   }"

text \<open>
  The checkpoint messages are one slice that all nodes share; here every node has its own copy of the
  slice as the loop leaves it, so that a later checkpoint of one node is not seen by the others.
\<close>

definition p_checkpoint :: "nat \<Rightarrow> PMsg" where
  "p_checkpoint i = with_hdr (\<lambda>h. h\<lparr>p_ViewNumber := 0, p_SeqNum := 0, p_SendNode := ''r_'' @ Itoa (int i)\<rparr>) nil_PMsg"

definition p_node :: "nat \<Rightarrow> nat \<Rightarrow> ssm2_Signer \<Rightarrow> Node \<Rightarrow> Node option" where
  "p_node nodeNum i sg n = do {
     c \<leftarrow> nd_PBFT n;
     let c = c\<lparr>pb_ConsId := int i, pb_ForwardChan := Some [], pb_Signer := sg,
           pb_BlkStore := (pb_BlkStore c)\<lparr>bs_Path := ''./BCData/r_'' @ Itoa (int i)\<rparr>,
           pb_View := (pb_View c)\<lparr>NodesNum := int nodeNum\<rparr>,
           pb_CheckPoint := (pb_CheckPoint c)\<lparr>CPMsgs := map p_checkpoint [0..<nodeNum]\<rparr>\<rparr>;
     Some (n\<lparr>nd_PBFT := Some c, nd_Inbox := own_chan i\<rparr>)
   }"

definition GenPBFTNodes :: "'a env_scheme \<Rightarrow> 'g gen_scheme \<Rightarrow> nat \<Rightarrow> nat \<Rightarrow> World \<Rightarrow> (Node list \<times> World) option" where
  "GenPBFTNodes env g nodeNum mp w = do {
     sgs \<leftarrow> gen_ssm2 g nodeNum;
     (nodes, chans, w) \<leftarrow> drv_nodes env g CT_PBFT ''./BCData'' (p_node nodeNum) mp sgs 0 nodeNum ([], [], w);
     Some (nd_routes g nodeNum nodes, w\<lparr>Maps := (Maps w)(mp := chans)\<rparr>)
   }"

section \<open>The first round\<close>

definition clear_dirs :: "Node list \<Rightarrow> (string \<Rightarrow> entry option) \<Rightarrow> string \<Rightarrow> entry option" where
  "clear_dirs nodes dirs =
     foldl (\<lambda>dirs n. let d = ''./BCData/'' @ nd_Name n @ ''/'' in dirs(d := snd (RemoveAllFilesAndDirs (dirs d)))) dirs nodes"

definition genesis :: "byte list list" where
  "genesis = [str2bytes ''Genesis block'']"

definition bh_GenFirstRound ::
  "'a env_scheme \<Rightarrow> Node list \<Rightarrow> (string \<Rightarrow> entry option) \<Rightarrow> (Node list \<times> (string \<Rightarrow> entry option)) option" where
  "bh_GenFirstRound env nodes dirs = do {
     let dirs = clear_dirs nodes dirs;
     n \<leftarrow> (case nodes of [] \<Rightarrow> None | n # _ \<Rightarrow> Some n);
     c \<leftarrow> nd_Basic n;
     Some (n\<lparr>nd_Basic := Some (bhs_InitLeader env c), nd_Requests := genesis\<rparr> # tl nodes, dirs)
   }"

definition GenChainedFirstRound ::
  "'a env_scheme \<Rightarrow> Node list \<Rightarrow> (string \<Rightarrow> entry option) \<Rightarrow> (Node list \<times> (string \<Rightarrow> entry option)) option" where
  "GenChainedFirstRound env nodes dirs = do {
     let dirs = clear_dirs nodes dirs;
     n \<leftarrow> (case nodes of [] \<Rightarrow> None | n # _ \<Rightarrow> Some n);
     c \<leftarrow> nd_Chained n;
     Some (n\<lparr>nd_Chained := Some (chs_InitLeader env c), nd_Requests := genesis\<rparr> # tl nodes, dirs)
   }"

definition GenHotstuff2FirstRound ::
  "Node list \<Rightarrow> (string \<Rightarrow> entry option) \<Rightarrow> (Node list \<times> (string \<Rightarrow> entry option)) option" where
  "GenHotstuff2FirstRound nodes dirs = do {
     let dirs = clear_dirs nodes dirs;
     n \<leftarrow> (case nodes of [] \<Rightarrow> None | n # _ \<Rightarrow> Some n);
     c \<leftarrow> nd_Hs2 n;
     Some (n\<lparr>nd_Hs2 := Some (h2_InitLeader c), nd_Requests := genesis\<rparr> # tl nodes, dirs)
   }"

text \<open>With PBFT a proposal is tried at once; no node has one then.\<close>

definition GenPBFTFirstRound ::
  "'a node_env_scheme \<Rightarrow> Node list \<Rightarrow> (string \<Rightarrow> entry option) \<Rightarrow> World \<Rightarrow> (Node list \<times> (string \<Rightarrow> entry option) \<times> World) option" where
  "GenPBFTFirstRound env nodes dirs w = do {
     n \<leftarrow> (case nodes of [] \<Rightarrow> None | n # _ \<Rightarrow> Some n);
     let n = n\<lparr>nd_Requests := genesis\<rparr>;
     let dirs = clear_dirs nodes dirs;
     c \<leftarrow> nd_PBFT n;
     (ret, c) \<leftarrow> Preprepare env c;
     let n = n\<lparr>nd_PBFT := Some c\<rparr>;
     w \<leftarrow> (case ret of None \<Rightarrow> Some w | Some r \<Rightarrow> SendPMsg env n r w);
     Some (n # tl nodes, dirs, w)
   }"

text \<open>
  \<open>GenEmptyQC\<close> of basic HotStuff, which the program of mps/test uses: shares that could not be made
  are left out, and a certificate that cannot be combined is nil, \<open>Some None\<close>.
\<close>

definition bh_GenEmptyQC :: "'a env_scheme \<Rightarrow> Node list \<Rightarrow> hs_StateType \<Rightarrow> QC option option" where
  "bh_GenEmptyQC env nodes qcType = do {
     let node = \<lparr>CurHash = Some (EmptyHash (SM3 env)), ParentHash = Some (EmptyHash (SM3 env))\<rparr>;
     let emptyQC = nil_QC\<lparr>QType := qcType, qc_ViewNumber := -1, qc_HsNode := node\<rparr>;
     cs \<leftarrow> all_some (map nd_Basic nodes);
     let partSign = filter (\<lambda>s. s \<noteq> None) (map (\<lambda>c. ThresholdSign env (ThresholdSigner c) (QC2SignMsgByte emptyQC)) cs);
     c \<leftarrow> (case cs of [] \<Rightarrow> None | c # _ \<Rightarrow> Some c);
     Some (case CombineSig env (ThresholdSigner c) (QC2SignMsgByte emptyQC) partSign of
             None \<Rightarrow> None
           | Some sg \<Rightarrow> Some (emptyQC\<lparr>qc_Sign := Some sg\<rparr>))
   }"

definition first_msg :: "'a env_scheme \<Rightarrow> nat \<Rightarrow> QC \<Rightarrow> Msg" where
  "first_msg env i qc =
     nil_Msg\<lparr>MType := HS_NEW_VIEW, m_ViewNumber := 0, SendNode := ''r_'' @ Itoa (int i),
       m_HsNode := \<lparr>CurHash = Some (EmptyHash (SM3 env)), ParentHash = Some (EmptyHash (SM3 env))\<rparr>, Justify := qc, PartialSig := None\<rparr>"

fun first_msgs :: "'a node_env_scheme \<Rightarrow> QC \<Rightarrow> nat \<Rightarrow> Node list \<Rightarrow> World \<Rightarrow> World option" where
  "first_msgs env qc i [] w = Some w"
| "first_msgs env qc i (n # ns) w = do {
     w \<leftarrow> chan_send_to (chan_at (Maps w (NodesChannel (nd_Manager n))) ''r_0'') (enc_Msg env (first_msg env i qc)) w;
     first_msgs env qc (Suc i) ns w
   }"

definition bt_GenFirstRound ::
  "'a node_env_scheme \<Rightarrow> Node list \<Rightarrow> (string \<Rightarrow> entry option) \<Rightarrow> World \<Rightarrow> (Node list \<times> (string \<Rightarrow> entry option) \<times> World) option" where
  "bt_GenFirstRound env nodes dirs w =
     (case nodes of
        [] \<Rightarrow> Some (nodes, dirs, w)
      | n # ns \<Rightarrow> do {
          let nodes = n\<lparr>nd_Requests := genesis\<rparr> # ns;
          qc \<leftarrow> bh_GenEmptyQC env nodes HS_PREPARE;
          qc \<leftarrow> qc;
          w \<leftarrow> first_msgs env qc 0 nodes w;
          Some (nodes, clear_dirs nodes dirs, w)
        })"

section \<open>Requests\<close>

text \<open>The requests go to the leader, when it takes them (\<open>own\<close>), or to the node after it.\<close>

definition drv_give :: "Node list \<Rightarrow> nat \<Rightarrow> bool \<Rightarrow> byte list list \<Rightarrow> Node list" where
  "drv_give nodes i own reqs =
     (let k = (if own then i else (i + 1) mod length nodes)
      in nodes[k := (nodes ! k)\<lparr>nd_Requests := nd_Requests (nodes ! k) @ reqs\<rparr>])"

text \<open>The first node that leads, with the answer to \<open>own\<close>; \<open>look\<close> panics on a nil core.\<close>

fun first_leader :: "(Node \<Rightarrow> (bool \<times> bool) option) \<Rightarrow> nat \<Rightarrow> Node list \<Rightarrow> (nat \<times> bool) option option" where
  "first_leader look i [] = Some None"
| "first_leader look i (n # ns) = do {
     (leads, own) \<leftarrow> look n;
     if leads then Some (Some (i, own)) else first_leader look (Suc i) ns
   }"

definition give_first :: "(Node \<Rightarrow> (bool \<times> bool) option) \<Rightarrow> Node list \<Rightarrow> string list \<Rightarrow> Node list option" where
  "give_first look nodes msg = do {
     r \<leftarrow> first_leader look 0 nodes;
     Some (case r of None \<Rightarrow> nodes | Some (i, own) \<Rightarrow> drv_give nodes i own (String2ByteSlice msg))
   }"

definition bh_GenNewReq :: "Node list \<Rightarrow> string list \<Rightarrow> Node list option" where
  "bh_GenNewReq = give_first (\<lambda>n. do { c \<leftarrow> nd_Basic n; Some (bhs_IsLeader c, CurPhase c = HS_NEW_VIEW \<or> CurPhase c = HS_WAITING) })"

text \<open>The loop of chained HotStuff does not stop at the first leader.\<close>

fun give_all :: "(Node \<Rightarrow> (bool \<times> bool) option) \<Rightarrow> Node list \<Rightarrow> nat list \<Rightarrow> byte list list \<Rightarrow> Node list option" where
  "give_all look nodes [] reqs = Some nodes"
| "give_all look nodes (i # is) reqs = do {
     (leads, own) \<leftarrow> look (nodes ! i);
     give_all look (if leads then drv_give nodes i own reqs else nodes) is reqs
   }"

definition GenNewChainedReq :: "Node list \<Rightarrow> string list \<Rightarrow> Node list option" where
  "GenNewChainedReq nodes msg =
     give_all (\<lambda>n. do { c \<leftarrow> nd_Chained n; Some (chs_IsLeader c, c_CurPhase c = HS_WAITING) }) nodes [0..<length nodes] (String2ByteSlice msg)"

definition GenNewH2Req :: "Node list \<Rightarrow> string list \<Rightarrow> Node list option" where
  "GenNewH2Req = give_first (\<lambda>n. do { c \<leftarrow> nd_Hs2 n; Some (h2_IsLeader c, h2_CurPhase c = H2_NEW_VIEW \<or> h2_CurPhase c = H2_NEW_PROPOSE) })"

definition GenNewPBFTReq :: "Node list \<Rightarrow> string list \<Rightarrow> Node list option" where
  "GenNewPBFTReq = give_first (\<lambda>n. do { c \<leftarrow> nd_PBFT n; Some (pb_IsLeader c, pb_CurPhase c = P_NEW_VIEW) })"

text \<open>
  \<open>GetLeader\<close> of mps/test: the leaders the nodes have, counted in a map that starts with two entries,
  and the first entry, in the order \<open>order\<close> of the loop over the map, with more than a third.
\<close>

definition count_leader :: "(string \<times> nat) list \<Rightarrow> string \<Rightarrow> (string \<times> nat) list" where
  "count_leader ls l = AList.update l ((case map_of ls l of None \<Rightarrow> 0 | Some c \<Rightarrow> c) + 1) ls"

fun first_name :: "int \<Rightarrow> (string \<times> nat) list \<Rightarrow> string" where
  "first_name t [] = []"
| "first_name t ((l, c) # ls) = (if int c > t then l else first_name t ls)"

definition GetLeader :: "((string \<times> nat) list \<Rightarrow> (string \<times> nat) list) \<Rightarrow> Node list \<Rightarrow> string option" where
  "GetLeader order nodes = do {
     let n = int (length nodes);
     let ls = AList.update (''r_'' @ Itoa (n - 1)) 0 (AList.update (''r_'' @ Itoa n) 0 []);
     cs \<leftarrow> all_some (map nd_Basic nodes);
     let ls = foldl count_leader ls (map bhs_GetLeaderName cs);
     Some (first_name ((n - 1) sdiv 3 * 1) (order ls))
   }"

definition bt_GenNewReq :: "((string \<times> nat) list \<Rightarrow> (string \<times> nat) list) \<Rightarrow> Node list \<Rightarrow> string list \<Rightarrow> Node list option" where
  "bt_GenNewReq order nodes msg = do {
     leader \<leftarrow> GetLeader order nodes;
     if leader = [] then Some nodes
     else give_first (\<lambda>n. if nd_Name n = leader
            then do { c \<leftarrow> nd_Basic n; Some (True, CurPhase c = HS_NEW_VIEW \<or> CurPhase c = HS_WAITING) }
            else Some (False, False)) nodes msg
   }"

text \<open>The parameters of an automatic command; a word that is no number gives its index.\<close>

definition drv_params :: "string list \<Rightarrow> int \<times> int \<times> int" where
  "drv_params params =
     (case params of
        a # b # c # _ \<Rightarrow> (let val = (\<lambda>i w. case Atoi w of Some v \<Rightarrow> v | None \<Rightarrow> i) in (val 0 a, val 1 b, val 2 c))
      | _ \<Rightarrow> (1, 1, 10))"

text \<open>One pass of the loop of an automatic command, with the bytes the random source gives it.\<close>

definition auto_pass ::
  "(Node list \<Rightarrow> string list \<Rightarrow> Node list option) \<Rightarrow> int \<Rightarrow> int \<Rightarrow> Node list \<Rightarrow> (nat \<Rightarrow> nat \<Rightarrow> bytes) \<Rightarrow> Node list option" where
  "auto_pass gen_req k len nodes crand = do {
     msg \<leftarrow> GenerateSecureRandomStringSlice crand k len;
     gen_req nodes msg
   }"

text \<open>The whole command when nothing else runs between its passes; \<open>crand\<close> is the random source of each pass.\<close>

definition drv_auto ::
  "(Node list \<Rightarrow> string list \<Rightarrow> Node list option) \<Rightarrow> (nat \<Rightarrow> nat \<Rightarrow> nat \<Rightarrow> bytes) \<Rightarrow> Node list \<Rightarrow> string list \<Rightarrow> Node list option" where
  "drv_auto gen_req crand nodes params =
     (let (num, k, len) = drv_params params
      in run (auto_pass gen_req k len) nodes (map crand [0..<nat num]))"

definition bh_AutoGenNewReq :: "(nat \<Rightarrow> nat \<Rightarrow> nat \<Rightarrow> bytes) \<Rightarrow> Node list \<Rightarrow> string list \<Rightarrow> Node list option" where
  "bh_AutoGenNewReq = drv_auto bh_GenNewReq"

definition AutoGenChainedNewReq :: "(nat \<Rightarrow> nat \<Rightarrow> nat \<Rightarrow> bytes) \<Rightarrow> Node list \<Rightarrow> string list \<Rightarrow> Node list option" where
  "AutoGenChainedNewReq = drv_auto GenNewChainedReq"

definition AutoGenH2NewReq :: "(nat \<Rightarrow> nat \<Rightarrow> nat \<Rightarrow> bytes) \<Rightarrow> Node list \<Rightarrow> string list \<Rightarrow> Node list option" where
  "AutoGenH2NewReq = drv_auto GenNewH2Req"

definition AutoGenPBFTNewReq :: "(nat \<Rightarrow> nat \<Rightarrow> nat \<Rightarrow> bytes) \<Rightarrow> Node list \<Rightarrow> string list \<Rightarrow> Node list option" where
  "AutoGenPBFTNewReq = drv_auto GenNewPBFTReq"

definition bt_AutoGenNewReq ::
  "((string \<times> nat) list \<Rightarrow> (string \<times> nat) list) \<Rightarrow> (nat \<Rightarrow> nat \<Rightarrow> nat \<Rightarrow> bytes) \<Rightarrow> Node list \<Rightarrow> string list \<Rightarrow> Node list option" where
  "bt_AutoGenNewReq order = drv_auto (bt_GenNewReq order)"

text \<open>The printed hashes: a block that is not there panics. The directory is one of the author's machine.\<close>

definition drv_CheckBlkInfo ::
  "'a env_scheme \<Rightarrow> (string \<Rightarrow> string list) \<Rightarrow> (string \<rightharpoonup> Block) \<Rightarrow> Node list \<Rightarrow> (bytes \<times> bytes) list option" where
  "drv_CheckBlkInfo env walked files nodes =
     (case nodes of
        [] \<Rightarrow> None
      | n # _ \<Rightarrow>
          let dir = ''E:/MyOwnDoc/Project/GoProject/src/DeltaChain/BCData/'' @ nd_Name n
          in opt_map (\<lambda>i. do { b \<leftarrow> files (block_file (dir @ ''/'') (int i)); Some (bh_PreBlkHash (BlkHdr b), Block_Hash env b) })
               [0..<nat (GetBlockHeight (walked dir) + 1)])"

section \<open>Joining and leaving (mps/test)\<close>

definition nd_introduce :: "'g gen_scheme \<Rightarrow> nat \<Rightarrow> Node \<times> chan_ref table \<Rightarrow> nat \<times> Node \<Rightarrow> Node \<times> chan_ref table" where
  "nd_introduce g i nc kn =
     (let (n, chans) = nc; (k, node) = kn in
      (n\<lparr>nd_Manager := (nd_Manager n)\<lparr>NodesTable := AList.update (nd_Name node)
           \<lparr>nk_Name = nd_Name node, Sm2PubKey = pid_PubKey (pid_ID (NodeID node)), Sm4Key = gen_sm4 g i k\<rparr> (NodesTable (nd_Manager n))\<rparr>\<rparr>,
       AList.update (nd_Name node) (Address (NodeID node)) chans))"

text \<open>
  \<open>NewNodeJoin\<close>: the list with the new node at its end; its applications are started later
  (\<open>start_join\<close>) and so is the replacement of the signers, before which it has none.
\<close>

definition NewNodeJoin :: "'a env_scheme \<Rightarrow> 'g gen_scheme \<Rightarrow> Node list \<Rightarrow> nat \<Rightarrow> World \<Rightarrow> (Node list \<times> World) option" where
  "NewNodeJoin env g nodes mp w = do {
     let i = length nodes;
     let (n, w) = NewNode_of env (drv_keys g i) (int i) CT_BASIC ''./BCData'' mp w;
     let chans = [(''r_'' @ Itoa (int i), Address (NodeID n))];
     c \<leftarrow> nd_Basic n;
     let n = n\<lparr>nd_Basic := Some (c\<lparr>ForwardChan := Some []\<rparr>), nd_Inbox := Address (NodeID n), nd_Workers := 1,
           nd_Manager := (nd_Manager n)\<lparr>NewNode := \<lparr>ni_Name = nd_Name n,
             ni_NodeKey = (ni_NodeKey (NewNode (nd_Manager n)))\<lparr>Sm2PubKey := pid_PubKey (pid_ID (NodeID n))\<rparr>,
             ni_Chan = Address (NodeID n)\<rparr>\<rparr>\<rparr>;
     let (n, chans) = foldl (nd_introduce g i) (n, chans) (zip [0..<i] nodes);
     Some (nodes @ [n], w\<lparr>Maps := (Maps w)(mp := chans)\<rparr>)
   }"

text \<open>The goroutine of a join, with the nodes that were there when it began.\<close>

definition start_join :: "nat \<Rightarrow> Node list \<Rightarrow> Node list option" where
  "start_join i nodes =
     (if i < length nodes then do {
        (n, others) \<leftarrow> nd_StartJoin (nodes ! i) (take i nodes);
        Some (others @ n # drop (Suc i) nodes)
      }
      else Some nodes)"

fun put_tss :: "Node list \<Rightarrow> tss_Signer list \<Rightarrow> Node list option" where
  "put_tss [] ts = Some []"
| "put_tss (n # ns) [] = None"
| "put_tss (n # ns) (t # ts) = do {
     c \<leftarrow> nd_Basic n;
     ns \<leftarrow> put_tss ns ts;
     Some (n\<lparr>nd_Basic := Some (c\<lparr>ThresholdSigner := t\<rparr>)\<rparr> # ns)
   }"

text \<open>With PBFT the first pass of the loop uses the index after the last node.\<close>

definition bt_UpdateSigners :: "'g gen_scheme \<Rightarrow> Node list \<Rightarrow> Node list option" where
  "bt_UpdateSigners g nodes =
     (case nodes of
        [] \<Rightarrow> None
      | n # _ \<Rightarrow>
          if nd_ConsType n = CT_PBFT then (if length nodes > 1 then None else Some nodes)
          else do { ts \<leftarrow> drv_tss g (length nodes); put_tss nodes ts })"

fun StopAllNodes :: "Node list \<Rightarrow> Node list option" where
  "StopAllNodes [] = Some []"
| "StopAllNodes (n # ns) = do { n \<leftarrow> nd_Stop n; ns \<leftarrow> StopAllNodes ns; Some (n # ns) }"

text \<open>
  \<open>RestartAllNodes\<close> starts a second loop of messages, on the channel the map has for the node, and one
  of requests; the first loops have not ended. A second loop on the same channel only takes turns.
\<close>

definition RestartAllNodes :: "Node list \<Rightarrow> Node list" where
  "RestartAllNodes nodes = map (\<lambda>n. n\<lparr>nd_HandleState := True, nd_ReqState := True, nd_Workers := Suc (nd_Workers n)\<rparr>) nodes"

text \<open>The list without the node that leaves, and that node, which goes on running.\<close>

fun exit_first :: "'a env_scheme \<Rightarrow> string \<Rightarrow> Node list \<Rightarrow> (Node list \<times> Node option) option" where
  "exit_first env name [] = Some ([], None)"
| "exit_first env name (n # ns) =
     (if nd_Name n = name then do { n \<leftarrow> nd_StartExit env n; Some (ns, Some n) }
      else do { (ns, gone) \<leftarrow> exit_first env name ns; Some (n # ns, gone) })"

definition NodeExit :: "'a env_scheme \<Rightarrow> Node list \<Rightarrow> string list \<Rightarrow> (Node list \<times> Node option) option" where
  "NodeExit env nodes ids = (case ids of [] \<Rightarrow> Some (nodes, None) | i # _ \<Rightarrow> exit_first env (''r_'' @ i) nodes)"

section \<open>The programs\<close>

text \<open>
  The state of a program: its nodes and their world, the nodes that have left, the joins and the
  replacements of signers that are to come, and what it has printed: the number of nodes the second
  one knows, and the hashes of blocks.
\<close>

record Program =
  g_Nodes :: "Node list"
  g_World :: World
  g_Gone :: "Node list"
  g_Later :: "later list"
  g_Shown :: "int list"
  g_Hashes :: "(bytes \<times> bytes) list"

record program_env =
  ge_gen :: gen
  ge_rand :: "nat \<Rightarrow> nat \<Rightarrow> nat \<Rightarrow> bytes"
  ge_order :: "(string \<times> nat) list \<Rightarrow> (string \<times> nat) list"
  ge_walked :: "string \<Rightarrow> string list"
  ge_blocks :: "string \<rightharpoonup> Block"
  ge_map :: nat

definition new_Program :: "Node list \<Rightarrow> World \<Rightarrow> Program" where
  "new_Program nodes w = \<lparr>g_Nodes = nodes, g_World = w, g_Gone = [], g_Later = [], g_Shown = [], g_Hashes = []\<rparr>"

definition on_nodes :: "(Node list \<Rightarrow> Node list option) \<Rightarrow> Program \<Rightarrow> Program option" where
  "on_nodes f p = do { ns \<leftarrow> f (g_Nodes p); Some (p\<lparr>g_Nodes := ns\<rparr>) }"

definition show_blocks :: "'a env_scheme \<Rightarrow> program_env \<Rightarrow> Program \<Rightarrow> Program option" where
  "show_blocks env e p = do {
     hs \<leftarrow> drv_CheckBlkInfo env (ge_walked e) (ge_blocks e) (g_Nodes p);
     Some (p\<lparr>g_Hashes := g_Hashes p @ hs\<rparr>)
   }"

definition show_second :: "Program \<Rightarrow> Program option" where
  "show_second p =
     (case g_Nodes p of
        _ # n # _ \<Rightarrow> Some (p\<lparr>g_Shown := g_Shown p @ [int (length (NodesTable (nd_Manager n)))]\<rparr>)
      | _ \<Rightarrow> None)"

text \<open>The lines of the four programs of orderer\_test; the Boolean says that the loop ends.\<close>

definition bh_command :: "'a env_scheme \<Rightarrow> program_env \<Rightarrow> Program \<Rightarrow> string \<Rightarrow> (Program \<times> bool) option" where
  "bh_command env e p line =
     (let input = words line; cmd = hd input; args = tl input in
      if cmd = ''r'' then do { p \<leftarrow> on_nodes (\<lambda>ns. bh_GenNewReq ns args) p; Some (p, False) }
      else if cmd = ''a'' then do { p \<leftarrow> on_nodes (\<lambda>ns. bh_AutoGenNewReq (ge_rand e) ns args) p; Some (p, False) }
      else if cmd = ''e'' then Some (p, True)
      else if cmd = ''c'' then do { p \<leftarrow> show_second p; Some (p, False) }
      else if cmd = ''b'' then do { p \<leftarrow> show_blocks env e p; Some (p, False) }
      else Some (p, False))"

text \<open>The other three print their nodes on \<open>c\<close>, which changes nothing.\<close>

definition drv_command ::
  "(Node list \<Rightarrow> string list \<Rightarrow> Node list option) \<Rightarrow> 'a env_scheme \<Rightarrow> program_env \<Rightarrow> Program \<Rightarrow> string \<Rightarrow> (Program \<times> bool) option" where
  "drv_command gen_req env e p line =
     (let input = words line; cmd = hd input; args = tl input in
      if cmd = ''a'' then do { p \<leftarrow> on_nodes (\<lambda>ns. drv_auto gen_req (ge_rand e) ns args) p; Some (p, False) }
      else if cmd = ''b'' then do { p \<leftarrow> show_blocks env e p; Some (p, False) }
      else if cmd = ''e'' then Some (p, True)
      else if cmd = ''r'' then do { p \<leftarrow> on_nodes (\<lambda>ns. gen_req ns args) p; Some (p, False) }
      else Some (p, False))"

definition ch_command :: "'a env_scheme \<Rightarrow> program_env \<Rightarrow> Program \<Rightarrow> string \<Rightarrow> (Program \<times> bool) option" where
  "ch_command = drv_command GenNewChainedReq"

definition h2_command :: "'a env_scheme \<Rightarrow> program_env \<Rightarrow> Program \<Rightarrow> string \<Rightarrow> (Program \<times> bool) option" where
  "h2_command = drv_command GenNewH2Req"

definition p_command :: "'a env_scheme \<Rightarrow> program_env \<Rightarrow> Program \<Rightarrow> string \<Rightarrow> (Program \<times> bool) option" where
  "p_command = drv_command GenNewPBFTReq"

text \<open>The program of mps/test, in which nodes join and leave.\<close>

definition bt_join :: "'a env_scheme \<Rightarrow> program_env \<Rightarrow> Program \<Rightarrow> Program option" where
  "bt_join env e p = do {
     (ns, w) \<leftarrow> NewNodeJoin env (ge_gen e) (g_Nodes p) (ge_map e) (g_World p);
     Some (p\<lparr>g_Nodes := ns, g_World := w, g_Later := g_Later p @ [Later_join (length (g_Nodes p)), Later_signers]\<rparr>)
   }"

definition bt_exit :: "'a env_scheme \<Rightarrow> Program \<Rightarrow> string list \<Rightarrow> Program option" where
  "bt_exit env p ids = do {
     (ns, gone) \<leftarrow> NodeExit env (g_Nodes p) ids;
     let p = p\<lparr>g_Nodes := ns, g_Gone := g_Gone p @ (case gone of None \<Rightarrow> [] | Some n \<Rightarrow> [n])\<rparr>;
     Some (if ids = [] then p else p\<lparr>g_Later := g_Later p @ [Later_signers]\<rparr>)
   }"

definition bt_command :: "'a env_scheme \<Rightarrow> program_env \<Rightarrow> Program \<Rightarrow> string \<Rightarrow> (Program \<times> bool) option" where
  "bt_command env e p line =
     (let input = words line; cmd = hd input; args = tl input in
      if cmd = ''r'' then do { p \<leftarrow> on_nodes (\<lambda>ns. bt_GenNewReq (ge_order e) ns args) p; Some (p, False) }
      else if cmd = ''a'' then do { p \<leftarrow> on_nodes (\<lambda>ns. bt_AutoGenNewReq (ge_order e) (ge_rand e) ns args) p; Some (p, False) }
      else if cmd = ''q'' then Some (p, True)
      else if cmd = ''c'' then do { p \<leftarrow> show_second p; Some (p, False) }
      else if cmd = ''b'' then do { p \<leftarrow> show_blocks env e p; Some (p, False) }
      else if cmd = ''j'' then do { p \<leftarrow> bt_join env e p; Some (p, False) }
      else if cmd = ''e'' then do { p \<leftarrow> bt_exit env p args; Some (p, False) }
      else Some (p, False))"

definition bt_later :: "program_env \<Rightarrow> Program \<Rightarrow> later \<Rightarrow> Program option" where
  "bt_later e p l =
     (case l of
        Later_signers \<Rightarrow> on_nodes (bt_UpdateSigners (ge_gen e)) p
      | Later_join i \<Rightarrow> on_nodes (start_join i) p)"

text \<open>The start of each program, up to its first line.\<close>

definition StartBasicHotstuff ::
  "'a env_scheme \<Rightarrow> program_env \<Rightarrow> nat \<Rightarrow> string \<Rightarrow> (string \<Rightarrow> entry option) \<Rightarrow> (Program \<times> (string \<Rightarrow> entry option)) option" where
  "StartBasicHotstuff env e nodeNum path dirs = do {
     (nodes, w) \<leftarrow> bh_GenNodes env (ge_gen e) nodeNum path 0 empty_World;
     (nodes, dirs) \<leftarrow> bh_GenFirstRound env nodes dirs;
     Some (new_Program nodes w, dirs)
   }"

definition StartChainedHotstuff ::
  "'a env_scheme \<Rightarrow> program_env \<Rightarrow> nat \<Rightarrow> (string \<Rightarrow> entry option) \<Rightarrow> (Program \<times> (string \<Rightarrow> entry option)) option" where
  "StartChainedHotstuff env e nodeNum dirs = do {
     (nodes, w) \<leftarrow> GenChainedNodes env (ge_gen e) nodeNum 0 empty_World;
     (nodes, dirs) \<leftarrow> GenChainedFirstRound env nodes dirs;
     Some (new_Program nodes w, dirs)
   }"

definition StartHotstuff2 ::
  "'a env_scheme \<Rightarrow> program_env \<Rightarrow> nat \<Rightarrow> (string \<Rightarrow> entry option) \<Rightarrow> (Program \<times> (string \<Rightarrow> entry option)) option" where
  "StartHotstuff2 env e nodeNum dirs = do {
     (nodes, w) \<leftarrow> GenH2Nodes env (ge_gen e) nodeNum 0 empty_World;
     (nodes, dirs) \<leftarrow> GenHotstuff2FirstRound nodes dirs;
     Some (new_Program nodes w, dirs)
   }"

definition StartPBFT ::
  "'a node_env_scheme \<Rightarrow> program_env \<Rightarrow> nat \<Rightarrow> (string \<Rightarrow> entry option) \<Rightarrow> (Program \<times> (string \<Rightarrow> entry option)) option" where
  "StartPBFT env e nodeNum dirs = do {
     (nodes, w) \<leftarrow> GenPBFTNodes env (ge_gen e) nodeNum 0 empty_World;
     (nodes, dirs, w) \<leftarrow> GenPBFTFirstRound env nodes dirs w;
     Some (new_Program nodes w, dirs)
   }"

definition bt_StartBasicHotstuff ::
  "'a node_env_scheme \<Rightarrow> program_env \<Rightarrow> nat \<Rightarrow> string \<Rightarrow> (string \<Rightarrow> entry option) \<Rightarrow> (Program \<times> (string \<Rightarrow> entry option)) option" where
  "bt_StartBasicHotstuff env e nodeNum path dirs = do {
     (nodes, w) \<leftarrow> bt_GenNodes env (ge_gen e) nodeNum path 0 empty_World;
     (nodes, dirs, w) \<leftarrow> bt_GenFirstRound env nodes dirs w;
     Some (new_Program nodes w, dirs)
   }"

text \<open>main.go: an unknown protocol starts nothing.\<close>

definition orderer_main ::
  "'a node_env_scheme \<Rightarrow> program_env \<Rightarrow> string \<Rightarrow> nat \<Rightarrow> string \<Rightarrow> (string \<Rightarrow> entry option) \<Rightarrow> (Program \<times> (string \<Rightarrow> entry option)) option option" where
  "orderer_main env e protocol node path dirs =
     (if protocol = ''bh'' then Some (StartBasicHotstuff env e node path dirs)
      else if protocol = ''ch'' then Some (StartChainedHotstuff env e node dirs)
      else if protocol = ''h2'' then Some (StartHotstuff2 env e node dirs)
      else if protocol = ''pbft'' then Some (StartPBFT env e node dirs)
      else None)"

text \<open>The main.go of mps/test starts the servers of core/test.\<close>

definition mps_main ::
  "'a env_scheme \<Rightarrow> driver_env \<Rightarrow> string \<Rightarrow> int \<Rightarrow> string \<Rightarrow> (string \<Rightarrow> entry option) \<Rightarrow> (Driver \<times> (string \<Rightarrow> entry option)) option option" where
  "mps_main env e protocol node path dirs =
     (case protocol_of protocol of None \<Rightarrow> None | Some ct \<Rightarrow> Some (bhc_Start env e node path ct dirs))"

text \<open>A step of one node of a program.\<close>

definition program_step :: "'a drv_env_scheme \<Rightarrow> Program \<Rightarrow> nat \<times> drv_event \<Rightarrow> Program option" where
  "program_step env p ke =
     (let (k, ev) = ke in
      if k < length (g_Nodes p) then do {
        (n, w) \<leftarrow> drv_step env (g_Nodes p ! k) ev (g_World p);
        Some (p\<lparr>g_Nodes := (g_Nodes p)[k := n], g_World := w\<rparr>)
      }
      else Some p)"

end
