(* ===== verification/Drv_Equiv.thy ===== *)
theory Drv_Equiv
  imports Drv_Core Srv_Props
begin

text \<open>
  The earlier driver and the orderer run the same core: what a node of the earlier driver does with a
  message of basic HotStuff is what \<open>HandleBMsg\<close> does with a send channel, followed by sending what was
  put into that channel.
\<close>

section \<open>The handlers of basic HotStuff do not look at the send channel\<close>

abbreviation with_chan :: "Msg ServerMsg list option \<Rightarrow> BCHotstuff \<Rightarrow> BCHotstuff" where
  "with_chan q c \<equiv> c\<lparr>SendChan := q\<rparr>"

abbreviation keeps_chan :: "(BCHotstuff \<Rightarrow> bhs_result) \<Rightarrow> bool" where
  "keeps_chan f \<equiv> \<forall>q c. f (with_chan q c) = map_option (map_prod id (with_chan q)) (f c)"

named_theorems chan_simps \<open>operations that do not look at the send channel\<close>

text \<open>The update of the channel is moved out of the other updates.\<close>

lemma chan_out [chan_simps]:
  "CurPhase_update f1 (with_chan q c) = with_chan q (CurPhase_update f1 c)"
  "hs_View_update f2 (with_chan q c) = with_chan q (hs_View_update f2 c)"
  "hs_HsNode_update f3 (with_chan q c) = with_chan q (hs_HsNode_update f3 c)"
  "PrepareQC_update f4 (with_chan q c) = with_chan q (PrepareQC_update f4 c)"
  "LockedQC_update f5 (with_chan q c) = with_chan q (LockedQC_update f5 c)"
  "CurProposal_update f6 (with_chan q c) = with_chan q (CurProposal_update f6 c)"
  "LastRoundMsg_update f7 (with_chan q c) = with_chan q (LastRoundMsg_update f7 c)"
  "CurRoundMsg_update f8 (with_chan q c) = with_chan q (CurRoundMsg_update f8 c)"
  "NewViewMsgs_update f9 (with_chan q c) = with_chan q (NewViewMsgs_update f9 c)"
  "PrepareVotes_update f10 (with_chan q c) = with_chan q (PrepareVotes_update f10 c)"
  "PreCommitVotes_update f11 (with_chan q c) = with_chan q (PreCommitVotes_update f11 c)"
  "CommitVotes_update f12 (with_chan q c) = with_chan q (CommitVotes_update f12 c)"
  "ViewTimer_update f13 (with_chan q c) = with_chan q (ViewTimer_update f13 c)"
  "BlkStore_update f14 (with_chan q c) = with_chan q (BlkStore_update f14 c)"
  by (cases c; simp)+

lemma bind_map_option: "Option.bind (map_option f x) g = Option.bind x (\<lambda>y. g (f y))"
  by (cases x) simp_all

lemma timer_chan [chan_simps]:
  "stop_ViewTimer (with_chan q c) = map_option (with_chan q) (stop_ViewTimer c)"
  "start_ViewTimer (with_chan q c) = map_option (with_chan q) (start_ViewTimer c)"
  by (simp_all add: stop_ViewTimer_def start_ViewTimer_def map_option_bind comp_def chan_out)

lemma query_chan [chan_simps]:
  "bhs_GetNodeName (with_chan q c) = bhs_GetNodeName c" "bhs_GetLeaderName (with_chan q c) = bhs_GetLeaderName c"
  "CheckQC env (with_chan q c) m t v = CheckQC env c m t v" "CombineSign env (with_chan q c) ms = CombineSign env c ms"
  "CreateLeaf (with_chan q c) p = CreateLeaf c p" "CheckNewHsNode (with_chan q c) m = CheckNewHsNode c m"
  "collect_NewView env (with_chan q c) m = with_chan q (collect_NewView env c m)"
  "bhs_NewRound (with_chan q c) = map_option (with_chan q) (bhs_NewRound c)"
  by (simp_all add: bhs_GetNodeName_def bhs_GetLeaderName_def CheckQC_def CombineSign_def CreateLeaf_def CheckNewHsNode_def
      SafeNode_def collect_NewView_def bhs_NewRound_def Let_def map_option_bind comp_def chan_out)

lemmas chan_defs = chan_simps Let_def bind_map_option map_option_bind comp_def

lemma HandleNewView_chan: "keeps_chan (\<lambda>c. HandleNewView env c m)"
  by (auto simp: HandleNewView_def chan_defs intro!: Option.bind_cong)

lemma HandlePrepare_chan: "keeps_chan (\<lambda>c. HandlePrepare env c m pk)"
  by (auto simp: HandlePrepare_def chan_defs intro!: Option.bind_cong split: option.split)

lemma votes_chan:
  "keeps_chan (\<lambda>c. HandlePrepareVote env c m)" "keeps_chan (\<lambda>c. HandlePreCommitVote env c m)" "keeps_chan (\<lambda>c. HandleCommitVote env c m)"
  by (auto simp: HandlePrepareVote_def HandlePreCommitVote_def HandleCommitVote_def chan_defs split: option.split)

lemma certs_chan: "keeps_chan (\<lambda>c. HandlePreCommit env c m)" "keeps_chan (\<lambda>c. HandleCommit env c m)"
  by (auto simp: HandlePreCommit_def HandleCommit_def chan_defs split: option.split)

lemma HandleDecide_chan: "keeps_chan (\<lambda>c. HandleDecide env c m)"
  by (auto simp: HandleDecide_def chan_defs intro!: Option.bind_cong)

lemma RouteBMsg_chan: "keeps_chan (\<lambda>c. RouteBMsg env c m pk)"
  by (auto simp: RouteBMsg_def HandleNewView_chan HandlePrepare_chan votes_chan certs_chan HandleDecide_chan split: hs_StateType.split)

section \<open>What no handler changes\<close>

definition same_node :: "BCHotstuff \<Rightarrow> BCHotstuff \<Rightarrow> bool" where
  "same_node c d \<longleftrightarrow> ConsId d = ConsId c \<and> GoSends d = GoSends c"

lemma same_node_timer [simp]:
  "stop_ViewTimer c = Some d \<Longrightarrow> ConsId d = ConsId c \<and> GoSends d = GoSends c"
  "start_ViewTimer c = Some d \<Longrightarrow> ConsId d = ConsId c \<and> GoSends d = GoSends c"
  "bhs_NewRound c = Some d \<Longrightarrow> ConsId d = ConsId c \<and> GoSends d = GoSends c"
  by (auto simp: stop_ViewTimer_def start_ViewTimer_def bhs_NewRound_def bind_Some_iff)

lemma same_node_collect [simp]: "ConsId (collect_NewView env c m) = ConsId c" "GoSends (collect_NewView env c m) = GoSends c"
  by (simp_all add: collect_NewView_def)

lemmas same_defs = same_node_def Let_def bind_Some_iff

lemma HandleNewView_node: "HandleNewView env c m = Some (r, d) \<Longrightarrow> same_node c d"
  by (auto simp: HandleNewView_def same_defs dest!: same_node_timer split: if_splits)

lemma HandlePrepare_node: "HandlePrepare env c m pk = Some (r, d) \<Longrightarrow> same_node c d"
  by (auto simp: HandlePrepare_def same_defs dest!: same_node_timer split: if_splits option.splits)

lemma votes_node:
  "HandlePrepareVote env c m = Some (r, d) \<Longrightarrow> same_node c d" "HandlePreCommitVote env c m = Some (r, d) \<Longrightarrow> same_node c d"
  "HandleCommitVote env c m = Some (r, d) \<Longrightarrow> same_node c d"
  by (auto simp: HandlePrepareVote_def HandlePreCommitVote_def HandleCommitVote_def same_defs split: if_splits option.splits)

lemma certs_node:
  "HandlePreCommit env c m = Some (r, d) \<Longrightarrow> same_node c d" "HandleCommit env c m = Some (r, d) \<Longrightarrow> same_node c d"
  by (auto simp: HandlePreCommit_def HandleCommit_def same_defs split: if_splits option.splits)

lemma HandleDecide_node: "HandleDecide env c m = Some (r, d) \<Longrightarrow> same_node c d"
  by (auto simp: HandleDecide_def same_defs dest!: same_node_timer split: if_splits)

lemma RouteBMsg_node: "RouteBMsg env c m pk = Some (r, d) \<Longrightarrow> same_node c d"
  by (auto simp: RouteBMsg_def same_node_def
      dest: HandleNewView_node HandlePrepare_node votes_node certs_node HandleDecide_node split: hs_StateType.splits)

lemma RouteBMsg_channel: "RouteBMsg env c m pk = Some (r, d) \<Longrightarrow> SendChan d = SendChan c"
proof -
  assume r: "RouteBMsg env c m pk = Some (r, d)"
  have "RouteBMsg env (with_chan (SendChan c) c) m pk = Some (r, with_chan (SendChan c) d)"
    unfolding RouteBMsg_chan [rule_format] by (simp add: r)
  then have "d = with_chan (SendChan c) d" using r by simp
  then show ?thesis by (metis BCHotstuff.select_convs(20) BCHotstuff.surjective BCHotstuff.update_convs(20))
qed

lemma RouteBMsg_key: "RouteBMsg env c m pk = RouteBMsg env c m None"
proof -
  have v: "VerifyReqs reqs signs pk = VerifyReqs reqs signs None" for reqs signs by (simp add: VerifyReqs_def)
  show ?thesis unfolding RouteBMsg_def HandlePrepare_def v ..
qed

section \<open>The node and the core\<close>

lemma SendBMsg_core [simp]: "SendBMsg env (n\<lparr>nd_Basic := c\<rparr>) m w = SendBMsg env n m w"
  by (simp add: SendBMsg_def drv_send_def)

lemma HandleConsMsg_route:
  assumes "nd_Basic n = Some c" "\<not> (ViewChangeSendFlag c \<and> MType m = HS_NEW_VIEW \<and> SendNode m = nd_Name n)"
  shows "HandleConsMsg env n m w = do {
      (ret, c) \<leftarrow> RouteBMsg env c m None;
      case ret of
        None \<Rightarrow> Some (n\<lparr>nd_Basic := Some c\<rparr>, w)
      | Some r \<Rightarrow> do {
          w \<leftarrow> SendBMsg env n (r\<lparr>SendNode := nd_Name n\<rparr>) w;
          let c = c\<lparr>CurRoundMsg := CurRoundMsg c @ [r\<lparr>SendNode := nd_Name n\<rparr>]\<rparr>;
          Some (n\<lparr>nd_Basic := Some (if MType r = HS_NEW_VIEW \<and> \<not> Proposal_IsEmpty (CurProposal c) then UpdateBasicHotstuff c else c)\<rparr>, w)
        }
    }"
  unfolding HandleConsMsg_def assms(1) Option.bind.bind_lunit if_not_P [OF assms(2)]
  by (intro Option.bind_cong refl) (auto simp: send_round_def nd_Execute_def Let_def split: option.split)

lemma restore_chan: "SendChan e = None \<Longrightarrow> GoSends e = g \<Longrightarrow> e\<lparr>SendChan := None, GoSends := g\<rparr> = e"
  by (cases e) simp

text \<open>
  C10 One core, two drivers: a node of the earlier driver handles every message of basic HotStuff, but
  its own forwarded view change, as the core of a server with a send channel does: it panics when
  that does, its core comes to the same state but for the channel and the replies to the client,
  which it never makes, and it sends exactly what the core puts into its channel, unsigned.
\<close>

theorem driver_runs_core:
  assumes "nd_Basic n = Some c" "SendChan c = None" "nd_Name n = bhs_GetNodeName c"
    and "\<not> (ViewChangeSendFlag c \<and> MType m = HS_NEW_VIEW \<and> SendNode m = nd_Name n)"
  shows "HandleConsMsg env n m w = do {
      d \<leftarrow> HandleBMsg env (c\<lparr>SendChan := Some []\<rparr>) (Some m) pk;
      w \<leftarrow> run (\<lambda>w out. SendBMsg env n (Payload out) w) w (the (SendChan d));
      Some (n\<lparr>nd_Basic := Some (d\<lparr>SendChan := None, GoSends := GoSends c\<rparr>)\<rparr>, w)
    }"
proof (cases "RouteBMsg env c m None")
  case None
  have "RouteBMsg env (with_chan (Some []) c) m None = None" unfolding RouteBMsg_chan [rule_format] by (simp add: None)
  then show ?thesis unfolding HandleConsMsg_route [OF assms(1,4)] by (simp add: None HandleBMsg_def RouteBMsg_key [of _ _ _ pk])
next
  case (Some rd)
  obtain r d where rd: "rd = (r, d)" by (cases rd)
  have route: "RouteBMsg env c m None = Some (r, d)" using Some rd by simp
  have node: "ConsId d = ConsId c" "GoSends d = GoSends c" using RouteBMsg_node [OF route] by (simp_all add: same_node_def)
  have ch: "SendChan d = None" using RouteBMsg_channel [OF route] assms(2) by simp
  have core: "RouteBMsg env (with_chan (Some []) c) m pk = Some (r, with_chan (Some []) d)"
    unfolding RouteBMsg_key [of _ _ _ pk] RouteBMsg_chan [rule_format] by (simp add: route)
  have name: "bhs_GetNodeName (with_chan (Some []) d) = nd_Name n" using node(1) assms(3) by (simp add: bhs_GetNodeName_def)
  show ?thesis
    unfolding HandleConsMsg_route [OF assms(1,4)]
    using route core ch node
    by (cases r) (simp_all add: HandleBMsg_def name bhs_SendSerMsg_def Let_def Execute_def UpdateBasicHotstuff_def restore_chan)
qed

definition demo_node :: Node where
  "demo_node = fst (NewNode_of node_demo_env (None, None) 1 CT_BASIC [] 0 demo_world)"

definition demo_prepare :: Msg where
  "demo_prepare = nil_Msg\<lparr>MType := HS_PREPARE, m_Proposal := nil_Proposal\<lparr>Commands := Some [[1]]\<rparr>\<rparr>"

theorem driver_runs_core_witness:
  "\<exists>c d m. nd_Basic demo_node = Some c \<and> HandleBMsg node_demo_env (c\<lparr>SendChan := Some []\<rparr>) (Some demo_prepare) None = Some d \<and>
     SendChan d = Some [m] \<and> ReciServer m = ''r_0'' \<and>
     HandleConsMsg node_demo_env demo_node demo_prepare demo_world = do {
       w \<leftarrow> SendBMsg node_demo_env demo_node (Payload m) demo_world;
       Some (demo_node\<lparr>nd_Basic := Some (d\<lparr>SendChan := None, GoSends := GoSends c\<rparr>)\<rparr>, w)
     }"
proof -
  let ?c = "NewBCHotstuff node_demo_env 2000 1 0 [] None no_tss"
  have c: "nd_Basic demo_node = Some ?c" "nd_Name demo_node = bhs_GetNodeName ?c" "SendChan ?c = None" "\<not> ViewChangeSendFlag ?c"
    by (simp_all add: demo_node_def NewNode_of_def nd_InitConsensus_def nd_InitNodeManager_def bhs_GetNodeName_def NewBCHotstuff_def Let_def)
  have "map_option (\<lambda>d. map_option (map ReciServer) (SendChan d)) (HandleBMsg node_demo_env (?c\<lparr>SendChan := Some []\<rparr>) (Some demo_prepare) None) =
    Some (Some [''r_0''])" by code_simp
  then obtain d m where d: "HandleBMsg node_demo_env (?c\<lparr>SendChan := Some []\<rparr>) (Some demo_prepare) None = Some d"
    "SendChan d = Some [m]" "ReciServer m = ''r_0''" by auto
  with driver_runs_core [OF c(1,3,2), where m = demo_prepare and env = node_demo_env and pk = None and w = demo_world] c show ?thesis by auto
qed

end
