(* ===== verification/Drv_Props.thy ===== *)
theory Drv_Props
  imports Drv_Tests Drv_Equiv Fac_Props
begin

text \<open>
  The networks of the earlier driver: the tables its programs make, which are those of the factory, the
  first proposal, and what becomes of a node that asks to join.
\<close>

section \<open>The tables are those of the factory\<close>

text \<open>A node seen as a server: its name, its keys and its manager, on a server \<open>s0\<close> for the rest.\<close>

definition as_server :: "Server \<Rightarrow> Node \<Rightarrow> Server" where
  "as_server s0 n = s0\<lparr>ServerID := NodeID n, sv_Manager := nd_Manager n\<rparr>"

lemma as_server_sel [simp]:
  "ServerID (as_server s0 n) = NodeID n" "sv_Manager (as_server s0 n) = nd_Manager n"
  "sv_Orderer (as_server s0 n) = sv_Orderer s0" "NMType (as_server s0 n) = NMType s0"
  by (simp_all add: as_server_def)

lemma as_server_add: "as_server s0 (nd_add n t) = add_node (as_server s0 n) (as_server s0 t)"
  by (simp add: as_server_def nd_add_def add_node_def)

lemma as_server_share: "as_server s0 (nd_share n t key) = share_sm4 (as_server s0 n) (as_server s0 t) key"
  by (simp add: as_server_def nd_share_def share_sm4_def)

lemma nd_route_length [simp]: "length (nd_route g nodes ij) = length nodes"
  by (simp add: nd_route_def Let_def split: prod.split)

lemma nd_route_server:
  assumes "i < length nodes" "j < length nodes"
  shows "map (as_server s0) (nd_route g nodes (i, j)) = route_pair g (map (as_server s0) nodes) (i, j)"
  using assms by (simp add: nd_route_def route_pair_def Let_def map_update as_server_add as_server_share)

lemma nd_routes_fold:
  "set ps \<subseteq> {..<length nodes} \<times> {..<length nodes} \<Longrightarrow>
   map (as_server s0) (foldl (nd_route g) nodes ps) = foldl (route_pair g) (map (as_server s0) nodes) ps"
proof (induction ps arbitrary: nodes)
  case (Cons p ps)
  obtain i j where p: "p = (i, j)" by (cases p)
  with Cons.prems have ij: "i < length nodes" "j < length nodes" by auto
  show ?case using Cons p by (simp add: nd_route_server [OF ij])
qed simp

lemma nd_routes_server:
  "length nodes = n \<Longrightarrow> map (as_server s0) (nd_routes g n nodes) = route_tables g n (map (as_server s0) nodes)"
  unfolding nd_routes_def route_tables_def by (rule nd_routes_fold) auto

text \<open>The second loop changes nothing but the tables.\<close>

definition same_rest :: "Node \<Rightarrow> Node \<Rightarrow> bool" where
  "same_rest n n' \<longleftrightarrow> (\<exists>t. n' = n\<lparr>nd_Manager := (nd_Manager n)\<lparr>NodesTable := t\<rparr>\<rparr>)"

lemma same_rest_refl [simp]: "same_rest n n"
  unfolding same_rest_def by (rule exI [of _ "NodesTable (nd_Manager n)"]) simp

lemma same_rest_trans: "same_rest a b \<Longrightarrow> same_rest b c \<Longrightarrow> same_rest a c"
  by (auto simp: same_rest_def)

lemma same_rest_ops: "same_rest n (nd_add n t)" "same_rest n (nd_share n t key)"
  by (auto simp: same_rest_def nd_add_def nd_share_def UpdateSm4Key_def split: option.split)

lemma same_rest_sel:
  assumes "same_rest n n'"
  shows "NodeID n' = NodeID n" "nd_Basic n' = nd_Basic n" "nd_Inbox n' = nd_Inbox n" "nd_Workers n' = nd_Workers n" "nd_Go n' = nd_Go n"
    "nd_ReqState n' = nd_ReqState n" "nd_ConsType n' = nd_ConsType n" "NodesChannel (nd_Manager n') = NodesChannel (nd_Manager n)"
    "nd_Requests n' = nd_Requests n" "nd_BlkStore n' = nd_BlkStore n"
  using assms by (auto simp: same_rest_def)

lemma nd_route_rest:
  assumes "k < length nodes" "i < length nodes" "j < length nodes"
  shows "same_rest (nodes ! k) (nd_route g nodes (i, j) ! k)"
proof -
  have "same_rest n (nd_share (nd_add n t) u key)" for n t u key using same_rest_ops same_rest_trans by blast
  then show ?thesis using assms same_rest_ops by (simp add: nd_route_def Let_def nth_list_update)
qed

lemma nd_routes_rest:
  assumes "k < length nodes" "n = length nodes"
  shows "same_rest (nodes ! k) (nd_routes g n nodes ! k)"
proof -
  have "length (foldl (nd_route g) nodes ps) = length nodes \<and> same_rest (nodes ! k) (foldl (nd_route g) nodes ps ! k)"
    if "set ps \<subseteq> {..<n} \<times> {..<n}" for ps
    using that
  proof (induction ps rule: rev_induct)
    case (snoc p ps)
    obtain i j where "p = (i, j)" "i < n" "j < n" using snoc.prems by (cases p) auto
    then have "same_rest (foldl (nd_route g) nodes ps ! k) (nd_route g (foldl (nd_route g) nodes ps) p ! k)"
      using nd_route_rest [of k "foldl (nd_route g) nodes ps" i j g] snoc assms by simp
    with snoc same_rest_trans show ?case by auto
  qed simp
  moreover have "set (List.product [0..<n] [0..<n]) \<subseteq> {..<n} \<times> {..<n}" by auto
  ultimately have "same_rest (nodes ! k) (foldl (nd_route g) nodes (List.product [0..<n] [0..<n]) ! k)" by (simp del: set_product)
  then show ?thesis by (simp add: nd_routes_def)
qed

section \<open>The nodes with basic HotStuff\<close>

definition bh_core :: "'a env_scheme \<Rightarrow> nat \<Rightarrow> string \<Rightarrow> tss_Signer \<Rightarrow> nat \<Rightarrow> BCHotstuff" where
  "bh_core env nodeNum path t i =
     (let c = NewBCHotstuff env 2000 (int i) 0 path None no_tss in
      c\<lparr>ThresholdSigner := t, ForwardChan := Some [], LastRoundMsg := LastRoundMsg c @ [nil_Msg\<lparr>m_ViewNumber := -1\<rparr>],
        hs_View := (hs_View c)\<lparr>NodesNum := int nodeNum\<rparr>\<rparr>)"

definition bh_made :: "'a env_scheme \<Rightarrow> nat \<Rightarrow> string \<Rightarrow> tss_Signer \<Rightarrow> nat \<Rightarrow> nat \<Rightarrow> bytes \<Rightarrow> Node \<Rightarrow> bool" where
  "bh_made env nodeNum path t mp i pk n \<longleftrightarrow> nd_Name n = node_name (int i) \<and> pid_PubKey (pid_ID (NodeID n)) = pk \<and>
     Address (NodeID n) = Some (node_name (int i)) \<and> nd_Inbox n = Some (node_name (int i)) \<and> nd_Workers n = 1 \<and> nd_Go n = [] \<and>
     nd_ReqState n \<and> nd_ConsType n = CT_BASIC \<and> NodesChannel (nd_Manager n) = mp \<and> nd_Requests n = [] \<and>
     nd_Basic n = Some (bh_core env nodeNum path t i) \<and>
     map_of (NodesTable (nd_Manager n)) (node_name (int i)) = Some \<lparr>nk_Name = node_name (int i), Sm2PubKey = pk, Sm4Key = None\<rparr>"

lemma bh_node_made:
  "\<exists>n w'. NewNode_of env (sk, pk) (int i) CT_BASIC path a w = (n, w') \<and> Queues w' = Queues w \<and>
     (\<exists>n'. bh_node nodeNum path i t (n\<lparr>nd_Manager := (nd_Manager n)\<lparr>NodesChannel := mp\<rparr>\<rparr>) = Some n' \<and>
        bh_made env nodeNum path t mp i pk n' \<and> map fst (NodesTable (nd_Manager n')) = [node_name (int i)])"
  by (simp add: NewNode_of_def nd_InitConsensus_def nd_InitNodeManager_def bh_node_def bh_made_def bh_core_def Let_def node_name_def
      NewBCHotstuff_def bc_NewNodeManager_def NewNodeManager_def NodeManager.defs)

lemma drv_nodes_made:
  assumes "length ts = k" "\<forall>j. i \<le> j \<and> j < i + k \<longrightarrow> (\<exists>sk. gen_keys g j = Inr (sk, pub j))" "length ns = i"
    and "\<forall>j < i. bh_made env nodeNum path (sg j) mp j (pub j) (ns ! j) \<and> map fst (NodesTable (nd_Manager (ns ! j))) = [node_name (int j)]"
    and "map_of chans = (\<lambda>x. if x \<in> (\<lambda>j. node_name (int j)) ` {..<i} then Some (Some x) else None)" "\<forall>j < k. sg (i + j) = ts ! j"
    and "map fst chans = map (\<lambda>j. node_name (int j)) [0..<i]"
  shows "\<exists>ns' chans' w'. drv_nodes env g CT_BASIC path (bh_node nodeNum path) mp ts i k (ns, chans, w) = Some (ns', chans', w') \<and>
    length ns' = i + k \<and> Queues w' = Queues w \<and>
    (\<forall>j < i + k. bh_made env nodeNum path (sg j) mp j (pub j) (ns' ! j) \<and> map fst (NodesTable (nd_Manager (ns' ! j))) = [node_name (int j)]) \<and>
    map_of chans' = (\<lambda>x. if x \<in> (\<lambda>j. node_name (int j)) ` {..<i + k} then Some (Some x) else None) \<and>
    map fst chans' = map (\<lambda>j. node_name (int j)) [0..<i + k]"
  using assms
proof (induction k arbitrary: i ts ns chans w)
  case 0
  then show ?case by simp
next
  case (Suc k)
  then obtain t ts' where ts: "ts = t # ts'" by (cases ts) auto
  obtain sk where sk: "gen_keys g i = Inr (sk, pub i)" using Suc.prems(2) by auto
  obtain n w1 n' where n: "NewNode_of env (sk, pub i) (int i) CT_BASIC path (Suc (mp + i)) w = (n, w1)" "Queues w1 = Queues w"
    "bh_node nodeNum path i t (n\<lparr>nd_Manager := (nd_Manager n)\<lparr>NodesChannel := mp\<rparr>\<rparr>) = Some n'"
    "bh_made env nodeNum path t mp i (pub i) n'" "map fst (NodesTable (nd_Manager n')) = [node_name (int i)]"
    using bh_node_made [of env sk "pub i" i path "Suc (mp + i)" w nodeNum t mp] by (elim exE conjE) (rule that)
  have sg: "sg i = t" using Suc.prems(6) ts by force
  let ?chans = "AList.update (node_name (int i)) (Some (node_name (int i))) chans"
  have new: "node_name (int i) \<notin> fst ` set chans" using arg_cong [OF Suc.prems(7), of set] by auto
  have "\<exists>ns' chans' w'. drv_nodes env g CT_BASIC path (bh_node nodeNum path) mp ts' (Suc i) k (ns @ [n'], ?chans, w1) = Some (ns', chans', w') \<and>
    length ns' = Suc i + k \<and> Queues w' = Queues w1 \<and>
    (\<forall>j < Suc i + k. bh_made env nodeNum path (sg j) mp j (pub j) (ns' ! j) \<and> map fst (NodesTable (nd_Manager (ns' ! j))) = [node_name (int j)]) \<and>
    map_of chans' = (\<lambda>x. if x \<in> (\<lambda>j. node_name (int j)) ` {..<Suc i + k} then Some (Some x) else None) \<and>
    map fst chans' = map (\<lambda>j. node_name (int j)) [0..<Suc i + k]"
  proof (rule Suc.IH)
    show "length ts' = k" using Suc.prems(1) ts by simp
    show "\<forall>j. Suc i \<le> j \<and> j < Suc i + k \<longrightarrow> (\<exists>sk. gen_keys g j = Inr (sk, pub j))" using Suc.prems(2) by auto
    show "length (ns @ [n']) = Suc i" using Suc.prems(3) by simp
    show "\<forall>j < Suc i. bh_made env nodeNum path (sg j) mp j (pub j) ((ns @ [n']) ! j) \<and> map fst (NodesTable (nd_Manager ((ns @ [n']) ! j))) = [node_name (int j)]"
      using Suc.prems(3,4) n(4,5) sg by (auto simp: nth_append less_Suc_eq)
    show "map_of ?chans = (\<lambda>x. if x \<in> (\<lambda>j. node_name (int j)) ` {..<Suc i} then Some (Some x) else None)"
      using Suc.prems(5) by (auto simp: update_conv' fun_eq_iff lessThan_Suc)
    show "\<forall>j < k. sg (Suc i + j) = ts' ! j" using Suc.prems(6) ts by force
    show "map fst ?chans = map (\<lambda>j. node_name (int j)) [0..<Suc i]"
      using Suc.prems(7) new by (simp add: update_keys image_iff)
  qed
  moreover have "nd_Name n' = node_name (int i)" "nd_Inbox n' = Some (node_name (int i))" using n(4) by (simp_all add: bh_made_def)
  ultimately show ?case using n(1-3) sk ts by (simp add: drv_keys_def)
qed

lemma bh_made_same_rest:
  assumes "same_rest n n'" "bh_made env k path t mp i pk n"
    and "map_of (NodesTable (nd_Manager n')) (node_name (int i)) = Some \<lparr>nk_Name = node_name (int i), Sm2PubKey = pk, Sm4Key = None\<rparr>"
  shows "bh_made env k path t mp i pk n'"
proof -
  obtain tb where n': "n' = n\<lparr>nd_Manager := (nd_Manager n)\<lparr>NodesTable := tb\<rparr>\<rparr>" using assms(1) unfolding same_rest_def by blast
  show ?thesis using assms(2,3) unfolding n' bh_made_def by simp
qed

text \<open>
  The network of the program for basic HotStuff: with keys and a signer for every index it makes n
  nodes that share one map naming the channel of each; every node has the core of its index and the
  table of all the nodes with their public keys that a server of the factory has.
\<close>

lemma bh_GenNodes_made:
  assumes "\<forall>i < n. \<exists>sk. gen_keys g i = Inr (sk, pub i)" and "drv_tss g n = Some ts" "length ts = n"
  shows "\<exists>nodes w'. bh_GenNodes env g n path mp w = Some (nodes, w') \<and> length nodes = n \<and> Queues w' = Queues w \<and>
    map fst (Maps w' mp) = map (\<lambda>i. node_name (int i)) [0..<n] \<and>
    map_of (Maps w' mp) = (\<lambda>x. if x \<in> (\<lambda>i. node_name (int i)) ` {..<n} then Some (Some x) else None) \<and>
    (\<forall>i < n. bh_made env n path (ts ! i) mp i (pub i) (nodes ! i) \<and> length (NodesTable (nd_Manager (nodes ! i))) = n \<and>
       (\<forall>j < n. map_of (NodesTable (nd_Manager (nodes ! i))) (node_name (int j)) =
          Some \<lparr>nk_Name = node_name (int j), Sm2PubKey = pub j, Sm4Key = (if i < j then gen_sm4 g i j else None)\<rparr>))"
proof -
  obtain ns chans w' where d: "drv_nodes env g CT_BASIC path (bh_node n path) mp ts 0 n ([], [], w) = Some (ns, chans, w')"
    "length ns = n" "Queues w' = Queues w"
    "\<forall>j < n. bh_made env n path (ts ! j) mp j (pub j) (ns ! j) \<and> map fst (NodesTable (nd_Manager (ns ! j))) = [node_name (int j)]"
    "map_of chans = (\<lambda>x. if x \<in> (\<lambda>j. node_name (int j)) ` {..<n} then Some (Some x) else None)"
    "map fst chans = map (\<lambda>j. node_name (int j)) [0..<n]"
    using drv_nodes_made [of ts n 0 g pub "[]" env n path "\<lambda>j. ts ! j" mp "[]" w] assms by auto
  obtain s0 :: Server where s0: "ord_wf CT_CHAINED (sv_Orderer s0)" "NMType s0 = NMT_BASIC"
    using NewServer_fresh [of CT_CHAINED "TssSigner demo_tss" env None None None None 0 1 "[]" 0] by (auto simp: signer_matches_def fresh_server_def)
  have "fresh_server CT_CHAINED mp j (pub j) (as_server s0 (ns ! j)) \<and> map fst (NodesTable (nd_Manager (ns ! j))) = [node_name (int j)]" if "j < n" for j
    using d(4) that s0 by (simp add: bh_made_def fresh_server_def)
  then have "net_ok CT_CHAINED mp n pub (map (as_server s0) ns)"
    using d(2) by (auto simp: net_ok_def knows_ok_def simp flip: set_map)
  note ok = this
  let ?r = "nd_routes g n ns"
  have r: "map (as_server s0) ?r = route_tables g n (map (as_server s0) ns)" by (rule nd_routes_server [OF d(2)])
  have len: "length ?r = n" using arg_cong [OF r, of length] route_tables_ok [OF ok, of g] by (simp add: net_ok_def)
  have okr: "net_ok CT_CHAINED mp n pub (map (as_server s0) ?r)" unfolding r by (rule route_tables_ok [OF ok])
  have e: "map_of (NodesTable (nd_Manager (?r ! i))) (node_name (int j)) =
      Some \<lparr>nk_Name = node_name (int j), Sm2PubKey = pub j, Sm4Key = (if i < j then gen_sm4 g i j else None)\<rparr>" if "i < n" "j < n" for i j
  proof (cases "i = j")
    case True
    with okr that len show ?thesis by (auto simp: net_ok_def knows_ok_def fresh_server_def)
  next
    case False
    from route_tables_entry [OF ok that this, of g] that len show ?thesis by (simp flip: r)
  qed
  have l: "length (NodesTable (nd_Manager (?r ! i))) = n" if "i < n" for i
    using net_ok_table_length [OF okr that] e [OF that] that len by simp
  have m: "bh_made env n path (ts ! i) mp i (pub i) (?r ! i)" if "i < n" for i
  proof -
    have "same_rest (ns ! i) (?r ! i)" by (rule nd_routes_rest) (use d(2) that in auto)
    moreover have "bh_made env n path (ts ! i) mp i (pub i) (ns ! i)" using d(4) that by blast
    moreover have "map_of (NodesTable (nd_Manager (?r ! i))) (node_name (int i)) =
        Some \<lparr>nk_Name = node_name (int i), Sm2PubKey = pub i, Sm4Key = None\<rparr>"
      using e [OF that that] by (simp only: less_irrefl if_False)
    ultimately show ?thesis by (rule bh_made_same_rest)
  qed
  have gen: "bh_GenNodes env g n path mp w = Some (?r, w'\<lparr>Maps := (Maps w')(mp := chans)\<rparr>)"
    using assms(2) d(1) by (simp add: bh_GenNodes_def)
  show ?thesis
    by (rule exI [of _ ?r], rule exI [of _ "w'\<lparr>Maps := (Maps w')(mp := chans)\<rparr>"]) (intro conjI allI impI; simp add: gen len d(3,5,6) l m e)
qed

section \<open>The first proposal\<close>

lemma send_each_queues:
  "distinct as \<Longrightarrow> \<exists>w'. send_each (map Some as) m w = Some w' \<and>
     (\<forall>a. Queues w' a = (if a \<in> set as then Queues w a @ [m] else Queues w a))"
proof (induction as arbitrary: w)
  case (Cons a as)
  let ?w = "w\<lparr>Queues := (Queues w)(a := Queues w a @ [m])\<rparr>"
  obtain w' where "send_each (map Some as) m ?w = Some w'"
    "\<forall>b. Queues w' b = (if b \<in> set as then Queues ?w b @ [m] else Queues ?w b)" using Cons by force
  with Cons.prems show ?case by (intro exI [of _ w']) (auto simp: chan_send_to_def)
qed simp

lemma own_channels:
  assumes "map fst chans = map (\<lambda>i. node_name (int i)) [0..<n]"
    and "map_of chans = (\<lambda>x. if x \<in> (\<lambda>i. node_name (int i)) ` {..<n} then Some (Some x) else None)"
  shows "map snd chans = map Some (map (\<lambda>i. node_name (int i)) [0..<n])"
proof -
  have d: "distinct (map fst chans)" unfolding assms(1) by (simp add: distinct_map inj_on_def)
  have "snd p = Some (fst p)" if "p \<in> set chans" for p
  proof -
    from that d have "map_of chans (fst p) = Some (snd p)" by (simp add: map_of_is_SomeI)
    then show ?thesis using assms(2) by (simp split: if_splits)
  qed
  then have "map snd chans = map Some (map fst chans)" by simp
  then show ?thesis using assms(1) by simp
qed

text \<open>The core of the first leader, and its proposal.\<close>

lemma first_leader_proposes:
  assumes c_def: "c = bhs_InitLeader env (bh_core env n path t 0)" and "Commands p = Some cmds"
  shows "\<exists>d m. GenProposal env (c\<lparr>CurProposal := p\<rparr>) = Some (Some m, d) \<and> MType m = HS_PREPARE \<and> m_ViewNumber m = 0 \<and>
    m_Proposal m = p \<and> ReciNode m = ''Broadcast''"
proof -
  let ?c = "c\<lparr>CurProposal := p\<rparr>"
  have c: "IgnoreCheckQC ?c" "NewViewMsgs ?c \<noteq> []" "timer_ok (ViewTimer ?c)" "ViewNumber (hs_View ?c) = 0"
    by (simp_all add: c_def bhs_InitLeader_def bh_core_def NewBCHotstuff_def Let_def)
  obtain k where k: "GetHighQCIndex (NewViewMsgs ?c) = Some k" using GetHighQCIndex_first_max [OF c(2)] by blast
  obtain bs where "GenNewBlock env (BlkStore ?c) 0 (map bytes2str (map (take 128) cmds)) [] = Some bs"
    using GenNewBlock_returns [of env "BlkStore ?c" 0] by blast
  with c k assms(2) show ?thesis
    by (simp add: GenProposal_def TwoDimByteSlice2StringSlice_def Let_def)
qed

text \<open>
  C11 The first round of the program for basic HotStuff: after the nodes are made and the first round
  is started, one pass of the request loop of node 0 puts one and the same PREPARE, with the genesis
  request as its proposal, at the end of the channel of every node, and touches no other channel.
\<close>

theorem first_proposal:
  assumes "\<forall>i < n. \<exists>sk. gen_keys g i = Inr (sk, pub i)" and "drv_tss g n = Some ts" "length ts = n" "0 < n"
  shows "\<exists>nodes w0 nodes' dirs' n0 w1 m. bh_GenNodes env g n path mp w = Some (nodes, w0) \<and>
    bh_GenFirstRound env nodes dirs = Some (nodes', dirs') \<and> nd_HandleReq env (nodes' ! 0) w0 = Some (n0, w1) \<and>
    MType m = HS_PREPARE \<and> m_ViewNumber m = 0 \<and> Commands (m_Proposal m) = Some genesis \<and> SendNode m = node_name 0 \<and>
    nd_Requests n0 = [] \<and> (\<forall>a. Queues w1 a =
      (if a \<in> (\<lambda>i. node_name (int i)) ` {..<n} then Queues w a @ [enc_Msg env m] else Queues w a))"
proof -
  obtain nodes w0 where g: "bh_GenNodes env g n path mp w = Some (nodes, w0)" "length nodes = n" "Queues w0 = Queues w"
    "map fst (Maps w0 mp) = map (\<lambda>i. node_name (int i)) [0..<n]"
    "map_of (Maps w0 mp) = (\<lambda>x. if x \<in> (\<lambda>i. node_name (int i)) ` {..<n} then Some (Some x) else None)"
    "\<forall>i < n. bh_made env n path (ts ! i) mp i (pub i) (nodes ! i)"
    using bh_GenNodes_made [OF assms(1-3), of env path mp w] by blast
  then obtain x ns where nodes: "nodes = x # ns" using assms(4) by (cases nodes) auto
  have made: "bh_made env n path (ts ! 0) mp 0 (pub 0) x" using g(6) assms(4) nodes by auto
  let ?c = "bhs_InitLeader env (bh_core env n path (ts ! 0) 0)"
  let ?x = "x\<lparr>nd_Basic := Some ?c, nd_Requests := genesis\<rparr>"
  have first: "\<exists>dirs'. bh_GenFirstRound env nodes dirs = Some (?x # ns, dirs')"
    using made by (simp add: bh_GenFirstRound_def nodes bh_made_def)
  define p where "p = nil_Proposal\<lparr>pr_Height := bs_Height (nd_BlkStore ?x), pr_PreBlkHash := bs_PreBlkHash (nd_BlkStore ?x),
    pr_RootHash := Some (HashFromByteSlicesIterative (SM3 env) genesis), Commands := Some genesis\<rparr>"
  obtain d m where m: "GenProposal env (?c\<lparr>CurProposal := p\<rparr>) = Some (Some m, d)" "MType m = HS_PREPARE" "m_ViewNumber m = 0"
    "m_Proposal m = p" "ReciNode m = ''Broadcast''"
    using first_leader_proposes [OF refl, of p genesis env n path "ts ! 0"] by (auto simp: p_def)
  let ?m = "m\<lparr>SendNode := nd_Name x\<rparr>"
  have lead: "nd_Name x = bhs_GetLeaderName ?c" "CurPhase ?c = HS_WAITING" "genesis \<noteq> []"
    using made by (simp_all add: bh_made_def bhs_InitLeader_def bh_core_def NewBCHotstuff_def bhs_GetLeaderName_def LeaderName_def
        node_name_def genesis_def Let_def)
  have chans: "map snd (Maps w0 mp) = map Some (map (\<lambda>i. node_name (int i)) [0..<n])" by (rule own_channels [OF g(4,5)])
  have "distinct (map (\<lambda>i. node_name (int i)) [0..<n])" by (simp add: distinct_map inj_on_def)
  from send_each_queues [OF this, of "enc_Msg env ?m" w0] obtain w1 where
    w1: "send_each (map snd (Maps w0 mp)) (enc_Msg env ?m) w0 = Some w1"
    "\<forall>a. Queues w1 a = (if a \<in> (\<lambda>i. node_name (int i)) ` {..<n} then Queues w a @ [enc_Msg env ?m] else Queues w a)"
    unfolding chans g(3) set_map set_upt atLeast0LessThan by blast
  have "\<exists>n0. nd_HandleReq env ?x w0 = Some (n0, w1) \<and> nd_Requests n0 = []"
    using made m w1(1) lead p_def
    by (simp add: nd_HandleReq_def bh_made_def send_round_def SendBMsg_def drv_send_def Let_def)
  with g(1) first m w1(2) made show ?thesis
    by (intro exI [of _ nodes] exI [of _ w0] exI [of _ "?x # ns"])
      (auto simp: p_def bh_made_def intro!: exI [of _ w1] exI [of _ ?m])
qed

theorem first_proposal_witness:
  "\<exists>nodes w0 nodes' dirs' n0 w1 m. bh_GenNodes node_demo_env demo_gen 3 [] 0 demo_world = Some (nodes, w0) \<and>
     bh_GenFirstRound node_demo_env nodes (\<lambda>_. None) = Some (nodes', dirs') \<and>
     nd_HandleReq node_demo_env (nodes' ! 0) w0 = Some (n0, w1) \<and> MType m = HS_PREPARE \<and>
     Queues w1 (node_name 2) = Queues demo_world (node_name 2) @ [enc_Msg node_demo_env m] \<and>
     Queues w1 ''Client'' = Queues demo_world ''Client''"
proof -
  have "drv_tss demo_gen 3 = Some (replicate 3 demo_tss)" by (simp add: drv_tss_def demo_gen_def all_some_replicate)
  with first_proposal [of 3 demo_gen "\<lambda>i. Some [of_nat i]" "replicate 3 demo_tss" node_demo_env "[]" 0 demo_world "\<lambda>_. None"]
  obtain nodes w0 nodes' dirs' n0 w1 m where r: "bh_GenNodes node_demo_env demo_gen 3 [] 0 demo_world = Some (nodes, w0)"
    "bh_GenFirstRound node_demo_env nodes (\<lambda>_. None) = Some (nodes', dirs')" "nd_HandleReq node_demo_env (nodes' ! 0) w0 = Some (n0, w1)"
    "MType m = HS_PREPARE" and q: "\<forall>a. Queues w1 a =
      (if a \<in> (\<lambda>i. node_name (int i)) ` {..<3} then Queues demo_world a @ [enc_Msg node_demo_env m] else Queues demo_world a)"
    by auto
  have "node_name 2 \<in> (\<lambda>i. node_name (int i)) ` {..<3}" by (rule image_eqI [of _ _ 2]) simp_all
  moreover have "''Client'' \<notin> (\<lambda>i. node_name (int i)) ` {..<3}" by (auto simp: node_name_def)
  ultimately show ?thesis using r q by (intro exI [of _ nodes] exI [of _ w0] exI [of _ nodes'] exI [of _ dirs'] exI [of _ n0] exI [of _ w1] exI [of _ m]) simp
qed

section \<open>Joining and leaving\<close>

text \<open>
  What encoding/json makes of a management message without blocks when it is read as a consensus
  message: the fields of the same name and type are copied (the types of the two \<open>NMType\<close> are numbers
  of a byte), the null of the blocks changes nothing, the other fields are skipped.
\<close>

definition as_new_view :: "hs_StateType \<Rightarrow> NodeMgmtMsg \<Rightarrow> Msg" where
  "as_new_view t m = nil_Msg\<lparr>Msg.NMType := t, m_ViewNumber := nm_ViewNumber m, Justify := nm_Justify m,
     SendNode := nm_SendNode m, ReciNode := nm_ReciNode m\<rparr>"

lemma as_new_view_type [simp]: "MType (as_new_view t m) = HS_NEW_VIEW"
  by (simp add: as_new_view_def nil_Msg_def)

lemma nd_Stop_go: "nd_Stop n = Some n' \<Longrightarrow> nd_Go n' = nd_Go n"
  by (auto simp: nd_Stop_def Let_def bind_Some_iff)

lemma nd_exit_each_go:
  "nd_exit_each env n ks = Some n' \<Longrightarrow> Go_NMMsg m \<in> set (nd_Go n') - set (nd_Go n) \<Longrightarrow> nm_Block m = []"
proof (induction ks arbitrary: n)
  case (Cons k ks)
  from Cons.prems(1) obtain n1 where n1: "nd_exit_each env n1 ks = Some n'"
    "n1 = n\<lparr>nd_Go := nd_Go n @ [Go_NMMsg (exit_msg env n k)]\<rparr> \<or> nd_Stop n = Some n1" by (auto simp: bind_Some_iff split: if_splits)
  show ?case
  proof (cases "Go_NMMsg m \<in> set (nd_Go n1)")
    case True
    with n1(2) Cons.prems(2) show ?thesis by (auto simp: exit_msg_def nil_NodeMgmtMsg_def dest!: nd_Stop_go)
  qed (use Cons n1 in blast)
qed simp

lemma nd_StartExit_go:
  "nd_StartExit env n = Some n' \<Longrightarrow> Go_NMMsg m \<in> set (nd_Go n') - set (nd_Go n) \<Longrightarrow> nm_Block m = []"
  by (auto simp: nd_StartExit_def Let_def bind_Some_iff dest!: nd_exit_each_go [where m = m])

lemma nd_StartJoin_go:
  "nd_StartJoin n others = Some (n', others') \<Longrightarrow> Go_NMMsg m \<in> set (nd_Go n') - set (nd_Go n) \<Longrightarrow> nm_Block m = []"
  by (auto simp: nd_StartJoin_def Let_def bind_Some_iff join_msg_def nil_NodeMgmtMsg_def)

lemma timer_view: "stop_ViewTimer c = Some d \<Longrightarrow> hs_View d = hs_View c" "start_ViewTimer c = Some d \<Longrightarrow> hs_View d = hs_View c"
  by (auto simp: stop_ViewTimer_def start_ViewTimer_def bind_Some_iff)

lemma HandleNewView_answer:
  "HandleNewView env c m = Some (r, d) \<Longrightarrow> hs_View d = hs_View c \<and> (\<forall>b. r = Some b \<longrightarrow> MType b = HS_PREPARE)"
  by (auto simp: HandleNewView_def Let_def bind_Some_iff collect_NewView_def dest!: timer_view split: if_splits)

lemma HandleConsMsg_new_view:
  assumes "HandleConsMsg env n m w = Some (n', w')" "MType m = HS_NEW_VIEW" "nd_Basic n = Some c"
  shows "\<exists>c'. n' = n\<lparr>nd_Basic := Some c'\<rparr> \<and> hs_View c' = hs_View c \<and>
    (w' = w \<or> (\<exists>b. SendBMsg env n b w = Some w' \<and> (b = m \<or> MType b = HS_PREPARE)))"
proof (cases "ViewChangeSendFlag c \<and> SendNode m = nd_Name n")
  case True
  with assms show ?thesis by (auto simp: HandleConsMsg_def bind_Some_iff intro!: exI [of _ "c\<lparr>ViewChangeSendFlag := False\<rparr>"])
next
  case False
  with assms obtain r d where rd: "HandleNewView env c m = Some (r, d)"
    and n': "(case r of None \<Rightarrow> Some (n\<lparr>nd_Basic := Some d\<rparr>, w)
      | Some b \<Rightarrow> do {
          w \<leftarrow> SendBMsg env n (b\<lparr>SendNode := nd_Name n\<rparr>) w;
          let c = d\<lparr>CurRoundMsg := CurRoundMsg d @ [b\<lparr>SendNode := nd_Name n\<rparr>]\<rparr>;
          Some (n\<lparr>nd_Basic := Some (if MType b = HS_NEW_VIEW \<and> \<not> Proposal_IsEmpty (CurProposal c) then UpdateBasicHotstuff c else c)\<rparr>, w)
        }) = Some (n', w')"
    by (auto simp: HandleConsMsg_route RouteBMsg_def bind_Some_iff)
  from HandleNewView_answer [OF rd] n' show ?thesis
    by (cases r) (auto simp: bind_Some_iff Let_def intro!: exI [of _ "SendNode_update _ _"])
qed

text \<open>
  C12 Nobody hears that a node wants to join or leave: with encoding/json every application that
  nd_StartJoin or nd_StartExit sends is read as a consensus message, a NEW-VIEW, because a
  message that decodes as one is never tried as one of the manager. Whatever node receives it keeps
  its flags, its manager with its table of keys and its view with the number of nodes; if it sends anything, it
  is a PREPARE or the message itself.
\<close>

theorem applications_unheard:
  assumes "nd_StartJoin n others = Some (n', others') \<or> nd_StartExit env n = Some n'"
    and "Go_NMMsg m \<in> set (nd_Go n') - set (nd_Go n)"
    and json: "nm_Block m = [] \<longrightarrow> dec_Msg env (enc_Mgmt env m) = Some (as_new_view t m)"
    and "nd_Basic r = Some c" "nd_HandleMsg env r (enc_Mgmt env m) w = Some (r', w')"
  shows "\<exists>c'. r' = r\<lparr>nd_Basic := Some c'\<rparr> \<and> hs_View c' = hs_View c \<and>
    (w' = w \<or> (\<exists>b. SendBMsg env r b w = Some w' \<and> (b = as_new_view t m \<or> MType b = HS_PREPARE)))"
proof -
  have "nm_Block m = []" using assms(1,2) nd_StartJoin_go nd_StartExit_go by blast
  with json assms(5) have h: "(if nd_HandleState r then HandleConsMsg env r (as_new_view t m) w else Some (r, w)) = Some (r', w')"
    by (simp add: nd_HandleMsg_def)
  show ?thesis
  proof (cases "nd_HandleState r")
    case True
    with h HandleConsMsg_new_view [of env r "as_new_view t m" w r' w' c] assms(4) show ?thesis by simp
  next
    case False
    with h assms(4) show ?thesis by (auto intro!: exI [of _ c])
  qed
qed

definition demo_joiner :: Node where
  "demo_joiner = demo_node\<lparr>nd_Manager := (nd_Manager demo_node)\<lparr>NodesTable := [(''r_0'', \<lparr>nk_Name = ''r_0'', Sm2PubKey = None, Sm4Key = None\<rparr>)]\<rparr>\<rparr>"

definition demo_application :: NodeMgmtMsg where
  "demo_application = join_msg demo_joiner \<lparr>nk_Name = ''r_0'', Sm2PubKey = None, Sm4Key = None\<rparr>"

definition drv_demo_env :: drv_env where
  "drv_demo_env = node_env.extend (node_demo_env\<lparr>dec_Msg := (\<lambda>_. Some (as_new_view HS_PREPARE demo_application))\<rparr>)
     \<lparr>left_CMsg = (\<lambda>_. nil_CMsg), left_Mgmt = (\<lambda>_. nil_NodeMgmtMsg)\<rparr>"

theorem applications_unheard_witness:
  "\<exists>n' r'. nd_StartJoin demo_joiner [] = Some (n', []) \<and> nd_Go n' = [Go_NMMsg demo_application] \<and>
     nd_HandleMsg drv_demo_env demo_node (enc_Mgmt drv_demo_env demo_application) demo_world = Some (r', demo_world) \<and>
     nd_Manager r' = nd_Manager demo_node"
proof -
  obtain n' where n': "nd_StartJoin demo_joiner [] = Some (n', [])" "nd_Go n' = [Go_NMMsg demo_application]" "nd_Go demo_joiner = []"
    by (simp add: nd_StartJoin_def demo_joiner_def demo_application_def demo_node_def NewNode_of_def nd_InitConsensus_def
        nd_InitNodeManager_def bc_NewNodeManager_def NewNodeManager_def join_msg_def Let_def)
  obtain c where c: "nd_Basic demo_node = Some c" "CurPhase c = HS_NEW_VIEW" "bhs_GetNodeName c \<noteq> bhs_GetLeaderName c" "nd_HandleState demo_node"
    "\<not> ViewChangeSendFlag c"
    by (simp add: demo_node_def NewNode_of_def nd_InitConsensus_def nd_InitNodeManager_def NewBCHotstuff_def bhs_GetNodeName_def
        bhs_GetLeaderName_def LeaderName_def Let_def)
  have dec: "dec_Msg drv_demo_env b = Some (as_new_view HS_PREPARE demo_application)" for b
    by (simp add: drv_demo_env_def node_env.defs)
  obtain r' where r': "nd_HandleMsg drv_demo_env demo_node (enc_Mgmt drv_demo_env demo_application) demo_world = Some (r', demo_world)"
    using c by (auto simp: nd_HandleMsg_def dec HandleConsMsg_route RouteBMsg_def HandleNewView_def)
  from applications_unheard [OF disjI1 [OF n'(1)] _ _ c(1) r', of HS_PREPARE] n' dec obtain c' where "r' = demo_node\<lparr>nd_Basic := Some c'\<rparr>" by auto
  with n' r' show ?thesis by auto
qed

end
