(* ===== verification/Srv_Wire.thy ===== *)
theory Srv_Wire
  imports Srv_Core
begin

text \<open>
  What is left of the wire: the UDP function and the checks of ports (network/p2p), the server that
  answers a line with the line (core/server/conn.go), which nothing starts, the loops that accept
  connections, and the log of points of time (common/log), which nothing writes. Whether an address
  resolves, is dialled or listened on is a parameter; a line that cannot be read is \<open>None\<close>.
\<close>

definition SendUdp ::
  "(string \<Rightarrow> bool) \<Rightarrow> (string \<Rightarrow> bool) \<Rightarrow> string \<Rightarrow> byte list \<Rightarrow> (string \<times> byte list) list \<Rightarrow> (string \<times> byte list) list" where
  "SendUdp resolves dials addr msg wire =
     (if \<not> resolves addr then wire else if \<not> dials addr then wire else wire @ [(addr, msg)])"

definition CheckTCP :: "(string \<Rightarrow> bool) \<Rightarrow> int \<Rightarrow> bool" where
  "CheckTCP dials port = (if \<not> dials (''localhost:'' @ Itoa port) then False else True)"

definition CheckUDP :: "(string \<Rightarrow> bool) \<Rightarrow> int \<Rightarrow> bool" where
  "CheckUDP dials port = (if \<not> dials (''localhost:'' @ Itoa port) then False else True)"

fun conn_handleClient :: "string option list \<Rightarrow> string list" where
  "conn_handleClient [] = []"
| "conn_handleClient (None # reads) = []"
| "conn_handleClient (Some msg # reads) = (''Server: '' @ msg) # conn_handleClient reads"

text \<open>
  A loop over \<open>Accept\<close>: every accepted connection gets a goroutine, in this order; one that cannot be
  accepted (\<open>None\<close>) is skipped, and without a listener there is none.
\<close>

fun accept_each :: "'b option list \<Rightarrow> 'b list" where
  "accept_each [] = []"
| "accept_each (None # conns) = accept_each conns"
| "accept_each (Some c # conns) = c # accept_each conns"

definition conn_StartServer :: "bool \<Rightarrow> string option list option list \<Rightarrow> string list list" where
  "conn_StartServer listens conns = (if \<not> listens then [] else map conn_handleClient (accept_each conns))"

text \<open>
  The listeners of the client (core/client) and of the server program (cmd/run\_with\_client): the
  connections that \<open>handleConn\<close> and \<open>handleClient\<close> are started on, whatever a connection is.
\<close>

definition StartListenTcp :: "(string \<Rightarrow> bool) \<Rightarrow> string \<Rightarrow> 'b option list \<Rightarrow> 'b list" where
  "StartListenTcp listens port conns = (if \<not> listens ('':'' @ port) then [] else accept_each conns)"

definition StartServerPort :: "(string \<Rightarrow> bool) \<Rightarrow> string \<Rightarrow> 'b option list \<Rightarrow> 'b list" where
  "StartServerPort listens port conns = (if \<not> listens ('':'' @ port) then [] else accept_each conns)"

lemma echo_until_error:
  "conn_handleClient (map Some msgs @ None # reads) = map (\<lambda>msg. ''Server: '' @ msg) msgs"
  by (induction msgs) simp_all

lemma accept_each_all: "accept_each conns = map the (filter (\<lambda>c. c \<noteq> None) conns)"
  by (induction conns rule: accept_each.induct) simp_all

section \<open>The log (common/log)\<close>

record Logger =
  FPath :: string
  TimePoints :: "int list"

definition NewLogger :: "string \<Rightarrow> Logger" where
  "NewLogger path = \<lparr>FPath = path, TimePoints = []\<rparr>"

text \<open>The clock is read in nanoseconds and kept in milliseconds.\<close>

definition AppendPoint :: "int \<Rightarrow> Logger \<Rightarrow> Logger" where
  "AppendPoint now l = l\<lparr>TimePoints := TimePoints l @ [now sdiv 1000000]\<rparr>"

text \<open>
  \<open>log.Println\<close> puts a stamp of date and time in front of a line, and spaces between its operands.
  A file that cannot be opened ends the program (\<open>Inl\<close>); else the lines are appended to it.
\<close>

fun log_lines :: "string \<Rightarrow> int \<Rightarrow> int list \<Rightarrow> string list" where
  "log_lines stamp i [] = []"
| "log_lines stamp i (p # ps) = (stamp @ Itoa i @ '' '' @ ''  '' @ '' '' @ Itoa p) # log_lines stamp (i + 1) ps"

definition LogTime2File ::
  "(string \<Rightarrow> bool) \<Rightarrow> string \<Rightarrow> Logger \<Rightarrow> (string \<Rightarrow> string list) \<Rightarrow> string + (string \<Rightarrow> string list)" where
  "LogTime2File opens stamp l files =
     (if \<not> opens (FPath l) then Inl (FPath l)
      else Inr (files(FPath l := files (FPath l) @ log_lines stamp 0 (TimePoints l))))"

lemma log_lines_nth:
  "k < length ps \<Longrightarrow> log_lines stamp i ps ! k = stamp @ Itoa (i + int k) @ ''    '' @ Itoa (ps ! k)"
  by (induction ps arbitrary: i k) (auto simp: nth_Cons algebra_simps split: nat.split)

lemma length_log_lines [simp]: "length (log_lines stamp i ps) = length ps"
  by (induction ps arbitrary: i) simp_all

text \<open>Every call writes all the points again: logging twice leaves the points of before twice in the file.\<close>

lemma points_are_logged_again:
  assumes "opens (FPath l)" "LogTime2File opens stamp l files = Inr files1" "LogTime2File opens stamp (AppendPoint now l) files1 = Inr files2"
  shows "files2 (FPath l) = files (FPath l) @ log_lines stamp 0 (TimePoints l) @ log_lines stamp 0 (TimePoints l @ [now sdiv 1000000])"
  using assms by (auto simp: LogTime2File_def AppendPoint_def)

end
