(* ===== verification/Ord_Safety.thy ===== *)
theory Ord_Safety
  imports Ord_Props Hs_Safety Pbft_Safety
begin

text \<open>
  What the block files of a server depend on: all operations of the orderer, those of the node
  management included, and which of them store a block for which reason, for basic HotStuff and for
  PBFT.
\<close>

section \<open>Basic HotStuff\<close>

text \<open>
  A synchronisation: the first block of the message is stored at its own height, height and view are
  those of the message, and nothing vouches for any of it.
\<close>

definition store_by_sync :: "BCHotstuff \<Rightarrow> NodeMgmtMsg \<Rightarrow> BCHotstuff \<Rightarrow> bool" where
  "store_by_sync s m s' \<longleftrightarrow> (\<exists>b bs. nm_Block m = b # bs \<and>
     bs_Files (BlkStore s') = (bs_Files (BlkStore s))(block_file (bs_Path (BlkStore s) @ ''/'') (bh_Height (BlkHdr b)) \<mapsto> b) \<and>
     bs_Height (BlkStore s') = bd_Height (BlkData b) + 1 \<and> ViewNumber (hs_View s') = nm_ViewNumber m)"

lemma bhs_SyncInfo_store: "bhs_SyncInfo s m l = Some s' \<Longrightarrow> store_by_sync s m s'"
  by (auto simp: bhs_SyncInfo_def bhs_NewRound_def store_by_sync_def Let_def bind_Some_iff StoreBlock_def UpdateView_def
      split: list.splits)

lemma bhs_FixLeader_store: "BlkStore (bhs_FixLeader env s) = BlkStore s"
proof -
  have "BlkStore (foldl (\<lambda>s i. s\<lparr>NewViewMsgs := NewViewMsgs s @ [x]\<rparr>) s is) = BlkStore s" for x s and "is" :: "nat list"
    by (induction "is" arbitrary: s) simp_all
  then show ?thesis by (simp add: bhs_FixLeader_def Let_def)
qed

lemma hs_manage_store:
  "hs_same_store s (bhs_ClearCurrentRound env s)" "hs_same_store s (bhs_InitLeader env s)"
  "hs_same_store s (bhs_FixLeader env s)" "hs_same_store s (bhs_UpdateNodesNum s n)"
  "stop_ViewTimer s = Some t \<Longrightarrow> hs_same_store s t"
  "RestartBasicHotstuff env s = Some (ret, u) \<Longrightarrow> hs_same_store s u"
  by (auto simp: hs_same_store_def bhs_ClearCurrentRound_def GenEmptyBlock_def bhs_InitLeader_def bhs_FixLeader_store
      bhs_UpdateNodesNum_def RestartBasicHotstuff_def Let_def bind_Some_iff dest!: timer_frameE GenProposal_frame split: if_splits option.splits)

lemma SendMsg_store:
  "ord_SendMsg r m = Some r' \<Longrightarrow> ConsType r = CT_BASIC \<Longrightarrow> BasicHotstuff r = Some s \<Longrightarrow>
     \<exists>s'. BasicHotstuff r' = Some s' \<and> hs_same_store s s'"
  by (auto simp: ord_SendMsg_def on_basic_def hs_same_store_def bind_Some_iff split: any_Msg.splits)

lemma on_basic_D:
  "on_basic f r = Some r' \<Longrightarrow> BasicHotstuff r = Some s \<Longrightarrow> BasicHotstuff r' = Some s' \<Longrightarrow> f s = Some s'"
  by (auto simp: on_basic_def bind_Some_iff)

text \<open>
  C5 Why a basic HotStuff server stores a block: whatever its orderer does in one operation (a message, a
  request, an expiry, a goroutine, a stop, a reset of the round, a restart, a change of the number of
  nodes, \<open>SendMsg\<close>, a synchronisation), if it changes the block files or the height, it is one of two. Either the
  node handles a DECIDE message of its current view while in the commit phase, whose commit
  certificate is of this view and verifies: exactly one file changes, it now holds the proposal
  block with that certificate's signature, and height and view grow by one. Or it is the
  synchronisation of a node that joins: the first block of the message is stored, height and view
  are taken from the message, and no certificate is asked for.
\<close>

theorem basic_stores_only_certified:
  assumes "ConsType r = CT_BASIC" "BasicHotstuff r = Some s"
    and "ord_step env r e = Some r'" "BasicHotstuff r' = Some s'" "\<not> hs_same_store s s'"
  shows "(\<exists>now b pk m. e = OMsg now b pk \<and> HandleState r \<and> dec_Msg env b = Some m \<and> store_by_decide env s m s') \<or>
    (\<exists>m l. e = OSync m l \<and> store_by_sync s m s')"
proof -
  note basic = assms(1,2,4)
  have core: "f s = Some s'" if "on_core f g h p r = Some r'" for f g h p
    using that assms(1) on_basic_D [OF _ assms(2,4)] by (simp add: on_core_def)
  have ev: "\<exists>now m pk. x = Deliver now (Some m) pk \<and> store_by_decide env s m s'" if "hs_step env s x = Some s'" for x
    using hs_store_only_decided [OF that assms(5)] .
  have msg: ?thesis if "HandleState r" "hs_step env s (Deliver now (dec_Msg env b) pk) = Some s'" "e = OMsg now b pk" for now b pk
    using ev [OF that(2)] that(1,3) by auto
  have same: ?thesis if "hs_same_store s s'"
    using that assms(5) by simp
  show ?thesis
  proof (cases e)
    case (OMsg now b pk)
    with assms(3) have h: "ord_HandleMsg (env\<lparr>Clock := now\<rparr>) r b pk = Some r'" by simp
    show ?thesis
    proof (cases "HandleState r")
      case True
      with h have "HandleBMsg (env\<lparr>Clock := now\<rparr>) s (dec_Msg (env\<lparr>Clock := now\<rparr>) b) pk = Some s'"
        unfolding ord_HandleMsg_def by (simp only: if_True) (rule core)
      with True OMsg show ?thesis by (intro msg) simp_all
    next
      case False
      with h basic have "s' = s" by (simp add: ord_HandleMsg_def)
      then show ?thesis by (intro same) simp
    qed
  next
    case (OReq now h ph ch reqs)
    with assms(3) have q: "ord_HandleReq (env\<lparr>Clock := now\<rparr>) r h ph ch reqs = Some r'" by simp
    show ?thesis
    proof (cases "ReqState r")
      case True
      with q have "bhs_HandleReq (env\<lparr>Clock := now\<rparr>) s h ph reqs = Some s'"
        unfolding ord_HandleReq_def by (simp only: if_True) (rule core)
      then have "hs_step env s (Request now h ph reqs) = Some s'" by simp
      from ev [OF this] show ?thesis by blast
    next
      case False
      with q basic have "s' = s" by (simp add: ord_HandleReq_def)
      then show ?thesis by (intro same) simp
    qed
  next
    case OTimeout
    with assms(3) have "hs_step env s Timeout = Some s'" by (simp only: ord_step.simps) (rule core)
    from ev [OF this] show ?thesis by blast
  next
    case OEnterTimeout
    with assms(3) have "Some s = Some s'" by (simp only: ord_step.simps) (rule core)
    then show ?thesis by (intro same) simp
  next
    case (OTask k now)
    with assms(3) have "hs_step env s RunSend = Some s'" by (simp only: ord_step.simps) (rule core)
    from ev [OF this] show ?thesis by blast
  next
    case OStop
    with assms(3) basic have "stop_ViewTimer s = Some s'"
      by (auto simp: ord_Stop_def on_core_def on_basic_def bind_Some_iff)
    with hs_manage_store(5) same show ?thesis by blast
  next
    case OReset
    with assms(3) basic have "s' = bhs_ClearCurrentRound env s"
      by (auto simp: ResetState_def ord_ClearCurrentRound_def on_basic_def bind_Some_iff)
    with hs_manage_store(1) same show ?thesis by blast
  next
    case (ORestart now)
    with assms(1-3) obtain ret u where u: "RestartBasicHotstuff (env\<lparr>Clock := now\<rparr>) s = Some (ret, u)"
      "send_ret BasicMsg ret (r\<lparr>BasicHotstuff := Some u\<rparr>) = Some r'" by (auto simp: RestartCons_def bind_Some_iff)
    have "hs_same_store u s'"
      using u(2) basic SendMsg_store [of "r\<lparr>BasicHotstuff := Some u\<rparr>" _ r' u]
      by (auto simp: send_ret_def split: option.splits)
    with hs_manage_store(6) [OF u(1)] same show ?thesis by (simp add: hs_same_store_def)
  next
    case OInit
    with assms(3) basic have "s' = bhs_InitLeader env s" by (auto simp: ord_InitLeader_def on_core_def on_basic_def)
    with hs_manage_store(2) same show ?thesis by blast
  next
    case OFix
    with assms(3) basic have "s' = bhs_FixLeader env s" by (auto simp: ord_FixLeader_def on_basic_def)
    with hs_manage_store(3) same show ?thesis by blast
  next
    case ORefresh
    with assms(3) basic have "\<exists>v. s' = s\<lparr>hs_View := v\<rparr>"
      by (auto simp: ord_RefreshLeader_def on_core_def on_basic_def bind_Some_iff)
    then show ?thesis by (intro same) (auto simp: hs_same_store_def)
  next
    case (ONodes n)
    with assms(3) basic have "s' = bhs_UpdateNodesNum s n" by (auto simp: ord_UpdateNodesNum_def on_core_def on_basic_def)
    with hs_manage_store(4) same show ?thesis by blast
  next
    case (OSync m l)
    with assms(3) have "bhs_SyncInfo s m l = Some s'" by (simp only: ord_step.simps ord_SyncInfo_def) (rule core)
    with bhs_SyncInfo_store OSync show ?thesis by blast
  next
    case (OSend m)
    with SendMsg_store [OF _ assms(1,2)] assms(3) basic(3) same show ?thesis by fastforce
  qed
qed

text \<open>A decision of node 1, and a synchronisation of the same node.\<close>

definition ok_node_env :: node_env where
  "ok_node_env = node_demo_env\<lparr>BdnVerify := \<lambda>pub m sig. True, dec_Msg := \<lambda>b. Some (ok_cert HS_DECIDE HS_COMMIT)\<rparr>"

definition ok_orderer :: Orderer where
  "ok_orderer = nil_Orderer\<lparr>ConsType := CT_BASIC, HandleState := True, ReqState := True,
     BasicHotstuff := Some (ok_state\<lparr>CurPhase := HS_COMMIT\<rparr>)\<rparr>"

theorem basic_stores_only_certified_witness:
  "\<exists>r' s'. ord_step ok_node_env ok_orderer (OMsg 4 [] None) = Some r' \<and> BasicHotstuff r' = Some s' \<and>
     store_by_decide ok_node_env (ok_state\<lparr>CurPhase := HS_COMMIT\<rparr>) (ok_cert HS_DECIDE HS_COMMIT) s'"
proof -
  let ?s = "ok_state\<lparr>CurPhase := HS_COMMIT\<rparr>" and ?m = "ok_cert HS_DECIDE HS_COMMIT" and ?e = "ok_node_env\<lparr>Clock := 4\<rparr>"
  have "hs_inv ?s" using ok_state_facts(1) by (simp add: hs_inv_def)
  moreover have "fits ?e ?s ?m HS_DECIDE HS_COMMIT"
    by (simp add: fits_def CheckQC_True MatchingQC_def ThresholdSignVerify_def ok_cert_def ok_node_env_def node_demo_env_def)
  ultimately obtain t where t: "HandleBMsg ?e ?s (Some ?m) None = Some t"
    "BlkStore t = StoreBlock ((BlkStore ?s)\<lparr>CurProposalBlk := decided_block ?s ?m\<rparr>) (decided_block ?s ?m)"
    using step_decide [of ?s ?e ?m None] by (auto simp del: ok_state_facts)
  have r: "ord_step ok_node_env ok_orderer (OMsg 4 [] None) = Some (ok_orderer\<lparr>BasicHotstuff := Some t\<rparr>)"
    using t(1) by (simp add: ord_HandleMsg_def on_core_def on_basic_def ok_orderer_def) (simp add: ok_node_env_def)
  have "\<not> hs_same_store ?s t" using t(2) by (simp add: hs_same_store_def StoreBlock_def)
  with basic_stores_only_certified [OF _ _ r, of ?s t] have "store_by_decide ok_node_env ?s ?m t"
    by (auto simp: ok_orderer_def ok_node_env_def)
  with r show ?thesis by auto
qed

section \<open>PBFT\<close>






lemma quorum_block_Clock [simp]: "quorum_block (env\<lparr>Clock := t\<rparr>) s m cs s' = quorum_block env s m cs s'"
  by (simp add: quorum_block_def stored_with_def pb_verify_def ssm2_VerifySign_def)
















end
